(* ===== verification/Prelude.thy ===== *)
theory Prelude
  imports Main "HOL-Library.Word" "HOL-Library.State_Monad"
begin

text \<open>
  Shared ground of the development: the machine integer types, the conventions for
  return codes, the state monad that sequences register and port accesses, and the
  generic facts about words, bytes and lists that the component theories use.

  \<^item> A C function that returns a status \<open>int\<close> is a monadic action of result type \<open>int\<close>.
  \<^item> A C function that returns a status and fills an out-parameter has result type
    \<open>int + 'a\<close>: \<open>Inl rc\<close> for a failing status, \<open>Inr v\<close> for status 0 and the value.
  \<^item> Status codes are the negated Linux \<open>errno\<close> numbers.
\<close>

unbundle bit_operations_syntax

type_synonym u8 = "8 word"
type_synonym u16 = "16 word"
type_synonym u32 = "32 word"
type_synonym u64 = "64 word"

section \<open>Status codes\<close>

abbreviation EPERM :: int where "EPERM \<equiv> 1"
abbreviation ENOENT :: int where "ENOENT \<equiv> 2"
abbreviation EIO :: int where "EIO \<equiv> 5"
abbreviation ENXIO :: int where "ENXIO \<equiv> 6"
abbreviation ENOMEM :: int where "ENOMEM \<equiv> 12"
abbreviation EACCES :: int where "EACCES \<equiv> 13"
abbreviation ENODEV :: int where "ENODEV \<equiv> 19"
abbreviation EINVAL :: int where "EINVAL \<equiv> 22"
abbreviation ERANGE :: int where "ERANGE \<equiv> 34"
abbreviation EBADE :: int where "EBADE \<equiv> 52"
abbreviation EOPNOTSUPP :: int where "EOPNOTSUPP \<equiv> 95"
abbreviation ENOTSUP :: int where "ENOTSUP \<equiv> 95"
abbreviation ETIMEDOUT :: int where "ETIMEDOUT \<equiv> 110"
abbreviation EALREADY :: int where "EALREADY \<equiv> 114"
abbreviation EUCLEAN :: int where "EUCLEAN \<equiv> 117"
abbreviation EREMOTEIO :: int where "EREMOTEIO \<equiv> 121"

text \<open>The bits.h macros \<open>BIT\<close> and \<open>GENMASK\<close> on 32-bit registers.\<close>

definition BIT :: "nat \<Rightarrow> u32" where
  "BIT x = push_bit x 1"

definition GENMASK :: "nat \<Rightarrow> nat \<Rightarrow> u32" where
  "GENMASK h l = (BIT h OR (BIT h - 1)) AND NOT (BIT l - 1)"

section \<open>The state monad\<close>

abbreviation ret :: "'a \<Rightarrow> ('s, 'a) state" where
  "ret \<equiv> State_Monad.return"

text \<open>
  Execution of a bind in terms of the projections of the first step: with the result and
  the successor state of a primitive known as rewrite rules, a whole handler is evaluated
  by the simplifier.
\<close>

declare run_state_bind [simp del]

lemma run_bind [simp]:
  "run_state (State_Monad.bind m f) s = run_state (f (fst (run_state m s))) (snd (run_state m s))"
  by (simp add: run_state_bind split_def)

text \<open>Run an action on a component of the state.\<close>

definition zoom :: "('t \<Rightarrow> 's) \<Rightarrow> ('s \<Rightarrow> 't \<Rightarrow> 't) \<Rightarrow> ('s, 'a) state \<Rightarrow> ('t, 'a) state" where
  "zoom g p m = State (\<lambda>t. (fst (run_state m (g t)), p (snd (run_state m (g t))) t))"

lemma run_zoom [simp]:
  "run_state (zoom g p m) t = (fst (run_state m (g t)), p (snd (run_state m (g t))) t)"
  by (simp add: zoom_def)

definition gets :: "('s \<Rightarrow> 'a) \<Rightarrow> ('s, 'a) state" where
  "gets f = State (\<lambda>s. (f s, s))"

definition modify :: "('s \<Rightarrow> 's) \<Rightarrow> ('s, unit) state" where
  "modify f = State (\<lambda>s. ((), f s))"

lemma run_gets [simp]: "run_state (gets f) s = (f s, s)"
  by (simp add: gets_def)

lemma run_modify [simp]: "run_state (modify f) s = ((), f s)"
  by (simp add: modify_def)

lemma run_if [simp]:
  "run_state (if b then m else n) s = (if b then run_state m s else run_state n s)"
  by simp

lemma run_case_sum:
  "run_state (case x of Inl e \<Rightarrow> f e | Inr v \<Rightarrow> g v) s =
     (case x of Inl e \<Rightarrow> run_state (f e) s | Inr v \<Rightarrow> run_state (g v) s)"
  by (cases x) simp_all

text \<open>
  The idioms of the code around a status: \<open>rc = m(); if (rc) return rc;\<close> is \<open>nz_then\<close>,
  \<open>rc = m(); if (rc < 0) return rc;\<close> is \<open>neg_then\<close>, and the same around a function that fills
  an out-parameter is \<open>val_then\<close> in a function that returns a status and \<open>valr_then\<close> in
  one that fills an out-parameter itself.
\<close>

definition nz_then :: "('s, int) state \<Rightarrow> ('s, int) state \<Rightarrow> ('s, int) state" where
  "nz_then m k = do { rc \<leftarrow> m; (if rc \<noteq> 0 then ret rc else k) }"

definition neg_then :: "('s, int) state \<Rightarrow> ('s, int) state \<Rightarrow> ('s, int) state" where
  "neg_then m k = do { rc \<leftarrow> m; (if rc < 0 then ret rc else k) }"

definition val_then ::
  "('s, int + 'a) state \<Rightarrow> ('a \<Rightarrow> ('s, int) state) \<Rightarrow> ('s, int) state" where
  "val_then m k = do { r \<leftarrow> m; (case r of Inl rc \<Rightarrow> ret rc | Inr v \<Rightarrow> k v) }"

definition valr_then ::
  "('s, int + 'a) state \<Rightarrow> ('a \<Rightarrow> ('s, int + 'b) state) \<Rightarrow> ('s, int + 'b) state" where
  "valr_then m k = do { r \<leftarrow> m; (case r of Inl rc \<Rightarrow> ret (Inl rc) | Inr v \<Rightarrow> k v) }"

definition nzr_then :: "('s, int) state \<Rightarrow> ('s, int + 'b) state \<Rightarrow> ('s, int + 'b) state" where
  "nzr_then m k = do { rc \<leftarrow> m; (if rc \<noteq> 0 then ret (Inl rc) else k) }"

lemma run_nz_then [simp]:
  "run_state (nz_then m k) s =
     (if fst (run_state m s) = 0 then run_state k (snd (run_state m s)) else run_state m s)"
  by (simp add: nz_then_def prod_eq_iff)

lemma run_neg_then [simp]:
  "run_state (neg_then m k) s =
     (if 0 \<le> fst (run_state m s) then run_state k (snd (run_state m s)) else run_state m s)"
  by (simp add: neg_then_def prod_eq_iff)

lemma run_val_then [simp]:
  "run_state (val_then m k) s =
     (case fst (run_state m s) of Inl rc \<Rightarrow> (rc, snd (run_state m s))
      | Inr v \<Rightarrow> run_state (k v) (snd (run_state m s)))"
  by (simp add: val_then_def split: sum.split)

lemma run_valr_then [simp]:
  "run_state (valr_then m k) s =
     (case fst (run_state m s) of Inl rc \<Rightarrow> (Inl rc, snd (run_state m s))
      | Inr v \<Rightarrow> run_state (k v) (snd (run_state m s)))"
  by (simp add: valr_then_def split: sum.split)

lemma run_nzr_then [simp]:
  "run_state (nzr_then m k) s =
     (if fst (run_state m s) = 0 then run_state k (snd (run_state m s))
      else (Inl (fst (run_state m s)), snd (run_state m s)))"
  by (simp add: nzr_then_def)

text \<open>The same idiom between functions that touch no hardware.\<close>

fun rbind :: "int + 'a \<Rightarrow> ('a \<Rightarrow> int + 'b) \<Rightarrow> int + 'b" where
  "rbind (Inl rc) f = Inl rc"
| "rbind (Inr v) f = f v"

lemma rbind_Inr_iff: "rbind x f = Inr w \<longleftrightarrow> (\<exists>v. x = Inr v \<and> f v = Inr w)"
  by (cases x) simp_all

section \<open>Address arithmetic on 32 bits\<close>

lemma unat_u32_less [simp]: "unat (x :: u32) < 4294967296"
  using unsigned_less [where 'a = nat and w = x] by simp

lemma unat_add_of_nat:
  fixes x :: u32
  assumes "unat x + k < 2 ^ 32"
  shows "unat (x + of_nat k) = unat x + k"
proof -
  have "unat (of_nat k :: u32) = k" using assms by (simp add: unat_of_nat)
  with assms show ?thesis by (simp add: unat_word_ariths del: unat_of_nat)
qed

lemma unat_add_of_nat_le: "unat (x + of_nat k) \<le> unat (x :: u32) + k"
proof -
  have "unat (x + of_nat k) \<le> unat x + unat (of_nat k :: u32)" by (simp only: unat_word_ariths(1) mod_less_eq_dividend)
  also have "unat (of_nat k :: u32) \<le> k" by (simp add: unat_of_nat)
  finally show ?thesis by simp
qed

lemma unat_minus_of_nat:
  fixes y :: u32
  assumes "k \<le> unat y"
  shows "unat (y - of_nat k) = unat y - k"
proof -
  have "k < 2 ^ 32" using le_less_trans [OF assms unat_u32_less] by simp
  then have "unat (of_nat k :: u32) = k" by (simp add: unat_of_nat)
  then show ?thesis using assms
    by (simp add: unat_sub word_le_nat_alt)
qed

text \<open>Widening to 64 bits and back.\<close>

lemma ucast_32_64 [simp]: "ucast (ucast (x :: u32) :: u64) = x"
  by (rule bit_word_eqI) (simp add: bit_simps)

lemma unat_ucast_32_64 [simp]: "unat (ucast (x :: u32) :: u64) = unat x"
proof -
  have "take_bit 64 (unat x) = unat x"
    by (rule take_bit_nat_eq_self) (rule less_trans [OF unat_u32_less], simp)
  then show ?thesis by (simp add: unsigned_ucast_eq)
qed

lemma unat_ucast_64_32: "unat (x :: u64) < 2 ^ 32 \<Longrightarrow> unat (ucast x :: u32) = unat x"
  by (simp add: unsigned_ucast_eq take_bit_nat_eq_self)

text \<open>Masks.\<close>

lemma unat_and_mask: "unat (x AND mask n :: 'a::len word) = unat x mod 2 ^ n"
proof -
  have "unat (take_bit n x) = take_bit n (unat x)" by (rule unsigned_take_bit_eq)
  then show ?thesis by (simp add: take_bit_eq_mask [of n x] take_bit_eq_mod [of n "unat x"])
qed

lemma and_plus_and_not: "(x AND m) + (x AND NOT m) = (x :: 'a::len word)"
proof -
  have "(x AND m) AND (x AND NOT m) = 0" by (simp add: bit_eq_iff bit_simps)
  then have "(x AND m) + (x AND NOT m) = (x AND m) OR (x AND NOT m)" by (rule disjunctive_add_eq_or)
  also have "\<dots> = x" by (auto intro: bit_word_eqI simp: bit_simps)
  finally show ?thesis .
qed

lemma unat_and_not_mask: "unat (x AND NOT (mask n) :: 'a::len word) = unat x div 2 ^ n * 2 ^ n"
proof -
  have "x AND NOT (mask n) = x - (x AND mask n)"
    using and_plus_and_not [of x "mask n"] by (simp add: algebra_simps)
  moreover have "x AND mask n \<le> x" by (rule word_and_le2)
  ultimately show ?thesis by (simp add: unat_sub unat_and_mask minus_mod_eq_div_mult)
qed

lemma and_3_eq_0_iff: "(a :: u32) AND 3 = 0 \<longleftrightarrow> unat a mod 4 = 0"
proof -
  have 3: "(3 :: u32) = mask 2" by (simp add: mask_eq_exp_minus_1)
  have "unat (a AND 3) = unat a mod 4" using unat_and_mask [of a 2] unfolding 3 by simp
  then show ?thesis by (metis unat_eq_zero)
qed

section \<open>Bytes of a little-endian word\<close>

definition byte_of :: "nat \<Rightarrow> u32 \<Rightarrow> u8" where
  "byte_of i w = ucast (drop_bit (8 * i) w)"

definition le_bytes :: "u32 \<Rightarrow> u8 list" where
  "le_bytes w = [byte_of 0 w, byte_of 1 w, byte_of 2 w, byte_of 3 w]"

definition le_word :: "u8 \<Rightarrow> u8 \<Rightarrow> u8 \<Rightarrow> u8 \<Rightarrow> u32" where
  "le_word b0 b1 b2 b3 =
     ucast b0 OR push_bit 8 (ucast b1) OR push_bit 16 (ucast b2) OR push_bit 24 (ucast b3)"

lemma length_le_bytes [simp]: "length (le_bytes w) = 4"
  by (simp add: le_bytes_def)

text \<open>Bits of a word beyond its length are clear, in the form the bit calculations need.\<close>

lemma bit_u8_bound: "bit (b :: u8) n \<Longrightarrow> n < 8"
  using bit_imp_le_length by fastforce

lemma le_word_bytes [simp]:
  "le_word (byte_of 0 w) (byte_of 1 w) (byte_of 2 w) (byte_of 3 w) = w"
proof (rule bit_word_eqI)
  fix n
  assume "n < LENGTH(32)"
  then consider "n < 8" | "8 \<le> n" "n < 16" | "16 \<le> n" "n < 24" | "24 \<le> n" "n < 32"
    by force
  then show "bit (le_word (byte_of 0 w) (byte_of 1 w) (byte_of 2 w) (byte_of 3 w)) n = bit w n"
    by cases (auto simp: le_word_def byte_of_def bit_simps)
qed

lemma le_word_bytes_Suc [simp]:
  "le_word (byte_of 0 w) (byte_of (Suc 0) w) (byte_of 2 w) (byte_of 3 w) = w"
  using le_word_bytes [of w] by (simp only: One_nat_def)

lemma byte_of_le_word [simp]:
  "byte_of 0 (le_word a b c d) = a"
  "byte_of (Suc 0) (le_word a b c d) = b"
  "byte_of 2 (le_word a b c d) = c"
  "byte_of 3 (le_word a b c d) = d"
  by (rule bit_word_eqI; auto simp: le_word_def byte_of_def bit_simps dest: bit_u8_bound)+

end
