(* ===== verification/Ahb.thy ===== *)
theory Ahb
  imports Prelude
begin

text \<open>
  The AHB access interface, \<^verbatim>\<open>src/ahb.h\<close> and \<^verbatim>\<open>src/ahb.c\<close>: the table of bridge
  operations every driver is written against, the bridge driver descriptor and the two
  bulk copy loops between the bus and a file descriptor. The contracts a bridge offers
  its clients are the locales \<open>ahb_bridge\<close> (word accesses reach the bus behind the bridge
  unchanged), \<open>reg_bus\<close> (that bus is a register file) and \<open>ahb_ram\<close> (bulk accesses move
  the bytes of memory).
\<close>

section \<open>Operations of a bridge\<close>

record 's ahb_ops =
  ops_read :: "u32 \<Rightarrow> nat \<Rightarrow> ('s, int + u8 list) state"
  ops_write :: "u32 \<Rightarrow> u8 list \<Rightarrow> ('s, int) state"
  ops_readl :: "u32 \<Rightarrow> ('s, int + u32) state"
  ops_writel :: "u32 \<Rightarrow> u32 \<Rightarrow> ('s, int) state"

record 's bridge_driver =
  drv_name :: string
  drv_release :: "('s, int) state option"
  drv_reinit :: "('s, int) state option"
  drv_path_required :: bool
  drv_local :: bool
  drv_disabled :: bool

record 's ahb =
  ahb_drv :: "'s bridge_driver"
  ahb_ops :: "'s ahb_ops"

definition ahb_read :: "'s ahb \<Rightarrow> u32 \<Rightarrow> nat \<Rightarrow> ('s, int + u8 list) state" where
  "ahb_read ctx phys len = ops_read (ahb_ops ctx) phys len"

definition ahb_write :: "'s ahb \<Rightarrow> u32 \<Rightarrow> u8 list \<Rightarrow> ('s, int) state" where
  "ahb_write ctx phys buf = ops_write (ahb_ops ctx) phys buf"

definition ahb_readl :: "'s ahb \<Rightarrow> u32 \<Rightarrow> ('s, int + u32) state" where
  "ahb_readl ctx phys = ops_readl (ahb_ops ctx) phys"

definition ahb_writel :: "'s ahb \<Rightarrow> u32 \<Rightarrow> u32 \<Rightarrow> ('s, int) state" where
  "ahb_writel ctx phys val = ops_writel (ahb_ops ctx) phys val"

definition ahb_release_bridge :: "'s ahb \<Rightarrow> ('s, int) state" where
  "ahb_release_bridge ctx =
     (case drv_release (ahb_drv ctx) of Some release \<Rightarrow> release | None \<Rightarrow> ret 0)"

definition ahb_reinit_bridge :: "'s ahb \<Rightarrow> ('s, int) state" where
  "ahb_reinit_bridge ctx =
     (case drv_reinit (ahb_drv ctx) of Some reinit \<Rightarrow> reinit | None \<Rightarrow> ret 0)"

section \<open>Bulk copies between the bus and a file descriptor\<close>

text \<open>
  \<open>write(2)\<close> and \<open>read(2)\<close> on the descriptor are parameters: \<open>wr buf\<close> gives the number
  of bytes taken or a negated \<open>errno\<close>, \<open>rd n\<close> gives at most \<open>n\<close> bytes or a negated
  \<open>errno\<close>. Neither loop need end (a descriptor may accept nothing for ever, and a length
  of -1 asks for an endless copy), so both are \<open>option\<close>-valued: \<open>None\<close> is not returning.
\<close>

definition AHB_CHUNK :: int where
  "AHB_CHUNK = 1048576"

definition size_of_ssize :: "int \<Rightarrow> nat" where
  "size_of_ssize n = nat (n mod 2 ^ 64)"

partial_function (option) write_all ::
  "(u8 list \<Rightarrow> ('s, int) state) \<Rightarrow> u8 list \<Rightarrow> 's \<Rightarrow> (int \<times> 's) option" where
  "write_all wr cursor s =
     (if cursor = [] then Some (0, s)
      else let (egress, s') = run_state (wr cursor) s
           in if egress < 0 then Some (egress, s')
              else write_all wr (drop (nat egress) cursor) s')"

definition siphon_chunk :: "int \<Rightarrow> int" where
  "siphon_chunk len = (if len > AHB_CHUNK \<or> len = -1 then AHB_CHUNK else len)"

partial_function (option) siphon_out_loop ::
  "'s ahb \<Rightarrow> (u8 list \<Rightarrow> ('s, int) state) \<Rightarrow> u32 \<Rightarrow> int \<Rightarrow> 's \<Rightarrow> (int \<times> 's) option" where
  "siphon_out_loop ctx wr phys len s =
     (let (r, s1) = run_state (ahb_read ctx phys (size_of_ssize (siphon_chunk len))) s
      in case r of
           Inl _ \<Rightarrow> Some (- EIO, s1)
         | Inr chunk \<Rightarrow>
             (let phys' = phys + of_nat (length chunk);
                  len' = (if len > 0 then len - int (length chunk) else len)
              in Option.bind (write_all wr chunk s1) (\<lambda>(rc, s2).
                   if rc < 0 then Some (rc, s2)
                   else if len' \<noteq> 0 then siphon_out_loop ctx wr phys' len' s2
                   else Some (0, s2))))"

definition ahb_siphon_out ::
  "'s ahb \<Rightarrow> (u8 list \<Rightarrow> ('s, int) state) \<Rightarrow> u32 \<Rightarrow> int \<Rightarrow> 's \<Rightarrow> (int \<times> 's) option" where
  "ahb_siphon_out ctx wr phys len s =
     (if len = 0 then Some (0, s) else siphon_out_loop ctx wr phys len s)"

partial_function (option) ahb_siphon_in ::
  "'s ahb \<Rightarrow> (nat \<Rightarrow> ('s, int + u8 list) state) \<Rightarrow> u32 \<Rightarrow> int \<Rightarrow> 's \<Rightarrow> (int \<times> 's) option" where
  "ahb_siphon_in ctx rd phys len s =
     (let (r, s1) = run_state (rd (size_of_ssize (siphon_chunk len))) s
      in case r of
           Inl e \<Rightarrow> Some (e, s1)
         | Inr [] \<Rightarrow> Some (0, s1)
         | Inr (b # bs) \<Rightarrow>
             (let chunk = b # bs;
                  (egress, s2) = run_state (ahb_write ctx phys chunk) s1
              in if egress < 0 then Some (- EIO, s2)
                 else ahb_siphon_in ctx rd (phys + of_nat (length chunk))
                        (if len > 0 then len - int (length chunk) else len) s2))"

section \<open>Word accesses: what a bridge promises\<close>

text \<open>
  The bus behind a bridge is the system on chip itself, which is not code of this
  repository: it is given by its loads and stores.
\<close>

record 't target =
  tgt_ld8 :: "u32 \<Rightarrow> ('t, u8) state"
  tgt_st8 :: "u32 \<Rightarrow> u8 \<Rightarrow> ('t, unit) state"
  tgt_ld32 :: "u32 \<Rightarrow> ('t, u32) state"
  tgt_st32 :: "u32 \<Rightarrow> u32 \<Rightarrow> ('t, unit) state"

definition word_aligned :: "u32 \<Rightarrow> bool" where
  "word_aligned a \<longleftrightarrow> a AND 3 = 0"

lemma word_aligned_iff: "word_aligned a \<longleftrightarrow> unat a mod 4 = 0"
  by (simp add: word_aligned_def and_3_eq_0_iff)

lemma word_aligned_add_nat: "word_aligned a \<Longrightarrow> n mod 4 = 0 \<Longrightarrow> word_aligned (a + of_nat n)"
  unfolding word_aligned_iff
  by (simp add: unat_word_ariths unat_of_nat mod_mod_cancel mod_add_right_eq mod_add_left_eq)
    (metis add_0 mod_add_eq mod_0)

text \<open>
  The contract of the word accesses: on an aligned address they succeed and are exactly
  one load or one store of the bus behind the bridge.
\<close>

locale ahb_bridge =
  fixes ops :: "'s ahb_ops"
    and invar :: "'s \<Rightarrow> bool"
    and tgt :: "'t target"
    and bus :: "'s \<Rightarrow> 't"
  assumes readl_val: "invar s \<Longrightarrow> word_aligned a \<Longrightarrow>
      fst (run_state (ops_readl ops a) s) = Inr (fst (run_state (tgt_ld32 tgt a) (bus s)))"
    and readl_bus: "invar s \<Longrightarrow> word_aligned a \<Longrightarrow>
      bus (snd (run_state (ops_readl ops a) s)) = snd (run_state (tgt_ld32 tgt a) (bus s))"
    and readl_inv: "invar s \<Longrightarrow> word_aligned a \<Longrightarrow> invar (snd (run_state (ops_readl ops a) s))"
    and writel_rc: "invar s \<Longrightarrow> word_aligned a \<Longrightarrow> fst (run_state (ops_writel ops a v) s) = 0"
    and writel_bus: "invar s \<Longrightarrow> word_aligned a \<Longrightarrow>
      bus (snd (run_state (ops_writel ops a v) s)) = snd (run_state (tgt_st32 tgt a v) (bus s))"
    and writel_inv: "invar s \<Longrightarrow> word_aligned a \<Longrightarrow> invar (snd (run_state (ops_writel ops a v) s))"

text \<open>
  A bus that is a register file: a load gives the register's value and changes nothing, a
  store changes the file as \<open>eff\<close> says. \<open>eff\<close> covers plain registers (the value is
  kept) and registers with write-one-to-set or write-one-to-clear behaviour.
\<close>

definition regfile ::
  "((u32 \<Rightarrow> u32) \<Rightarrow> u32 \<Rightarrow> u32 \<Rightarrow> (u32 \<Rightarrow> u32)) \<Rightarrow> (u32 \<Rightarrow> u32) target" where
  "regfile eff = \<lparr>
     tgt_ld8 = (\<lambda>a. gets (\<lambda>r. byte_of (unat (a AND 3)) (r (a AND NOT 3)))),
     tgt_st8 = (\<lambda>a b. modify (\<lambda>r. eff r (a AND NOT 3)
                  ((r (a AND NOT 3) AND NOT (push_bit (8 * unat (a AND 3)) 0xff))
                   OR push_bit (8 * unat (a AND 3)) (ucast b)))),
     tgt_ld32 = (\<lambda>a. gets (\<lambda>r. r a)),
     tgt_st32 = (\<lambda>a v. modify (\<lambda>r. eff r a v)) \<rparr>"

definition plain_eff :: "(u32 \<Rightarrow> u32) \<Rightarrow> u32 \<Rightarrow> u32 \<Rightarrow> (u32 \<Rightarrow> u32)" where
  "plain_eff r a v = r(a := v)"

lemma regfile_ld32 [simp]: "run_state (tgt_ld32 (regfile eff) a) r = (r a, r)"
  by (simp add: regfile_def)

lemma regfile_st32 [simp]: "run_state (tgt_st32 (regfile eff) a v) r = ((), eff r a v)"
  by (simp add: regfile_def)

locale reg_bus =
  fixes ops :: "'s ahb_ops"
    and invar :: "'s \<Rightarrow> bool"
    and reg :: "'s \<Rightarrow> u32 \<Rightarrow> u32"
    and eff :: "(u32 \<Rightarrow> u32) \<Rightarrow> u32 \<Rightarrow> u32 \<Rightarrow> (u32 \<Rightarrow> u32)"
  assumes bridge: "ahb_bridge ops invar (regfile eff) reg"
begin

lemma readl [simp]:
  assumes "invar s" "word_aligned a"
  shows "fst (run_state (ops_readl ops a) s) = Inr (reg s a)"
    and "reg (snd (run_state (ops_readl ops a) s)) = reg s"
    and "invar (snd (run_state (ops_readl ops a) s))"
  using assms ahb_bridge.readl_val [OF bridge] ahb_bridge.readl_bus [OF bridge]
    ahb_bridge.readl_inv [OF bridge] by simp_all

lemma writel [simp]:
  assumes "invar s" "word_aligned a"
  shows "fst (run_state (ops_writel ops a v) s) = 0"
    and "reg (snd (run_state (ops_writel ops a v) s)) = eff (reg s) a v"
    and "invar (snd (run_state (ops_writel ops a v) s))"
  using assms ahb_bridge.writel_rc [OF bridge] ahb_bridge.writel_bus [OF bridge]
    ahb_bridge.writel_inv [OF bridge] by simp_all

end

section \<open>Bulk accesses: what a bridge promises\<close>

definition mem_range :: "(u32 \<Rightarrow> u8) \<Rightarrow> u32 \<Rightarrow> nat \<Rightarrow> u8 list" where
  "mem_range m a n = map (\<lambda>i. m (a + of_nat i)) [0..<n]"

definition mem_upd :: "(u32 \<Rightarrow> u8) \<Rightarrow> u32 \<Rightarrow> u8 list \<Rightarrow> (u32 \<Rightarrow> u8)" where
  "mem_upd m a bs = (\<lambda>x. if unat (x - a) < length bs then bs ! unat (x - a) else m x)"

lemma length_mem_range [simp]: "length (mem_range m a n) = n"
  by (simp add: mem_range_def)

lemma mem_range_append:
  "mem_range m a (n + k) = mem_range m a n @ mem_range m (a + of_nat n) k"
  by (rule nth_equalityI) (auto simp: mem_range_def nth_append add.assoc simp flip: of_nat_add)

lemma mem_range_split:
  "k \<le> n \<Longrightarrow> mem_range m a n = mem_range m a k @ mem_range m (a + of_nat k) (n - k)"
  using mem_range_append [of m a k "n - k"] by simp

lemma mem_upd_Nil [simp]: "mem_upd m a [] = m"
  by (simp add: mem_upd_def)

lemma mem_upd_append:
  assumes "length bs + length cs \<le> 2 ^ 32"
  shows "mem_upd (mem_upd m a bs) (a + of_nat (length bs)) cs = mem_upd m a (bs @ cs)"
proof
  fix x :: u32
  let ?y = "x - a"
  have eq: "x - (a + of_nat (length bs)) = ?y - of_nat (length bs)" by simp
  show "mem_upd (mem_upd m a bs) (a + of_nat (length bs)) cs x = mem_upd m a (bs @ cs) x"
  proof (cases "length bs \<le> unat ?y")
    case True
    then have "unat (?y - of_nat (length bs)) = unat ?y - length bs" by (rule unat_minus_of_nat)
    with True show ?thesis unfolding mem_upd_def eq by (auto simp: nth_append)
  next
    case False
    have "\<not> unat (?y - of_nat (length bs)) < length cs"
    proof
      assume lt: "unat (?y - of_nat (length bs)) < length cs"
      let ?z = "?y - of_nat (length bs)"
      have "unat (?z + of_nat (length bs)) = unat ?z + length bs"
        using lt assms by (intro unat_add_of_nat) simp
      then have "unat ?y = unat ?z + length bs" by simp
      with False show False by simp
    qed
    with False show ?thesis unfolding mem_upd_def eq by (auto simp: nth_append)
  qed
qed

lemma mem_upd_Cons:
  assumes "length bs < 2 ^ 32"
  shows "mem_upd m a (b # bs) = mem_upd (m(a := b)) (a + 1) bs"
proof -
  have "m(a := b) = mem_upd m a [b]"
    by (auto simp: mem_upd_def fun_eq_iff unat_eq_0)
  then show ?thesis using mem_upd_append [of "[b]" bs m a] assms by simp
qed

lemma mem_upd_single: "mem_upd m a [b] = m(a := b)"
  by (auto simp: mem_upd_def fun_eq_iff unat_eq_0)

lemma fold_store:
  "n \<le> length buf \<Longrightarrow> n \<le> 2 ^ 32 \<Longrightarrow>
     fold (\<lambda>i m. m(a + of_nat i := buf ! i)) [0..<n] m = mem_upd m a (take n buf)"
proof (induction n)
  case (Suc n)
  then have "mem_upd (mem_upd m a (take n buf)) (a + of_nat (length (take n buf))) [buf ! n] =
      mem_upd m a (take n buf @ [buf ! n])"
    by (intro mem_upd_append) simp
  moreover have "fold (\<lambda>i m. m(a + of_nat i := buf ! i)) [0..<n] m = mem_upd m a (take n buf)"
    by (rule Suc.IH; use Suc.prems in simp)
  moreover have "fold f [0..<Suc n] m = f n (fold f [0..<n] m)" for f :: "nat \<Rightarrow> (u32 \<Rightarrow> u8) \<Rightarrow> (u32 \<Rightarrow> u8)"
    by simp
  ultimately show ?case
    using Suc.prems by (simp only: take_Suc_conv_app_nth mem_upd_single length_take Suc_le_eq) simp
qed simp

text \<open>Memory as the bus behind a bridge.\<close>

definition ram_target :: "(u32 \<Rightarrow> u8) target" where
  "ram_target = \<lparr>
     tgt_ld8 = (\<lambda>a. gets (\<lambda>m. m a)),
     tgt_st8 = (\<lambda>a b. modify (\<lambda>m. m(a := b))),
     tgt_ld32 = (\<lambda>a. gets (\<lambda>m. le_word (m a) (m (a + 1)) (m (a + 2)) (m (a + 3)))),
     tgt_st32 = (\<lambda>a v. modify (\<lambda>m. mem_upd m a (le_bytes v))) \<rparr>"

lemma ram_target_simps [simp]:
  "run_state (tgt_ld8 ram_target a) m = (m a, m)"
  "run_state (tgt_st8 ram_target a b) m = ((), m(a := b))"
  "run_state (tgt_ld32 ram_target a) m = (le_word (m a) (m (a + 1)) (m (a + 2)) (m (a + 3)), m)"
  "run_state (tgt_st32 ram_target a v) m = ((), mem_upd m a (le_bytes v))"
  by (simp_all add: ram_target_def)

text \<open>
  The contract of the bulk accesses, on the spans a bridge serves correctly: a read gives
  the bytes of memory, a write stores them and reports their number.
\<close>

locale ahb_ram =
  fixes ops :: "'s ahb_ops"
    and invar :: "'s \<Rightarrow> bool"
    and mem :: "'s \<Rightarrow> u32 \<Rightarrow> u8"
    and span :: "u32 \<Rightarrow> nat \<Rightarrow> bool"
  assumes read_val: "invar s \<Longrightarrow> span a n \<Longrightarrow>
      fst (run_state (ops_read ops a n) s) = Inr (mem_range (mem s) a n)"
    and read_mem: "invar s \<Longrightarrow> span a n \<Longrightarrow> mem (snd (run_state (ops_read ops a n) s)) = mem s"
    and read_inv: "invar s \<Longrightarrow> span a n \<Longrightarrow> invar (snd (run_state (ops_read ops a n) s))"
    and write_rc: "invar s \<Longrightarrow> span a (length bs) \<Longrightarrow>
      fst (run_state (ops_write ops a bs) s) = int (length bs)"
    and write_mem: "invar s \<Longrightarrow> span a (length bs) \<Longrightarrow>
      mem (snd (run_state (ops_write ops a bs) s)) = mem_upd (mem s) a bs"
    and write_inv: "invar s \<Longrightarrow> span a (length bs) \<Longrightarrow>
      invar (snd (run_state (ops_write ops a bs) s))"

text \<open>
  A bridge next to other state of the process, such as the two ends of a copy: the bridge
  operations act on their part only.
\<close>

definition beside :: "('s, 'a) state \<Rightarrow> ('s \<times> 'w, 'a) state" where
  "beside m = zoom fst (\<lambda>s p. (s, snd p)) m"

lemma run_beside [simp]:
  "run_state (beside m) p = (fst (run_state m (fst p)), snd (run_state m (fst p)), snd p)"
  by (simp add: beside_def)

definition ops_beside :: "'s ahb_ops \<Rightarrow> ('s \<times> 'w) ahb_ops" where
  "ops_beside ops = \<lparr>
     ops_read = (\<lambda>a n. beside (ops_read ops a n)), ops_write = (\<lambda>a bs. beside (ops_write ops a bs)),
     ops_readl = (\<lambda>a. beside (ops_readl ops a)), ops_writel = (\<lambda>a v. beside (ops_writel ops a v)) \<rparr>"

text \<open>
  A region of the bus that takes words byte by byte: a word access of it is the four byte
  accesses in the order of their addresses. Memory is one, and so is a window that clocks
  every byte through. On such a region a bulk access is the byte accesses of its span, however
  it is cut into words.
\<close>

fun tgt_loads :: "'t target \<Rightarrow> u32 list \<Rightarrow> ('t, u8 list) state" where
  "tgt_loads tgt [] = ret []"
| "tgt_loads tgt (a # xs) = do { b \<leftarrow> tgt_ld8 tgt a; bs \<leftarrow> tgt_loads tgt xs; ret (b # bs) }"

fun tgt_stores :: "'t target \<Rightarrow> (u32 \<times> u8) list \<Rightarrow> ('t, unit) state" where
  "tgt_stores tgt [] = ret ()"
| "tgt_stores tgt (x # xs) = do { _ \<leftarrow> tgt_st8 tgt (fst x) (snd x); tgt_stores tgt xs }"

definition span_addrs :: "u32 \<Rightarrow> nat \<Rightarrow> u32 list" where
  "span_addrs a n = map (\<lambda>i. a + of_nat i) [0..<n]"

lemma length_span_addrs [simp]: "length (span_addrs a n) = n"
  by (simp add: span_addrs_def)

lemma span_addrs_append: "span_addrs a (n + k) = span_addrs a n @ span_addrs (a + of_nat n) k"
  by (rule nth_equalityI) (auto simp: span_addrs_def nth_append add.assoc simp flip: of_nat_add)

lemma run_tgt_loads_append [simp]:
  "run_state (tgt_loads tgt (xs @ ys)) t =
    (let r = run_state (tgt_loads tgt xs) t; q = run_state (tgt_loads tgt ys) (snd r)
     in (fst r @ fst q, snd q))"
  by (induction xs arbitrary: t) (simp_all add: Let_def)

lemma run_tgt_stores_append [simp]:
  "run_state (tgt_stores tgt (xs @ ys)) t =
    run_state (tgt_stores tgt ys) (snd (run_state (tgt_stores tgt xs) t))"
  by (induction xs arbitrary: t) simp_all

locale byte_target =
  fixes tgt :: "'t target"
    and region :: "u32 set"
  assumes ld32: "word_aligned a \<Longrightarrow> {a, a + 1, a + 2, a + 3} \<subseteq> region \<Longrightarrow> run_state (tgt_ld32 tgt a) t =
      (let r = run_state (tgt_loads tgt [a, a + 1, a + 2, a + 3]) t
       in (le_word (fst r ! 0) (fst r ! 1) (fst r ! 2) (fst r ! 3), snd r))"
    and st32: "word_aligned a \<Longrightarrow> {a, a + 1, a + 2, a + 3} \<subseteq> region \<Longrightarrow> run_state (tgt_st32 tgt a v) t =
      run_state (tgt_stores tgt (zip [a, a + 1, a + 2, a + 3] (le_bytes v))) t"

locale ahb_bulk =
  fixes ops :: "'s ahb_ops"
    and invar :: "'s \<Rightarrow> bool"
    and tgt :: "'t target"
    and bus :: "'s \<Rightarrow> 't"
    and span :: "u32 \<Rightarrow> nat \<Rightarrow> bool"
  assumes bulk_read: "invar s \<Longrightarrow> span a n \<Longrightarrow> r = run_state (ops_read ops a n) s \<Longrightarrow>
      fst r = Inr (fst (run_state (tgt_loads tgt (span_addrs a n)) (bus s))) \<and>
      bus (snd r) = snd (run_state (tgt_loads tgt (span_addrs a n)) (bus s)) \<and> invar (snd r)"
    and bulk_write: "invar s \<Longrightarrow> span a (length bs) \<Longrightarrow> q = run_state (ops_write ops a bs) s \<Longrightarrow>
      fst q = int (length bs) \<and>
      bus (snd q) = snd (run_state (tgt_stores tgt (zip (span_addrs a (length bs)) bs)) (bus s)) \<and>
      invar (snd q)"
begin

text \<open>Next to other state of the process.\<close>

lemma bulk_aside: "ahb_bulk (ops_beside ops) (\<lambda>p. invar (fst p)) tgt (\<lambda>p. bus (fst p)) span"
  by unfold_locales (use bulk_read [OF _ _ refl] bulk_write [OF _ _ refl] in \<open>auto simp: ops_beside_def\<close>)

end

lemma ram_loads: "run_state (tgt_loads ram_target xs) m = (map m xs, m)"
  by (induction xs arbitrary: m) simp_all

lemma ram_stores:
  "length bs \<le> 2 ^ 32 \<Longrightarrow>
   run_state (tgt_stores ram_target (zip (span_addrs a (length bs)) bs)) m = ((), mem_upd m a bs)"
proof (induction bs arbitrary: a m)
  case (Cons b bs)
  have "span_addrs a (length (b # bs)) = a # span_addrs (a + 1) (length bs)"
    using span_addrs_append [of a 1 "length bs"] by (simp add: span_addrs_def)
  then show ?case using Cons mem_upd_Cons [of bs m a b] by (simp add: fun_upd_def)
qed (simp add: span_addrs_def)

interpretation ram_bytes: byte_target ram_target UNIV
proof
  fix a v and m :: "u32 \<Rightarrow> u8"
  show "run_state (tgt_ld32 ram_target a) m =
      (let r = run_state (tgt_loads ram_target [a, a + 1, a + 2, a + 3]) m
       in (le_word (fst r ! 0) (fst r ! 1) (fst r ! 2) (fst r ! 3), snd r))"
    by (simp add: ram_loads Let_def numeral_2_eq_2 numeral_3_eq_3)
  have "[a, a + 1, a + 2, a + 3] = span_addrs a (length (le_bytes v))"
    by (simp add: span_addrs_def upt_rec)
  then show "run_state (tgt_st32 ram_target a v) m =
      run_state (tgt_stores ram_target (zip [a, a + 1, a + 2, a + 3] (le_bytes v))) m"
    using ram_stores [of "le_bytes v" a m] by simp
qed

lemma bulk_ram:
  assumes "ahb_bulk ops invar ram_target bus span" "\<And>a n. span a n \<Longrightarrow> n \<le> 2 ^ 32"
  shows "ahb_ram ops invar bus span"
proof -
  note r = ahb_bulk.bulk_read [OF assms(1) _ _ refl] and w = ahb_bulk.bulk_write [OF assms(1) _ _ refl]
  have range: "map m (span_addrs a n) = mem_range m a n" for m :: "u32 \<Rightarrow> u8" and a n
    by (simp add: mem_range_def span_addrs_def)
  have stores: "run_state (tgt_stores ram_target (zip (span_addrs a (length bs)) bs)) m = ((), mem_upd m a bs)"
    if "span a (length bs)" for m a bs
    using assms(2) [OF that] by (rule ram_stores)
  show ?thesis
    by unfold_locales (use r w in \<open>simp_all add: ram_loads range stores\<close>)
qed

text \<open>
  What the copy loops rely on of the descriptor, as POSIX documents it for a blocking
  descriptor: a write of a non-empty buffer takes at least one byte of it, a read gives a
  non-empty prefix of the remaining input unless the input is exhausted or nothing was
  asked for. Neither touches the bus.
\<close>

definition fd_sink ::
  "(u8 list \<Rightarrow> ('s, int) state) \<Rightarrow> ('s \<Rightarrow> u8 list) \<Rightarrow> ('s \<Rightarrow> bool) \<Rightarrow> ('s \<Rightarrow> u32 \<Rightarrow> u8) \<Rightarrow> bool" where
  "fd_sink wr out invar mem \<longleftrightarrow>
     (\<forall>s buf. invar s \<longrightarrow> buf \<noteq> [] \<longrightarrow>
        (\<exists>n s'. run_state (wr buf) s = (int n, s') \<and> 0 < n \<and> n \<le> length buf \<and>
           out s' = out s @ take n buf \<and> invar s' \<and> mem s' = mem s))"

definition fd_source ::
  "(nat \<Rightarrow> ('s, int + u8 list) state) \<Rightarrow> ('s \<Rightarrow> u8 list) \<Rightarrow> ('s \<Rightarrow> bool) \<Rightarrow> ('s \<Rightarrow> u32 \<Rightarrow> u8) \<Rightarrow> bool" where
  "fd_source rd inp invar mem \<longleftrightarrow>
     (\<forall>s n. invar s \<longrightarrow>
        (\<exists>k s'. run_state (rd n) s = (Inr (take k (inp s)), s') \<and> k \<le> n \<and>
           (0 < n \<longrightarrow> inp s \<noteq> [] \<longrightarrow> 0 < k) \<and>
           inp s' = drop k (inp s) \<and> invar s' \<and> mem s' = mem s))"

lemma write_all_complete:
  assumes "fd_sink wr out invar mem" "invar s"
  shows "\<exists>s'. write_all wr buf s = Some (0, s') \<and> invar s' \<and> mem s' = mem s \<and>
    out s' = out s @ buf"
  using assms(2)
proof (induction buf arbitrary: s rule: length_induct)
  case (1 buf)
  show ?case
  proof (cases "buf = []")
    case True
    with "1.prems" show ?thesis by (subst write_all.simps) simp
  next
    case False
    with "1.prems" assms(1) obtain n s1 where
      s1: "run_state (wr buf) s = (int n, s1)" "0 < n" "n \<le> length buf"
        "out s1 = out s @ take n buf" "invar s1" "mem s1 = mem s"
      unfolding fd_sink_def by metis
    then have "length (drop n buf) < length buf" using False by simp
    with "1.IH" s1(5) obtain s2 where
      s2: "write_all wr (drop n buf) s1 = Some (0, s2)" "invar s2" "mem s2 = mem s1"
        "out s2 = out s1 @ drop n buf"
      by blast
    with s1 False show ?thesis by (subst write_all.simps) simp
  qed
qed

lemma size_of_ssize_nat [simp]: "0 \<le> n \<Longrightarrow> n < 2 ^ 64 \<Longrightarrow> size_of_ssize n = nat n"
  by (simp add: size_of_ssize_def)

lemma siphon_chunk_bounds:
  "0 < len \<Longrightarrow> 0 < siphon_chunk len \<and> siphon_chunk len \<le> len \<and> siphon_chunk len \<le> AHB_CHUNK"
  by (auto simp: siphon_chunk_def AHB_CHUNK_def)

text \<open>The chunks a copy of \<open>len\<close> bytes reads are spans the bridge serves.\<close>

definition chunk_spans :: "(u32 \<Rightarrow> nat \<Rightarrow> bool) \<Rightarrow> u32 \<Rightarrow> nat \<Rightarrow> bool" where
  "chunk_spans span a len \<longleftrightarrow>
     (\<forall>k. k * nat AHB_CHUNK < len \<longrightarrow>
        span (a + of_nat (k * nat AHB_CHUNK)) (min (nat AHB_CHUNK) (len - k * nat AHB_CHUNK)))"

lemma chunk_spans_first: "chunk_spans span a len \<Longrightarrow> 0 < len \<Longrightarrow> span a (min (nat AHB_CHUNK) len)"
  unfolding chunk_spans_def by (drule spec [where x = 0]) simp

lemma chunk_spans_next:
  assumes "chunk_spans span a len" "nat AHB_CHUNK < len"
  shows "chunk_spans span (a + of_nat (nat AHB_CHUNK)) (len - nat AHB_CHUNK)"
  unfolding chunk_spans_def
proof (intro allI impI)
  fix k
  assume "k * nat AHB_CHUNK < len - nat AHB_CHUNK"
  then have "Suc k * nat AHB_CHUNK < len" by simp
  with assms(1) have "span (a + of_nat (Suc k * nat AHB_CHUNK))
      (min (nat AHB_CHUNK) (len - Suc k * nat AHB_CHUNK))"
    unfolding chunk_spans_def by blast
  then show "span (a + of_nat (nat AHB_CHUNK) + of_nat (k * nat AHB_CHUNK))
      (min (nat AHB_CHUNK) (len - nat AHB_CHUNK - k * nat AHB_CHUNK))"
    by (simp add: algebra_simps)
qed

context ahb_ram
begin

lemma siphon_out_step:
  assumes "invar s" "0 < len" "len < 2 ^ 63" "span phys (nat (siphon_chunk len))"
    and "write_all wr (mem_range (mem s) phys (nat (siphon_chunk len)))
           (snd (run_state (ops_read (ahb_ops ctx) phys (nat (siphon_chunk len))) s)) = Some (0, s2)"
    and "ahb_ops ctx = ops"
  shows "siphon_out_loop ctx wr phys len s =
    (if siphon_chunk len = len then Some (0, s2)
     else siphon_out_loop ctx wr (phys + of_nat (nat (siphon_chunk len)))
            (len - siphon_chunk len) s2)"
proof -
  have "size_of_ssize (siphon_chunk len) = nat (siphon_chunk len)"
    using assms(2,3) siphon_chunk_bounds [of len] by (intro size_of_ssize_nat) auto
  then show ?thesis
    using assms siphon_chunk_bounds [OF assms(2)]
    by (subst siphon_out_loop.simps) (simp add: split_def ahb_read_def read_val)
qed

lemma siphon_out_complete:
  assumes sink: "fd_sink wr out invar mem" and "invar s" "ahb_ops ctx = ops"
    and keep: "\<And>s a n. invar s \<Longrightarrow> span a n \<Longrightarrow> out (snd (run_state (ops_read ops a n) s)) = out s"
    and "0 < len" "len < 2 ^ 63" "chunk_spans span phys (nat len)"
  shows "\<exists>s'. siphon_out_loop ctx wr phys len s = Some (0, s') \<and> invar s' \<and> mem s' = mem s \<and>
    out s' = out s @ mem_range (mem s) phys (nat len)"
  using assms(2,5-)
proof (induction "nat len" arbitrary: len phys s rule: less_induct)
  case less
  let ?c = "siphon_chunk len"
  let ?s1 = "snd (run_state (ops_read ops phys (nat ?c)) s)"
  note c = siphon_chunk_bounds [OF less.prems(2)]
  have min: "nat ?c = min (nat AHB_CHUNK) (nat len)"
    using less.prems(2) by (auto simp: siphon_chunk_def AHB_CHUNK_def)
  then have sp: "span phys (nat ?c)"
    using chunk_spans_first [OF less.prems(4)] less.prems(2) by simp
  note rd = read_mem [OF less.prems(1) sp] read_inv [OF less.prems(1) sp]
  obtain s2 where wr: "write_all wr (mem_range (mem s) phys (nat ?c)) ?s1 = Some (0, s2)"
    "invar s2" "mem s2 = mem s" "out s2 = out ?s1 @ mem_range (mem s) phys (nat ?c)"
    using write_all_complete [OF sink rd(2)] rd(1) by metis
  have out: "out ?s1 = out s" by (rule keep [OF less.prems(1) sp])
  note step = siphon_out_step [OF less.prems(1-3) sp _ assms(3), of wr s2]
  show ?case
  proof (cases "?c = len")
    case True
    with step wr out assms(3) show ?thesis by auto
  next
    case False
    with c have lt: "0 < len - ?c" "nat (len - ?c) < nat len" by auto
    have c_eq: "?c = AHB_CHUNK" using False by (simp add: siphon_chunk_def split: if_splits)
    with c False have "chunk_spans span (phys + of_nat (nat ?c)) (nat (len - ?c))"
      using chunk_spans_next [OF less.prems(4)] by (simp add: nat_diff_distrib)
    then obtain s3 where s3:
      "siphon_out_loop ctx wr (phys + of_nat (nat ?c)) (len - ?c) s2 = Some (0, s3)"
      "invar s3" "mem s3 = mem s2"
      "out s3 = out s2 @ mem_range (mem s2) (phys + of_nat (nat ?c)) (nat (len - ?c))"
      using less.hyps [OF lt(2) wr(2) lt(1)] less.prems(3) c by auto
    moreover have "mem_range (mem s) phys (nat len) =
        mem_range (mem s) phys (nat ?c) @
        mem_range (mem s) (phys + of_nat (nat ?c)) (nat (len - ?c))"
      using c mem_range_split [of "nat ?c" "nat len" "mem s" phys]
      by (simp add: nat_diff_distrib nat_mono)
    ultimately show ?thesis using step wr out assms(3) False by simp
  qed
qed

end


text \<open>The bytes a copy into memory takes from its descriptor.\<close>

definition siphon_count :: "int \<Rightarrow> nat \<Rightarrow> nat" where
  "siphon_count len avail = (if len = -1 then avail else min (nat len) avail)"

lemma size_of_siphon_chunk:
  assumes "len = -1 \<or> 0 \<le> len" "len < 2 ^ 63"
  shows "size_of_ssize (siphon_chunk len) = nat (siphon_chunk len)"
    and "0 \<le> siphon_chunk len"
    and "len \<noteq> 0 \<Longrightarrow> 0 < siphon_chunk len"
    and "0 \<le> len \<Longrightarrow> siphon_chunk len \<le> len"
  using assms by (auto simp: siphon_chunk_def AHB_CHUNK_def size_of_ssize_def)

context ahb_ram
begin

lemma siphon_in_complete:
  assumes source: "fd_source rd inp invar mem" and "ahb_ops ctx = ops"
    and keep: "\<And>s a bs. invar s \<Longrightarrow> inp (snd (run_state (ops_write ops a bs) s)) = inp s"
    and "invar s" "len = -1 \<or> 0 \<le> len" "len < 2 ^ 63"
    and "siphon_count len (length (inp s)) \<le> 2 ^ 32"
    and "\<And>k n. k + n \<le> siphon_count len (length (inp s)) \<Longrightarrow> span (phys + of_nat k) n"
  shows "\<exists>s'. ahb_siphon_in ctx rd phys len s = Some (0, s') \<and> invar s' \<and>
    mem s' = mem_upd (mem s) phys (take (siphon_count len (length (inp s))) (inp s)) \<and>
    inp s' = drop (siphon_count len (length (inp s))) (inp s)"
  using assms(4-)
proof (induction "length (inp s)" arbitrary: len phys s rule: less_induct)
  case less
  let ?N = "siphon_count len (length (inp s))"
  note c = size_of_siphon_chunk [OF less.prems(2,3)]
  from source less.prems(1) obtain k s1 where
    s1: "run_state (rd (nat (siphon_chunk len))) s = (Inr (take k (inp s)), s1)"
      "k \<le> nat (siphon_chunk len)" "0 < siphon_chunk len \<Longrightarrow> inp s \<noteq> [] \<Longrightarrow> 0 < k"
      "inp s1 = drop k (inp s)" "invar s1" "mem s1 = mem s"
    unfolding fd_source_def by (metis zero_less_nat_eq)
  show ?case
  proof (cases "take k (inp s) = []")
    case True
    have "?N = 0"
    proof (cases "inp s = []")
      case False
      with True s1(3) have "\<not> 0 < siphon_chunk len" by auto
      with c(3) have "len = 0" by blast
      then show ?thesis by (simp add: siphon_count_def)
    qed (simp add: siphon_count_def)
    with True s1 show ?thesis
      by (subst ahb_siphon_in.simps) (auto simp: c(1))
  next
    case False
    define bs where "bs = take k (inp s)"
    let ?n = "length bs" and ?len = "if len > 0 then len - int (length bs) else len"
    have bs: "bs \<noteq> []" "0 < ?n" "?n \<le> length (inp s)" "inp s = bs @ drop k (inp s)" "?n \<le> k"
      using False by (auto simp: bs_def)
    have pos: "len \<noteq> 0" using bs(2) s1(2) by (auto simp: siphon_chunk_def bs_def)
    have le: "?n \<le> nat len" if "len \<noteq> -1" using that bs(5) s1(2) c(4) less.prems(2) by linarith
    then have nN: "?n \<le> ?N" using bs(3) by (simp add: siphon_count_def)
    have N': "siphon_count ?len (length (drop k (inp s))) = ?N - ?n"
    proof -
      have "length (drop k (inp s)) = length (inp s) - ?n" by (simp add: bs_def)
      then show ?thesis using le less.prems(2) pos bs(3) by (auto simp: siphon_count_def min_def)
    qed
    have sp: "span phys ?n" using less.prems(5) [of 0 ?n] nN by simp
    define s2 where "s2 = snd (run_state (ops_write ops phys bs) s1)"
    have s2: "run_state (ops_write ops phys bs) s1 = (int ?n, s2)" "invar s2"
        "mem s2 = mem_upd (mem s) phys bs" "inp s2 = drop k (inp s)"
      using write_rc [OF s1(5) sp] write_mem [OF s1(5) sp] write_inv [OF s1(5) sp]
        keep [OF s1(5), of phys bs] s1(4,6) by (simp_all add: s2_def prod_eq_iff)
    have step: "ahb_siphon_in ctx rd phys len s = ahb_siphon_in ctx rd (phys + of_nat ?n) ?len s2"
      using bs(1) s1(1) s2(1) assms(2) unfolding bs_def [symmetric]
      by (subst ahb_siphon_in.simps) (auto simp: c(1) ahb_write_def split: list.split)
    have "\<exists>s'. ahb_siphon_in ctx rd (phys + of_nat ?n) ?len s2 = Some (0, s') \<and> invar s' \<and>
        mem s' = mem_upd (mem s2) (phys + of_nat ?n)
          (take (siphon_count ?len (length (inp s2))) (inp s2)) \<and>
        inp s' = drop (siphon_count ?len (length (inp s2))) (inp s2)"
    proof (rule less.hyps [OF _ s2(2)])
      show "length (inp s2) < length (inp s)" using bs s2(4) by (simp add: bs_def)
      show "?len = -1 \<or> 0 \<le> ?len" "?len < 2 ^ 63"
        using less.prems(2,3) le pos by auto
      show "siphon_count ?len (length (inp s2)) \<le> 2 ^ 32" using less.prems(4) N' s2(4) by simp
      fix j n
      assume "j + n \<le> siphon_count ?len (length (inp s2))"
      then have "(?n + j) + n \<le> ?N" using N' s2(4) nN by simp
      from less.prems(5) [OF this] show "span (phys + of_nat ?n + of_nat j) n"
        by (simp add: add.assoc)
    qed
    then obtain s' where s': "ahb_siphon_in ctx rd (phys + of_nat ?n) ?len s2 = Some (0, s')"
        "invar s'" "mem s' = mem_upd (mem s2) (phys + of_nat ?n) (take (?N - ?n) (drop k (inp s)))"
        "inp s' = drop (?N - ?n) (drop k (inp s))"
      using N' s2(4) by auto
    have "take ?N (bs @ drop k (inp s)) = bs @ take (?N - ?n) (drop k (inp s))"
      "drop ?N (bs @ drop k (inp s)) = drop (?N - ?n) (drop k (inp s))"
      using nN by simp_all
    note this [unfolded bs(4) [symmetric]]
    moreover have "mem_upd (mem_upd (mem s) phys bs) (phys + of_nat ?n)
        (take (?N - ?n) (drop k (inp s))) = mem_upd (mem s) phys (bs @ take (?N - ?n) (drop k (inp s)))"
      using less.prems(4) nN by (intro mem_upd_append) simp
    ultimately show ?thesis using s' s2 step by simp
  qed
qed

end

context ahb_ram
begin

lemma aside: "ahb_ram (ops_beside ops) (\<lambda>p. invar (fst p)) (\<lambda>p. mem (fst p)) span"
  by unfold_locales
    (simp_all add: ops_beside_def read_val read_mem read_inv write_rc write_mem write_inv)

end

end
