(* ===== verification/Rev.thy ===== *)
theory Rev
  imports Ahb
begin

text \<open>
  Silicon revision detection, \<^verbatim>\<open>src/rev.c\<close>: the table of known revisions, the probe that
  fingerprints the SCU layout, and the queries on a revision number.
\<close>

datatype ast_generation = ast_g4 | ast_g5 | ast_g6

record bmc_silicon_rev =
  bsr_rev :: u32
  bsr_name :: string

definition ast_silicon_revs :: "bmc_silicon_rev list" where
  "ast_silicon_revs = [
     \<lparr>bsr_rev = 0x02000303, bsr_name = ''AST2400 A0''\<rparr>, \<lparr>bsr_rev = 0x02010303, bsr_name = ''AST2400 A1''\<rparr>,
     \<lparr>bsr_rev = 0x04000303, bsr_name = ''AST2500 A0''\<rparr>, \<lparr>bsr_rev = 0x04010303, bsr_name = ''AST2500 A1''\<rparr>,
     \<lparr>bsr_rev = 0x04030303, bsr_name = ''AST2500 A2''\<rparr>, \<lparr>bsr_rev = 0x05000303, bsr_name = ''AST2600 A0''\<rparr>,
     \<lparr>bsr_rev = 0x05010303, bsr_name = ''AST2600 A1''\<rparr>, \<lparr>bsr_rev = 0x05020303, bsr_name = ''AST2600 A2''\<rparr>,
     \<lparr>bsr_rev = 0x05030303, bsr_name = ''AST2600 A3''\<rparr>]"

definition rev_is_supported :: "u32 \<Rightarrow> bool" where
  "rev_is_supported rv \<longleftrightarrow> list_ex (\<lambda>e. rv = bsr_rev e) ast_silicon_revs"

definition rev_name :: "u32 \<Rightarrow> string option" where
  "rev_name rv = map_option bsr_name (find (\<lambda>e. rv = bsr_rev e) ast_silicon_revs)"

definition bmc_silicon_gens :: "ast_generation \<Rightarrow> u8" where
  "bmc_silicon_gens g = (case g of ast_g4 \<Rightarrow> 0x02 | ast_g5 \<Rightarrow> 0x04 | ast_g6 \<Rightarrow> 0x05)"

text \<open>The default branch returns \<open>-EINVAL\<close> where an enumerator is expected: \<open>None\<close>.\<close>

definition rev_generation :: "u32 \<Rightarrow> ast_generation option" where
  "rev_generation rv =
     (let g = drop_bit 24 rv AND 0xff
      in if g = 0x02 then Some ast_g4
         else if g = 0x04 then Some ast_g5
         else if g = 0x05 then Some ast_g6
         else None)"

definition rev_is_generation :: "u32 \<Rightarrow> ast_generation \<Rightarrow> bool" where
  "rev_is_generation rv gen \<longleftrightarrow> drop_bit 24 rv = ucast (bmc_silicon_gens gen)"

definition rev_stepping :: "u32 \<Rightarrow> int" where
  "rev_stepping rv = uint (drop_bit 16 rv AND 0xf)"

definition AST_SCU :: u32 where
  "AST_SCU = 0x1e6e2000"

definition rev_probe :: "'s ahb \<Rightarrow> ('s, int) state" where
  "rev_probe ahb = do {
     r0 \<leftarrow> ahb_readl ahb (AST_SCU OR 0x004);
     (case r0 of Inl rc \<Rightarrow> ret rc | Inr probe0 \<Rightarrow> do {
       r1 \<leftarrow> ahb_readl ahb (AST_SCU OR 0x07c);
       (case r1 of Inl rc \<Rightarrow> ret rc | Inr probe1 \<Rightarrow> do {
         r \<leftarrow> (if drop_bit 28 probe0 AND 0xf = 0 \<and> drop_bit 24 probe1 AND 0xff = 0
              then ahb_readl ahb (AST_SCU OR 0x014)
              else ret (Inr probe1));
         (case r of Inl rc \<Rightarrow> ret rc | Inr rv \<Rightarrow>
           if list_ex (\<lambda>e. rv = bsr_rev e) ast_silicon_revs then ret (uint rv)
           else ret (- ENODEV)) }) }) }"

section \<open>Queries\<close>

lemma rev_is_supported_iff:
  "rev_is_supported rv \<longleftrightarrow>
     rv \<in> {0x02000303, 0x02010303, 0x04000303, 0x04010303, 0x04030303,
            0x05000303, 0x05010303, 0x05020303, 0x05030303}"
  by (simp add: rev_is_supported_def ast_silicon_revs_def)

lemma rev_name_supported: "(rev_name rv \<noteq> None) = rev_is_supported rv"
  by (simp add: rev_name_def rev_is_supported_def ast_silicon_revs_def)

lemma drop_bit_24_mask: "drop_bit 24 (rv :: u32) AND 0xff = drop_bit 24 rv"
proof -
  have "(0xff :: u32) = mask 8" by (simp add: mask_eq_exp_minus_1)
  moreover have "drop_bit 24 rv AND mask 8 = drop_bit 24 rv"
    by (rule bit_word_eqI) (auto simp: bit_simps dest: bit_imp_le_length)
  ultimately show ?thesis by simp
qed

lemma rev_is_generation_iff: "rev_is_generation rv g \<longleftrightarrow> rev_generation rv = Some g"
  by (cases g) (auto simp: rev_is_generation_def rev_generation_def bmc_silicon_gens_def
      Let_def drop_bit_24_mask)

lemma rev_supported_generation:
  "rev_is_supported rv \<Longrightarrow>
     (\<exists>g. rev_generation rv = Some g) \<and> rev_stepping rv \<in> {0..3}"
  by (auto simp: rev_is_supported_iff rev_generation_def rev_stepping_def)

section \<open>Probing over a register bus\<close>

definition probed_rev :: "(u32 \<Rightarrow> u32) \<Rightarrow> u32" where
  "probed_rev r =
     (if drop_bit 28 (r 0x1e6e2004) AND 0xf = 0 \<and> drop_bit 24 (r 0x1e6e207c) AND 0xff = 0
      then r 0x1e6e2014 else r 0x1e6e207c)"

context reg_bus
begin

lemma rev_probe_spec:
  assumes "ahb_ops ahb = ops" "invar s"
  shows "fst (run_state (rev_probe ahb) s) =
      (if rev_is_supported (probed_rev (reg s)) then uint (probed_rev (reg s)) else - ENODEV)"
    and "reg (snd (run_state (rev_probe ahb) s)) = reg s"
    and "invar (snd (run_state (rev_probe ahb) s))"
  using assms
  by (auto simp: rev_probe_def ahb_readl_def AST_SCU_def probed_rev_def rev_is_supported_def
      word_aligned_def)

end

end
