(* ===== verification/Mmio.thy ===== *)
theory Mmio
  imports Prelude
begin

text \<open>
  \<^verbatim>\<open>src/mmio.c\<close>: the copy routine between ordinary memory and a device window. What
  matters of it is the sequence of bus accesses it makes, as pairs of an offset from the
  start of the buffers and an access width; \<open>mmio_memcpy_plan\<close> is that sequence.
\<close>

fun copy_bytes :: "nat \<Rightarrow> nat \<Rightarrow> (nat \<times> nat) list" where
  "copy_bytes off 0 = []"
| "copy_bytes off (Suc len) = (off, 1) # copy_bytes (Suc off) len"

fun copy_words :: "nat \<Rightarrow> nat \<Rightarrow> (nat \<times> nat) list" where
  "copy_words off len =
     (if len > 3 then (off, 4) # copy_words (off + 4) (len - 4) else copy_bytes off len)"

fun copy_head :: "nat \<Rightarrow> nat \<Rightarrow> nat \<Rightarrow> nat \<Rightarrow> (nat \<times> nat) list" where
  "copy_head dst src off len =
     (if len \<noteq> 0 \<and> (src + off) mod 4 \<noteq> 0 \<and> (dst + off) mod 4 \<noteq> 0
      then (off, 1) # copy_head dst src (Suc off) (len - 1)
      else copy_words off len)"

definition mmio_memcpy_plan :: "nat \<Rightarrow> nat \<Rightarrow> nat \<Rightarrow> (nat \<times> nat) list" where
  "mmio_memcpy_plan dst src len =
     (if src mod 4 \<noteq> dst mod 4 then copy_bytes 0 len else copy_head dst src 0 len)"

declare copy_words.simps [simp del] copy_head.simps [simp del]

text \<open>The offsets a sequence of accesses touches, in order.\<close>

definition touched :: "(nat \<times> nat) list \<Rightarrow> nat list" where
  "touched plan = concat (map (\<lambda>(off, w). [off..<off + w]) plan)"

lemma touched_simps [simp]:
  "touched [] = []" "touched ((off, w) # plan) = [off..<off + w] @ touched plan"
  by (simp_all add: touched_def)

lemma touched_copy_bytes: "touched (copy_bytes off len) = [off..<off + len]"
  by (induction off len rule: copy_bytes.induct) (auto simp: upt_conv_Cons)

lemma touched_copy_words: "touched (copy_words off len) = [off..<off + len]"
proof (induction off len rule: copy_words.induct)
  case (1 off len)
  have "4 \<le> len \<Longrightarrow> [off..<off + len] = [off..<off + 4] @ [off + 4..<off + len]"
    using upt_add_eq_append [of off "off + 4" "len - 4"] by simp
  with 1 show ?case
    by (simp add: copy_words.simps [of off len] touched_copy_bytes)
qed

lemma touched_copy_head: "touched (copy_head dst src off len) = [off..<off + len]"
proof (induction dst src off len rule: copy_head.induct)
  case (1 dst src off len)
  show ?case
  proof (cases "len \<noteq> 0 \<and> (src + off) mod 4 \<noteq> 0 \<and> (dst + off) mod 4 \<noteq> 0")
    case True
    then have "[off..<off + len] = off # [Suc off..<off + len]" by (intro upt_conv_Cons) simp
    with 1 True show ?thesis by (simp add: copy_head.simps [of dst src off len])
  next
    case False
    then show ?thesis by (auto simp: copy_head.simps [of dst src off len] touched_copy_words)
  qed
qed

text \<open>A word access of a plan is aligned on both sides.\<close>

definition plan_aligned :: "nat \<Rightarrow> (nat \<times> nat) list \<Rightarrow> bool" where
  "plan_aligned base plan \<longleftrightarrow>
     list_all (\<lambda>(off, w). w = 1 \<or> w = 4 \<and> (base + off) mod 4 = 0) plan"

lemma plan_aligned_simps [simp]:
  "plan_aligned base []"
  "plan_aligned base ((off, w) # plan) \<longleftrightarrow>
     (w = 1 \<or> w = 4 \<and> (base + off) mod 4 = 0) \<and> plan_aligned base plan"
  by (auto simp: plan_aligned_def)

lemma plan_aligned_copy_bytes [simp]: "plan_aligned base (copy_bytes off len)"
  by (induction off len rule: copy_bytes.induct) simp_all

lemma plan_aligned_copy_words:
  "len < 4 \<or> (base + off) mod 4 = 0 \<Longrightarrow> plan_aligned base (copy_words off len)"
proof (induction off len rule: copy_words.induct)
  case (1 off len)
  have "(base + off) mod 4 = 0 \<Longrightarrow> (base + (off + 4)) mod 4 = 0" by presburger
  with 1 show ?case by (auto simp: copy_words.simps [of off len])
qed

lemma plan_aligned_copy_head:
  assumes "src mod 4 = dst mod 4" "base mod 4 = src mod 4"
  shows "plan_aligned base (copy_head dst src off len)"
  using assms
proof (induction dst src off len rule: copy_head.induct)
  case (1 dst src off len)
  show ?case
  proof (cases "len \<noteq> 0 \<and> (src + off) mod 4 \<noteq> 0 \<and> (dst + off) mod 4 \<noteq> 0")
    case True
    with 1 show ?thesis by (simp add: copy_head.simps [of dst src off len])
  next
    case False
    with "1.prems" have "len = 0 \<or> (base + off) mod 4 = 0"
      by (metis mod_add_left_eq)
    then have "len < 4 \<or> (base + off) mod 4 = 0" by auto
    then have "plan_aligned base (copy_words off len)" by (rule plan_aligned_copy_words)
    moreover have "copy_head dst src off len = copy_words off len"
      using False by (subst copy_head.simps) (simp only: if_False)
    ultimately show ?thesis by simp
  qed
qed

lemma plan_touched: "touched (mmio_memcpy_plan dst src len) = [0..<len]"
  by (simp add: mmio_memcpy_plan_def touched_copy_bytes touched_copy_head)

lemma plan_aligned_plan:
  "base = src \<or> base = dst \<Longrightarrow> plan_aligned base (mmio_memcpy_plan dst src len)"
  by (auto simp: mmio_memcpy_plan_def intro: plan_aligned_copy_head)

end
