(* ===== verification/P2a.thy ===== *)
theory P2a
  imports Rev Mmio
begin

text \<open>
  The PCIe VGA P2A bridge, \<^verbatim>\<open>src/bridge/p2a.c\<close>: a 64 KiB window of the VGA function's
  MMIO BAR, moved over the AHB by the remap base register. The BAR is hardware, so its
  loads and stores are parameters; \<open>p2a_device\<close> states what the driver relies on. The
  driver state is the software copy of the remap base next to the hardware state.
\<close>

section \<open>The BAR and the driver state\<close>

record 'h mmio =
  mm_ld8 :: "nat \<Rightarrow> ('h, u8) state"
  mm_st8 :: "nat \<Rightarrow> u8 \<Rightarrow> ('h, unit) state"
  mm_ld32 :: "nat \<Rightarrow> ('h, u32) state"
  mm_st32 :: "nat \<Rightarrow> u32 \<Rightarrow> ('h, unit) state"

record 'h p2ab =
  p2_hw :: 'h
  p2_rbar :: u32

definition p2ab_hw :: "('h, 'a) state \<Rightarrow> ('h p2ab, 'a) state" where
  "p2ab_hw m = zoom p2_hw (\<lambda>h s. s\<lparr>p2_hw := h\<rparr>) m"

lemma run_p2ab_hw [simp]:
  "run_state (p2ab_hw m) s =
     (fst (run_state m (p2_hw s)), s\<lparr>p2_hw := snd (run_state m (p2_hw s))\<rparr>)"
  by (simp add: p2ab_hw_def)

definition AST_MMIO_LEN :: nat where "AST_MMIO_LEN = 128 * 1024"
definition P2AB_PKR :: nat where "P2AB_PKR = 0xf000"
definition P2AB_RBAR :: nat where "P2AB_RBAR = 0xf004"
definition P2AB_RBAR_REMAP_MASK :: u32 where "P2AB_RBAR_REMAP_MASK = 0xffff0000"
definition P2AB_WINDOW_BASE :: nat where "P2AB_WINDOW_BASE = 0x10000"
definition P2AB_WINDOW_LEN :: nat where "P2AB_WINDOW_LEN = 0x10000"

lemmas p2a_consts = AST_MMIO_LEN_def P2AB_PKR_def P2AB_RBAR_def P2AB_RBAR_REMAP_MASK_def
  P2AB_WINDOW_BASE_def P2AB_WINDOW_LEN_def

section \<open>Register accesses\<close>

text \<open>
  \<open>__p2ab_readl\<close> takes the size of its out-parameter \<^emph>\<open>pointer\<close> in both assertions, so the
  pointer size of the build is an argument; \<open>None\<close> is a failed assertion.
  \<open>__p2ab_writel\<close> takes the size of a 32-bit value.
\<close>

definition p2ab_reg_assert :: "nat \<Rightarrow> nat \<Rightarrow> bool" where
  "p2ab_reg_assert sz addr \<longleftrightarrow> addr < AST_MMIO_LEN - sz + 1 \<and> addr mod sz = 0"

definition p2ab_reg_readl ::
  "'h mmio \<Rightarrow> nat \<Rightarrow> nat \<Rightarrow> ('h p2ab, (int + u32) option) state" where
  "p2ab_reg_readl mm psize addr =
     (if \<not> p2ab_reg_assert psize addr then ret None
      else do { val \<leftarrow> p2ab_hw (mm_ld32 mm addr); ret (Some (Inr val)) })"

definition p2ab_reg_writel :: "'h mmio \<Rightarrow> nat \<Rightarrow> u32 \<Rightarrow> ('h p2ab, int option) state" where
  "p2ab_reg_writel mm addr val =
     (if \<not> p2ab_reg_assert 4 addr then ret None
      else do { _ \<leftarrow> p2ab_hw (mm_st32 mm addr val); ret (Some 0) })"

lemma p2ab_reg_assert_writel [simp]:
  "p2ab_reg_assert 4 P2AB_PKR" "p2ab_reg_assert 4 P2AB_RBAR"
  by (simp_all add: p2ab_reg_assert_def p2a_consts)

lemma run_p2ab_reg_writel [simp]:
  "p2ab_reg_assert 4 addr \<Longrightarrow> run_state (p2ab_reg_writel mm addr val) s =
     (Some 0, s\<lparr>p2_hw := snd (run_state (mm_st32 mm addr val) (p2_hw s))\<rparr>)"
  by (simp add: p2ab_reg_writel_def)

definition p2ab_unlock :: "'h mmio \<Rightarrow> ('h p2ab, int option) state" where
  "p2ab_unlock mm = p2ab_reg_writel mm P2AB_PKR 1"

definition p2ab_lock :: "'h mmio \<Rightarrow> ('h p2ab, int option) state" where
  "p2ab_lock mm = p2ab_reg_writel mm P2AB_PKR 0"

section \<open>The sliding window\<close>

text \<open>
  \<open>p2ab_map\<close> gives the offset of \<open>phys\<close> in the window. The register write cannot fail its
  assertions (\<open>p2ab_reg_assert_writel\<close>), and its status is always 0; the branch on a
  negative status is kept.
\<close>

definition p2ab_map :: "'h mmio \<Rightarrow> u32 \<Rightarrow> nat \<Rightarrow> ('h p2ab, int) state" where
  "p2ab_map mm phys len =
     (let rbar = phys AND P2AB_RBAR_REMAP_MASK;
          offset = phys AND NOT P2AB_RBAR_REMAP_MASK
      in do {
        ctx \<leftarrow> State_Monad.get;
        (if p2_rbar ctx = rbar then ret (uint offset)
         else do {
           rc \<leftarrow> p2ab_reg_writel mm P2AB_RBAR rbar;
           (if the rc < 0 then ret (the rc)
            else do {
              _ \<leftarrow> modify (\<lambda>s. s\<lparr>p2_rbar := rbar\<rparr>);
              ret (uint offset) }) }) })"

text \<open>The accesses of \<open>mmio_memcpy\<close> from and to the window.\<close>

fun mmio_copy_from :: "'h mmio \<Rightarrow> nat \<Rightarrow> (nat \<times> nat) list \<Rightarrow> ('h, u8 list) state" where
  "mmio_copy_from mm base [] = ret []"
| "mmio_copy_from mm base ((off, w) # plan) = do {
     bs \<leftarrow> (if w = 4 then do { v \<leftarrow> mm_ld32 mm (base + off); ret (le_bytes v) }
           else do { b \<leftarrow> mm_ld8 mm (base + off); ret [b] });
     rest \<leftarrow> mmio_copy_from mm base plan;
     ret (bs @ rest) }"

fun mmio_copy_to :: "'h mmio \<Rightarrow> nat \<Rightarrow> u8 list \<Rightarrow> (nat \<times> nat) list \<Rightarrow> ('h, unit) state" where
  "mmio_copy_to mm base buf [] = ret ()"
| "mmio_copy_to mm base buf ((off, w) # plan) = do {
     _ \<leftarrow> (if w = 4
          then mm_st32 mm (base + off)
                 (le_word (buf ! off) (buf ! (off + 1)) (buf ! (off + 2)) (buf ! (off + 3)))
          else mm_st8 mm (base + off) (buf ! off));
     mmio_copy_to mm base buf plan }"

text \<open>
  The copy loops. \<open>buf\<close> is the address of the caller's buffer, whose alignment decides the
  widths \<open>mmio_memcpy\<close> uses; the window is mapped at a page boundary.
\<close>

function p2ab_read_loop ::
  "'h mmio \<Rightarrow> nat \<Rightarrow> u32 \<Rightarrow> nat \<Rightarrow> ('h p2ab, int + u8 list) state" where
  "p2ab_read_loop mm buf phys remaining =
     (let ingress = (if remaining > P2AB_WINDOW_LEN then P2AB_WINDOW_LEN else remaining)
      in do {
        rc \<leftarrow> p2ab_map mm phys ingress;
        (if rc < 0 then ret (Inl (-1))
         else do {
           let base = P2AB_WINDOW_BASE + nat rc;
           bs \<leftarrow> p2ab_hw (mmio_copy_from mm base (mmio_memcpy_plan buf base ingress));
           (if remaining - ingress \<noteq> 0
            then do {
              r \<leftarrow> p2ab_read_loop mm (buf + ingress) (phys + of_nat ingress) (remaining - ingress);
              (case r of Inl e \<Rightarrow> ret (Inl e) | Inr rest \<Rightarrow> ret (Inr (bs @ rest))) }
            else ret (Inr bs)) }) })"
  by pat_completeness auto
termination
  by (relation "measure (\<lambda>(mm, buf, phys, remaining). remaining)")
     (auto simp: P2AB_WINDOW_LEN_def split: if_splits)

function p2ab_write_loop ::
  "'h mmio \<Rightarrow> nat \<Rightarrow> u32 \<Rightarrow> u8 list \<Rightarrow> ('h p2ab, int) state" where
  "p2ab_write_loop mm buf phys data =
     (let egress = (if length data > P2AB_WINDOW_LEN then P2AB_WINDOW_LEN else length data)
      in do {
        rc \<leftarrow> p2ab_map mm phys egress;
        (if rc < 0 then ret (-1)
         else do {
           let base = P2AB_WINDOW_BASE + nat rc;
           _ \<leftarrow> p2ab_hw (mmio_copy_to mm base data (mmio_memcpy_plan base buf egress));
           (if length data - egress \<noteq> 0
            then p2ab_write_loop mm (buf + egress) (phys + of_nat egress) (drop egress data)
            else ret 0) }) })"
  by pat_completeness auto
termination
  by (relation "measure (\<lambda>(mm, buf, phys, data). length data)")
     (auto simp: P2AB_WINDOW_LEN_def split: if_splits)

declare p2ab_read_loop.simps [simp del] p2ab_write_loop.simps [simp del]

definition SSIZE_MAX :: nat where "SSIZE_MAX = 2 ^ 63 - 1"

definition p2ab_read :: "'h mmio \<Rightarrow> nat \<Rightarrow> u32 \<Rightarrow> nat \<Rightarrow> ('h p2ab, int + u8 list) state" where
  "p2ab_read mm buf phys len =
     (if len > SSIZE_MAX then ret (Inl (-1)) else p2ab_read_loop mm buf phys len)"

definition p2ab_write :: "'h mmio \<Rightarrow> nat \<Rightarrow> u32 \<Rightarrow> u8 list \<Rightarrow> ('h p2ab, int) state" where
  "p2ab_write mm buf phys data =
     (if length data > SSIZE_MAX then ret (-1)
      else do {
        rc \<leftarrow> p2ab_write_loop mm buf phys data;
        (if rc < 0 then ret rc else ret (int (length data))) })"

definition p2ab_readl :: "'h mmio \<Rightarrow> u32 \<Rightarrow> ('h p2ab, int + u32) state" where
  "p2ab_readl mm phys =
     (if phys AND 0x3 \<noteq> 0 then ret (Inl (- EINVAL))
      else do {
        rc \<leftarrow> p2ab_map mm phys 4;
        (if rc < 0 then ret (Inl rc)
         else do {
           val \<leftarrow> p2ab_hw (mm_ld32 mm (P2AB_WINDOW_BASE + nat rc));
           ret (Inr val) }) })"

definition p2ab_writel :: "'h mmio \<Rightarrow> u32 \<Rightarrow> u32 \<Rightarrow> ('h p2ab, int) state" where
  "p2ab_writel mm phys val = do {
     rc \<leftarrow> p2ab_map mm phys 4;
     (if rc < 0 then ret rc
      else do {
        _ \<leftarrow> p2ab_hw (mm_st32 mm (P2AB_WINDOW_BASE + nat rc) val);
        ret 0 }) }"

definition p2ab_ahb_ops :: "'h mmio \<Rightarrow> nat \<Rightarrow> 'h p2ab ahb_ops" where
  "p2ab_ahb_ops mm buf = \<lparr>
     ops_read = p2ab_read mm buf, ops_write = p2ab_write mm buf,
     ops_readl = p2ab_readl mm, ops_writel = p2ab_writel mm \<rparr>"

section \<open>Set-up, re-synchronisation and tear-down\<close>

text \<open>
  \<open>p2ab_init\<close> from the point where the BAR is mapped: \<open>pci_open\<close> and \<open>mmap\<close> are
  operating system calls. \<open>p2ab_driver_reinit\<close> reloads the software copy from the
  register after the hardware may have been reset; \<open>None\<close> is a failed assertion.
\<close>

definition p2ab_init :: "'h mmio \<Rightarrow> ('h p2ab, int) state" where
  "p2ab_init mm = do {
     _ \<leftarrow> modify (\<lambda>s. s\<lparr>p2_rbar := 0\<rparr>);
     _ \<leftarrow> p2ab_reg_writel mm P2AB_RBAR 0;
     rc \<leftarrow> p2ab_unlock mm;
     (if the rc < 0 then ret (the rc) else ret 0) }"

definition p2ab_driver_reinit :: "'h mmio \<Rightarrow> nat \<Rightarrow> ('h p2ab, int option) state" where
  "p2ab_driver_reinit mm psize = do {
     r \<leftarrow> p2ab_reg_readl mm psize P2AB_RBAR;
     (case r of
        None \<Rightarrow> ret None
      | Some (Inl rc) \<Rightarrow> ret (Some rc)
      | Some (Inr val) \<Rightarrow> do { _ \<leftarrow> modify (\<lambda>s. s\<lparr>p2_rbar := val\<rparr>); ret (Some 0) }) }"

definition p2ab_probe :: "'h p2ab ahb \<Rightarrow> ('h p2ab, int) state" where
  "p2ab_probe ahb = do { rc \<leftarrow> rev_probe ahb; (if rc < 0 then ret rc else ret 1) }"

section \<open>What the driver relies on of the hardware\<close>

text \<open>
  The documented behaviour of the bridge: while it is open, the upper half of the BAR
  shows the 64 KiB of the AHB that start at the remap base, the remap base register holds
  what was stored to it, and storing 1 to the protection key register opens the bridge.
\<close>

locale p2a_device =
  fixes mm :: "'h mmio"
    and tgt :: "'t target"
    and bus :: "'h \<Rightarrow> 't"
    and rbar :: "'h \<Rightarrow> u32"
    and opened :: "'h \<Rightarrow> bool"
  assumes win_ld8: "opened h \<Longrightarrow> off < 0x10000 \<Longrightarrow>
      fst (run_state (mm_ld8 mm (0x10000 + off)) h) =
        fst (run_state (tgt_ld8 tgt (rbar h + of_nat off)) (bus h))"
    and win_ld8_hw: "opened h \<Longrightarrow> off < 0x10000 \<Longrightarrow>
      h' = snd (run_state (mm_ld8 mm (0x10000 + off)) h) \<Longrightarrow>
        bus h' = snd (run_state (tgt_ld8 tgt (rbar h + of_nat off)) (bus h)) \<and>
        rbar h' = rbar h \<and> opened h'"
    and win_st8_hw: "opened h \<Longrightarrow> off < 0x10000 \<Longrightarrow>
      h' = snd (run_state (mm_st8 mm (0x10000 + off) b) h) \<Longrightarrow>
        bus h' = snd (run_state (tgt_st8 tgt (rbar h + of_nat off) b) (bus h)) \<and>
        rbar h' = rbar h \<and> opened h'"
    and win_ld32: "opened h \<Longrightarrow> off < 0x10000 \<Longrightarrow> off mod 4 = 0 \<Longrightarrow>
      fst (run_state (mm_ld32 mm (0x10000 + off)) h) =
        fst (run_state (tgt_ld32 tgt (rbar h + of_nat off)) (bus h))"
    and win_ld32_hw: "opened h \<Longrightarrow> off < 0x10000 \<Longrightarrow> off mod 4 = 0 \<Longrightarrow>
      h' = snd (run_state (mm_ld32 mm (0x10000 + off)) h) \<Longrightarrow>
        bus h' = snd (run_state (tgt_ld32 tgt (rbar h + of_nat off)) (bus h)) \<and>
        rbar h' = rbar h \<and> opened h'"
    and win_st32_hw: "opened h \<Longrightarrow> off < 0x10000 \<Longrightarrow> off mod 4 = 0 \<Longrightarrow>
      h' = snd (run_state (mm_st32 mm (0x10000 + off) v) h) \<Longrightarrow>
        bus h' = snd (run_state (tgt_st32 tgt (rbar h + of_nat off) v) (bus h)) \<and>
        rbar h' = rbar h \<and> opened h'"
    and rbar_ld32: "run_state (mm_ld32 mm P2AB_RBAR) h = (rbar h, h)"
    and rbar_st32: "v AND NOT P2AB_RBAR_REMAP_MASK = 0 \<Longrightarrow>
      h' = snd (run_state (mm_st32 mm P2AB_RBAR v) h) \<Longrightarrow>
        rbar h' = v \<and> bus h' = bus h \<and> opened h' = opened h"
    and pkr_st32: "h' = snd (run_state (mm_st32 mm P2AB_PKR v) h) \<Longrightarrow>
        opened h' = (v = 1) \<and> bus h' = bus h \<and> rbar h' = rbar h"

definition p2a_inv :: "('h \<Rightarrow> u32) \<Rightarrow> ('h \<Rightarrow> bool) \<Rightarrow> 'h p2ab \<Rightarrow> bool" where
  "p2a_inv rbar opened s \<longleftrightarrow>
     opened (p2_hw s) \<and> p2_rbar s = rbar (p2_hw s) \<and> p2_rbar s AND NOT P2AB_RBAR_REMAP_MASK = 0"

lemma not_remap_mask: "NOT P2AB_RBAR_REMAP_MASK = mask 16"
  by (simp add: p2a_consts mask_eq_exp_minus_1)

lemma window_offset: "unat (phys AND NOT P2AB_RBAR_REMAP_MASK) = unat phys mod 0x10000"
  by (simp add: not_remap_mask unat_and_mask)

lemma window_base: "(phys AND P2AB_RBAR_REMAP_MASK) + of_nat (unat phys mod 0x10000) = phys"
proof -
  have "of_nat (unat phys mod 0x10000) = phys AND NOT P2AB_RBAR_REMAP_MASK"
    by (simp flip: window_offset)
  then show ?thesis by (simp add: and_plus_and_not)
qed

context p2a_device
begin

lemma map_result:
  assumes "p2a_inv rbar opened s"
  shows "fst (run_state (p2ab_map mm phys len) s) = int (unat phys mod 0x10000)"
    and "p2a_inv rbar opened (snd (run_state (p2ab_map mm phys len) s))"
    and "rbar (p2_hw (snd (run_state (p2ab_map mm phys len) s))) = phys AND P2AB_RBAR_REMAP_MASK"
    and "bus (p2_hw (snd (run_state (p2ab_map mm phys len) s))) = bus (p2_hw s)"
proof -
  have low: "(phys AND P2AB_RBAR_REMAP_MASK) AND NOT P2AB_RBAR_REMAP_MASK = 0"
    by (auto intro: bit_word_eqI simp: bit_simps)
  have off: "uint (phys AND NOT P2AB_RBAR_REMAP_MASK) = int (unat phys mod 0x10000)"
    by (metis window_offset uint_nat)
  note st = rbar_st32 [OF low refl]
  show "fst (run_state (p2ab_map mm phys len) s) = int (unat phys mod 0x10000)"
    "p2a_inv rbar opened (snd (run_state (p2ab_map mm phys len) s))"
    "rbar (p2_hw (snd (run_state (p2ab_map mm phys len) s))) = phys AND P2AB_RBAR_REMAP_MASK"
    "bus (p2_hw (snd (run_state (p2ab_map mm phys len) s))) = bus (p2_hw s)"
    using assms st low by (auto simp: p2ab_map_def p2a_inv_def off Let_def)
qed

lemma inv_hw:
  "p2a_inv rbar opened s \<Longrightarrow> rbar h' = rbar (p2_hw s) \<Longrightarrow> opened h' \<Longrightarrow>
     p2a_inv rbar opened (s\<lparr>p2_hw := h'\<rparr>)"
  by (auto simp: p2a_inv_def)

lemma mod_64k_mod_4: "n mod 0x10000 mod 4 = n mod (4 :: nat)"
  by (simp add: mod_mod_cancel)

lemma aligned_offset: "word_aligned a \<Longrightarrow> unat a mod 0x10000 mod 4 = 0"
  by (simp add: mod_64k_mod_4 word_aligned_iff)

lemma inv_opened: "p2a_inv rbar opened s \<Longrightarrow> opened (p2_hw s)"
  by (simp add: p2a_inv_def)

lemma bridge: "ahb_bridge (p2ab_ahb_ops mm buf) (p2a_inv rbar opened) tgt (\<lambda>s. bus (p2_hw s))"
proof -
  have *: "fst (run_state (p2ab_readl mm a) s) = Inr (fst (run_state (tgt_ld32 tgt a) (bus (p2_hw s)))) \<and>
      bus (p2_hw (snd (run_state (p2ab_readl mm a) s))) = snd (run_state (tgt_ld32 tgt a) (bus (p2_hw s))) \<and>
      p2a_inv rbar opened (snd (run_state (p2ab_readl mm a) s))"
    "fst (run_state (p2ab_writel mm a v) s) = 0 \<and>
      bus (p2_hw (snd (run_state (p2ab_writel mm a v) s))) = snd (run_state (tgt_st32 tgt a v) (bus (p2_hw s))) \<and>
      p2a_inv rbar opened (snd (run_state (p2ab_writel mm a v) s))"
    if s: "p2a_inv rbar opened s" and a: "word_aligned a" for s a v
  proof -
    note m = map_result [OF s]
    have o: "opened (p2_hw (snd (run_state (p2ab_map mm a 4) s)))"
      using m(2) by (rule inv_opened)
    have lt: "unat a mod 0x10000 < 0x10000" by simp
    note ld = win_ld32 [OF o lt aligned_offset [OF a]] win_ld32_hw [OF o lt aligned_offset [OF a] refl]
    note st = win_st32_hw [OF o lt aligned_offset [OF a] refl]
    show "fst (run_state (p2ab_readl mm a) s) = Inr (fst (run_state (tgt_ld32 tgt a) (bus (p2_hw s)))) \<and>
      bus (p2_hw (snd (run_state (p2ab_readl mm a) s))) = snd (run_state (tgt_ld32 tgt a) (bus (p2_hw s))) \<and>
      p2a_inv rbar opened (snd (run_state (p2ab_readl mm a) s))"
      using a ld m by (auto simp: p2ab_readl_def word_aligned_def P2AB_WINDOW_BASE_def window_base
          intro!: inv_hw)
    show "fst (run_state (p2ab_writel mm a v) s) = 0 \<and>
      bus (p2_hw (snd (run_state (p2ab_writel mm a v) s))) = snd (run_state (tgt_st32 tgt a v) (bus (p2_hw s))) \<and>
      p2a_inv rbar opened (snd (run_state (p2ab_writel mm a v) s))"
      using st m by (auto simp: p2ab_writel_def P2AB_WINDOW_BASE_def window_base
          intro!: inv_hw)
  qed
  show ?thesis by unfold_locales (use * in \<open>auto simp: p2ab_ahb_ops_def\<close>)
qed

end

section \<open>Bulk accesses through the window\<close>

lemma le_bytes_le_word [simp]: "le_bytes (le_word a b c d) = [a, b, c, d]"
  by (simp add: le_bytes_def)

lemma upt_4: "[n..<n + 4] = [n, n + 1, n + 2, n + 3]"
  by (simp add: upt_conv_Cons numeral_eq_Suc)

text \<open>The spans the window serves: within one window, or from its start.\<close>

definition p2a_span :: "u32 \<Rightarrow> nat \<Rightarrow> bool" where
  "p2a_span phys n \<longleftrightarrow> n \<le> 2 ^ 32 \<and>
     (unat phys mod 0x10000 = 0 \<or> unat phys mod 0x10000 + n \<le> 0x10000)"

lemma p2a_span_first:
  "p2a_span phys n \<Longrightarrow> unat phys mod 0x10000 + min n 0x10000 \<le> 0x10000"
  by (auto simp: p2a_span_def)

lemma p2a_span_next:
  assumes "p2a_span phys n" "0x10000 < n"
  shows "p2a_span (phys + 0x10000) (n - 0x10000)"
proof -
  have "unat phys mod 0x10000 = 0" using assms by (auto simp: p2a_span_def)
  then have "unat (phys + 0x10000) mod 0x10000 = 0"
    by (simp add: unat_word_ariths mod_mod_cancel mod_add_left_eq)
  with assms show ?thesis by (auto simp: p2a_span_def)
qed

locale p2a_bytes = p2a_device mm tgt bus rbar opened + byte_target tgt region
  for mm :: "'h mmio" and tgt :: "'t target" and bus :: "'h \<Rightarrow> 't" and rbar opened region
begin

definition at :: "'h \<Rightarrow> nat \<Rightarrow> u32" where
  "at h k = rbar h + of_nat k"

lemma at_plus: "at h (k + n) = at h k + of_nat n"
  by (simp add: at_def)

lemma at_aligned: "word_aligned (rbar h) \<Longrightarrow> k mod 4 = 0 \<Longrightarrow> word_aligned (at h k)"
  by (simp add: at_def word_aligned_add_nat)

lemma at_same: "rbar h' = rbar h \<Longrightarrow> at h' = at h"
  by (simp add: at_def fun_eq_iff)

lemma at_word: "map (\<lambda>i. at h (k + i)) [off..<off + 4] =
    [at h (k + off), at h (k + off) + 1, at h (k + off) + 2, at h (k + off) + 3]"
  by (simp add: upt_4 at_def ac_simps)

lemma word_from:
  assumes "opened h" "word_aligned (rbar h)" "(k + off) mod 4 = 0" "k + off < 0x10000"
    and "(\<lambda>i. at h (k + i)) ` set [off..<off + 4] \<subseteq> region"
    and "r = run_state (mm_ld32 mm (0x10000 + (k + off))) h"
    and "q = run_state (tgt_loads tgt (map (\<lambda>i. at h (k + i)) [off..<off + 4])) (bus h)"
  shows "le_bytes (fst r) = fst q \<and> bus (snd r) = snd q \<and> rbar (snd r) = rbar h \<and> opened (snd r)"
proof -
  let ?a = "at h (k + off)"
  have "set (map (\<lambda>i. at h (k + i)) [off..<off + 4]) \<subseteq> region" using assms(5) by simp
  then have "{?a, ?a + 1, ?a + 2, ?a + 3} \<subseteq> region" unfolding at_word by simp
  from ld32 [OF at_aligned [OF assms(2,3)] this, of "bus h"]
    win_ld32 [OF assms(1,4,3)] win_ld32_hw [OF assms(1,4,3) refl]
  show ?thesis unfolding assms(6,7) at_word by (simp add: at_def Let_def)
qed

lemma word_to:
  assumes "opened h" "word_aligned (rbar h)" "(k + off) mod 4 = 0" "k + off < 0x10000"
    and "(\<lambda>i. at h (k + i)) ` set [off..<off + 4] \<subseteq> region"
    and "h' = snd (run_state (mm_st32 mm (0x10000 + (k + off))
      (le_word (buf ! off) (buf ! (off + 1)) (buf ! (off + 2)) (buf ! (off + 3)))) h)"
  shows "bus h' = snd (run_state (tgt_stores tgt (map (\<lambda>i. (at h (k + i), buf ! i)) [off..<off + 4])) (bus h)) \<and>
    rbar h' = rbar h \<and> opened h'"
proof -
  let ?a = "at h (k + off)"
  have "set (map (\<lambda>i. at h (k + i)) [off..<off + 4]) \<subseteq> region" using assms(5) by simp
  then have "{?a, ?a + 1, ?a + 2, ?a + 3} \<subseteq> region" unfolding at_word by simp
  note st32 [OF at_aligned [OF assms(2,3)] this, of _ "bus h"]
  moreover have "map (\<lambda>i. (at h (k + i), buf ! i)) [off..<off + 4] =
      zip [?a, ?a + 1, ?a + 2, ?a + 3] [buf ! off, buf ! (off + 1), buf ! (off + 2), buf ! (off + 3)]"
    by (simp add: upt_4 at_def ac_simps)
  ultimately show ?thesis
    using win_st32_hw [OF assms(1,4,3) refl] unfolding assms(6) by (simp add: at_def Let_def)
qed

lemma copy_from:
  assumes "opened h" "word_aligned (rbar h)" "plan_aligned (0x10000 + k) plan"
    and "set (touched plan) \<subseteq> {..<0x10000 - k}" "(\<lambda>i. at h (k + i)) ` set (touched plan) \<subseteq> region"
    and "r = run_state (mmio_copy_from mm (0x10000 + k) plan) h"
    and "q = run_state (tgt_loads tgt (map (\<lambda>i. at h (k + i)) (touched plan))) (bus h)"
  shows "fst r = fst q \<and> bus (snd r) = snd q \<and> rbar (snd r) = rbar h \<and> opened (snd r)"
  using assms
proof (induction plan arbitrary: h r q)
  case (Cons a plan)
  obtain off w where a: "a = (off, w)" by fastforce
  have "w = 1 \<or> w = 4 \<and> (0x10000 + k + off) mod 4 = 0" using Cons.prems(3) a by simp
  then have w: "w = 1 \<or> w = 4 \<and> (k + off) mod 4 = 0" by presburger
  have lt: "k + off < 0x10000" using Cons.prems(4) a w by fastforce
  have rest: "plan_aligned (0x10000 + k) plan" "set (touched plan) \<subseteq> {..<0x10000 - k}"
    "(\<lambda>i. at h (k + i)) ` set (touched plan) \<subseteq> region"
    "(\<lambda>i. at h (k + i)) ` set [off..<off + w] \<subseteq> region"
    using Cons.prems(3-5) a by auto
  define h' where "h' = snd (run_state (if w = 4 then do { v \<leftarrow> mm_ld32 mm (0x10000 + (k + off)); ret (le_bytes v) }
           else do { b \<leftarrow> mm_ld8 mm (0x10000 + (k + off)); ret [b] }) h)"
  have h': "rbar h' = rbar h" "opened h'"
    using w word_from [OF Cons.prems(1,2) _ lt _ refl refl] rest(4) win_ld8_hw [OF Cons.prems(1) lt refl]
    by (auto simp: h'_def)
  note IH = Cons.IH [OF h'(2) _ rest(1,2) _ refl refl, unfolded h'(1) at_same [OF h'(1)], OF Cons.prems(2) rest(3)]
  from w show ?case
  proof
    assume w: "w = 1"
    show ?thesis
      using IH a w win_ld8 [OF Cons.prems(1) lt] win_ld8_hw [OF Cons.prems(1) lt refl] Cons.prems(6,7)
      by (simp add: at_def add.assoc Let_def h'_def)
  next
    assume w: "w = 4 \<and> (k + off) mod 4 = 0"
    show ?thesis
      using IH a w word_from [OF Cons.prems(1,2) _ lt _ refl refl] rest(4) Cons.prems(6,7)
      by (simp add: add.assoc Let_def h'_def)
  qed
qed simp

lemma copy_to:
  assumes "opened h" "word_aligned (rbar h)" "plan_aligned (0x10000 + k) plan"
    and "set (touched plan) \<subseteq> {..<0x10000 - k}" "(\<lambda>i. at h (k + i)) ` set (touched plan) \<subseteq> region"
    and "h' = snd (run_state (mmio_copy_to mm (0x10000 + k) buf plan) h)"
  shows "bus h' = snd (run_state (tgt_stores tgt (map (\<lambda>i. (at h (k + i), buf ! i)) (touched plan))) (bus h)) \<and>
    rbar h' = rbar h \<and> opened h'"
  using assms
proof (induction plan arbitrary: h h')
  case (Cons a plan)
  obtain off w where a: "a = (off, w)" by fastforce
  have "w = 1 \<or> w = 4 \<and> (0x10000 + k + off) mod 4 = 0" using Cons.prems(3) a by simp
  then have w: "w = 1 \<or> w = 4 \<and> (k + off) mod 4 = 0" by presburger
  have lt: "k + off < 0x10000" using Cons.prems(4) a w by fastforce
  have rest: "plan_aligned (0x10000 + k) plan" "set (touched plan) \<subseteq> {..<0x10000 - k}"
    "(\<lambda>i. at h (k + i)) ` set (touched plan) \<subseteq> region"
    "(\<lambda>i. at h (k + i)) ` set [off..<off + w] \<subseteq> region"
    using Cons.prems(3-5) a by auto
  define g where "g = snd (run_state (if w = 4 then mm_st32 mm (0x10000 + (k + off))
           (le_word (buf ! off) (buf ! (off + 1)) (buf ! (off + 2)) (buf ! (off + 3)))
         else mm_st8 mm (0x10000 + (k + off)) (buf ! off)) h)"
  have g: "rbar g = rbar h" "opened g"
    using w word_to [OF Cons.prems(1,2) _ lt _ refl, of buf] rest(4) win_st8_hw [OF Cons.prems(1) lt refl, of "buf ! off"]
    by (auto simp: g_def)
  note IH = Cons.IH [OF g(2) _ rest(1,2) _ refl, unfolded g(1) at_same [OF g(1)], OF Cons.prems(2) rest(3)]
  from w show ?case
  proof
    assume w: "w = 1"
    show ?thesis
      using IH a w win_st8_hw [OF Cons.prems(1) lt refl, of "buf ! off"] Cons.prems(6)
      by (simp add: at_def add.assoc Let_def g_def)
  next
    assume w: "w = 4 \<and> (k + off) mod 4 = 0"
    show ?thesis
      using IH a w word_to [OF Cons.prems(1,2) _ lt _ refl, of buf] rest(4) Cons.prems(6)
      by (simp add: add.assoc Let_def g_def)
  qed
qed simp

lemma at_map:
  "p2a_inv rbar opened s \<Longrightarrow>
     at (p2_hw (snd (run_state (p2ab_map mm phys len) s))) (unat phys mod 0x10000 + i) = phys + of_nat i"
  by (simp add: at_plus) (simp add: at_def map_result window_base)

lemma rbar_aligned:
  assumes "p2a_inv rbar opened s"
  shows "word_aligned (rbar (p2_hw (snd (run_state (p2ab_map mm phys len) s))))"
proof -
  have "(phys AND P2AB_RBAR_REMAP_MASK) AND 3 = 0"
    by (simp add: P2AB_RBAR_REMAP_MASK_def and.assoc)
  then show ?thesis by (simp add: word_aligned_def map_result(3) [OF assms])
qed

definition span :: "u32 \<Rightarrow> nat \<Rightarrow> bool" where
  "span phys n \<longleftrightarrow> p2a_span phys n \<and> set (span_addrs phys n) \<subseteq> region"

lemma span_next: "span phys n \<Longrightarrow> 0x10000 < n \<Longrightarrow> span (phys + 0x10000) (n - 0x10000)"
  using p2a_span_next span_addrs_append [of phys "0x10000" "n - 0x10000"]
  by (simp add: span_def)

lemma span_split: "i \<le> n \<Longrightarrow> span_addrs a n = span_addrs a i @ span_addrs (a + of_nat i) (n - i)"
  using span_addrs_append [of a i "n - i"] by simp

lemma step_from:
  assumes s: "p2a_inv rbar opened s" and n: "unat phys mod 0x10000 + n \<le> 0x10000"
    and reg: "set (span_addrs phys n) \<subseteq> region"
    and h: "h = p2_hw (snd (run_state (p2ab_map mm phys n) s))"
    and r: "r = run_state (mmio_copy_from mm (0x10000 + unat phys mod 0x10000)
        (mmio_memcpy_plan buf (0x10000 + unat phys mod 0x10000) n)) h"
    and q: "q = run_state (tgt_loads tgt (span_addrs phys n)) (bus (p2_hw s))"
  shows "fst r = fst q \<and> bus (snd r) = snd q \<and> rbar (snd r) = rbar h \<and> opened (snd r)"
proof -
  let ?k = "unat phys mod 0x10000" and ?p = "mmio_memcpy_plan buf (0x10000 + unat phys mod 0x10000) n"
  have at: "at h (?k + i) = phys + of_nat i" for i
    using at_map [OF s] by (simp add: h)
  have o: "opened h" "word_aligned (rbar h)"
    using inv_opened [OF map_result(2) [OF s]] rbar_aligned [OF s] by (simp_all add: h)
  have b: "bus h = bus (p2_hw s)" by (simp add: h map_result(4) [OF s])
  have addrs: "map (\<lambda>i. at h (?k + i)) (touched ?p) = span_addrs phys n"
    by (simp add: at plan_touched span_addrs_def)
  have t: "set (touched ?p) \<subseteq> {..<0x10000 - ?k}" using n by (auto simp: plan_touched)
  have "(\<lambda>i. at h (?k + i)) ` set (touched ?p) \<subseteq> region"
    using reg unfolding addrs [symmetric] by simp
  from copy_from [OF o plan_aligned_plan t this r refl] show ?thesis
    unfolding addrs b q by simp
qed

lemma step_to:
  assumes s: "p2a_inv rbar opened s" and n: "unat phys mod 0x10000 + n \<le> 0x10000"
    and reg: "set (span_addrs phys n) \<subseteq> region"
    and h: "h = p2_hw (snd (run_state (p2ab_map mm phys n) s))"
    and len: "n \<le> length data"
    and r: "r = run_state (mmio_copy_to mm (0x10000 + unat phys mod 0x10000) data
        (mmio_memcpy_plan (0x10000 + unat phys mod 0x10000) buf n)) h"
  shows "bus (snd r) = snd (run_state (tgt_stores tgt (zip (span_addrs phys n) (take n data))) (bus (p2_hw s))) \<and>
    rbar (snd r) = rbar h \<and> opened (snd r)"
proof -
  let ?k = "unat phys mod 0x10000" and ?p = "mmio_memcpy_plan (0x10000 + unat phys mod 0x10000) buf n"
  have at: "at h (?k + i) = phys + of_nat i" for i
    using at_map [OF s] by (simp add: h)
  have o: "opened h" "word_aligned (rbar h)"
    using inv_opened [OF map_result(2) [OF s]] rbar_aligned [OF s] by (simp_all add: h)
  have b: "bus h = bus (p2_hw s)" by (simp add: h map_result(4) [OF s])
  have addrs: "map (\<lambda>i. at h (?k + i)) (touched ?p) = span_addrs phys n"
    by (simp add: at plan_touched span_addrs_def)
  have stores: "map (\<lambda>i. (at h (?k + i), data ! i)) (touched ?p) = zip (span_addrs phys n) (take n data)"
    using len by (intro nth_equalityI) (simp_all add: at plan_touched span_addrs_def)
  have t: "set (touched ?p) \<subseteq> {..<0x10000 - ?k}" using n by (auto simp: plan_touched)
  have "(\<lambda>i. at h (?k + i)) ` set (touched ?p) \<subseteq> region"
    using reg unfolding addrs [symmetric] by simp
  from copy_to [OF o plan_aligned_plan t this refl, of data] show ?thesis
    unfolding stores b r by simp
qed

lemma read_loop:
  assumes "p2a_inv rbar opened s" "span phys n"
    and "r = run_state (p2ab_read_loop mm buf phys n) s"
    and "q = run_state (tgt_loads tgt (span_addrs phys n)) (bus (p2_hw s))"
  shows "fst r = Inr (fst q) \<and> bus (p2_hw (snd r)) = snd q \<and> p2a_inv rbar opened (snd r)"
  using assms
proof (induction n arbitrary: buf phys s r q rule: less_induct)
  case (less n)
  define i where "i = min n 0x10000"
  let ?k = "unat phys mod 0x10000"
  let ?m = "run_state (p2ab_map mm phys i) s"
  let ?r = "run_state (mmio_copy_from mm (0x10000 + ?k) (mmio_memcpy_plan buf (0x10000 + ?k) i))
      (p2_hw (snd ?m))"
  let ?s1 = "(snd ?m)\<lparr>p2_hw := snd ?r\<rparr>"
  have le: "i \<le> n" by (simp add: i_def)
  have span: "p2a_span phys n" "set (span_addrs phys i) \<subseteq> region"
    using less.prems(2) span_split [OF le, of phys] by (auto simp: span_def)
  note m = map_result [OF less.prems(1)]
  note r = step_from [OF less.prems(1) p2a_span_first [OF span(1), folded i_def] span(2) refl refl refl, of buf]
  have inv1: "p2a_inv rbar opened ?s1"
    using r by (intro inv_hw m(2)) simp_all
  have i: "(if n > P2AB_WINDOW_LEN then P2AB_WINDOW_LEN else n) = i"
    by (simp add: P2AB_WINDOW_LEN_def i_def)
  have step: "run_state (p2ab_read_loop mm buf phys n) s =
      (if n - i \<noteq> 0
       then run_state (do {
              r \<leftarrow> p2ab_read_loop mm (buf + i) (phys + of_nat i) (n - i);
              (case r of Inl e \<Rightarrow> ret (Inl e) | Inr rest \<Rightarrow> ret (Inr (fst ?r @ rest))) }) ?s1
       else (Inr (fst ?r), ?s1))"
    unfolding p2ab_read_loop.simps [of mm buf phys n] Let_def i
    by (simp add: m(1) P2AB_WINDOW_BASE_def)
  show ?case
  proof (cases "n \<le> 0x10000")
    case True
    then show ?thesis using r inv1 less.prems(3,4) by (simp add: step i_def)
  next
    case False
    then have "span (phys + of_nat i) (n - i)" "n - i < n"
      using span_next [OF less.prems(2)] by (simp_all add: i_def)
    note less.IH [OF this(2) inv1 this(1) refl refl, of "buf + i"]
    with False r inv1 less.prems(3,4) show ?thesis
      by (simp add: step span_split [OF le, of phys] i_def Let_def)
  qed
qed

lemma write_loop:
  assumes "p2a_inv rbar opened s" "span phys (length data)"
    and "r = run_state (p2ab_write_loop mm buf phys data) s"
  shows "fst r = 0 \<and> bus (p2_hw (snd r)) =
      snd (run_state (tgt_stores tgt (zip (span_addrs phys (length data)) data)) (bus (p2_hw s))) \<and>
    p2a_inv rbar opened (snd r)"
  using assms
proof (induction data arbitrary: buf phys s r rule: length_induct)
  case (1 data)
  define i where "i = min (length data) 0x10000"
  let ?n = "length data" and ?k = "unat phys mod 0x10000"
  let ?m = "run_state (p2ab_map mm phys i) s"
  let ?r = "run_state (mmio_copy_to mm (0x10000 + ?k) data (mmio_memcpy_plan (0x10000 + ?k) buf i))
      (p2_hw (snd ?m))"
  let ?s1 = "(snd ?m)\<lparr>p2_hw := snd ?r\<rparr>"
  have le: "i \<le> ?n" by (simp add: i_def)
  have span: "p2a_span phys ?n" "set (span_addrs phys i) \<subseteq> region"
    using "1.prems"(2) span_split [OF le, of phys] by (auto simp: span_def)
  note m = map_result [OF "1.prems"(1)]
  note r = step_to [OF "1.prems"(1) p2a_span_first [OF span(1), folded i_def] span(2) refl le refl, of buf]
  have inv1: "p2a_inv rbar opened ?s1"
    using r by (intro inv_hw m(2)) simp_all
  have i: "(if ?n > P2AB_WINDOW_LEN then P2AB_WINDOW_LEN else ?n) = i"
    by (simp add: P2AB_WINDOW_LEN_def i_def)
  have step: "run_state (p2ab_write_loop mm buf phys data) s =
      (if ?n - i \<noteq> 0
       then run_state (p2ab_write_loop mm (buf + i) (phys + of_nat i) (drop i data)) ?s1
       else (0, ?s1))"
    unfolding p2ab_write_loop.simps [of mm buf phys data] Let_def i
    by (simp add: m(1) P2AB_WINDOW_BASE_def)
  show ?case
  proof (cases "?n \<le> 0x10000")
    case True
    then show ?thesis using r inv1 "1.prems"(3) by (simp add: step i_def)
  next
    case False
    have "span (phys + of_nat i) (length (drop i data))" "length (drop i data) < length data"
      using span_next [OF "1.prems"(2)] False by (simp_all add: i_def)
    note IH = "1.IH" [rule_format, OF this(2) inv1 this(1) refl, of "buf + i"]
    have "zip (span_addrs phys ?n) data = zip (span_addrs phys i) (take i data) @
        zip (span_addrs (phys + of_nat i) (?n - i)) (drop i data)"
      using le by (simp add: span_split [OF le, of phys] zip_append1)
    with False r IH "1.prems"(3) show ?thesis
      by (simp add: step i_def)
  qed
qed

lemma bulk: "ahb_bulk (p2ab_ahb_ops mm buf) (p2a_inv rbar opened) tgt (\<lambda>s. bus (p2_hw s)) span"
proof -
  have small: "\<not> n > SSIZE_MAX" if "span a n" for a n
    using that by (auto simp: span_def p2a_span_def SSIZE_MAX_def)
  show ?thesis
    by unfold_locales
      (use read_loop [OF _ _ refl refl] write_loop [OF _ _ refl] small in
        \<open>simp_all add: p2ab_ahb_ops_def p2ab_read_def p2ab_write_def\<close>)
qed

end

text \<open>Memory behind the bridge is the case the clients of \<open>ahb_ram\<close> need.\<close>

locale p2a_ram = p2a_device mm ram_target bus rbar opened
  for mm :: "'h mmio" and bus :: "'h \<Rightarrow> u32 \<Rightarrow> u8" and rbar opened
begin

sublocale bytes: p2a_bytes mm ram_target bus rbar opened UNIV ..

lemma ram: "ahb_ram (p2ab_ahb_ops mm buf) (p2a_inv rbar opened) (\<lambda>s. bus (p2_hw s)) p2a_span"
proof -
  have "bytes.span = p2a_span" by (simp add: bytes.span_def fun_eq_iff)
  then show ?thesis
    using bulk_ram [OF bytes.bulk] by (simp add: p2a_span_def)
qed

end

section \<open>The bridge over its documented hardware\<close>

text \<open>
  The registers and the window of the BAR as documented, in front of any bus. While the
  bridge is closed the window reads as ones and drops stores.
\<close>

record 't p2a_hw =
  ph_rbar :: u32
  ph_open :: bool
  ph_bus :: 't

definition p2a_window :: "u32 \<Rightarrow> nat \<Rightarrow> u32" where
  "p2a_window base addr = base + of_nat (addr - P2AB_WINDOW_BASE)"

definition p2a_mmio :: "'t target \<Rightarrow> 't p2a_hw mmio" where
  "p2a_mmio tgt = \<lparr>
     mm_ld8 = (\<lambda>addr. do {
        h \<leftarrow> State_Monad.get;
        (if addr < P2AB_WINDOW_BASE \<or> \<not> ph_open h then ret 0xff
         else zoom ph_bus (\<lambda>t h. h\<lparr>ph_bus := t\<rparr>) (tgt_ld8 tgt (p2a_window (ph_rbar h) addr))) }),
     mm_st8 = (\<lambda>addr b. do {
        h \<leftarrow> State_Monad.get;
        (if addr < P2AB_WINDOW_BASE \<or> \<not> ph_open h then ret ()
         else zoom ph_bus (\<lambda>t h. h\<lparr>ph_bus := t\<rparr>) (tgt_st8 tgt (p2a_window (ph_rbar h) addr) b)) }),
     mm_ld32 = (\<lambda>addr. do {
        h \<leftarrow> State_Monad.get;
        (if addr = P2AB_RBAR then ret (ph_rbar h)
         else if addr = P2AB_PKR then ret (if ph_open h then 1 else 0)
         else if addr < P2AB_WINDOW_BASE \<or> \<not> ph_open h then ret 0xffffffff
         else zoom ph_bus (\<lambda>t h. h\<lparr>ph_bus := t\<rparr>) (tgt_ld32 tgt (p2a_window (ph_rbar h) addr))) }),
     mm_st32 = (\<lambda>addr v. do {
        h \<leftarrow> State_Monad.get;
        (if addr = P2AB_RBAR then modify (\<lambda>h. h\<lparr>ph_rbar := v AND P2AB_RBAR_REMAP_MASK\<rparr>)
         else if addr = P2AB_PKR then modify (\<lambda>h. h\<lparr>ph_open := (v = 1)\<rparr>)
         else if addr < P2AB_WINDOW_BASE \<or> \<not> ph_open h then ret ()
         else zoom ph_bus (\<lambda>t h. h\<lparr>ph_bus := t\<rparr>) (tgt_st32 tgt (p2a_window (ph_rbar h) addr) v)) }) \<rparr>"

lemma and_split_0: "v AND NOT m = 0 \<Longrightarrow> v AND m = (v :: u32)"
  using and_plus_and_not [of v m] by simp

interpretation p2a: p2a_device "p2a_mmio tgt" tgt ph_bus ph_rbar ph_open
  by unfold_locales (auto simp: p2a_mmio_def p2a_consts p2a_window_def and_split_0 [simplified p2a_consts])

interpretation p2a_mem: p2a_ram "p2a_mmio ram_target" ph_bus ph_rbar ph_open
  ..

interpretation p2a_bridge: ahb_bridge "p2ab_ahb_ops (p2a_mmio tgt) buf" "p2a_inv ph_rbar ph_open"
    tgt "\<lambda>s. ph_bus (p2_hw s)"
  by (rule p2a.bridge)

interpretation p2a_reg: reg_bus "p2ab_ahb_ops (p2a_mmio (regfile eff)) buf" "p2a_inv ph_rbar ph_open"
    "\<lambda>s. ph_bus (p2_hw s)" eff
  by unfold_locales

interpretation p2a_bulk: ahb_ram "p2ab_ahb_ops (p2a_mmio ram_target) buf" "p2a_inv ph_rbar ph_open"
    "\<lambda>s. ph_bus (p2_hw s)" p2a_span
  by (rule p2a_mem.ram)


section \<open>Properties\<close>

lemma mem_range_upd: "length bs \<le> 2 ^ 32 \<Longrightarrow> mem_range (mem_upd m a bs) a (length bs) = bs"
  by (rule nth_equalityI) (simp_all add: mem_range_def mem_upd_def unat_of_nat)

definition p2a_start :: "'t \<Rightarrow> 't p2a_hw p2ab" where
  "p2a_start t = \<lparr>p2_hw = \<lparr>ph_rbar = 0, ph_open = True, ph_bus = t\<rparr>, p2_rbar = 0\<rparr>"

lemma p2a_start_inv [simp]: "p2a_inv ph_rbar ph_open (p2a_start t)"
  by (simp add: p2a_inv_def p2a_start_def)

lemma p2a_start_bus [simp]: "ph_bus (p2_hw (p2a_start t)) = t"
  by (simp add: p2a_start_def)

text \<open>A bus on which every access shows, for an example: a load takes a word from a queue.\<close>

definition popping :: "u32 list target" where
  "popping = \<lparr>
     tgt_ld8 = (\<lambda>a. State (\<lambda>q. (ucast (hd q), tl q))), tgt_st8 = (\<lambda>a b. State (\<lambda>q. ((), q @ [ucast b]))),
     tgt_ld32 = (\<lambda>a. State (\<lambda>q. (hd q, tl q))), tgt_st32 = (\<lambda>a v. State (\<lambda>q. ((), q @ [v]))) \<rparr>"

text \<open>
  Claim C28. A word access of the P2A bridge is one access of the bus: with the window open
  and the software copy of the remap base in step with the register, \<open>p2ab_readl\<close> on an
  aligned address gives what a load of that bus address gives and leaves the bus as this one
  load does, \<open>p2ab_writel\<close> leaves it as the one store to that address does, and both leave
  the copy and the register in step.
\<close>

theorem p2ab_word_access:
  assumes "p2a_device mm tgt bus rbar opened"
    and "p2a_inv rbar opened s" "unat phys mod 4 = 0"
  shows "fst (run_state (p2ab_readl mm phys) s) =
      Inr (fst (run_state (tgt_ld32 tgt phys) (bus (p2_hw s)))) \<and>
    bus (p2_hw (snd (run_state (p2ab_readl mm phys) s))) =
      snd (run_state (tgt_ld32 tgt phys) (bus (p2_hw s))) \<and>
    fst (run_state (p2ab_writel mm phys val) s) = 0 \<and>
    bus (p2_hw (snd (run_state (p2ab_writel mm phys val) s))) =
      snd (run_state (tgt_st32 tgt phys val) (bus (p2_hw s))) \<and>
    p2a_inv rbar opened (snd (run_state (p2ab_readl mm phys) s)) \<and>
    p2a_inv rbar opened (snd (run_state (p2ab_writel mm phys val) s))"
  using ahb_bridge.readl_val [OF p2a_device.bridge [OF assms(1)] assms(2)]
    ahb_bridge.readl_bus [OF p2a_device.bridge [OF assms(1)] assms(2)]
    ahb_bridge.readl_inv [OF p2a_device.bridge [OF assms(1)] assms(2)]
    ahb_bridge.writel_rc [OF p2a_device.bridge [OF assms(1)] assms(2)]
    ahb_bridge.writel_bus [OF p2a_device.bridge [OF assms(1)] assms(2)]
    ahb_bridge.writel_inv [OF p2a_device.bridge [OF assms(1)] assms(2)] assms(3)
  by (simp add: p2ab_ahb_ops_def word_aligned_iff)

theorem p2ab_word_access_witness:
  "fst (run_state (p2ab_readl (p2a_mmio popping) 0x1e6e2004) (p2a_start [7, 8, 9])) = Inr 7 \<and>
   ph_bus (p2_hw (snd (run_state (p2ab_readl (p2a_mmio popping) 0x1e6e2004) (p2a_start [7, 8, 9])))) = [8, 9] \<and>
   ph_bus (p2_hw (snd (run_state (p2ab_writel (p2a_mmio popping) 0x1e6e2004 6) (p2a_start [7, 8, 9])))) = [7, 8, 9, 6]"
  using p2ab_word_access [OF p2a.p2a_device_axioms, of "p2a_start [7, 8, 9]" "0x1e6e2004" popping 6]
  by (simp add: popping_def)

text \<open>
  Claim C23. Bulk accesses move the bytes of memory: on every span that lies in one window
  or starts at a window's base, whatever its length, \<open>p2ab_write\<close> reports the length, puts
  exactly these bytes at \<open>phys\<close> and touches nothing else, and \<open>p2ab_read\<close> then gives them
  back, for every alignment of the caller's buffer.
\<close>

theorem p2ab_bulk_access:
  assumes "p2a_ram mm bus rbar opened"
    and "p2a_inv rbar opened s" "p2a_span phys (length data)"
    and "s' = snd (run_state (p2ab_write mm buf phys data) s)"
  shows "fst (run_state (p2ab_write mm buf phys data) s) = int (length data) \<and>
    bus (p2_hw s') = mem_upd (bus (p2_hw s)) phys data \<and>
    fst (run_state (p2ab_read mm buf' phys (length data)) s') = Inr data \<and>
    bus (p2_hw (snd (run_state (p2ab_read mm buf' phys (length data)) s'))) = bus (p2_hw s')"
proof -
  note w = p2a_ram.ram [OF assms(1), of buf] and r = p2a_ram.ram [OF assms(1), of buf']
  have i: "p2a_inv rbar opened s'"
    using ahb_ram.write_inv [OF w assms(2,3)] assms(4) by (simp add: p2ab_ahb_ops_def)
  show ?thesis
    using ahb_ram.write_rc [OF w assms(2,3)] ahb_ram.write_mem [OF w assms(2,3)]
      ahb_ram.read_val [OF r i assms(3)] ahb_ram.read_mem [OF r i assms(3)] assms(3,4)
    by (simp add: p2ab_ahb_ops_def mem_range_upd p2a_span_def)
qed

theorem p2ab_bulk_access_witness:
  "fst (run_state (p2ab_write (p2a_mmio ram_target) 5 0x1e6e2002 [1, 2, 3])
     (p2a_start (\<lambda>_. 0))) = 3"
  using p2ab_bulk_access [OF p2a_mem.p2a_ram_axioms _ _ refl,
      where phys = "0x1e6e2002" and data = "[1, 2, 3]" and s = "p2a_start (\<lambda>_. 0)" and buf = 5 and buf' = 0]
  by (simp add: p2a_span_def)

text \<open>
  \<open>p2ab_init\<close> succeeds on the mapped BAR, opens the window and leaves the software
  copy of the remap base in step with the register, whatever both held before; it does not
  touch the bus.
\<close>

theorem p2ab_init_sync:
  assumes "p2a_device mm tgt bus rbar opened"
  shows "fst (run_state (p2ab_init mm) s) = 0 \<and>
    p2a_inv rbar opened (snd (run_state (p2ab_init mm) s)) \<and>
    bus (p2_hw (snd (run_state (p2ab_init mm) s))) = bus (p2_hw s)"
  using p2a_device.rbar_st32 [OF assms, of 0 _ "p2_hw s"] p2a_device.pkr_st32 [OF assms, of _ 1]
  by (simp add: p2ab_init_def p2ab_unlock_def p2a_inv_def)

theorem p2ab_init_sync_witness:
  "p2a_inv ph_rbar ph_open (snd (run_state (p2ab_init (p2a_mmio ram_target))
     \<lparr>p2_hw = \<lparr>ph_rbar = 0x1e6e0000, ph_open = False, ph_bus = (\<lambda>_. 0)\<rparr>, p2_rbar = 0x20000000\<rparr>))"
  using p2ab_init_sync [OF p2a.p2a_device_axioms] by blast

text \<open>
  On a build with 8-byte pointers \<open>p2ab_driver_reinit\<close> never reloads the remap
  base: the assertion in \<open>__p2ab_readl\<close> takes the size of the out-parameter pointer, and
  the register at offset \<open>0xf004\<close> is not 8-byte aligned, so the assertion fails on every
  state. With 4-byte pointers it succeeds and copies the register.
\<close>

theorem p2ab_reinit_assert:
  "fst (run_state (p2ab_driver_reinit mm 8) s) = None \<and>
   fst (run_state (p2ab_driver_reinit mm 4) s) = Some 0 \<and>
   p2_rbar (snd (run_state (p2ab_driver_reinit mm 4) s)) =
     fst (run_state (mm_ld32 mm P2AB_RBAR) (p2_hw s))"
  by (simp add: p2ab_driver_reinit_def p2ab_reg_readl_def p2ab_reg_assert_def p2a_consts)

end
