(* ===== verification/Sio.thy ===== *)
theory Sio
  imports P2a
begin

text \<open>
  The SuperIO behind the LPC IO ports, \<^verbatim>\<open>src/sio.c\<close> and \<^verbatim>\<open>src/sio.h\<close>. The port accesses of
  \<^verbatim>\<open>src/lpc.h\<close> are implemented per architecture over the operating system and are
  parameters. \<open>superio\<close> is the documented device: the password that unlocks it, the index
  register, the logical device number, and the registers of the iLPC2AHB logical device,
  which make one access of the bus when they are triggered.
\<close>

section \<open>The driver\<close>

record 'h lpc_ops =
  lpc_init :: "string \<Rightarrow> ('h, int) state"
  lpc_destroy :: "('h, int) state"
  lpc_readb :: "nat \<Rightarrow> ('h, int + u8) state"
  lpc_writeb :: "nat \<Rightarrow> u8 \<Rightarrow> ('h, int) state"
  lpc_read :: "nat \<Rightarrow> nat \<Rightarrow> ('h, int + u8 list) state"
  lpc_write :: "nat \<Rightarrow> u8 list \<Rightarrow> ('h, int) state"

abbreviation sio_suart1 :: u8 where "sio_suart1 \<equiv> 0x02"
abbreviation sio_suart4 :: u8 where "sio_suart4 \<equiv> 0x0c"
abbreviation sio_ilpc :: u8 where "sio_ilpc \<equiv> 0x0d"

record 'h sio =
  sio_io :: 'h
  sio_base :: nat

definition sio_port :: "('h, 'a) state \<Rightarrow> ('h sio, 'a) state" where
  "sio_port m = zoom sio_io (\<lambda>h s. s\<lparr>sio_io := h\<rparr>) m"

lemma run_sio_port [simp]:
  "run_state (sio_port m) s =
     (fst (run_state m (sio_io s)), s\<lparr>sio_io := snd (run_state m (sio_io s))\<rparr>)"
  by (simp add: sio_port_def)

definition sio_addr_write :: "'h lpc_ops \<Rightarrow> u8 \<Rightarrow> ('h sio, int) state" where
  "sio_addr_write io v = do { b \<leftarrow> gets sio_base; sio_port (lpc_writeb io b v) }"

definition sio_init :: "'h lpc_ops \<Rightarrow> ('h sio, int) state" where
  "sio_init io = do {
     _ \<leftarrow> modify (\<lambda>s. s\<lparr>sio_base := 0x2e\<rparr>);
     sio_port (lpc_init io ''io'') }"

definition sio_destroy :: "'h lpc_ops \<Rightarrow> ('h sio, int) state" where
  "sio_destroy io = sio_port (lpc_destroy io)"

definition sio_lock :: "'h lpc_ops \<Rightarrow> ('h sio, int) state" where
  "sio_lock io = sio_addr_write io 0xaa"

definition sio_unlock :: "'h lpc_ops \<Rightarrow> ('h sio, int) state" where
  "sio_unlock io = do {
     rc \<leftarrow> sio_addr_write io 0xa5;
     rc' \<leftarrow> sio_addr_write io 0xa5;
     ret (rc OR rc') }"

definition sio_readb :: "'h lpc_ops \<Rightarrow> u8 \<Rightarrow> ('h sio, int + u8) state" where
  "sio_readb io addr =
     nzr_then (sio_addr_write io addr)
       (do { b \<leftarrow> gets sio_base; sio_port (lpc_readb io (b + 1)) })"

definition sio_writeb :: "'h lpc_ops \<Rightarrow> u8 \<Rightarrow> u8 \<Rightarrow> ('h sio, int) state" where
  "sio_writeb io addr val =
     nz_then (sio_addr_write io addr)
       (do { b \<leftarrow> gets sio_base; sio_port (lpc_writeb io (b + 1) val) })"

definition sio_select :: "'h lpc_ops \<Rightarrow> u8 \<Rightarrow> ('h sio, int) state" where
  "sio_select io dev = sio_writeb io 0x07 dev"

definition sio_present :: "'h lpc_ops \<Rightarrow> ('h sio, int) state" where
  "sio_present io = do {
     rc \<leftarrow>
       nz_then (sio_unlock io)
      (nz_then (sio_select io sio_suart1)
      (val_then (sio_readb io 0x07) (\<lambda>dev.
         if \<not> dev = sio_suart1 then ret 0 else
       nz_then (sio_select io sio_suart4)
      (val_then (sio_readb io 0x07) (\<lambda>dev.
         ret (if dev = sio_suart4 then 1 else 0))))));
     _ \<leftarrow> sio_lock io;
     ret rc }"

definition sio_probe :: "'h lpc_ops \<Rightarrow> ('h sio, bool) state" where
  "sio_probe io = do {
     _ \<leftarrow> modify (\<lambda>s. s\<lparr>sio_base := 0x2e\<rparr>);
     rc \<leftarrow> sio_present io;
     (if rc \<noteq> 0 then ret True
      else do {
        _ \<leftarrow> modify (\<lambda>s. s\<lparr>sio_base := 0x4e\<rparr>);
        rc' \<leftarrow> sio_present io;
        ret (rc' \<noteq> 0) }) }"

section \<open>The documented device\<close>

record 't superio =
  si_key :: nat
  si_index :: u8
  si_dev :: u8
  si_on :: bool
  si_width :: u8
  si_addr :: "u8 \<Rightarrow> u8"
  si_data :: "u8 \<Rightarrow> u8"
  si_bus :: 't

definition ilpc_addr :: "'t superio \<Rightarrow> u32" where
  "ilpc_addr d = le_word (si_addr d 0xf3) (si_addr d 0xf2) (si_addr d 0xf1) (si_addr d 0xf0)"

definition ilpc_data :: "'t superio \<Rightarrow> u32" where
  "ilpc_data d = le_word (si_data d 0xf7) (si_data d 0xf6) (si_data d 0xf5) (si_data d 0xf4)"

text \<open>One access of the bus, of the width the device is set to.\<close>

definition ilpc_load :: "'t target \<Rightarrow> 't superio \<Rightarrow> 't superio" where
  "ilpc_load tgt d =
     (if si_width d = 2
      then let (v, t) = run_state (tgt_ld32 tgt (ilpc_addr d)) (si_bus d)
           in d\<lparr>si_bus := t, si_data := (si_data d)
                (0xf4 := byte_of 3 v, 0xf5 := byte_of 2 v, 0xf6 := byte_of 1 v, 0xf7 := byte_of 0 v)\<rparr>
      else let (b, t) = run_state (tgt_ld8 tgt (ilpc_addr d)) (si_bus d)
           in d\<lparr>si_bus := t, si_data := (si_data d)(0xf7 := b)\<rparr>)"

definition ilpc_store :: "'t target \<Rightarrow> 't superio \<Rightarrow> 't superio" where
  "ilpc_store tgt d =
     (if si_width d = 2
      then d\<lparr>si_bus := snd (run_state (tgt_st32 tgt (ilpc_addr d) (ilpc_data d)) (si_bus d))\<rparr>
      else d\<lparr>si_bus := snd (run_state (tgt_st8 tgt (ilpc_addr d) (si_data d 0xf7)) (si_bus d))\<rparr>)"

definition superio_index :: "u8 \<Rightarrow> 't superio \<Rightarrow> 't superio" where
  "superio_index v d =
     (if si_key d < 2 then d\<lparr>si_key := (if v = 0xa5 then si_key d + 1 else 0)\<rparr>
      else if v = 0xaa then d\<lparr>si_key := 0\<rparr>
      else d\<lparr>si_index := v\<rparr>)"

definition superio_store :: "'t target \<Rightarrow> u8 \<Rightarrow> 't superio \<Rightarrow> 't superio" where
  "superio_store tgt v d =
     (if si_key d < 2 then d
      else if si_index d = 0x07 then d\<lparr>si_dev := v\<rparr>
      else if si_dev d \<noteq> sio_ilpc then d
      else if si_index d = 0x30 then d\<lparr>si_on := (v AND 1 = 1)\<rparr>
      else if si_index d \<in> {0xf0, 0xf1, 0xf2, 0xf3} then d\<lparr>si_addr := (si_addr d)(si_index d := v)\<rparr>
      else if si_index d \<in> {0xf4, 0xf5, 0xf6, 0xf7} then d\<lparr>si_data := (si_data d)(si_index d := v)\<rparr>
      else if si_index d = 0xf8 then d\<lparr>si_width := v\<rparr>
      else if si_index d = 0xfe \<and> si_on d \<and> v = 0xcf then ilpc_store tgt d
      else d)"

definition superio_load :: "'t target \<Rightarrow> 't superio \<Rightarrow> u8 \<times> 't superio" where
  "superio_load tgt d =
     (if si_key d < 2 then (0xff, d)
      else if si_index d = 0x07 then (si_dev d, d)
      else if si_dev d \<noteq> sio_ilpc then (0, d)
      else if si_index d \<in> {0xf4, 0xf5, 0xf6, 0xf7} then (si_data d (si_index d), d)
      else if si_index d = 0xfe \<and> si_on d then (0, ilpc_load tgt d)
      else (0, d))"

definition port_write :: "'t target \<Rightarrow> nat \<Rightarrow> nat \<Rightarrow> u8 \<Rightarrow> 't superio \<Rightarrow> 't superio" where
  "port_write tgt strap port v d =
     (if port = strap then superio_index v d
      else if port = strap + 1 then superio_store tgt v d else d)"

definition port_read :: "'t target \<Rightarrow> nat \<Rightarrow> nat \<Rightarrow> 't superio \<Rightarrow> u8 \<times> 't superio" where
  "port_read tgt strap port d =
     (if port = strap then (si_index d, d)
      else if port = strap + 1 then superio_load tgt d else (0xff, d))"

text \<open>
  What the driver relies on: port accesses succeed and act on the device, whose ports are
  at \<open>strap\<close>.
\<close>

locale superio_ports =
  fixes io :: "'h lpc_ops"
    and tgt :: "'t target"
    and strap :: nat
    and view :: "'h \<Rightarrow> 't superio"
  assumes writeb_rc: "fst (run_state (lpc_writeb io port v) h) = 0"
    and writeb_view: "view (snd (run_state (lpc_writeb io port v) h)) =
      port_write tgt strap port v (view h)"
    and readb_val: "fst (run_state (lpc_readb io port) h) = Inr (fst (port_read tgt strap port (view h)))"
    and readb_view: "view (snd (run_state (lpc_readb io port) h)) =
      snd (port_read tgt strap port (view h))"

section \<open>Register accesses over the device\<close>

definition superio_unlock :: "'t superio \<Rightarrow> 't superio" where
  "superio_unlock d = superio_index 0xa5 (superio_index 0xa5 d)"

lemma superio_unlock_simps [simp]:
  "\<not> si_key (superio_unlock d) < 2"
  "si_dev (superio_unlock d) = si_dev d" "si_on (superio_unlock d) = si_on d"
  "si_width (superio_unlock d) = si_width d" "si_addr (superio_unlock d) = si_addr d"
  "si_data (superio_unlock d) = si_data d" "si_bus (superio_unlock d) = si_bus d"
  by (simp_all add: superio_unlock_def superio_index_def)

lemma superio_lock_simps [simp]:
  "si_bus (superio_index v d) = si_bus d" "si_key (superio_index 0xaa d) = 0"
  by (simp_all add: superio_index_def)

lemma superio_index_unlocked [simp]:
  "\<not> si_key d < 2 \<Longrightarrow> v \<noteq> 0xaa \<Longrightarrow> superio_index v d = d\<lparr>si_index := v\<rparr>"
  by (simp add: superio_index_def)

context superio_ports
begin

abbreviation dev :: "'h sio \<Rightarrow> 't superio" where
  "dev s \<equiv> view (sio_io s)"

lemma base_addr_write [simp]: "sio_base (snd (run_state (sio_addr_write io v) s)) = sio_base s"
  by (simp add: sio_addr_write_def)

lemma base_readb [simp]: "sio_base (snd (run_state (sio_readb io a) s)) = sio_base s"
  by (simp add: sio_readb_def)

lemma base_writeb [simp]: "sio_base (snd (run_state (sio_writeb io a v) s)) = sio_base s"
  by (simp add: sio_writeb_def)

lemma base_select [simp]: "sio_base (snd (run_state (sio_select io v) s)) = sio_base s"
  by (simp add: sio_select_def)

lemma base_lock [simp]:
  "sio_base (snd (run_state (sio_lock io) s)) = sio_base s"
  "sio_base (snd (run_state (sio_unlock io) s)) = sio_base s"
  by (simp_all add: sio_lock_def sio_unlock_def)

lemma addr_write [simp]:
  "fst (run_state (sio_addr_write io v) s) = 0"
  "dev (snd (run_state (sio_addr_write io v) s)) = port_write tgt strap (sio_base s) v (dev s)"
  by (simp_all add: sio_addr_write_def writeb_rc writeb_view)

lemma unlock [simp]:
  "fst (run_state (sio_unlock io) s) = 0"
  "sio_base s = strap \<Longrightarrow> dev (snd (run_state (sio_unlock io) s)) = superio_unlock (dev s)"
  by (simp_all add: sio_unlock_def superio_unlock_def port_write_def)

lemma lock [simp]:
  "fst (run_state (sio_lock io) s) = 0"
  "sio_base s = strap \<Longrightarrow> dev (snd (run_state (sio_lock io) s)) = superio_index 0xaa (dev s)"
  by (simp_all add: sio_lock_def port_write_def)

lemma writeb_ok [simp]: "fst (run_state (sio_writeb io a v) s) = 0"
  by (simp add: sio_writeb_def writeb_rc)

lemma writeb [simp]:
  assumes "sio_base s = strap"
  shows "dev (snd (run_state (sio_writeb io a v) s)) = superio_store tgt v (superio_index a (dev s))"
  using assms by (simp add: sio_writeb_def writeb_rc writeb_view port_write_def)

lemma select [simp]:
  "fst (run_state (sio_select io v) s) = 0"
  "sio_base s = strap \<Longrightarrow>
     dev (snd (run_state (sio_select io v) s)) = superio_store tgt v (superio_index 0x07 (dev s))"
  by (simp_all add: sio_select_def)

lemma readb [simp]:
  assumes "sio_base s = strap"
  shows "fst (run_state (sio_readb io a) s) = Inr (fst (superio_load tgt (superio_index a (dev s))))"
    and "dev (snd (run_state (sio_readb io a) s)) = snd (superio_load tgt (superio_index a (dev s)))"
  using assms by (simp_all add: sio_readb_def readb_val readb_view port_write_def port_read_def)

text \<open>The probe finds the device at the port it is strapped to.\<close>

lemma present_at_strap:
  assumes "sio_base s = strap"
  shows "fst (run_state (sio_present io) s) = 1"
    and "sio_base (snd (run_state (sio_present io) s)) = strap"
  using assms by (simp_all add: sio_present_def superio_store_def superio_load_def)

lemma present_bus:
  "sio_base s = strap \<Longrightarrow> si_bus (dev (snd (run_state (sio_present io) s))) = si_bus (dev s)"
  by (simp add: sio_present_def superio_store_def superio_load_def)

lemma absent:
  assumes "sio_base s \<notin> {strap, strap + 1}" "sio_base s + 1 \<noteq> strap"
  shows "fst (run_state (sio_present io) s) = 0"
    and "dev (snd (run_state (sio_present io) s)) = dev s"
  using assms
  by (auto simp: sio_present_def sio_unlock_def sio_select_def sio_writeb_def sio_readb_def
      sio_lock_def writeb_rc writeb_view readb_val readb_view port_write_def port_read_def)

lemma probe:
  shows "strap \<in> {0x2e, 0x4e} \<Longrightarrow>
      fst (run_state (sio_probe io) s) \<and> sio_base (snd (run_state (sio_probe io) s)) = strap"
    and "strap \<notin> {0x2d, 0x2e, 0x2f, 0x4d, 0x4e, 0x4f} \<Longrightarrow> \<not> fst (run_state (sio_probe io) s)"
  by (auto simp: sio_probe_def present_at_strap absent)

lemma probe_bus:
  assumes "strap \<in> {0x2e, 0x4e}"
  shows "si_bus (dev (snd (run_state (sio_probe io) s))) = si_bus (dev s)"
  using assms by (auto simp: sio_probe_def present_at_strap absent present_bus)

end

end
