(* ===== verification/Ilpc.thy ===== *)
theory Ilpc
  imports Sio
begin

text \<open>
  The iLPC2AHB bridge, \<^verbatim>\<open>src/bridge/ilpc.c\<close>: a SuperIO logical device whose registers hold
  an address, a value and a trigger. The driver state is the SuperIO handle.
\<close>

section \<open>The driver\<close>

text \<open>The common first steps of every access: unlock, select, enable, set the width.\<close>

definition ilpcb_setup :: "'h lpc_ops \<Rightarrow> u8 \<Rightarrow> ('h sio, int) state" where
  "ilpcb_setup io width =
     nz_then (sio_unlock io)
    (nz_then (sio_select io sio_ilpc)
    (nz_then (sio_writeb io 0x30 0x01)
             (sio_writeb io 0xf8 width)))"

definition ilpcb_set_addr :: "'h lpc_ops \<Rightarrow> u32 \<Rightarrow> ('h sio, int) state" where
  "ilpcb_set_addr io addr = do {
     rc0 \<leftarrow> sio_writeb io 0xf0 (byte_of 3 addr);
     rc1 \<leftarrow> sio_writeb io 0xf1 (byte_of 2 addr);
     rc2 \<leftarrow> sio_writeb io 0xf2 (byte_of 1 addr);
     rc3 \<leftarrow> sio_writeb io 0xf3 (byte_of 0 addr);
     ret (rc0 OR rc1 OR rc2 OR rc3) }"

definition ilpcb_set_data :: "'h lpc_ops \<Rightarrow> u32 \<Rightarrow> ('h sio, int) state" where
  "ilpcb_set_data io val = do {
     rc0 \<leftarrow> sio_writeb io 0xf4 (byte_of 3 val);
     rc1 \<leftarrow> sio_writeb io 0xf5 (byte_of 2 val);
     rc2 \<leftarrow> sio_writeb io 0xf6 (byte_of 1 val);
     rc3 \<leftarrow> sio_writeb io 0xf7 (byte_of 0 val);
     ret (rc0 OR rc1 OR rc2 OR rc3) }"

fun status_of :: "int + 'a \<Rightarrow> int" where
  "status_of (Inl rc) = rc"
| "status_of (Inr _) = 0"

definition extract_be :: "u8 \<Rightarrow> u8 \<Rightarrow> u8 \<Rightarrow> u8 \<Rightarrow> u32" where
  "extract_be a b c d =
     push_bit 8 (push_bit 8 (push_bit 8 (push_bit 8 0 OR ucast a) OR ucast b) OR ucast c) OR ucast d"

definition ilpcb_get_data :: "'h lpc_ops \<Rightarrow> ('h sio, int + u32) state" where
  "ilpcb_get_data io = do {
     r4 \<leftarrow> sio_readb io 0xf4;
     r5 \<leftarrow> sio_readb io 0xf5;
     r6 \<leftarrow> sio_readb io 0xf6;
     r7 \<leftarrow> sio_readb io 0xf7;
     (case (r4, r5, r6, r7) of
        (Inr a, Inr b, Inr c, Inr d) \<Rightarrow> ret (Inr (extract_be a b c d))
      | _ \<Rightarrow> ret (Inl (status_of r4 OR status_of r5 OR status_of r6 OR status_of r7))) }"

text \<open>Every access ends by locking the SuperIO again, and reports the status of its body.\<close>

definition then_lock :: "'h lpc_ops \<Rightarrow> ('h sio, 'a) state \<Rightarrow> ('h sio, 'a) state" where
  "then_lock io m = do { r \<leftarrow> m; _ \<leftarrow> sio_lock io; ret r }"

definition ilpcb_readl :: "'h lpc_ops \<Rightarrow> u32 \<Rightarrow> ('h sio, int + u32) state" where
  "ilpcb_readl io addr = then_lock io
    (nzr_then (ilpcb_setup io 2)
    (nzr_then (ilpcb_set_addr io addr)
    (valr_then (sio_readb io 0xfe) (\<lambda>_.
       ilpcb_get_data io))))"

definition ilpcb_writel :: "'h lpc_ops \<Rightarrow> u32 \<Rightarrow> u32 \<Rightarrow> ('h sio, int) state" where
  "ilpcb_writel io addr val = then_lock io
    (nz_then (ilpcb_setup io 2)
    (nz_then (ilpcb_set_addr io addr)
    (nz_then (ilpcb_set_data io val)
             (sio_writeb io 0xfe 0xcf))))"

fun ilpcb_read_loop :: "'h lpc_ops \<Rightarrow> u32 \<Rightarrow> nat \<Rightarrow> ('h sio, int + u8 list) state" where
  "ilpcb_read_loop io addr 0 = ret (Inr [])"
| "ilpcb_read_loop io addr (Suc remaining) =
     nzr_then (ilpcb_set_addr io addr)
    (valr_then (sio_readb io 0xfe) (\<lambda>_.
     valr_then (sio_readb io 0xf7) (\<lambda>data.
     valr_then (ilpcb_read_loop io (addr + 1) remaining) (\<lambda>rest.
       ret (Inr (data # rest))))))"

definition ilpcb_read :: "'h lpc_ops \<Rightarrow> u32 \<Rightarrow> nat \<Rightarrow> ('h sio, int + u8 list) state" where
  "ilpcb_read io addr len =
     (if len > SSIZE_MAX then ret (Inl (-1))
      else do {
        r \<leftarrow> then_lock io (nzr_then (ilpcb_setup io 0) (ilpcb_read_loop io addr len));
        (case r of Inl _ \<Rightarrow> ret (Inl (-1)) | Inr buf \<Rightarrow> ret (Inr buf)) })"

text \<open>The loop of \<open>ilpcb_write\<close> advances the buffer and not the address.\<close>

fun ilpcb_write_loop :: "'h lpc_ops \<Rightarrow> u32 \<Rightarrow> u8 list \<Rightarrow> ('h sio, int) state" where
  "ilpcb_write_loop io addr [] = ret 0"
| "ilpcb_write_loop io addr (b # buf) =
     nz_then (ilpcb_set_addr io addr)
    (nz_then (sio_writeb io 0xf7 b)
    (nz_then (sio_writeb io 0xfe 0xcf)
             (ilpcb_write_loop io addr buf)))"

definition ilpcb_write :: "'h lpc_ops \<Rightarrow> u32 \<Rightarrow> u8 list \<Rightarrow> ('h sio, int) state" where
  "ilpcb_write io addr buf =
     (if length buf > SSIZE_MAX then ret (-1)
      else do {
        rc \<leftarrow> then_lock io (nz_then (ilpcb_setup io 0) (ilpcb_write_loop io addr buf));
        ret (if rc \<noteq> 0 then -1 else int (length buf)) })"

definition ilpcb_ops :: "'h lpc_ops \<Rightarrow> 'h sio ahb_ops" where
  "ilpcb_ops io = \<lparr>
     ops_read = ilpcb_read io, ops_write = ilpcb_write io,
     ops_readl = ilpcb_readl io, ops_writel = ilpcb_writel io \<rparr>"

definition LPC_HICRB_ILPCB_RO :: u32 where "LPC_HICRB_ILPCB_RO = push_bit 6 1"

definition ilpcb_mode :: "'h lpc_ops \<Rightarrow> ('h sio, int) state" where
  "ilpcb_mode io = val_then (ilpcb_readl io 0x1e789100) (\<lambda>hicrb.
     ret (if hicrb AND LPC_HICRB_ILPCB_RO \<noteq> 0 then 1 else 0))"

definition ilpcb_probe :: "'h lpc_ops \<Rightarrow> 'h sio ahb \<Rightarrow> ('h sio, int) state" where
  "ilpcb_probe io ahb = do {
     found \<leftarrow> sio_probe io;
     (if \<not> found then ret 0
      else do { rc \<leftarrow> rev_probe ahb; ret (if rc < 0 then rc else 1) }) }"

definition ilpcb_init :: "'h lpc_ops \<Rightarrow> ('h sio, int) state" where
  "ilpcb_init io = sio_init io"

definition ilpcb_destroy :: "'h lpc_ops \<Rightarrow> ('h sio, int) state" where
  "ilpcb_destroy io = sio_destroy io"

text \<open>\<open>ilpcb_driver_probe\<close>: \<open>True\<close> for a bridge handle, \<open>False\<close> for \<open>NULL\<close>.\<close>

definition ilpcb_driver_probe :: "'h lpc_ops \<Rightarrow> 'h sio ahb \<Rightarrow> ('h sio, bool) state" where
  "ilpcb_driver_probe io ahb = do {
     rc \<leftarrow> ilpcb_init io;
     (if rc < 0 then ret False
      else do {
        rc \<leftarrow> ilpcb_probe io ahb;
        (if rc < 0 then do { _ \<leftarrow> ilpcb_destroy io; ret False } else ret True) }) }"

section \<open>Accesses over the device\<close>

lemma extract_be_le_word: "extract_be a b c d = le_word d c b a"
  by (rule bit_word_eqI)
    (auto simp: extract_be_def le_word_def bit_simps dest: bit_u8_bound)

context superio_ports
begin

text \<open>The device while an access is under way: unlocked, on the iLPC device, enabled.\<close>

definition armed :: "u8 \<Rightarrow> 't superio \<Rightarrow> bool" where
  "armed w d \<longleftrightarrow> \<not> si_key d < 2 \<and> si_dev d = sio_ilpc \<and> si_on d \<and> si_width d = w"

lemma setup_armed:
  assumes "sio_base s = strap"
  shows "fst (run_state (ilpcb_setup io w) s) = 0"
    and "sio_base (snd (run_state (ilpcb_setup io w) s)) = strap"
    and "armed w (dev (snd (run_state (ilpcb_setup io w) s)))"
    and "si_bus (dev (snd (run_state (ilpcb_setup io w) s))) = si_bus (dev s)"
  using assms by (simp_all add: ilpcb_setup_def superio_store_def armed_def)

lemma set_addr:
  assumes "sio_base s = strap" "armed w (dev s)"
  shows "fst (run_state (ilpcb_set_addr io a) s) = 0"
    and "sio_base (snd (run_state (ilpcb_set_addr io a) s)) = strap"
    and "armed w (dev (snd (run_state (ilpcb_set_addr io a) s)))"
    and "si_bus (dev (snd (run_state (ilpcb_set_addr io a) s))) = si_bus (dev s)"
    and "ilpc_addr (dev (snd (run_state (ilpcb_set_addr io a) s))) = a"
  using assms by (simp_all add: ilpcb_set_addr_def superio_store_def armed_def ilpc_addr_def)

lemma set_data:
  assumes "sio_base s = strap" "armed w (dev s)"
  shows "fst (run_state (ilpcb_set_data io a) s) = 0"
    and "sio_base (snd (run_state (ilpcb_set_data io a) s)) = strap"
    and "armed w (dev (snd (run_state (ilpcb_set_data io a) s)))"
    and "si_bus (dev (snd (run_state (ilpcb_set_data io a) s))) = si_bus (dev s)"
    and "ilpc_addr (dev (snd (run_state (ilpcb_set_data io a) s))) = ilpc_addr (dev s)"
    and "ilpc_data (dev (snd (run_state (ilpcb_set_data io a) s))) = a"
  using assms by (simp_all add: ilpcb_set_data_def superio_store_def armed_def ilpc_data_def ilpc_addr_def)

lemma base_then_lock [simp]:
  "sio_base (snd (run_state (then_lock io m) s)) = sio_base (snd (run_state m s))"
  "fst (run_state (then_lock io m) s) = fst (run_state m s)"
  by (simp_all add: then_lock_def)

lemma bus_then_lock [simp]:
  "sio_base (snd (run_state m s)) = strap \<Longrightarrow>
     si_bus (dev (snd (run_state (then_lock io m) s))) = si_bus (dev (snd (run_state m s)))"
  by (simp add: then_lock_def)

lemma get_data:
  assumes "sio_base s = strap" "armed w (dev s)"
  shows "fst (run_state (ilpcb_get_data io) s) = Inr (ilpc_data (dev s))"
    and "sio_base (snd (run_state (ilpcb_get_data io) s)) = strap"
    and "si_bus (dev (snd (run_state (ilpcb_get_data io) s))) = si_bus (dev s)"
  using assms
  by (simp_all add: ilpcb_get_data_def superio_load_def armed_def extract_be_le_word ilpc_data_def)

text \<open>The triggers.\<close>

lemma trigger_load:
  assumes "sio_base s = strap" "armed w (dev s)" "\<not> si_key (dev s) < 2"
  shows "fst (run_state (sio_readb io 0xfe) s) = Inr 0"
    and "dev (snd (run_state (sio_readb io 0xfe) s)) = ilpc_load tgt ((dev s)\<lparr>si_index := 0xfe\<rparr>)"
  using assms by (simp_all add: superio_load_def armed_def)

lemma armed_load: "armed w d \<Longrightarrow> armed w (ilpc_load tgt (d\<lparr>si_index := i\<rparr>))"
  by (simp add: armed_def ilpc_load_def split_def Let_def)

lemma armed_store: "armed w d \<Longrightarrow> armed w (ilpc_store tgt (d\<lparr>si_index := i\<rparr>))"
  by (simp add: armed_def ilpc_store_def)

lemma trigger_store:
  assumes "sio_base s = strap" "armed w (dev s)"
  shows "fst (run_state (sio_writeb io 0xfe 0xcf) s) = 0"
    and "dev (snd (run_state (sio_writeb io 0xfe 0xcf) s)) = ilpc_store tgt ((dev s)\<lparr>si_index := 0xfe\<rparr>)"
  using assms by (simp_all add: superio_store_def armed_def)

lemma ilpc_index [simp]:
  "ilpc_addr (d\<lparr>si_index := i\<rparr>) = ilpc_addr d" "ilpc_data (d\<lparr>si_index := i\<rparr>) = ilpc_data d"
  by (simp_all add: ilpc_addr_def ilpc_data_def)

lemma ilpc_load_word:
  assumes "armed 2 d"
  shows "ilpc_data (ilpc_load tgt d) = fst (run_state (tgt_ld32 tgt (ilpc_addr d)) (si_bus d))"
    and "si_bus (ilpc_load tgt d) = snd (run_state (tgt_ld32 tgt (ilpc_addr d)) (si_bus d))"
  using assms by (simp_all add: armed_def ilpc_load_def ilpc_data_def split_def Let_def)

lemma armed_unlocked: "armed w d \<Longrightarrow> \<not> si_key d < 2"
  by (simp add: armed_def)

lemma readl:
  assumes "sio_base s = strap"
  shows "fst (run_state (ilpcb_readl io a) s) =
      Inr (fst (run_state (tgt_ld32 tgt a) (si_bus (dev s))))"
    and "si_bus (dev (snd (run_state (ilpcb_readl io a) s))) =
      snd (run_state (tgt_ld32 tgt a) (si_bus (dev s)))"
    and "sio_base (snd (run_state (ilpcb_readl io a) s)) = strap"
proof -
  define s1 where "s1 = snd (run_state (ilpcb_setup io 2) s)"
  define s2 where "s2 = snd (run_state (ilpcb_set_addr io a) s1)"
  define s3 where "s3 = snd (run_state (sio_readb io 0xfe) s2)"
  note s1 = setup_armed [OF assms, of 2, folded s1_def]
  note s2 = set_addr [OF s1(2,3), of a, folded s2_def]
  note s3 = trigger_load [OF s2(2,3) armed_unlocked [OF s2(3)], folded s3_def]
  have b3: "sio_base s3 = strap" by (simp add: s3_def s2(2))
  have a3: "armed 2 (dev s3)" by (simp add: s3(2) armed_load s2(3))
  have "armed 2 ((dev s2)\<lparr>si_index := 0xfe\<rparr>)" using s2(3) by (simp add: armed_def)
  note ld = ilpc_load_word [OF this]
  note g = get_data [OF b3 a3]
  have "run_state (ilpcb_readl io a) s = run_state (then_lock io (ilpcb_get_data io)) s3"
    by (simp add: ilpcb_readl_def then_lock_def s1(1) s2(1) s3(1) s1_def [symmetric]
        s2_def [symmetric] s3_def [symmetric])
  then show "fst (run_state (ilpcb_readl io a) s) =
      Inr (fst (run_state (tgt_ld32 tgt a) (si_bus (dev s))))"
    "si_bus (dev (snd (run_state (ilpcb_readl io a) s))) =
      snd (run_state (tgt_ld32 tgt a) (si_bus (dev s)))"
    "sio_base (snd (run_state (ilpcb_readl io a) s)) = strap"
    using g ld s1 s2 s3 by simp_all
qed

lemma writel:
  assumes "sio_base s = strap"
  shows "fst (run_state (ilpcb_writel io a v) s) = 0"
    and "si_bus (dev (snd (run_state (ilpcb_writel io a v) s))) =
      snd (run_state (tgt_st32 tgt a v) (si_bus (dev s)))"
    and "sio_base (snd (run_state (ilpcb_writel io a v) s)) = strap"
proof -
  define s1 where "s1 = snd (run_state (ilpcb_setup io 2) s)"
  define s2 where "s2 = snd (run_state (ilpcb_set_addr io a) s1)"
  define s3 where "s3 = snd (run_state (ilpcb_set_data io v) s2)"
  note s1 = setup_armed [OF assms, of 2, folded s1_def]
  note s2 = set_addr [OF s1(2,3), of a, folded s2_def]
  note s3 = set_data [OF s2(2,3), of v, folded s3_def]
  note t = trigger_store [OF s3(2,3)]
  have "run_state (ilpcb_writel io a v) s = run_state (then_lock io (sio_writeb io 0xfe 0xcf)) s3"
    by (simp add: ilpcb_writel_def then_lock_def s1(1) s2(1) s3(1) s1_def [symmetric]
        s2_def [symmetric] s3_def [symmetric] del: writeb)
  then show "fst (run_state (ilpcb_writel io a v) s) = 0"
    "si_bus (dev (snd (run_state (ilpcb_writel io a v) s))) =
      snd (run_state (tgt_st32 tgt a v) (si_bus (dev s)))"
    "sio_base (snd (run_state (ilpcb_writel io a v) s)) = strap"
    using t s1 s2 s3 by (simp_all add: ilpc_store_def armed_def del: writeb)
qed

lemma bridge: "ahb_bridge (ilpcb_ops io) (\<lambda>s. sio_base s = strap) tgt (\<lambda>s. si_bus (dev s))"
  by unfold_locales (simp_all add: ilpcb_ops_def readl writel)

end

text \<open>Bulk accesses, over a bus that is memory.\<close>

locale superio_ram = superio_ports io ram_target strap view
  for io :: "'h lpc_ops" and strap and view :: "'h \<Rightarrow> (u32 \<Rightarrow> u8) superio"
begin

lemma read_loop:
  assumes "sio_base s = strap" "armed 0 (dev s)"
  shows "fst (run_state (ilpcb_read_loop io a n) s) = Inr (mem_range (si_bus (dev s)) a n) \<and>
    sio_base (snd (run_state (ilpcb_read_loop io a n) s)) = strap \<and>
    si_bus (dev (snd (run_state (ilpcb_read_loop io a n) s))) = si_bus (dev s)"
  using assms
proof (induction n arbitrary: a s)
  case 0
  then show ?case by (simp add: mem_range_def)
next
  case (Suc n)
  define s2 where "s2 = snd (run_state (ilpcb_set_addr io a) s)"
  define s3 where "s3 = snd (run_state (sio_readb io 0xfe) s2)"
  define s4 where "s4 = snd (run_state (sio_readb io 0xf7) s3)"
  note s2 = set_addr [OF Suc.prems, of a, folded s2_def]
  note s3 = trigger_load [OF s2(2,3) armed_unlocked [OF s2(3)], folded s3_def]
  have b3: "sio_base s3 = strap" by (simp add: s3_def s2(2))
  have a3: "armed 0 (dev s3)" by (simp add: s3(2) armed_load s2(3))
  have ld: "si_data (dev s3) 0xf7 = si_bus (dev s) a" "si_bus (dev s3) = si_bus (dev s)"
    using s2(3,4,5) by (simp_all add: s3(2) ilpc_load_def armed_def)
  have rd: "fst (run_state (sio_readb io 0xf7) s3) = Inr (si_bus (dev s) a)"
    and s4: "sio_base s4 = strap" "armed 0 (dev s4)" "si_bus (dev s4) = si_bus (dev s)"
    using b3 a3 ld by (simp_all add: s4_def superio_load_def armed_def)
  have "mem_range m a (Suc n) = m a # mem_range m (a + 1) n" for m :: "u32 \<Rightarrow> u8"
    using mem_range_append [of m a 1 n] by (simp add: mem_range_def)
  with Suc.IH [OF s4(1,2), of "a + 1"] show ?case
    by (simp add: s2(1) s3(1) rd s4(3) s2_def [symmetric] s3_def [symmetric] s4_def [symmetric]
        del: readb)
qed

lemma write_loop:
  assumes "sio_base s = strap" "armed 0 (dev s)"
  shows "fst (run_state (ilpcb_write_loop io a buf) s) = 0 \<and>
    sio_base (snd (run_state (ilpcb_write_loop io a buf) s)) = strap \<and>
    si_bus (dev (snd (run_state (ilpcb_write_loop io a buf) s))) =
      (if buf = [] then si_bus (dev s) else (si_bus (dev s))(a := last buf))"
  using assms
proof (induction buf arbitrary: s)
  case Nil
  then show ?case by simp
next
  case (Cons b buf)
  define s2 where "s2 = snd (run_state (ilpcb_set_addr io a) s)"
  define s3 where "s3 = snd (run_state (sio_writeb io 0xf7 b) s2)"
  define s4 where "s4 = snd (run_state (sio_writeb io 0xfe 0xcf) s3)"
  note s2 = set_addr [OF Cons.prems, of a, folded s2_def]
  have s3: "sio_base s3 = strap" "armed 0 (dev s3)" "si_bus (dev s3) = si_bus (dev s)"
    "si_data (dev s3) 0xf7 = b" "ilpc_addr (dev s3) = a"
    using s2 by (simp_all add: s3_def superio_store_def armed_def ilpc_addr_def)
  note t = trigger_store [OF s3(1,2), folded s4_def]
  have s4: "sio_base s4 = strap" "armed 0 (dev s4)" "si_bus (dev s4) = (si_bus (dev s))(a := b)"
    using s3 t by (simp_all add: s4_def armed_store ilpc_store_def armed_def del: writeb)
  from Cons.IH [OF s4(1,2)] show ?case
    by (auto simp: s2(1) s4(3) s2_def [symmetric] s3_def [symmetric] s4_def [symmetric] fun_eq_iff
        simp del: writeb)
qed

lemma read_write:
  assumes "sio_base s = strap" "n \<le> SSIZE_MAX" "length buf \<le> SSIZE_MAX"
  shows "fst (run_state (ilpcb_read io a n) s) = Inr (mem_range (si_bus (dev s)) a n)"
    and "si_bus (dev (snd (run_state (ilpcb_read io a n) s))) = si_bus (dev s)"
    and "fst (run_state (ilpcb_write io a buf) s) = int (length buf)"
    and "si_bus (dev (snd (run_state (ilpcb_write io a buf) s))) =
      (if buf = [] then si_bus (dev s) else (si_bus (dev s))(a := last buf))"
  using assms setup_armed [OF assms(1), of 0]
    read_loop [of "snd (run_state (ilpcb_setup io 0) s)" a n]
    write_loop [of "snd (run_state (ilpcb_setup io 0) s)" a buf]
  by (simp_all add: ilpcb_read_def ilpcb_write_def then_lock_def)

end

section \<open>The bridge over the documented device\<close>

definition superio_lpc :: "'t target \<Rightarrow> nat \<Rightarrow> 't superio lpc_ops" where
  "superio_lpc tgt strap = \<lparr>
     lpc_init = (\<lambda>space. ret 0), lpc_destroy = ret 0,
     lpc_readb = (\<lambda>port. State (\<lambda>d. (Inr (fst (port_read tgt strap port d)), snd (port_read tgt strap port d)))),
     lpc_writeb = (\<lambda>port v. State (\<lambda>d. (0, port_write tgt strap port v d))),
     lpc_read = (\<lambda>addr n. ret (Inl (- ENOTSUP))), lpc_write = (\<lambda>addr bs. ret (- ENOTSUP)) \<rparr>"

interpretation ilpc: superio_ports "superio_lpc tgt strap" tgt strap "\<lambda>d. d"
  by unfold_locales (simp_all add: superio_lpc_def)

interpretation ilpc_mem: superio_ram "superio_lpc ram_target strap" strap "\<lambda>d. d"
  ..

interpretation ilpc_bridge: ahb_bridge "ilpcb_ops (superio_lpc tgt strap)" "\<lambda>s. sio_base s = strap"
    tgt "\<lambda>s. si_bus (sio_io s)"
  by (rule ilpc.bridge)

definition superio_reset :: "'t \<Rightarrow> 't superio" where
  "superio_reset t = \<lparr>si_key = 0, si_index = 0, si_dev = 0, si_on = False, si_width = 0,
     si_addr = (\<lambda>_. 0), si_data = (\<lambda>_. 0), si_bus = t\<rparr>"

section \<open>Properties\<close>

text \<open>
  The SuperIO probe: on hardware strapped to one of the two documented ports,
  \<open>sio_probe\<close> finds the device whatever state it was left in, leaves the handle at that
  port and the device locked; on hardware strapped elsewhere it reports that there is none.
\<close>

theorem sio_probe_finds:
  assumes "superio_ports io tgt strap view"
    and "r = run_state (sio_probe io) s"
  shows "(strap \<in> {0x2e, 0x4e} \<longrightarrow> fst r \<and> sio_base (snd r) = strap) \<and>
    (strap \<notin> {0x2d, 0x2e, 0x2f, 0x4d, 0x4e, 0x4f} \<longrightarrow> \<not> fst r)"
  using superio_ports.probe [OF assms(1), of s] assms(2) by blast

theorem sio_probe_finds_witness:
  "fst (run_state (sio_probe (superio_lpc ram_target 0x4e))
      \<lparr>sio_io = superio_reset (\<lambda>_. 0), sio_base = 0\<rparr>) \<and>
   \<not> fst (run_state (sio_probe (superio_lpc ram_target 0x100))
      \<lparr>sio_io = superio_reset (\<lambda>_. 0), sio_base = 0\<rparr>)"
  using sio_probe_finds [OF ilpc.superio_ports_axioms [of ram_target "0x4e"] refl]
    sio_probe_finds [OF ilpc.superio_ports_axioms [of ram_target "0x100"] refl]
  by simp

text \<open>
  A word access of the iLPC bridge is one access of the bus: from any state of the
  SuperIO, \<open>ilpcb_readl\<close> gives what a 32-bit load of the bus address gives, \<open>ilpcb_writel\<close>
  stores exactly that word there, and both keep the port of the handle.
\<close>

theorem ilpcb_word_access:
  assumes "superio_ports io tgt strap view" "sio_base s = strap"
  shows "fst (run_state (ilpcb_readl io addr) s) =
      Inr (fst (run_state (tgt_ld32 tgt addr) (si_bus (view (sio_io s))))) \<and>
    fst (run_state (ilpcb_writel io addr val) s) = 0 \<and>
    si_bus (view (sio_io (snd (run_state (ilpcb_writel io addr val) s)))) =
      snd (run_state (tgt_st32 tgt addr val) (si_bus (view (sio_io s)))) \<and>
    sio_base (snd (run_state (ilpcb_readl io addr) s)) = strap \<and>
    sio_base (snd (run_state (ilpcb_writel io addr val) s)) = strap"
  using superio_ports.readl [OF assms] superio_ports.writel [OF assms] by simp

theorem ilpcb_word_access_witness:
  "fst (run_state (ilpcb_readl (superio_lpc (regfile plain_eff) 0x2e) 0x1e6e2004)
     \<lparr>sio_io = superio_reset (\<lambda>a. a + 1), sio_base = 0x2e\<rparr>) = Inr 0x1e6e2005"
  using ilpcb_word_access [OF ilpc.superio_ports_axioms,
      where s = "\<lparr>sio_io = superio_reset (\<lambda>a. a + 1), sio_base = 0x2e\<rparr>" and strap = "0x2e"
        and tgt = "regfile plain_eff" and addr = "0x1e6e2004"]
  by (simp add: superio_reset_def)

text \<open>
  Byte accesses of the iLPC bridge: \<open>ilpcb_read\<close> gives the bytes of memory and
  changes none; \<open>ilpcb_write\<close> reports the whole length, but its loop never advances the
  address, so of a buffer only the last byte is left, at the start address, and every
  other address keeps its content.
\<close>

theorem ilpcb_byte_access:
  assumes "superio_ram io strap view" "sio_base s = strap"
    and "n \<le> SSIZE_MAX" "length buf \<le> SSIZE_MAX" "buf \<noteq> []"
  shows "fst (run_state (ilpcb_read io addr n) s) =
      Inr (mem_range (si_bus (view (sio_io s))) addr n) \<and>
    si_bus (view (sio_io (snd (run_state (ilpcb_read io addr n) s)))) = si_bus (view (sio_io s)) \<and>
    fst (run_state (ilpcb_write io addr buf) s) = int (length buf) \<and>
    si_bus (view (sio_io (snd (run_state (ilpcb_write io addr buf) s)))) =
      (si_bus (view (sio_io s)))(addr := last buf)"
  using superio_ram.read_write [OF assms(1-4), of addr] assms(5) by simp

theorem ilpcb_byte_access_witness:
  "si_bus (sio_io (snd (run_state (ilpcb_write (superio_lpc ram_target 0x2e) 0x100 [1, 2, 3])
     \<lparr>sio_io = superio_reset (\<lambda>_. 0), sio_base = 0x2e\<rparr>))) = (\<lambda>_. 0)(0x100 := 3)"
  using ilpcb_byte_access [OF ilpc_mem.superio_ram_axioms,
      where s = "\<lparr>sio_io = superio_reset (\<lambda>_. 0), sio_base = 0x2e\<rparr>" and strap = "0x2e"
        and addr = "0x100" and n = 0 and buf = "[1, 2, 3]"]
  by (simp add: superio_reset_def SSIZE_MAX_def)

end
