(* ===== verification/L2a.thy ===== *)
theory L2a
  imports Ilpc
begin

text \<open>
  The LPC2AHB bridge, \<^verbatim>\<open>src/bridge/l2a.c\<close>: a window of the LPC firmware space mapped onto
  the AHB by HICR7 and HICR8, which are programmed through the embedded iLPC bridge. Word
  accesses go through the iLPC bridge. \<open>fw\<close> is the firmware space's set of port operations.
\<close>

record 'h l2ab =
  l2_sio :: "'h sio"
  l2_phys :: u32
  l2_len :: nat
  l2_restore7 :: u32
  l2_restore8 :: u32

definition l2_ilpc :: "('h sio, 'a) state \<Rightarrow> ('h l2ab, 'a) state" where
  "l2_ilpc m = zoom l2_sio (\<lambda>h s. s\<lparr>l2_sio := h\<rparr>) m"

lemma run_l2_ilpc [simp]:
  "run_state (l2_ilpc m) s =
     (fst (run_state m (l2_sio s)), s\<lparr>l2_sio := snd (run_state m (l2_sio s))\<rparr>)"
  by (simp add: l2_ilpc_def)

definition LPC_HICR7 :: u32 where "LPC_HICR7 = 0x1e789088"
definition LPC_HICR8 :: u32 where "LPC_HICR8 = 0x1e78908c"
definition L2AB_WINDOW_SIZE :: nat where "L2AB_WINDOW_SIZE = 2 ^ 27"

section \<open>The window\<close>

text \<open>
  \<open>__builtin_popcount\<close> and \<open>31 - __builtin_clz\<close> of a positive length: the number of ones
  and the position of the highest one.
\<close>

fun popcount :: "nat \<Rightarrow> nat" where
  "popcount n = (if n = 0 then 0 else n mod 2 + popcount (n div 2))"

fun top_bit :: "nat \<Rightarrow> nat" where
  "top_bit n = (if n < 2 then 0 else Suc (top_bit (n div 2)))"

declare popcount.simps [simp del] top_bit.simps [simp del]

definition l2ab_expand :: "u32 \<Rightarrow> nat \<Rightarrow> nat" where
  "l2ab_expand phys len =
     (let aligned = unat (phys AND NOT 0xffff)
      in if len < unat phys + len - aligned then unat phys + len - aligned else len)"

definition l2ab_window_len :: "u32 \<Rightarrow> nat \<Rightarrow> nat" where
  "l2ab_window_len phys len =
     (let len1 = l2ab_expand phys len;
          len2 = (if len1 < 2 ^ 16 then 2 ^ 16 else len1)
      in if popcount len2 \<noteq> 1 then 2 ^ top_bit len2 else len2)"

definition l2ab_map :: "'h lpc_ops \<Rightarrow> u32 \<Rightarrow> nat \<Rightarrow> ('h l2ab, int) state" where
  "l2ab_map io phys len = do {
     ctx \<leftarrow> State_Monad.get;
     (if phys \<ge> l2_phys ctx \<and> unat phys + len \<le> unat (l2_phys ctx) + l2_len ctx
      then ret (int (unat phys - unat (l2_phys ctx)))
      else if len > L2AB_WINDOW_SIZE then ret (- EINVAL)
      else
        let wlen = l2ab_window_len phys len;
            hicr7 = phys AND NOT 0xffff;
            hicr8 = NOT (of_nat (wlen - 1)) OR of_nat ((wlen - 1) div 2 ^ 16)
        in nz_then (l2_ilpc (ilpcb_writel io LPC_HICR7 hicr7))
          (nz_then (l2_ilpc (ilpcb_writel io LPC_HICR8 hicr8))
          (do { _ \<leftarrow> modify (\<lambda>s. s\<lparr>l2_phys := hicr7, l2_len := wlen\<rparr>);
                ret (uint (phys AND 0xffff)) }))) }"

section \<open>Bulk and word accesses\<close>

text \<open>
  A transfer through the firmware space may be short, even empty, so the loops need not
  end: \<open>None\<close> is not returning.
\<close>

definition l2_fw :: "('h, 'a) state \<Rightarrow> ('h l2ab, 'a) state" where
  "l2_fw m = l2_ilpc (sio_port m)"

partial_function (option) l2ab_read_loop ::
  "'h lpc_ops \<Rightarrow> 'h lpc_ops \<Rightarrow> u32 \<Rightarrow> nat \<Rightarrow> 'h l2ab \<Rightarrow> ((int + u8 list) \<times> 'h l2ab) option" where
  "l2ab_read_loop io fw phys remaining s =
     (let ingress = (if remaining > L2AB_WINDOW_SIZE then L2AB_WINDOW_SIZE else remaining);
          (offset, s1) = run_state (l2ab_map io phys ingress) s
      in if offset < 0 then Some (Inl (-1), s1)
         else let (r, s2) = run_state (l2_fw (lpc_read fw (nat offset) ingress)) s1
              in case r of
                   Inl _ \<Rightarrow> Some (Inl (-1), s2)
                 | Inr bs \<Rightarrow>
                     if remaining - length bs \<noteq> 0
                     then Option.bind
                            (l2ab_read_loop io fw (phys + of_nat (length bs)) (remaining - length bs) s2)
                            (\<lambda>(r, s3). Some (map_sum id (\<lambda>rest. bs @ rest) r, s3))
                     else Some (Inr bs, s2))"

definition l2ab_read ::
  "'h lpc_ops \<Rightarrow> 'h lpc_ops \<Rightarrow> u32 \<Rightarrow> nat \<Rightarrow> 'h l2ab \<Rightarrow> ((int + u8 list) \<times> 'h l2ab) option" where
  "l2ab_read io fw phys len s =
     (if len > SSIZE_MAX then Some (Inl (-1), s) else l2ab_read_loop io fw phys len s)"

partial_function (option) l2ab_write_loop ::
  "'h lpc_ops \<Rightarrow> 'h lpc_ops \<Rightarrow> u32 \<Rightarrow> u8 list \<Rightarrow> 'h l2ab \<Rightarrow> (int \<times> 'h l2ab) option" where
  "l2ab_write_loop io fw phys buf s =
     (let egress = (if length buf > L2AB_WINDOW_SIZE then L2AB_WINDOW_SIZE else length buf);
          (offset, s1) = run_state (l2ab_map io phys egress) s
      in if offset < 0 then Some (-1, s1)
         else let (n, s2) = run_state (l2_fw (lpc_write fw (nat offset) (take egress buf))) s1
              in if n < 0 then Some (-1, s2)
                 else if drop (nat n) buf \<noteq> []
                 then l2ab_write_loop io fw (phys + of_nat (nat n)) (drop (nat n) buf) s2
                 else Some (0, s2))"

definition l2ab_write ::
  "'h lpc_ops \<Rightarrow> 'h lpc_ops \<Rightarrow> u32 \<Rightarrow> u8 list \<Rightarrow> 'h l2ab \<Rightarrow> (int \<times> 'h l2ab) option" where
  "l2ab_write io fw phys buf s =
     (if length buf > SSIZE_MAX then Some (-1, s)
      else map_option (\<lambda>(rc, s'). (if rc < 0 then rc else int (length buf), s'))
             (l2ab_write_loop io fw phys buf s))"

definition l2ab_readl :: "'h lpc_ops \<Rightarrow> u32 \<Rightarrow> ('h l2ab, int + u32) state" where
  "l2ab_readl io phys = l2_ilpc (ilpcb_readl io phys)"

definition l2ab_writel :: "'h lpc_ops \<Rightarrow> u32 \<Rightarrow> u32 \<Rightarrow> ('h l2ab, int) state" where
  "l2ab_writel io phys val = l2_ilpc (ilpcb_writel io phys val)"

section \<open>Saving and restoring the window registers\<close>

definition l2ab_save_hicr78 :: "'h lpc_ops \<Rightarrow> ('h l2ab, int) state" where
  "l2ab_save_hicr78 io =
     val_then (l2_ilpc (ilpcb_readl io LPC_HICR7)) (\<lambda>v7. do {
       _ \<leftarrow> modify (\<lambda>s. s\<lparr>l2_restore7 := v7\<rparr>);
     val_then (l2_ilpc (ilpcb_readl io LPC_HICR8)) (\<lambda>v8. do {
       _ \<leftarrow> modify (\<lambda>s. s\<lparr>l2_restore8 := v8\<rparr>);
       ret 0 }) })"

definition l2ab_restore_hicr78 :: "'h lpc_ops \<Rightarrow> ('h l2ab, int) state" where
  "l2ab_restore_hicr78 io = do {
     ctx \<leftarrow> State_Monad.get;
     nz_then (l2_ilpc (ilpcb_writel io LPC_HICR8 (l2_restore8 ctx)))
             (l2_ilpc (ilpcb_writel io LPC_HICR7 (l2_restore7 ctx))) }"

text \<open>
  \<open>l2ab_init\<close> takes any non-zero status of the iLPC probe, the success status 1 included,
  as a failure.
\<close>

definition l2ab_cleanup :: "'h lpc_ops \<Rightarrow> 'h lpc_ops \<Rightarrow> int \<Rightarrow> ('h l2ab, int) state" where
  "l2ab_cleanup io fw rc = do {
     _ \<leftarrow> l2_ilpc (ilpcb_destroy io); _ \<leftarrow> l2_fw (lpc_destroy fw); ret rc }"

definition l2ab_init :: "'h lpc_ops \<Rightarrow> 'h lpc_ops \<Rightarrow> 'h sio ahb \<Rightarrow> ('h l2ab, int) state" where
  "l2ab_init io fw ilpcb =
     nz_then (l2_fw (lpc_init fw ''fw''))
    (nz_then (l2_ilpc (ilpcb_init io))
    (do {
       rc \<leftarrow> l2_ilpc (ilpcb_probe io ilpcb);
       (if rc \<noteq> 0 then l2ab_cleanup io fw rc
        else do {
          rc \<leftarrow> l2ab_save_hicr78 io;
          (if rc \<noteq> 0 then l2ab_cleanup io fw rc else ret 0) }) }))"

definition l2ab_destroy :: "'h lpc_ops \<Rightarrow> 'h lpc_ops \<Rightarrow> ('h l2ab, int) state" where
  "l2ab_destroy io fw =
     nz_then (l2ab_restore_hicr78 io)
    (nz_then (l2_ilpc (ilpcb_destroy io))
             (l2_fw (lpc_destroy fw)))"

text \<open>\<open>l2ab_driver_probe\<close>: \<open>True\<close> for a bridge handle, \<open>False\<close> for \<open>NULL\<close>.\<close>

definition l2ab_driver_probe ::
  "'h lpc_ops \<Rightarrow> 'h lpc_ops \<Rightarrow> 'h sio ahb \<Rightarrow> ('h l2ab, bool) state" where
  "l2ab_driver_probe io fw ilpcb = do {
     rc \<leftarrow> l2ab_init io fw ilpcb; ret (\<not> rc < 0) }"

section \<open>The size of the window\<close>

lemma top_bit_bounds: "0 < n \<Longrightarrow> 2 ^ top_bit n \<le> n \<and> n < 2 * 2 ^ top_bit n"
proof (induction n rule: top_bit.induct)
  case (1 n)
  show ?case
  proof (cases "n < 2")
    case True
    with 1 show ?thesis by (simp add: top_bit.simps [of n])
  next
    case False
    then have "2 ^ top_bit (n div 2) \<le> n div 2" "n div 2 < 2 * 2 ^ top_bit (n div 2)"
      using 1 by auto
    moreover have "2 * (n div 2) \<le> n" "n < 2 * (n div 2) + 2" by simp_all
    ultimately show ?thesis using False by (simp add: top_bit.simps [of n])
  qed
qed

lemma popcount_0 [simp]: "popcount 0 = 0"
  by (simp add: popcount.simps)

lemma popcount_pos: "0 < n \<Longrightarrow> popcount n = n mod 2 + popcount (n div 2)"
  by (simp add: popcount.simps)

lemma popcount_eq_0: "popcount n = 0 \<longleftrightarrow> n = 0"
proof (induction n rule: less_induct)
  case (less n)
  then show ?case by (cases "n = 0") (auto simp: popcount_pos)
qed

lemma popcount_pow2: "popcount (2 ^ k) = 1"
  by (induction k) (simp_all add: popcount_pos)

lemma popcount_eq_1: "popcount n = 1 \<longleftrightarrow> (\<exists>k. n = 2 ^ k)"
proof
  show "popcount n = 1 \<Longrightarrow> \<exists>k. n = 2 ^ k"
  proof (induction n rule: less_induct)
    case (less n)
    then have n: "0 < n" by (cases "n = 0") simp_all
    show ?case
    proof (cases "n mod 2 = 0")
      case True
      have "n div 2 < n" "popcount (n div 2) = 1"
        using n less.prems True by (simp_all add: popcount_pos)
      then obtain k where "n div 2 = 2 ^ k" using less.IH by blast
      with True have "n = 2 ^ Suc k" by auto
      then show ?thesis by blast
    next
      case False
      with less.prems n have "popcount (n div 2) = 0" by (simp add: popcount_pos)
      with False n have "n = 2 ^ 0" by (simp add: popcount_eq_0)
      then show ?thesis by blast
    qed
  qed
qed (auto simp: popcount_pow2)

lemma low_16: "unat (phys AND NOT 0xffff :: u32) = unat phys - unat phys mod 0x10000"
proof -
  have m: "(0xffff :: u32) = mask 16" by (simp add: mask_eq_exp_minus_1)
  have "phys AND mask 16 \<le> phys" by (simp add: word_le_nat_alt unat_and_mask)
  then have "unat (phys - (phys AND mask 16)) = unat phys - unat (phys AND mask 16)"
    by (simp add: unat_sub word_le_nat_alt)
  moreover have "phys - (phys AND mask 16) = phys AND NOT (mask 16)"
    using and_plus_and_not [of phys "mask 16"] by (simp add: diff_eq_eq add.commute)
  ultimately show ?thesis unfolding m by (simp add: unat_and_mask)
qed

lemma l2ab_expand_eq: "l2ab_expand phys len = unat phys mod 0x10000 + len"
proof -
  have "unat phys mod 0x10000 \<le> unat phys" by simp
  then show ?thesis unfolding l2ab_expand_def low_16 Let_def by auto
qed

text \<open>
  The window has a power of two for its size, and the size is rounded down: it covers the
  request exactly when the request is small or already such a power.
\<close>

lemma l2ab_window_len_bounds:
  fixes phys len
  defines "need \<equiv> max (2 ^ 16) (unat phys mod 0x10000 + len)"
  shows "\<exists>k. l2ab_window_len phys len = 2 ^ k"
    and "l2ab_window_len phys len \<le> need" and "need < 2 * l2ab_window_len phys len"
    and "2 ^ 16 \<le> l2ab_window_len phys len"
    and "need \<le> l2ab_window_len phys len \<longleftrightarrow> (\<exists>k. need = 2 ^ k)"
proof -
  have eq: "l2ab_window_len phys len = (if popcount need \<noteq> 1 then 2 ^ top_bit need else need)"
    by (simp add: l2ab_window_len_def l2ab_expand_eq need_def Let_def max_def)
  have pos: "0 < need" by (simp add: need_def)
  note b = top_bit_bounds [OF pos]
  show "\<exists>k. l2ab_window_len phys len = 2 ^ k" using eq popcount_eq_1 by (metis (full_types))
  show le: "l2ab_window_len phys len \<le> need" using eq b by simp
  show lt: "need < 2 * l2ab_window_len phys len" using eq b pos by simp
  have "2 ^ 16 \<le> need" by (simp add: need_def)
  then have "(2 :: nat) ^ 16 < 2 ^ Suc (top_bit need)" using b by simp
  then have "16 \<le> top_bit need" using power_less_imp_less_exp [of "2 :: nat" 16 "Suc (top_bit need)"] by simp
  then have "(2 :: nat) ^ 16 \<le> 2 ^ top_bit need" by (rule power_increasing) simp
  then show "2 ^ 16 \<le> l2ab_window_len phys len" using eq \<open>2 ^ 16 \<le> need\<close> by simp
  show "need \<le> l2ab_window_len phys len \<longleftrightarrow> (\<exists>k. need = 2 ^ k)"
    using eq le b by (metis order.antisym order.refl popcount_eq_1)
qed

lemma l2ab_window_covers:
  "unat phys + len \<le> unat (phys AND NOT 0xffff) + l2ab_window_len phys len \<longleftrightarrow>
     unat phys mod 0x10000 + len \<le> 2 ^ 16 \<or> (\<exists>k. unat phys mod 0x10000 + len = 2 ^ k)"
proof -
  let ?m = "unat phys mod 0x10000" and ?w = "l2ab_window_len phys len"
  note w = l2ab_window_len_bounds [of phys len]
  have "?m \<le> unat phys" by simp
  then have "unat phys + len \<le> unat (phys AND NOT 0xffff) + ?w \<longleftrightarrow> ?m + len \<le> ?w"
    unfolding low_16 by linarith
  also have "\<dots> \<longleftrightarrow> max (2 ^ 16) (?m + len) \<le> ?w" using w(4) by simp
  also have "\<dots> \<longleftrightarrow> (\<exists>k. max (2 ^ 16) (?m + len) = 2 ^ k)" by (rule w(5))
  also have "\<dots> \<longleftrightarrow> ?m + len \<le> 2 ^ 16 \<or> (\<exists>k. ?m + len = 2 ^ k)"
    by (metis max.absorb1 max.absorb2 nle_le)
  finally show ?thesis .
qed

section \<open>Properties\<close>

interpretation ilpc_reg: reg_bus "ilpcb_ops (superio_lpc (regfile eff) strap)" "\<lambda>s. sio_base s = strap"
    "\<lambda>s. si_bus (sio_io s)" eff
  by unfold_locales

definition l2ab_start :: "nat \<Rightarrow> (u32 \<Rightarrow> u32) \<Rightarrow> (u32 \<Rightarrow> u32) superio l2ab" where
  "l2ab_start base regs = \<lparr>l2_sio = \<lparr>sio_io = superio_reset regs, sio_base = base\<rparr>,
     l2_phys = 0, l2_len = 0, l2_restore7 = 0, l2_restore8 = 0\<rparr>"

lemma l2ab_start_simps [simp]:
  "sio_base (l2_sio (l2ab_start base regs)) = base"
  "si_bus (sio_io (l2_sio (l2ab_start base regs))) = regs"
  "l2_phys (l2ab_start base regs) = 0" "l2_len (l2ab_start base regs) = 0"
  by (simp_all add: l2ab_start_def superio_reset_def)

text \<open>
  Moving the L2A window: a request that the present window does not hold and that
  is at most 128 MiB long programs HICR7 with its 64 KiB page and HICR8 with the mask of a
  power-of-two size, remembers both, and returns the offset of \<open>phys\<close> in its page. The
  size is rounded down, so the new window holds the whole request exactly when the request,
  counted from its page, is at most 64 KiB or itself a power of two.
\<close>

theorem l2ab_map_window:
  assumes "superio_ports io (regfile plain_eff) strap view" "sio_base (l2_sio s) = strap"
    and "\<not> (l2_phys s \<le> phys \<and> unat phys + len \<le> unat (l2_phys s) + l2_len s)"
    and "len \<le> 2 ^ 27"
    and "r = run_state (l2ab_map io phys len) s"
  shows "fst r = uint (phys AND 0xffff) \<and>
    l2_phys (snd r) = phys AND NOT 0xffff \<and>
    (\<exists>k. l2_len (snd r) = 2 ^ k) \<and>
    si_bus (view (sio_io (l2_sio (snd r)))) =
      (si_bus (view (sio_io (l2_sio s))))
        (0x1e789088 := l2_phys (snd r),
         0x1e78908c := NOT (of_nat (l2_len (snd r) - 1)) OR of_nat ((l2_len (snd r) - 1) div 2 ^ 16)) \<and>
    (unat phys + len \<le> unat (l2_phys (snd r)) + l2_len (snd r) \<longleftrightarrow>
       unat phys mod 0x10000 + len \<le> 2 ^ 16 \<or> (\<exists>k. unat phys mod 0x10000 + len = 2 ^ k))"
proof -
  note wr = superio_ports.writel [OF assms(1)]
  have run: "fst r = uint (phys AND 0xffff)" "l2_phys (snd r) = phys AND NOT 0xffff"
    "l2_len (snd r) = l2ab_window_len phys len"
    using assms(2,4) wr by (simp_all add: assms(5) assms(3) l2ab_map_def L2AB_WINDOW_SIZE_def Let_def)
  have "si_bus (view (sio_io (l2_sio (snd r)))) =
      (si_bus (view (sio_io (l2_sio s))))
        (0x1e789088 := phys AND NOT 0xffff,
         0x1e78908c := NOT (of_nat (l2ab_window_len phys len - 1))
            OR of_nat ((l2ab_window_len phys len - 1) div 2 ^ 16))"
    using assms(2,4) wr
    by (simp add: assms(5) assms(3) l2ab_map_def L2AB_WINDOW_SIZE_def Let_def LPC_HICR7_def LPC_HICR8_def plain_eff_def)
  then show ?thesis
    unfolding run using l2ab_window_covers l2ab_window_len_bounds(1) by blast
qed

theorem l2ab_map_window_witness:
  "\<not> unat (0x80000000 :: u32) + 0x18000 \<le>
     unat (l2_phys (snd (run_state (l2ab_map (superio_lpc (regfile plain_eff) 0x2e) 0x80000000 0x18000)
       (l2ab_start 0x2e (\<lambda>_. 0))))) +
     l2_len (snd (run_state (l2ab_map (superio_lpc (regfile plain_eff) 0x2e) 0x80000000 0x18000)
       (l2ab_start 0x2e (\<lambda>_. 0))))"
proof -
  let ?r = "run_state (l2ab_map (superio_lpc (regfile plain_eff) 0x2e) 0x80000000 0x18000)
    (l2ab_start 0x2e (\<lambda>_. 0))"
  have "popcount 0x18000 \<noteq> 1" by (simp add: popcount_pos)
  then have "\<nexists>k. (0x18000 :: nat) = 2 ^ k" by (simp only: popcount_eq_1) simp
  moreover have "unat (0x80000000 :: u32) + 0x18000 \<le> unat (l2_phys (snd ?r)) + l2_len (snd ?r) \<longleftrightarrow>
      unat (0x80000000 :: u32) mod 0x10000 + 0x18000 \<le> 2 ^ 16 \<or>
      (\<exists>k. unat (0x80000000 :: u32) mod 0x10000 + 0x18000 = 2 ^ k)"
  proof -
    have "sio_base (l2_sio (l2ab_start 0x2e (\<lambda>_. 0))) = 0x2e"
      "\<not> (l2_phys (l2ab_start 0x2e (\<lambda>_. 0)) \<le> 0x80000000 \<and> unat (0x80000000 :: u32) + 0x18000 \<le>
         unat (l2_phys (l2ab_start 0x2e (\<lambda>_. 0))) + l2_len (l2ab_start 0x2e (\<lambda>_. 0)))"
      "(0x18000 :: nat) \<le> 2 ^ 27"
      by simp_all
    from l2ab_map_window [OF ilpc.superio_ports_axioms this refl] show ?thesis by blast
  qed
  ultimately show ?thesis by simp
qed

text \<open>
  Giving the window registers back: saving HICR7 and HICR8, moving the window any
  number of bytes anywhere, and restoring leaves every register of the bus as it was.
\<close>

theorem l2ab_save_restore:
  assumes "superio_ports io (regfile plain_eff) strap view" "sio_base (l2_sio s) = strap"
    and "s1 = snd (run_state (l2ab_save_hicr78 io) s)"
    and "s2 = snd (run_state (l2ab_map io phys len) s1)"
  shows "fst (run_state (l2ab_save_hicr78 io) s) = 0 \<and>
    fst (run_state (l2ab_restore_hicr78 io) s2) = 0 \<and>
    si_bus (view (sio_io (l2_sio (snd (run_state (l2ab_restore_hicr78 io) s2))))) =
      si_bus (view (sio_io (l2_sio s)))"
proof -
  note [simp] = superio_ports.writel [OF assms(1)] superio_ports.readl [OF assms(1)]
  have s1: "fst (run_state (l2ab_save_hicr78 io) s) = 0" "sio_base (l2_sio s1) = strap"
    "si_bus (view (sio_io (l2_sio s1))) = si_bus (view (sio_io (l2_sio s)))"
    "l2_restore7 s1 = si_bus (view (sio_io (l2_sio s))) LPC_HICR7"
    "l2_restore8 s1 = si_bus (view (sio_io (l2_sio s))) LPC_HICR8"
    using assms(2,3) by (simp_all add: l2ab_save_hicr78_def)
  have s2: "sio_base (l2_sio s2) = strap"
    "l2_restore7 s2 = l2_restore7 s1" "l2_restore8 s2 = l2_restore8 s1"
    "\<forall>a. a \<noteq> LPC_HICR7 \<longrightarrow> a \<noteq> LPC_HICR8 \<longrightarrow>
       si_bus (view (sio_io (l2_sio s2))) a = si_bus (view (sio_io (l2_sio s1))) a"
    using s1(2) assms(4) by (simp_all add: l2ab_map_def Let_def plain_eff_def)
  show ?thesis
    using s1 s2 by (auto simp: l2ab_restore_hicr78_def plain_eff_def fun_eq_iff)
qed

theorem l2ab_save_restore_witness:
  "fst (run_state (l2ab_save_hicr78 (superio_lpc (regfile plain_eff) 0x4e))
     (l2ab_start 0x4e (\<lambda>a. a))) = 0"
  using l2ab_save_restore [OF ilpc.superio_ports_axioms [where strap = "0x4e"] _ refl refl,
      where s = "l2ab_start 0x4e (\<lambda>a. a)" and phys = "0x80000000" and len = 4]
  by simp

text \<open>
  A working LPC2AHB bridge is thrown away and handed out at once: on hardware with
  a SuperIO and supported silicon the iLPC probe reports success as 1, \<open>l2ab_init\<close> takes the
  non-zero status for a failure, tears the bridge down before its operations are installed
  and returns 1, and \<open>l2ab_driver_probe\<close>, which only rejects negative statuses, returns the
  handle.
\<close>

theorem l2ab_init_rejects_success:
  assumes "strap \<in> {0x2e, 0x4e}"
    and "rev_is_supported (probed_rev (si_bus (sio_io (l2_sio s))))"
    and "ahb_ops ahb = ilpcb_ops (superio_lpc (regfile eff) strap)"
  shows "fst (run_state (l2ab_init (superio_lpc (regfile eff) strap) (superio_lpc tgt strap) ahb) s) = 1 \<and>
    fst (run_state (l2ab_driver_probe (superio_lpc (regfile eff) strap) (superio_lpc tgt strap) ahb) s)"
proof -
  let ?io = "superio_lpc (regfile eff) strap" and ?fw = "superio_lpc tgt strap"
  let ?s1 = "snd (run_state (ilpcb_init ?io) (l2_sio s))"
  let ?s2 = "snd (run_state (sio_probe ?io) ?s1)"
  have 0: "fst (run_state (ilpcb_init ?io) t) = 0" "fst (run_state (lpc_init ?fw name) h) = 0"
    "snd (run_state (lpc_init ?fw name) h) = h" for t name h
    by (simp_all add: ilpcb_init_def sio_init_def superio_lpc_def)
  have probe: "fst (run_state (sio_probe ?io) ?s1)" "sio_base ?s2 = strap"
    using ilpc.probe(1) [OF assms(1)] by blast+
  have "sio_io ?s1 = sio_io (l2_sio s)"
    by (simp add: ilpcb_init_def sio_init_def superio_lpc_def)
  then have bus: "si_bus (sio_io ?s2) = si_bus (sio_io (l2_sio s))"
    using ilpc.probe_bus [OF assms(1)] by metis
  show ?thesis
    using ilpc_reg.rev_probe_spec(1) [OF assms(3), of ?s2] probe bus assms(2)
    by (simp add: l2ab_driver_probe_def l2ab_init_def l2_fw_def ilpcb_probe_def 0 l2ab_cleanup_def)
qed

theorem l2ab_init_rejects_success_witness:
  "fst (run_state (l2ab_init (superio_lpc (regfile plain_eff) 0x2e) (superio_lpc (regfile plain_eff) 0x2e)
      \<lparr>ahb_drv = \<lparr>drv_name = ''ilpc'', drv_release = None, drv_reinit = None,
         drv_path_required = False, drv_local = False, drv_disabled = False\<rparr>,
        ahb_ops = ilpcb_ops (superio_lpc (regfile plain_eff) 0x2e)\<rparr>)
     (l2ab_start 0x2e (\<lambda>_. 0x04030303))) = 1"
  using l2ab_init_rejects_success [where strap = "0x2e" and s = "l2ab_start 0x2e (\<lambda>_. 0x04030303)"
      and eff = plain_eff and tgt = "regfile plain_eff" and
      ahb = "\<lparr>ahb_drv = \<lparr>drv_name = ''ilpc'', drv_release = None, drv_reinit = None,
         drv_path_required = False, drv_local = False, drv_disabled = False\<rparr>,
        ahb_ops = ilpcb_ops (superio_lpc (regfile plain_eff) 0x2e)\<rparr>"]
  by (simp add: rev_is_supported_iff probed_rev_def)

end
