(* ===== verification/Devmem.thy ===== *)
theory Devmem
  imports P2a
begin

text \<open>
  The \<^verbatim>\<open>/dev/mem\<close> bridge, \<^verbatim>\<open>src/bridge/devmem.c\<close>: a fixed mapping of the SoC's IO range and
  one window that is remapped on demand. \<open>mmap\<close>, \<open>munmap\<close> and the accesses through a mapping
  are the operating system's: \<open>dm_map len page\<close> and \<open>dm_unmap len\<close> succeed (\<open>Inr\<close>) or fail with
  an \<open>errno\<close> (\<open>Inl\<close>), \<open>dm_io\<close> accesses the fixed mapping by offset and \<open>dm_win page\<close> a window
  mapped at \<open>page\<close>.
\<close>

record 'h devmem_os =
  dm_map :: "nat \<Rightarrow> u32 \<Rightarrow> ('h, int + unit) state"
  dm_unmap :: "nat \<Rightarrow> ('h, int + unit) state"
  dm_io :: "'h mmio"
  dm_win :: "u32 \<Rightarrow> 'h mmio"

record 'h devmem =
  dm_hw :: 'h
  dm_mapped :: bool
  dm_phys :: u32
  dm_len :: nat
  dm_pgsize :: u32

definition dm_lift :: "('h, 'a) state \<Rightarrow> ('h devmem, 'a) state" where
  "dm_lift m = zoom dm_hw (\<lambda>h s. s\<lparr>dm_hw := h\<rparr>) m"

lemma run_dm_lift [simp]:
  "run_state (dm_lift m) s =
     (fst (run_state m (dm_hw s)), s\<lparr>dm_hw := snd (run_state m (dm_hw s))\<rparr>)"
  by (simp add: dm_lift_def)

definition AST_SOC_IO :: u32 where "AST_SOC_IO = 0x1e600000"
definition AST_SOC_IO_LEN :: u32 where "AST_SOC_IO_LEN = 0x00200000"

section \<open>The window\<close>

definition devmem_win_cleanup :: "int \<Rightarrow> ('h devmem, int + nat) state" where
  "devmem_win_cleanup errno = do {
     _ \<leftarrow> modify (\<lambda>s. s\<lparr>dm_mapped := False, dm_phys := 0, dm_len := 0\<rparr>);
     ret (Inl (- errno)) }"

definition devmem_setup_win :: "'h devmem_os \<Rightarrow> u32 \<Rightarrow> nat \<Rightarrow> ('h devmem, int + nat) state" where
  "devmem_setup_win os phys len = do {
     ctx \<leftarrow> gets id;
     let aligned = phys AND NOT (dm_pgsize ctx - 1);
     let offset = unat (phys AND (dm_pgsize ctx - 1));
     let map_win = do {
           mapped \<leftarrow> gets dm_mapped;
           (if mapped then ret (Inr offset)
            else do {
              r \<leftarrow> dm_lift (dm_map os (offset + len) aligned);
              (case r of
                 Inl errno \<Rightarrow> devmem_win_cleanup errno
               | Inr _ \<Rightarrow> do {
                   _ \<leftarrow> modify (\<lambda>s. s\<lparr>dm_mapped := True, dm_phys := aligned, dm_len := offset + len\<rparr>);
                   ret (Inr offset) }) }) };
     (if dm_mapped ctx \<and> \<not> (dm_phys ctx = aligned \<and> dm_len ctx \<ge> offset + len)
      then do {
        r \<leftarrow> dm_lift (dm_unmap os (dm_len ctx));
        (case r of
           Inl errno \<Rightarrow> devmem_win_cleanup errno
         | Inr _ \<Rightarrow> do { _ \<leftarrow> modify (\<lambda>s. s\<lparr>dm_mapped := False\<rparr>); map_win }) }
      else map_win) }"

section \<open>Accesses\<close>

definition devmem_read :: "'h devmem_os \<Rightarrow> nat \<Rightarrow> u32 \<Rightarrow> nat \<Rightarrow> ('h devmem, int + u8 list) state" where
  "devmem_read os buf phys len =
     (if len > SSIZE_MAX then ret (Inl (-1))
      else do {
        r \<leftarrow> devmem_setup_win os phys len;
        (case r of
           Inl _ \<Rightarrow> ret (Inl (-1))
         | Inr woff \<Rightarrow> do {
             page \<leftarrow> gets dm_phys;
             bs \<leftarrow> dm_lift (mmio_copy_from (dm_win os page) woff (mmio_memcpy_plan buf woff len));
             ret (Inr bs) }) })"

definition devmem_write :: "'h devmem_os \<Rightarrow> nat \<Rightarrow> u32 \<Rightarrow> u8 list \<Rightarrow> ('h devmem, int) state" where
  "devmem_write os buf phys data =
     (if length data > SSIZE_MAX then ret (-1)
      else do {
        r \<leftarrow> devmem_setup_win os phys (length data);
        (case r of
           Inl _ \<Rightarrow> ret (-1)
         | Inr woff \<Rightarrow> do {
             page \<leftarrow> gets dm_phys;
             _ \<leftarrow> dm_lift (mmio_copy_to (dm_win os page) woff data (mmio_memcpy_plan woff buf (length data)));
             ret (int (length data)) }) })"

definition in_soc_io :: "u32 \<Rightarrow> bool" where
  "in_soc_io phys \<longleftrightarrow> AST_SOC_IO \<le> phys \<and> phys < AST_SOC_IO + AST_SOC_IO_LEN"

definition devmem_readl :: "'h devmem_os \<Rightarrow> u32 \<Rightarrow> ('h devmem, int + u32) state" where
  "devmem_readl os phys =
     (if phys AND 0x3 \<noteq> 0 then ret (Inl (- EINVAL))
      else if in_soc_io phys
      then do { v \<leftarrow> dm_lift (mm_ld32 (dm_io os) (unat (phys - AST_SOC_IO))); ret (Inr v) }
      else valr_then (devmem_setup_win os phys 4) (\<lambda>woff. do {
             page \<leftarrow> gets dm_phys;
             v \<leftarrow> dm_lift (mm_ld32 (dm_win os page) woff);
             ret (Inr v) }))"

definition devmem_writel :: "'h devmem_os \<Rightarrow> u32 \<Rightarrow> u32 \<Rightarrow> ('h devmem, int) state" where
  "devmem_writel os phys val =
     (if phys AND 0x3 \<noteq> 0 then ret (- EINVAL)
      else if in_soc_io phys
      then do { _ \<leftarrow> dm_lift (mm_st32 (dm_io os) (unat (phys - AST_SOC_IO)) val); ret 0 }
      else val_then (devmem_setup_win os phys 4) (\<lambda>woff. do {
             page \<leftarrow> gets dm_phys;
             _ \<leftarrow> dm_lift (mm_st32 (dm_win os page) woff val);
             ret 0 }))"

definition devmem_ahb_ops :: "'h devmem_os \<Rightarrow> nat \<Rightarrow> 'h devmem ahb_ops" where
  "devmem_ahb_ops os buf = \<lparr>
     ops_read = devmem_read os buf, ops_write = devmem_write os buf,
     ops_readl = devmem_readl os, ops_writel = devmem_writel os \<rparr>"

text \<open>
  \<open>devmem_probe\<close> is compiled to probe only on 32-bit ARM. \<open>devmem_destroy\<close> unmaps the fixed
  mapping after asserting that no window is left; \<open>None\<close> is the failed assertion.
\<close>

definition devmem_probe :: "bool \<Rightarrow> 'h devmem ahb \<Rightarrow> ('h devmem, int) state" where
  "devmem_probe arm ahb =
     (if \<not> arm then ret (- ENOTSUP)
      else do { rc \<leftarrow> rev_probe ahb; ret (if rc < 0 then rc else 1) })"

definition devmem_destroy :: "'h devmem_os \<Rightarrow> ('h devmem, int option) state" where
  "devmem_destroy os = do {
     win \<leftarrow> gets dm_mapped;
     (if win then ret None
      else do { _ \<leftarrow> dm_lift (dm_unmap os (unat AST_SOC_IO_LEN)); ret (Some 0) }) }"

section \<open>What the driver relies on\<close>

text \<open>
  The contract of \<open>mmap(2)\<close>, \<open>munmap(2)\<close> and the mappings. \<open>maps\<close> are the windows mapped, the last
  one first, each its length and the address it shows; \<open>pg\<close> is the size of a page. A mapping of no
  bytes or from an address inside a page is refused with \<open>EINVAL\<close>; another one succeeds, and
  so does removing the last one with its length, unless the system is short of
  resources (\<open>\<not> fine\<close>). An access through a window reaches the bus only inside a mapping that
  exists and shows that page; of others nothing is said.
\<close>

locale devmem_os_spec =
  fixes os :: "'h devmem_os"
    and tgt :: "'t target"
    and bus :: "'h \<Rightarrow> 't"
    and maps :: "'h \<Rightarrow> (nat \<times> u32) list"
    and fine :: "'h \<Rightarrow> bool"
    and pg :: u32
  assumes map_invalid: "n = 0 \<or> p AND (pg - 1) \<noteq> 0 \<Longrightarrow> run_state (dm_map os n p) h = (Inl EINVAL, h)"
    and map_valid: "0 < n \<Longrightarrow> p AND (pg - 1) = 0 \<Longrightarrow> \<exists>r h'. run_state (dm_map os n p) h = (r, h') \<and>
      bus h' = bus h \<and> fine h' = fine h \<and>
      (case r of Inl e \<Rightarrow> 0 < e \<and> \<not> fine h \<and> maps h' = maps h | Inr _ \<Rightarrow> maps h' = (n, p) # maps h)"
    and unmap: "maps h = (n, p) # ms \<Longrightarrow> \<exists>r h'. run_state (dm_unmap os n) h = (r, h') \<and>
      bus h' = bus h \<and> fine h' = fine h \<and>
      (case r of Inl e \<Rightarrow> 0 < e \<and> \<not> fine h \<and> maps h' = maps h | Inr _ \<Rightarrow> maps h' = ms)"
    and io_ld32: "off < 0x200000 \<Longrightarrow> off mod 4 = 0 \<Longrightarrow> \<exists>h'. run_state (mm_ld32 (dm_io os) off) h =
      (fst (run_state (tgt_ld32 tgt (AST_SOC_IO + of_nat off)) (bus h)), h') \<and> maps h' = maps h \<and> fine h' = fine h \<and>
      bus h' = snd (run_state (tgt_ld32 tgt (AST_SOC_IO + of_nat off)) (bus h))"
    and io_st32: "off < 0x200000 \<Longrightarrow> off mod 4 = 0 \<Longrightarrow> \<exists>h'. run_state (mm_st32 (dm_io os) off v) h = ((), h') \<and>
      maps h' = maps h \<and> fine h' = fine h \<and>
      bus h' = snd (run_state (tgt_st32 tgt (AST_SOC_IO + of_nat off) v) (bus h))"
    and win_ld32: "(n, p) \<in> set (maps h) \<Longrightarrow> off + 4 \<le> n \<Longrightarrow> off mod 4 = 0 \<Longrightarrow>
      \<exists>h'. run_state (mm_ld32 (dm_win os p) off) h =
      (fst (run_state (tgt_ld32 tgt (p + of_nat off)) (bus h)), h') \<and> maps h' = maps h \<and> fine h' = fine h \<and>
      bus h' = snd (run_state (tgt_ld32 tgt (p + of_nat off)) (bus h))"
    and win_st32: "(n, p) \<in> set (maps h) \<Longrightarrow> off + 4 \<le> n \<Longrightarrow> off mod 4 = 0 \<Longrightarrow>
      \<exists>h'. run_state (mm_st32 (dm_win os p) off v) h = ((), h') \<and> maps h' = maps h \<and> fine h' = fine h \<and>
      bus h' = snd (run_state (tgt_st32 tgt (p + of_nat off) v) (bus h))"

text \<open>The driver's window is the last mapping.\<close>

definition dm_inv :: "('h \<Rightarrow> (nat \<times> u32) list) \<Rightarrow> u32 \<Rightarrow> 'h devmem \<Rightarrow> bool" where
  "dm_inv maps pg s \<longleftrightarrow> dm_pgsize s = pg \<and>
     (dm_mapped s \<longrightarrow> (\<exists>ms. maps (dm_hw s) = (dm_len s, dm_phys s) # ms))"

text \<open>The mappings that are not the driver's.\<close>

definition dm_others :: "('h \<Rightarrow> (nat \<times> u32) list) \<Rightarrow> 'h devmem \<Rightarrow> (nat \<times> u32) list" where
  "dm_others maps s = (if dm_mapped s then tl (maps (dm_hw s)) else maps (dm_hw s))"

lemma and_not_plus_and: "(phys AND NOT m) + (phys AND m) = (phys :: u32)"
  by (simp add: and_plus_and_not add.commute)

lemma setup_win_cases:
  assumes "r = run_state (devmem_setup_win os phys len) s"
  shows "case fst r of
      Inr off \<Rightarrow> off = unat (phys AND (dm_pgsize s - 1)) \<and> dm_mapped (snd r) \<and>
        dm_phys (snd r) = phys AND NOT (dm_pgsize s - 1) \<and> off + len \<le> dm_len (snd r)
    | Inl _ \<Rightarrow> \<not> dm_mapped (snd r) \<and> dm_phys (snd r) = 0 \<and> dm_len (snd r) = 0"
  unfolding assms
  by (auto simp: devmem_setup_win_def devmem_win_cleanup_def Let_def run_case_sum split: sum.split)

lemma setup_win_page [simp]:
  "dm_pgsize (snd (run_state (devmem_setup_win os phys len) s)) = dm_pgsize s"
  by (auto simp: devmem_setup_win_def devmem_win_cleanup_def Let_def run_case_sum split: sum.split)

context devmem_os_spec
begin

lemma page_aligned: "(phys AND NOT (pg - 1)) AND (pg - 1) = 0" for phys :: u32
  by (simp add: ac_simps)

text \<open>
  What a call to set the window up leaves: the window asked for, in place of the one before,
  or, when the system is short of resources, none.
\<close>

definition window_set :: "u32 \<Rightarrow> nat \<Rightarrow> 'h devmem \<Rightarrow> (int + nat) \<times> 'h devmem \<Rightarrow> bool" where
  "window_set phys len s r \<longleftrightarrow> bus (dm_hw (snd r)) = bus (dm_hw s) \<and> fine (dm_hw (snd r)) = fine (dm_hw s) \<and>
     dm_inv maps pg (snd r) \<and>
     (case fst r of
        Inr off \<Rightarrow> dm_mapped (snd r) \<and> dm_others maps (snd r) = dm_others maps s \<and>
          dm_phys (snd r) AND (pg - 1) = 0 \<and> dm_phys (snd r) + of_nat off = phys \<and>
          off = unat (phys AND (pg - 1)) \<and> off + len \<le> dm_len (snd r)
      | Inl e \<Rightarrow> e < 0 \<and> \<not> fine (dm_hw s) \<and> \<not> dm_mapped (snd r))"

lemma map_window:
  assumes "dm_pgsize s = pg" "\<not> dm_mapped s" "0 < len"
  shows "window_set phys len s (run_state (devmem_setup_win os phys len) s)"
proof -
  let ?p = "phys AND NOT (pg - 1)" and ?off = "unat (phys AND (pg - 1))"
  obtain r h' where r: "run_state (dm_map os (?off + len) ?p) (dm_hw s) = (r, h')"
      "bus h' = bus (dm_hw s)" "fine h' = fine (dm_hw s)"
      "case r of Inl e \<Rightarrow> 0 < e \<and> \<not> fine (dm_hw s) \<and> maps h' = maps (dm_hw s)
       | Inr _ \<Rightarrow> maps h' = (?off + len, ?p) # maps (dm_hw s)"
    using map_valid [OF _ page_aligned [of phys], of "?off + len" "dm_hw s"] assms(3) by auto
  show ?thesis
    using r assms page_aligned [of phys]
    by (cases r) (simp_all add: window_set_def devmem_setup_win_def devmem_win_cleanup_def Let_def dm_inv_def
        dm_others_def and_not_plus_and)
qed

lemma setup_window:
  assumes "dm_inv maps pg s" "0 < len"
  shows "window_set phys len s (run_state (devmem_setup_win os phys len) s)"
proof (cases "dm_mapped s")
  case False
  then show ?thesis using map_window [of s len phys] assms by (simp add: dm_inv_def)
next
  case True
  let ?p = "phys AND NOT (pg - 1)" and ?off = "unat (phys AND (pg - 1))"
  have pg: "dm_pgsize s = pg" using assms(1) by (simp add: dm_inv_def)
  obtain ms where ms: "maps (dm_hw s) = (dm_len s, dm_phys s) # ms"
    using assms(1) True by (auto simp: dm_inv_def)
  show ?thesis
  proof (cases "dm_phys s = ?p \<and> ?off + len \<le> dm_len s")
    case kept: True
    then have "run_state (devmem_setup_win os phys len) s = (Inr ?off, s)"
      using True pg by (simp add: devmem_setup_win_def Let_def)
    then show ?thesis using kept True assms(1) page_aligned [of phys]
      by (simp add: window_set_def and_not_plus_and)
  next
    case False
    obtain r h' where r: "run_state (dm_unmap os (dm_len s)) (dm_hw s) = (r, h')"
        "bus h' = bus (dm_hw s)" "fine h' = fine (dm_hw s)"
        "case r of Inl e \<Rightarrow> 0 < e \<and> \<not> fine (dm_hw s) \<and> maps h' = maps (dm_hw s) | Inr _ \<Rightarrow> maps h' = ms"
      using unmap [OF ms] by blast
    show ?thesis
    proof (cases r)
      case (Inl e)
      then show ?thesis using r True False pg
        by (simp add: window_set_def devmem_setup_win_def devmem_win_cleanup_def Let_def dm_inv_def)
    next
      case (Inr u)
      let ?s = "s\<lparr>dm_hw := h', dm_mapped := False\<rparr>"
      have "run_state (devmem_setup_win os phys len) s = run_state (devmem_setup_win os phys len) ?s"
        using r(1) Inr True False pg by (simp add: devmem_setup_win_def Let_def)
      moreover have "dm_others maps ?s = dm_others maps s" using r(4) Inr ms True by (simp add: dm_others_def)
      ultimately show ?thesis using map_window [of ?s len phys] r(2,3) pg assms(2)
        by (simp add: window_set_def split: sum.splits)
    qed
  qed
qed

lemma and_3_and: "phys AND 3 = 0 \<Longrightarrow> unat (phys AND m) mod 4 = 0" for phys :: u32
proof -
  assume "phys AND 3 = 0"
  moreover have "(phys AND m) AND 3 = (phys AND 3) AND m" by (simp add: ac_simps)
  ultimately have "(phys AND m) AND 3 = 0" by simp
  then show ?thesis by (simp add: and_3_eq_0_iff)
qed

lemma soc_io_offset:
  assumes "in_soc_io phys" "phys AND 3 = 0"
  shows "unat (phys - AST_SOC_IO) < 0x200000" and "unat (phys - AST_SOC_IO) mod 4 = 0"
proof -
  have le: "unat AST_SOC_IO \<le> unat phys" and lt: "unat phys < 0x1e800000"
    using assms(1) by (simp_all add: in_soc_io_def AST_SOC_IO_def AST_SOC_IO_LEN_def
        word_le_nat_alt word_less_nat_alt)
  have eq: "unat (phys - AST_SOC_IO) = unat phys - unat AST_SOC_IO"
    using le by (simp add: unat_sub word_le_nat_alt)
  show "unat (phys - AST_SOC_IO) < 0x200000"
  proof -
    have "unat AST_SOC_IO = 0x1e600000" by (simp add: AST_SOC_IO_def)
    then show ?thesis unfolding eq using lt by linarith
  qed
  have "unat phys mod 4 = 0" using assms(2) by (simp add: and_3_eq_0_iff)
  then show "unat (phys - AST_SOC_IO) mod 4 = 0"
    using le unfolding eq by (simp add: AST_SOC_IO_def) presburger
qed

text \<open>While the system is fine the driver is a bridge: a word access is one access of the bus.\<close>

definition dm_ok :: "'h devmem \<Rightarrow> bool" where
  "dm_ok s \<longleftrightarrow> dm_inv maps pg s \<and> fine (dm_hw s)"

lemma dm_ok_access: "dm_ok s \<Longrightarrow> maps h = maps (dm_hw s) \<Longrightarrow> fine h = fine (dm_hw s) \<Longrightarrow> dm_ok (s\<lparr>dm_hw := h\<rparr>)"
  by (simp add: dm_ok_def dm_inv_def)

lemma window_word:
  assumes "dm_ok s" "phys AND 3 = 0"
  obtains off s1 where "run_state (devmem_setup_win os phys 4) s = (Inr off, s1)" "dm_ok s1"
    "(dm_len s1, dm_phys s1) \<in> set (maps (dm_hw s1))" "off + 4 \<le> dm_len s1" "off mod 4 = 0"
    "dm_phys s1 + of_nat off = phys" "bus (dm_hw s1) = bus (dm_hw s)"
proof -
  have i: "dm_inv maps pg s" "fine (dm_hw s)" using assms(1) by (simp_all add: dm_ok_def)
  obtain x s1 where r: "run_state (devmem_setup_win os phys 4) s = (x, s1)" by fastforce
  from setup_window [OF i(1), of 4 phys] r have w: "window_set phys 4 s (x, s1)" by simp
  then obtain off where off: "x = Inr off" using i(2) by (cases x) (auto simp: window_set_def)
  have f: "bus (dm_hw s1) = bus (dm_hw s)" "fine (dm_hw s1)" "dm_inv maps pg s1" "dm_mapped s1"
      "dm_phys s1 + of_nat off = phys" "off = unat (phys AND (pg - 1))" "off + 4 \<le> dm_len s1"
    using w [unfolded off window_set_def prod.sel sum.case] i(2) by blast+
  show ?thesis
  proof (rule that)
    show "run_state (devmem_setup_win os phys 4) s = (Inr off, s1)" using r off by simp
    show "off mod 4 = 0" using f(6) and_3_and [OF assms(2)] by simp
    show "dm_ok s1" using f(2,3) by (simp add: dm_ok_def)
    show "(dm_len s1, dm_phys s1) \<in> set (maps (dm_hw s1))" using f(3,4) by (auto simp: dm_inv_def)
  qed (fact f)+
qed

lemma word_read:
  assumes "dm_ok s" "phys AND 3 = 0"
  shows "\<exists>s'. run_state (devmem_readl os phys) s = (Inr (fst (run_state (tgt_ld32 tgt phys) (bus (dm_hw s)))), s') \<and>
    bus (dm_hw s') = snd (run_state (tgt_ld32 tgt phys) (bus (dm_hw s))) \<and> dm_ok s'"
proof (cases "in_soc_io phys")
  case True
  note off = soc_io_offset [OF True assms(2)]
  obtain h' where "run_state (mm_ld32 (dm_io os) (unat (phys - AST_SOC_IO))) (dm_hw s) =
      (fst (run_state (tgt_ld32 tgt phys) (bus (dm_hw s))), h')" "maps h' = maps (dm_hw s)" "fine h' = fine (dm_hw s)"
      "bus h' = snd (run_state (tgt_ld32 tgt phys) (bus (dm_hw s)))"
    using io_ld32 [OF off, of "dm_hw s"] by auto
  then show ?thesis using True assms dm_ok_access [OF assms(1)] by (simp add: devmem_readl_def)
next
  case False
  obtain off s1 where w: "run_state (devmem_setup_win os phys 4) s = (Inr off, s1)" "dm_ok s1"
    "(dm_len s1, dm_phys s1) \<in> set (maps (dm_hw s1))" "off + 4 \<le> dm_len s1" "off mod 4 = 0"
    "dm_phys s1 + of_nat off = phys" "bus (dm_hw s1) = bus (dm_hw s)"
    using window_word [OF assms] .
  obtain h' where "run_state (mm_ld32 (dm_win os (dm_phys s1)) off) (dm_hw s1) =
      (fst (run_state (tgt_ld32 tgt phys) (bus (dm_hw s))), h')" "maps h' = maps (dm_hw s1)" "fine h' = fine (dm_hw s1)"
      "bus h' = snd (run_state (tgt_ld32 tgt phys) (bus (dm_hw s)))"
    using win_ld32 [OF w(3-5)] unfolding w(6,7) by blast
  then show ?thesis using False assms(2) w(1) dm_ok_access [OF w(2)] by (simp add: devmem_readl_def)
qed

lemma word_write:
  assumes "dm_ok s" "phys AND 3 = 0"
  shows "\<exists>s'. run_state (devmem_writel os phys v) s = (0, s') \<and>
    bus (dm_hw s') = snd (run_state (tgt_st32 tgt phys v) (bus (dm_hw s))) \<and> dm_ok s'"
proof (cases "in_soc_io phys")
  case True
  note off = soc_io_offset [OF True assms(2)]
  obtain h' where "run_state (mm_st32 (dm_io os) (unat (phys - AST_SOC_IO)) v) (dm_hw s) = ((), h')"
      "maps h' = maps (dm_hw s)" "fine h' = fine (dm_hw s)"
      "bus h' = snd (run_state (tgt_st32 tgt phys v) (bus (dm_hw s)))"
    using io_st32 [OF off, of v "dm_hw s"] by auto
  then show ?thesis using True assms dm_ok_access [OF assms(1)] by (simp add: devmem_writel_def)
next
  case False
  obtain off s1 where w: "run_state (devmem_setup_win os phys 4) s = (Inr off, s1)" "dm_ok s1"
    "(dm_len s1, dm_phys s1) \<in> set (maps (dm_hw s1))" "off + 4 \<le> dm_len s1" "off mod 4 = 0"
    "dm_phys s1 + of_nat off = phys" "bus (dm_hw s1) = bus (dm_hw s)"
    using window_word [OF assms] .
  obtain h' where "run_state (mm_st32 (dm_win os (dm_phys s1)) off v) (dm_hw s1) = ((), h')"
      "maps h' = maps (dm_hw s1)" "fine h' = fine (dm_hw s1)"
      "bus h' = snd (run_state (tgt_st32 tgt phys v) (bus (dm_hw s)))"
    using win_st32 [OF w(3-5), of v] unfolding w(6,7) by blast
  then show ?thesis using False assms(2) w(1) dm_ok_access [OF w(2)] by (simp add: devmem_writel_def val_then_def)
qed

lemma bridge: "ahb_bridge (devmem_ahb_ops os buf) dm_ok tgt (\<lambda>s. bus (dm_hw s))"
proof (unfold_locales, goal_cases)
  case (1 s a)
  then show ?case using word_read [of s a] by (auto simp: devmem_ahb_ops_def word_aligned_def)
next
  case (2 s a)
  then show ?case using word_read [of s a] by (auto simp: devmem_ahb_ops_def word_aligned_def)
next
  case (3 s a)
  then show ?case using word_read [of s a] by (auto simp: devmem_ahb_ops_def word_aligned_def)
next
  case (4 s a v)
  then show ?case using word_write [of s a v] by (auto simp: devmem_ahb_ops_def word_aligned_def)
next
  case (5 s a v)
  then show ?case using word_write [of s a v] by (auto simp: devmem_ahb_ops_def word_aligned_def)
next
  case (6 s a v)
  then show ?case using word_write [of s a v] by (auto simp: devmem_ahb_ops_def word_aligned_def)
qed

end

section \<open>The documented system\<close>

text \<open>
  A system with a limited number of mappings. Outside every mapping of the page an access is a
  fault, which leaves the bus alone.
\<close>

record 't devmem_sys =
  ds_maps :: "(nat \<times> u32) list"
  ds_full :: bool
  ds_bus :: 't

definition ds_mmio :: "'t target \<Rightarrow> (nat \<Rightarrow> 't devmem_sys \<Rightarrow> bool) \<Rightarrow> u32 \<Rightarrow> 't devmem_sys mmio" where
  "ds_mmio tgt shown base =
     (let at_bus = (\<lambda>n m z. State (\<lambda>s. if shown n s
            then (fst (run_state m (ds_bus s)), s\<lparr>ds_bus := snd (run_state m (ds_bus s))\<rparr>) else (z, s)))
      in \<lparr>mm_ld8 = (\<lambda>off. State (\<lambda>s. if shown (off + 1) s
            then (fst (run_state (tgt_ld8 tgt (base + of_nat off)) (ds_bus s)),
                  s\<lparr>ds_bus := snd (run_state (tgt_ld8 tgt (base + of_nat off)) (ds_bus s))\<rparr>) else (0, s))),
          mm_st8 = (\<lambda>off b. at_bus (off + 1) (tgt_st8 tgt (base + of_nat off) b) ()),
          mm_ld32 = (\<lambda>off. State (\<lambda>s. if shown (off + 4) s
            then (fst (run_state (tgt_ld32 tgt (base + of_nat off)) (ds_bus s)),
                  s\<lparr>ds_bus := snd (run_state (tgt_ld32 tgt (base + of_nat off)) (ds_bus s))\<rparr>) else (0, s))),
          mm_st32 = (\<lambda>off v. at_bus (off + 4) (tgt_st32 tgt (base + of_nat off) v) ())\<rparr>)"

definition devmem_sys :: "'t target \<Rightarrow> 't devmem_sys devmem_os" where
  "devmem_sys tgt = \<lparr>
     dm_map = (\<lambda>len page. State (\<lambda>s.
       if len = 0 \<or> page AND 0xfff \<noteq> 0 then (Inl EINVAL, s)
       else if ds_full s then (Inl ENOMEM, s)
       else (Inr (), s\<lparr>ds_maps := (len, page) # ds_maps s\<rparr>))),
     dm_unmap = (\<lambda>len. State (\<lambda>s.
       if map fst (take 1 (ds_maps s)) = [len] then (Inr (), s\<lparr>ds_maps := tl (ds_maps s)\<rparr>) else (Inl EINVAL, s))),
     dm_io = ds_mmio tgt (\<lambda>n s. n \<le> 0x200000) AST_SOC_IO,
     dm_win = (\<lambda>page. ds_mmio tgt (\<lambda>n s. list_ex (\<lambda>(len, p). p = page \<and> n \<le> len) (ds_maps s)) page) \<rparr>"

interpretation devmem: devmem_os_spec "devmem_sys tgt" tgt ds_bus ds_maps "\<lambda>s. \<not> ds_full s" "0x1000"
proof (unfold_locales, goal_cases)
  case (1 n p h)
  then show ?case by (auto simp: devmem_sys_def)
next
  case (2 n p h)
  then show ?case by (simp add: devmem_sys_def)
next
  case (3 h n p ms)
  then show ?case by (simp add: devmem_sys_def)
next
  case (4 off h)
  then show ?case by (auto simp: devmem_sys_def ds_mmio_def)
next
  case (5 off v h)
  then show ?case by (auto simp: devmem_sys_def ds_mmio_def)
next
  case (6 n p h off)
  then have "list_ex (\<lambda>(len, q). q = p \<and> off + 4 \<le> len) (ds_maps h)" by (auto simp: list_ex_iff)
  then show ?case by (simp add: devmem_sys_def ds_mmio_def)
next
  case (7 n p h off v)
  then have "list_ex (\<lambda>(len, q). q = p \<and> off + 4 \<le> len) (ds_maps h)" by (auto simp: list_ex_iff)
  then show ?case by (simp add: devmem_sys_def ds_mmio_def)
qed

interpretation devmem_dev: ahb_bridge "devmem_ahb_ops (devmem_sys tgt) buf"
    "devmem_os_spec.dm_ok ds_maps (\<lambda>s. \<not> ds_full s) 0x1000" tgt "\<lambda>s. ds_bus (dm_hw s)"
  by (rule devmem.bridge)

definition devmem_start :: "'t \<Rightarrow> 't devmem_sys devmem" where
  "devmem_start t = \<lparr>dm_hw = \<lparr>ds_maps = [], ds_full = False, ds_bus = t\<rparr>, dm_mapped = False, dm_phys = 0,
     dm_len = 0, dm_pgsize = 0x1000\<rparr>"

section \<open>Properties\<close>

text \<open>
  Claim C32. The window of the \<^verbatim>\<open>/dev/mem\<close> bridge: over a system that maps whole pages only,
  \<open>devmem_setup_win\<close> for a request of at least one byte replaces the window before, and no
  other mapping, by one that the system has really made: it starts at a page, and from
  the offset given it shows the requested address, with room for the whole request. Only when the
  system is short of resources it fails, with a negative status and no window. The bus is not
  touched. So, while the system is fine, an aligned word access anywhere is one access of the
  bus at that address, though a window shows nothing beyond its mapping.
\<close>

theorem devmem_window_covers:
  assumes "devmem_os_spec os tgt bus maps fine pg" "dm_inv maps pg s" "0 < len"
  shows "(case run_state (devmem_setup_win os phys len) s of
      (Inr off, s') \<Rightarrow> dm_inv maps pg s' \<and> bus (dm_hw s') = bus (dm_hw s) \<and>
        (\<exists>n page. maps (dm_hw s') = (n, page) # dm_others maps s \<and> page AND (pg - 1) = 0 \<and>
           page + of_nat off = phys \<and> off + len \<le> n)
    | (Inl e, s') \<Rightarrow> \<not> fine (dm_hw s) \<and> e < 0 \<and> \<not> dm_mapped s' \<and> bus (dm_hw s') = bus (dm_hw s)) \<and>
    (fine (dm_hw s) \<and> phys AND 3 = 0 \<longrightarrow>
      (\<exists>s1. run_state (devmem_readl os phys) s =
          (Inr (fst (run_state (tgt_ld32 tgt phys) (bus (dm_hw s)))), s1) \<and>
        bus (dm_hw s1) = snd (run_state (tgt_ld32 tgt phys) (bus (dm_hw s))) \<and> dm_inv maps pg s1) \<and>
      (\<exists>s2. run_state (devmem_writel os phys v) s = (0, s2) \<and>
        bus (dm_hw s2) = snd (run_state (tgt_st32 tgt phys v) (bus (dm_hw s))) \<and> dm_inv maps pg s2))"
proof (intro conjI impI)
  let ?r = "run_state (devmem_setup_win os phys len) s"
  have w: "devmem_os_spec.window_set bus maps fine pg phys len s ?r"
    by (rule devmem_os_spec.setup_window [OF assms])
  show "case ?r of
      (Inr off, s') \<Rightarrow> dm_inv maps pg s' \<and> bus (dm_hw s') = bus (dm_hw s) \<and>
        (\<exists>n page. maps (dm_hw s') = (n, page) # dm_others maps s \<and> page AND (pg - 1) = 0 \<and>
           page + of_nat off = phys \<and> off + len \<le> n)
    | (Inl e, s') \<Rightarrow> \<not> fine (dm_hw s) \<and> e < 0 \<and> \<not> dm_mapped s' \<and> bus (dm_hw s') = bus (dm_hw s)"
    using w unfolding devmem_os_spec.window_set_def [OF assms(1)]
    by (cases ?r; cases "fst ?r") (fastforce simp: dm_inv_def dm_others_def)+
next
  assume "fine (dm_hw s) \<and> phys AND 3 = 0"
  then have ok: "devmem_os_spec.dm_ok maps fine pg s" "phys AND 3 = 0"
    using assms(2) by (simp_all add: devmem_os_spec.dm_ok_def [OF assms(1)])
  note inv = devmem_os_spec.dm_ok_def [OF assms(1)]
  show "\<exists>s1. run_state (devmem_readl os phys) s =
        (Inr (fst (run_state (tgt_ld32 tgt phys) (bus (dm_hw s)))), s1) \<and>
      bus (dm_hw s1) = snd (run_state (tgt_ld32 tgt phys) (bus (dm_hw s))) \<and> dm_inv maps pg s1"
    using devmem_os_spec.word_read [OF assms(1) ok] unfolding inv by blast
  show "\<exists>s2. run_state (devmem_writel os phys v) s = (0, s2) \<and>
      bus (dm_hw s2) = snd (run_state (tgt_st32 tgt phys v) (bus (dm_hw s))) \<and> dm_inv maps pg s2"
    using devmem_os_spec.word_write [OF assms(1) ok, of v] unfolding inv by blast
qed

text \<open>A window for eight bytes behind a page border replaces the one before it.\<close>

theorem devmem_window_covers_witness:
  "let s = (devmem_start (\<lambda>_. 5))\<lparr>dm_hw := \<lparr>ds_maps = [(8, 0x80000000)], ds_full = False, ds_bus = \<lambda>_. 5\<rparr>,
         dm_mapped := True, dm_phys := 0x80000000, dm_len := 8\<rparr>;
       r = run_state (devmem_setup_win (devmem_sys (regfile plain_eff)) 0x80001004 8) s
   in fst r = Inr 4 \<and> ds_maps (dm_hw (snd r)) = [(12, 0x80001000)] \<and>
     fst (run_state (devmem_readl (devmem_sys (regfile plain_eff)) 0x80001004) s) = Inr 5"
proof -
  let ?s = "(devmem_start (\<lambda>_. 5 :: u32))\<lparr>dm_hw := \<lparr>ds_maps = [(8, 0x80000000)], ds_full = False, ds_bus = \<lambda>_. 5\<rparr>,
         dm_mapped := True, dm_phys := 0x80000000, dm_len := 8\<rparr>"
  have "dm_inv ds_maps 0x1000 ?s" by (simp add: dm_inv_def devmem_start_def)
  note covers = conjunct2 [OF devmem_window_covers [OF devmem.devmem_os_spec_axioms [of "regfile plain_eff"] this,
      where len = 8 and phys = "0x80001004" and v = 0]]
  have "\<not> ds_full (dm_hw ?s) \<and> (0x80001004 :: u32) AND 3 = 0" by simp
  from mp [OF covers this] have "fst (run_state (devmem_readl (devmem_sys (regfile plain_eff)) 0x80001004) ?s) = Inr 5" by auto
  then show ?thesis
    by (simp add: devmem_start_def devmem_setup_win_def devmem_sys_def Let_def)
qed

text \<open>
  Tearing the bridge down after it has been used aborts: once bytes have been read
  or written, a window is left mapped, nothing unmaps it, and the assertion in
  \<open>devmem_destroy\<close> fails.
\<close>

theorem devmem_destroy_after_use:
  assumes "run_state (devmem_read os buf phys n) s = (Inr bs, s') \<or>
      run_state (devmem_write os buf phys data) s = (int n, s')"
  shows "fst (run_state (devmem_destroy os) s') = None"
  using assms setup_win_cases [OF refl, of os phys n s]
    setup_win_cases [OF refl, of os phys "length data" s]
  by (auto simp: devmem_read_def devmem_write_def devmem_destroy_def run_case_sum
      split: if_splits sum.splits)

theorem devmem_destroy_after_use_witness:
  "fst (run_state (devmem_destroy (devmem_sys ram_target))
     (snd (run_state (devmem_read (devmem_sys ram_target) 0 0x80001004 1)
       (devmem_start (\<lambda>_. 0))))) = None"
proof (rule devmem_destroy_after_use [OF disjI1])
  show "run_state (devmem_read (devmem_sys ram_target) 0 0x80001004 1) (devmem_start (\<lambda>_. 0)) =
      (Inr [0], snd (run_state (devmem_read (devmem_sys ram_target) 0 0x80001004 1)
       (devmem_start (\<lambda>_. 0))))"
    by (simp add: devmem_read_def devmem_setup_win_def devmem_sys_def devmem_start_def Let_def
        SSIZE_MAX_def mmio_memcpy_plan_def copy_head.simps copy_words.simps ds_mmio_def
        prod_eq_iff)
qed

end
