(* ===== verification/Soc.thy ===== *)
theory Soc
  imports Rev
begin

text \<open>
  The SoC core, \<^verbatim>\<open>src/soc.c\<close> and \<^verbatim>\<open>src/soc.h\<close>: selection of a SoC by its revision, queries on
  the devicetree blob, the binding of drivers to devicetree nodes and the lazy
  initialisation of driver instances. The blob is read with libfdt, which is not code of
  this repository: its queries are the fields of \<open>fdt\<close>, with libfdt's status codes.
\<close>

section \<open>Devicetree queries\<close>

record fdt =
  fdt_node_check_compatible :: "int \<Rightarrow> string \<Rightarrow> int"
  fdt_getprop_string :: "int \<Rightarrow> string \<Rightarrow> string option"
  fdt_getprop_cells :: "int \<Rightarrow> string \<Rightarrow> (u32 list \<times> int) option"
  fdt_node_offset_by_compatible :: "string \<Rightarrow> int"
  fdt_node_offset_by_phandle :: "u32 \<Rightarrow> int"
  fdt_get_alias :: "string \<Rightarrow> string option"
  fdt_path_offset :: "string \<Rightarrow> int"
  fdt_parent_offset :: "int \<Rightarrow> int"
  fdt_first_subnode :: "int \<Rightarrow> int"
  fdt_next_subnode :: "int \<Rightarrow> int"
  fdt_stringlist_search :: "int \<Rightarrow> string \<Rightarrow> string \<Rightarrow> int"

abbreviation FDT_ERR_NOTFOUND :: int where "FDT_ERR_NOTFOUND \<equiv> 1"
abbreviation FDT_ERR_BADPATH :: int where "FDT_ERR_BADPATH \<equiv> 5"

record 's soc =
  soc_rev :: u32
  soc_fdt :: fdt
  soc_ahb :: "'s ahb"

record soc_region =
  rg_start :: u32
  rg_length :: u32

definition soc_readl :: "'s soc \<Rightarrow> u32 \<Rightarrow> ('s, int + u32) state" where
  "soc_readl soc phys = ahb_readl (soc_ahb soc) phys"

definition soc_writel :: "'s soc \<Rightarrow> u32 \<Rightarrow> u32 \<Rightarrow> ('s, int) state" where
  "soc_writel soc phys val = ahb_writel (soc_ahb soc) phys val"

definition soc_read :: "'s soc \<Rightarrow> u32 \<Rightarrow> nat \<Rightarrow> ('s, int + u8 list) state" where
  "soc_read soc phys len = ahb_read (soc_ahb soc) phys len"

definition soc_write :: "'s soc \<Rightarrow> u32 \<Rightarrow> u8 list \<Rightarrow> ('s, int) state" where
  "soc_write soc phys buf = ahb_write (soc_ahb soc) phys buf"

definition soc_generation :: "'s soc \<Rightarrow> ast_generation option" where
  "soc_generation soc = rev_generation (soc_rev soc)"

definition soc_stepping :: "'s soc \<Rightarrow> int" where
  "soc_stepping soc = rev_stepping (soc_rev soc)"

text \<open>\<open>fdts\<close> are the blobs the build links in, one per generation.\<close>

definition soc_from_rev :: "(ast_generation \<Rightarrow> fdt) \<Rightarrow> 's ahb \<Rightarrow> u32 \<Rightarrow> int + 's soc" where
  "soc_from_rev fdts ahb rv =
     (if \<not> (rev_is_generation rv ast_g4 \<or> rev_is_generation rv ast_g5 \<or> rev_is_generation rv ast_g6)
      then Inl (- ENOTSUP)
      else Inr \<lparr>soc_rev = rv, soc_fdt = fdts (the (rev_generation rv)), soc_ahb = ahb\<rparr>)"

text \<open>A match table is a list of compatible strings and their platform data.\<close>

fun soc_device_match_node :: "fdt \<Rightarrow> (string \<times> 'p) list \<Rightarrow> int + int" where
  "soc_device_match_node dt [] = Inl (- ENOENT)"
| "soc_device_match_node dt ((cmp, _) # table) =
     (if fdt_getprop_string dt 0 ''compatible'' = Some cmp then Inr 0
      else let rc = fdt_node_offset_by_compatible dt cmp
           in if rc \<ge> 0 then Inr rc
              else if rc \<noteq> - FDT_ERR_NOTFOUND then Inl (- EUCLEAN)
              else soc_device_match_node dt table)"

fun soc_device_is_compatible :: "fdt \<Rightarrow> (string \<times> 'p) list \<Rightarrow> int \<Rightarrow> int" where
  "soc_device_is_compatible dt [] node = 0"
| "soc_device_is_compatible dt ((cmp, _) # table) node =
     (let rc = fdt_node_check_compatible dt node cmp
      in if rc < 0 then - EUCLEAN
         else if rc = 0 then 1
         else soc_device_is_compatible dt table node)"

fun soc_device_get_match_data :: "fdt \<Rightarrow> (string \<times> 'p) list \<Rightarrow> int \<Rightarrow> 'p option" where
  "soc_device_get_match_data dt [] node = None"
| "soc_device_get_match_data dt ((cmp, data) # table) node =
     (let rc = fdt_node_check_compatible dt node cmp
      in if rc < 0 then None
         else if rc = 0 then Some data
         else soc_device_get_match_data dt table node)"

definition soc_device_from_name :: "fdt \<Rightarrow> string \<Rightarrow> int + int" where
  "soc_device_from_name dt name =
     (let path = (case fdt_get_alias dt name of Some p \<Rightarrow> p | None \<Rightarrow> name);
          rc = fdt_path_offset dt path
      in if rc < 0
         then if rc = - FDT_ERR_BADPATH then Inl (- EINVAL)
              else if rc = - FDT_ERR_NOTFOUND then Inl (- ENOENT)
              else Inl (- EUCLEAN)
         else Inr rc)"

text \<open>
  The loops over sibling nodes follow offsets, so they carry fuel; \<open>None\<close> is running out of
  it. In a blob of \<open>n\<close> bytes the offsets of siblings increase and stay below \<open>n\<close>, so fuel
  \<open>n + 1\<close> is enough (\<open>from_type_enough_fuel\<close>).
\<close>

fun soc_from_type_loop :: "nat \<Rightarrow> fdt \<Rightarrow> string \<Rightarrow> int \<Rightarrow> (int + int) option" where
  "soc_from_type_loop 0 dt type node = None"
| "soc_from_type_loop (Suc fuel) dt type node =
     (if node < 0
      then Some (Inl (if node \<noteq> - FDT_ERR_NOTFOUND then - EUCLEAN else - ENOENT))
      else if fdt_getprop_string dt node ''device_type'' = Some type then Some (Inr node)
      else soc_from_type_loop fuel dt type (fdt_next_subnode dt node))"

definition soc_device_from_type :: "nat \<Rightarrow> fdt \<Rightarrow> string \<Rightarrow> (int + int) option" where
  "soc_device_from_type fuel dt type = soc_from_type_loop fuel dt type (fdt_first_subnode dt 0)"

definition soc_device_resolve_node :: "fdt \<Rightarrow> int \<Rightarrow> int + int" where
  "soc_device_resolve_node dt node =
     (let parent = fdt_parent_offset dt node
      in if parent < 0 then Inl (- EINVAL)
         else Inr (if fdt_node_check_compatible dt parent ''simple-mfd'' = 0 then parent else node))"

definition soc_device_get_memory_index :: "fdt \<Rightarrow> int \<Rightarrow> nat \<Rightarrow> int + soc_region" where
  "soc_device_get_memory_index dt node index =
     rbind (soc_device_resolve_node dt node) (\<lambda>dn.
       case fdt_getprop_cells dt dn ''reg'' of
         None \<Rightarrow> Inl (- ENOENT)
       | Some (cells, len) \<Rightarrow>
           if len < int (8 * (index + 1)) then Inl (- EINVAL)
           else Inr \<lparr>rg_start = cells ! (2 * index), rg_length = cells ! (2 * index + 1)\<rparr>)"

definition soc_device_get_memory :: "fdt \<Rightarrow> int \<Rightarrow> int + soc_region" where
  "soc_device_get_memory dt node = soc_device_get_memory_index dt node 0"

definition soc_device_get_memory_region_named :: "fdt \<Rightarrow> int \<Rightarrow> string \<Rightarrow> int + soc_region" where
  "soc_device_get_memory_region_named dt node name =
     (let idx = fdt_stringlist_search dt node ''memory-region-names'' name
      in if idx < 0 then Inl (- ENOENT)
         else case fdt_getprop_cells dt node ''memory-region'' of
                None \<Rightarrow> Inl (- ENOENT)
              | Some (regions, len) \<Rightarrow>
                  if 4 * idx \<ge> len then Inl (- ERANGE)
                  else let offset = fdt_node_offset_by_phandle dt (regions ! nat idx)
                       in if offset < 0 then Inl (- EUCLEAN)
                          else soc_device_get_memory dt offset)"

section \<open>Binding drivers to nodes\<close>

text \<open>
  A driver is its name and the compatible strings it matches. A device that has been bound
  records its node, its driver and, once initialised, the driver's instance data.
\<close>

record soc_driver =
  sd_name :: string
  sd_matches :: "string list"

record 'd soc_device =
  dev_node :: int
  dev_driver :: soc_driver
  dev_data :: "'d option"

definition driver_for_node :: "fdt \<Rightarrow> soc_driver list \<Rightarrow> int \<Rightarrow> soc_driver option" where
  "driver_for_node dt drivers node =
     find (\<lambda>d. list_ex (\<lambda>c. fdt_node_check_compatible dt node c = 0) (sd_matches d)) drivers"

text \<open>
  \<open>soc_device_bind_driver\<close> and \<open>soc_bus_enumerate_devices\<close> recurse mutually: the children
  of a bus are bound before the bus itself. A newly bound device goes to the front. The
  result is the status and the device list; \<open>None\<close> is running out of fuel.
\<close>

fun soc_device_bind_driver ::
    "nat \<Rightarrow> fdt \<Rightarrow> soc_driver list \<Rightarrow> int \<Rightarrow> 'd soc_device list \<Rightarrow> (int \<times> 'd soc_device list) option"
  and soc_enumerate_loop ::
    "nat \<Rightarrow> fdt \<Rightarrow> soc_driver list \<Rightarrow> int \<Rightarrow> 'd soc_device list \<Rightarrow> (int \<times> 'd soc_device list) option" where
  "soc_device_bind_driver 0 dt drivers node devs = None"
| "soc_device_bind_driver (Suc fuel) dt drivers node devs =
     Option.bind
       (if fdt_node_check_compatible dt node ''simple-bus'' = 0 \<or>
           fdt_node_check_compatible dt node ''simple-mfd'' = 0
        then soc_enumerate_loop fuel dt drivers (fdt_first_subnode dt node) devs
        else Some (0, devs))
       (\<lambda>(rc, devs).
          if rc < 0 then Some (rc, devs)
          else case driver_for_node dt drivers node of
                 None \<Rightarrow> Some (0, devs)
               | Some d \<Rightarrow> Some (0, \<lparr>dev_node = node, dev_driver = d, dev_data = None\<rparr> # devs))"
| "soc_enumerate_loop 0 dt drivers node devs = None"
| "soc_enumerate_loop (Suc fuel) dt drivers node devs =
     (if node < 0
      then Some (if node \<noteq> - FDT_ERR_NOTFOUND then - EUCLEAN else 0, devs)
      else Option.bind (soc_device_bind_driver fuel dt drivers node devs) (\<lambda>(rc, devs).
             if rc < 0 then Some (rc, devs)
             else soc_enumerate_loop fuel dt drivers (fdt_next_subnode dt node) devs))"

definition soc_bind_drivers ::
  "nat \<Rightarrow> fdt \<Rightarrow> soc_driver list \<Rightarrow> 'd soc_device list \<Rightarrow> 'd soc_device list option" where
  "soc_bind_drivers fuel dt drivers devs =
     (if drivers \<noteq> []
      then map_option snd (soc_enumerate_loop fuel dt drivers (fdt_first_subnode dt 0) devs)
      else Some devs)"

section \<open>Driver instances\<close>

record ('w, 'd) soc_state =
  ss_world :: 'w
  ss_devices :: "'d soc_device list"

text \<open>
  \<open>init d node\<close> is the \<open>init\<close> of driver \<open>d\<close> on the device at \<open>node\<close>: a failing status, or
  the instance data it stores with \<open>soc_device_set_drvdata\<close>.
\<close>

definition set_drvdata :: "int \<Rightarrow> 'd \<Rightarrow> 'd soc_device list \<Rightarrow> 'd soc_device list" where
  "set_drvdata node d = map (\<lambda>dev. if dev_node dev = node then dev\<lparr>dev_data := Some d\<rparr> else dev)"

definition soc_device_init_driver ::
  "(soc_driver \<Rightarrow> int \<Rightarrow> (('w, 'd) soc_state, int + 'd) state) \<Rightarrow> 'd soc_device \<Rightarrow>
   (('w, 'd) soc_state, 'd option) state" where
  "soc_device_init_driver init dev =
     (case dev_data dev of
        Some d \<Rightarrow> ret (Some d)
      | None \<Rightarrow> do {
          r \<leftarrow> init (dev_driver dev) (dev_node dev);
          (case r of
             Inl _ \<Rightarrow> ret None
           | Inr d \<Rightarrow> do {
               _ \<leftarrow> modify (\<lambda>s. s\<lparr>ss_devices := set_drvdata (dev_node dev) d (ss_devices s)\<rparr>);
               ret (Some d) }) })"

definition soc_driver_get_drvdata ::
  "(soc_driver \<Rightarrow> int \<Rightarrow> (('w, 'd) soc_state, int + 'd) state) \<Rightarrow> string \<Rightarrow>
   (('w, 'd) soc_state, 'd option) state" where
  "soc_driver_get_drvdata init name = do {
     devs \<leftarrow> gets ss_devices;
     (case find (\<lambda>dev. sd_name (dev_driver dev) = name) devs of
        None \<Rightarrow> ret None
      | Some dev \<Rightarrow> soc_device_init_driver init dev) }"

definition soc_driver_get_drvdata_by_name ::
  "(soc_driver \<Rightarrow> int \<Rightarrow> (('w, 'd) soc_state, int + 'd) state) \<Rightarrow> fdt \<Rightarrow> string \<Rightarrow> string \<Rightarrow>
   (('w, 'd) soc_state, 'd option) state" where
  "soc_driver_get_drvdata_by_name init dt drv name =
     (case soc_device_from_name dt name of
        Inl _ \<Rightarrow> ret None
      | Inr node \<Rightarrow> do {
          devs \<leftarrow> gets ss_devices;
          (case find (\<lambda>dev. dev_node dev = node) devs of
             None \<Rightarrow> ret None
           | Some dev \<Rightarrow>
               if sd_name (dev_driver dev) \<noteq> drv then ret None else soc_device_init_driver init dev) })"

definition soc_driver_get_drvdata_by_node ::
  "(soc_driver \<Rightarrow> int \<Rightarrow> (('w, 'd) soc_state, int + 'd) state) \<Rightarrow> int \<Rightarrow>
   (('w, 'd) soc_state, 'd option) state" where
  "soc_driver_get_drvdata_by_node init node = do {
     devs \<leftarrow> gets ss_devices;
     (case find (\<lambda>dev. dev_node dev = node) devs of
        None \<Rightarrow> ret None
      | Some dev \<Rightarrow> soc_device_init_driver init dev) }"

text \<open>Unbinding destroys the instances, in list order, and forgets the devices.\<close>

definition soc_unbind_drivers ::
  "(soc_driver \<Rightarrow> 'd \<Rightarrow> (('w, 'd) soc_state, unit) state) \<Rightarrow> (('w, 'd) soc_state, unit) state" where
  "soc_unbind_drivers destroy = do {
     devs \<leftarrow> gets ss_devices;
     _ \<leftarrow> fold (\<lambda>dev m. do { _ \<leftarrow> m;
            (case dev_data dev of None \<Rightarrow> ret () | Some d \<Rightarrow> destroy (dev_driver dev) d) }) devs (ret ());
     modify (\<lambda>s. s\<lparr>ss_devices := []\<rparr>) }"

definition soc_probe ::
  "(ast_generation \<Rightarrow> fdt) \<Rightarrow> 's ahb \<Rightarrow> ('s, int + 's soc) state" where
  "soc_probe fdts ahb = do {
     rc \<leftarrow> rev_probe ahb;
     (if rc < 0 then ret (Inl rc)
      else ret (soc_from_rev fdts ahb (of_int rc))) }"

section \<open>Enough fuel\<close>

text \<open>
  Offsets in a blob: a child lies behind its parent, a sibling behind its predecessor, all
  inside the blob.
\<close>

definition fdt_offsets :: "nat \<Rightarrow> fdt \<Rightarrow> bool" where
  "fdt_offsets n dt \<longleftrightarrow>
     (\<forall>node. fdt_first_subnode dt node < 0 \<or> node < fdt_first_subnode dt node \<and> fdt_first_subnode dt node < int n) \<and>
     (\<forall>node. fdt_next_subnode dt node < 0 \<or> node < fdt_next_subnode dt node \<and> fdt_next_subnode dt node < int n)"

lemma first_subnode:
  "fdt_offsets n dt \<Longrightarrow> fdt_first_subnode dt node < 0 \<or> node < fdt_first_subnode dt node \<and> fdt_first_subnode dt node < int n"
  and next_subnode:
  "fdt_offsets n dt \<Longrightarrow> fdt_next_subnode dt node < 0 \<or> node < fdt_next_subnode dt node \<and> fdt_next_subnode dt node < int n"
  by (auto simp: fdt_offsets_def)

lemma from_type_loop_fuel:
  assumes "fdt_offsets n dt" "node < int n" "nat (int n - node) < fuel"
  shows "\<exists>r. soc_from_type_loop fuel dt type node = Some r"
  using assms(2,3)
proof (induction fuel arbitrary: node)
  case 0
  then show ?case by simp
next
  case (Suc fuel)
  consider "node < 0" | "0 \<le> node" "fdt_next_subnode dt node < 0"
    | "0 \<le> node" "node < fdt_next_subnode dt node" "fdt_next_subnode dt node < int n"
    using next_subnode [OF assms(1), of node] by linarith
  then show ?case
  proof cases
    case 2
    have "0 < fuel" using Suc.prems by simp
    with 2 show ?thesis by (cases fuel) simp_all
  next
    case 3
    then show ?thesis using Suc.IH [of "fdt_next_subnode dt node"] Suc.prems by simp
  qed simp
qed

lemma enumerate_fuel:
  fixes devs :: "'d soc_device list"
  assumes "fdt_offsets n dt"
  shows "node < int n \<Longrightarrow> 0 \<le> node \<Longrightarrow> 2 * nat (int n - node) < fuel \<Longrightarrow>
      \<exists>r. soc_device_bind_driver fuel dt drivers node devs = Some r"
    and "node < int n \<Longrightarrow> 2 * nat (int n - max 0 node) + 1 < fuel \<Longrightarrow>
      \<exists>r. soc_enumerate_loop fuel dt drivers node devs = Some r"
proof (induction fuel arbitrary: node devs)
  case 0
  {
    case 1
    then show ?case by simp
  next
    case 2
    then show ?case by simp
  }
next
  case (Suc fuel)
  {
    case 1
    let ?c = "fdt_first_subnode dt node"
    have "?c < int n \<and> 2 * nat (int n - max 0 ?c) + 1 < fuel \<or> ?c < 0 \<and> 0 < fuel"
      using first_subnode [OF assms, of node] 1 by auto
    then have "\<exists>r. soc_enumerate_loop fuel dt drivers ?c devs = Some r"
      using Suc(2) [of ?c devs] by (cases fuel) auto
    then show ?case by (auto split: option.split)
  next
    case 2
    let ?c = "fdt_next_subnode dt node"
    show ?case
    proof (cases "node < 0")
      case False
      then obtain rc devs' where r: "soc_device_bind_driver fuel dt drivers node devs = Some (rc, devs')"
        using Suc(1) [of node devs] 2 by fastforce
      have "?c < int n \<and> 2 * nat (int n - max 0 ?c) + 1 < fuel \<or> ?c < 0 \<and> 0 < fuel"
        using next_subnode [OF assms, of node] 2 False by auto
      then have "\<exists>r. soc_enumerate_loop fuel dt drivers ?c devs' = Some r"
        using Suc(2) [of ?c devs'] by (cases fuel) auto
      with r False show ?thesis by auto
    qed simp
  }
qed

section \<open>The devices a devicetree binds\<close>

text \<open>
  What is bound, said of the tree and not of the walk. A node is its offset, its
  children, and whether their list ends properly: libfdt ends it with
  \<open>- FDT_ERR_NOTFOUND\<close>, and with another status where the blob is damaged. \<open>dt_forest\<close>
  says that a list of trees is what the queries of the blob show from an offset on.
\<close>

datatype dt_node = DtNode int "dt_node list" bool

fun dt_offset :: "dt_node \<Rightarrow> int" where
  "dt_offset (DtNode off ts ok) = off"

fun dt_tree :: "fdt \<Rightarrow> dt_node \<Rightarrow> bool"
  and dt_forest :: "fdt \<Rightarrow> int \<Rightarrow> dt_node list \<Rightarrow> bool \<Rightarrow> bool" where
  "dt_tree dt (DtNode off ts ok) = dt_forest dt (fdt_first_subnode dt off) ts ok"
| "dt_forest dt off [] ok \<longleftrightarrow> off < 0 \<and> ok = (off = - FDT_ERR_NOTFOUND)"
| "dt_forest dt off (t # ts) ok \<longleftrightarrow>
     0 \<le> off \<and> dt_offset t = off \<and> dt_tree dt t \<and> dt_forest dt (fdt_next_subnode dt off) ts ok"

text \<open>
  The nodes in the order they are reached: of a bus its children first, of any other node
  none of them. \<open>None\<close> marks a damaged list of children, at which everything stops.
\<close>

definition dt_is :: "fdt \<Rightarrow> int \<Rightarrow> string list \<Rightarrow> bool" where
  "dt_is dt off cs \<longleftrightarrow> (\<exists>c \<in> set cs. fdt_node_check_compatible dt off c = 0)"

fun dt_reached :: "fdt \<Rightarrow> dt_node \<Rightarrow> int option list" where
  "dt_reached dt (DtNode off ts ok) =
     (if dt_is dt off [''simple-bus'', ''simple-mfd'']
      then concat (map (dt_reached dt) ts) @ (if ok then [] else [None]) else []) @ [Some off]"

text \<open>
  Of the drivers that know one of a node's compatible strings the first registered one is
  bound; a node known to none stays unbound. The last device bound heads the list.
\<close>

definition dt_binding :: "fdt \<Rightarrow> soc_driver list \<Rightarrow> int option \<Rightarrow> 'd soc_device list" where
  "dt_binding dt drivers v =
     map (\<lambda>d. \<lparr>dev_node = the v, dev_driver = d, dev_data = None\<rparr>)
       (take 1 (filter (\<lambda>d. dt_is dt (the v) (sd_matches d)) drivers))"

definition dt_bound :: "fdt \<Rightarrow> soc_driver list \<Rightarrow> int option list \<Rightarrow> 'd soc_device list" where
  "dt_bound dt drivers vs = rev (concat (map (dt_binding dt drivers) (takeWhile (\<lambda>v. v \<noteq> None) vs)))"

lemma dt_bound_append:
  "dt_bound dt drivers (vs @ ws) =
     (if None \<in> set vs then dt_bound dt drivers vs else dt_bound dt drivers ws @ dt_bound dt drivers vs)"
proof (cases "None \<in> set vs")
  case False
  then have a: "\<forall>v \<in> set vs. v \<noteq> None" by metis
  then have tw: "takeWhile (\<lambda>v. v \<noteq> None) vs = vs" by (simp only: takeWhile_eq_all_conv)
  show ?thesis using False a by (simp add: dt_bound_def takeWhile_append tw del: not_None_eq)
qed (auto simp: dt_bound_def takeWhile_append)

lemma dt_bound_simps [simp]:
  "dt_bound dt drivers [] = []" "dt_bound dt drivers (None # vs) = []"
  by (simp_all add: dt_bound_def)

lemma driver_binding:
  "(case driver_for_node dt drivers node of None \<Rightarrow> devs
    | Some d \<Rightarrow> \<lparr>dev_node = node, dev_driver = d, dev_data = None\<rparr> # devs) =
   dt_bound dt drivers [Some node] @ devs"
proof -
  have "driver_for_node dt drivers node =
      (case filter (\<lambda>d. dt_is dt node (sd_matches d)) drivers of [] \<Rightarrow> None | d # _ \<Rightarrow> Some d)"
    by (induction drivers) (simp_all add: driver_for_node_def dt_is_def list_ex_iff)
  then show ?thesis
    by (simp add: dt_bound_def dt_binding_def split: list.split)
qed

text \<open>The nodes reached in a list of children, and what a walk over reached nodes comes to.\<close>

definition dt_reached_all :: "fdt \<Rightarrow> dt_node list \<Rightarrow> bool \<Rightarrow> int option list" where
  "dt_reached_all dt ts ok = concat (map (dt_reached dt) ts) @ (if ok then [] else [None])"

definition dt_walked ::
  "fdt \<Rightarrow> soc_driver list \<Rightarrow> int option list \<Rightarrow> 'd soc_device list \<Rightarrow> int \<times> 'd soc_device list \<Rightarrow> bool" where
  "dt_walked dt drivers vs devs r \<longleftrightarrow>
     snd r = dt_bound dt drivers vs @ devs \<and> (fst r < 0) = (None \<in> set vs)"

lemma dt_walked_stop: "dt_walked dt drivers vs devs r \<Longrightarrow> fst r < 0 \<Longrightarrow> dt_walked dt drivers (vs @ ws) devs r"
  by (simp add: dt_walked_def dt_bound_append)

lemma dt_walked_on:
  "dt_walked dt drivers vs devs r \<Longrightarrow> \<not> fst r < 0 \<Longrightarrow> dt_walked dt drivers ws (snd r) q \<Longrightarrow>
     dt_walked dt drivers (vs @ ws) devs q"
  by (simp add: dt_walked_def dt_bound_append)

lemma bind_walked:
  assumes loop: "\<And>node ts ok r. soc_enumerate_loop fuel dt drivers node devs = Some r \<Longrightarrow> dt_forest dt node ts ok \<Longrightarrow>
      dt_walked dt drivers (dt_reached_all dt ts ok) devs r"
    and "soc_device_bind_driver (Suc fuel) dt drivers node devs = Some r" "dt_tree dt t" "dt_offset t = node"
  shows "dt_walked dt drivers (dt_reached dt t) devs r"
proof -
  obtain off cs ok where t: "t = DtNode off cs ok" by (cases t)
  with assms(3,4) have off: "off = node" "dt_forest dt (fdt_first_subnode dt node) cs ok" by auto
  let ?bus = "dt_is dt node [''simple-bus'', ''simple-mfd'']"
  let ?m = "if ?bus then soc_enumerate_loop fuel dt drivers (fdt_first_subnode dt node) devs else Some (0, devs)"
  let ?vs = "if ?bus then dt_reached_all dt cs ok else []"
  from assms(2) obtain q where m: "?m = Some q"
    by (auto simp: dt_is_def Option.bind_eq_Some_conv split: if_splits)
  then have w: "dt_walked dt drivers ?vs devs q"
    using loop [OF _ off(2)] by (cases ?bus) (auto simp: dt_walked_def)
  have r: "r = (if fst q < 0 then q else (0, dt_bound dt drivers [Some node] @ snd q))"
    using assms(2) m by (cases q) (auto simp add: dt_is_def simp flip: driver_binding split: option.splits if_splits)
  have "dt_walked dt drivers (?vs @ [Some node]) devs r"
  proof (cases "fst q < 0")
    case True
    from dt_walked_stop [OF w True] True r show ?thesis by simp
  next
    case False
    then have "dt_walked dt drivers [Some node] (snd q) r" using r by (simp add: dt_walked_def)
    from dt_walked_on [OF w False this] show ?thesis .
  qed
  moreover have "dt_reached dt t = ?vs @ [Some node]" using t off(1) by (simp add: dt_reached_all_def)
  ultimately show ?thesis by (simp only:)
qed

lemma loop_walked:
  fixes devs :: "'d soc_device list"
  assumes bind: "\<And>t r. soc_device_bind_driver fuel dt drivers node devs = Some r \<Longrightarrow> dt_tree dt t \<Longrightarrow>
      dt_offset t = node \<Longrightarrow> dt_walked dt drivers (dt_reached dt t) devs r"
    and loop: "\<And>node ts r (devs :: 'd soc_device list). soc_enumerate_loop fuel dt drivers node devs = Some r \<Longrightarrow> dt_forest dt node ts ok \<Longrightarrow>
      dt_walked dt drivers (dt_reached_all dt ts ok) devs r"
    and "soc_enumerate_loop (Suc fuel) dt drivers node devs = Some r" "dt_forest dt node ts ok"
  shows "dt_walked dt drivers (dt_reached_all dt ts ok) devs r"
proof (cases ts)
  case Nil
  with assms(3,4) show ?thesis by (auto simp: dt_walked_def dt_reached_all_def)
next
  case (Cons t ts')
  with assms(4) have t: "0 \<le> node" "dt_tree dt t" "dt_offset t = node"
    "dt_forest dt (fdt_next_subnode dt node) ts' ok" by auto
  from assms(3) t(1) obtain q where q: "soc_device_bind_driver fuel dt drivers node devs = Some q"
    "if fst q < 0 then r = q else soc_enumerate_loop fuel dt drivers (fdt_next_subnode dt node) (snd q) = Some r"
    by (auto simp: Option.bind_eq_Some_conv split: if_splits)
  note w = bind [OF q(1) t(2,3)]
  have "dt_walked dt drivers (dt_reached dt t @ dt_reached_all dt ts' ok) devs r"
  proof (cases "fst q < 0")
    case True
    from dt_walked_stop [OF w True] True q(2) show ?thesis by simp
  next
    case False
    with q(2) have "soc_enumerate_loop fuel dt drivers (fdt_next_subnode dt node) (snd q) = Some r" by simp
    from dt_walked_on [OF w False loop [OF this t(4)]] show ?thesis .
  qed
  then show ?thesis using Cons by (simp add: dt_reached_all_def)
qed

lemma enumerate_walked:
  fixes devs :: "'d soc_device list"
  shows "soc_device_bind_driver fuel dt drivers node devs = Some r \<Longrightarrow> dt_tree dt t \<Longrightarrow> dt_offset t = node \<Longrightarrow>
      dt_walked dt drivers (dt_reached dt t) devs r"
    and "soc_enumerate_loop fuel dt drivers node devs = Some r \<Longrightarrow> dt_forest dt node ts ok \<Longrightarrow>
      dt_walked dt drivers (dt_reached_all dt ts ok) devs r"
proof (induction fuel arbitrary: node devs r t ts ok)
  case 0
  {
    case 1
    then show ?case by simp
  next
    case 2
    then show ?case by simp
  }
next
  case (Suc fuel)
  {
    case 1
    from bind_walked [OF Suc(2) 1] show ?case .
  next
    case 2
    from loop_walked [OF Suc(1) Suc(2) 2] show ?case .
  }
qed

text \<open>Every blob whose offsets grow has such a description, damaged or not.\<close>

lemma dt_forest_exists:
  assumes "fdt_offsets n dt"
  shows "node < int n \<Longrightarrow> \<exists>ts ok. dt_forest dt node ts ok"
proof (induction "nat (int n - node)" arbitrary: node rule: less_induct)
  case less
  show ?case
  proof (cases "node < 0")
    case True
    then have "dt_forest dt node [] (node = - FDT_ERR_NOTFOUND)" by simp
    then show ?thesis by blast
  next
    case False
    have step: "\<exists>ts ok. dt_forest dt m ts ok" if "m < 0 \<or> node < m \<and> m < int n" for m
    proof (cases "m < 0")
      case True
      then have "dt_forest dt m [] (m = - FDT_ERR_NOTFOUND)" by simp
      then show ?thesis by blast
    qed (use that less in auto)
    obtain cs cok where "dt_forest dt (fdt_first_subnode dt node) cs cok"
      using step first_subnode [OF assms] by blast
    moreover obtain ts ok where "dt_forest dt (fdt_next_subnode dt node) ts ok"
      using step next_subnode [OF assms] by blast
    ultimately have "dt_forest dt node (DtNode node cs cok # ts) ok"
      using False by simp
    then show ?thesis by blast
  qed
qed

section \<open>Instances are created once\<close>

lemma find_map_same:
  "\<forall>x \<in> set xs. P (f x) = P x \<Longrightarrow> find P (map f xs) = map_option f (find P xs)"
  by (induction xs) auto

lemma find_key:
  "map g xs = map g ys \<Longrightarrow> find (\<lambda>x. P (g x)) xs = Some x \<Longrightarrow>
     \<exists>y. find (\<lambda>x. P (g x)) ys = Some y \<and> g y = g x"
proof (induction xs arbitrary: ys)
  case (Cons a xs)
  then show ?case by (cases ys) (auto split: if_splits)
qed simp

abbreviation dev_id :: "'d soc_device \<Rightarrow> int \<times> soc_driver" where
  "dev_id dev \<equiv> (dev_node dev, dev_driver dev)"

lemma find_set_drvdata:
  "find (\<lambda>dev. sd_name (dev_driver dev) = name) (set_drvdata node d devs) =
     map_option (\<lambda>dev. if dev_node dev = node then dev\<lparr>dev_data := Some d\<rparr> else dev)
       (find (\<lambda>dev. sd_name (dev_driver dev) = name) devs)"
  unfolding set_drvdata_def by (rule find_map_same) simp

text \<open>A small blob for the examples: a root with one memory node and one bus with one child.\<close>

definition example_fdt :: fdt where
  "example_fdt = \<lparr>
     fdt_node_check_compatible = (\<lambda>node c. if node = 20 \<and> c = ''simple-bus'' then 0
        else if node = 30 \<and> c = ''aspeed,ast2500-scu'' then 0 else 1),
     fdt_getprop_string = (\<lambda>node name. if node = 10 \<and> name = ''device_type'' then Some ''memory'' else None),
     fdt_getprop_cells = (\<lambda>node name. if name = ''reg'' then Some ([0x80000000, 0x20000000], 8) else None),
     fdt_node_offset_by_compatible = (\<lambda>c. - FDT_ERR_NOTFOUND),
     fdt_node_offset_by_phandle = (\<lambda>h. - FDT_ERR_NOTFOUND),
     fdt_get_alias = (\<lambda>name. None), fdt_path_offset = (\<lambda>path. - FDT_ERR_NOTFOUND),
     fdt_parent_offset = (\<lambda>node. if node = 30 then 20 else 0),
     fdt_first_subnode = (\<lambda>node. if node = 0 then 10 else if node = 20 then 30 else - FDT_ERR_NOTFOUND),
     fdt_next_subnode = (\<lambda>node. if node = 10 then 20 else - FDT_ERR_NOTFOUND),
     fdt_stringlist_search = (\<lambda>node prop name. - FDT_ERR_NOTFOUND) \<rparr>"

lemma example_fdt_offsets: "fdt_offsets 40 example_fdt"
  by (simp add: fdt_offsets_def example_fdt_def)

definition example_driver :: soc_driver where
  "example_driver = \<lparr>sd_name = ''scu'', sd_matches = [''aspeed,ast2500-scu'']\<rparr>"

section \<open>Properties\<close>

text \<open>
  Claim C29. Binding binds exactly the devices of the tree, in its order: on a blob of \<open>n\<close>
  bytes, in which children and later siblings lie at larger offsets, the mutually recursive
  walk finishes within \<open>2 n + 2\<close> levels, and the devices it puts before those already bound
  are, in reverse, one for each node reached - the children of a bus or an mfd before it, no
  child of any other node, nothing after a damaged list of children - that a registered
  driver knows, each with the first such driver and no instance. Each such blob has
  the description \<open>ts\<close> by \<open>dt_forest_exists\<close>.
\<close>

theorem soc_bind_drivers_total:
  assumes "fdt_offsets n dt" "dt_forest dt (fdt_first_subnode dt 0) ts ok"
  shows "soc_bind_drivers (2 * n + 2) dt drivers devs =
    Some (dt_bound dt drivers (concat (map (dt_reached dt) ts)) @ devs)"
proof (cases "drivers = []")
  case False
  let ?c = "fdt_first_subnode dt 0"
  have "\<exists>r. soc_enumerate_loop (2 * n + 2) dt drivers ?c devs = Some r"
    using enumerate_fuel(2) [OF assms(1), of ?c "2 * n + 2" drivers devs] first_subnode [OF assms(1), of 0]
    by (cases "?c < 0") auto
  then obtain r where r: "soc_enumerate_loop (2 * n + 2) dt drivers ?c devs = Some r" by blast
  from enumerate_walked(2) [OF this assms(2)] r False show ?thesis
    by (simp add: soc_bind_drivers_def dt_walked_def dt_reached_all_def dt_bound_append)
qed (simp add: soc_bind_drivers_def dt_bound_def dt_binding_def)

text \<open>
  The root has a memory node and a bus, and the bus a system controller: the memory stays
  unbound, the controller, known to two drivers, goes to the first, and before its bus.
\<close>

theorem soc_bind_drivers_total_witness:
  "soc_bind_drivers 82 example_fdt
     [example_driver, \<lparr>sd_name = ''bus'', sd_matches = [''x'', ''simple-bus'']\<rparr>,
      \<lparr>sd_name = ''late'', sd_matches = [''aspeed,ast2500-scu'', ''simple-bus'']\<rparr>]
     ([] :: nat soc_device list) =
   Some [\<lparr>dev_node = 20, dev_driver = \<lparr>sd_name = ''bus'', sd_matches = [''x'', ''simple-bus'']\<rparr>, dev_data = None\<rparr>,
     \<lparr>dev_node = 30, dev_driver = example_driver, dev_data = None\<rparr>]"
proof -
  let ?bus = "\<lparr>sd_name = ''bus'', sd_matches = [''x'', ''simple-bus'']\<rparr>"
  let ?drivers = "[example_driver, ?bus, \<lparr>sd_name = ''late'', sd_matches = [''aspeed,ast2500-scu'', ''simple-bus'']\<rparr>]"
  let ?ts = "[DtNode 10 [] True, DtNode 20 [DtNode 30 [] True] True]"
  have f: "dt_forest example_fdt (fdt_first_subnode example_fdt 0) ?ts True"
    by (simp add: example_fdt_def)
  have "soc_bind_drivers 82 example_fdt ?drivers ([] :: nat soc_device list) =
      Some (dt_bound example_fdt ?drivers (concat (map (dt_reached example_fdt) ?ts)))"
    using soc_bind_drivers_total [OF example_fdt_offsets f, of ?drivers "[]"] by simp
  moreover have "dt_bound example_fdt ?drivers (concat (map (dt_reached example_fdt) ?ts)) =
      [\<lparr>dev_node = 20, dev_driver = ?bus, dev_data = None\<rparr>,
       \<lparr>dev_node = 30, dev_driver = example_driver, dev_data = None :: nat option\<rparr>]"
    by (simp add: dt_bound_def dt_binding_def dt_is_def example_fdt_def example_driver_def)
  ultimately show ?thesis by simp
qed

text \<open>
  A driver instance is created at most once: when looking a driver up gives an
  instance, looking it up again gives the same instance, without running the driver's
  initialisation and without any change of state. The initialisation of a driver may look
  up and initialise others, but it does not rebind devices.
\<close>

theorem soc_driver_get_drvdata_once:
  fixes init :: "soc_driver \<Rightarrow> int \<Rightarrow> (('w, 'd) soc_state, int + 'd) state"
  assumes "\<And>d node s. map dev_id (ss_devices (snd (run_state (init d node) s))) = map dev_id (ss_devices s)"
    and "run_state (soc_driver_get_drvdata init name) s = (Some d, s')"
  shows "run_state (soc_driver_get_drvdata init name) s' = (Some d, s')"
proof -
  let ?P = "\<lambda>dev :: 'd soc_device. sd_name (dev_driver dev) = name"
  obtain dev where dev: "find ?P (ss_devices s) = Some dev"
    using assms(2) by (auto simp: soc_driver_get_drvdata_def split: option.splits)
  show ?thesis
  proof (cases "dev_data dev")
    case (Some d')
    with assms(2) dev show ?thesis
      by (simp add: soc_driver_get_drvdata_def soc_device_init_driver_def)
  next
    case None
    let ?r = "run_state (init (dev_driver dev) (dev_node dev)) s"
    have r: "fst ?r = Inr d"
      "s' = snd ?r\<lparr>ss_devices := set_drvdata (dev_node dev) d (ss_devices (snd ?r))\<rparr>"
      using assms(2) dev None
      by (auto simp: soc_driver_get_drvdata_def soc_device_init_driver_def split: sum.splits)
    have "map dev_id (ss_devices s) = map dev_id (ss_devices (snd ?r))"
      by (simp only: assms(1))
    from find_key [OF this, of "\<lambda>p. sd_name (snd p) = name" dev] dev
    obtain dev' where "find ?P (ss_devices (snd ?r)) = Some dev'" "dev_id dev' = dev_id dev"
      by auto
    then have "find ?P (ss_devices s') = Some (dev'\<lparr>dev_data := Some d\<rparr>)"
      by (simp add: r(2) find_set_drvdata)
    then show ?thesis by (simp add: soc_driver_get_drvdata_def soc_device_init_driver_def)
  qed
qed

theorem soc_driver_get_drvdata_once_witness:
  "run_state (soc_driver_get_drvdata (\<lambda>d node. ret (Inr (7 :: nat))) ''scu'')
     \<lparr>ss_world = (), ss_devices = [\<lparr>dev_node = 30, dev_driver = example_driver, dev_data = Some 7\<rparr>]\<rparr> =
   (Some 7, \<lparr>ss_world = (), ss_devices = [\<lparr>dev_node = 30, dev_driver = example_driver, dev_data = Some 7\<rparr>]\<rparr>)"
  by (rule soc_driver_get_drvdata_once [where s = "\<lparr>ss_world = (),
      ss_devices = [\<lparr>dev_node = 30, dev_driver = example_driver, dev_data = None\<rparr>]\<rparr>"])
    (simp_all add: soc_driver_get_drvdata_def soc_device_init_driver_def example_driver_def set_drvdata_def)

text \<open>
  Resource lookups stay inside the property they read: when libfdt's byte length of
  a \<open>reg\<close> property is that of its cells, \<open>soc_device_get_memory_index\<close> only succeeds with the
  two cells of the requested index, which exist, taken from the node itself or from its
  \<open>simple-mfd\<close> parent; every other outcome is one of its two error codes.
\<close>

theorem soc_memory_index_bounds:
  assumes "\<And>node name cells len. fdt_getprop_cells dt node name = Some (cells, len) \<Longrightarrow>
      len = int (4 * length cells)"
  shows "case soc_device_get_memory_index dt node index of
      Inr rg \<Rightarrow> \<exists>dn cells len. dn \<in> {node, fdt_parent_offset dt node} \<and>
        fdt_getprop_cells dt dn ''reg'' = Some (cells, len) \<and> 2 * index + 1 < length cells \<and>
        rg = \<lparr>rg_start = cells ! (2 * index), rg_length = cells ! (2 * index + 1)\<rparr>
    | Inl rc \<Rightarrow> rc \<in> {- EINVAL, - ENOENT}"
  using assms
  by (fastforce simp: soc_device_get_memory_index_def soc_device_resolve_node_def Let_def
      split: option.splits)

theorem soc_memory_index_bounds_witness:
  "case soc_device_get_memory_index example_fdt 10 0 of
     Inr rg \<Rightarrow> \<exists>dn cells len. dn \<in> {10, fdt_parent_offset example_fdt 10} \<and>
        fdt_getprop_cells example_fdt dn ''reg'' = Some (cells, len) \<and> 2 * 0 + 1 < length cells \<and>
        rg = \<lparr>rg_start = cells ! (2 * 0), rg_length = cells ! (2 * 0 + 1)\<rparr>
   | Inl rc \<Rightarrow> rc \<in> {- EINVAL, - ENOENT}"
  by (rule soc_memory_index_bounds) (auto simp: example_fdt_def split: if_splits)

end
