(* ===== verification/SocBus.thy ===== *)
theory SocBus
  imports Soc P2a
begin

text \<open>
  SoC register accesses over a register bus: the contract \<open>soc_bus\<close> that the drivers under
  \<^verbatim>\<open>src/soc/\<close> are proved against, and its interpretation on the P2A bridge.
\<close>

text \<open>Register addresses: an aligned block start plus an offset that is a multiple of four.\<close>

lemma word_aligned_add [simp]: "word_aligned a \<Longrightarrow> word_aligned (a + b) = word_aligned b"
proof -
  assume "word_aligned a"
  then have "4 dvd unat a" by (simp add: word_aligned_iff dvd_eq_mod_eq_0)
  have "unat (a + b) mod 4 = (unat a + unat b) mod 4"
    by (simp add: unat_word_ariths mod_mod_cancel)
  also have "\<dots> = unat b mod 4" using \<open>4 dvd unat a\<close> by (simp add: dvd_eq_mod_eq_0 mod_add_left_eq [symmetric])
  finally show ?thesis by (simp add: word_aligned_iff)
qed

lemma word_aligned_numeral [simp]:
  "word_aligned (numeral n) \<longleftrightarrow> (numeral n AND 3 :: u32) = 0" "word_aligned 0" "\<not> word_aligned 1"
  by (simp_all add: word_aligned_def)

locale soc_bus = reg_bus ops invar reg eff
  for ops :: "'s ahb_ops" and invar and reg :: "'s \<Rightarrow> u32 \<Rightarrow> u32" and eff +
  fixes soc :: "'s soc"
  assumes soc_ops: "ahb_ops (soc_ahb soc) = ops"
begin

lemma soc_readl [simp]:
  assumes "invar s" "word_aligned a"
  shows "fst (run_state (soc_readl soc a) s) = Inr (reg s a)"
    and "reg (snd (run_state (soc_readl soc a) s)) = reg s"
    and "invar (snd (run_state (soc_readl soc a) s))"
  using assms by (simp_all add: soc_readl_def ahb_readl_def soc_ops)

lemma soc_writel [simp]:
  assumes "invar s" "word_aligned a"
  shows "fst (run_state (soc_writel soc a v) s) = 0"
    and "reg (snd (run_state (soc_writel soc a v) s)) = eff (reg s) a v"
    and "invar (snd (run_state (soc_writel soc a v) s))"
  using assms by (simp_all add: soc_writel_def ahb_writel_def soc_ops)

end

section \<open>The bus behind the P2A bridge\<close>

definition p2a_ahb :: "'t target \<Rightarrow> 't p2a_hw p2ab ahb" where
  "p2a_ahb tgt = \<lparr>
     ahb_drv = \<lparr>drv_name = ''p2a'', drv_release = None, drv_reinit = None,
       drv_path_required = False, drv_local = False, drv_disabled = False\<rparr>,
     ahb_ops = p2ab_ahb_ops (p2a_mmio tgt) 0\<rparr>"

definition p2a_soc :: "u32 \<Rightarrow> fdt \<Rightarrow> 't target \<Rightarrow> 't p2a_hw p2ab soc" where
  "p2a_soc rv dt tgt = \<lparr>soc_rev = rv, soc_fdt = dt, soc_ahb = p2a_ahb tgt\<rparr>"

lemma p2a_soc_simps [simp]: "soc_fdt (p2a_soc rv dt tgt) = dt" "soc_rev (p2a_soc rv dt tgt) = rv"
  by (simp_all add: p2a_soc_def)

abbreviation p2a_ok :: "'t p2a_hw p2ab \<Rightarrow> bool" where
  "p2a_ok \<equiv> p2a_inv ph_rbar ph_open"

abbreviation p2a_regs :: "(u32 \<Rightarrow> u32) p2a_hw p2ab \<Rightarrow> u32 \<Rightarrow> u32" where
  "p2a_regs s \<equiv> ph_bus (p2_hw s)"

interpretation p2a_soc: soc_bus "p2ab_ahb_ops (p2a_mmio (regfile eff)) 0" p2a_ok p2a_regs eff
    "p2a_soc rv dt (regfile eff)"
  by unfold_locales (simp add: p2a_soc_def p2a_ahb_def)

section \<open>Devices with behaviour of their own\<close>

text \<open>
  Where loads have effects or a store does more than change registers, the device behind the
  bus is a target: \<open>soc_dev\<close> says that SoC accesses are exactly its loads and stores.
\<close>

locale soc_dev = ahb_bridge ops invar tgt bus
  for ops :: "'s ahb_ops" and invar and tgt :: "'t target" and bus +
  fixes soc :: "'s soc"
  assumes dev_ops: "ahb_ops (soc_ahb soc) = ops"
begin

lemma soc_readl [simp]:
  assumes "invar s" "word_aligned a"
  shows "fst (run_state (soc_readl soc a) s) = Inr (fst (run_state (tgt_ld32 tgt a) (bus s)))"
    and "bus (snd (run_state (soc_readl soc a) s)) = snd (run_state (tgt_ld32 tgt a) (bus s))"
    and "invar (snd (run_state (soc_readl soc a) s))"
  using assms by (simp_all add: soc_readl_def ahb_readl_def dev_ops readl_val readl_bus readl_inv)

lemma soc_writel [simp]:
  assumes "invar s" "word_aligned a"
  shows "fst (run_state (soc_writel soc a v) s) = 0"
    and "bus (snd (run_state (soc_writel soc a v) s)) = snd (run_state (tgt_st32 tgt a v) (bus s))"
    and "invar (snd (run_state (soc_writel soc a v) s))"
  using assms by (simp_all add: soc_writel_def ahb_writel_def dev_ops writel_rc writel_bus writel_inv)

end

context ahb_bridge
begin

lemma aside: "ahb_bridge (ops_beside ops) (\<lambda>p. invar (fst p)) tgt (\<lambda>p. bus (fst p))"
  by unfold_locales
    (simp_all add: ops_beside_def readl_val readl_bus readl_inv writel_rc writel_bus writel_inv)

end

text \<open>The P2A bridge next to other state of the process, such as its clock or its terminal.\<close>

definition p2a_soc_beside :: "u32 \<Rightarrow> fdt \<Rightarrow> 't target \<Rightarrow> ('t p2a_hw p2ab \<times> 'w) soc" where
  "p2a_soc_beside rv dt tgt = \<lparr>soc_rev = rv, soc_fdt = dt, soc_ahb = \<lparr>
     ahb_drv = \<lparr>drv_name = ''p2a'', drv_release = None, drv_reinit = None,
       drv_path_required = False, drv_local = False, drv_disabled = False\<rparr>,
     ahb_ops = ops_beside (p2ab_ahb_ops (p2a_mmio tgt) 0)\<rparr>\<rparr>"

interpretation p2a_dev: soc_dev "ops_beside (p2ab_ahb_ops (p2a_mmio tgt) 0)" "\<lambda>p. p2a_ok (fst p)" tgt
    "\<lambda>p. ph_bus (p2_hw (fst p))" "p2a_soc_beside rv dt tgt"
proof (rule soc_dev.intro)
  show "ahb_bridge (ops_beside (p2ab_ahb_ops (p2a_mmio tgt) 0)) (\<lambda>p. p2a_ok (fst p)) tgt
      (\<lambda>p. ph_bus (p2_hw (fst p)))"
    by (rule p2a_bridge.aside)
qed (simp add: soc_dev_axioms_def p2a_soc_beside_def)

end
