(* ===== verification/Strap.thy ===== *)
theory Strap
  imports SocBus
begin

text \<open>
  The system control unit, the strapping registers and the SuperIO decode control,
  \<^verbatim>\<open>src/soc/scu.c\<close>, \<^verbatim>\<open>src/soc/strap.c\<close> and \<^verbatim>\<open>src/soc/sioctl.c\<close>. The three SoC generations
  update their straps in three ways, by read-modify-write, by set and clear registers, and
  by set and clear registers behind write protection; \<open>strap_reg\<close> is the contract they
  share and the decode control relies on.
\<close>

section \<open>The system control unit\<close>

record scu =
  scu_refcnt :: int
  scu_was_locked :: bool
  scu_start :: u32

definition AST_SCU_PROT_KEY :: u32 where "AST_SCU_PROT_KEY = 0x000"
definition AST_SCU_PASSWORD :: u32 where "AST_SCU_PASSWORD = 0x1688a8a8"

definition scu_readl :: "'s soc \<Rightarrow> scu \<Rightarrow> u32 \<Rightarrow> ('s, int + u32) state" where
  "scu_readl soc scu r = soc_readl soc (scu_start scu + r)"

definition scu_writel :: "'s soc \<Rightarrow> scu \<Rightarrow> u32 \<Rightarrow> u32 \<Rightarrow> ('s, int) state" where
  "scu_writel soc scu r v = soc_writel soc (scu_start scu + r) v"

definition scu_is_locked :: "'s soc \<Rightarrow> scu \<Rightarrow> ('s, int + bool) state" where
  "scu_is_locked soc scu =
     valr_then (scu_readl soc scu AST_SCU_PROT_KEY) (\<lambda>value. ret (Inr (value = 0)))"

definition scu_unlock :: "'s soc \<Rightarrow> scu \<Rightarrow> ('s, int) state" where
  "scu_unlock soc scu = scu_writel soc scu AST_SCU_PROT_KEY AST_SCU_PASSWORD"

definition scu_lock :: "'s soc \<Rightarrow> scu \<Rightarrow> ('s, int) state" where
  "scu_lock soc scu = scu_writel soc scu AST_SCU_PROT_KEY (NOT AST_SCU_PASSWORD)"

definition scu_driver_init :: "'s soc \<Rightarrow> int \<Rightarrow> ('s, int + scu) state" where
  "scu_driver_init soc node =
     (case soc_device_get_memory (soc_fdt soc) node of
        Inl rc \<Rightarrow> ret (Inl rc)
      | Inr regs \<Rightarrow>
          let ctx = \<lparr>scu_refcnt = 1, scu_was_locked = False, scu_start = rg_start regs\<rparr>
          in valr_then (scu_is_locked soc ctx) (\<lambda>locked.
               let ctx = ctx\<lparr>scu_was_locked := locked\<rparr>
               in if locked then nzr_then (scu_unlock soc ctx) (ret (Inr ctx)) else ret (Inr ctx)))"

definition scu_get :: "scu \<Rightarrow> scu" where
  "scu_get ctx = ctx\<lparr>scu_refcnt := scu_refcnt ctx + 1\<rparr>"

text \<open>\<open>scu_put\<close>: \<open>None\<close> once the last reference is gone and the instance is freed.\<close>

definition scu_put :: "'s soc \<Rightarrow> scu \<Rightarrow> ('s, scu option) state" where
  "scu_put soc ctx =
     (let ctx = ctx\<lparr>scu_refcnt := scu_refcnt ctx - 1\<rparr>
      in if scu_refcnt ctx = 0
         then do { _ \<leftarrow> (if scu_was_locked ctx then scu_lock soc ctx else ret 0); ret None }
         else ret (Some ctx))"

section \<open>Strapping registers\<close>

record 's strap_ops =
  st_read :: "u32 \<Rightarrow> ('s, int + u32) state"
  st_set :: "u32 \<Rightarrow> u32 \<Rightarrow> u32 \<Rightarrow> ('s, int) state"
  st_clear :: "u32 \<Rightarrow> u32 \<Rightarrow> u32 \<Rightarrow> ('s, int) state"

definition strap_read :: "'s strap_ops \<Rightarrow> u32 \<Rightarrow> ('s, int + u32) state" where
  "strap_read st r = st_read st r"

definition strap_set :: "'s strap_ops \<Rightarrow> u32 \<Rightarrow> u32 \<Rightarrow> u32 \<Rightarrow> ('s, int) state" where
  "strap_set st r upd msk = st_set st r upd msk"

definition strap_clear :: "'s strap_ops \<Rightarrow> u32 \<Rightarrow> u32 \<Rightarrow> u32 \<Rightarrow> ('s, int) state" where
  "strap_clear st r upd msk = st_clear st r upd msk"

abbreviation AST2400_SCU_HW_STRAP1 :: u32 where "AST2400_SCU_HW_STRAP1 \<equiv> 0x070"
abbreviation AST2400_SCU_HW_STRAP2 :: u32 where "AST2400_SCU_HW_STRAP2 \<equiv> 0x0d0"
abbreviation AST2500_SCU_HW_STRAP :: u32 where "AST2500_SCU_HW_STRAP \<equiv> 0x070"
abbreviation AST2500_SCU_SILICON_ID :: u32 where "AST2500_SCU_SILICON_ID \<equiv> 0x07c"
abbreviation AST2600_SCU_HW_STRAP1 :: u32 where "AST2600_SCU_HW_STRAP1 \<equiv> 0x500"
abbreviation AST2600_SCU_HW_STRAP2 :: u32 where "AST2600_SCU_HW_STRAP2 \<equiv> 0x510"
abbreviation AST2600_SCU_HW_STRAP3 :: u32 where "AST2600_SCU_HW_STRAP3 \<equiv> 0x51c"

definition ast2400_strap_read :: "'s soc \<Rightarrow> scu \<Rightarrow> u32 \<Rightarrow> ('s, int + u32) state" where
  "ast2400_strap_read soc scu r =
     (if \<not> (r = AST2400_SCU_HW_STRAP1 \<or> r = AST2400_SCU_HW_STRAP2) then ret (Inl (- EINVAL))
      else scu_readl soc scu r)"

definition ast2400_strap_set :: "'s soc \<Rightarrow> scu \<Rightarrow> u32 \<Rightarrow> u32 \<Rightarrow> u32 \<Rightarrow> ('s, int) state" where
  "ast2400_strap_set soc scu r upd msk =
     (if \<not> (r = AST2400_SCU_HW_STRAP1 \<or> r = AST2400_SCU_HW_STRAP2) then ret (- EINVAL)
      else if upd AND NOT msk \<noteq> 0 then ret (- EINVAL)
      else val_then (scu_readl soc scu r) (\<lambda>val. scu_writel soc scu r (val OR upd)))"

definition ast2400_strap_clear :: "'s soc \<Rightarrow> scu \<Rightarrow> u32 \<Rightarrow> u32 \<Rightarrow> u32 \<Rightarrow> ('s, int) state" where
  "ast2400_strap_clear soc scu r upd msk =
     (if \<not> (r = AST2400_SCU_HW_STRAP1 \<or> r = AST2400_SCU_HW_STRAP2) then ret (- EINVAL)
      else if upd AND NOT msk \<noteq> 0 then ret (- EINVAL)
      else val_then (scu_readl soc scu r) (\<lambda>val. scu_writel soc scu r (val AND NOT upd)))"

definition ast2500_strap_read :: "'s soc \<Rightarrow> scu \<Rightarrow> u32 \<Rightarrow> ('s, int + u32) state" where
  "ast2500_strap_read soc scu r =
     (if r \<noteq> AST2500_SCU_HW_STRAP then ret (Inl (- EINVAL)) else scu_readl soc scu r)"

definition ast2500_strap_set :: "'s soc \<Rightarrow> scu \<Rightarrow> u32 \<Rightarrow> u32 \<Rightarrow> u32 \<Rightarrow> ('s, int) state" where
  "ast2500_strap_set soc scu r upd msk =
     (if r \<noteq> AST2500_SCU_HW_STRAP \<or> upd AND NOT msk \<noteq> 0 then ret (- EINVAL)
      else scu_writel soc scu r upd)"

definition ast2500_strap_clear :: "'s soc \<Rightarrow> scu \<Rightarrow> u32 \<Rightarrow> u32 \<Rightarrow> u32 \<Rightarrow> ('s, int) state" where
  "ast2500_strap_clear soc scu r upd msk =
     (if r \<noteq> AST2500_SCU_HW_STRAP \<or> upd AND NOT msk \<noteq> 0 then ret (- EINVAL)
      else scu_writel soc scu AST2500_SCU_SILICON_ID upd)"

definition ast2600_strap_known :: "u32 \<Rightarrow> bool" where
  "ast2600_strap_known r \<longleftrightarrow>
     r = AST2600_SCU_HW_STRAP1 \<or> r = AST2600_SCU_HW_STRAP2 \<or> r = AST2600_SCU_HW_STRAP3"

definition ast2600_strap_read :: "'s soc \<Rightarrow> scu \<Rightarrow> u32 \<Rightarrow> ('s, int + u32) state" where
  "ast2600_strap_read soc scu r =
     (if \<not> ast2600_strap_known r then ret (Inl (- EINVAL)) else scu_readl soc scu r)"

definition ast2600_strap_is_protected :: "'s soc \<Rightarrow> scu \<Rightarrow> u32 \<Rightarrow> u32 \<Rightarrow> ('s, int) state" where
  "ast2600_strap_is_protected soc scu r msk =
     (if r = AST2600_SCU_HW_STRAP3 then ret 0
      else if r = AST2600_SCU_HW_STRAP1 \<or> r = AST2600_SCU_HW_STRAP2
      then val_then (scu_readl soc scu (r + 8)) (\<lambda>protect. ret (if protect AND msk \<noteq> 0 then 1 else 0))
      else ret (- EINVAL))"

definition ast2600_strap_set :: "'s soc \<Rightarrow> scu \<Rightarrow> u32 \<Rightarrow> u32 \<Rightarrow> u32 \<Rightarrow> ('s, int) state" where
  "ast2600_strap_set soc scu r upd msk =
     (if \<not> ast2600_strap_known r then ret (- EINVAL)
      else if upd AND NOT msk \<noteq> 0 then ret (- EINVAL)
      else do {
        rc \<leftarrow> ast2600_strap_is_protected soc scu r msk;
        (if rc < 0 then ret rc
         else if rc \<noteq> 0 then ret (- EPERM)
         else scu_writel soc scu r upd) })"

definition ast2600_strap_clear :: "'s soc \<Rightarrow> scu \<Rightarrow> u32 \<Rightarrow> u32 \<Rightarrow> u32 \<Rightarrow> ('s, int) state" where
  "ast2600_strap_clear soc scu r upd msk =
     (if upd AND NOT msk \<noteq> 0 then ret (- EINVAL)
      else do {
        rc \<leftarrow> ast2600_strap_is_protected soc scu r msk;
        (if rc < 0 then ret rc
         else if rc \<noteq> 0 then ret (- EPERM)
         else if r = AST2600_SCU_HW_STRAP1 \<or> r = AST2600_SCU_HW_STRAP2
         then scu_writel soc scu (r + 4) upd
         else if r = AST2600_SCU_HW_STRAP3
         then val_then (scu_readl soc scu r) (\<lambda>val. scu_writel soc scu r (val AND NOT (upd AND msk)))
         else ret (- EINVAL)) })"

definition ast2400_strap_ops :: "'s soc \<Rightarrow> scu \<Rightarrow> 's strap_ops" where
  "ast2400_strap_ops soc scu = \<lparr>st_read = ast2400_strap_read soc scu,
     st_set = ast2400_strap_set soc scu, st_clear = ast2400_strap_clear soc scu\<rparr>"

definition ast2500_strap_ops :: "'s soc \<Rightarrow> scu \<Rightarrow> 's strap_ops" where
  "ast2500_strap_ops soc scu = \<lparr>st_read = ast2500_strap_read soc scu,
     st_set = ast2500_strap_set soc scu, st_clear = ast2500_strap_clear soc scu\<rparr>"

definition ast2600_strap_ops :: "'s soc \<Rightarrow> scu \<Rightarrow> 's strap_ops" where
  "ast2600_strap_ops soc scu = \<lparr>st_read = ast2600_strap_read soc scu,
     st_set = ast2600_strap_set soc scu, st_clear = ast2600_strap_clear soc scu\<rparr>"

definition strap_matches :: "(string \<times> ('s soc \<Rightarrow> scu \<Rightarrow> 's strap_ops)) list" where
  "strap_matches = [(''aspeed,ast2400-strapping'', ast2400_strap_ops),
     (''aspeed,ast2500-strapping'', ast2500_strap_ops), (''aspeed,ast2600-strapping'', ast2600_strap_ops)]"

text \<open>
  \<open>strap_driver_init\<close>: the SCU instance and the operations for the node. A node without
  match data leaves the operations \<open>NULL\<close>.
\<close>

definition strap_driver_init ::
  "'s soc \<Rightarrow> scu option \<Rightarrow> int \<Rightarrow> int + scu \<times> 's strap_ops option" where
  "strap_driver_init soc scu node =
     (case scu of
        None \<Rightarrow> Inl (- ENODEV)
      | Some scu \<Rightarrow>
          Inr (scu_get scu, map_option (\<lambda>mk. mk soc scu)
                 (soc_device_get_match_data (soc_fdt soc) strap_matches node)))"

section \<open>SuperIO decode control\<close>

datatype sioctl_decode = sioctl_decode_disable | sioctl_decode_2e | sioctl_decode_4e

record sioctl_pdata =
  sp_reg :: u32
  sp_disable :: u32
  sp_select :: u32

definition ast2400_sioctl_pdata :: sioctl_pdata where
  "ast2400_sioctl_pdata = \<lparr>sp_reg = 0x070, sp_disable = push_bit 20 1, sp_select = push_bit 16 1\<rparr>"

definition ast2600_sioctl_pdata :: sioctl_pdata where
  "ast2600_sioctl_pdata = \<lparr>sp_reg = 0x510, sp_disable = push_bit 3 1, sp_select = push_bit 2 1\<rparr>"

definition sioctl_decode_configure ::
  "'s strap_ops \<Rightarrow> sioctl_pdata \<Rightarrow> sioctl_decode \<Rightarrow> ('s, int) state" where
  "sioctl_decode_configure st pd mode =
     (if mode = sioctl_decode_disable
      then strap_set st (sp_reg pd) (sp_disable pd) (sp_disable pd)
      else neg_then
        (if mode = sioctl_decode_4e
         then strap_set st (sp_reg pd) (sp_select pd) (sp_select pd)
         else strap_clear st (sp_reg pd) (sp_select pd) (sp_select pd))
        (strap_clear st (sp_reg pd) (sp_disable pd) (sp_disable pd)))"

definition sioctl_decode_status ::
  "'s strap_ops \<Rightarrow> sioctl_pdata \<Rightarrow> ('s, int + sioctl_decode) state" where
  "sioctl_decode_status st pd =
     valr_then (strap_read st (sp_reg pd)) (\<lambda>strap.
       if strap AND sp_disable pd \<noteq> 0 then ret (Inr sioctl_decode_disable)
       else ret (Inr (if strap AND sp_select pd \<noteq> 0 then sioctl_decode_4e else sioctl_decode_2e)))"

definition sioctl_matches :: "(string \<times> sioctl_pdata) list" where
  "sioctl_matches = [(''aspeed,ast2400-superio'', ast2400_sioctl_pdata),
     (''aspeed,ast2500-superio'', ast2400_sioctl_pdata), (''aspeed,ast2600-superio'', ast2600_sioctl_pdata)]"

definition sioctl_driver_init ::
  "fdt \<Rightarrow> 's strap_ops option \<Rightarrow> int \<Rightarrow> int + soc_region \<times> sioctl_pdata \<times> 's strap_ops" where
  "sioctl_driver_init dt strap node =
     rbind (soc_device_get_memory dt node) (\<lambda>scu.
       case soc_device_get_match_data dt sioctl_matches node of
         None \<Rightarrow> Inl (- EINVAL)
       | Some pd \<Rightarrow> (case strap of None \<Rightarrow> Inl (- ENODEV) | Some st \<Rightarrow> Inr (scu, pd, st)))"

section \<open>The contract of a strapping register\<close>

locale strap_reg =
  fixes st :: "'s strap_ops"
    and r :: u32
    and ok :: "'s \<Rightarrow> bool"
    and val :: "'s \<Rightarrow> u32"
  assumes read_ok: "ok s \<Longrightarrow> s' = snd (run_state (st_read st r) s) \<Longrightarrow>
      fst (run_state (st_read st r) s) = Inr (val s) \<and> ok s' \<and> val s' = val s"
    and set_ok: "ok s \<Longrightarrow> u AND NOT m = 0 \<Longrightarrow> s' = snd (run_state (st_set st r u m) s) \<Longrightarrow>
      fst (run_state (st_set st r u m) s) = 0 \<and> ok s' \<and> val s' = val s OR u"
    and clear_ok: "ok s \<Longrightarrow> u AND NOT m = 0 \<Longrightarrow> s' = snd (run_state (st_clear st r u m) s) \<Longrightarrow>
      fst (run_state (st_clear st r u m) s) = 0 \<and> ok s' \<and> val s' = val s AND NOT u"

definition sioctl_bits :: "sioctl_pdata \<Rightarrow> bool" where
  "sioctl_bits pd \<longleftrightarrow> sp_disable pd \<noteq> 0 \<and> sp_select pd \<noteq> 0 \<and> sp_disable pd AND sp_select pd = 0"

lemma sioctl_bits_pdata [simp]: "sioctl_bits ast2400_sioctl_pdata" "sioctl_bits ast2600_sioctl_pdata"
  by (simp_all add: sioctl_bits_def ast2400_sioctl_pdata_def ast2600_sioctl_pdata_def)

lemma and_not_self [simp]: "x AND NOT x = (0 :: u32)"
  by (simp add: bit_eq_iff bit_simps)

lemma or_and_self [simp]: "(x OR y) AND y = (y :: u32)" "(x AND NOT y) AND y = 0"
  by (rule bit_word_eqI; auto simp: bit_simps)+

lemma and_not_disjoint: "y AND z = 0 \<Longrightarrow> (x AND NOT y) AND z = x AND (z :: u32)"
  "y AND z = 0 \<Longrightarrow> z AND y = (0 :: u32)"
  by (rule bit_word_eqI; auto simp: bit_simps bit_eq_iff)+

definition decoded :: "sioctl_pdata \<Rightarrow> u32 \<Rightarrow> sioctl_decode" where
  "decoded pd v = (if v AND sp_disable pd \<noteq> 0 then sioctl_decode_disable
     else if v AND sp_select pd \<noteq> 0 then sioctl_decode_4e else sioctl_decode_2e)"

context strap_reg
begin

lemma set_simps [simp]:
  assumes "ok s"
  shows "fst (run_state (st_set st r u u) s) = 0" "ok (snd (run_state (st_set st r u u) s))"
    "val (snd (run_state (st_set st r u u) s)) = val s OR u"
    "fst (run_state (st_clear st r u u) s) = 0" "ok (snd (run_state (st_clear st r u u) s))"
    "val (snd (run_state (st_clear st r u u) s)) = val s AND NOT u"
  using set_ok [OF assms _ refl, of u u] clear_ok [OF assms _ refl, of u u] by simp_all

lemma decode_configure:
  assumes "ok s" "sp_reg pd = r" "sioctl_bits pd"
  shows "fst (run_state (sioctl_decode_configure st pd mode) s) = 0"
    and "ok (snd (run_state (sioctl_decode_configure st pd mode) s))"
    and "decoded pd (val (snd (run_state (sioctl_decode_configure st pd mode) s))) = mode"
  using assms
  by (cases mode; auto simp: sioctl_decode_configure_def strap_set_def strap_clear_def decoded_def
      sioctl_bits_def and_not_disjoint; fail)+

lemma decode_status:
  assumes "ok s" "sp_reg pd = r"
  shows "fst (run_state (sioctl_decode_status st pd) s) = Inr (decoded pd (val s))"
    and "ok (snd (run_state (sioctl_decode_status st pd) s))"
    and "val (snd (run_state (sioctl_decode_status st pd) s)) = val s"
  using read_ok [OF assms(1) refl] assms(2)
  by (simp_all add: sioctl_decode_status_def strap_read_def decoded_def)

end

section \<open>The three generations\<close>

text \<open>
  The documented effect of a store on the strapping registers of a SCU at \<open>b\<close>: plain on the
  AST2400; on the AST2500 a store sets the written bits, and a store to the silicon
  identity register clears them; on the AST2600 each of the first two registers has a
  clear register behind it.
\<close>

definition strap2500_eff :: "u32 \<Rightarrow> (u32 \<Rightarrow> u32) \<Rightarrow> u32 \<Rightarrow> u32 \<Rightarrow> (u32 \<Rightarrow> u32)" where
  "strap2500_eff b r a v =
     (if a = b + 0x70 then r(a := r a OR v)
      else if a = b + 0x7c then r(b + 0x70 := r (b + 0x70) AND NOT v)
      else r(a := v))"

definition strap2600_eff :: "u32 \<Rightarrow> (u32 \<Rightarrow> u32) \<Rightarrow> u32 \<Rightarrow> u32 \<Rightarrow> (u32 \<Rightarrow> u32)" where
  "strap2600_eff b r a v =
     (if a = b + 0x500 \<or> a = b + 0x510 then r(a := r a OR v)
      else if a = b + 0x504 then r(b + 0x500 := r (b + 0x500) AND NOT v)
      else if a = b + 0x514 then r(b + 0x510 := r (b + 0x510) AND NOT v)
      else r(a := v))"

lemma strap2400:
  assumes "soc_bus ops invar reg plain_eff soc" "word_aligned (scu_start scu)" "r \<in> {0x070, 0x0d0}"
  shows "strap_reg (ast2400_strap_ops soc scu) r invar (\<lambda>s. reg s (scu_start scu + r))"
  using assms(2,3) soc_bus.soc_readl [OF assms(1)] soc_bus.soc_writel [OF assms(1)]
  by unfold_locales
    (auto simp: ast2400_strap_ops_def ast2400_strap_read_def ast2400_strap_set_def
      ast2400_strap_clear_def scu_readl_def scu_writel_def plain_eff_def)

lemma strap2500:
  assumes "soc_bus ops invar reg (strap2500_eff (scu_start scu)) soc" "word_aligned (scu_start scu)"
  shows "strap_reg (ast2500_strap_ops soc scu) 0x070 invar (\<lambda>s. reg s (scu_start scu + 0x070))"
  using assms(2) soc_bus.soc_readl [OF assms(1)] soc_bus.soc_writel [OF assms(1)]
  by unfold_locales
    (auto simp: ast2500_strap_ops_def ast2500_strap_read_def ast2500_strap_set_def
      ast2500_strap_clear_def scu_readl_def scu_writel_def strap2500_eff_def)

text \<open>On the AST2600, while the register is not write protected.\<close>

lemma strap2600:
  assumes "soc_bus ops invar reg (strap2600_eff (scu_start scu)) soc" "word_aligned (scu_start scu)"
    and "r \<in> {0x500, 0x510}"
  shows "strap_reg (ast2600_strap_ops soc scu) r
    (\<lambda>s. invar s \<and> reg s (scu_start scu + r + 8) = 0) (\<lambda>s. reg s (scu_start scu + r))"
  using assms(2,3) soc_bus.soc_readl [OF assms(1)] soc_bus.soc_writel [OF assms(1)]
  by unfold_locales
    (auto simp: ast2600_strap_ops_def ast2600_strap_read_def ast2600_strap_set_def add.assoc
      ast2600_strap_clear_def ast2600_strap_is_protected_def ast2600_strap_known_def
      scu_readl_def scu_writel_def strap2600_eff_def)

text \<open>The controllers behind the P2A bridge.\<close>

definition scu_at :: "u32 \<Rightarrow> scu" where
  "scu_at b = \<lparr>scu_refcnt = 1, scu_was_locked = False, scu_start = b\<rparr>"

lemma scu_at_start [simp]: "scu_start (scu_at b) = b"
  by (simp add: scu_at_def)

interpretation strap2400: strap_reg "ast2400_strap_ops (p2a_soc rv dt (regfile plain_eff)) (scu_at 0x1e6e2000)"
    "0x070" p2a_ok "\<lambda>s. p2a_regs s 0x1e6e2070"
  using strap2400 [OF p2a_soc.soc_bus_axioms, of "scu_at 0x1e6e2000" "0x070"] by simp

interpretation strap2500: strap_reg
    "ast2500_strap_ops (p2a_soc rv dt (regfile (strap2500_eff 0x1e6e2000))) (scu_at 0x1e6e2000)"
    "0x070" p2a_ok "\<lambda>s. p2a_regs s 0x1e6e2070"
  using strap2500 [OF p2a_soc.soc_bus_axioms [where eff = "strap2500_eff (scu_start (scu_at 0x1e6e2000))"]]
  by simp

interpretation strap2600: strap_reg
    "ast2600_strap_ops (p2a_soc rv dt (regfile (strap2600_eff 0x1e6e2000))) (scu_at 0x1e6e2000)"
    "0x510" "\<lambda>s. p2a_ok s \<and> p2a_regs s 0x1e6e2518 = 0" "\<lambda>s. p2a_regs s 0x1e6e2510"
  using strap2600 [OF p2a_soc.soc_bus_axioms [where eff = "strap2600_eff (scu_start (scu_at 0x1e6e2000))"],
      where r = "0x510"]
  by simp

text \<open>
  The documented effect of a store on the SCU: the password opens it, any other value
  closes it, the key register reads as 1 while it is open, and while it is closed the
  other registers ignore stores.
\<close>

definition scu_eff :: "u32 \<Rightarrow> (u32 \<Rightarrow> u32) \<Rightarrow> u32 \<Rightarrow> u32 \<Rightarrow> (u32 \<Rightarrow> u32)" where
  "scu_eff b r a v =
     (if a = b then r(b := (if v = AST_SCU_PASSWORD then 1 else 0))
      else if r b = 0 \<and> unat (a - b) < 0x1000 then r
      else r(a := v))"

section \<open>Properties\<close>

text \<open>
  The SCU lock is given back as it was found: \<open>scu_driver_init\<close> succeeds, leaves the
  SCU open with no other register changed, and dropping the last reference restores every
  register, the lock included, whether the SCU was locked or open; dropping an earlier
  reference touches nothing.
\<close>

theorem scu_lock_restored:
  assumes "soc_bus ops invar reg (scu_eff (rg_start rg)) soc" "invar s"
    and "soc_device_get_memory (soc_fdt soc) node = Inr rg" "unat (rg_start rg) mod 4 = 0"
    and "reg s (rg_start rg) \<in> {0, 1}"
    and "r = run_state (scu_driver_init soc node) s"
  shows "\<exists>ctx. fst r = Inr ctx \<and> reg (snd r) = (reg s)(rg_start rg := 1) \<and>
    fst (run_state (scu_put soc ctx) (snd r)) = None \<and>
    reg (snd (run_state (scu_put soc ctx) (snd r))) = reg s \<and>
    run_state (scu_put soc (scu_get ctx)) (snd r) = (Some ctx, snd r)"
proof -
  note [simp] = soc_bus.soc_readl [OF assms(1)] soc_bus.soc_writel [OF assms(1)]
  have "word_aligned (rg_start rg)" using assms(4) by (simp add: word_aligned_iff)
  then show ?thesis
    using assms(2,3,5,6)
    by (auto simp: scu_driver_init_def scu_is_locked_def scu_readl_def scu_writel_def scu_unlock_def
        scu_lock_def scu_put_def scu_get_def AST_SCU_PROT_KEY_def AST_SCU_PASSWORD_def scu_eff_def
        Let_def fun_eq_iff)
qed

theorem scu_lock_restored_witness:
  "\<exists>ctx. fst (run_state (scu_driver_init (p2a_soc 0x04030303 example_fdt (regfile (scu_eff 0x80000000))) 10)
     (p2a_start (\<lambda>_. 0))) = Inr ctx"
proof -
  have "soc_device_get_memory example_fdt 10 = Inr \<lparr>rg_start = 0x80000000, rg_length = 0x20000000\<rparr>"
    by (simp add: soc_device_get_memory_def soc_device_get_memory_index_def
        soc_device_resolve_node_def example_fdt_def)
  then show ?thesis
    using scu_lock_restored [OF p2a_soc.soc_bus_axioms [where rv = "0x04030303" and dt = example_fdt
        and eff = "scu_eff (rg_start \<lparr>rg_start = 0x80000000, rg_length = 0x20000000\<rparr>)"] _ _ _ _ refl,
        where node = 10 and s = "p2a_start (\<lambda>_. 0)"]
    by auto
qed

text \<open>
  Claim C30. Configuring the SuperIO decode and reading its status agree on every generation:
  over any strapping register that meets the contract, with the platform's disjoint disable
  and select bits, \<open>sioctl_decode_configure\<close> succeeds and \<open>sioctl_decode_status\<close> then reports
  the configured mode without changing the strap.
\<close>

theorem sioctl_decode_roundtrip:
  assumes "strap_reg st (sp_reg pd) ok val" "ok s" "pd \<in> {ast2400_sioctl_pdata, ast2600_sioctl_pdata}"
    and "s' = snd (run_state (sioctl_decode_configure st pd mode) s)"
  shows "fst (run_state (sioctl_decode_configure st pd mode) s) = 0 \<and>
    fst (run_state (sioctl_decode_status st pd) s') = Inr mode \<and>
    val (snd (run_state (sioctl_decode_status st pd) s')) = val s'"
proof -
  have bits: "sioctl_bits pd" using assms(3) by auto
  note c = strap_reg.decode_configure [OF assms(1,2) refl bits, of mode, folded assms(4)]
  show ?thesis using c strap_reg.decode_status [OF assms(1) c(2) refl] by simp
qed

lemma sp_reg_2400: "0x070 = sp_reg ast2400_sioctl_pdata"
  by (simp add: ast2400_sioctl_pdata_def)

theorem sioctl_decode_roundtrip_witness:
  "fst (run_state (sioctl_decode_configure
      (ast2500_strap_ops (p2a_soc 0x04030303 example_fdt (regfile (strap2500_eff 0x1e6e2000))) (scu_at 0x1e6e2000))
      ast2400_sioctl_pdata sioctl_decode_4e) (p2a_start (\<lambda>_. 0))) = 0"
  using sioctl_decode_roundtrip [OF strap2500.strap_reg_axioms [unfolded sp_reg_2400] p2a_start_inv _ refl]
  by blast

text \<open>
  Claim C33. Write protection of the AST2600 straps is respected and the unprotected third
  register is not: when any bit of the mask is protected, setting and clearing both fail
  with \<open>-EPERM\<close> and no register changes; setting bits of the third register stores the
  update alone, so every bit outside it is lost.
\<close>

theorem ast2600_strap_protection:
  assumes "soc_bus ops invar reg (strap2600_eff (scu_start scu)) soc" "invar s"
    and "unat (scu_start scu) mod 4 = 0" "upd AND NOT msk = 0"
  shows "(\<forall>r \<in> {0x500, 0x510}. reg s (scu_start scu + r + 8) AND msk \<noteq> 0 \<longrightarrow>
      fst (run_state (ast2600_strap_set soc scu r upd msk) s) = - EPERM \<and>
      reg (snd (run_state (ast2600_strap_set soc scu r upd msk) s)) = reg s \<and>
      fst (run_state (ast2600_strap_clear soc scu r upd msk) s) = - EPERM \<and>
      reg (snd (run_state (ast2600_strap_clear soc scu r upd msk) s)) = reg s) \<and>
    fst (run_state (ast2600_strap_set soc scu 0x51c upd msk) s) = 0 \<and>
    reg (snd (run_state (ast2600_strap_set soc scu 0x51c upd msk) s)) (scu_start scu + 0x51c) = upd"
proof -
  note [simp] = soc_bus.soc_readl [OF assms(1)] soc_bus.soc_writel [OF assms(1)]
  have "word_aligned (scu_start scu)" using assms(3) by (simp add: word_aligned_iff)
  then show ?thesis
    using assms(2,4)
    by (auto simp: ast2600_strap_set_def ast2600_strap_clear_def ast2600_strap_is_protected_def
        ast2600_strap_known_def scu_readl_def scu_writel_def strap2600_eff_def add.assoc)
qed

theorem ast2600_strap_protection_witness:
  "fst (run_state (ast2600_strap_set (p2a_soc 0x05030303 example_fdt (regfile (strap2600_eff 0x1e6e2000)))
      (scu_at 0x1e6e2000) 0x510 4 4) (p2a_start (\<lambda>_. 0xff))) = - EPERM"
  using ast2600_strap_protection [OF p2a_soc.soc_bus_axioms [where rv = "0x05030303" and
      dt = example_fdt and eff = "strap2600_eff (scu_start (scu_at 0x1e6e2000))"] p2a_start_inv,
      of 4 4 "\<lambda>_. 0xff"]
  by simp

end
