(* ===== verification/Sdmc.thy ===== *)
theory Sdmc
  imports SocBus
begin

text \<open>
  The SDRAM controller, \<^verbatim>\<open>src/soc/sdmc.c\<close>: the DRAM and video RAM regions decoded from its
  configuration register, and the XDMA constraint of its memory protection register.
\<close>

definition MCR_CONFIG :: u32 where "MCR_CONFIG = 0x04"
definition MCR_GMP :: u32 where "MCR_GMP = 0x08"

record sdmc_pdata =
  dram_sizes :: "u32 list"
  vram_sizes :: "u32 list"
  gmp_xdma_mask :: u32

record sdmc =
  sdmc_iomem :: soc_region
  sdmc_dram :: soc_region
  sdmc_pdata :: sdmc_pdata

definition ast_vram_sizes :: "u32 list" where
  "ast_vram_sizes = [push_bit 20 8, push_bit 20 16, push_bit 20 32, push_bit 20 64]"

definition ast2400_dram_sizes :: "u32 list" where
  "ast2400_dram_sizes = [push_bit 20 64, push_bit 20 128, push_bit 20 256, push_bit 20 512]"

definition ast2500_dram_sizes :: "u32 list" where
  "ast2500_dram_sizes = [push_bit 20 128, push_bit 20 256, push_bit 20 512, push_bit 20 1024]"

definition ast2600_dram_sizes :: "u32 list" where
  "ast2600_dram_sizes = [push_bit 20 256, push_bit 20 512, push_bit 20 1024, push_bit 20 2048]"

definition ast2400_sdmc_pdata :: sdmc_pdata where
  "ast2400_sdmc_pdata = \<lparr>dram_sizes = ast2400_dram_sizes, vram_sizes = ast_vram_sizes,
     gmp_xdma_mask = BIT 16\<rparr>"

definition ast2500_sdmc_pdata :: sdmc_pdata where
  "ast2500_sdmc_pdata = \<lparr>dram_sizes = ast2500_dram_sizes, vram_sizes = ast_vram_sizes,
     gmp_xdma_mask = BIT 17\<rparr>"

definition ast2600_sdmc_pdata :: sdmc_pdata where
  "ast2600_sdmc_pdata = \<lparr>dram_sizes = ast2600_dram_sizes, vram_sizes = ast_vram_sizes,
     gmp_xdma_mask = BIT 18 OR BIT 25\<rparr>"

definition sdmc_match :: "(string \<times> sdmc_pdata) list" where
  "sdmc_match = [(''aspeed,ast2400-sdram-controller'', ast2400_sdmc_pdata),
     (''aspeed,ast2500-sdram-controller'', ast2500_sdmc_pdata),
     (''aspeed,ast2600-sdram-controller'', ast2600_sdmc_pdata)]"

definition sdmc_readl :: "'s soc \<Rightarrow> sdmc \<Rightarrow> u32 \<Rightarrow> ('s, int + u32) state" where
  "sdmc_readl soc ctx off = soc_readl soc (rg_start (sdmc_iomem ctx) + off)"

definition sdmc_writel :: "'s soc \<Rightarrow> sdmc \<Rightarrow> u32 \<Rightarrow> u32 \<Rightarrow> ('s, int) state" where
  "sdmc_writel soc ctx off val = soc_writel soc (rg_start (sdmc_iomem ctx) + off) val"

definition sdmc_dram_region :: "sdmc \<Rightarrow> u32 \<Rightarrow> soc_region" where
  "sdmc_dram_region ctx mcr_conf =
     \<lparr>rg_start = rg_start (sdmc_dram ctx),
      rg_length = dram_sizes (sdmc_pdata ctx) ! unat (mcr_conf AND 3)\<rparr>"

definition sdmc_get_dram :: "'s soc \<Rightarrow> sdmc \<Rightarrow> ('s, int + soc_region) state" where
  "sdmc_get_dram soc ctx =
     valr_then (sdmc_readl soc ctx MCR_CONFIG) (\<lambda>mcr_conf. ret (Inr (sdmc_dram_region ctx mcr_conf)))"

definition sdmc_get_vram :: "'s soc \<Rightarrow> sdmc \<Rightarrow> ('s, int + soc_region) state" where
  "sdmc_get_vram soc ctx =
     valr_then (sdmc_readl soc ctx MCR_CONFIG) (\<lambda>mcr_conf.
       let dram = sdmc_dram_region ctx mcr_conf;
           len = vram_sizes (sdmc_pdata ctx) ! unat (drop_bit 2 mcr_conf AND 3)
       in ret (Inr \<lparr>rg_start = rg_start dram + rg_length dram - len, rg_length = len\<rparr>))"

definition sdmc_constrains_xdma :: "'s soc \<Rightarrow> sdmc \<Rightarrow> ('s, int) state" where
  "sdmc_constrains_xdma soc ctx =
     val_then (sdmc_readl soc ctx MCR_GMP) (\<lambda>mcr_gmp.
       ret (if mcr_gmp AND gmp_xdma_mask (sdmc_pdata ctx) \<noteq> 0 then 1 else 0))"

definition sdmc_configure_xdma :: "'s soc \<Rightarrow> sdmc \<Rightarrow> bool \<Rightarrow> ('s, int) state" where
  "sdmc_configure_xdma soc ctx constrain =
     val_then (sdmc_readl soc ctx MCR_GMP) (\<lambda>mcr_gmp.
       let mask = gmp_xdma_mask (sdmc_pdata ctx)
       in neg_then (sdmc_writel soc ctx MCR_GMP
             ((mcr_gmp AND NOT mask) OR mask * of_bool constrain))
            (ret 0))"

text \<open>\<open>sdmc_driver_init\<close>; \<open>None\<close> is a devicetree whose siblings outrun the fuel.\<close>

definition sdmc_driver_init :: "nat \<Rightarrow> fdt \<Rightarrow> int \<Rightarrow> (int + sdmc) option" where
  "sdmc_driver_init fuel dt node =
     (case soc_device_get_memory dt node of
        Inl rc \<Rightarrow> Some (Inl rc)
      | Inr iomem \<Rightarrow>
          (case soc_device_get_match_data dt sdmc_match node of
             None \<Rightarrow> Some (Inl (- EINVAL))
           | Some pd \<Rightarrow>
               map_option (\<lambda>r. rbind r (\<lambda>dn. rbind (soc_device_get_memory dt dn) (\<lambda>dram.
                   Inr \<lparr>sdmc_iomem = iomem, sdmc_dram = dram, sdmc_pdata = pd\<rparr>)))
                 (soc_device_from_type fuel dt ''memory'')))"

section \<open>Regions\<close>

lemma unat_and_3: "unat (x AND 3 :: u32) \<in> {0, 1, 2, 3}"
proof -
  have 3: "(3 :: u32) = mask 2" by (simp add: mask_eq_exp_minus_1)
  have "unat (x AND 3) = unat x mod 4" using unat_and_mask [of x 2] unfolding 3 by simp
  moreover have "unat x mod 4 < 4" by simp
  ultimately show ?thesis by auto
qed

definition sdmc_pdatas :: "sdmc_pdata set" where
  "sdmc_pdatas = {ast2400_sdmc_pdata, ast2500_sdmc_pdata, ast2600_sdmc_pdata}"

lemma vram_fits:
  fixes x y :: u32
  assumes "pd \<in> sdmc_pdatas"
  shows "0 < unat (vram_sizes pd ! unat (x AND 3)) \<and>
    unat (vram_sizes pd ! unat (x AND 3)) \<le> unat (dram_sizes pd ! unat (y AND 3))"
  using assms unat_and_3 [of x] unat_and_3 [of y]
  by (auto simp: sdmc_pdatas_def ast2400_sdmc_pdata_def ast2500_sdmc_pdata_def ast2600_sdmc_pdata_def
      ast_vram_sizes_def ast2400_dram_sizes_def ast2500_dram_sizes_def ast2600_dram_sizes_def)

context soc_bus
begin

lemma sdmc_readl_ok [simp]:
  assumes "invar s" "word_aligned (rg_start (sdmc_iomem ctx))"
  shows "fst (run_state (sdmc_readl soc ctx MCR_GMP) s) = Inr (reg s (rg_start (sdmc_iomem ctx) + 8))"
    "reg (snd (run_state (sdmc_readl soc ctx MCR_GMP) s)) = reg s"
    "invar (snd (run_state (sdmc_readl soc ctx MCR_GMP) s))"
    "fst (run_state (sdmc_readl soc ctx MCR_CONFIG) s) = Inr (reg s (rg_start (sdmc_iomem ctx) + 4))"
    "reg (snd (run_state (sdmc_readl soc ctx MCR_CONFIG) s)) = reg s"
    "invar (snd (run_state (sdmc_readl soc ctx MCR_CONFIG) s))"
    "fst (run_state (sdmc_writel soc ctx MCR_GMP v) s) = 0"
    "reg (snd (run_state (sdmc_writel soc ctx MCR_GMP v) s)) = eff (reg s) (rg_start (sdmc_iomem ctx) + 8) v"
    "invar (snd (run_state (sdmc_writel soc ctx MCR_GMP v) s))"
  using assms by (simp_all add: sdmc_readl_def sdmc_writel_def MCR_GMP_def MCR_CONFIG_def)

lemma constrains_xdma:
  assumes "invar s" "word_aligned (rg_start (sdmc_iomem ctx))"
  shows "fst (run_state (sdmc_constrains_xdma soc ctx) s) =
      of_bool (reg s (rg_start (sdmc_iomem ctx) + 8) AND gmp_xdma_mask (sdmc_pdata ctx) \<noteq> 0)"
    "reg (snd (run_state (sdmc_constrains_xdma soc ctx) s)) = reg s"
    "invar (snd (run_state (sdmc_constrains_xdma soc ctx) s))"
  using assms by (auto simp: sdmc_constrains_xdma_def)

lemma configure_xdma:
  assumes "invar s" "word_aligned (rg_start (sdmc_iomem ctx))"
  shows "fst (run_state (sdmc_configure_xdma soc ctx b) s) = 0"
    "reg (snd (run_state (sdmc_configure_xdma soc ctx b) s)) =
      eff (reg s) (rg_start (sdmc_iomem ctx) + 8)
        ((reg s (rg_start (sdmc_iomem ctx) + 8) AND NOT (gmp_xdma_mask (sdmc_pdata ctx)))
         OR gmp_xdma_mask (sdmc_pdata ctx) * of_bool b)"
    "invar (snd (run_state (sdmc_configure_xdma soc ctx b) s))"
  using assms by (auto simp: sdmc_configure_xdma_def Let_def)

end

section \<open>Properties\<close>

lemma unat_top_region:
  fixes a n k :: u32
  assumes "unat a + unat n \<le> 2 ^ 32" "unat k \<le> unat n" "0 < unat k"
  shows "unat (a + n - k) = unat a + unat n - unat k"
proof -
  have eq: "a + n - k = a + (n - k)" by simp
  have sub: "unat (n - k) = unat n - unat k"
    using assms(2) by (simp add: unat_sub word_le_nat_alt)
  have "unat (a + (n - k)) = unat a + unat (n - k)"
    using assms by (simp add: unat_word_ariths(1) [of a "n - k"] sub)
  then show ?thesis unfolding eq sub using assms(2) by simp
qed

text \<open>
  Video memory is the top of DRAM: for the platform data of each generation and any
  configuration register, both lookups succeed without touching a register, the video
  region is not empty, lies inside the DRAM region and ends where it ends.
\<close>

theorem sdmc_vram_in_dram:
  assumes "soc_bus ops invar reg eff soc" "invar s" "sdmc_pdata ctx \<in> sdmc_pdatas"
    and "unat (rg_start (sdmc_iomem ctx)) mod 4 = 0"
    and "\<forall>n \<in> set (dram_sizes (sdmc_pdata ctx)). unat (rg_start (sdmc_dram ctx)) + unat n \<le> 2 ^ 32"
  shows "\<exists>dram vram. fst (run_state (sdmc_get_dram soc ctx) s) = Inr dram \<and>
    fst (run_state (sdmc_get_vram soc ctx) s) = Inr vram \<and>
    reg (snd (run_state (sdmc_get_vram soc ctx) s)) = reg s \<and>
    0 < unat (rg_length vram) \<and> unat (rg_start dram) \<le> unat (rg_start vram) \<and>
    unat (rg_start vram) + unat (rg_length vram) = unat (rg_start dram) + unat (rg_length dram)"
proof -
  have al: "word_aligned (rg_start (sdmc_iomem ctx))" using assms(4) by (simp add: word_aligned_iff)
  note [simp] = soc_bus.sdmc_readl_ok [OF assms(1,2) al]
  define v where "v = reg s (rg_start (sdmc_iomem ctx) + 4)"
  let ?n = "dram_sizes (sdmc_pdata ctx) ! unat (v AND 3)"
  let ?k = "vram_sizes (sdmc_pdata ctx) ! unat (drop_bit 2 v AND 3)"
  let ?a = "rg_start (sdmc_dram ctx)"
  have k: "0 < unat ?k" "unat ?k \<le> unat ?n"
    using vram_fits [OF assms(3), of "drop_bit 2 v" v] by simp_all
  have "length (dram_sizes (sdmc_pdata ctx)) = 4"
    using assms(3) by (auto simp: sdmc_pdatas_def ast2400_sdmc_pdata_def ast2500_sdmc_pdata_def
        ast2600_sdmc_pdata_def ast2400_dram_sizes_def ast2500_dram_sizes_def ast2600_dram_sizes_def)
  then have "?n \<in> set (dram_sizes (sdmc_pdata ctx))"
    using unat_and_3 [of v] by (auto intro: nth_mem)
  with assms(5) have n: "unat ?a + unat ?n \<le> 2 ^ 32" by blast
  have "unat (?a + ?n - ?k) = unat ?a + unat ?n - unat ?k"
    by (rule unat_top_region [OF n k(2,1)])
  with k show ?thesis
    by (simp add: sdmc_get_dram_def sdmc_get_vram_def sdmc_dram_region_def Let_def v_def [symmetric])
qed

definition sdmc_example :: "sdmc_pdata \<Rightarrow> sdmc" where
  "sdmc_example pd = \<lparr>sdmc_iomem = \<lparr>rg_start = 0x1e6e0000, rg_length = 0x100\<rparr>,
     sdmc_dram = \<lparr>rg_start = 0x80000000, rg_length = 0x80000000\<rparr>, sdmc_pdata = pd\<rparr>"

theorem sdmc_vram_in_dram_witness:
  "\<exists>vram. fst (run_state (sdmc_get_vram (p2a_soc 0x04030303 example_fdt (regfile plain_eff))
     (sdmc_example ast2500_sdmc_pdata)) (p2a_start (\<lambda>_. 0))) = Inr vram \<and> 0 < unat (rg_length vram)"
  using sdmc_vram_in_dram [OF p2a_soc.soc_bus_axioms [where rv = "0x04030303" and dt = example_fdt
      and eff = plain_eff] p2a_start_inv [where t = "\<lambda>_. 0"],
      of "sdmc_example ast2500_sdmc_pdata"]
  by (auto simp: sdmc_example_def sdmc_pdatas_def ast2500_sdmc_pdata_def ast2500_dram_sizes_def)

text \<open>
  The XDMA constraint is a proper switch: configuring it succeeds, the query then
  gives what was configured, the other bits of the memory protection register and every
  other register keep their values, and the query changes nothing.
\<close>

theorem sdmc_xdma_roundtrip:
  assumes "soc_bus ops invar reg plain_eff soc" "invar s" "sdmc_pdata ctx \<in> sdmc_pdatas"
    and "unat (rg_start (sdmc_iomem ctx)) mod 4 = 0"
    and "s' = snd (run_state (sdmc_configure_xdma soc ctx b) s)"
  shows "fst (run_state (sdmc_configure_xdma soc ctx b) s) = 0 \<and>
    fst (run_state (sdmc_constrains_xdma soc ctx) s') = of_bool b \<and>
    reg s' (rg_start (sdmc_iomem ctx) + 8) AND NOT (gmp_xdma_mask (sdmc_pdata ctx)) =
      reg s (rg_start (sdmc_iomem ctx) + 8) AND NOT (gmp_xdma_mask (sdmc_pdata ctx)) \<and>
    (\<forall>a. a \<noteq> rg_start (sdmc_iomem ctx) + 8 \<longrightarrow> reg s' a = reg s a) \<and>
    reg (snd (run_state (sdmc_constrains_xdma soc ctx) s')) = reg s'"
proof -
  have al: "word_aligned (rg_start (sdmc_iomem ctx))" using assms(4) by (simp add: word_aligned_iff)
  have mask: "gmp_xdma_mask (sdmc_pdata ctx) \<noteq> 0"
    using assms(3) by (auto simp: sdmc_pdatas_def ast2400_sdmc_pdata_def ast2500_sdmc_pdata_def
        ast2600_sdmc_pdata_def BIT_def)
  note c = soc_bus.configure_xdma [OF assms(1,2) al, of b, folded assms(5)]
  note q = soc_bus.constrains_xdma [OF assms(1) c(3) al]
  have bits: "((x AND NOT m) OR m) AND m = m" "((x AND NOT m) OR m) AND NOT m = x AND NOT m"
    "(x AND NOT m) AND m = 0" "(x AND NOT m) AND NOT m = x AND NOT m" for x m :: u32
    by (rule bit_word_eqI; auto simp: bit_simps)+
  show ?thesis
    using c q mask by (cases b) (simp_all add: plain_eff_def bits)
qed

theorem sdmc_xdma_roundtrip_witness:
  "fst (run_state (sdmc_configure_xdma (p2a_soc 0x05030303 example_fdt (regfile plain_eff))
     (sdmc_example ast2600_sdmc_pdata) True) (p2a_start (\<lambda>_. 0))) = 0"
  using sdmc_xdma_roundtrip [OF p2a_soc.soc_bus_axioms p2a_start_inv _ _ refl,
      where ctx = "sdmc_example ast2600_sdmc_pdata"]
  by (simp add: sdmc_example_def sdmc_pdatas_def)

end
