(* ===== verification/Bridges.thy ===== *)
theory Bridges
  imports Strap Sdmc
begin

text \<open>
  The bridge gates of the SCU, \<^verbatim>\<open>src/soc/bridges.c\<close> with \<^verbatim>\<open>src/soc/bridge-ids.h\<close>, and the
  interface of the bridge controllers, \<^verbatim>\<open>src/soc/bridgectl.h\<close>, \<^verbatim>\<open>src/soc/bridgectl.c\<close> and the
  controller list of \<^verbatim>\<open>src/soc.c\<close>. \<open>bridge_ctl\<close> is the contract a controller keeps between
  enforcing a mode and reporting it.
\<close>

section \<open>Gates\<close>

record bridge_gate_desc =
  bg_reg :: u32
  bg_mask :: u32

record bridges =
  br_scu :: soc_region
  br_descs :: "bridge_gate_desc list"

definition ast2500_bridge_gates :: "bridge_gate_desc list" where
  "ast2500_bridge_gates = [\<lparr>bg_reg = 0x02c, bg_mask = push_bit 10 1\<rparr>]"

definition ast2600_bridge_gates :: "bridge_gate_desc list" where
  "ast2600_bridge_gates = [
     \<lparr>bg_reg = 0x0d8, bg_mask = push_bit 3 1\<rparr>, \<lparr>bg_reg = 0x0c8, bg_mask = push_bit 1 1\<rparr>,
     \<lparr>bg_reg = 0x0c8, bg_mask = push_bit 0 1\<rparr>, \<lparr>bg_reg = 0x0c8, bg_mask = push_bit 2 1\<rparr>,
     \<lparr>bg_reg = 0x0c8, bg_mask = push_bit 8 1\<rparr>, \<lparr>bg_reg = 0x0d8, bg_mask = push_bit 1 1\<rparr>]"

definition AST2500_DEBUG_UART_GATE :: int where "AST2500_DEBUG_UART_GATE = 0"
definition AST2600_DEBUG_UART1_GATE :: int where "AST2600_DEBUG_UART1_GATE = 0"
definition AST2600_DEBUG_UART5_GATE :: int where "AST2600_DEBUG_UART5_GATE = 1"
definition AST2600_P2A_GATE :: int where "AST2600_P2A_GATE = 2"
definition AST2600_XDMA_GATE :: int where "AST2600_XDMA_GATE = 3"
definition AST2600_XDMA_VGA_GATE :: int where "AST2600_XDMA_VGA_GATE = 4"
definition AST2600_ILPC_GATE :: int where "AST2600_ILPC_GATE = 5"

definition bridges_matches :: "(string \<times> bridge_gate_desc list) list" where
  "bridges_matches = [(''aspeed,ast2500-bridge-controller'', ast2500_bridge_gates),
     (''aspeed,ast2600-bridge-controller'', ast2600_bridge_gates)]"

text \<open>A node without match data leaves a \<open>NULL\<close> pointer, here the inner \<open>None\<close>.\<close>

definition bridges_driver_init :: "fdt \<Rightarrow> int \<Rightarrow> int + soc_region \<times> bridge_gate_desc list option" where
  "bridges_driver_init dt node =
     rbind (soc_device_get_memory dt node) (\<lambda>scu.
       Inr (scu, soc_device_get_match_data dt bridges_matches node))"

definition bridges_configure :: "'s soc \<Rightarrow> bridges \<Rightarrow> int \<Rightarrow> bool \<Rightarrow> ('s, int) state" where
  "bridges_configure soc ctx bridge enable =
     (if bridge < 0 then ret (- EINVAL)
      else if nat bridge \<ge> length (br_descs ctx) then ret (- EINVAL)
      else
        let desc = br_descs ctx ! nat bridge;
            phys = rg_start (br_scu ctx) + bg_reg desc
        in val_then (soc_readl soc phys) (\<lambda>val.
             neg_then (soc_writel soc phys
               (if enable then val AND NOT (bg_mask desc) else val OR bg_mask desc))
             (ret 0)))"

definition bridges_enable :: "'s soc \<Rightarrow> bridges \<Rightarrow> int \<Rightarrow> ('s, int) state" where
  "bridges_enable soc ctx bridge = bridges_configure soc ctx bridge True"

definition bridges_disable :: "'s soc \<Rightarrow> bridges \<Rightarrow> int \<Rightarrow> ('s, int) state" where
  "bridges_disable soc ctx bridge = bridges_configure soc ctx bridge False"

definition bridges_status :: "'s soc \<Rightarrow> bridges \<Rightarrow> int \<Rightarrow> ('s, int) state" where
  "bridges_status soc ctx bridge =
     (if bridge < 0 then ret (- EINVAL)
      else if nat bridge \<ge> length (br_descs ctx) then ret (- EINVAL)
      else
        let desc = br_descs ctx ! nat bridge
        in val_then (soc_readl soc (rg_start (br_scu ctx) + bg_reg desc)) (\<lambda>val.
             ret (if val AND bg_mask desc = 0 then 1 else 0)))"

text \<open>
  Resolving the gates of a device from its \<open>bridge-gates\<close> property: a phandle of the gate
  controller, then gate identifiers. \<open>get\<close> gives the controller instance of a node.
\<close>

definition bridges_get_by_prop :: "fdt \<Rightarrow> (int \<Rightarrow> 'b option) \<Rightarrow> u32 list \<Rightarrow> 'b option" where
  "bridges_get_by_prop dt get cells =
     (let offset = fdt_node_offset_by_phandle dt (cells ! 0)
      in if offset < 0 then None else get offset)"

definition bridges_get_by_device :: "fdt \<Rightarrow> (int \<Rightarrow> 'b option) \<Rightarrow> int \<Rightarrow> 'b option" where
  "bridges_get_by_device dt get node =
     (case fdt_getprop_cells dt node ''bridge-gates'' of
        None \<Rightarrow> None
      | Some (cells, len) \<Rightarrow> if len < 2 * 4 then None else bridges_get_by_prop dt get cells)"

definition bridges_device_get_gate_by_index ::
  "fdt \<Rightarrow> (int \<Rightarrow> 'b option) option \<Rightarrow> int \<Rightarrow> int \<Rightarrow> int + 'b option \<times> int" where
  "bridges_device_get_gate_by_index dt get node index =
     (case fdt_getprop_cells dt node ''bridge-gates'' of
        None \<Rightarrow> Inl (- ERANGE)
      | Some (cells, len) \<Rightarrow>
          if len < 2 * 4 then Inl (- EINVAL)
          else if len \<le> (1 + index) * 4 then Inl (- EINVAL)
          else case get of
                 None \<Rightarrow> Inr (None, sint (cells ! nat (1 + index)))
               | Some get \<Rightarrow>
                   (case bridges_get_by_prop dt get cells of
                      None \<Rightarrow> Inl (- EINVAL)
                    | Some b \<Rightarrow> Inr (Some b, sint (cells ! nat (1 + index)))))"

definition bridges_device_get_gate ::
  "fdt \<Rightarrow> (int \<Rightarrow> 'b option) option \<Rightarrow> int \<Rightarrow> int + 'b option \<times> int" where
  "bridges_device_get_gate dt get node = bridges_device_get_gate_by_index dt get node 0"

definition bridges_device_get_gate_by_name ::
  "fdt \<Rightarrow> (int \<Rightarrow> 'b option) option \<Rightarrow> int \<Rightarrow> string \<Rightarrow> int + 'b option \<times> int" where
  "bridges_device_get_gate_by_name dt get node name =
     (let idx = fdt_stringlist_search dt node ''bridge-gate-names'' name
      in if idx < 0 then Inl (- EINVAL) else bridges_device_get_gate_by_index dt get node idx)"

section \<open>Bridge controllers\<close>

datatype bridge_mode = bm_permissive | bm_restricted | bm_disabled

fun bm_rank :: "bridge_mode \<Rightarrow> nat" where
  "bm_rank bm_permissive = 0"
| "bm_rank bm_restricted = 1"
| "bm_rank bm_disabled = 2"

text \<open>The enumeration is compared with \<open><\<close>: the most permissive mode is the least.\<close>

instantiation bridge_mode :: linorder
begin

definition less_eq_bridge_mode :: "bridge_mode \<Rightarrow> bridge_mode \<Rightarrow> bool" where
  "less_eq_bridge_mode a b \<longleftrightarrow> bm_rank a \<le> bm_rank b"

definition less_bridge_mode :: "bridge_mode \<Rightarrow> bridge_mode \<Rightarrow> bool" where
  "less_bridge_mode a b \<longleftrightarrow> bm_rank a < bm_rank b"

instance
proof
  fix a b :: bridge_mode
  show "a \<le> b \<Longrightarrow> b \<le> a \<Longrightarrow> a = b"
    by (cases a; cases b) (simp_all add: less_eq_bridge_mode_def)
qed (auto simp: less_eq_bridge_mode_def less_bridge_mode_def)

end

lemma bm_disabled_top [simp]: "m \<le> bm_disabled"
  by (cases m) (simp_all add: less_eq_bridge_mode_def)

lemma bm_disabled_min [simp]: "min m bm_disabled = m" "min bm_disabled m = m"
  by (simp_all add: min_def) (metis bm_disabled_top order.antisym)+

fun bridge_mode_description :: "bridge_mode \<Rightarrow> string" where
  "bridge_mode_description bm_permissive = ''Permissive''"
| "bridge_mode_description bm_restricted = ''Restricted''"
| "bridge_mode_description bm_disabled = ''Disabled''"

text \<open>
  A report writes lines to a descriptor and fills the mode: its result is the status, the
  mode if it was filled, and the lines.
\<close>

record 's bridgectl =
  bc_name :: string
  bc_enforce :: "bridge_mode \<Rightarrow> ('s, int) state"
  bc_status :: "('s, int + bridge_mode) state"
  bc_report :: "('s, int \<times> bridge_mode option \<times> string list) state"

definition bridgectl_name :: "'s bridgectl \<Rightarrow> string" where
  "bridgectl_name ctl = bc_name ctl"

definition bridgectl_enforce :: "'s bridgectl \<Rightarrow> bridge_mode \<Rightarrow> ('s, int) state" where
  "bridgectl_enforce ctl mode = bc_enforce ctl mode"

definition bridgectl_status :: "'s bridgectl \<Rightarrow> ('s, int + bridge_mode) state" where
  "bridgectl_status ctl = bc_status ctl"

definition bridgectl_report :: "'s bridgectl \<Rightarrow> ('s, int \<times> bridge_mode option \<times> string list) state" where
  "bridgectl_report ctl = bc_report ctl"

definition bridgectl_log_status :: "string \<Rightarrow> bridge_mode \<Rightarrow> string" where
  "bridgectl_log_status name mode = name @ '':'' @ [CHR 0x09] @ bridge_mode_description mode"

text \<open>
  \<open>soc_probe_bridge_controllers\<close> over the registered controllers. \<open>current\<close> is the C
  variable of that name: it is not initialised, so its first content is an argument, and a
  report that fails before it fills the mode leaves what was there. The lines go to the
  standard output.
\<close>

fun soc_probe_loop ::
  "'s bridgectl list \<Rightarrow> string option \<Rightarrow> bridge_mode \<Rightarrow> bridge_mode \<Rightarrow> int \<Rightarrow>
   ('s, int \<times> bridge_mode \<times> string list) state" where
  "soc_probe_loop [] name current aggregate err = ret (err, aggregate, [])"
| "soc_probe_loop (b # bs) name current aggregate err =
     (if name \<noteq> None \<and> name \<noteq> Some (bridgectl_name b)
      then soc_probe_loop bs name current aggregate err
      else do {
        r \<leftarrow> bridgectl_report b;
        let rc = fst r;
        let current = (case fst (snd r) of Some m \<Rightarrow> m | None \<Rightarrow> current);
        let aggregate = (if current < aggregate then current else aggregate);
        rest \<leftarrow> soc_probe_loop bs name current aggregate (if rc < 0 then rc else err);
        ret (fst rest, fst (snd rest), snd (snd r) @ snd (snd rest)) })"

definition soc_probe_bridge_controllers ::
  "'s bridgectl list \<Rightarrow> string option \<Rightarrow> bridge_mode \<Rightarrow> ('s, int \<times> bridge_mode \<times> string list) state" where
  "soc_probe_bridge_controllers bs name junk = soc_probe_loop bs name junk bm_disabled 0"

definition soc_list_bridge_controllers :: "'s bridgectl list \<Rightarrow> string list" where
  "soc_list_bridge_controllers bs = map bridgectl_name bs"

definition soc_bridge_controller_register :: "'s bridgectl \<Rightarrow> 's bridgectl list \<Rightarrow> int \<times> 's bridgectl list" where
  "soc_bridge_controller_register b bs = (0, b # bs)"

section \<open>The contract of a controller\<close>

text \<open>
  On states in which the controller works, a status query gives the mode in force and
  changes nothing of it, enforcing a mode succeeds and puts in force what the controller
  makes of that mode, and every controller can be disabled.
\<close>

locale bridge_ctl =
  fixes ctl :: "'s bridgectl"
    and ok :: "'s \<Rightarrow> bool"
    and cur :: "'s \<Rightarrow> bridge_mode"
    and made :: "bridge_mode \<Rightarrow> bridge_mode"
  assumes status: "ok s \<Longrightarrow> s' = snd (run_state (bc_status ctl) s) \<Longrightarrow>
      fst (run_state (bc_status ctl) s) = Inr (cur s) \<and> ok s' \<and> cur s' = cur s"
    and enforce: "ok s \<Longrightarrow> s' = snd (run_state (bc_enforce ctl m) s) \<Longrightarrow>
      fst (run_state (bc_enforce ctl m) s) = 0 \<and> ok s' \<and> cur s' = made m"
    and made_disabled: "made bm_disabled = bm_disabled"
begin

lemma enforce_status:
  assumes "ok s" "s' = snd (run_state (bridgectl_enforce ctl m) s)"
  shows "fst (run_state (bridgectl_enforce ctl m) s) = 0 \<and>
    fst (run_state (bridgectl_status ctl) s') = Inr (made m) \<and> ok s'"
  using enforce [OF assms(1), of s' m] status [of s'] assms(2)
  by (simp add: bridgectl_enforce_def bridgectl_status_def)

lemma disable_status:
  assumes "ok s" "s' = snd (run_state (bridgectl_enforce ctl bm_disabled) s)"
  shows "fst (run_state (bridgectl_status ctl) s') = Inr bm_disabled"
  using enforce_status [OF assms] made_disabled by simp

end

section \<open>Gates over a register bus\<close>

context soc_bus
begin

lemma bridges_gate:
  assumes "invar s" "word_aligned (rg_start (br_scu ctx))" "0 \<le> g" "nat g < length (br_descs ctx)"
    and "word_aligned (bg_reg (br_descs ctx ! nat g))"
  defines "a \<equiv> rg_start (br_scu ctx) + bg_reg (br_descs ctx ! nat g)"
    and "m \<equiv> bg_mask (br_descs ctx ! nat g)"
  shows "fst (run_state (bridges_status soc ctx g) s) = of_bool (reg s a AND m = 0)"
    and "reg (snd (run_state (bridges_status soc ctx g) s)) = reg s"
    and "invar (snd (run_state (bridges_status soc ctx g) s))"
    and "fst (run_state (bridges_enable soc ctx g) s) = 0"
    and "reg (snd (run_state (bridges_enable soc ctx g) s)) = eff (reg s) a (reg s a AND NOT m)"
    and "invar (snd (run_state (bridges_enable soc ctx g) s))"
    and "fst (run_state (bridges_disable soc ctx g) s) = 0"
    and "reg (snd (run_state (bridges_disable soc ctx g) s)) = eff (reg s) a (reg s a OR m)"
    and "invar (snd (run_state (bridges_disable soc ctx g) s))"
  using assms
  by (simp_all add: bridges_status_def bridges_enable_def bridges_disable_def bridges_configure_def Let_def)

end

section \<open>Properties\<close>

lemma soc_probe_loop_min:
  assumes "\<And>b s. b \<in> set bs \<Longrightarrow> ok s \<Longrightarrow>
      fst (fst (run_state (bridgectl_report b) s)) = 0 \<and>
      fst (snd (fst (run_state (bridgectl_report b) s))) = Some (md b) \<and>
      ok (snd (run_state (bridgectl_report b) s))"
    and "ok s" "r = run_state (soc_probe_loop bs name junk agg err) s"
  shows "fst (fst r) = err \<and> ok (snd r) \<and>
    fst (snd (fst r)) = fold min (map md (filter (\<lambda>b. name = None \<or> name = Some (bridgectl_name b)) bs)) agg"
  using assms
proof (induction bs arbitrary: junk agg s r)
  case (Cons b bs)
  have m: "(if md b < agg then md b else agg) = min (md b) agg" by (auto simp: min_def)
  have ih: "fst (fst (run_state (soc_probe_loop bs name j a err) t)) = err \<and>
      ok (snd (run_state (soc_probe_loop bs name j a err) t)) \<and>
      fst (snd (fst (run_state (soc_probe_loop bs name j a err) t))) =
        fold min (map md (filter (\<lambda>b. name = None \<or> name = Some (bridgectl_name b)) bs)) a"
    if "ok t" for j a t
    using Cons.IH [OF _ that refl] Cons.prems(1) by simp
  show ?case
    using Cons.prems(1) [of b, OF _ Cons.prems(2)] Cons.prems(2,3) ih by (auto simp: Let_def m)
qed simp

text \<open>
  Claim C31. Probing the controllers aggregates the most permissive mode: when the report of
  every controller succeeds, fills its mode and keeps the states it works on, the probe
  returns 0 with the least mode of the controllers asked for, disabled where none is,
  whatever the uninitialised variable held.
\<close>

theorem soc_probe_aggregate:
  assumes "\<And>b s. b \<in> set bs \<Longrightarrow> ok s \<Longrightarrow>
      fst (fst (run_state (bridgectl_report b) s)) = 0 \<and>
      fst (snd (fst (run_state (bridgectl_report b) s))) = Some (md b) \<and>
      ok (snd (run_state (bridgectl_report b) s))"
    and "ok s" "r = run_state (soc_probe_bridge_controllers bs name junk) s"
  shows "fst (fst r) = 0 \<and> ok (snd r) \<and>
    fst (snd (fst r)) = Min (insert bm_disabled
      (md ` {b \<in> set bs. name = None \<or> name = Some (bridgectl_name b)}))"
proof -
  have "fold min (map md xs) a = Min (insert a (md ` set xs))" for xs a
    using Min.set_eq_fold [of a "map md xs"] by simp
  then show ?thesis
    using soc_probe_loop_min [OF assms(1,2) assms(3) [unfolded soc_probe_bridge_controllers_def]] by auto
qed

definition fixed_ctl :: "string \<Rightarrow> bridge_mode \<Rightarrow> unit bridgectl" where
  "fixed_ctl name mode = \<lparr>bc_name = name, bc_enforce = (\<lambda>_. ret 0), bc_status = ret (Inr mode),
     bc_report = ret (0, Some mode, [bridgectl_log_status name mode])\<rparr>"

theorem soc_probe_aggregate_witness:
  "fst (snd (fst (run_state (soc_probe_bridge_controllers
     [fixed_ctl ''debug'' bm_permissive, fixed_ctl ''ilpc'' bm_restricted] (Some ''ilpc'') bm_permissive) ()))) =
   bm_restricted"
proof -
  let ?bs = "[fixed_ctl ''debug'' bm_permissive, fixed_ctl ''ilpc'' bm_restricted]"
  let ?md = "\<lambda>b. the (fst (snd (fst (run_state (bridgectl_report b) ()))))"
  have [simp]: "bridgectl_name (fixed_ctl n m) = n"
    "run_state (bridgectl_report (fixed_ctl n m)) s = ((0, Some m, [bridgectl_log_status n m]), s)" for n m s
    by (simp_all add: fixed_ctl_def bridgectl_name_def bridgectl_report_def)
  have "{b \<in> set ?bs. Some ''ilpc'' = None \<or> Some ''ilpc'' = Some (bridgectl_name b)} =
      {fixed_ctl ''ilpc'' bm_restricted}"
    by auto
  moreover have h: "fst (fst (run_state (bridgectl_report b) s)) = 0 \<and>
      fst (snd (fst (run_state (bridgectl_report b) s))) = Some (?md b) \<and> True"
    if "b \<in> set ?bs" for b s using that by auto
  have "fst (snd (fst (run_state (soc_probe_bridge_controllers ?bs (Some ''ilpc'') bm_permissive) ()))) =
      Min (insert bm_disabled (?md ` {b \<in> set ?bs. Some ''ilpc'' = None \<or> Some ''ilpc'' = Some (bridgectl_name b)}))"
    using soc_probe_aggregate [of ?bs "\<lambda>_. True" ?md "()" _ "Some ''ilpc''" bm_permissive, OF h TrueI refl]
    by simp
  ultimately show ?thesis by simp
qed

end
