(* ===== verification/Bridgectl.thy ===== *)
theory Bridgectl
  imports Bridges
begin

text \<open>
  The bridge controllers: the iLPC controller \<^verbatim>\<open>src/soc/ilpcctl.c\<close>, the debug UART controller
  \<^verbatim>\<open>src/soc/debugctl.c\<close> and the PCIe controllers for P2A and XDMA \<^verbatim>\<open>src/soc/pciectl.c\<close>.
\<close>

section \<open>Formatting\<close>

definition hex_digit :: "u32 \<Rightarrow> char" where
  "hex_digit d = ''0123456789abcdef'' ! unat (d AND 0xf)"

definition hex8 :: "u32 \<Rightarrow> string" where
  "hex8 w = map (\<lambda>i. hex_digit (drop_bit (4 * i) w)) [7, 6, 5, 4, 3, 2, 1, 0]"

definition pad_left :: "nat \<Rightarrow> string \<Rightarrow> string" where
  "pad_left n s = replicate (n - length s) (CHR '' '') @ s"

abbreviation tab :: string where "tab \<equiv> [CHR 0x09]"

section \<open>iLPC\<close>

definition LPC_HICRB :: u32 where "LPC_HICRB = 0x100"
definition LPC_HICRB_ILPC_DIS :: u32 where "LPC_HICRB_ILPC_DIS = push_bit 29 1"
definition LPC_HICRB_ILPC_RO :: u32 where "LPC_HICRB_ILPC_RO = push_bit 6 1"

record 's ilpcctl =
  il_lpc :: soc_region
  il_strap :: "'s strap_ops"
  il_pdata :: sioctl_pdata
  il_bridges :: bridges
  il_gate :: int

definition ilpc_hicrb :: "'s ilpcctl \<Rightarrow> u32" where
  "ilpc_hicrb ctx = rg_start (il_lpc ctx) + LPC_HICRB"

definition ast2400_ilpcctl_enforce :: "'s soc \<Rightarrow> 's ilpcctl \<Rightarrow> bridge_mode \<Rightarrow> ('s, int) state" where
  "ast2400_ilpcctl_enforce soc ctx mode =
     (if mode = bm_disabled
      then sioctl_decode_configure (il_strap ctx) (il_pdata ctx) sioctl_decode_disable
      else val_then (soc_readl soc (ilpc_hicrb ctx)) (\<lambda>hicrb.
        neg_then (soc_writel soc (ilpc_hicrb ctx)
          (if mode = bm_restricted then hicrb OR LPC_HICRB_ILPC_RO
           else hicrb AND NOT LPC_HICRB_ILPC_RO))
        (sioctl_decode_configure (il_strap ctx) (il_pdata ctx) sioctl_decode_2e)))"

definition ast2400_ilpcctl_status :: "'s soc \<Rightarrow> 's ilpcctl \<Rightarrow> ('s, int + bridge_mode) state" where
  "ast2400_ilpcctl_status soc ctx =
     valr_then (sioctl_decode_status (il_strap ctx) (il_pdata ctx)) (\<lambda>decode.
       if decode = sioctl_decode_disable then ret (Inr bm_disabled)
       else valr_then (soc_readl soc (ilpc_hicrb ctx)) (\<lambda>hicrb.
         ret (Inr (if hicrb AND LPC_HICRB_ILPC_RO \<noteq> 0 then bm_restricted else bm_permissive))))"

definition ilpcctl_report ::
  "'s ilpcctl \<Rightarrow> ('s, int + bridge_mode) state \<Rightarrow> ('s, int \<times> bridge_mode option \<times> string list) state" where
  "ilpcctl_report ctx status = do {
     r \<leftarrow> status;
     (case r of
        Inl rc \<Rightarrow> ret (rc, None, [])
      | Inr mode \<Rightarrow>
          let line = bridgectl_log_status ''ilpc'' mode
          in if mode = bm_disabled then ret (0, Some mode, [line])
             else do {
               d \<leftarrow> sioctl_decode_status (il_strap ctx) (il_pdata ctx);
               (case d of
                  Inl rc \<Rightarrow> ret (rc, Some mode, [line])
                | Inr decode \<Rightarrow>
                    ret (0, Some mode, [line, tab @ ''SuperIO address: 0x'' @
                      (if decode = sioctl_decode_2e then ''2e'' else ''4e'')])) }) }"

definition ast2600_ilpcctl_enforce :: "'s soc \<Rightarrow> 's ilpcctl \<Rightarrow> bridge_mode \<Rightarrow> ('s, int) state" where
  "ast2600_ilpcctl_enforce soc ctx mode =
     val_then (soc_readl soc (ilpc_hicrb ctx)) (\<lambda>hicrb.
       let hicrb = (case mode of
             bm_permissive \<Rightarrow> hicrb AND NOT (LPC_HICRB_ILPC_DIS OR LPC_HICRB_ILPC_RO)
           | bm_restricted \<Rightarrow> (hicrb AND NOT LPC_HICRB_ILPC_DIS) OR LPC_HICRB_ILPC_RO
           | bm_disabled \<Rightarrow> hicrb OR LPC_HICRB_ILPC_DIS)
       in neg_then (soc_writel soc (ilpc_hicrb ctx) hicrb)
         (if mode = bm_permissive \<or> mode = bm_restricted
          then neg_then (bridges_enable soc (il_bridges ctx) (il_gate ctx))
              (neg_then (sioctl_decode_configure (il_strap ctx) (il_pdata ctx) sioctl_decode_2e)
                 (ret 0))
          else ret 0))"

definition ast2600_ilpcctl_status :: "'s soc \<Rightarrow> 's ilpcctl \<Rightarrow> ('s, int + bridge_mode) state" where
  "ast2600_ilpcctl_status soc ctx =
     valr_then (sioctl_decode_status (il_strap ctx) (il_pdata ctx)) (\<lambda>decode.
       if decode = sioctl_decode_disable then ret (Inr bm_disabled)
       else do {
         rc \<leftarrow> bridges_status soc (il_bridges ctx) (il_gate ctx);
         (if rc < 0 then ret (Inl rc)
          else if rc = 0 then ret (Inr bm_disabled)
          else valr_then (soc_readl soc (ilpc_hicrb ctx)) (\<lambda>hicrb.
            ret (Inr (if hicrb AND LPC_HICRB_ILPC_DIS \<noteq> 0 then bm_disabled
                      else if hicrb AND LPC_HICRB_ILPC_RO \<noteq> 0 then bm_restricted
                      else bm_permissive)))) })"

definition ast2400_ilpcctl :: "'s soc \<Rightarrow> 's ilpcctl \<Rightarrow> 's bridgectl" where
  "ast2400_ilpcctl soc ctx = \<lparr>bc_name = ''ilpc'', bc_enforce = ast2400_ilpcctl_enforce soc ctx,
     bc_status = ast2400_ilpcctl_status soc ctx,
     bc_report = ilpcctl_report ctx (ast2400_ilpcctl_status soc ctx)\<rparr>"

definition ast2600_ilpcctl :: "'s soc \<Rightarrow> 's ilpcctl \<Rightarrow> 's bridgectl" where
  "ast2600_ilpcctl soc ctx = \<lparr>bc_name = ''ilpc'', bc_enforce = ast2600_ilpcctl_enforce soc ctx,
     bc_status = ast2600_ilpcctl_status soc ctx,
     bc_report = ilpcctl_report ctx (ast2600_ilpcctl_status soc ctx)\<rparr>"

section \<open>Debug UART\<close>

definition SCU_STRAP :: u32 where "SCU_STRAP = 0x070"
definition SCU_STRAP_DBG_SEL :: u32 where "SCU_STRAP_DBG_SEL = push_bit 29 1"

record debugctl =
  dc_region :: soc_region
  dc_bridges :: bridges
  dc_id :: int

definition debugctl_enforce :: "'s soc \<Rightarrow> debugctl \<Rightarrow> bridge_mode \<Rightarrow> ('s, int) state" where
  "debugctl_enforce soc ctx mode =
     (if mode = bm_disabled then bridges_disable soc (dc_bridges ctx) (dc_id ctx)
      else bridges_enable soc (dc_bridges ctx) (dc_id ctx))"

definition debugctl_status :: "'s soc \<Rightarrow> debugctl \<Rightarrow> ('s, int + bridge_mode) state" where
  "debugctl_status soc ctx = do {
     rc \<leftarrow> bridges_status soc (dc_bridges ctx) (dc_id ctx);
     ret (if rc < 0 then Inl rc else Inr (if rc \<noteq> 0 then bm_permissive else bm_disabled)) }"

definition ast2500_debugctl_report ::
  "'s soc \<Rightarrow> debugctl \<Rightarrow> ('s, int \<times> bridge_mode option \<times> string list) state" where
  "ast2500_debugctl_report soc ctx = do {
     r \<leftarrow> debugctl_status soc ctx;
     (case r of
        Inl rc \<Rightarrow> ret (rc, None, [])
      | Inr mode \<Rightarrow>
          let line = bridgectl_log_status ''debug'' mode
          in if mode = bm_disabled then ret (0, Some mode, [line])
             else do {
               v \<leftarrow> soc_readl soc (rg_start (dc_region ctx) + SCU_STRAP);
               (case v of
                  Inl rc \<Rightarrow> ret (rc, Some mode, [line])
                | Inr strap \<Rightarrow> ret (0, Some mode, [line, tab @ ''Debug UART port: '' @
                    (if strap AND SCU_STRAP_DBG_SEL \<noteq> 0 then ''UART5'' else ''UART1'')])) }) }"

definition ast2600_debugctl_report ::
  "'s soc \<Rightarrow> debugctl \<Rightarrow> ('s, int \<times> bridge_mode option \<times> string list) state" where
  "ast2600_debugctl_report soc ctx = do {
     r \<leftarrow> debugctl_status soc ctx;
     (case r of
        Inl rc \<Rightarrow> ret (rc, None, [])
      | Inr mode \<Rightarrow>
          let line = bridgectl_log_status ''debug'' mode
          in if rg_start (dc_region ctx) = 0x1e783000
             then ret (0, Some mode, [line, tab @ ''Debug UART port: UART1''])
             else if rg_start (dc_region ctx) = 0x1e784000
             then ret (0, Some mode, [line, tab @ ''Debug UART port: UART5''])
             else ret (- EINVAL, Some mode, [line])) }"

definition ast2500_debugctl :: "'s soc \<Rightarrow> debugctl \<Rightarrow> 's bridgectl" where
  "ast2500_debugctl soc ctx = \<lparr>bc_name = ''debug'', bc_enforce = debugctl_enforce soc ctx,
     bc_status = debugctl_status soc ctx, bc_report = ast2500_debugctl_report soc ctx\<rparr>"

definition ast2600_debugctl :: "'s soc \<Rightarrow> debugctl \<Rightarrow> 's bridgectl" where
  "ast2600_debugctl soc ctx = \<lparr>bc_name = ''debug'', bc_enforce = debugctl_enforce soc ctx,
     bc_status = debugctl_status soc ctx, bc_report = ast2600_debugctl_report soc ctx\<rparr>"

section \<open>The iLPC and debug controllers keep the contract\<close>

text \<open>
  What the iLPC controller works on: a strapping register that decodes the SuperIO, and the
  HICRB register, neither of which is touched by accesses to the other.
\<close>

locale ilpc_parts =
  fixes soc :: "'s soc"
    and ctx :: "'s ilpcctl"
    and ok :: "'s \<Rightarrow> bool"
    and val :: "'s \<Rightarrow> u32"
    and hic :: "'s \<Rightarrow> u32"
  assumes strap: "strap_reg (il_strap ctx) (sp_reg (il_pdata ctx)) ok val"
    and bits: "sioctl_bits (il_pdata ctx)"
    and strap_hic: "ok s \<Longrightarrow> hic (snd (run_state (st_read (il_strap ctx) (sp_reg (il_pdata ctx))) s)) = hic s"
      "ok s \<Longrightarrow> hic (snd (run_state (st_set (il_strap ctx) (sp_reg (il_pdata ctx)) u u) s)) = hic s"
      "ok s \<Longrightarrow> hic (snd (run_state (st_clear (il_strap ctx) (sp_reg (il_pdata ctx)) u u) s)) = hic s"
    and hic_read: "ok s \<Longrightarrow> s' = snd (run_state (soc_readl soc (ilpc_hicrb ctx)) s) \<Longrightarrow>
      fst (run_state (soc_readl soc (ilpc_hicrb ctx)) s) = Inr (hic s) \<and>
      ok s' \<and> val s' = val s \<and> hic s' = hic s"
    and hic_write: "ok s \<Longrightarrow> s' = snd (run_state (soc_writel soc (ilpc_hicrb ctx) v) s) \<Longrightarrow>
      fst (run_state (soc_writel soc (ilpc_hicrb ctx) v) s) = 0 \<and>
      ok s' \<and> val s' = val s \<and> hic s' = v"
begin

lemma hic_read_simps [simp]:
  assumes "ok s"
  shows "fst (run_state (soc_readl soc (ilpc_hicrb ctx)) s) = Inr (hic s)"
    "ok (snd (run_state (soc_readl soc (ilpc_hicrb ctx)) s))"
    "val (snd (run_state (soc_readl soc (ilpc_hicrb ctx)) s)) = val s"
    "hic (snd (run_state (soc_readl soc (ilpc_hicrb ctx)) s)) = hic s"
  using hic_read [OF assms refl] by simp_all

lemma hic_write_simps [simp]:
  assumes "ok s"
  shows "fst (run_state (soc_writel soc (ilpc_hicrb ctx) v) s) = 0"
    "ok (snd (run_state (soc_writel soc (ilpc_hicrb ctx) v) s))"
    "val (snd (run_state (soc_writel soc (ilpc_hicrb ctx) v) s)) = val s"
    "hic (snd (run_state (soc_writel soc (ilpc_hicrb ctx) v) s)) = v"
  using hic_write [OF assms refl] by simp_all

lemma decode_simps [simp]:
  assumes "ok s"
  shows "fst (run_state (sioctl_decode_configure (il_strap ctx) (il_pdata ctx) mode) s) = 0"
    "ok (snd (run_state (sioctl_decode_configure (il_strap ctx) (il_pdata ctx) mode) s))"
    "decoded (il_pdata ctx) (val (snd (run_state (sioctl_decode_configure (il_strap ctx) (il_pdata ctx) mode) s))) = mode"
    "fst (run_state (sioctl_decode_status (il_strap ctx) (il_pdata ctx)) s) = Inr (decoded (il_pdata ctx) (val s))"
    "ok (snd (run_state (sioctl_decode_status (il_strap ctx) (il_pdata ctx)) s))"
    "val (snd (run_state (sioctl_decode_status (il_strap ctx) (il_pdata ctx)) s)) = val s"
  using strap_reg.decode_configure [OF strap assms refl bits]
    strap_reg.decode_status [OF strap assms refl] by simp_all

lemma decode_hic [simp]:
  assumes "ok s"
  shows "hic (snd (run_state (sioctl_decode_configure (il_strap ctx) (il_pdata ctx) mode) s)) = hic s"
    "hic (snd (run_state (sioctl_decode_status (il_strap ctx) (il_pdata ctx)) s)) = hic s"
  using assms strap_reg.set_simps [OF strap] strap_hic
  by (auto simp: sioctl_decode_configure_def sioctl_decode_status_def strap_set_def strap_clear_def
      strap_read_def run_case_sum split: sum.split)

definition mode2400 :: "'s \<Rightarrow> bridge_mode" where
  "mode2400 s = (if decoded (il_pdata ctx) (val s) = sioctl_decode_disable then bm_disabled
     else if hic s AND LPC_HICRB_ILPC_RO \<noteq> 0 then bm_restricted else bm_permissive)"

lemma ro_bit [simp]: "LPC_HICRB_ILPC_RO \<noteq> 0" "LPC_HICRB_ILPC_DIS \<noteq> 0"
  "LPC_HICRB_ILPC_DIS AND LPC_HICRB_ILPC_RO = 0" "LPC_HICRB_ILPC_RO AND LPC_HICRB_ILPC_DIS = 0"
  by (simp_all add: LPC_HICRB_ILPC_RO_def LPC_HICRB_ILPC_DIS_def)

lemma ctl2400: "bridge_ctl (ast2400_ilpcctl soc ctx) ok mode2400 (\<lambda>m. m)"
proof
  fix s s' m
  assume s: "ok s"
  show "s' = snd (run_state (bc_status (ast2400_ilpcctl soc ctx)) s) \<Longrightarrow>
      fst (run_state (bc_status (ast2400_ilpcctl soc ctx)) s) = Inr (mode2400 s) \<and>
      ok s' \<and> mode2400 s' = mode2400 s"
    using s by (simp add: ast2400_ilpcctl_def ast2400_ilpcctl_status_def mode2400_def)
  show "s' = snd (run_state (bc_enforce (ast2400_ilpcctl soc ctx) m) s) \<Longrightarrow>
      fst (run_state (bc_enforce (ast2400_ilpcctl soc ctx) m) s) = 0 \<and>
      ok s' \<and> mode2400 s' = m"
    using s by (cases m) (simp_all add: ast2400_ilpcctl_def ast2400_ilpcctl_enforce_def mode2400_def)
qed simp

end

lemma debug_ctl:
  assumes "soc_bus ops invar reg eff soc" "word_aligned (rg_start (br_scu (dc_bridges ctx)))"
    and "0 \<le> dc_id ctx" "nat (dc_id ctx) < length (br_descs (dc_bridges ctx))"
    and "word_aligned (bg_reg (br_descs (dc_bridges ctx) ! nat (dc_id ctx)))"
    and "a = rg_start (br_scu (dc_bridges ctx)) + bg_reg (br_descs (dc_bridges ctx) ! nat (dc_id ctx))"
    and "m = bg_mask (br_descs (dc_bridges ctx) ! nat (dc_id ctx))" "m \<noteq> 0"
    and "\<And>r v. eff r a v = r(a := v)"
    and "ctl = ast2500_debugctl soc ctx \<or> ctl = ast2600_debugctl soc ctx"
  shows "bridge_ctl ctl invar (\<lambda>s. if reg s a AND m = 0 then bm_permissive else bm_disabled)
    (\<lambda>mode. if mode = bm_disabled then bm_disabled else bm_permissive)"
proof -
  note g = soc_bus.bridges_gate [OF assms(1) _ assms(2-5), folded assms(6,7)]
  have "bc_status ctl = debugctl_status soc ctx" "bc_enforce ctl = debugctl_enforce soc ctx"
    using assms(10) by (auto simp: ast2500_debugctl_def ast2600_debugctl_def)
  then show ?thesis
    using g assms(8,9)
    by unfold_locales (auto simp: debugctl_status_def debugctl_enforce_def)
qed

text \<open>On the AST2600 the bridge has a gate next to its HICRB bits.\<close>

locale ilpc_gated = ilpc_parts soc ctx ok val hic
  for soc :: "'s soc" and ctx ok val hic +
  fixes gate :: "'s \<Rightarrow> bool"
  assumes gate_status: "ok s \<Longrightarrow> s' = snd (run_state (bridges_status soc (il_bridges ctx) (il_gate ctx)) s) \<Longrightarrow>
      fst (run_state (bridges_status soc (il_bridges ctx) (il_gate ctx)) s) = of_bool (gate s) \<and>
      ok s' \<and> val s' = val s \<and> hic s' = hic s \<and> gate s' = gate s"
    and gate_enable: "ok s \<Longrightarrow> s' = snd (run_state (bridges_enable soc (il_bridges ctx) (il_gate ctx)) s) \<Longrightarrow>
      fst (run_state (bridges_enable soc (il_bridges ctx) (il_gate ctx)) s) = 0 \<and>
      ok s' \<and> val s' = val s \<and> hic s' = hic s \<and> gate s'"
    and strap_gate: "ok s \<Longrightarrow> gate (snd (run_state (st_read (il_strap ctx) (sp_reg (il_pdata ctx))) s)) = gate s"
      "ok s \<Longrightarrow> gate (snd (run_state (st_set (il_strap ctx) (sp_reg (il_pdata ctx)) u u) s)) = gate s"
      "ok s \<Longrightarrow> gate (snd (run_state (st_clear (il_strap ctx) (sp_reg (il_pdata ctx)) u u) s)) = gate s"
    and hic_gate: "ok s \<Longrightarrow> gate (snd (run_state (soc_readl soc (ilpc_hicrb ctx)) s)) = gate s"
      "ok s \<Longrightarrow> gate (snd (run_state (soc_writel soc (ilpc_hicrb ctx) v) s)) = gate s"
begin

lemma decode_gate [simp]:
  assumes "ok s"
  shows "gate (snd (run_state (sioctl_decode_configure (il_strap ctx) (il_pdata ctx) mode) s)) = gate s"
    "gate (snd (run_state (sioctl_decode_status (il_strap ctx) (il_pdata ctx)) s)) = gate s"
  using assms strap_reg.set_simps [OF strap] strap_gate
  by (auto simp: sioctl_decode_configure_def sioctl_decode_status_def strap_set_def strap_clear_def
      strap_read_def run_case_sum split: sum.split)

definition mode2600 :: "'s \<Rightarrow> bridge_mode" where
  "mode2600 s = (if decoded (il_pdata ctx) (val s) = sioctl_decode_disable \<or> \<not> gate s \<or>
       hic s AND LPC_HICRB_ILPC_DIS \<noteq> 0 then bm_disabled
     else if hic s AND LPC_HICRB_ILPC_RO \<noteq> 0 then bm_restricted else bm_permissive)"

lemma hicrb_bits [simp]:
  "(h AND NOT LPC_HICRB_ILPC_DIS AND NOT LPC_HICRB_ILPC_RO) AND LPC_HICRB_ILPC_DIS = 0"
  "(h AND NOT LPC_HICRB_ILPC_DIS AND NOT LPC_HICRB_ILPC_RO) AND LPC_HICRB_ILPC_RO = 0"
  "((h AND NOT LPC_HICRB_ILPC_DIS) OR LPC_HICRB_ILPC_RO) AND LPC_HICRB_ILPC_DIS = 0"
proof -
  show "(h AND NOT LPC_HICRB_ILPC_DIS AND NOT LPC_HICRB_ILPC_RO) AND LPC_HICRB_ILPC_DIS = 0"
    "(h AND NOT LPC_HICRB_ILPC_DIS AND NOT LPC_HICRB_ILPC_RO) AND LPC_HICRB_ILPC_RO = 0"
    by (rule bit_word_eqI; auto simp: bit_simps)+
  have "((h AND NOT x) OR y) AND x = y AND x" for x y :: u32
    by (rule bit_word_eqI) (auto simp: bit_simps)
  then show "((h AND NOT LPC_HICRB_ILPC_DIS) OR LPC_HICRB_ILPC_RO) AND LPC_HICRB_ILPC_DIS = 0" by simp
qed

lemma ctl2600: "bridge_ctl (ast2600_ilpcctl soc ctx) ok mode2600 (\<lambda>m. m)"
proof
  fix s s' m
  assume s: "ok s"
  note g = gate_status [OF _ refl] gate_enable [OF _ refl] hic_gate
  show "s' = snd (run_state (bc_status (ast2600_ilpcctl soc ctx)) s) \<Longrightarrow>
      fst (run_state (bc_status (ast2600_ilpcctl soc ctx)) s) = Inr (mode2600 s) \<and>
      ok s' \<and> mode2600 s' = mode2600 s"
    using s by (simp add: ast2600_ilpcctl_def ast2600_ilpcctl_status_def mode2600_def g)
  show "s' = snd (run_state (bc_enforce (ast2600_ilpcctl soc ctx) m) s) \<Longrightarrow>
      fst (run_state (bc_enforce (ast2600_ilpcctl soc ctx) m) s) = 0 \<and>
      ok s' \<and> mode2600 s' = m"
    using s by (cases m) (simp_all add: ast2600_ilpcctl_def ast2600_ilpcctl_enforce_def mode2600_def g)
qed simp

end

section \<open>The controllers behind the P2A bridge\<close>

definition scu_bridges :: "bridge_gate_desc list \<Rightarrow> bridges" where
  "scu_bridges descs = \<lparr>br_scu = \<lparr>rg_start = 0x1e6e2000, rg_length = 0x1000\<rparr>, br_descs = descs\<rparr>"

abbreviation soc2500 :: "(u32 \<Rightarrow> u32) p2a_hw p2ab soc" where
  "soc2500 \<equiv> p2a_soc 0x04030303 example_fdt (regfile (strap2500_eff 0x1e6e2000))"

abbreviation soc2600 :: "(u32 \<Rightarrow> u32) p2a_hw p2ab soc" where
  "soc2600 \<equiv> p2a_soc 0x05030303 example_fdt (regfile (strap2600_eff 0x1e6e2000))"

definition ilpc2500 :: "(u32 \<Rightarrow> u32) p2a_hw p2ab ilpcctl" where
  "ilpc2500 = \<lparr>il_lpc = \<lparr>rg_start = 0x1e789000, rg_length = 0x1000\<rparr>,
     il_strap = ast2500_strap_ops soc2500 (scu_at 0x1e6e2000), il_pdata = ast2400_sioctl_pdata,
     il_bridges = scu_bridges ast2500_bridge_gates, il_gate = 0\<rparr>"

definition ilpc2600 :: "(u32 \<Rightarrow> u32) p2a_hw p2ab ilpcctl" where
  "ilpc2600 = \<lparr>il_lpc = \<lparr>rg_start = 0x1e789000, rg_length = 0x1000\<rparr>,
     il_strap = ast2600_strap_ops soc2600 (scu_at 0x1e6e2000), il_pdata = ast2600_sioctl_pdata,
     il_bridges = scu_bridges ast2600_bridge_gates, il_gate = AST2600_ILPC_GATE\<rparr>"

interpretation ilpc2500: ilpc_parts soc2500 ilpc2500 p2a_ok "\<lambda>s. p2a_regs s 0x1e6e2070"
    "\<lambda>s. p2a_regs s 0x1e789100"
proof (rule ilpc_parts.intro)
  show "strap_reg (il_strap ilpc2500) (sp_reg (il_pdata ilpc2500)) p2a_ok (\<lambda>s. p2a_regs s 0x1e6e2070)"
    using strap2500.strap_reg_axioms by (simp add: ilpc2500_def ast2400_sioctl_pdata_def)
  show "sioctl_bits (il_pdata ilpc2500)" by (simp add: ilpc2500_def)
qed (simp_all add: ilpc2500_def ilpc_hicrb_def LPC_HICRB_def ast2500_strap_ops_def
    ast2500_strap_read_def ast2500_strap_set_def ast2500_strap_clear_def scu_readl_def
    scu_writel_def ast2400_sioctl_pdata_def strap2500_eff_def)

interpretation ilpc2500_ctl: bridge_ctl "ast2400_ilpcctl soc2500 ilpc2500" p2a_ok ilpc2500.mode2400 "\<lambda>m. m"
  by (rule ilpc2500.ctl2400)

abbreviation ok2600 :: "(u32 \<Rightarrow> u32) p2a_hw p2ab \<Rightarrow> bool" where
  "ok2600 s \<equiv> p2a_ok s \<and> p2a_regs s 0x1e6e2518 = 0"

interpretation ilpc2600: ilpc_parts soc2600 ilpc2600 ok2600 "\<lambda>s. p2a_regs s 0x1e6e2510"
    "\<lambda>s. p2a_regs s 0x1e789100"
proof (rule ilpc_parts.intro)
  show "strap_reg (il_strap ilpc2600) (sp_reg (il_pdata ilpc2600)) ok2600 (\<lambda>s. p2a_regs s 0x1e6e2510)"
    using strap2600.strap_reg_axioms by (simp add: ilpc2600_def ast2600_sioctl_pdata_def)
  show "sioctl_bits (il_pdata ilpc2600)" by (simp add: ilpc2600_def)
qed (simp_all add: ilpc2600_def ilpc_hicrb_def LPC_HICRB_def ast2600_strap_ops_def
    ast2600_strap_read_def ast2600_strap_set_def ast2600_strap_clear_def ast2600_strap_known_def
    ast2600_strap_is_protected_def scu_readl_def scu_writel_def ast2600_sioctl_pdata_def strap2600_eff_def)

interpretation ilpc2600: ilpc_gated soc2600 ilpc2600 ok2600 "\<lambda>s. p2a_regs s 0x1e6e2510"
    "\<lambda>s. p2a_regs s 0x1e789100" "\<lambda>s. p2a_regs s 0x1e6e20d8 AND 2 = 0"
  by unfold_locales
    (simp_all add: ilpc2600_def ilpc_hicrb_def LPC_HICRB_def ast2600_strap_ops_def
    ast2600_strap_read_def ast2600_strap_set_def ast2600_strap_clear_def ast2600_strap_known_def
    ast2600_strap_is_protected_def scu_readl_def scu_writel_def ast2600_sioctl_pdata_def strap2600_eff_def
    bridges_status_def bridges_enable_def bridges_configure_def scu_bridges_def AST2600_ILPC_GATE_def
    ast2600_bridge_gates_def Let_def and.assoc)

interpretation ilpc2600_ctl: bridge_ctl "ast2600_ilpcctl soc2600 ilpc2600" ok2600 ilpc2600.mode2600 "\<lambda>m. m"
  by (rule ilpc2600.ctl2600)

definition debug2500 :: debugctl where
  "debug2500 = \<lparr>dc_region = \<lparr>rg_start = 0x1e6e2000, rg_length = 0x1000\<rparr>,
     dc_bridges = scu_bridges ast2500_bridge_gates, dc_id = AST2500_DEBUG_UART_GATE\<rparr>"

interpretation debug2500_ctl: bridge_ctl "ast2500_debugctl soc2500 debug2500" p2a_ok
    "\<lambda>s. if p2a_regs s 0x1e6e202c AND push_bit 10 1 = 0 then bm_permissive else bm_disabled"
    "\<lambda>mode. if mode = bm_disabled then bm_disabled else bm_permissive"
  by (rule debug_ctl [where soc = soc2500 and ctx = debug2500, OF p2a_soc.soc_bus_axioms])
    (simp_all add: debug2500_def scu_bridges_def AST2500_DEBUG_UART_GATE_def ast2500_bridge_gates_def
      strap2500_eff_def)

section \<open>Properties\<close>

text \<open>
  Enforcing a mode on the iLPC bridge and reading its status agree on every SoC:
  over a strapping register and HICRB that do not interfere, and on the AST2600 a gate
  besides, \<open>enforce\<close> succeeds in every mode and \<open>status\<close> then reports that mode.
\<close>

theorem ilpcctl_enforce_status:
  assumes "ilpc_parts soc ctx ok val hic" "ok s"
  shows "(let r = run_state (ast2400_ilpcctl_enforce soc ctx mode) s
      in fst r = 0 \<and> fst (run_state (ast2400_ilpcctl_status soc ctx) (snd r)) = Inr mode) \<and>
    (ilpc_gated soc ctx ok val hic gate \<longrightarrow>
      (let r = run_state (ast2600_ilpcctl_enforce soc ctx mode) s
       in fst r = 0 \<and> fst (run_state (ast2600_ilpcctl_status soc ctx) (snd r)) = Inr mode))"
  using bridge_ctl.enforce_status [OF ilpc_parts.ctl2400 [OF assms(1)] assms(2) refl, of mode]
    bridge_ctl.enforce_status [where s = s and m = mode,
      OF ilpc_gated.ctl2600 [where soc = soc and ctx = ctx and ok = ok and val = val and hic = hic
        and gate = gate] assms(2) refl]
  by (simp add: Let_def bridgectl_enforce_def bridgectl_status_def ast2400_ilpcctl_def ast2600_ilpcctl_def)

theorem ilpcctl_enforce_status_witness:
  "fst (run_state (ast2400_ilpcctl_enforce soc2500 ilpc2500 bm_restricted) (p2a_start (\<lambda>_. 0))) = 0 \<and>
   fst (run_state (ast2600_ilpcctl_enforce soc2600 ilpc2600 bm_restricted) (p2a_start (\<lambda>_. 0))) = 0"
proof
  show "fst (run_state (ast2400_ilpcctl_enforce soc2500 ilpc2500 bm_restricted) (p2a_start (\<lambda>_. 0))) = 0"
    using ilpcctl_enforce_status [OF ilpc2500.ilpc_parts_axioms p2a_start_inv] by (simp add: Let_def)
  have "ok2600 (p2a_start (\<lambda>_. 0))" by (simp add: p2a_start_inv)
  then show "fst (run_state (ast2600_ilpcctl_enforce soc2600 ilpc2600 bm_restricted) (p2a_start (\<lambda>_. 0))) = 0"
    using ilpcctl_enforce_status [OF ilpc2600.ilpc_parts_axioms] ilpc2600.ilpc_gated_axioms
    by (simp add: Let_def)
qed

text \<open>
  The debug UART has two states only: enforcing a mode succeeds, and the status
  then reads disabled for the disabled mode and permissive for both others, so the
  restricted mode cannot be read back.
\<close>

theorem debugctl_two_states:
  assumes "soc_bus ops invar reg eff soc" "invar s"
    and "unat (rg_start (br_scu (dc_bridges ctx))) mod 4 = 0" "0 \<le> dc_id ctx"
    and "nat (dc_id ctx) < length (br_descs (dc_bridges ctx))"
    and "br_descs (dc_bridges ctx) \<in> {ast2500_bridge_gates, ast2600_bridge_gates}"
    and "\<And>r a v. eff r a v = r(a := v)"
    and "r = run_state (debugctl_enforce soc ctx mode) s"
  shows "fst r = 0 \<and> fst (run_state (debugctl_status soc ctx) (snd r)) =
    Inr (if mode = bm_disabled then bm_disabled else bm_permissive)"
proof -
  let ?d = "br_descs (dc_bridges ctx) ! nat (dc_id ctx)"
  have "\<forall>d \<in> set (br_descs (dc_bridges ctx)). word_aligned (bg_reg d) \<and> bg_mask d \<noteq> 0"
    using assms(6) by (auto simp: ast2500_bridge_gates_def ast2600_bridge_gates_def)
  then have d: "word_aligned (bg_reg ?d)" "bg_mask ?d \<noteq> 0" using assms(5) nth_mem by blast+
  have al: "word_aligned (rg_start (br_scu (dc_bridges ctx)))" using assms(3) by (simp add: word_aligned_iff)
  note ctl = debug_ctl [OF assms(1) al assms(4,5) d(1) refl refl d(2) assms(7) disjI1 [OF refl]]
  show ?thesis
    using bridge_ctl.enforce_status [OF ctl assms(2) refl, of mode] assms(8)
    by (simp add: bridgectl_enforce_def bridgectl_status_def ast2500_debugctl_def)
qed

theorem debugctl_two_states_witness:
  "fst (run_state (debugctl_enforce (p2a_soc 0x04030303 example_fdt (regfile plain_eff)) debug2500 bm_restricted)
     (p2a_start (\<lambda>_. 0))) = 0"
  using debugctl_two_states [OF p2a_soc.soc_bus_axioms p2a_start_inv _ _ _ _ _ refl, where ctx = debug2500
      and eff = plain_eff and mode = bm_restricted]
  by (simp add: debug2500_def scu_bridges_def AST2500_DEBUG_UART_GATE_def plain_eff_def
      ast2500_bridge_gates_def)

end
