(* ===== verification/Pciectl.thy ===== *)
theory Pciectl
  imports Bridgectl
begin

text \<open>
  The PCIe device controller \<^verbatim>\<open>src/soc/pciectl.c\<close>: the P2A and the XDMA bridge controllers of
  the BMC and VGA functions, over the PCIe configuration and the P2A region filter of the SCU.
\<close>

section \<open>Devices and regions\<close>

datatype pcie_device = pcie_device_vga | pcie_device_bmc

fun pcie_device_table :: "pcie_device \<Rightarrow> string" where
  "pcie_device_table pcie_device_vga = ''VGA''"
| "pcie_device_table pcie_device_bmc = ''BMC''"

datatype device_function = device_function_none | device_function_mmio | device_function_xdma

fun device_function_table :: "device_function \<Rightarrow> string" where
  "device_function_table device_function_none = ''none''"
| "device_function_table device_function_mmio = ''MMIO''"
| "device_function_table device_function_xdma = ''XDMA''"

record pciectl_p2a_region =
  pr_name :: string
  pr_mask :: u32
  pr_start :: u32
  pr_length :: u32

record pciectl_endpoint =
  pe_device :: pcie_device
  pe_device_mask :: u32
  pe_function :: device_function
  pe_function_mask :: u32
  pe_gate :: "string option"

record pciectl_pdata =
  pp_misc :: u32
  pp_config :: u32
  pp_endpoints :: "pciectl_endpoint list"
  pp_regions :: "pciectl_p2a_region list"

record pciectl =
  pc_bridges :: "bridges option"
  pc_node :: int
  pc_scu :: soc_region
  pc_pdata :: pciectl_pdata
  pc_sdmc :: sdmc

abbreviation p2a_region :: "string \<Rightarrow> nat \<Rightarrow> u32 \<Rightarrow> u32 \<Rightarrow> pciectl_p2a_region" where
  "p2a_region name n start len \<equiv>
     \<lparr>pr_name = name, pr_mask = BIT n, pr_start = start, pr_length = len\<rparr>"

definition ast2400_p2a_regions :: "pciectl_p2a_region list" where
  "ast2400_p2a_regions = [
     p2a_region ''Firmware'' 22 0 0x18000000,
     p2a_region ''SoC IO'' 23 0x18000000 0x08000000,
     p2a_region ''BMC Flash'' 22 0x20000000 0x10000000,
     p2a_region ''Host Flash'' 24 0x30000000 0x10000000,
     p2a_region ''DRAM'' 25 0x40000000 0x20000000,
     p2a_region ''LPC Host'' 23 0x60000000 0x20000000,
     p2a_region ''Reserved'' 23 0x80000000 0x80000000]"

definition ast2500_p2a_regions :: "pciectl_p2a_region list" where
  "ast2500_p2a_regions = [
     p2a_region ''Firmware'' 22 0 0x10000000,
     p2a_region ''SoC IO'' 23 0x10000000 0x10000000,
     p2a_region ''BMC Flash'' 22 0x20000000 0x10000000,
     p2a_region ''Host Flash'' 22 0x30000000 0x10000000,
     p2a_region ''Reserved'' 23 0x40000000 0x20000000,
     p2a_region ''LPC Host'' 24 0x60000000 0x20000000,
     p2a_region ''DRAM'' 25 0x80000000 0x80000000]"

definition pcie_endpoint ::
  "pcie_device \<Rightarrow> nat \<Rightarrow> device_function \<Rightarrow> nat \<Rightarrow> string option \<Rightarrow> pciectl_endpoint" where
  "pcie_endpoint dev dbit fn fbit gate =
     \<lparr>pe_device = dev, pe_device_mask = BIT dbit, pe_function = fn, pe_function_mask = BIT fbit,
      pe_gate = gate\<rparr>"

definition ast2400_pcie_bridges :: "pciectl_endpoint list" where
  "ast2400_pcie_bridges = [
     pcie_endpoint pcie_device_bmc 8 device_function_mmio 9 None,
     pcie_endpoint pcie_device_vga 0 device_function_mmio 1 None,
     pcie_endpoint pcie_device_bmc 8 device_function_xdma 14 None,
     pcie_endpoint pcie_device_vga 0 device_function_xdma 6 None]"

definition ast2500_pcie_bridges :: "pciectl_endpoint list" where
  "ast2500_pcie_bridges = [
     pcie_endpoint pcie_device_bmc 8 device_function_mmio 9 None,
     pcie_endpoint pcie_device_vga 0 device_function_mmio 1 None,
     pcie_endpoint pcie_device_bmc 8 device_function_xdma 14 None,
     pcie_endpoint pcie_device_vga 0 device_function_xdma 6 None]"

definition ast2600_pcie_bridges :: "pciectl_endpoint list" where
  "ast2600_pcie_bridges = [
     pcie_endpoint pcie_device_bmc 8 device_function_mmio 9 (Some ''p2a''),
     pcie_endpoint pcie_device_vga 0 device_function_mmio 1 (Some ''p2a''),
     pcie_endpoint pcie_device_bmc 8 device_function_xdma 14 (Some ''xdma''),
     pcie_endpoint pcie_device_vga 0 device_function_xdma 6 (Some ''xdma-vga'')]"

definition ast2400_pcie_pdata :: pciectl_pdata where
  "ast2400_pcie_pdata = \<lparr>pp_misc = 0x02c, pp_config = 0x180, pp_endpoints = ast2400_pcie_bridges,
     pp_regions = ast2400_p2a_regions\<rparr>"

definition ast2500_pcie_pdata :: pciectl_pdata where
  "ast2500_pcie_pdata = \<lparr>pp_misc = 0x02c, pp_config = 0x180, pp_endpoints = ast2500_pcie_bridges,
     pp_regions = ast2500_p2a_regions\<rparr>"

definition ast2600_pcie_pdata :: pciectl_pdata where
  "ast2600_pcie_pdata = \<lparr>pp_misc = 0x0c0, pp_config = 0xc20, pp_endpoints = ast2600_pcie_bridges,
     pp_regions = ast2500_p2a_regions\<rparr>"

definition pciectl_matches :: "(string \<times> pciectl_pdata) list" where
  "pciectl_matches = [(''aspeed,ast2400-pcie-device-controller'', ast2400_pcie_pdata),
     (''aspeed,ast2500-pcie-device-controller'', ast2500_pcie_pdata),
     (''aspeed,ast2600-pcie-device-controller'', ast2600_pcie_pdata)]"

section \<open>Endpoints\<close>

definition pciectl_pdata_collect_region_mask :: "pciectl_pdata \<Rightarrow> pciectl_endpoint \<Rightarrow> u32" where
  "pciectl_pdata_collect_region_mask pd ep =
     (if pe_function ep \<noteq> device_function_mmio then 0
      else foldl (\<lambda>mask ep. mask OR pr_mask ep) 0 (pp_regions pd))"

definition pc_config :: "pciectl \<Rightarrow> u32" where
  "pc_config ctx = rg_start (pc_scu ctx) + pp_config (pc_pdata ctx)"

definition pc_misc :: "pciectl \<Rightarrow> u32" where
  "pc_misc ctx = rg_start (pc_scu ctx) + pp_misc (pc_pdata ctx)"

definition pc_gate :: "'s soc \<Rightarrow> pciectl \<Rightarrow> pciectl_endpoint \<Rightarrow> int + int" where
  "pc_gate soc ctx ep =
     rbind (bridges_device_get_gate_by_name (soc_fdt soc) (None :: (int \<Rightarrow> unit option) option)
         (pc_node ctx) (the (pe_gate ep)))
       (\<lambda>r. Inr (snd r))"

text \<open>
  The status of a failed store of the configuration is only kept where no gate follows, and
  that of the gate is dropped. The assertion on the mode always holds.
\<close>

definition pciectl_device_enforce ::
  "'s soc \<Rightarrow> pciectl \<Rightarrow> pciectl_endpoint \<Rightarrow> bridge_mode \<Rightarrow> ('s, int) state" where
  "pciectl_device_enforce soc ctx ep mode =
     val_then (soc_readl soc (pc_config ctx)) (\<lambda>pcie.
       if mode = bm_disabled
       then soc_writel soc (pc_config ctx) (pcie AND NOT (pe_function_mask ep))
       else val_then (soc_readl soc (pc_misc ctx)) (\<lambda>misc.
         let mask = pciectl_pdata_collect_region_mask (pc_pdata ctx) ep
         in if mask = 0 then ret 0
            else neg_then (soc_writel soc (pc_misc ctx)
                (if mode = bm_restricted then misc OR mask else misc AND NOT mask))
              (do {
                rc \<leftarrow> soc_writel soc (pc_config ctx)
                        (pcie OR (pe_device_mask ep OR pe_function_mask ep));
                (case pc_bridges ctx of
                   None \<Rightarrow> ret rc
                 | Some bridges \<Rightarrow>
                     (case pc_gate soc ctx ep of
                        Inl rc \<Rightarrow> ret rc
                      | Inr gid \<Rightarrow> do { _ \<leftarrow> bridges_enable soc bridges gid; ret 0 })) })))"

text \<open>What status and report do first: the gate, \<open>1\<close> where there is none.\<close>

definition pciectl_gate_status :: "'s soc \<Rightarrow> pciectl \<Rightarrow> pciectl_endpoint \<Rightarrow> ('s, int + int) state" where
  "pciectl_gate_status soc ctx ep =
     (case pc_bridges ctx of
        None \<Rightarrow> ret (Inr 1)
      | Some bridges \<Rightarrow>
          (case pc_gate soc ctx ep of
             Inl rc \<Rightarrow> ret (Inl rc)
           | Inr gid \<Rightarrow> do {
               rc \<leftarrow> bridges_status soc bridges gid;
               ret (if rc < 0 then Inl rc else Inr rc) }))"

definition pciectl_device_status ::
  "'s soc \<Rightarrow> pciectl \<Rightarrow> pciectl_endpoint \<Rightarrow> ('s, int + bridge_mode) state" where
  "pciectl_device_status soc ctx ep =
     valr_then (pciectl_gate_status soc ctx ep) (\<lambda>open.
       if open = 0 then ret (Inr bm_disabled)
       else valr_then (soc_readl soc (pc_config ctx)) (\<lambda>pcie.
         let mask = pe_device_mask ep OR pe_function_mask ep
         in if pcie AND mask \<noteq> mask then ret (Inr bm_disabled)
            else
              let mask = pciectl_pdata_collect_region_mask (pc_pdata ctx) ep
              in if mask = 0 then ret (Inr bm_permissive)
                 else valr_then (soc_readl soc (pc_misc ctx)) (\<lambda>misc.
                   ret (Inr (if misc AND mask = mask then bm_restricted else bm_permissive)))))"

definition pciectl_device_report ::
  "'s soc \<Rightarrow> pciectl \<Rightarrow> pciectl_endpoint \<Rightarrow> ('s, int \<times> string list) state" where
  "pciectl_device_report soc ctx ep = do {
     g \<leftarrow> pciectl_gate_status soc ctx ep;
     (case g of
        Inl rc \<Rightarrow> ret (rc, [])
      | Inr open \<Rightarrow> do {
          v \<leftarrow> soc_readl soc (pc_config ctx);
          (case v of
             Inl rc \<Rightarrow> ret (rc, [])
           | Inr pcie \<Rightarrow>
               let enabled = (open \<noteq> 0 \<and> pcie AND pe_device_mask ep \<noteq> 0);
                   device = tab @ pcie_device_table (pe_device ep) @ '': '' @
                     (if enabled then ''Enabled'' else ''Disabled'');
                   function = tab @ device_function_table (pe_function ep) @ '' on '' @
                     pcie_device_table (pe_device ep) @ '': '' @
                     (if pcie AND pe_function_mask ep \<noteq> 0 then ''Enabled'' else ''Disabled'')
               in ret (0, if enabled then [device, function] else [device])) }) }"

section \<open>All endpoints of a function\<close>

fun pciectl_enforce_loop ::
  "'s soc \<Rightarrow> pciectl \<Rightarrow> bridge_mode \<Rightarrow> device_function \<Rightarrow> pciectl_endpoint list \<Rightarrow> ('s, int) state" where
  "pciectl_enforce_loop soc ctx mode function [] = ret 0"
| "pciectl_enforce_loop soc ctx mode function (ep # eps) =
     (if pe_function ep \<noteq> function then pciectl_enforce_loop soc ctx mode function eps
      else neg_then (pciectl_device_enforce soc ctx ep mode)
        (pciectl_enforce_loop soc ctx mode function eps))"

definition pciectl_enforce ::
  "'s soc \<Rightarrow> pciectl \<Rightarrow> bridge_mode \<Rightarrow> device_function \<Rightarrow> ('s, int) state" where
  "pciectl_enforce soc ctx mode function =
     pciectl_enforce_loop soc ctx mode function (pp_endpoints (pc_pdata ctx))"

fun pciectl_status_loop ::
  "'s soc \<Rightarrow> pciectl \<Rightarrow> bridge_mode \<Rightarrow> device_function \<Rightarrow> pciectl_endpoint list \<Rightarrow>
   ('s, int + bridge_mode) state" where
  "pciectl_status_loop soc ctx aggregate function [] = ret (Inr aggregate)"
| "pciectl_status_loop soc ctx aggregate function (ep # eps) =
     (if pe_function ep \<noteq> function then pciectl_status_loop soc ctx aggregate function eps
      else valr_then (pciectl_device_status soc ctx ep) (\<lambda>mode.
        pciectl_status_loop soc ctx (if mode < aggregate then mode else aggregate) function eps))"

definition pciectl_status ::
  "'s soc \<Rightarrow> pciectl \<Rightarrow> device_function \<Rightarrow> ('s, int + bridge_mode) state" where
  "pciectl_status soc ctx function =
     pciectl_status_loop soc ctx bm_disabled function (pp_endpoints (pc_pdata ctx))"

fun pciectl_report_loop ::
  "'s soc \<Rightarrow> pciectl \<Rightarrow> device_function \<Rightarrow> pciectl_endpoint list \<Rightarrow> ('s, int \<times> string list) state" where
  "pciectl_report_loop soc ctx function [] = ret (0, [])"
| "pciectl_report_loop soc ctx function (ep # eps) =
     (if pe_function ep \<noteq> function then pciectl_report_loop soc ctx function eps
      else do {
        r \<leftarrow> pciectl_device_report soc ctx ep;
        (if fst r < 0 then ret r
         else do {
           rest \<leftarrow> pciectl_report_loop soc ctx function eps;
           ret (fst rest, snd r @ snd rest) }) })"

definition pciectl_report :: "'s soc \<Rightarrow> pciectl \<Rightarrow> device_function \<Rightarrow> ('s, int \<times> string list) state" where
  "pciectl_report soc ctx function = pciectl_report_loop soc ctx function (pp_endpoints (pc_pdata ctx))"

section \<open>P2A\<close>

definition p2actl_enforce :: "'s soc \<Rightarrow> pciectl \<Rightarrow> bridge_mode \<Rightarrow> ('s, int) state" where
  "p2actl_enforce soc ctx mode = pciectl_enforce soc ctx mode device_function_mmio"

definition p2actl_status :: "'s soc \<Rightarrow> pciectl \<Rightarrow> ('s, int + bridge_mode) state" where
  "p2actl_status soc ctx = pciectl_status soc ctx device_function_mmio"

definition p2a_region_line :: "u32 \<Rightarrow> pciectl_p2a_region \<Rightarrow> string" where
  "p2a_region_line misc ep =
     tab @ ''[0x'' @ hex8 (pr_start ep) @ '' - 0x'' @ hex8 (pr_start ep + (pr_length ep - 1)) @
     ''] '' @ pad_left 10 (pr_name ep) @ '': '' @
     (if misc AND pr_mask ep \<noteq> 0 then ''Readable'' else ''Writable'')"

definition p2actl_report ::
  "'s soc \<Rightarrow> pciectl \<Rightarrow> ('s, int \<times> bridge_mode option \<times> string list) state" where
  "p2actl_report soc ctx = do {
     r \<leftarrow> p2actl_status soc ctx;
     (case r of
        Inl rc \<Rightarrow> ret (rc, None, [])
      | Inr mode \<Rightarrow>
          let line = bridgectl_log_status ''p2a'' mode
          in if mode = bm_disabled then ret (0, Some mode, [line])
             else do {
               d \<leftarrow> pciectl_report soc ctx device_function_mmio;
               (if fst d < 0 then ret (fst d, Some mode, line # snd d)
                else do {
                  v \<leftarrow> soc_readl soc (pc_misc ctx);
                  (case v of
                     Inl rc \<Rightarrow> ret (rc, Some mode, line # snd d)
                   | Inr misc \<Rightarrow> ret (0, Some mode, line # snd d @
                       map (p2a_region_line misc) (pp_regions (pc_pdata ctx)))) }) }) }"

definition p2actl :: "'s soc \<Rightarrow> pciectl \<Rightarrow> 's bridgectl" where
  "p2actl soc ctx = \<lparr>bc_name = ''p2a'', bc_enforce = p2actl_enforce soc ctx,
     bc_status = p2actl_status soc ctx, bc_report = p2actl_report soc ctx\<rparr>"

section \<open>XDMA\<close>

definition xdmactl_enforce :: "'s soc \<Rightarrow> pciectl \<Rightarrow> bridge_mode \<Rightarrow> ('s, int) state" where
  "xdmactl_enforce soc ctx mode =
     neg_then (sdmc_configure_xdma soc (pc_sdmc ctx) (mode = bm_permissive))
       (pciectl_enforce soc ctx mode device_function_xdma)"

definition xdmactl_status :: "'s soc \<Rightarrow> pciectl \<Rightarrow> ('s, int + bridge_mode) state" where
  "xdmactl_status soc ctx =
     valr_then (pciectl_status soc ctx device_function_xdma) (\<lambda>mode. do {
       rc \<leftarrow> sdmc_constrains_xdma soc (pc_sdmc ctx);
       ret (if rc < 0 then Inl rc
            else Inr (if mode = bm_permissive \<and> rc \<noteq> 0 then bm_restricted else mode)) })"

definition xdmactl_report ::
  "'s soc \<Rightarrow> pciectl \<Rightarrow> ('s, int \<times> bridge_mode option \<times> string list) state" where
  "xdmactl_report soc ctx = do {
     r \<leftarrow> xdmactl_status soc ctx;
     (case r of
        Inl rc \<Rightarrow> ret (rc, None, [])
      | Inr mode \<Rightarrow>
          let line = bridgectl_log_status ''xdma'' mode
          in if mode = bm_disabled then ret (0, Some mode, [line])
             else do {
               d \<leftarrow> pciectl_report soc ctx device_function_xdma;
               (if fst d < 0 then ret (fst d, Some mode, line # snd d)
                else do {
                  rc \<leftarrow> sdmc_constrains_xdma soc (pc_sdmc ctx);
                  ret (if rc < 0 then (rc, Some mode, line # snd d)
                       else (0, Some mode, line # snd d @
                         [tab @ ''XDMA is constrained: '' @ (if rc \<noteq> 0 then ''Yes'' else ''No'')])) }) }) }"

definition xdmactl :: "'s soc \<Rightarrow> pciectl \<Rightarrow> 's bridgectl" where
  "xdmactl soc ctx = \<lparr>bc_name = ''xdma'', bc_enforce = xdmactl_enforce soc ctx,
     bc_status = xdmactl_status soc ctx, bc_report = xdmactl_report soc ctx\<rparr>"

section \<open>Without gates\<close>

text \<open>
  The platforms up to the AST2500 have no gates: what a device does depends on the
  configuration and filter registers only.
\<close>

definition region_mask :: "pciectl \<Rightarrow> u32" where
  "region_mask ctx = foldl (\<lambda>mask ep. mask OR pr_mask ep) 0 (pp_regions (pc_pdata ctx))"

lemma collect_region_mask [simp]:
  "pciectl_pdata_collect_region_mask (pc_pdata ctx) ep =
     (if pe_function ep = device_function_mmio then region_mask ctx else 0)"
  by (simp add: pciectl_pdata_collect_region_mask_def region_mask_def)

fun device_mode :: "pciectl \<Rightarrow> u32 \<Rightarrow> u32 \<Rightarrow> pciectl_endpoint \<Rightarrow> bridge_mode" where
  "device_mode ctx c m ep =
     (let mask = pe_device_mask ep OR pe_function_mask ep
      in if c AND mask \<noteq> mask then bm_disabled
         else if pe_function ep = device_function_mmio \<and> region_mask ctx \<noteq> 0 \<and>
           m AND region_mask ctx = region_mask ctx then bm_restricted else bm_permissive)"

definition function_mode :: "pciectl \<Rightarrow> device_function \<Rightarrow> u32 \<Rightarrow> u32 \<Rightarrow> bridge_mode" where
  "function_mode ctx f c m =
     foldr (\<lambda>ep. min (device_mode ctx c m ep)) (filter (\<lambda>ep. pe_function ep = f) (pp_endpoints (pc_pdata ctx)))
       bm_disabled"

locale ungated_pcie = soc_bus ops invar reg eff soc
  for ops :: "'s ahb_ops" and invar and reg :: "'s \<Rightarrow> u32 \<Rightarrow> u32" and eff and soc +
  fixes ctx :: pciectl
  assumes no_gates: "pc_bridges ctx = None"
    and aligned: "word_aligned (pc_config ctx)" "word_aligned (pc_misc ctx)"
      "word_aligned (rg_start (sdmc_iomem (pc_sdmc ctx)))"
    and apart: "pc_config ctx \<noteq> pc_misc ctx" "pc_config ctx \<noteq> rg_start (sdmc_iomem (pc_sdmc ctx)) + 8"
      "pc_misc ctx \<noteq> rg_start (sdmc_iomem (pc_sdmc ctx)) + 8"
    and plain: "eff r (pc_config ctx) v = r(pc_config ctx := v)" "eff r (pc_misc ctx) v = r(pc_misc ctx := v)"
      "eff r (rg_start (sdmc_iomem (pc_sdmc ctx)) + 8) v = r(rg_start (sdmc_iomem (pc_sdmc ctx)) + 8 := v)"
    and masked: "ep \<in> set (pp_endpoints (pc_pdata ctx)) \<Longrightarrow> pe_function_mask ep \<noteq> 0"
    and filtered: "region_mask ctx \<noteq> 0"
begin

lemma device_status:
  assumes "invar s"
  shows "fst (run_state (pciectl_device_status soc ctx ep) s) =
      Inr (device_mode ctx (reg s (pc_config ctx)) (reg s (pc_misc ctx)) ep)"
    and "reg (snd (run_state (pciectl_device_status soc ctx ep) s)) = reg s"
    and "invar (snd (run_state (pciectl_device_status soc ctx ep) s))"
  using assms aligned no_gates filtered
  by (simp_all add: pciectl_device_status_def pciectl_gate_status_def Let_def)

lemma status_loop:
  assumes "invar s"
  shows "fst (run_state (pciectl_status_loop soc ctx a f eps) s) =
      Inr (min a (foldr (\<lambda>ep. min (device_mode ctx (reg s (pc_config ctx)) (reg s (pc_misc ctx)) ep))
        (filter (\<lambda>ep. pe_function ep = f) eps) bm_disabled)) \<and>
    reg (snd (run_state (pciectl_status_loop soc ctx a f eps) s)) = reg s \<and>
    invar (snd (run_state (pciectl_status_loop soc ctx a f eps) s))"
  using assms
proof (induction eps arbitrary: a s)
  case (Cons ep eps)
  have "(if m < a then m else a) = min a m" for m :: bridge_mode by (auto simp: min_def)
  with Cons show ?case by (simp add: device_status min.assoc del: device_mode.simps)
qed simp

lemma pcie_status [simp]:
  assumes "invar s"
  shows "fst (run_state (pciectl_status soc ctx f) s) =
      Inr (function_mode ctx f (reg s (pc_config ctx)) (reg s (pc_misc ctx)))"
    and "reg (snd (run_state (pciectl_status soc ctx f) s)) = reg s"
    and "invar (snd (run_state (pciectl_status soc ctx f) s))"
  using status_loop [OF assms] by (simp_all add: pciectl_status_def function_mode_def)

text \<open>What enforcing a mode leaves in the configuration and in the filter.\<close>

fun config_after :: "bridge_mode \<Rightarrow> device_function \<Rightarrow> pciectl_endpoint list \<Rightarrow> u32 \<Rightarrow> u32" where
  "config_after mode f [] c = c"
| "config_after mode f (ep # eps) c =
     config_after mode f eps
       (if pe_function ep \<noteq> f then c
        else if mode = bm_disabled then c AND NOT (pe_function_mask ep)
        else if f = device_function_mmio then c OR (pe_device_mask ep OR pe_function_mask ep) else c)"

fun misc_after :: "bridge_mode \<Rightarrow> device_function \<Rightarrow> pciectl_endpoint list \<Rightarrow> u32 \<Rightarrow> u32" where
  "misc_after mode f [] m = m"
| "misc_after mode f (ep # eps) m =
     misc_after mode f eps
       (if pe_function ep \<noteq> f \<or> mode = bm_disabled \<or> f \<noteq> device_function_mmio then m
        else if mode = bm_restricted then m OR region_mask ctx else m AND NOT (region_mask ctx))"

lemma device_enforce:
  assumes "invar s" "r = run_state (pciectl_device_enforce soc ctx ep mode) s"
  shows "fst r = 0"
    and "reg (snd r) = (reg s)
      (pc_config ctx := config_after mode (pe_function ep) [ep] (reg s (pc_config ctx)),
       pc_misc ctx := misc_after mode (pe_function ep) [ep] (reg s (pc_misc ctx)))"
    and "invar (snd r)"
  using assms aligned no_gates plain filtered apart
  by (auto simp: pciectl_device_enforce_def Let_def fun_eq_iff)

lemma enforce_loop:
  assumes "invar s" "r = run_state (pciectl_enforce_loop soc ctx mode f eps) s"
  shows "fst r = 0 \<and> invar (snd r) \<and> reg (snd r) = (reg s)
      (pc_config ctx := config_after mode f eps (reg s (pc_config ctx)),
       pc_misc ctx := misc_after mode f eps (reg s (pc_misc ctx)))"
  using assms
proof (induction eps arbitrary: r s)
  case (Cons ep eps)
  show ?case
  proof (cases "pe_function ep = f")
    case True
    let ?s = "snd (run_state (pciectl_device_enforce soc ctx ep mode) s)"
    note d = device_enforce [OF Cons.prems(1) refl, of ep mode]
    have "r = run_state (pciectl_enforce_loop soc ctx mode f eps) ?s"
      using Cons.prems(2) True d(1) by simp
    from Cons.IH [OF d(3) this] show ?thesis using True apart d(2) by (simp add: fun_eq_iff)
  qed (use Cons in simp)
qed (simp add: fun_eq_iff)

lemma pcie_enforce:
  assumes "invar s" "r = run_state (pciectl_enforce soc ctx mode f) s"
  shows "fst r = 0 \<and> invar (snd r) \<and> reg (snd r) = (reg s)
      (pc_config ctx := config_after mode f (pp_endpoints (pc_pdata ctx)) (reg s (pc_config ctx)),
       pc_misc ctx := misc_after mode f (pp_endpoints (pc_pdata ctx)) (reg s (pc_misc ctx)))"
  using enforce_loop [OF assms(1)] assms(2) by (simp add: pciectl_enforce_def)

lemma config_after_cleared:
  "c AND x = 0 \<Longrightarrow> config_after bm_disabled f eps c AND x = 0"
proof (induction eps arbitrary: c)
  case (Cons ep eps)
  have "(c AND NOT y) AND x = 0" for y
    using Cons.prems by (auto simp: bit_eq_iff bit_simps)
  with Cons show ?case by simp
qed simp

lemma config_after_disabled:
  "ep \<in> set eps \<Longrightarrow> pe_function ep = f \<Longrightarrow> config_after bm_disabled f eps c AND pe_function_mask ep = 0"
proof (induction eps arbitrary: c)
  case (Cons e eps)
  have "(c AND NOT y) AND y = 0" for y by (auto simp: bit_eq_iff bit_simps)
  with Cons show ?case by (auto intro: config_after_cleared)
qed simp

lemma config_after_set:
  "mode \<noteq> bm_disabled \<Longrightarrow> c AND x = x \<Longrightarrow> config_after mode f eps c AND x = x"
proof (induction eps arbitrary: c)
  case (Cons ep eps)
  have "(c OR y) AND x = x" for y
    using Cons.prems(2) by (auto simp: bit_eq_iff bit_simps)
  with Cons show ?case by simp
qed simp

lemma config_after_enabled:
  "mode \<noteq> bm_disabled \<Longrightarrow> ep \<in> set eps \<Longrightarrow> pe_function ep = device_function_mmio \<Longrightarrow>
   config_after mode device_function_mmio eps c AND (pe_device_mask ep OR pe_function_mask ep) =
     (pe_device_mask ep OR pe_function_mask ep)"
proof (induction eps arbitrary: c)
  case (Cons e eps)
  have "(c OR y) AND y = y" for y by (auto simp: bit_eq_iff bit_simps)
  with Cons show ?case by (auto intro: config_after_set)
qed simp

lemma misc_after_mmio:
  assumes "\<exists>ep \<in> set eps. pe_function ep = device_function_mmio"
  shows "misc_after bm_restricted device_function_mmio eps m AND region_mask ctx = region_mask ctx"
    and "misc_after bm_permissive device_function_mmio eps m AND region_mask ctx = 0"
proof -
  have [simp]: "(m OR y) AND y = y" "(m AND NOT y) AND y = 0" for m y :: u32
    by (auto simp: bit_eq_iff bit_simps)
  have r: "m AND region_mask ctx = region_mask ctx \<Longrightarrow>
      misc_after bm_restricted device_function_mmio eps m AND region_mask ctx = region_mask ctx"
    and p: "m AND region_mask ctx = 0 \<Longrightarrow>
      misc_after bm_permissive device_function_mmio eps m AND region_mask ctx = 0" for m eps
    by (induction eps arbitrary: m) simp_all
  from assms show "misc_after bm_restricted device_function_mmio eps m AND region_mask ctx = region_mask ctx"
    "misc_after bm_permissive device_function_mmio eps m AND region_mask ctx = 0"
    by (induction eps arbitrary: m) (auto intro: r p)
qed

lemma min_all:
  assumes "\<And>ep. ep \<in> set eps \<Longrightarrow> g ep = (m :: bridge_mode)" "eps \<noteq> []"
  shows "foldr (\<lambda>ep. min (g ep)) eps bm_disabled = m"
  using assms by (induction eps) (auto, metis (full_types) bm_disabled_min(1) foldr_Nil id_apply min.idem)

lemma p2a_mode_after:
  assumes "\<exists>ep \<in> set (pp_endpoints (pc_pdata ctx)). pe_function ep = device_function_mmio"
  shows "function_mode ctx device_function_mmio
    (config_after mode device_function_mmio (pp_endpoints (pc_pdata ctx)) c)
    (misc_after mode device_function_mmio (pp_endpoints (pc_pdata ctx)) m) = mode"
  unfolding function_mode_def
proof (rule min_all)
  fix ep
  assume "ep \<in> set (filter (\<lambda>ep. pe_function ep = device_function_mmio) (pp_endpoints (pc_pdata ctx)))"
  then have ep: "ep \<in> set (pp_endpoints (pc_pdata ctx))" "pe_function ep = device_function_mmio" by auto
  have off: "x AND (d OR y) \<noteq> d OR y" if "x AND y = 0" "y \<noteq> 0" for x y d :: u32
    using that by (auto simp: bit_eq_iff bit_simps)
  show "device_mode ctx (config_after mode device_function_mmio (pp_endpoints (pc_pdata ctx)) c)
      (misc_after mode device_function_mmio (pp_endpoints (pc_pdata ctx)) m) ep = mode"
    using off [OF config_after_disabled [OF ep] masked [OF ep(1)]] config_after_enabled [OF _ ep]
      misc_after_mmio [OF assms] filtered ep(2)
    by (cases mode) (simp_all add: Let_def)
qed (use assms in \<open>auto simp: filter_empty_conv\<close>)

lemma p2actl_ctl:
  assumes "\<exists>ep \<in> set (pp_endpoints (pc_pdata ctx)). pe_function ep = device_function_mmio"
  shows "bridge_ctl (p2actl soc ctx) invar
    (\<lambda>s. function_mode ctx device_function_mmio (reg s (pc_config ctx)) (reg s (pc_misc ctx))) (\<lambda>m. m)"
proof
  fix s s' m
  assume s: "invar s"
  show "s' = snd (run_state (bc_enforce (p2actl soc ctx) m) s) \<Longrightarrow>
      fst (run_state (bc_enforce (p2actl soc ctx) m) s) = 0 \<and> invar s' \<and>
      function_mode ctx device_function_mmio (reg s' (pc_config ctx)) (reg s' (pc_misc ctx)) = m"
    using pcie_enforce [OF s refl, of m device_function_mmio] p2a_mode_after [OF assms] apart
    by (simp add: p2actl_def p2actl_enforce_def)
qed (simp_all add: p2actl_def p2actl_status_def)

lemma config_after_xdma:
  "config_after mode device_function_xdma eps c =
     (if mode = bm_disabled then config_after bm_disabled device_function_xdma eps c else c)"
  by (induction eps arbitrary: c) simp_all

lemma misc_after_xdma [simp]: "misc_after mode device_function_xdma eps m = m"
  by (induction eps) simp_all

definition xdma_on :: "u32 \<Rightarrow> bool" where
  "xdma_on c \<longleftrightarrow> (\<exists>ep \<in> set (pp_endpoints (pc_pdata ctx)). pe_function ep = device_function_xdma \<and>
     c AND (pe_device_mask ep OR pe_function_mask ep) = pe_device_mask ep OR pe_function_mask ep)"

lemma xdma_mode:
  "function_mode ctx device_function_xdma c m = (if xdma_on c then bm_permissive else bm_disabled)"
proof -
  have [simp]: "min bm_permissive x = bm_permissive" for x
    by (cases x) (simp_all add: min_def less_eq_bridge_mode_def)
  have "foldr (\<lambda>ep. min (device_mode ctx c m ep)) (filter (\<lambda>ep. pe_function ep = device_function_xdma) eps) bm_disabled
      = (if \<exists>ep \<in> set eps. pe_function ep = device_function_xdma \<and>
           c AND (pe_device_mask ep OR pe_function_mask ep) = pe_device_mask ep OR pe_function_mask ep
         then bm_permissive else bm_disabled)" for eps
    by (induction eps) (simp_all add: Let_def)
  then show ?thesis by (simp add: function_mode_def xdma_on_def)
qed

lemma xdma_off: "\<not> xdma_on (config_after bm_disabled device_function_xdma (pp_endpoints (pc_pdata ctx)) c)"
proof -
  have off: "x AND (d OR y) \<noteq> d OR y" if "x AND y = 0" "y \<noteq> 0" for x y d :: u32
    using that by (auto simp: bit_eq_iff bit_simps)
  show ?thesis
    using off [OF config_after_disabled masked] unfolding xdma_on_def by blast
qed

lemma xdmactl_status:
  assumes "invar s"
  shows "fst (run_state (xdmactl_status soc ctx) s) =
    Inr (if \<not> xdma_on (reg s (pc_config ctx)) then bm_disabled
         else if reg s (rg_start (sdmc_iomem (pc_sdmc ctx)) + 8) AND gmp_xdma_mask (sdmc_pdata (pc_sdmc ctx)) \<noteq> 0
         then bm_restricted else bm_permissive)"
  using assms aligned(3) by (simp add: xdmactl_status_def constrains_xdma xdma_mode)

lemma xdmactl_enforce:
  assumes "invar s" "r = run_state (xdmactl_enforce soc ctx mode) s"
    and "gmp_xdma_mask (sdmc_pdata (pc_sdmc ctx)) \<noteq> 0"
  shows "fst r = 0 \<and> invar (snd r) \<and>
    (mode \<noteq> bm_disabled \<longrightarrow> reg (snd r) (pc_config ctx) = reg s (pc_config ctx)) \<and>
    (mode = bm_disabled \<longrightarrow> \<not> xdma_on (reg (snd r) (pc_config ctx))) \<and>
    (reg (snd r) (rg_start (sdmc_iomem (pc_sdmc ctx)) + 8) AND gmp_xdma_mask (sdmc_pdata (pc_sdmc ctx)) \<noteq> 0
       \<longleftrightarrow> mode = bm_permissive)"
proof -
  let ?g = "rg_start (sdmc_iomem (pc_sdmc ctx)) + 8" and ?m = "gmp_xdma_mask (sdmc_pdata (pc_sdmc ctx))"
  let ?s = "snd (run_state (sdmc_configure_xdma soc (pc_sdmc ctx) (mode = bm_permissive)) s)"
  note c = configure_xdma [OF assms(1) aligned(3), of "mode = bm_permissive"]
  have r: "r = run_state (pciectl_enforce soc ctx mode device_function_xdma) ?s"
    using assms(2) c(1) by (simp add: xdmactl_enforce_def)
  have b: "(x AND NOT m) AND m = 0" "((x AND NOT m) OR m) AND m = m" for x m :: u32
    by (auto simp: bit_eq_iff bit_simps)
  note p = pcie_enforce [OF c(3) r]
  have cfg: "reg (snd r) (pc_config ctx) =
      config_after mode device_function_xdma (pp_endpoints (pc_pdata ctx)) (reg s (pc_config ctx))"
    using p apart by (simp add: c(2) plain(3))
  have gmp: "reg (snd r) ?g = (reg s ?g AND NOT ?m) OR ?m * of_bool (mode = bm_permissive)"
    using p apart by (simp add: c(2) plain(3))
  have "reg (snd r) ?g AND ?m \<noteq> 0 \<longleftrightarrow> mode = bm_permissive"
    unfolding gmp using assms(3) by (cases "mode = bm_permissive") (simp_all only: b of_bool_eq mult_1_right mult_zero_right or.right_neutral simp_thms)
  moreover have "mode = bm_disabled \<Longrightarrow> \<not> xdma_on (reg (snd r) (pc_config ctx))"
    using xdma_off cfg by simp
  moreover have "mode \<noteq> bm_disabled \<Longrightarrow> reg (snd r) (pc_config ctx) = reg s (pc_config ctx)"
    using config_after_xdma [of mode] cfg by simp
  ultimately show ?thesis using p by blast
qed

end

section \<open>The controllers behind the P2A bridge\<close>

definition pciectl2500 :: pciectl where
  "pciectl2500 = \<lparr>pc_bridges = None, pc_node = 0,
     pc_scu = \<lparr>rg_start = 0x1e6e2000, rg_length = 0x1000\<rparr>, pc_pdata = ast2500_pcie_pdata,
     pc_sdmc = \<lparr>sdmc_iomem = \<lparr>rg_start = 0x1e6e0000, rg_length = 0x1000\<rparr>,
       sdmc_dram = \<lparr>rg_start = 0x80000000, rg_length = 0x40000000\<rparr>, sdmc_pdata = ast2500_sdmc_pdata\<rparr>\<rparr>"

interpretation pciectl2500: ungated_pcie "p2ab_ahb_ops (p2a_mmio (regfile (strap2500_eff 0x1e6e2000))) 0"
    p2a_ok p2a_regs "strap2500_eff 0x1e6e2000" soc2500 pciectl2500
  by unfold_locales
    (auto simp: pciectl2500_def ast2500_pcie_pdata_def pc_config_def pc_misc_def strap2500_eff_def
      ast2500_pcie_bridges_def pcie_endpoint_def region_mask_def ast2500_p2a_regions_def BIT_def)

interpretation pciectl2500_p2a: bridge_ctl "p2actl soc2500 pciectl2500" p2a_ok
    "\<lambda>s. function_mode pciectl2500 device_function_mmio (p2a_regs s (pc_config pciectl2500))
       (p2a_regs s (pc_misc pciectl2500))" "\<lambda>m. m"
  by (rule pciectl2500.p2actl_ctl)
    (simp add: pciectl2500_def ast2500_pcie_pdata_def ast2500_pcie_bridges_def pcie_endpoint_def)

section \<open>Properties\<close>

text \<open>
  Claim C35. Enforcing a mode on the P2A bridge of the AST2400 and AST2500 succeeds, the status
  then read is that mode, and no register but the PCIe configuration and the region filter
  has changed: disabling turns off the memory function of both PCIe devices, and the other
  modes enable both and set or clear every filter bit.
\<close>

theorem p2actl_enforce_status:
  assumes "ungated_pcie ops invar reg eff soc ctx" "pc_pdata ctx \<in> {ast2400_pcie_pdata, ast2500_pcie_pdata}"
    and "invar s" "s' = snd (run_state (p2actl_enforce soc ctx mode) s)"
  shows "fst (run_state (p2actl_enforce soc ctx mode) s) = 0 \<and>
    fst (run_state (p2actl_status soc ctx) s') = Inr mode \<and>
    (\<forall>a. a \<notin> {pc_config ctx, pc_misc ctx} \<longrightarrow> reg s' a = reg s a)"
proof -
  have ep: "\<exists>ep \<in> set (pp_endpoints (pc_pdata ctx)). pe_function ep = device_function_mmio"
    using assms(2) by (auto simp: ast2400_pcie_pdata_def ast2500_pcie_pdata_def ast2400_pcie_bridges_def
        ast2500_pcie_bridges_def pcie_endpoint_def)
  note ctl = ungated_pcie.p2actl_ctl [OF assms(1) ep]
  have "fst (run_state (p2actl_enforce soc ctx mode) s) = 0 \<and>
      fst (run_state (p2actl_status soc ctx) s') = Inr mode"
    using bridge_ctl.enforce_status [OF ctl assms(3), of s' mode] assms(4)
    by (simp add: bridgectl_enforce_def bridgectl_status_def p2actl_def)
  moreover have "\<forall>a. a \<notin> {pc_config ctx, pc_misc ctx} \<longrightarrow> reg s' a = reg s a"
    using ungated_pcie.pcie_enforce [OF assms(1,3) refl, of mode device_function_mmio] assms(4)
    by (simp add: p2actl_enforce_def)
  ultimately show ?thesis by simp
qed

theorem p2actl_enforce_status_witness:
  "fst (run_state (p2actl_enforce soc2500 pciectl2500 bm_restricted) (p2a_start (\<lambda>_. 0))) = 0"
  using p2actl_enforce_status [OF pciectl2500.ungated_pcie_axioms _ p2a_start_inv refl]
  by (simp add: pciectl2500_def)

text \<open>
  The XDMA controller applies the memory constraint the wrong way round and never
  enables the bridge: on the platforms without gates, enforcing the permissive mode sets
  the constraint, so an enabled XDMA then reads as restricted; enforcing the restricted
  mode lifts it, so it reads as permissive; where no XDMA function is enabled, the status
  stays disabled whatever mode is enforced. Only disabling does what it says.
\<close>

theorem xdmactl_enforce_inverted:
  assumes "ungated_pcie ops invar reg eff soc ctx" "invar s"
    and "sdmc_pdata (pc_sdmc ctx) \<in> sdmc_pdatas"
    and "r = run_state (xdmactl_enforce soc ctx mode) s"
    and "fst (run_state (pciectl_status soc ctx device_function_xdma) s) =
      Inr (if on then bm_permissive else bm_disabled)"
  shows "fst r = 0 \<and> fst (run_state (xdmactl_status soc ctx) (snd r)) =
    Inr (if mode = bm_disabled \<or> \<not> on then bm_disabled
         else if mode = bm_permissive then bm_restricted else bm_permissive)"
proof -
  note u = assms(1)
  have "gmp_xdma_mask (sdmc_pdata (pc_sdmc ctx)) \<noteq> 0"
    using assms(3) by (auto simp: sdmc_pdatas_def ast2400_sdmc_pdata_def ast2500_sdmc_pdata_def
        ast2600_sdmc_pdata_def BIT_def)
  note e = ungated_pcie.xdmactl_enforce [OF u assms(2,4) this]
  have "on \<longleftrightarrow> ungated_pcie.xdma_on ctx (reg s (pc_config ctx))"
    using assms(5) ungated_pcie.pcie_status(1) [OF u assms(2)] ungated_pcie.xdma_mode [OF u]
    by (simp split: if_splits)
  then show ?thesis
    using e ungated_pcie.xdmactl_status [OF u, of "snd r"] by (cases mode) auto
qed

theorem xdmactl_enforce_inverted_witness:
  "fst (run_state (xdmactl_enforce soc2500 pciectl2500 bm_permissive) (p2a_start (\<lambda>_. 0x4100))) = 0 \<and>
   fst (run_state (xdmactl_status soc2500 pciectl2500)
     (snd (run_state (xdmactl_enforce soc2500 pciectl2500 bm_permissive) (p2a_start (\<lambda>_. 0x4100))))) =
     Inr bm_restricted"
proof -
  have "function_mode pciectl2500 device_function_xdma 0x4100 m = bm_permissive" for m
    by (simp add: function_mode_def pciectl2500_def ast2500_pcie_pdata_def ast2500_pcie_bridges_def
        pcie_endpoint_def BIT_def Let_def min_def less_eq_bridge_mode_def)
  then have "fst (run_state (pciectl_status soc2500 pciectl2500 device_function_xdma)
      (p2a_start (\<lambda>_. 0x4100))) = Inr (if True then bm_permissive else bm_disabled)"
    using pciectl2500.pcie_status(1) [OF p2a_start_inv] by simp
  then show ?thesis
    using xdmactl_enforce_inverted [OF pciectl2500.ungated_pcie_axioms p2a_start_inv _ refl,
        where on = True and mode = bm_permissive]
    by (simp add: pciectl2500_def sdmc_pdatas_def)
qed

end
