(* ===== verification/OsClock.thy ===== *)
theory OsClock
  imports Prelude
begin

text \<open>
  The clock of the operating system, \<open>clock_gettime\<close> and \<open>clock_nanosleep\<close>: parameters of the
  code that waits. \<open>mono_clock\<close> states what is documented of the monotonic clock: it does not run
  backwards, and a sleep that reports success lasted at least as long as asked for.
\<close>

type_synonym timespec = "int \<times> int"

record 's os_clock =
  clk_gettime :: "('s, timespec) state"
  clk_nanosleep :: "timespec \<Rightarrow> ('s, int) state"

definition nanos :: "timespec \<Rightarrow> int" where
  "nanos t = fst t * 1000000000 + snd t"

definition normal_time :: "timespec \<Rightarrow> bool" where
  "normal_time t \<longleftrightarrow> 0 \<le> snd t \<and> snd t < 1000000000"

definition diff_timespec :: "timespec \<Rightarrow> timespec \<Rightarrow> timespec" where
  "diff_timespec start end' =
     (let sec = fst end' - fst start; nsec = snd end' - snd start
      in if nsec < 0 then (sec - 1, nsec + 1000000000) else (sec, nsec))"

lemma diff_timespec_nanos: "nanos (diff_timespec start end') = nanos end' - nanos start"
  by (simp add: diff_timespec_def nanos_def Let_def)

lemma diff_timespec_normal:
  "normal_time start \<Longrightarrow> normal_time end' \<Longrightarrow> normal_time (diff_timespec start end')"
  by (auto simp: diff_timespec_def normal_time_def Let_def)

lemma under_limit:
  assumes "normal_time d" "0 \<le> nanos d" "0 < l" "l \<le> 1000000000"
  shows "fst d = 0 \<and> snd d < l \<longleftrightarrow> nanos d < l"
proof -
  have "0 \<le> snd d" "snd d < 1000000000" using assms(1) by (simp_all add: normal_time_def)
  with assms(2-) show ?thesis unfolding nanos_def by (cases "fst d = 0") auto
qed

locale mono_clock =
  fixes os :: "'s os_clock" and now :: "'s \<Rightarrow> int"
  assumes gettime: "normal_time (fst (run_state (clk_gettime os) s))"
      "nanos (fst (run_state (clk_gettime os) s)) = now (snd (run_state (clk_gettime os) s))"
      "now s \<le> now (snd (run_state (clk_gettime os) s))"
    and nanosleep: "now s \<le> now (snd (run_state (clk_nanosleep os d) s))"
      "fst (run_state (clk_nanosleep os d) s) = 0 \<Longrightarrow>
       now s + nanos d \<le> now (snd (run_state (clk_nanosleep os d) s))"

text \<open>A clock that counts nanoseconds, next to any other state.\<close>

definition counter_clock :: "('s \<times> nat) os_clock" where
  "counter_clock = \<lparr>
     clk_gettime = gets (\<lambda>p. (int (snd p) div 1000000000, int (snd p) mod 1000000000)),
     clk_nanosleep = (\<lambda>d. do { modify (\<lambda>p. (fst p, snd p + nat (nanos d))); ret 0 }) \<rparr>"

interpretation counter_clock: mono_clock counter_clock "\<lambda>p. int (snd p)"
  by unfold_locales (auto simp: counter_clock_def normal_time_def nanos_def)

end
