(* ===== verification/Otp.thy ===== *)
theory Otp
  imports SocBus OsClock
begin

text \<open>
  The one-time programmable memory of the AST2600, \<^verbatim>\<open>src/soc/otp.c\<close>: reading and programming
  words through the secure boot controller, programming configuration bits and straps. The
  retry loop and the conditions under which a bit may be programmed are the point: programming
  cannot be undone. The clock and the line typed at the terminal are parameters; log output
  is not modelled.
\<close>

section \<open>Register accesses\<close>

definition OTP_PASSWD :: u32 where "OTP_PASSWD = 0x349fe38a"
definition OTP_TRIGGER_PROGRAM :: u32 where "OTP_TRIGGER_PROGRAM = 0x23b1e364"
definition OTP_TRIGGER_READ :: u32 where "OTP_TRIGGER_READ = 0x23b1e361"
definition OTP_TRIGGER_WRITE_REG :: u32 where "OTP_TRIGGER_WRITE_REG = 0x23b1e362"
definition OTP_PROTECT_KEY :: u32 where "OTP_PROTECT_KEY = 0x00"
definition OTP_COMMAND :: u32 where "OTP_COMMAND = 0x04"
definition OTP_TIMING :: u32 where "OTP_TIMING = 0x08"
definition OTP_ADDR :: u32 where "OTP_ADDR = 0x10"
definition OTP_STATUS :: u32 where "OTP_STATUS = 0x14"
definition OTP_STATUS_IDLE :: u32 where "OTP_STATUS_IDLE = 0x6"
definition OTP_COMPARE_1 :: u32 where "OTP_COMPARE_1 = 0x20"
definition NUM_OTP_CONF :: nat where "NUM_OTP_CONF = 16"
definition NUM_PROG_TRIES :: nat where "NUM_PROG_TRIES = 16"

lemmas otp_regs = OTP_PROTECT_KEY_def OTP_COMMAND_def OTP_TIMING_def OTP_ADDR_def OTP_STATUS_def
  OTP_COMPARE_1_def
lemmas otp_magic = OTP_PASSWD_def OTP_TRIGGER_PROGRAM_def OTP_TRIGGER_READ_def OTP_TRIGGER_WRITE_REG_def

record otp =
  otp_iomem :: soc_region
  otp_timings :: "u32 list"
  otp_soak_parameters :: "u32 list list"

definition otp_readl :: "'s soc \<Rightarrow> otp \<Rightarrow> u32 \<Rightarrow> ('s, int + u32) state" where
  "otp_readl soc otp offset = soc_readl soc (rg_start (otp_iomem otp) + offset)"

definition otp_writel :: "'s soc \<Rightarrow> otp \<Rightarrow> u32 \<Rightarrow> u32 \<Rightarrow> ('s, int) state" where
  "otp_writel soc otp offset val = soc_writel soc (rg_start (otp_iomem otp) + offset) val"

section \<open>Commands\<close>

text \<open>
  The polling loop of \<open>otp_wait_complete\<close>. The fuel counts polls: each successful sleep lasts a
  millisecond at least and the loop gives up after half a second, so 500 polls are all there
  can be.
\<close>

definition OTP_POLLS :: nat where "OTP_POLLS = 500"

fun otp_wait_loop :: "nat \<Rightarrow> 's os_clock \<Rightarrow> 's soc \<Rightarrow> otp \<Rightarrow> timespec \<Rightarrow> ('s, int) state" where
  "otp_wait_loop 0 os soc otp start = ret (- ETIMEDOUT)"
| "otp_wait_loop (Suc n) os soc otp start =
     val_then (otp_readl soc otp OTP_STATUS) (\<lambda>reg.
       if reg AND OTP_STATUS_IDLE = OTP_STATUS_IDLE then ret 0
       else nz_then (clk_nanosleep os (0, 1000000)) (do {
         end' \<leftarrow> clk_gettime os;
         (let diff = diff_timespec start end'
          in if fst diff = 0 \<and> snd diff < 500000000 then otp_wait_loop n os soc otp start
             else ret (- ETIMEDOUT)) }))"

definition otp_wait_complete :: "'s os_clock \<Rightarrow> 's soc \<Rightarrow> otp \<Rightarrow> ('s, int) state" where
  "otp_wait_complete os soc otp = do {
     start \<leftarrow> clk_gettime os;
     otp_wait_loop OTP_POLLS os soc otp start }"

definition otp_program :: "'s os_clock \<Rightarrow> 's soc \<Rightarrow> otp \<Rightarrow> u32 \<Rightarrow> u32 \<Rightarrow> ('s, int) state" where
  "otp_program os soc otp addr val =
     neg_then (otp_writel soc otp OTP_ADDR addr)
     (neg_then (otp_writel soc otp OTP_COMPARE_1 val)
     (neg_then (otp_writel soc otp OTP_COMMAND OTP_TRIGGER_PROGRAM)
       (otp_wait_complete os soc otp)))"

definition otp_read_reg :: "'s os_clock \<Rightarrow> 's soc \<Rightarrow> otp \<Rightarrow> u32 \<Rightarrow> ('s, int + u32) state" where
  "otp_read_reg os soc otp addr = do {
     rc \<leftarrow> neg_then (otp_writel soc otp OTP_ADDR addr)
       (neg_then (otp_writel soc otp OTP_COMMAND OTP_TRIGGER_READ)
         (otp_wait_complete os soc otp));
     (if rc < 0 then ret (Inl rc) else otp_readl soc otp OTP_COMPARE_1) }"

definition config_address :: "nat \<Rightarrow> u32" where
  "config_address offset = 0x800 OR of_nat (offset div 8 * 0x200) OR of_nat (offset mod 8 * 2)"

definition otp_read_config :: "'s os_clock \<Rightarrow> 's soc \<Rightarrow> otp \<Rightarrow> nat \<Rightarrow> ('s, int + u32) state" where
  "otp_read_config os soc otp offset = otp_read_reg os soc otp (config_address offset)"

definition otp_write_reg :: "'s os_clock \<Rightarrow> 's soc \<Rightarrow> otp \<Rightarrow> u32 \<Rightarrow> u32 \<Rightarrow> ('s, int) state" where
  "otp_write_reg os soc otp addr val =
     neg_then (otp_writel soc otp OTP_ADDR addr)
     (neg_then (otp_writel soc otp OTP_COMPARE_1 val)
     (neg_then (otp_writel soc otp OTP_COMMAND OTP_TRIGGER_WRITE_REG)
       (otp_wait_complete os soc otp)))"

definition otp_set_soak :: "'s os_clock \<Rightarrow> 's soc \<Rightarrow> otp \<Rightarrow> nat \<Rightarrow> ('s, int) state" where
  "otp_set_soak os soc otp soak =
     (if soak > 2 then ret (- EINVAL)
      else
        let p = otp_soak_parameters otp ! soak
        in neg_then (otp_write_reg os soc otp 0x3000 (p ! 0))
          (neg_then (otp_write_reg os soc otp 0x5000 (p ! 1))
          (neg_then (otp_write_reg os soc otp 0x1000 (p ! 2))
          (neg_then (otp_writel soc otp OTP_TIMING (otp_timings otp ! soak))
            (ret 0)))))"

section \<open>Confirmation\<close>

text \<open>
  \<open>scanf("%7s")\<close> on the typed text: leading white space is skipped and at most seven further
  characters up to white space are taken; without any there is \<open>EOF\<close>, and \<open>errno\<close> is what it
  was before.
\<close>

definition c_isspace :: "char \<Rightarrow> bool" where
  "c_isspace c \<longleftrightarrow> c \<in> {CHR '' '', CHR 0x09, CHR 0x0a, CHR 0x0b, CHR 0x0c, CHR 0x0d}"

definition scan_word :: "nat \<Rightarrow> string \<Rightarrow> string" where
  "scan_word n inp = take n (takeWhile (\<lambda>c. \<not> c_isspace c) (dropWhile c_isspace inp))"

definition otp_confirm :: "int \<Rightarrow> string \<Rightarrow> int" where
  "otp_confirm errno inp =
     (let w = scan_word 7 inp
      in if w = [] then - errno else if w \<noteq> ''YES'' then - EINVAL else 0)"

section \<open>Programming with retries\<close>

text \<open>
  The loop of \<open>otp_write\<close>, from a number of tries on: \<open>Inl\<close> is a status that leaves the loop for
  the cleanup, \<open>Inr\<close> the number of tries when it ends and the last status.
\<close>

function otp_write_loop ::
  "'s os_clock \<Rightarrow> 's soc \<Rightarrow> otp \<Rightarrow> u32 \<Rightarrow> u32 \<Rightarrow> nat \<Rightarrow> ('s, int + nat \<times> int) state" where
  "otp_write_loop os soc otp address bitmask tries =
     valr_then (otp_read_reg os soc otp address) (\<lambda>readback.
       if readback AND bitmask \<noteq> 0 then ret (Inr (tries, 0))
       else do {
         rc \<leftarrow> neg_then (otp_set_soak os soc otp (if tries mod 2 \<noteq> 0 then 1 else 2))
           (otp_program os soc otp address (NOT bitmask));
         (if rc < 0 then ret (Inl rc)
          else if tries < NUM_PROG_TRIES
          then otp_write_loop os soc otp address bitmask (tries + 1)
          else ret (Inr (tries + 1, rc))) })"
  by pat_completeness auto
termination
  by (relation "measure (\<lambda>(os, soc, otp, address, bitmask, tries). NUM_PROG_TRIES - tries)") auto

declare otp_write_loop.simps [simp del]

definition otp_write :: "'s os_clock \<Rightarrow> 's soc \<Rightarrow> otp \<Rightarrow> u32 \<Rightarrow> u32 \<Rightarrow> ('s, int) state" where
  "otp_write os soc otp address bitmask =
     neg_then (otp_set_soak os soc otp 1) (do {
       rc \<leftarrow> neg_then (otp_program os soc otp address (NOT bitmask)) (do {
         r \<leftarrow> otp_write_loop os soc otp address bitmask 0;
         ret (case r of Inl rc \<Rightarrow> rc
              | Inr (tries, rc) \<Rightarrow> if tries = NUM_PROG_TRIES then - EREMOTEIO else rc) });
       _ \<leftarrow> otp_set_soak os soc otp 0;
       ret rc })"

section \<open>Reading and writing regions\<close>

text \<open>The body of an operation between opening and closing the protection key.\<close>

definition otp_unlocked :: "'s soc \<Rightarrow> otp \<Rightarrow> ('s, int) state \<Rightarrow> ('s, int) state" where
  "otp_unlocked soc otp body =
     neg_then (otp_writel soc otp OTP_PROTECT_KEY OTP_PASSWD) (do {
       rc \<leftarrow> body;
       _ \<leftarrow> otp_writel soc otp OTP_PROTECT_KEY 0;
       ret rc })"

fun otp_read_configs :: "'s os_clock \<Rightarrow> 's soc \<Rightarrow> otp \<Rightarrow> nat list \<Rightarrow> ('s, int + u32 list) state" where
  "otp_read_configs os soc otp [] = ret (Inr [])"
| "otp_read_configs os soc otp (i # is) =
     valr_then (otp_read_config os soc otp i) (\<lambda>v.
       valr_then (otp_read_configs os soc otp is) (\<lambda>vs. ret (Inr (v # vs))))"

datatype otp_region = otp_region_strap | otp_region_conf

text \<open>
  \<open>otp_read\<close>: the status and the words it prints, for the straps the two protection words
  for the SCU, the two for the straps, the six options of two words each and their result.
\<close>

definition otp_region_words :: "otp_region \<Rightarrow> nat list" where
  "otp_region_words reg = (case reg of
     otp_region_strap \<Rightarrow> [28, 29, 30, 31] @ [16..<28]
   | otp_region_conf \<Rightarrow> [0..<NUM_OTP_CONF])"

definition strap_result :: "u32 list \<Rightarrow> u32 list" where
  "strap_result ws =
     [foldl (\<lambda>r i. r XOR ws ! (4 + 2 * i)) 0 [0..<6], foldl (\<lambda>r i. r XOR ws ! (5 + 2 * i)) 0 [0..<6]]"

definition otp_read :: "'s os_clock \<Rightarrow> 's soc \<Rightarrow> otp \<Rightarrow> otp_region \<Rightarrow> ('s, int + u32 list) state" where
  "otp_read os soc otp reg = do {
     rc \<leftarrow> otp_writel soc otp OTP_PROTECT_KEY OTP_PASSWD;
     (if rc < 0 then ret (Inl rc)
      else do {
        r \<leftarrow> otp_read_configs os soc otp (otp_region_words reg);
        _ \<leftarrow> otp_writel soc otp OTP_PROTECT_KEY 0;
        ret (case r of Inl rc \<Rightarrow> Inl rc
             | Inr ws \<Rightarrow> Inr (if reg = otp_region_strap then ws @ strap_result ws else ws)) }) }"

definition otp_write_conf ::
  "'s os_clock \<Rightarrow> 's soc \<Rightarrow> otp \<Rightarrow> int \<Rightarrow> string \<Rightarrow> nat \<Rightarrow> nat \<Rightarrow> ('s, int) state" where
  "otp_write_conf os soc otp errno inp word n =
     (if word \<ge> NUM_OTP_CONF \<or> n \<ge> 32 then ret (- EINVAL)
      else let bitmask = push_bit n 1
        in otp_unlocked soc otp
          (val_then (otp_read_config os soc otp word) (\<lambda>conf.
            if conf AND bitmask \<noteq> 0 then ret (- EALREADY)
            else if otp_confirm errno inp < 0 then ret (otp_confirm errno inp)
            else otp_write os soc otp (config_address word) bitmask)))"

text \<open>The first option word with the bit clear, \<open>-1\<close> in the code where there is none.\<close>

fun first_clear :: "u32 \<Rightarrow> u32 list \<Rightarrow> nat option" where
  "first_clear bitmask [] = None"
| "first_clear bitmask (w # ws) =
     (if w AND bitmask = 0 then Some 0 else map_option Suc (first_clear bitmask ws))"

text \<open>\<open>otp_write_strap\<close> between opening and closing the protection key, on one option word.\<close>

definition otp_strap_body ::
  "'s os_clock \<Rightarrow> 's soc \<Rightarrow> otp \<Rightarrow> int \<Rightarrow> string \<Rightarrow> nat \<Rightarrow> u32 \<Rightarrow> nat \<Rightarrow> ('s, int) state" where
  "otp_strap_body os soc otp errno inp word bitmask val =
     val_then (otp_read_config os soc otp (30 + word)) (\<lambda>protect.
       if protect AND bitmask \<noteq> 0 then ret (- EACCES)
       else val_then (otp_read_configs os soc otp (map (\<lambda>i. 16 + i * 2 + word) [0..<6])) (\<lambda>strap.
         let res = foldl (XOR) 0 strap
         in case first_clear bitmask strap of
              None \<Rightarrow> ret (- EPERM)
            | Some f \<Rightarrow>
                if (res AND bitmask \<noteq> 0 \<and> val \<noteq> 0) \<or> (val = 0 \<and> res AND bitmask = 0)
                then ret (- EALREADY)
                else if otp_confirm errno inp < 0 then ret (otp_confirm errno inp)
                else otp_write os soc otp (config_address (16 + f * 2 + word)) bitmask))"

definition strap_word :: "nat \<Rightarrow> nat" where
  "strap_word n = (if n > 31 then 1 else 0)"

definition strap_mask :: "nat \<Rightarrow> u32" where
  "strap_mask n = push_bit (if n > 31 then n - 32 else n) 1"

definition otp_write_strap ::
  "'s os_clock \<Rightarrow> 's soc \<Rightarrow> otp \<Rightarrow> int \<Rightarrow> string \<Rightarrow> nat \<Rightarrow> nat \<Rightarrow> ('s, int) state" where
  "otp_write_strap os soc otp errno inp n val =
     (if n \<ge> 64 \<or> val > 1 then ret (- EINVAL)
      else otp_unlocked soc otp
        (otp_strap_body os soc otp errno inp (strap_word n) (strap_mask n) val))"

text \<open>The secure boot controller of stepping A2 and later, and of the steppings before.\<close>

definition otp_match :: "(string \<times> unit) list" where
  "otp_match = [(''aspeed,ast2600-secure-boot-controller'', ())]"

definition otp_driver_init :: "'s soc \<Rightarrow> int \<Rightarrow> int + otp" where
  "otp_driver_init soc node =
     rbind (soc_device_get_memory (soc_fdt soc) node) (\<lambda>iomem.
       Inr (if soc_stepping soc \<ge> 2
         then \<lparr>otp_iomem = iomem, otp_timings = [0x04190760, 0x04191388, 0x04193a98],
           otp_soak_parameters = [[0x0210, 0x2000, 0x0], [0x1200, 0x107f, 0x1024], [0x1220, 0x2074, 0x08a4]]\<rparr>
         else \<lparr>otp_iomem = iomem, otp_timings = [0x04190760, 0x04190760, 0x041930d4],
           otp_soak_parameters = [[0x0, 0x0, 0x0], [0x4021, 0x302f, 0x4020], [0x4021, 0x1027, 0x4820]]\<rparr>))"

section \<open>The device\<close>

text \<open>
  The secure boot controller as documented: without the key nothing is stored; the read
  command loads a word, the program command sets the bits that are clear in the data
  register and never clears one. A word can be weak: that many attempts to program it have no
  effect. \<open>od_programs\<close> records the attempts. Commands are complete when the status is next read.
\<close>

record otp_dev =
  od_key :: bool
  od_addr :: u32
  od_data :: u32
  od_cells :: "u32 \<Rightarrow> u32"
  od_weak :: "u32 \<Rightarrow> nat"
  od_programs :: "(u32 \<times> u32) list"

definition otp_do_program :: "otp_dev \<Rightarrow> otp_dev" where
  "otp_do_program d = d\<lparr>
     od_programs := od_programs d @ [(od_addr d, od_data d)],
     od_cells := (if od_weak d (od_addr d) = 0
       then (od_cells d)(od_addr d := od_cells d (od_addr d) OR NOT (od_data d)) else od_cells d),
     od_weak := (od_weak d)(od_addr d := od_weak d (od_addr d) - 1)\<rparr>"

definition otp_store :: "u32 \<Rightarrow> u32 \<Rightarrow> u32 \<Rightarrow> otp_dev \<Rightarrow> otp_dev" where
  "otp_store base a v d =
     (if a = base then d\<lparr>od_key := (v = OTP_PASSWD)\<rparr>
      else if \<not> od_key d then d
      else if a = base + 0x10 then d\<lparr>od_addr := v\<rparr>
      else if a = base + 0x20 then d\<lparr>od_data := v\<rparr>
      else if a = base + 0x04 \<and> v = OTP_TRIGGER_READ then d\<lparr>od_data := od_cells d (od_addr d)\<rparr>
      else if a = base + 0x04 \<and> v = OTP_TRIGGER_PROGRAM then otp_do_program d
      else d)"

definition otp_load :: "u32 \<Rightarrow> u32 \<Rightarrow> otp_dev \<Rightarrow> u32" where
  "otp_load base a d = (if a = base + 0x20 then od_data d else if a = base + 0x14 then 6 else 0)"

definition otp_target :: "u32 \<Rightarrow> otp_dev target" where
  "otp_target base = \<lparr>
     tgt_ld8 = (\<lambda>a. gets (\<lambda>d. byte_of (unat (a AND 3)) (otp_load base (a AND NOT 3) d))),
     tgt_st8 = (\<lambda>a b. ret ()),
     tgt_ld32 = (\<lambda>a. gets (otp_load base a)),
     tgt_st32 = (\<lambda>a v. modify (otp_store base a v)) \<rparr>"

definition od_view where
  "od_view d = (od_key d, od_cells d, od_weak d, od_programs d)"

locale otp_bus = soc_dev ops invar "otp_target (rg_start (otp_iomem otp))" bus soc
  for ops :: "'s ahb_ops" and invar and bus :: "'s \<Rightarrow> otp_dev" and soc and otp :: otp +
  fixes os :: "'s os_clock"
  assumes aligned: "word_aligned (rg_start (otp_iomem otp))"
    and clock_aside: "invar s \<Longrightarrow> invar (snd (run_state (clk_gettime os) s))"
      "invar s \<Longrightarrow> bus (snd (run_state (clk_gettime os) s)) = bus s"
begin

lemma regs [simp]:
  assumes "invar s" "word_aligned r"
  shows "fst (run_state (otp_writel soc otp r v) s) = 0"
    "bus (snd (run_state (otp_writel soc otp r v) s)) =
      otp_store (rg_start (otp_iomem otp)) (rg_start (otp_iomem otp) + r) v (bus s)"
    "invar (snd (run_state (otp_writel soc otp r v) s))"
    "fst (run_state (otp_readl soc otp r) s) =
      Inr (otp_load (rg_start (otp_iomem otp)) (rg_start (otp_iomem otp) + r) (bus s))"
    "bus (snd (run_state (otp_readl soc otp r) s)) = bus s"
    "invar (snd (run_state (otp_readl soc otp r) s))"
  using assms aligned by (simp_all add: otp_writel_def otp_readl_def otp_target_def)

lemma aligned_regs [simp]:
  "word_aligned OTP_PROTECT_KEY" "word_aligned OTP_COMMAND" "word_aligned OTP_TIMING"
  "word_aligned OTP_ADDR" "word_aligned OTP_STATUS" "word_aligned OTP_COMPARE_1"
  by (simp_all add: otp_regs)

lemma wait [simp]:
  assumes "invar s"
  shows "fst (run_state (otp_wait_complete os soc otp) s) = 0"
    "bus (snd (run_state (otp_wait_complete os soc otp) s)) = bus s"
    "invar (snd (run_state (otp_wait_complete os soc otp) s))"
proof -
  obtain n where p: "OTP_POLLS = Suc n" by (cases OTP_POLLS) (simp_all add: OTP_POLLS_def)
  have i: "otp_load b (b + OTP_STATUS) d AND OTP_STATUS_IDLE = OTP_STATUS_IDLE" for b d
    by (simp add: otp_load_def OTP_STATUS_def OTP_STATUS_IDLE_def)
  show "fst (run_state (otp_wait_complete os soc otp) s) = 0"
    "bus (snd (run_state (otp_wait_complete os soc otp) s)) = bus s"
    "invar (snd (run_state (otp_wait_complete os soc otp) s))"
    using assms clock_aside by (simp_all add: otp_wait_complete_def p i)
qed

lemma read_reg [simp]:
  assumes "invar s" "od_key (bus s)"
  shows "fst (run_state (otp_read_reg os soc otp a) s) = Inr (od_cells (bus s) a)"
    "od_view (bus (snd (run_state (otp_read_reg os soc otp a) s))) = od_view (bus s)"
    "invar (snd (run_state (otp_read_reg os soc otp a) s))"
  using assms
  by (simp_all add: otp_read_reg_def otp_store_def otp_load_def od_view_def otp_regs otp_magic)

lemma write_reg [simp]:
  assumes "invar s" "od_key (bus s)"
  shows "fst (run_state (otp_write_reg os soc otp a v) s) = 0"
    "od_view (bus (snd (run_state (otp_write_reg os soc otp a v) s))) = od_view (bus s)"
    "invar (snd (run_state (otp_write_reg os soc otp a v) s))"
  using assms
  by (simp_all add: otp_write_reg_def otp_store_def od_view_def otp_regs otp_magic)

lemma view_key: "od_view d = od_view d' \<Longrightarrow> od_key d = od_key d'"
  by (simp add: od_view_def)

lemma set_soak [simp]:
  assumes "invar s" "od_key (bus s)" "soak \<le> 2"
  shows "fst (run_state (otp_set_soak os soc otp soak) s) = 0"
    "od_view (bus (snd (run_state (otp_set_soak os soc otp soak) s))) = od_view (bus s)"
    "invar (snd (run_state (otp_set_soak os soc otp soak) s))"
proof -
  let ?w = "\<lambda>a v s. snd (run_state (otp_write_reg os soc otp a v) s)"
  let ?p = "otp_soak_parameters otp ! soak"
  let ?s1 = "?w 0x3000 (?p ! 0) s" let ?s2 = "?w 0x5000 (?p ! 1) ?s1" let ?s3 = "?w 0x1000 (?p ! 2) ?s2"
  note w = write_reg
  have s1: "invar ?s1" "od_view (bus ?s1) = od_view (bus s)" using w [OF assms(1,2)] by simp_all
  then have k1: "od_key (bus ?s1)" using assms(2) view_key by blast
  have s2: "invar ?s2" "od_view (bus ?s2) = od_view (bus s)" using w [OF s1(1) k1] s1(2) by simp_all
  then have k2: "od_key (bus ?s2)" using assms(2) view_key by blast
  have s3: "invar ?s3" "od_view (bus ?s3) = od_view (bus s)" using w [OF s2(1) k2] s2(2) by simp_all
  then have k3: "od_key (bus ?s3)" using assms(2) view_key by blast
  have rc: "fst (run_state (otp_write_reg os soc otp 0x3000 (?p ! 0)) s) = 0"
    "fst (run_state (otp_write_reg os soc otp 0x5000 (?p ! 1)) ?s1) = 0"
    "fst (run_state (otp_write_reg os soc otp 0x1000 (?p ! 2)) ?s2) = 0"
    using w(1) assms(1,2) s1(1) k1 s2(1) k2 by blast+
  have t: "otp_store b (b + OTP_TIMING) v d = d" for b v d
    by (simp add: otp_store_def OTP_TIMING_def)
  show "fst (run_state (otp_set_soak os soc otp soak) s) = 0"
    "od_view (bus (snd (run_state (otp_set_soak os soc otp soak) s))) = od_view (bus s)"
    "invar (snd (run_state (otp_set_soak os soc otp soak) s))"
    using assms(3) s3 rc by (simp_all add: otp_set_soak_def Let_def t)
qed

lemma program [simp]:
  assumes "invar s" "od_key (bus s)"
  shows "fst (run_state (otp_program os soc otp a v) s) = 0"
    "od_view (bus (snd (run_state (otp_program os soc otp a v) s))) =
      od_view (otp_do_program ((bus s)\<lparr>od_addr := a, od_data := v\<rparr>))"
    "invar (snd (run_state (otp_program os soc otp a v) s))"
  using assms
  by (simp_all add: otp_program_def otp_store_def otp_do_program_def od_view_def otp_regs otp_magic)

lemma write_loop_done:
  assumes "invar s" "od_key (bus s)" "od_cells (bus s) a AND m \<noteq> 0"
  shows "fst (run_state (otp_write_loop os soc otp a m t) s) = Inr (t, 0)"
    "od_view (bus (snd (run_state (otp_write_loop os soc otp a m t) s))) = od_view (bus s)"
    "invar (snd (run_state (otp_write_loop os soc otp a m t) s))"
  using assms by (simp_all add: otp_write_loop.simps [of os soc otp a m t])

lemma write_loop_retry:
  assumes "invar s" "od_key (bus s)" "od_cells (bus s) a AND m = 0"
  obtains s' where "invar s'"
    "od_view (bus s') = od_view (otp_do_program ((bus s)\<lparr>od_addr := a, od_data := NOT m\<rparr>))"
    "run_state (otp_write_loop os soc otp a m t) s =
      (if t < NUM_PROG_TRIES then run_state (otp_write_loop os soc otp a m (t + 1)) s'
       else (Inr (t + 1, 0), s'))"
proof -
  let ?n = "if t mod 2 \<noteq> 0 then 1 else 2 :: nat"
  let ?s1 = "snd (run_state (otp_read_reg os soc otp a) s)"
  let ?s2 = "snd (run_state (otp_set_soak os soc otp ?n) ?s1)"
  let ?s3 = "snd (run_state (otp_program os soc otp a (NOT m)) ?s2)"
  note s1 = read_reg [OF assms(1,2), of a]
  have k1: "od_key (bus ?s1)" using view_key [OF s1(2)] assms(2) by simp
  note s2 = set_soak [OF s1(3) k1, of ?n]
  have k2: "od_key (bus ?s2)" using view_key [OF s2(2)] k1 by simp
  note s3 = program [OF s2(3) k2, of a "NOT m"]
  have v: "od_view (bus ?s2) = od_view (bus s)" using s1(2) s2(2) by simp
  have "od_view (bus ?s3) = od_view (otp_do_program ((bus s)\<lparr>od_addr := a, od_data := NOT m\<rparr>))"
    using s3(2) v by (simp add: od_view_def otp_do_program_def)
  moreover have "run_state (otp_write_loop os soc otp a m t) s =
      (if t < NUM_PROG_TRIES then run_state (otp_write_loop os soc otp a m (t + 1)) ?s3
       else (Inr (t + 1, 0), ?s3))"
    using s1(1) s2(1) s3(1) assms(3) by (subst otp_write_loop.simps) simp
  ultimately show thesis using s3(3) that [of ?s3] by simp
qed

text \<open>
  The retry loop: with \<open>k\<close> attempts lost on the word, the loop from try \<open>t\<close> on succeeds while
  \<open>t + k \<le> 16\<close>, and ends with the try after.
\<close>

lemma write_loop:
  assumes "invar s" "od_key (bus s)" "t \<le> 16" "r = run_state (otp_write_loop os soc otp a m t) s"
    and "od_cells (bus s) a AND m = 0" "m \<noteq> 0" "k = od_weak (bus s) a"
  shows "fst r = Inr (min (t + k + 1) 17, 0) \<and> invar (snd r) \<and> od_key (bus (snd r)) \<and>
    od_cells (bus (snd r)) =
      (if t + k \<le> 16 then (od_cells (bus s))(a := od_cells (bus s) a OR m) else od_cells (bus s)) \<and>
    length (od_programs (bus (snd r))) = length (od_programs (bus s)) + min (k + 1) (17 - t)"
  using assms
proof (induction "16 - t" arbitrary: s t r k)
  case 0
  obtain s' where s': "invar s'"
    "od_view (bus s') = od_view (otp_do_program ((bus s)\<lparr>od_addr := a, od_data := NOT m\<rparr>))"
    "run_state (otp_write_loop os soc otp a m t) s =
      (if t < NUM_PROG_TRIES then run_state (otp_write_loop os soc otp a m (t + 1)) s'
       else (Inr (t + 1, 0), s'))"
    using write_loop_retry [OF 0(2,3,6)] .
  have "t = 16" using 0 by simp
  then have "r = (Inr (17, 0), s')" using s'(3) 0(5) by (simp add: NUM_PROG_TRIES_def)
  then show ?case using \<open>t = 16\<close> s'(1,2) 0 by (auto simp: od_view_def otp_do_program_def)
next
  case (Suc x)
  obtain s' where s': "invar s'"
    "od_view (bus s') = od_view (otp_do_program ((bus s)\<lparr>od_addr := a, od_data := NOT m\<rparr>))"
    "run_state (otp_write_loop os soc otp a m t) s =
      (if t < NUM_PROG_TRIES then run_state (otp_write_loop os soc otp a m (t + 1)) s'
       else (Inr (t + 1, 0), s'))"
    using write_loop_retry [OF Suc.prems(1,2,5)] .
  have r: "r = run_state (otp_write_loop os soc otp a m (t + 1)) s'"
    unfolding Suc.prems(4) s'(3) using Suc.hyps(2) by (auto simp: NUM_PROG_TRIES_def)
  have key: "od_key (bus s')" and t: "x = 16 - (t + 1)" "t + 1 \<le> 16"
    and len: "length (od_programs (bus s')) = length (od_programs (bus s)) + 1"
    using s'(2) Suc.hyps(2) Suc.prems(2) by (auto simp: od_view_def otp_do_program_def)
  show ?case
  proof (cases "k = 0")
    case True
    then have c: "od_cells (bus s') = (od_cells (bus s))(a := od_cells (bus s) a OR m)"
      using s'(2) Suc.prems(7) by (auto simp: od_view_def otp_do_program_def)
    have "(od_cells (bus s) a OR m) AND m = m" by (auto simp: bit_eq_iff bit_simps)
    then have "od_cells (bus s') a AND m \<noteq> 0" using c Suc.prems(6) by simp
    from write_loop_done [OF s'(1) key this, of "t + 1"] show ?thesis
      using r c len key True t by (simp add: od_view_def)
  next
    case False
    then have c: "od_cells (bus s') = od_cells (bus s)" "od_weak (bus s') a = k - 1"
      using s'(2) Suc.prems(7) by (auto simp: od_view_def otp_do_program_def)
    from Suc.hyps(1) [OF t(1) s'(1) key t(2) r] c Suc.prems(5,6)
    show ?thesis using False len t by auto
  qed
qed

lemma write_outcome:
  assumes "invar s" "od_key (bus s)" "r = run_state (otp_write os soc otp a m) s"
    and "od_cells (bus s) a AND m = 0" "m \<noteq> 0" "k = od_weak (bus s) a"
  shows "fst r = (if k = 16 then - EREMOTEIO else 0) \<and> invar (snd r) \<and> od_key (bus (snd r)) \<and>
    od_cells (bus (snd r)) =
      (if k \<le> 17 then (od_cells (bus s))(a := od_cells (bus s) a OR m) else od_cells (bus s)) \<and>
    length (od_programs (bus (snd r))) = length (od_programs (bus s)) + min (k + 1) 18"
proof -
  let ?s1 = "snd (run_state (otp_set_soak os soc otp 1) s)"
  let ?s2 = "snd (run_state (otp_program os soc otp a (NOT m)) ?s1)"
  let ?l = "run_state (otp_write_loop os soc otp a m 0) ?s2"
  let ?s4 = "snd (run_state (otp_set_soak os soc otp 0) (snd ?l))"
  note s1 = set_soak [OF assms(1,2), of 1]
  have k1: "od_key (bus ?s1)" using view_key [OF s1(2)] assms(2) by simp
  note s2 = program [OF s1(3) k1, of a "NOT m"]
  have v: "od_view (bus ?s2) = od_view (otp_do_program ((bus s)\<lparr>od_addr := a, od_data := NOT m\<rparr>))"
    using s2(2) s1(2) by (simp add: od_view_def otp_do_program_def)
  then have k2: "od_key (bus ?s2)" and
    len: "length (od_programs (bus ?s2)) = length (od_programs (bus s)) + 1"
    using assms(2) by (auto simp: od_view_def otp_do_program_def)
  have l: "fst ?l = Inr (min k 17, 0) \<and> invar (snd ?l) \<and> od_key (bus (snd ?l)) \<and>
      od_cells (bus (snd ?l)) =
        (if k \<le> 17 then (od_cells (bus s))(a := od_cells (bus s) a OR m) else od_cells (bus s)) \<and>
      length (od_programs (bus (snd ?l))) = length (od_programs (bus s)) + min (k + 1) 18"
  proof (cases "k = 0")
    case True
    then have c: "od_cells (bus ?s2) = (od_cells (bus s))(a := od_cells (bus s) a OR m)"
      using v assms(6) by (auto simp: od_view_def otp_do_program_def)
    have "(od_cells (bus s) a OR m) AND m = m" by (auto simp: bit_eq_iff bit_simps)
    then have "od_cells (bus ?s2) a AND m \<noteq> 0" using c assms(5) by simp
    from write_loop_done [OF s2(3) k2 this, of 0] show ?thesis
      using c len k2 True by (simp add: od_view_def)
  next
    case False
    then have c: "od_cells (bus ?s2) = od_cells (bus s)" "od_weak (bus ?s2) a = k - 1"
      using v assms(6) by (auto simp: od_view_def otp_do_program_def)
    from write_loop [OF s2(3) k2 _ refl _ assms(5) refl, of 0 a] show ?thesis
      using False len c assms(4) by auto
  qed
  note s4 = set_soak [of "snd ?l" 0]
  have "fst r = (if min k 17 = 16 then - EREMOTEIO else 0)" "snd r = ?s4"
    using assms(3) s1(1) s2(1) l by (simp_all add: otp_write_def NUM_PROG_TRIES_def)
  then show ?thesis using l s4 by (auto simp: od_view_def min_def)
qed

lemma read_config [simp]:
  assumes "invar s" "od_key (bus s)"
  shows "fst (run_state (otp_read_config os soc otp i) s) = Inr (od_cells (bus s) (config_address i))"
    "od_view (bus (snd (run_state (otp_read_config os soc otp i) s))) = od_view (bus s)"
    "invar (snd (run_state (otp_read_config os soc otp i) s))"
  using assms by (simp_all add: otp_read_config_def)

lemma read_configs:
  assumes "invar s" "od_key (bus s)" "r = run_state (otp_read_configs os soc otp is) s"
  shows "fst r = Inr (map (\<lambda>i. od_cells (bus s) (config_address i)) is) \<and>
    od_view (bus (snd r)) = od_view (bus s) \<and> invar (snd r)"
  using assms
proof (induction "is" arbitrary: s r)
  case (Cons i "is")
  let ?s1 = "snd (run_state (otp_read_config os soc otp i) s)"
  note c = read_config [OF Cons.prems(1,2), of i]
  have "od_key (bus ?s1)" using view_key [OF c(2)] Cons.prems(2) by simp
  from Cons.IH [OF c(3) this refl] show ?case using c Cons.prems(3) by (auto simp: od_view_def)
qed simp

text \<open>The key is closed again whatever the body did, and the words are those the body left.\<close>

lemma unlocked:
  assumes "invar s" "d = (bus s)\<lparr>od_key := True\<rparr>"
    and "\<And>s1. invar s1 \<Longrightarrow> bus s1 = d \<Longrightarrow> P (fst (run_state body s1)) (snd (run_state body s1)) \<and>
      invar (snd (run_state body s1))"
    and "r = run_state (otp_unlocked soc otp body) s"
  shows "\<exists>s2. P (fst r) s2 \<and> invar (snd r) \<and> od_view (bus (snd r)) = od_view ((bus s2)\<lparr>od_key := False\<rparr>)"
proof -
  let ?s1 = "snd (run_state (otp_writel soc otp OTP_PROTECT_KEY OTP_PASSWD) s)"
  have "bus ?s1 = d" using assms(1,2) by (simp add: otp_store_def OTP_PROTECT_KEY_def)
  with assms(3) [of ?s1] assms(1) have b: "P (fst (run_state body ?s1)) (snd (run_state body ?s1))"
    "invar (snd (run_state body ?s1))" by auto
  show ?thesis
    using b assms(1,4)
    by (intro exI [of _ "snd (run_state body ?s1)"])
      (simp add: otp_unlocked_def otp_store_def OTP_PROTECT_KEY_def OTP_PASSWD_def)
qed

end

lemma first_clear_Some: "first_clear m ws = Some f \<Longrightarrow> f < length ws \<and> ws ! f AND m = 0"
  by (induction ws arbitrary: f) (auto split: if_splits)

text \<open>The straps as the hardware combines them: the exclusive or of the six options.\<close>

definition strap_options :: "(u32 \<Rightarrow> u32) \<Rightarrow> nat \<Rightarrow> u32 list" where
  "strap_options cells word = map (\<lambda>i. cells (config_address (16 + i * 2 + word))) [0..<6]"

definition strap_value :: "(u32 \<Rightarrow> u32) \<Rightarrow> nat \<Rightarrow> u32" where
  "strap_value cells word = foldl (XOR) 0 (strap_options cells word)"

lemma length_strap_options [simp]: "length (strap_options cells word) = 6"
  by (simp add: strap_options_def)

lemma strap_option_nth [simp]:
  "i < 6 \<Longrightarrow> strap_options cells word ! i = cells (config_address (16 + i * 2 + word))"
  by (simp add: strap_options_def)

lemma config_distinct: "distinct (map config_address [16..<28])"
  by (simp add: config_address_def upt_rec)

lemma strap_address_inj:
  assumes "i < 6" "j < 6" "v < 2" "w < 2"
  shows "config_address (16 + i * 2 + v) = config_address (16 + j * 2 + w) \<longleftrightarrow> i = j \<and> v = w"
proof -
  have "inj_on config_address (set [16..<28])" using config_distinct unfolding distinct_map by blast
  moreover have "16 + i * 2 + v \<in> set [16..<28]" "16 + j * 2 + w \<in> set [16..<28]"
    unfolding set_upt atLeastLessThan_iff using assms by linarith+
  ultimately have "config_address (16 + i * 2 + v) = config_address (16 + j * 2 + w) \<longleftrightarrow>
      16 + i * 2 + v = 16 + j * 2 + w"
    by (rule inj_on_eq_iff)
  then show ?thesis using assms(3,4) by presburger
qed

lemma foldl_xor: "foldl (XOR) a ws = a XOR foldl (XOR) 0 (ws :: u32 list)"
proof (induction ws arbitrary: a)
  case (Cons w ws)
  show ?case using Cons [of "a XOR w"] Cons [of w] by (simp add: xor.assoc)
qed simp

lemma foldl_xor_update:
  "f < length ws \<Longrightarrow> ws ! f AND m = 0 \<Longrightarrow>
   foldl (XOR) 0 (ws[f := ws ! f OR m]) = foldl (XOR) 0 ws XOR (m :: u32)"
proof (induction ws arbitrary: f)
  case (Cons w ws)
  show ?case
  proof (cases f)
    case 0
    have "w OR m = w XOR m" using Cons.prems(2) 0 by (auto simp: bit_eq_iff bit_simps)
    then show ?thesis using 0 foldl_xor [of "w XOR m" ws] foldl_xor [of w ws]
      by (simp add: xor.assoc xor.commute xor.left_commute)
  next
    case (Suc g)
    then have "foldl (XOR) 0 (ws[g := ws ! g OR m]) = foldl (XOR) 0 ws XOR m" using Cons by simp
    then show ?thesis using Suc foldl_xor [of w "ws[g := ws ! g OR m]"] foldl_xor [of w ws]
      by (simp add: xor.assoc)
  qed
qed simp

lemma strap_value_program:
  assumes "f < 6" "v < 2" "w < 2" "cells (config_address (16 + f * 2 + v)) AND m = 0"
    and "cells' = cells(config_address (16 + f * 2 + v) := cells (config_address (16 + f * 2 + v)) OR m)"
  shows "strap_value cells' w = (if w = v then strap_value cells w XOR m else strap_value cells w)"
proof -
  have "strap_options cells' w = (if w = v
      then (strap_options cells w)[f := strap_options cells w ! f OR m] else strap_options cells w)"
    by (rule nth_equalityI) (use assms in \<open>auto simp: strap_address_inj nth_list_update\<close>)
  then show ?thesis
    using foldl_xor_update [of f "strap_options cells w" m] assms(1,4) by (auto simp: strap_value_def)
qed

text \<open>Why a strap is not programmed, in the order the code finds out.\<close>

definition strap_refusal :: "(u32 \<Rightarrow> u32) \<Rightarrow> int \<Rightarrow> string \<Rightarrow> nat \<Rightarrow> u32 \<Rightarrow> nat \<Rightarrow> int option" where
  "strap_refusal cells errno inp word m val =
     (if cells (config_address (30 + word)) AND m \<noteq> 0 then Some (- EACCES)
      else if first_clear m (strap_options cells word) = None then Some (- EPERM)
      else if (strap_value cells word AND m \<noteq> 0) = (val \<noteq> 0) then Some (- EALREADY)
      else if otp_confirm errno inp < 0 then Some (otp_confirm errno inp)
      else None)"

lemma strap_mask_nonzero: "n < 64 \<Longrightarrow> strap_mask n \<noteq> 0"
  by (auto simp: strap_mask_def push_bit_eq_mult)

context otp_bus
begin

lemma write_strap_body:
  assumes "invar s" "od_key (bus s)" "m \<noteq> 0" "c = od_cells (bus s)"
    and "r = run_state (otp_strap_body os soc otp errno inp word m val) s"
  shows "invar (snd r) \<and> (case strap_refusal c errno inp word m val of
      Some rc \<Rightarrow> fst r = rc \<and> od_cells (bus (snd r)) = c \<and> od_programs (bus (snd r)) = od_programs (bus s)
    | None \<Rightarrow> \<exists>f < 6. \<exists>a. a = config_address (16 + f * 2 + word) \<and> c a AND m = 0 \<and>
        fst r = (if od_weak (bus s) a = 16 then - EREMOTEIO else 0) \<and>
        od_cells (bus (snd r)) = (if od_weak (bus s) a \<le> 17 then c(a := c a OR m) else c))"
proof -
  let ?s1 = "snd (run_state (otp_read_config os soc otp (30 + word)) s)"
  let ?q = "run_state (otp_read_configs os soc otp (map (\<lambda>i. 16 + i * 2 + word) [0..<6])) ?s1"
  note s1 = read_config [OF assms(1,2), of "30 + word"]
  have k1: "od_key (bus ?s1)" using view_key [OF s1(2)] assms(2) by simp
  have q: "fst ?q = Inr (strap_options c word)" "od_view (bus (snd ?q)) = od_view (bus s)" "invar (snd ?q)"
    using read_configs [OF s1(3) k1 refl] s1(2) assms(4) by (auto simp: strap_options_def od_view_def)
  have v: "od_key (bus (snd ?q))" "od_cells (bus (snd ?q)) = c" "od_weak (bus (snd ?q)) = od_weak (bus s)"
    "od_programs (bus (snd ?q)) = od_programs (bus s)" "od_cells (bus ?s1) = c"
    "od_programs (bus ?s1) = od_programs (bus s)"
    using q(2) s1(2) assms(2,4) by (auto simp: od_view_def)
  show ?thesis
  proof (cases "strap_refusal c errno inp word m val")
    case (Some rc)
    then show ?thesis
      using s1 q v assms(4,5)
      by (auto simp: strap_refusal_def strap_value_def Let_def otp_strap_body_def split: option.splits if_splits)
  next
    case None
    then obtain f where f: "first_clear m (strap_options c word) = Some f"
      by (auto simp: strap_refusal_def split: if_splits)
    let ?a = "config_address (16 + f * 2 + word)"
    have f6: "f < 6" "c ?a AND m = 0"
      using first_clear_Some [OF f] strap_option_nth [of f c word] by auto
    have r: "r = run_state (otp_write os soc otp ?a m) (snd ?q)"
      using None f s1 q assms(4,5)
      by (auto simp: strap_refusal_def strap_value_def Let_def otp_strap_body_def split: if_splits)
    have "od_cells (bus (snd ?q)) ?a AND m = 0" using f6 v(2) by simp
    from write_outcome [OF q(3) v(1) r this assms(3) refl] show ?thesis
      using None f6 v(2,3) by auto
  qed
qed

lemma write_strap:
  assumes "invar s" "n < 64" "val \<le> 1" "c = od_cells (bus s)" "word = strap_word n" "m = strap_mask n"
    and "r = run_state (otp_write_strap os soc otp errno inp n val) s"
  shows "\<not> od_key (bus (snd r)) \<and> (case strap_refusal c errno inp word m val of
      Some rc \<Rightarrow> fst r = rc \<and> od_cells (bus (snd r)) = c \<and> od_programs (bus (snd r)) = od_programs (bus s)
    | None \<Rightarrow> \<exists>f < 6. \<exists>a. a = config_address (16 + f * 2 + word) \<and> c a AND m = 0 \<and>
        fst r = (if od_weak (bus s) a = 16 then - EREMOTEIO else 0) \<and>
        od_cells (bus (snd r)) = (if od_weak (bus s) a \<le> 17 then c(a := c a OR m) else c))"
proof -
  have m: "m \<noteq> 0" using strap_mask_nonzero [OF assms(2)] assms(6) by simp
  have r: "r = run_state (otp_unlocked soc otp (otp_strap_body os soc otp errno inp word m val)) s"
    using assms(2,3,5-7) by (simp add: otp_write_strap_def)
  let ?P = "\<lambda>rc s2. (case strap_refusal c errno inp word m val of
      Some rc' \<Rightarrow> rc = rc' \<and> od_cells (bus s2) = c \<and> od_programs (bus s2) = od_programs (bus s)
    | None \<Rightarrow> \<exists>f < 6. \<exists>a. a = config_address (16 + f * 2 + word) \<and> c a AND m = 0 \<and>
        rc = (if od_weak (bus s) a = 16 then - EREMOTEIO else 0) \<and>
        od_cells (bus s2) = (if od_weak (bus s) a \<le> 17 then c(a := c a OR m) else c))"
  have "\<exists>s2. ?P (fst r) s2 \<and> invar (snd r) \<and> od_view (bus (snd r)) = od_view ((bus s2)\<lparr>od_key := False\<rparr>)"
  proof (rule unlocked [OF assms(1) refl _ r])
    fix s1
    assume s1: "invar s1" "bus s1 = (bus s)\<lparr>od_key := True\<rparr>"
    then have k: "od_key (bus s1)" "c = od_cells (bus s1)" using assms(4) by simp_all
    note b = write_strap_body [OF s1(1) k(1) m k(2) refl, where word = word and val = val and
        errno = errno and inp = inp]
    let ?b = "run_state (otp_strap_body os soc otp errno inp word m val) s1"
    show "?P (fst ?b) (snd ?b) \<and> invar (snd ?b)"
    proof -
      have "od_weak (bus s1) = od_weak (bus s)" "od_programs (bus s1) = od_programs (bus s)"
        using s1(2) by simp_all
      then show ?thesis using b by (simp only:)
    qed
  qed
  then obtain s2 where s2: "?P (fst r) s2" "od_view (bus (snd r)) = od_view ((bus s2)\<lparr>od_key := False\<rparr>)"
    by blast
  then have "\<not> od_key (bus (snd r))" "od_cells (bus s2) = od_cells (bus (snd r))"
    "od_programs (bus s2) = od_programs (bus (snd r))" by (simp_all add: od_view_def)
  then show ?thesis using s2(1) by (simp only: simp_thms)
qed

end

text \<open>The controller behind the P2A bridge, with a counting clock.\<close>

definition otp_a2 :: "u32 \<Rightarrow> otp" where
  "otp_a2 base = \<lparr>otp_iomem = \<lparr>rg_start = base, rg_length = 0x1000\<rparr>,
     otp_timings = [0x04190760, 0x04191388, 0x04193a98],
     otp_soak_parameters = [[0x0210, 0x2000, 0x0], [0x1200, 0x107f, 0x1024], [0x1220, 0x2074, 0x08a4]]\<rparr>"

abbreviation otp_soc :: "(otp_dev p2a_hw p2ab \<times> nat) soc" where
  "otp_soc \<equiv> p2a_soc_beside 0x05030303 example_fdt (otp_target 0x1e6f2000)"

abbreviation otp_of :: "otp_dev p2a_hw p2ab \<times> nat \<Rightarrow> otp_dev" where
  "otp_of p \<equiv> ph_bus (p2_hw (fst p))"

interpretation otp_p2a: otp_bus "ops_beside (p2ab_ahb_ops (p2a_mmio (otp_target 0x1e6f2000)) 0)"
    "\<lambda>p. p2a_ok (fst p)" otp_of otp_soc "otp_a2 0x1e6f2000" counter_clock
proof (rule otp_bus.intro)
  show "soc_dev (ops_beside (p2ab_ahb_ops (p2a_mmio (otp_target 0x1e6f2000)) 0)) (\<lambda>p. p2a_ok (fst p))
      (otp_target (rg_start (otp_iomem (otp_a2 0x1e6f2000)))) otp_of otp_soc"
    using p2a_dev.soc_dev_axioms by (simp add: otp_a2_def)
qed (simp add: otp_bus_axioms_def otp_a2_def counter_clock_def)

definition otp_blank :: "nat \<Rightarrow> otp_dev p2a_hw p2ab \<times> nat" where
  "otp_blank k = (p2a_start \<lparr>od_key = True, od_addr = 0, od_data = 0, od_cells = \<lambda>_. 0,
     od_weak = \<lambda>_. k, od_programs = []\<rparr>, 0)"

lemma otp_blank_simps [simp]:
  "p2a_ok (fst (otp_blank k))" "od_key (otp_of (otp_blank k))"
  "od_cells (otp_of (otp_blank k)) = (\<lambda>_. 0)" "od_weak (otp_of (otp_blank k)) = (\<lambda>_. k)"
  "od_programs (otp_of (otp_blank k)) = []"
  by (simp_all add: otp_blank_def)

section \<open>Properties\<close>

text \<open>
  Claim C36. Waiting for the controller ends within the time limit: with a monotonic clock that
  register reads do not turn back, the fuel of the polling loop is never used up, so any
  larger amount gives the same run.
\<close>

theorem otp_wait_ends:
  assumes "mono_clock os now" "\<And>s. now s \<le> now (snd (run_state (otp_readl soc otp OTP_STATUS) s))"
    and "s1 = snd (run_state (clk_gettime os) s)" "start = fst (run_state (clk_gettime os) s)"
    and "OTP_POLLS \<le> n"
  shows "run_state (otp_wait_loop n os soc otp start) s1 = run_state (otp_wait_complete os soc otp) s"
proof -
  note mc = mono_clock.gettime [OF assms(1)] mono_clock.nanosleep [OF assms(1)]
  have norm: "normal_time start" "nanos start = now s1" using mc assms(3,4) by simp_all
  have "run_state (otp_wait_loop n os soc otp start) s' = run_state (otp_wait_loop p os soc otp start) s'"
    if "now s1 + int k * 1000000 \<le> now s'" "k < 500" "500 \<le> n + k" "500 \<le> p + k" for k n p s'
    using that
  proof (induction "500 - k" arbitrary: k n p s')
    case (Suc x)
    obtain n' where n': "n = Suc n'" using Suc.prems by (cases n) auto
    obtain p' where p': "p = Suc p'" using Suc.prems by (cases p) auto
    let ?t1 = "snd (run_state (otp_readl soc otp OTP_STATUS) s')"
    let ?t2 = "snd (run_state (clk_nanosleep os (0, 1000000)) ?t1)"
    let ?t3 = "snd (run_state (clk_gettime os) ?t2)"
    let ?d = "diff_timespec start (fst (run_state (clk_gettime os) ?t2))"
    have t3: "now s1 + int (Suc k) * 1000000 \<le> now ?t3"
      if "fst (run_state (clk_nanosleep os (0, 1000000)) ?t1) = 0"
      using mc(5) [OF that] mc(3) [of ?t2] assms(2) [of s'] Suc.prems(1) by (simp add: nanos_def)
    have d: "normal_time ?d" "nanos ?d = now ?t3 - now s1"
      using diff_timespec_normal [OF norm(1) mc(1)] diff_timespec_nanos mc(2) norm(2) by simp_all
    have step: "run_state (otp_wait_loop n' os soc otp start) ?t3 = run_state (otp_wait_loop p' os soc otp start) ?t3"
      if "fst (run_state (clk_nanosleep os (0, 1000000)) ?t1) = 0" "fst ?d = 0" "snd ?d < 500000000"
    proof -
      have "nanos ?d < 500000000" using that(2,3) by (simp add: nanos_def)
      then have "int (Suc k) * 1000000 < 500000000" using t3 [OF that(1)] d(2) by linarith
      then have k: "Suc k < 500" by simp
      show ?thesis
        using Suc.hyps(1) [of "Suc k" ?t3 n' p'] Suc.hyps(2) t3 [OF that(1)] k Suc.prems n' p' by simp
    qed
    then show ?case by (auto simp: n' p' Let_def split: sum.split)
  qed simp
  from this [of 0 s1 n OTP_POLLS] assms(3-5) show ?thesis
    by (simp add: otp_wait_complete_def OTP_POLLS_def)
qed

theorem otp_wait_ends_witness:
  "run_state (otp_wait_loop 1000 counter_clock otp_soc (otp_a2 0x1e6f2000) (0, 0)) (otp_blank 0) =
   run_state (otp_wait_complete counter_clock otp_soc (otp_a2 0x1e6f2000)) (otp_blank 0)"
proof -
  have t: "int (snd p) \<le> int (snd (snd (run_state (otp_readl otp_soc (otp_a2 0x1e6f2000) OTP_STATUS) p)))" for p
    by (simp add: otp_readl_def soc_readl_def ahb_readl_def p2a_soc_beside_def ops_beside_def)
  have "run_state (clk_gettime counter_clock) (otp_blank 0) = ((0, 0), otp_blank 0)"
    by (simp add: counter_clock_def otp_blank_def)
  then show ?thesis
    using otp_wait_ends [OF counter_clock.mono_clock_axioms t refl refl, of 1000 "otp_blank 0"]
    by (simp add: OTP_POLLS_def)
qed

text \<open>
  Claim C26. What programming a word comes to: when the word takes the program after \<open>k\<close> lost
  attempts, \<open>otp_write\<close> makes at most 18 attempts, sets exactly the bits of the mask if \<open>k\<close> is at
  most 17, and otherwise leaves the word as it was. The status does not tell these apart: it
  is \<open>-EREMOTEIO\<close> only for \<open>k = 16\<close>, where the word is programmed, and 0 for a word that never
  takes the program.
\<close>

theorem otp_write_retries:
  assumes "otp_bus ops invar bus soc otp os" "invar s" "od_key (bus s)"
    and "od_cells (bus s) a AND m = 0" "m \<noteq> 0" "k = od_weak (bus s) a"
    and "r = run_state (otp_write os soc otp a m) s"
  shows "fst r = (if k = 16 then - EREMOTEIO else 0) \<and>
    od_cells (bus (snd r)) =
      (if k \<le> 17 then (od_cells (bus s))(a := od_cells (bus s) a OR m) else od_cells (bus s)) \<and>
    length (od_programs (bus (snd r))) = length (od_programs (bus s)) + min (k + 1) 18"
  using otp_bus.write_outcome [OF assms(1-3,7,4-6)] by blast

theorem otp_write_retries_witness:
  "fst (run_state (otp_write counter_clock otp_soc (otp_a2 0x1e6f2000) 0x800 4) (otp_blank 16)) = - EREMOTEIO \<and>
   fst (run_state (otp_write counter_clock otp_soc (otp_a2 0x1e6f2000) 0x800 4) (otp_blank 100)) = 0"
  using otp_write_retries [OF otp_p2a.otp_bus_axioms _ _ _ _ refl refl, of "otp_blank 16" "0x800" 4]
    otp_write_retries [OF otp_p2a.otp_bus_axioms _ _ _ _ refl refl, of "otp_blank 100" "0x800" 4]
  by simp

text \<open>
  The confirmation of the operator can be skipped: typed text is accepted only when
  its first word is \<open>YES\<close>, but at the end of the input the status is minus a stale \<open>errno\<close>,
  which is no error when \<open>errno\<close> is 0.
\<close>

theorem otp_confirm_eof:
  "(\<forall>errno inp. scan_word 7 inp \<noteq> [] \<longrightarrow> (otp_confirm errno inp \<ge> 0 \<longleftrightarrow> scan_word 7 inp = ''YES'')) \<and>
   otp_confirm 0 [] = 0"
  by (simp add: otp_confirm_def scan_word_def Let_def)

theorem otp_confirm_eof_witness: "otp_confirm 0 ''no'' < 0"
  using otp_confirm_eof [THEN conjunct1, rule_format, of "''no''" 0]
  by (simp add: scan_word_def c_isspace_def)

text \<open>
  A strap is programmed only where it may be: when the bit is protected, has no
  unprogrammed option left, already reads as asked, or the operator does not confirm,
  \<open>otp_write_strap\<close> fails with the status of the first of these reasons without one
  programming attempt, and the protection key is closed again in every case.
\<close>

theorem otp_write_strap_refuses:
  assumes "otp_bus ops invar bus soc otp os" "invar s" "n < 64" "val \<le> 1"
    and "r = run_state (otp_write_strap os soc otp errno inp n val) s"
  shows "\<not> od_key (bus (snd r)) \<and>
    (\<forall>rc. strap_refusal (od_cells (bus s)) errno inp (strap_word n) (strap_mask n) val = Some rc \<longrightarrow>
      fst r = rc \<and> rc < 0 \<and> od_cells (bus (snd r)) = od_cells (bus s) \<and>
      od_programs (bus (snd r)) = od_programs (bus s))"
proof -
  have "rc < 0" if "strap_refusal (od_cells (bus s)) errno inp (strap_word n) (strap_mask n) val = Some rc" for rc
    using that by (auto simp: strap_refusal_def split: if_splits)
  then show ?thesis
    using otp_bus.write_strap [OF assms(1-4) refl refl refl assms(5)] by auto
qed

theorem otp_write_strap_refuses_witness:
  "fst (run_state (otp_write_strap counter_clock otp_soc (otp_a2 0x1e6f2000) 5 ''YES'' 40 0) (otp_blank 0)) =
    - EALREADY"
proof -
  have "strap_refusal (od_cells (otp_of (otp_blank 0))) 5 ''YES'' (strap_word 40) (strap_mask 40) 0 =
      Some (- EALREADY)"
    by (simp add: strap_refusal_def strap_options_def strap_value_def upt_rec)
  then show ?thesis
    using otp_write_strap_refuses [OF otp_p2a.otp_bus_axioms _ _ _ refl, of "otp_blank 0" 40 0] by simp
qed

text \<open>
  A strap that is programmed takes the value asked for and no other changes: when
  nothing stands against it and the word takes the program at the first attempt,
  \<open>otp_write_strap\<close> returns 0, the exclusive or of the options then has the value at the bit,
  and every other strap bit is as before.
\<close>

theorem otp_write_strap_effect:
  assumes "otp_bus ops invar bus soc otp os" "invar s" "n < 64" "val \<le> 1"
    and "strap_refusal (od_cells (bus s)) errno inp (strap_word n) (strap_mask n) val = None"
    and "\<And>a. od_weak (bus s) a = 0"
    and "r = run_state (otp_write_strap os soc otp errno inp n val) s"
    and "c' = od_cells (bus (snd r))"
  shows "fst r = 0 \<and> (strap_value c' (strap_word n) AND strap_mask n \<noteq> 0 \<longleftrightarrow> val = 1) \<and>
    strap_value c' (strap_word n) AND NOT (strap_mask n) =
      strap_value (od_cells (bus s)) (strap_word n) AND NOT (strap_mask n) \<and>
    strap_value c' (1 - strap_word n) = strap_value (od_cells (bus s)) (1 - strap_word n)"
proof -
  let ?c = "od_cells (bus s)" and ?w = "strap_word n" and ?m = "strap_mask n"
  have w: "?w < 2" "1 - ?w < 2" "1 - ?w \<noteq> ?w" by (simp_all add: strap_word_def)
  obtain f where f: "f < 6" "?c (config_address (16 + f * 2 + ?w)) AND ?m = 0" "fst r = 0"
    "c' = ?c(config_address (16 + f * 2 + ?w) := ?c (config_address (16 + f * 2 + ?w)) OR ?m)"
    using otp_bus.write_strap [OF assms(1-4) refl refl refl assms(7)] assms(5,6,8) by auto
  note v = strap_value_program [OF f(1) w(1) _ f(2,4)]
  have new: "strap_value c' ?w = strap_value ?c ?w XOR ?m"
    and old: "strap_value c' (1 - ?w) = strap_value ?c (1 - ?w)"
    using v [OF w(1)] v [OF w(2)] w(3) by simp_all
  have flip: "(x XOR m) AND m \<noteq> 0 \<longleftrightarrow> x AND m = 0" if "m = push_bit i 1" "i < 32" for x m :: u32 and i
  proof -
    have e: "y AND m \<noteq> 0 \<longleftrightarrow> bit y i" for y
      unfolding that(1) by (simp only: bit_iff_and_push_bit_not_eq_0)
    have "bit m i" using that by (simp add: bit_simps del: push_bit_of_1)
    then show ?thesis using e [of "x XOR m"] e [of x] by (auto simp: bit_xor_iff)
  qed
  have keep: "(x XOR m) AND NOT m = x AND NOT m" for x m :: u32
    by (auto simp: bit_eq_iff bit_simps)
  have "(strap_value ?c ?w XOR ?m) AND ?m \<noteq> 0 \<longleftrightarrow> strap_value ?c ?w AND ?m = 0"
    by (rule flip [where i = "if n > 31 then n - 32 else n"]) (use assms(3) in \<open>auto simp: strap_mask_def\<close>)
  moreover have "(strap_value ?c ?w AND ?m \<noteq> 0) = (val = 0)"
    using assms(5) by (auto simp: strap_refusal_def split: if_splits)
  ultimately show ?thesis using f(3) new old keep assms(4) by auto
qed

theorem otp_write_strap_effect_witness:
  "fst (run_state (otp_write_strap counter_clock otp_soc (otp_a2 0x1e6f2000) 5 ''YES'' 40 1) (otp_blank 0)) = 0"
proof -
  have "strap_refusal (od_cells (otp_of (otp_blank 0))) 5 ''YES'' (strap_word 40) (strap_mask 40) 1 = None"
    by (simp add: strap_refusal_def strap_options_def strap_value_def upt_rec otp_confirm_def scan_word_def
        c_isspace_def)
  then show ?thesis
    using otp_write_strap_effect [OF otp_p2a.otp_bus_axioms _ _ _ _ _ refl refl, of "otp_blank 0" 40 1 5 "''YES''"]
    by simp
qed

end
