(* ===== verification/Partial.thy ===== *)
theory Partial
  imports Prelude
begin

text \<open>
  Actions that may not return. The code polls hardware without a limit in places, and calls
  through pointers that may not be set; there an action is a partial function of the state:
  \<open>None\<close> is a call that does not return, because it loops for ever or follows \<open>NULL\<close>.
\<close>

type_synonym ('s, 'a) act = "'s \<Rightarrow> ('a \<times> 's) option"

definition act_ret :: "'a \<Rightarrow> ('s, 'a) act" where
  "act_ret v = (\<lambda>s. Some (v, s))"

definition act_bind :: "('s, 'a) act \<Rightarrow> ('a \<Rightarrow> ('s, 'b) act) \<Rightarrow> ('s, 'b) act" where
  "act_bind m k = (\<lambda>s. Option.bind (m s) (\<lambda>p. k (fst p) (snd p)))"

text \<open>A step that always returns, and one through a function pointer.\<close>

definition act_run :: "('s, 'a) state \<Rightarrow> ('s, 'a) act" where
  "act_run m = (\<lambda>s. Some (run_state m s))"

definition act_ptr :: "'f option \<Rightarrow> ('f \<Rightarrow> ('s, 'a) state) \<Rightarrow> ('s, 'a) act" where
  "act_ptr p f = (case p of None \<Rightarrow> (\<lambda>s. None) | Some g \<Rightarrow> act_run (f g))"

definition act_stuck :: "('s, 'a) act" where
  "act_stuck = (\<lambda>s. None)"

text \<open>The idioms around a status, as for the actions that return.\<close>

definition act_nz :: "('s, int) act \<Rightarrow> ('s, int) act \<Rightarrow> ('s, int) act" where
  "act_nz m k = act_bind m (\<lambda>rc. if rc \<noteq> 0 then act_ret rc else k)"

definition act_val :: "('s, int + 'a) act \<Rightarrow> ('a \<Rightarrow> ('s, int) act) \<Rightarrow> ('s, int) act" where
  "act_val m k = act_bind m (\<lambda>r. case r of Inl rc \<Rightarrow> act_ret rc | Inr v \<Rightarrow> k v)"

definition act_valr :: "('s, int + 'a) act \<Rightarrow> ('a \<Rightarrow> ('s, int + 'b) act) \<Rightarrow> ('s, int + 'b) act" where
  "act_valr m k = act_bind m (\<lambda>r. case r of Inl rc \<Rightarrow> act_ret (Inl rc) | Inr v \<Rightarrow> k v)"

definition act_nzr :: "('s, int) act \<Rightarrow> ('s, int + 'b) act \<Rightarrow> ('s, int + 'b) act" where
  "act_nzr m k = act_bind m (\<lambda>rc. if rc \<noteq> 0 then act_ret (Inl rc) else k)"

lemma act_ret_run [simp]: "act_ret v s = Some (v, s)"
  by (simp add: act_ret_def)

lemma act_run_run [simp]: "act_run m s = Some (run_state m s)"
  by (simp add: act_run_def)

lemma act_stuck_run [simp]: "act_stuck s = None"
  by (simp add: act_stuck_def)

lemma act_ptr_run [simp]:
  "act_ptr None f s = None" "act_ptr (Some g) f s = Some (run_state (f g) s)"
  by (simp_all add: act_ptr_def)

lemma act_bind_run [simp]: "m s = Some r \<Longrightarrow> act_bind m k s = k (fst r) (snd r)"
  by (simp add: act_bind_def)

lemma act_bind_None [simp]: "m s = None \<Longrightarrow> act_bind m k s = None"
  by (simp add: act_bind_def)

lemma act_nz_run [simp]:
  "m s = Some r \<Longrightarrow> act_nz m k s = (if fst r = 0 then k (snd r) else Some r)"
  by (simp add: act_nz_def)

lemma act_val_run [simp]:
  "m s = Some r \<Longrightarrow> act_val m k s =
    (case fst r of Inl rc \<Rightarrow> Some (rc, snd r) | Inr v \<Rightarrow> k v (snd r))"
  by (simp add: act_val_def split: sum.split)

lemma act_valr_run [simp]:
  "m s = Some r \<Longrightarrow> act_valr m k s =
    (case fst r of Inl rc \<Rightarrow> Some (Inl rc, snd r) | Inr v \<Rightarrow> k v (snd r))"
  by (simp add: act_valr_def split: sum.split)

lemma act_nzr_run [simp]:
  "m s = Some r \<Longrightarrow> act_nzr m k s = (if fst r = 0 then k (snd r) else Some (Inl (fst r), snd r))"
  by (simp add: act_nzr_def)

end
