(* ===== verification/Flash.thy ===== *)
theory Flash
  imports Partial
begin

text \<open>
  The NOR flash library \<^verbatim>\<open>src/flash.c\<close> over the operations of a flash controller
  (\<open>struct sfc\<close> of \<^verbatim>\<open>src/soc/sfc.h\<close>): status polling, page programming, erasing, the
  read-modify-write of \<open>flash_smart_write\<close>, and chip identification. The progress dots are not
  modelled. The scratch buffer of the chip is overwritten before every use and is local here.
\<close>

section \<open>Commands and chips\<close>

definition CMD_BE :: u8 where "CMD_BE = 0xd8"
definition CMD_BE32K :: u8 where "CMD_BE32K = 0x52"
definition CMD_CE :: u8 where "CMD_CE = 0x60"
definition CMD_EN4B :: u8 where "CMD_EN4B = 0xb7"
definition CMD_EX4B :: u8 where "CMD_EX4B = 0xe9"
definition CMD_MIC_BULK_ERASE :: u8 where "CMD_MIC_BULK_ERASE = 0xc7"
definition CMD_MIC_RDFLST :: u8 where "CMD_MIC_RDFLST = 0x70"
definition CMD_PP :: u8 where "CMD_PP = 0x02"
definition CMD_RDID :: u8 where "CMD_RDID = 0x9f"
definition CMD_RDSR :: u8 where "CMD_RDSR = 0x05"
definition CMD_READ :: u8 where "CMD_READ = 0x03"
definition CMD_SE :: u8 where "CMD_SE = 0x20"
definition CMD_WREN :: u8 where "CMD_WREN = 0x06"

lemmas flash_cmds = CMD_BE_def CMD_BE32K_def CMD_CE_def CMD_EN4B_def CMD_EX4B_def CMD_MIC_BULK_ERASE_def
  CMD_MIC_RDFLST_def CMD_PP_def CMD_RDID_def CMD_RDSR_def CMD_READ_def CMD_SE_def CMD_WREN_def

definition STAT_WIP :: u8 where "STAT_WIP = 0x01"
definition STAT_WEN :: u8 where "STAT_WEN = 0x02"

definition FL_ERASE_4K :: u32 where "FL_ERASE_4K = 0x1"
definition FL_ERASE_32K :: u32 where "FL_ERASE_32K = 0x2"
definition FL_ERASE_64K :: u32 where "FL_ERASE_64K = 0x4"
definition FL_ERASE_CHIP :: u32 where "FL_ERASE_CHIP = 0x8"
definition FL_ERASE_BULK :: u32 where "FL_ERASE_BULK = 0x10"
definition FL_MICRON_BUGS :: u32 where "FL_MICRON_BUGS = 0x20"
definition FL_ERASE_ALL :: u32 where "FL_ERASE_ALL = 0xf"
definition FL_CAN_4B :: u32 where "FL_CAN_4B = 0x10"

lemmas flash_flags = FL_ERASE_4K_def FL_ERASE_32K_def FL_ERASE_64K_def FL_ERASE_CHIP_def
  FL_ERASE_BULK_def FL_MICRON_BUGS_def FL_ERASE_ALL_def FL_CAN_4B_def

record flash_info =
  fi_id :: u32
  fi_size :: u32
  fi_flags :: u32
  fi_name :: string

abbreviation chip :: "u32 \<Rightarrow> u32 \<Rightarrow> u32 \<Rightarrow> string \<Rightarrow> flash_info" where
  "chip n len flags name \<equiv> \<lparr>fi_id = n, fi_size = len, fi_flags = flags, fi_name = name\<rparr>"

definition flash_infos :: "flash_info list" where
  "flash_infos = [
     chip 0xc22018 0x01000000 (FL_ERASE_ALL OR FL_CAN_4B) ''Macronix MXxxL12835F'',
     chip 0xc22019 0x02000000 (FL_ERASE_ALL OR FL_CAN_4B) ''Macronix MXxxL25635F'',
     chip 0xc2201a 0x04000000 (FL_ERASE_ALL OR FL_CAN_4B) ''Macronix MXxxL51235F'',
     chip 0xc2201b 0x08000000 (FL_ERASE_ALL OR FL_CAN_4B) ''Macronix MX66L1G45G'',
     chip 0xef4018 0x01000000 FL_ERASE_ALL ''Winbond W25Q128BV'',
     chip 0xef4019 0x02000000 (FL_ERASE_ALL OR FL_ERASE_64K OR FL_CAN_4B OR FL_ERASE_BULK) ''Winbond W25Q256BV'',
     chip 0xef4020 0x04000000 (FL_ERASE_ALL OR FL_ERASE_64K OR FL_CAN_4B OR FL_ERASE_BULK) ''Winbond W25Q512JV'',
     chip 0xef4021 0x08000000 (FL_ERASE_ALL OR FL_ERASE_64K OR FL_CAN_4B OR FL_ERASE_BULK) ''Winbond W25Q01JV'',
     chip 0x20ba20 0x04000000 (FL_ERASE_4K OR FL_ERASE_64K OR FL_CAN_4B OR FL_ERASE_BULK OR FL_MICRON_BUGS)
       ''Micron N25Qx512Ax'',
     chip 0x20ba19 0x02000000 (FL_ERASE_4K OR FL_ERASE_64K OR FL_CAN_4B OR FL_ERASE_BULK OR FL_MICRON_BUGS)
       ''Micron N25Q256Ax'',
     chip 0x1940ef 0x02000000 (FL_ERASE_4K OR FL_ERASE_64K OR FL_CAN_4B OR FL_ERASE_BULK OR FL_MICRON_BUGS)
       ''Micron N25Qx256Ax'',
     chip 0x4d5444 0x02000000 (FL_ERASE_ALL OR FL_CAN_4B) ''File Abstraction'',
     chip 0x55aa55 0x00100000 (FL_ERASE_ALL OR FL_CAN_4B) ''TEST_FLASH'',
     chip 0xaa55aa 0x02000000 (FL_ERASE_ALL OR FL_CAN_4B) ''EMULATED_FLASH'']"

text \<open>
  The operations of a controller, each of which may be missing. An address is an option
  instead of a flag and a value; \<open>setup\<close> may override the size it is given; \<open>finfo\<close> is the
  description the controller has of its chip.
\<close>

record 's sfc =
  op_setup :: "(flash_info \<Rightarrow> u32 \<Rightarrow> ('s, int + u32) state) option"
  op_set_4b :: "(flash_info \<Rightarrow> bool \<Rightarrow> ('s, int) state) option"
  op_chip_id :: "('s, int + u8 list) state option"
  op_direct_read :: "(u32 \<Rightarrow> nat \<Rightarrow> ('s, int + u8 list) state) option"
  op_write :: "(u32 \<Rightarrow> u8 list \<Rightarrow> ('s, int) state) option"
  op_erase :: "(u32 \<Rightarrow> u32 \<Rightarrow> ('s, int) state) option"
  op_cmd_rd :: "(u8 \<Rightarrow> u32 option \<Rightarrow> nat \<Rightarrow> ('s, int + u8 list) state) option"
  op_cmd_wr :: "(u8 \<Rightarrow> u32 option \<Rightarrow> u8 list \<Rightarrow> ('s, int) state) option"

record flash_chip =
  fc_info :: flash_info
  fc_tsize :: u32
  fc_min_erase_mask :: u32
  fc_mode_4b :: bool

section \<open>Status\<close>

definition fl_read_stat :: "'s sfc \<Rightarrow> ('s, int + u8) act" where
  "fl_read_stat ct = act_valr (act_ptr (op_cmd_rd ct) (\<lambda>f. f CMD_RDSR None 1)) (\<lambda>bs.
     act_ret (Inr (hd bs)))"

definition fl_micron_status :: "'s sfc \<Rightarrow> ('s, unit) act" where
  "fl_micron_status ct = act_bind (act_ptr (op_cmd_rd ct) (\<lambda>f. f CMD_MIC_RDFLST None 1)) (\<lambda>_.
     act_ret ())"

text \<open>The polling has no limit, and the flags are read through \<open>finfo\<close> when the chip is idle.\<close>

partial_function (option) fl_sync_wait_idle ::
  "'s sfc \<Rightarrow> flash_info option \<Rightarrow> 's \<Rightarrow> (int \<times> 's) option" where
  "fl_sync_wait_idle ct finfo s =
     Option.bind (fl_read_stat ct s) (\<lambda>r. case fst r of
         Inl rc \<Rightarrow> Some (rc, snd r)
       | Inr stat \<Rightarrow>
           if stat AND STAT_WIP = 0
           then (case finfo of
               None \<Rightarrow> None
             | Some info \<Rightarrow>
                 if fi_flags info AND FL_MICRON_BUGS \<noteq> 0
                 then act_bind (fl_micron_status ct) (\<lambda>_. act_ret 0) (snd r)
                 else Some (0, snd r))
           else fl_sync_wait_idle ct finfo (snd r))"

definition FL_WREN_TRIES :: nat where "FL_WREN_TRIES = 1000"

fun fl_wren_loop :: "nat \<Rightarrow> 's sfc \<Rightarrow> flash_info option \<Rightarrow> ('s, int) act" where
  "fl_wren_loop 0 ct finfo = act_ret (- ETIMEDOUT)"
| "fl_wren_loop (Suc n) ct finfo =
     act_nz (act_ptr (op_cmd_wr ct) (\<lambda>f. f CMD_WREN None []))
     (act_val (fl_read_stat ct) (\<lambda>stat.
       if stat AND STAT_WIP \<noteq> 0
       then act_nz (fl_sync_wait_idle ct finfo) (fl_wren_loop n ct finfo)
       else if stat AND STAT_WEN \<noteq> 0 then act_ret 0
       else fl_wren_loop n ct finfo))"

definition fl_wren :: "'s sfc \<Rightarrow> flash_info option \<Rightarrow> ('s, int) act" where
  "fl_wren ct finfo = fl_wren_loop FL_WREN_TRIES ct finfo"

section \<open>Reading and erasing\<close>

definition flash_read :: "'s sfc \<Rightarrow> flash_chip \<Rightarrow> u64 \<Rightarrow> nat \<Rightarrow> ('s, int + u8 list) act" where
  "flash_read ct c pos len =
     (if (\<not> fc_mode_4b c \<or> op_set_4b ct \<noteq> None) \<and> op_direct_read ct \<noteq> None
      then act_ptr (op_direct_read ct) (\<lambda>f. f (ucast pos) len)
      else if op_cmd_rd ct = None then act_ret (Inl (- EOPNOTSUPP))
      else act_ptr (op_cmd_rd ct) (\<lambda>f. f CMD_READ (Some (ucast pos)) len))"

definition fl_get_best_erase :: "flash_chip \<Rightarrow> u32 \<Rightarrow> u32 \<Rightarrow> u32 \<times> u8" where
  "fl_get_best_erase c dst sz =
     (if dst AND 0x7fff \<noteq> 0 \<or> sz < 0x8000 then (0x1000, CMD_SE)
      else if fi_flags (fc_info c) AND FL_ERASE_32K \<noteq> 0 \<and> (dst AND 0xffff \<noteq> 0 \<or> sz < 0x10000)
      then (0x8000, CMD_BE32K)
      else if fi_flags (fc_info c) AND FL_ERASE_64K = 0
      then (if fi_flags (fc_info c) AND FL_ERASE_32K \<noteq> 0 then (0x8000, CMD_BE32K) else (0x1000, CMD_SE))
      else (0x10000, CMD_BE))"

text \<open>The loop of \<open>flash_erase\<close>: \<open>size\<close> wraps when a chunk is larger than what is left.\<close>

partial_function (option) flash_erase_loop ::
  "'s sfc \<Rightarrow> flash_chip \<Rightarrow> u64 \<Rightarrow> u64 \<Rightarrow> 's \<Rightarrow> (int \<times> 's) option" where
  "flash_erase_loop ct c dst sz s =
     (if sz = 0 then Some (0, s)
      else
        let best = fl_get_best_erase c (ucast dst) (ucast sz)
        in Option.bind
            (act_nz (fl_wren ct (Some (fc_info c)))
              (act_nz (act_ptr (op_cmd_wr ct) (\<lambda>f. f (snd best) (Some (ucast dst)) []))
                (fl_sync_wait_idle ct (Some (fc_info c)))) s)
            (\<lambda>r. if fst r \<noteq> 0 then Some r
                 else flash_erase_loop ct c (dst + ucast (fst best)) (sz - ucast (fst best)) (snd r)))"

definition flash_erase :: "'s sfc \<Rightarrow> flash_chip \<Rightarrow> u64 \<Rightarrow> u64 \<Rightarrow> ('s, int) act" where
  "flash_erase ct c dst sz =
     (if dst + sz \<le> dst \<or> sz = 0 \<or> dst + sz > ucast (fc_tsize c) then act_ret (- EINVAL)
      else if (dst OR sz) AND ucast (fc_min_erase_mask c) \<noteq> 0 then act_ret (- EINVAL)
      else if op_erase ct \<noteq> None then act_ptr (op_erase ct) (\<lambda>f. f (ucast dst) (ucast sz))
      else flash_erase_loop ct c dst sz)"

definition flash_erase_chip :: "'s sfc \<Rightarrow> flash_chip \<Rightarrow> ('s, int) act" where
  "flash_erase_chip ct c =
     (if fi_flags (fc_info c) AND (FL_ERASE_CHIP OR FL_ERASE_BULK) = 0 then act_ret (- EOPNOTSUPP)
      else if op_erase ct \<noteq> None then act_ptr (op_erase ct) (\<lambda>f. f 0 0xffffffff)
      else act_nz (fl_wren ct (Some (fc_info c)))
        (act_nz (act_ptr (op_cmd_wr ct) (\<lambda>f.
            f (if fi_flags (fc_info c) AND FL_ERASE_CHIP \<noteq> 0 then CMD_CE else CMD_MIC_BULK_ERASE) None []))
          (fl_sync_wait_idle ct (Some (fc_info c)))))"

section \<open>Writing\<close>

definition fl_wpage :: "'s sfc \<Rightarrow> flash_chip \<Rightarrow> u32 \<Rightarrow> u8 list \<Rightarrow> ('s, int) act" where
  "fl_wpage ct c dst src =
     (if length src < 1 \<or> length src > 0x100 then act_ret (- EINVAL)
      else act_nz (fl_wren ct (Some (fc_info c)))
        (act_nz (act_ptr (op_cmd_wr ct) (\<lambda>f. f CMD_PP (Some dst) src))
          (fl_sync_wait_idle ct (Some (fc_info c)))))"

text \<open>The bytes that are left from \<open>d\<close> on go page by page.\<close>

lemma page_room: "0 < unat (0x100 - (d AND 0xff :: u32)) \<and> unat (0x100 - (d AND 0xff :: u32)) = 0x100 - unat d mod 0x100"
proof -
  have m: "(0xff :: u32) = mask 8" by (simp add: mask_eq_exp_minus_1)
  have u: "unat (d AND 0xff) = unat d mod 256" unfolding m using unat_and_mask [of d 8] by simp
  have l: "unat d mod 256 < 256" by simp
  have "unat (0x100 - (d AND 0xff)) = 0x100 - unat (d AND 0xff)"
    using u l by (subst unat_sub) (simp_all add: word_le_nat_alt)
  then show ?thesis using u l by simp
qed

function flash_write_loop :: "'s sfc \<Rightarrow> flash_chip \<Rightarrow> u32 \<Rightarrow> u8 list \<Rightarrow> ('s, int) act" where
  "flash_write_loop ct c d s =
     (if s = [] then act_ret 0
      else
        let chunk = min (unat (0x100 - (d AND 0xff))) (length s)
        in act_nz (fl_wpage ct c d (take chunk s))
             (flash_write_loop ct c (d + of_nat chunk) (drop chunk s)))"
  by pat_completeness auto
termination
  by (relation "measure (\<lambda>(ct, c, d, s). length s)") (use page_room in auto)

declare flash_write_loop.simps [simp del]

function flash_verify_loop :: "'s sfc \<Rightarrow> flash_chip \<Rightarrow> u32 \<Rightarrow> u8 list \<Rightarrow> ('s, int) act" where
  "flash_verify_loop ct c dst src =
     (if src = [] then act_ret 0
      else
        let chunk = min 0x100 (length src)
        in act_val (flash_read ct c (ucast dst) chunk) (\<lambda>vbuf.
             if vbuf \<noteq> take chunk src then act_ret (- EREMOTEIO)
             else flash_verify_loop ct c (dst + of_nat chunk) (drop chunk src)))"
  by pat_completeness auto
termination
  by (relation "measure (\<lambda>(ct, c, d, s). length s)") auto

declare flash_verify_loop.simps [simp del]

definition flash_write :: "'s sfc \<Rightarrow> flash_chip \<Rightarrow> u32 \<Rightarrow> u8 list \<Rightarrow> bool \<Rightarrow> ('s, int) act" where
  "flash_write ct c dst src verify =
     (let sz = of_nat (length src)
      in if dst + sz \<le> dst \<or> sz = 0 \<or> dst + sz > fc_tsize c then act_ret (- EINVAL)
         else if (\<not> fc_mode_4b c \<or> op_set_4b ct \<noteq> None) \<and> op_write ct \<noteq> None
         then act_nz (act_ptr (op_write ct) (\<lambda>f. f dst src))
           (if verify then flash_verify_loop ct c dst src else act_ret 0)
         else if op_cmd_wr ct = None then act_ret (- EOPNOTSUPP)
         else act_nz (flash_write_loop ct c dst src)
           (if verify then flash_verify_loop ct c dst src else act_ret 0))"

datatype sm_comp_res = sm_no_change | sm_need_write | sm_need_erase

text \<open>
  \<open>b\<close> is the buffer from the offset on, \<open>same\<close> the flag of the loop: a bit to be set asks for
  an erase at once.
\<close>

fun flash_smart_comp :: "u8 list \<Rightarrow> u8 list \<Rightarrow> bool \<Rightarrow> sm_comp_res" where
  "flash_smart_comp (b # bs) (s # ss) same =
     (if s AND NOT b \<noteq> 0 then sm_need_erase else flash_smart_comp bs ss (same \<and> b = s))"
| "flash_smart_comp bs ss same = (if same then sm_no_change else sm_need_write)"

text \<open>One round of \<open>flash_smart_write\<close>, on the erase page of \<open>dst\<close>.\<close>

definition flash_smart_page :: "'s sfc \<Rightarrow> flash_chip \<Rightarrow> u64 \<Rightarrow> u8 list \<Rightarrow> ('s, int) act" where
  "flash_smart_page ct c dst src =
     (let er_size = fc_min_erase_mask c + 1;
          page = (ucast (dst AND ucast (NOT (fc_min_erase_mask c))) :: u32);
          off = unat (dst AND ucast (fc_min_erase_mask c))
      in act_val (flash_read ct c (ucast page) (unat er_size)) (\<lambda>buf.
           case flash_smart_comp (drop off buf) src True of
             sm_no_change \<Rightarrow> act_ret 0
           | sm_need_write \<Rightarrow> flash_write ct c (ucast dst) src True
           | sm_need_erase \<Rightarrow>
               act_nz (flash_erase ct c (ucast page) (ucast er_size))
                 (flash_write ct c page (take off buf @ src @ drop (off + length src) buf) True)))"

text \<open>How much of what is left goes into the erase page of \<open>dst\<close>.\<close>

definition smart_chunk :: "flash_chip \<Rightarrow> u64 \<Rightarrow> nat \<Rightarrow> nat" where
  "smart_chunk c dst left =
     (let chunk = unat (fc_min_erase_mask c + 1 - ucast (dst AND ucast (fc_min_erase_mask c)))
      in if left < chunk then left else chunk)"

partial_function (option) flash_smart_loop ::
  "'s sfc \<Rightarrow> flash_chip \<Rightarrow> u32 \<Rightarrow> u64 \<Rightarrow> u8 list \<Rightarrow> 's \<Rightarrow> (int \<times> 's) option" where
  "flash_smart_loop ct c end' dst src s =
     (if \<not> dst < ucast end' then Some (0, s)
      else
        let chunk = smart_chunk c dst (length src)
        in Option.bind (flash_smart_page ct c dst (take chunk src) s) (\<lambda>r.
             if fst r \<noteq> 0 then Some r
             else flash_smart_loop ct c end' (dst + of_nat chunk) (drop chunk src) (snd r)))"

definition flash_smart_write :: "'s sfc \<Rightarrow> flash_chip \<Rightarrow> u64 \<Rightarrow> u8 list \<Rightarrow> ('s, int) act" where
  "flash_smart_write ct c dst src =
     (let end' = (ucast (dst + of_nat (length src)) :: u32)
      in if ucast end' \<le> dst \<or> src = [] \<or> end' > fc_tsize c then act_ret (- EINVAL)
         else flash_smart_loop ct c end' dst src)"

section \<open>Identification and initialisation\<close>

text \<open>Before the chip is identified the controller has no description of it: \<open>finfo\<close> is \<open>NULL\<close>.\<close>

definition fl_chip_id :: "'s sfc \<Rightarrow> ('s, int + u8 list) act" where
  "fl_chip_id ct = act_valr (fl_read_stat ct) (\<lambda>stat.
     act_nzr (if stat AND STAT_WIP \<noteq> 0 then fl_sync_wait_idle ct None else act_ret 0)
       (act_ptr (op_cmd_rd ct) (\<lambda>f. f CMD_RDID None 3)))"

definition min_erase_mask_of :: "u32 \<Rightarrow> u32 option" where
  "min_erase_mask_of flags =
     (if flags AND FL_ERASE_4K \<noteq> 0 then Some 0xfff
      else if flags AND FL_ERASE_32K \<noteq> 0 then Some 0x7fff
      else if flags AND FL_ERASE_64K \<noteq> 0 then Some 0xffff
      else None)"

definition flash_identify :: "'s sfc \<Rightarrow> ('s, int + flash_chip) act" where
  "flash_identify ct =
     act_valr (case op_chip_id ct of Some f \<Rightarrow> act_run f | None \<Rightarrow> fl_chip_id ct) (\<lambda>ident.
       if length ident < 3 then act_ret (Inl (- ENXIO))
       else
         let iid = (push_bit 16 (ucast (ident ! 0)) OR push_bit 8 (ucast (ident ! 1))) OR ucast (ident ! 2)
         in case List.find (\<lambda>i. fi_id i = iid) flash_infos of
              None \<Rightarrow> act_ret (Inl (- ENXIO))
            | Some info \<Rightarrow>
                act_valr (case op_setup ct of
                    Some f \<Rightarrow> act_run (f info (fi_size info))
                  | None \<Rightarrow> act_ret (Inr (fi_size info))) (\<lambda>tsize.
                  case min_erase_mask_of (fi_flags info) of
                    None \<Rightarrow> act_ret (Inl (- EIO))
                  | Some m \<Rightarrow> act_ret (Inr \<lparr>fc_info = info, fc_tsize = tsize,
                      fc_min_erase_mask = m, fc_mode_4b = False\<rparr>)))"

definition flash_set_4b :: "'s sfc \<Rightarrow> flash_chip \<Rightarrow> bool \<Rightarrow> ('s, int) act" where
  "flash_set_4b ct c enable =
     (if op_cmd_wr ct = None then act_ret 0
      else act_bind (fl_wren ct (Some (fc_info c))) (\<lambda>_.
        act_ptr (op_cmd_wr ct) (\<lambda>f. f (if enable then CMD_EN4B else CMD_EX4B) None [])))"

definition flash_ctrl_4b :: "'s sfc \<Rightarrow> flash_chip \<Rightarrow> bool \<Rightarrow> ('s, int) act" where
  "flash_ctrl_4b ct c enable =
     (if op_set_4b ct = None then act_ret 0
      else act_ptr (op_set_4b ct) (\<lambda>f. f (fc_info c) enable))"

definition flash_configure :: "'s sfc \<Rightarrow> flash_chip \<Rightarrow> ('s, int + flash_chip) act" where
  "flash_configure ct c =
     (let c = (if fc_tsize c > 0x01000000 \<and> fi_flags (fc_info c) AND FL_CAN_4B = 0
               then c\<lparr>fc_tsize := 0x01000000\<rparr> else c)
      in if fc_tsize c > 0x01000000
         then act_nzr (if op_cmd_wr ct \<noteq> None then flash_set_4b ct c True else act_ret 0)
           (act_nzr (flash_ctrl_4b ct c True) (act_ret (Inr c)))
         else act_nzr (if fi_flags (fc_info c) AND FL_CAN_4B \<noteq> 0 then flash_set_4b ct c False else act_ret 0)
           (act_nzr (flash_ctrl_4b ct c False) (act_ret (Inr c))))"

definition flash_get_info :: "flash_chip \<Rightarrow> string \<times> u64 \<times> u32" where
  "flash_get_info c = (fi_name (fc_info c), ucast (fc_tsize c), fc_min_erase_mask c + 1)"

definition flash_init :: "'s sfc \<Rightarrow> ('s, int + flash_chip) act" where
  "flash_init ct = act_valr (flash_identify ct) (flash_configure ct)"

section \<open>What a NOR flash does\<close>

text \<open>
  Programming clears bits, erasing sets every bit of a block; \<open>nor_put\<close> is plain storing,
  which no single command does.
\<close>

type_synonym nor = "nat \<Rightarrow> u8"

definition nor_bytes :: "nor \<Rightarrow> nat \<Rightarrow> nat \<Rightarrow> u8 list" where
  "nor_bytes m a n = map m [a..<a + n]"

definition nor_program :: "nor \<Rightarrow> nat \<Rightarrow> u8 list \<Rightarrow> nor" where
  "nor_program m a bs = (\<lambda>i. if a \<le> i \<and> i < a + length bs then m i AND bs ! (i - a) else m i)"

definition nor_erase :: "nor \<Rightarrow> nat \<Rightarrow> nat \<Rightarrow> nor" where
  "nor_erase m a n = (\<lambda>i. if a \<le> i \<and> i < a + n then 0xff else m i)"

definition nor_put :: "nor \<Rightarrow> nat \<Rightarrow> u8 list \<Rightarrow> nor" where
  "nor_put m a bs = (\<lambda>i. if a \<le> i \<and> i < a + length bs then bs ! (i - a) else m i)"

lemma length_nor_bytes [simp]: "length (nor_bytes m a n) = n"
  by (simp add: nor_bytes_def)

lemma nor_bytes_nth [simp]: "i < n \<Longrightarrow> nor_bytes m a n ! i = m (a + i)"
  by (simp add: nor_bytes_def)

lemma nor_bytes_put [simp]: "nor_bytes (nor_put m a bs) a (length bs) = bs"
  by (rule nth_equalityI) (simp_all add: nor_put_def)

lemma nor_program_Nil [simp]: "nor_program m a [] = m"
  by (auto simp: nor_program_def fun_eq_iff)

lemma nor_put_Nil [simp]: "nor_put m a [] = m"
  by (auto simp: nor_put_def fun_eq_iff)

lemma nor_program_append:
  "nor_program m a (xs @ ys) = nor_program (nor_program m a xs) (a + length xs) ys"
  by (auto simp: nor_program_def fun_eq_iff nth_append)

lemma nor_put_append: "nor_put m a (xs @ ys) = nor_put (nor_put m a xs) (a + length xs) ys"
  by (auto simp: nor_put_def fun_eq_iff nth_append)

lemma nor_program_fits:
  assumes "\<And>i. i < length bs \<Longrightarrow> bs ! i AND NOT (m (a + i)) = 0"
  shows "nor_program m a bs = nor_put m a bs"
proof (rule ext)
  fix i
  show "nor_program m a bs i = nor_put m a bs i"
  proof (cases "a \<le> i \<and> i < a + length bs")
    case True
    then have "bs ! (i - a) AND NOT (m i) = 0" using assms [of "i - a"] by auto
    then have "m i AND bs ! (i - a) = bs ! (i - a)"
      using and_plus_and_not [of "bs ! (i - a)" "m i"] by (simp add: and.commute)
    then show ?thesis using True by (simp add: nor_program_def nor_put_def)
  qed (auto simp: nor_program_def nor_put_def)
qed

lemma nor_erase_program:
  assumes "a \<le> b" "b + length bs \<le> a + n"
  shows "nor_program (nor_erase m a n) b bs = nor_put (nor_erase m a n) b bs"
proof (rule nor_program_fits)
  fix i
  assume "i < length bs"
  then have "nor_erase m a n (b + i) = 0xff" using assms by (simp add: nor_erase_def)
  moreover have "NOT (0xff :: u8) = 0" by simp
  ultimately show "bs ! i AND NOT (nor_erase m a n (b + i)) = 0" by (simp only: and_zero_eq)
qed

text \<open>Verification reads 256 bytes at a time: no read then crosses a multiple of 64 KiB.\<close>

definition verify_fits :: "nat \<Rightarrow> nat \<Rightarrow> bool" where
  "verify_fits d len \<longleftrightarrow> d mod 0x100 = 0 \<or> d mod 0x10000 + len \<le> 0x10000"

lemma verify_fits_chunk: "verify_fits d len \<Longrightarrow> d mod 0x10000 + min 0x100 len \<le> 0x10000"
proof -
  assume "verify_fits d len"
  then consider "d mod 0x100 = 0" | "d mod 0x10000 + len \<le> 0x10000" by (auto simp: verify_fits_def)
  then show ?thesis
  proof cases
    case 1
    then have "d mod 0x10000 mod 0x100 = 0" by (simp add: mod_mod_cancel)
    then obtain q where q: "d mod 0x10000 = 0x100 * q" by auto
    moreover have "d mod 0x10000 < 0x10000" by simp
    ultimately have "q < 0x100" by linarith
    then show ?thesis unfolding q by simp
  qed simp
qed

lemma verify_fits_next:
  assumes "verify_fits d len" "0x100 < len"
  shows "verify_fits (d + 0x100) (len - 0x100)"
proof (cases "d mod 0x100 = 0")
  case False
  then have "d mod 0x10000 + 0x100 < 0x10000" using assms by (simp add: verify_fits_def)
  then have "(d + 0x100) mod 0x10000 = d mod 0x10000 + 0x100"
    by (simp add: mod_add_left_eq [of d "0x10000", symmetric])
  then show ?thesis using assms by (simp add: verify_fits_def)
qed (simp add: verify_fits_def)

text \<open>The block a command erases.\<close>

definition nor_block :: "u8 \<Rightarrow> nat option" where
  "nor_block cmd = (if cmd = CMD_SE then Some 0x1000 else if cmd = CMD_BE32K then Some 0x8000
     else if cmd = CMD_BE then Some 0x10000 else None)"

lemma nor_erase_append: "nor_erase (nor_erase m a k) (a + k) l = nor_erase m a (k + l)"
  by (auto simp: nor_erase_def fun_eq_iff)

lemma nor_erase_0 [simp]: "nor_erase m a 0 = m"
  by (auto simp: nor_erase_def fun_eq_iff)

text \<open>
  Chips for which the erase block that is picked fits: those with 32K blocks or without 64K
  blocks; for the others only spans below 32K are erased soundly.
\<close>

definition erase_fits :: "flash_chip \<Rightarrow> nat \<Rightarrow> bool" where
  "erase_fits c len \<longleftrightarrow>
     fi_flags (fc_info c) AND FL_ERASE_32K \<noteq> 0 \<or> fi_flags (fc_info c) AND FL_ERASE_64K = 0 \<or> len < 0x8000"

lemma erase_fits_mono: "erase_fits c l \<Longrightarrow> k \<le> l \<Longrightarrow> erase_fits c k"
  by (auto simp: erase_fits_def)

lemma and_low_mask: "(x :: u32) AND 0x7fff = 0 \<longleftrightarrow> unat x mod 0x8000 = 0"
  "x AND 0xffff = 0 \<longleftrightarrow> unat x mod 0x10000 = 0"
proof -
  have m: "(0x7fff :: u32) = mask 15" "(0xffff :: u32) = mask 16" by (simp_all add: mask_eq_exp_minus_1)
  have "unat (x AND 0x7fff) = unat x mod 0x8000" "unat (x AND 0xffff) = unat x mod 0x10000"
    unfolding m unat_and_mask by simp_all
  then show "x AND 0x7fff = 0 \<longleftrightarrow> unat x mod 0x8000 = 0" "x AND 0xffff = 0 \<longleftrightarrow> unat x mod 0x10000 = 0"
    by (metis unat_eq_zero)+
qed

lemma best_erase_block:
  assumes "unat d mod 0x1000 = 0" "unat z mod 0x1000 = 0" "0 < unat z" "erase_fits c (unat z)"
    and "fl_get_best_erase c d z = (k, cmd)"
  shows "nor_block cmd = Some (unat k) \<and> unat d mod unat k = 0 \<and> unat k \<le> unat z \<and>
    0 < unat k \<and> unat k mod 0x1000 = 0"
  using assms
  by (auto simp: fl_get_best_erase_def erase_fits_def and_low_mask word_less_nat_alt nor_block_def flash_cmds
      split: if_splits)

text \<open>What the comparison before a smart write finds.\<close>

lemma smart_comp_erase:
  "length s \<le> length b \<Longrightarrow> flash_smart_comp b s same \<noteq> sm_need_erase \<Longrightarrow> i < length s \<Longrightarrow>
   s ! i AND NOT (b ! i) = 0"
proof (induction b s same arbitrary: i rule: flash_smart_comp.induct)
  case (1 b bs s ss same)
  then show ?case by (cases i) (simp_all split: if_splits)
qed (simp_all)

lemma smart_comp_same:
  "length s \<le> length b \<Longrightarrow> flash_smart_comp b s same = sm_no_change \<Longrightarrow> same \<and> take (length s) b = s"
  by (induction b s same rule: flash_smart_comp.induct) (auto split: if_splits)

lemma page_below:
  assumes "d < t" "t mod 0x1000 = (0 :: nat)"
  shows "d div 0x1000 * 0x1000 + 0x1000 \<le> t"
proof -
  have t: "t div 0x1000 * 0x1000 = t" using assms(2) by (metis add.right_neutral div_mult_mod_eq)
  then have "d div 0x1000 < t div 0x1000" using assms(1) by (simp add: less_mult_imp_div_less)
  then have "(d div 0x1000 + 1) * 0x1000 \<le> t div 0x1000 * 0x1000" by (intro mult_le_mono1) simp
  with t show ?thesis by simp
qed

text \<open>An erase page lies in one block of 64 KiB.\<close>

lemma page_64k:
  "(d :: nat) div 0x1000 * 0x1000 mod 0x10000 + 0x1000 \<le> 0x10000"
  "d mod 0x1000 + l \<le> 0x1000 \<Longrightarrow> verify_fits d l"
  "verify_fits (d div 0x1000 * 0x1000) l"
proof -
  have "d div 0x1000 * 0x1000 mod 0x10000 = d div 0x1000 mod 0x10 * 0x1000" by (simp add: mult_mod_left)
  moreover have "d div 0x1000 mod 0x10 < 0x10" by simp
  ultimately show page: "d div 0x1000 * 0x1000 mod 0x10000 + 0x1000 \<le> 0x10000" by linarith
  have "d mod 0x10000 = (d div 0x1000 * 0x1000 mod 0x10000 + d mod 0x1000) mod 0x10000"
    by (metis div_mult_mod_eq mod_add_left_eq)
  moreover have "d mod 0x1000 < 0x1000" by simp
  ultimately have "d mod 0x10000 = d div 0x1000 * 0x1000 mod 0x10000 + d mod 0x1000"
    using page by simp
  then show "verify_fits d l" if "d mod 0x1000 + l \<le> 0x1000"
    using page that by (simp add: verify_fits_def)
  have "d div 0x1000 * 0x1000 mod 0x100 = 0" by (simp add: mod_eq_0_iff_dvd)
  then show "verify_fits (d div 0x1000 * 0x1000) l" by (simp add: verify_fits_def)
qed

text \<open>The block written back after an erase: what was there with the new bytes over it.\<close>

lemma nor_merge:
  assumes "k + length bs \<le> l"
  shows "nor_put (nor_erase m p l) p (take k (nor_bytes m p l) @ bs @ drop (k + length bs) (nor_bytes m p l)) =
    nor_put m (p + k) bs"
proof (rule ext)
  fix i
  show "nor_put (nor_erase m p l) p (take k (nor_bytes m p l) @ bs @ drop (k + length bs) (nor_bytes m p l)) i =
      nor_put m (p + k) bs i"
  proof (cases "p \<le> i \<and> i < p + l")
    case True
    then obtain j where j: "i = p + j" "j < l" by (metis add_less_cancel_left le_iff_add)
    consider "j < k" | "k \<le> j" "j < k + length bs" | "k + length bs \<le> j" by linarith
    then show ?thesis
      by cases (use assms j in \<open>auto simp: nor_put_def nth_append\<close>)
  qed (use assms in \<open>auto simp: nor_put_def nor_erase_def\<close>)
qed

text \<open>A range of whole erase blocks inside the chip passes the checks of \<open>flash_erase\<close>.\<close>

lemma flash_erase_checked:
  assumes "unat d mod 0x1000 = 0" "unat z mod 0x1000 = 0" "0 < unat z" "fc_min_erase_mask c = 0xfff"
    and "unat d + unat z \<le> unat (fc_tsize c)" "op_erase ct = None"
  shows "flash_erase ct c d z s = flash_erase_loop ct c d z s"
proof -
  have lt: "unat d + unat z < 2 ^ 32" using assms(5) le_less_trans [OF _ unat_u32_less] by simp
  then have u: "unat (d + z) = unat d + unat z" by (simp add: unat_word_ariths(1))
  have m: "(ucast (0xfff :: u32) :: u64) = mask 12" by (simp add: mask_eq_exp_minus_1)
  have "unat (x AND ucast (fc_min_erase_mask c)) = unat x mod 0x1000" for x :: u64
    unfolding assms(4) m unat_and_mask by simp
  then have "d AND ucast (fc_min_erase_mask c) = 0" "z AND ucast (fc_min_erase_mask c) = 0"
    using assms(1,2) by (metis unat_eq_zero)+
  then have "(d OR z) AND ucast (fc_min_erase_mask c) = 0"
    by (simp add: bit.conj_disj_distrib2)
  moreover have "\<not> d + z \<le> d" "z \<noteq> 0" "\<not> d + z > ucast (fc_tsize c)"
    using u assms(3,5) by (auto simp: word_le_nat_alt word_less_nat_alt)
  ultimately show ?thesis using assms(6) by (simp add: flash_erase_def)
qed

text \<open>
  The contract of a controller with a chip of \<open>n\<close> bytes behind it. While an operation is in
  progress the status says so, and it ends after finitely many status reads; programming
  and erasing take effect when writing is enabled; a page program stays in its page of 256
  bytes, and a read in an aligned block of 64 KiB, which is what the windows of the bridges
  serve.
\<close>

locale nor_flash =
  fixes ct :: "'s sfc"
    and ok :: "'s \<Rightarrow> bool"
    and nmem :: "'s \<Rightarrow> nor"
    and wen :: "'s \<Rightarrow> bool"
    and busy :: "'s \<Rightarrow> nat"
    and n :: nat
    and rd and wr
  assumes cmds: "op_cmd_rd ct = Some rd" "op_cmd_wr ct = Some wr"
    and simple: "op_write ct = None" "op_erase ct = None"
    and size32: "n \<le> 2 ^ 32"
    and status: "ok s \<Longrightarrow> r = run_state (rd CMD_RDSR None 1) s \<Longrightarrow>
      \<exists>st. fst r = Inr [st] \<and> (st AND STAT_WIP \<noteq> 0 \<longleftrightarrow> 0 < busy s) \<and> (st AND STAT_WEN \<noteq> 0 \<longleftrightarrow> wen s) \<and>
        ok (snd r) \<and> nmem (snd r) = nmem s \<and> (busy s = 0 \<longrightarrow> wen (snd r) = wen s) \<and>
        busy (snd r) = busy s - 1"
    and flags: "ok s \<Longrightarrow> busy s = 0 \<Longrightarrow> s' = snd (run_state (rd CMD_MIC_RDFLST None 1) s) \<Longrightarrow>
      ok s' \<and> nmem s' = nmem s \<and> wen s' = wen s \<and> busy s' = 0"
    and wren: "ok s \<Longrightarrow> busy s = 0 \<Longrightarrow> q = run_state (wr CMD_WREN None []) s \<Longrightarrow>
      fst q = 0 \<and> ok (snd q) \<and> nmem (snd q) = nmem s \<and> wen (snd q) \<and> busy (snd q) = 0"
    and program: "ok s \<Longrightarrow> busy s = 0 \<Longrightarrow> wen s \<Longrightarrow> bs \<noteq> [] \<Longrightarrow> unat a mod 0x100 + length bs \<le> 0x100 \<Longrightarrow>
      unat a + length bs \<le> n \<Longrightarrow> q = run_state (wr CMD_PP (Some a) bs) s \<Longrightarrow>
      fst q = 0 \<and> ok (snd q) \<and> nmem (snd q) = nor_program (nmem s) (unat a) bs"
    and erase: "ok s \<Longrightarrow> busy s = 0 \<Longrightarrow> wen s \<Longrightarrow> nor_block cmd = Some k \<Longrightarrow> unat a < n \<Longrightarrow>
      q = run_state (wr cmd (Some a) []) s \<Longrightarrow>
      fst q = 0 \<and> ok (snd q) \<and> nmem (snd q) = nor_erase (nmem s) (unat a div k * k) k"
    and read: "ok s \<Longrightarrow> busy s = 0 \<Longrightarrow> unat a + l \<le> n \<Longrightarrow> 0 < l \<Longrightarrow>
      unat a mod 0x10000 + l \<le> 0x10000 \<Longrightarrow>
      r = run_state ((case op_direct_read ct of Some f \<Rightarrow> f a l | None \<Rightarrow> rd CMD_READ (Some a) l)) s \<Longrightarrow>
      fst r = Inr (nor_bytes (nmem s) (unat a) l) \<and> ok (snd r) \<and> busy (snd r) = 0 \<and> nmem (snd r) = nmem s"
begin

definition ready :: "'s \<Rightarrow> bool" where
  "ready s \<longleftrightarrow> ok s \<and> busy s = 0"

lemma read_stat:
  assumes "ok s"
  obtains st s' where "fl_read_stat ct s = Some (Inr st, s')" "st AND STAT_WIP \<noteq> 0 \<longleftrightarrow> 0 < busy s"
    "st AND STAT_WEN \<noteq> 0 \<longleftrightarrow> wen s" "ok s'" "nmem s' = nmem s" "busy s = 0 \<longrightarrow> wen s' = wen s"
    "busy s' = busy s - 1"
proof -
  let ?r = "run_state (rd CMD_RDSR None 1) s"
  obtain st where st: "fst ?r = Inr [st] \<and> (st AND STAT_WIP \<noteq> 0 \<longleftrightarrow> 0 < busy s) \<and>
      (st AND STAT_WEN \<noteq> 0 \<longleftrightarrow> wen s) \<and> ok (snd ?r) \<and> nmem (snd ?r) = nmem s \<and>
      (busy s = 0 \<longrightarrow> wen (snd ?r) = wen s) \<and> busy (snd ?r) = busy s - 1"
    using status [OF assms refl] by (rule exE)
  then have "fl_read_stat ct s = Some (Inr st, snd ?r)" by (simp add: fl_read_stat_def cmds)
  from that [OF this] st show thesis by argo
qed

lemma wait_idle:
  assumes "ok s"
  shows "\<exists>s'. fl_sync_wait_idle ct (Some info) s = Some (0, s') \<and> ready s' \<and> nmem s' = nmem s"
  using assms
proof (induction "busy s" arbitrary: s)
  case 0
  obtain st s1 where s1: "fl_read_stat ct s = Some (Inr st, s1)" "st AND STAT_WIP \<noteq> 0 \<longleftrightarrow> 0 < busy s"
    "ok s1" "nmem s1 = nmem s" "busy s1 = 0"
    using read_stat [OF 0(2)] 0(1) by (metis diff_0_eq_0)
  show ?case
    using s1 0(1) [symmetric] flags [OF s1(3,5) refl]
    by (subst fl_sync_wait_idle.simps) (simp add: fl_micron_status_def cmds ready_def)
next
  case (Suc k)
  obtain st s1 where s1: "fl_read_stat ct s = Some (Inr st, s1)" "st AND STAT_WIP \<noteq> 0 \<longleftrightarrow> 0 < busy s"
    "ok s1" "nmem s1 = nmem s" "busy s1 = busy s - 1"
    using read_stat [OF Suc(3)] by metis
  have "k = busy s1" using s1(5) Suc(2) by simp
  from Suc(1) [OF this s1(3)] show ?case
    using s1 Suc(2) by (subst fl_sync_wait_idle.simps) simp
qed

lemma write_enable:
  assumes "ready s"
  shows "\<exists>s'. fl_wren ct (Some info) s = Some (0, s') \<and> ready s' \<and> nmem s' = nmem s \<and> wen s'"
proof -
  let ?s1 = "snd (run_state (wr CMD_WREN None []) s)"
  have s1: "fst (run_state (wr CMD_WREN None []) s) = 0" "ok ?s1" "nmem ?s1 = nmem s" "wen ?s1" "busy ?s1 = 0"
    using wren [OF _ _ refl] assms unfolding ready_def by blast+
  obtain st s2 where s2: "fl_read_stat ct ?s1 = Some (Inr st, s2)" "st AND STAT_WIP = 0"
    "st AND STAT_WEN \<noteq> 0" "ok s2" "nmem s2 = nmem s" "wen s2" "busy s2 = 0"
    using read_stat [OF s1(2)] s1(3-5) by (metis bot_nat_0.not_eq_extremum diff_0_eq_0 less_numeral_extra(3))
  obtain k where k: "FL_WREN_TRIES = Suc k" by (cases FL_WREN_TRIES) (simp_all add: FL_WREN_TRIES_def)
  show ?thesis using s1 s2 unfolding fl_wren_def k by (simp add: cmds ready_def)
qed

text \<open>One operation of the chip: enable writing, send the command, wait.\<close>

lemma operate:
  assumes "ready s" and "\<And>s1. ready s1 \<Longrightarrow> wen s1 \<Longrightarrow> nmem s1 = nmem s \<Longrightarrow>
    fst (run_state (wr cmd a bs) s1) = 0 \<and> ok (snd (run_state (wr cmd a bs) s1)) \<and>
    nmem (snd (run_state (wr cmd a bs) s1)) = m"
  shows "\<exists>s'. act_nz (fl_wren ct (Some info))
      (act_nz (act_ptr (op_cmd_wr ct) (\<lambda>f. f cmd a bs)) (fl_sync_wait_idle ct (Some info))) s =
        Some (0, s') \<and> ready s' \<and> nmem s' = m"
proof -
  obtain s1 where s1: "fl_wren ct (Some info) s = Some (0, s1)" "ready s1" "nmem s1 = nmem s" "wen s1"
    using write_enable [OF assms(1)] by blast
  note s2 = assms(2) [OF s1(2,4,3)]
  obtain s3 where "fl_sync_wait_idle ct (Some info) (snd (run_state (wr cmd a bs) s1)) = Some (0, s3)"
    "ready s3" "nmem s3 = m" using wait_idle s2 by metis
  then show ?thesis using s1(1) s2 by (simp add: cmds)
qed

lemma wpage:
  assumes "ready s" "bs \<noteq> []" "unat d mod 0x100 + length bs \<le> 0x100" "unat d + length bs \<le> n"
  shows "\<exists>s'. fl_wpage ct c d bs s = Some (0, s') \<and> ready s' \<and> nmem s' = nor_program (nmem s) (unat d) bs"
proof -
  have "\<not> (length bs < 1 \<or> length bs > 0x100)" using assms(2,3) by (cases bs) auto
  moreover have "\<exists>s'. act_nz (fl_wren ct (Some (fc_info c)))
      (act_nz (act_ptr (op_cmd_wr ct) (\<lambda>f. f CMD_PP (Some d) bs)) (fl_sync_wait_idle ct (Some (fc_info c)))) s =
        Some (0, s') \<and> ready s' \<and> nmem s' = nor_program (nmem s) (unat d) bs"
    by (rule operate [OF assms(1)]) (use program [OF _ _ _ assms(2-4) refl] in \<open>auto simp: ready_def\<close>)
  ultimately show ?thesis by (simp add: fl_wpage_def)
qed

lemma write_loop:
  assumes "ready s" "unat d + length bs \<le> n"
  shows "\<exists>s'. flash_write_loop ct c d bs s = Some (0, s') \<and> ready s' \<and>
    nmem s' = nor_program (nmem s) (unat d) bs"
  using assms
proof (induction "length bs" arbitrary: d bs s rule: less_induct)
  case less
  show ?case
  proof (cases "bs = []")
    case True
    then show ?thesis using less.prems(1) by (subst flash_write_loop.simps) simp
  next
    case False
    let ?k = "min (unat (0x100 - (d AND 0xff))) (length bs)"
    have k: "0 < ?k" "?k \<le> length bs" "unat d mod 0x100 + ?k \<le> 0x100"
      using page_room [of d] False by (auto simp: min_def)
    obtain s1 where s1: "fl_wpage ct c d (take ?k bs) s = Some (0, s1)" "ready s1"
      "nmem s1 = nor_program (nmem s) (unat d) (take ?k bs)"
      using wpage [OF less.prems(1), of "take ?k bs" d c] k less.prems(2) False by force
    have d: "unat (d + of_nat ?k) + length (drop ?k bs) \<le> n \<and>
        nor_program (nmem s1) (unat (d + of_nat ?k)) (drop ?k bs) = nor_program (nmem s) (unat d) bs"
    proof (cases "drop ?k bs = []")
      case True
      then have "?k = length bs" by simp
      moreover have "unat (d + of_nat ?k) \<le> unat d + ?k"
        by (rule unat_add_of_nat_le)
      ultimately show ?thesis using less.prems(2) s1(3) True by simp
    next
      case more: False
      then have "unat d + ?k < 2 ^ 32" using less.prems(2) size32 k(2) by (simp add: min_def split: if_splits)
      then have u: "unat (d + of_nat ?k) = unat d + ?k" by (rule unat_add_of_nat)
      have "length (take ?k bs) = ?k" using k(2) by simp
      then have "nor_program (nmem s1) (unat d + ?k) (drop ?k bs) = nor_program (nmem s) (unat d) bs"
        using nor_program_append [of "nmem s" "unat d" "take ?k bs" "drop ?k bs"] s1(3)
        by (simp only: append_take_drop_id)
      then show ?thesis using u less.prems(2) k(2) by simp
    qed
    have "length (drop ?k bs) < length bs" using k(1) False by simp
    from less.hyps [OF this s1(2) conjunct1 [OF d]]
    obtain s' where "flash_write_loop ct c (d + of_nat ?k) (drop ?k bs) s1 = Some (0, s')" "ready s'"
      "nmem s' = nor_program (nmem s) (unat d) bs" using d by auto
    then show ?thesis using s1(1) False by (subst flash_write_loop.simps) (simp add: Let_def)
  qed
qed

lemma flash_read:
  assumes "ready s" "unat (ucast pos :: u32) + l \<le> n" "0 < l" "\<not> fc_mode_4b c"
    and "unat (ucast pos :: u32) mod 0x10000 + l \<le> 0x10000"
  shows "\<exists>s'. flash_read ct c pos l s = Some (Inr (nor_bytes (nmem s) (unat (ucast pos :: u32)) l), s') \<and>
    ready s' \<and> nmem s' = nmem s"
  using read [OF _ _ assms(2,3,5) refl, of s] assms(1,4) cmds
  by (cases "op_direct_read ct") (auto simp: flash_read_def ready_def prod_eq_iff)

lemma verify_loop:
  assumes "ready s" "unat d + length bs \<le> n" "\<not> fc_mode_4b c" "verify_fits (unat d) (length bs)"
  shows "\<exists>s'. flash_verify_loop ct c d bs s =
      Some (if nor_bytes (nmem s) (unat d) (length bs) = bs then 0 else - EREMOTEIO, s') \<and>
    ready s' \<and> nmem s' = nmem s"
  using assms(1,2,4)
proof (induction "length bs" arbitrary: d bs s rule: less_induct)
  case less
  show ?case
  proof (cases "bs = []")
    case True
    then show ?thesis using less.prems(1) by (subst flash_verify_loop.simps) (simp add: nor_bytes_def)
  next
    case False
    let ?k = "min 0x100 (length bs)"
    have k: "0 < ?k" "?k \<le> length bs" using False by auto
    obtain s1 where s1: "flash_read ct c (ucast d) ?k s = Some (Inr (nor_bytes (nmem s) (unat d) ?k), s1)"
      "ready s1" "nmem s1 = nmem s"
      using flash_read [OF less.prems(1) _ k(1) assms(3), of "ucast d"] k(2) less.prems(2)
        verify_fits_chunk [OF less.prems(3)] by auto
    have split: "nor_bytes m a (length bs) = nor_bytes m a ?k @ nor_bytes m (a + ?k) (length bs - ?k)" for m a
      using k(2) upt_add_eq_append [of a "a + ?k" "length bs - ?k"] by (simp add: nor_bytes_def)
    have eq: "nor_bytes (nmem s) (unat d) (length bs) = bs \<longleftrightarrow>
        nor_bytes (nmem s) (unat d) ?k = take ?k bs \<and>
        nor_bytes (nmem s) (unat d + ?k) (length bs - ?k) = drop ?k bs"
      unfolding split by (metis append_eq_conv_conj append_take_drop_id length_nor_bytes)
    have rest: "\<exists>s'. flash_verify_loop ct c (d + of_nat ?k) (drop ?k bs) s1 =
        Some (if nor_bytes (nmem s) (unat d + ?k) (length bs - ?k) = drop ?k bs then 0 else - EREMOTEIO, s') \<and>
        ready s' \<and> nmem s' = nmem s"
    proof (cases "drop ?k bs = []")
      case True
      then show ?thesis using s1(2,3) by (subst flash_verify_loop.simps) (simp add: nor_bytes_def)
    next
      case more: False
      then have "unat d + ?k < 2 ^ 32" using less.prems(2) size32 by (simp add: min_def split: if_splits)
      then have u: "unat (d + of_nat ?k) = unat d + ?k" by (rule unat_add_of_nat)
      have "length (drop ?k bs) < length bs" using k(1) False by simp
      from less.hyps [OF this s1(2), of "d + of_nat ?k"] u less.prems(2) s1(3)
        verify_fits_next [OF less.prems(3)] more show ?thesis by simp
    qed
    then show ?thesis
      using s1(1,2,3) False eq by (subst flash_verify_loop.simps) (auto simp: Let_def)
  qed
qed

text \<open>A write programs the whole range, and the verification says whether it fitted.\<close>

lemma write_programs:
  assumes "ready s" "bs \<noteq> []" "unat d + length bs \<le> unat (fc_tsize c)" "unat (fc_tsize c) \<le> n" "\<not> fc_mode_4b c"
    and "verify \<longrightarrow> verify_fits (unat d) (length bs)" and "m = nor_program (nmem s) (unat d) bs"
  shows "\<exists>s'. flash_write ct c d bs verify s =
      Some (if verify \<and> nor_bytes m (unat d) (length bs) \<noteq> bs then - EREMOTEIO else 0, s') \<and>
    ready s' \<and> nmem s' = m"
proof -
  have len: "unat d + length bs < 2 ^ 32" using assms(3) le_less_trans [OF _ unat_u32_less] by simp
  then have u: "unat (d + of_nat (length bs)) = unat d + length bs" by (rule unat_add_of_nat)
  have "\<not> d + of_nat (length bs) \<le> d" "(of_nat (length bs) :: u32) \<noteq> 0" "\<not> d + of_nat (length bs) > fc_tsize c"
    using u assms(2,3) by (auto simp: word_le_nat_alt word_less_nat_alt)
  moreover obtain s1 where s1: "flash_write_loop ct c d bs s = Some (0, s1)" "ready s1" "nmem s1 = m"
    using write_loop [OF assms(1)] assms(3,4,7) by force
  moreover have "\<exists>s2. flash_verify_loop ct c d bs s1 =
      Some (if nor_bytes m (unat d) (length bs) = bs then 0 else - EREMOTEIO, s2) \<and> ready s2 \<and> nmem s2 = m" if verify
    using verify_loop [OF s1(2) _ assms(5), of d bs] assms(3,4,6) s1(3) that by force
  ultimately show ?thesis by (cases verify) (auto simp: flash_write_def simple cmds)
qed

lemma flash_write_puts:
  assumes "ready s" "bs \<noteq> []" "unat d + length bs \<le> unat (fc_tsize c)" "unat (fc_tsize c) \<le> n" "\<not> fc_mode_4b c"
    and "verify \<longrightarrow> verify_fits (unat d) (length bs)"
    and "nor_program (nmem s) (unat d) bs = nor_put (nmem s) (unat d) bs"
  shows "\<exists>s'. flash_write ct c d bs verify s = Some (0, s') \<and> ready s' \<and>
    nmem s' = nor_put (nmem s) (unat d) bs"
  using write_programs [OF assms(1-6) refl] assms(7) by simp

lemma erase_loop:
  assumes "ready s" "unat d mod 0x1000 = 0" "unat z mod 0x1000 = 0" "unat d + unat z \<le> n"
    and "unat d + unat z < 2 ^ 32" "erase_fits c (unat z)"
  shows "\<exists>s'. flash_erase_loop ct c d z s = Some (0, s') \<and> ready s' \<and>
    nmem s' = nor_erase (nmem s) (unat d) (unat z)"
  using assms
proof (induction "unat z" arbitrary: d z s rule: less_induct)
  case less
  show ?case
  proof (cases "z = 0")
    case True
    then show ?thesis using less.prems(1) by (subst flash_erase_loop.simps) simp
  next
    case False
    then have z: "0 < unat z" by (simp add: unat_gt_0)
    obtain k cmd where b: "fl_get_best_erase c (ucast d) (ucast z) = (k, cmd)" by fastforce
    have du: "unat (ucast d :: u32) = unat d" "unat (ucast z :: u32) = unat z"
      using less.prems(5) by (simp_all add: unat_ucast_64_32)
    from best_erase_block [of "ucast d" "ucast z" c k cmd] b z less.prems(2,3,6)
    have k: "nor_block cmd = Some (unat k)" "unat d mod unat k = 0" "unat k \<le> unat z" "0 < unat k"
      "unat k mod 0x1000 = 0" unfolding du by blast+
    have blk: "unat d div unat k * unat k = unat d" using k(2) by (simp add: mod_eq_0_iff_dvd)
    obtain s1 where s1: "act_nz (fl_wren ct (Some (fc_info c)))
        (act_nz (act_ptr (op_cmd_wr ct) (\<lambda>f. f cmd (Some (ucast d)) []))
          (fl_sync_wait_idle ct (Some (fc_info c)))) s = Some (0, s1)" "ready s1"
      "nmem s1 = nor_erase (nmem s) (unat d) (unat k)"
      using operate [OF less.prems(1), of cmd "Some (ucast d)" "[]" "nor_erase (nmem s) (unat d) (unat k)"
          "fc_info c"] erase [OF _ _ _ k(1) _ refl, of _ "ucast d"] du blk z less.prems(4)
      by (auto simp: ready_def)
    have u: "unat (d + ucast k) = unat d + unat k" "unat (z - ucast k) = unat z - unat k"
      using k(3) less.prems(5) by (simp_all add: unat_word_ariths(1) unat_sub word_le_nat_alt)
    have "\<exists>s'. flash_erase_loop ct c (d + ucast k) (z - ucast k) s1 = Some (0, s') \<and> ready s' \<and>
        nmem s' = nor_erase (nmem s1) (unat d + unat k) (unat z - unat k)"
      using less.hyps [OF _ s1(2) _ _ _ _ erase_fits_mono [OF less.prems(6)], of "z - ucast k" "d + ucast k"]
        u k(3-5) z less.prems(2-5)
      by (auto simp: mod_eq_0_iff_dvd dvd_diff_nat)
    then show ?thesis
      using s1 k(3) nor_erase_append [of "nmem s" "unat d" "unat k" "unat z - unat k"] False b
      by (subst flash_erase_loop.simps) (simp add: Let_def)
  qed
qed

lemma flash_erase_erases:
  assumes "ready s" "unat d mod 0x1000 = 0" "unat z mod 0x1000 = 0" "0 < unat z" "fc_min_erase_mask c = 0xfff"
    and "unat d + unat z \<le> unat (fc_tsize c)" "unat (fc_tsize c) \<le> n" "erase_fits c (unat z)"
  shows "\<exists>s'. flash_erase ct c d z s = Some (0, s') \<and> ready s' \<and>
    nmem s' = nor_erase (nmem s) (unat d) (unat z)"
proof -
  have lt: "unat d + unat z < 2 ^ 32" using assms(6) le_less_trans [OF _ unat_u32_less] by simp
  show ?thesis
    unfolding flash_erase_checked [OF assms(2-6) simple(2)]
    using erase_loop [OF assms(1-3) _ lt assms(8)] assms(6,7) by auto
qed

lemma smart_page_at:
  fixes d :: u64
  assumes "fc_min_erase_mask c = 0xfff" "unat (fc_tsize c) mod 0x1000 = 0" "unat d < unat (fc_tsize c)"
  shows "unat (ucast (d AND ucast (NOT (fc_min_erase_mask c))) :: u32) = unat d div 0x1000 * 0x1000"
    and "unat (d AND ucast (fc_min_erase_mask c)) = unat d mod 0x1000"
    and "unat d div 0x1000 * 0x1000 + 0x1000 \<le> unat (fc_tsize c)" "unat d < 2 ^ 32"
    and "unat (fc_min_erase_mask c + 1) = 0x1000" "unat (ucast (fc_min_erase_mask c + 1) :: u64) = 0x1000"
proof -
  let ?page = "ucast (d AND ucast (NOT (fc_min_erase_mask c))) :: u32"
  have "unat (fc_tsize c) < 2 ^ 32" by simp
  then show d32: "unat d < 2 ^ 32" using assms(3) by linarith
  have m32: "(0xfff :: u32) = mask 12" by (simp add: mask_eq_exp_minus_1)
  have "?page = ucast d AND NOT (mask 12)"
    unfolding assms(1) m32 by (rule bit_word_eqI) (auto simp: bit_simps)
  then show "unat ?page = unat d div 0x1000 * 0x1000" using d32 by (simp add: unat_and_not_mask unat_ucast_64_32)
  have m: "(ucast (0xfff :: u32) :: u64) = mask 12" by (simp add: mask_eq_exp_minus_1)
  show "unat (d AND ucast (fc_min_erase_mask c)) = unat d mod 0x1000"
    unfolding assms(1) m unat_and_mask by simp
  show "unat d div 0x1000 * 0x1000 + 0x1000 \<le> unat (fc_tsize c)" by (rule page_below [OF assms(3,2)])
  show "unat (fc_min_erase_mask c + 1) = 0x1000" "unat (ucast (fc_min_erase_mask c + 1) :: u64) = 0x1000"
    by (simp_all add: assms(1))
qed

lemma smart_page:
  assumes "ready s" "fc_min_erase_mask c = 0xfff" "\<not> fc_mode_4b c" "unat (fc_tsize c) mod 0x1000 = 0"
    and "unat (fc_tsize c) \<le> n" "src \<noteq> []" "unat d mod 0x1000 + length src \<le> 0x1000"
    and "unat d + length src \<le> unat (fc_tsize c)"
  shows "\<exists>s'. flash_smart_page ct c d src s = Some (0, s') \<and> ready s' \<and>
    nmem s' = nor_put (nmem s) (unat d) src"
proof -
  let ?p = "unat d div 0x1000 * 0x1000" and ?o = "unat d mod 0x1000"
  let ?page = "ucast (d AND ucast (NOT (fc_min_erase_mask c))) :: u32"
  have dp: "unat d = ?p + ?o" by simp
  have "0 < length src" using assms(6) by simp
  then have "unat d < unat (fc_tsize c)" using assms(8) by linarith
  note at = smart_page_at [OF assms(2,4) this]
  note pg = at(1) and off = at(2) and fits = at(3) and d32 = at(4) and er = at(5,6)
  let ?buf = "nor_bytes (nmem s) ?p 0x1000"
  obtain s1 where s1: "flash_read ct c (ucast ?page) 0x1000 s = Some (Inr ?buf, s1)" "ready s1" "nmem s1 = nmem s"
    using flash_read [OF assms(1) _ _ assms(3), of "ucast ?page" "0x1000"] fits assms(5) pg page_64k(1) by auto
  have bi: "drop ?o ?buf ! i = nmem s (unat d + i)" if "i < length src" for i
    using that assms(7) dp by (simp add: add.assoc)
  have len: "length src \<le> length (drop ?o ?buf)" using assms(7) by simp
  have read: "flash_smart_page ct c d src s = (case flash_smart_comp (drop ?o ?buf) src True of
        sm_no_change \<Rightarrow> act_ret 0 s1
      | sm_need_write \<Rightarrow> flash_write ct c (ucast d) src True s1
      | sm_need_erase \<Rightarrow> act_nz (flash_erase ct c (ucast ?page) (ucast (fc_min_erase_mask c + 1)))
          (flash_write ct c ?page (take ?o ?buf @ src @ drop (?o + length src) ?buf) True) s1)"
    unfolding flash_smart_page_def Let_def off er
    by (subst act_val_run, rule s1(1)) (simp split: sm_comp_res.split)
  show ?thesis
  proof (cases "flash_smart_comp (drop ?o ?buf) src True")
    case sm_no_change
    then have t: "take (length src) (drop ?o ?buf) = src" using smart_comp_same [OF len] by blast
    have "src ! i = nmem s (unat d + i)" if "i < length src" for i
      using bi [OF that] that t by (metis nth_take)
    then have "nor_put (nmem s) (unat d) src = nmem s" by (auto simp: nor_put_def fun_eq_iff)
    then show ?thesis using read sm_no_change s1 by simp
  next
    case sm_need_write
    have "nor_program (nmem s1) (unat d) src = nor_put (nmem s1) (unat d) src"
      by (rule nor_program_fits)
        (use smart_comp_erase [OF len, of True] sm_need_write bi s1(3) in \<open>metis sm_comp_res.distinct(5)\<close>)
    then show ?thesis
      using flash_write_puts [OF s1(2) assms(6) _ assms(5,3), of "ucast d" True] read sm_need_write
        assms(8) d32 s1(3) page_64k(2) [OF assms(7)] by (simp add: unat_ucast_64_32)
  next
    case sm_need_erase
    let ?new = "take ?o ?buf @ src @ drop (?o + length src) ?buf"
    have ln: "length ?new = 0x1000" using assms(7) by simp
    obtain s2 where s2: "flash_erase ct c (ucast ?page) (ucast (fc_min_erase_mask c + 1)) s1 = Some (0, s2)"
      "ready s2" "nmem s2 = nor_erase (nmem s) ?p 0x1000"
      using flash_erase_erases [OF s1(2) _ _ _ assms(2) _ assms(5), of "ucast ?page"
          "ucast (fc_min_erase_mask c + 1)"] pg er fits s1(3) by (auto simp: erase_fits_def)
    have pr: "nor_program (nmem s2) ?p ?new = nor_put (nmem s2) ?p ?new"
      unfolding s2(3) by (rule nor_erase_program) (use ln in auto)
    obtain s3 where s3: "flash_write ct c ?page ?new True s2 = Some (0, s3)" "ready s3"
      "nmem s3 = nor_put (nmem s2) ?p ?new"
      using flash_write_puts [OF s2(2) _ _ assms(5,3), of ?new ?page True] ln fits pg pr page_64k(3)
      by (metis length_0_conv zero_neq_numeral)
    have "nmem s3 = nor_put (nmem s) (unat d) src"
      unfolding s3(3) s2(3) using nor_merge [OF assms(7), of "nmem s" ?p] dp by simp
    then show ?thesis using read sm_need_erase s2(1) s3(1,2) by simp
  qed
qed

lemma smart_loop:
  assumes "ready s" "fc_min_erase_mask c = 0xfff" "\<not> fc_mode_4b c" "unat (fc_tsize c) mod 0x1000 = 0"
    and "unat (fc_tsize c) \<le> n" "unat d + length src \<le> unat (fc_tsize c)" "unat e = unat d + length src"
  shows "\<exists>s'. flash_smart_loop ct c e d src s = Some (0, s') \<and> ready s' \<and>
    nmem s' = nor_put (nmem s) (unat d) src"
  using assms(1,6,7)
proof (induction "length src" arbitrary: d src s rule: less_induct)
  case less
  have e: "unat (ucast e :: u64) = unat d + length src" using less.prems(3) by simp
  show ?case
  proof (cases "src = []")
    case True
    then show ?thesis using less.prems(1) e
      by (subst flash_smart_loop.simps) (simp add: word_less_nat_alt)
  next
    case False
    let ?k = "smart_chunk c d (length src)"
    have m: "(ucast (0xfff :: u32) :: u64) = mask 12" by (simp add: mask_eq_exp_minus_1)
    have "unat (d AND ucast (fc_min_erase_mask c)) = unat d mod 0x1000"
      unfolding assms(2) m unat_and_mask by simp
    then have "unat (ucast (d AND ucast (fc_min_erase_mask c)) :: u32) = unat d mod 0x1000"
      by (subst unat_ucast_64_32) simp_all
    then have "unat (fc_min_erase_mask c + 1 - ucast (d AND ucast (fc_min_erase_mask c)) :: u32) =
        0x1000 - unat d mod 0x1000"
      using assms(2) by (subst unat_sub) (simp_all add: word_le_nat_alt)
    then have "?k = min (length src) (0x1000 - unat d mod 0x1000)"
      by (simp add: smart_chunk_def Let_def min_def)
    moreover have "unat d mod 0x1000 < 0x1000" by simp
    ultimately have k: "0 < ?k" "?k \<le> length src" "unat d mod 0x1000 + ?k \<le> 0x1000"
      using False by (auto simp: min_def)
    obtain s1 where s1: "flash_smart_page ct c d (take ?k src) s = Some (0, s1)" "ready s1"
      "nmem s1 = nor_put (nmem s) (unat d) (take ?k src)"
      using smart_page [OF less.prems(1) assms(2-5), of "take ?k src" d] k less.prems(2) False by force
    have "unat d + ?k \<le> unat (fc_tsize c)" using k(2) less.prems(2) by simp
    moreover have "unat (fc_tsize c) < 2 ^ 32" by simp
    ultimately have "unat d + ?k < 2 ^ 32" by linarith
    then have u: "unat (d + of_nat ?k) = unat d + ?k"
      by (simp add: unat_word_ariths(1) unat_of_nat)
    have "length (drop ?k src) < length src" using k(1) False by simp
    from less.hyps [OF this s1(2), of "d + of_nat ?k"] u k(2) less.prems(2,3)
    obtain s' where s': "flash_smart_loop ct c e (d + of_nat ?k) (drop ?k src) s1 = Some (0, s')" "ready s'"
      "nmem s' = nor_put (nmem s1) (unat d + ?k) (drop ?k src)" by auto
    have "nmem s' = nor_put (nmem s) (unat d) src"
      using nor_put_append [of "nmem s" "unat d" "take ?k src" "drop ?k src"] s'(3) s1(3) k(2) by simp
    then show ?thesis
      using s'(1,2) s1(1) e False by (subst flash_smart_loop.simps) (simp add: word_less_nat_alt Let_def)
  qed
qed

lemma smart_write:
  assumes "ready s" "fc_min_erase_mask c = 0xfff" "\<not> fc_mode_4b c" "unat (fc_tsize c) mod 0x1000 = 0"
    and "unat (fc_tsize c) \<le> n" "src \<noteq> []" "unat d + length src \<le> unat (fc_tsize c)"
  shows "\<exists>s'. flash_smart_write ct c d src s = Some (0, s') \<and> ready s' \<and>
    nmem s' = nor_put (nmem s) (unat d) src"
proof -
  let ?e = "ucast (d + of_nat (length src)) :: u32"
  have "unat (fc_tsize c) < 2 ^ 32" by simp
  then have lt: "unat d + length src < 2 ^ 32" using assms(7) by linarith
  then have "unat (d + of_nat (length src)) = unat d + length src"
    by (simp add: unat_word_ariths(1) unat_of_nat)
  then have e: "unat ?e = unat d + length src" using lt by (simp add: unat_ucast_64_32)
  then have "\<not> ucast ?e \<le> d" "\<not> ?e > fc_tsize c"
    using assms(6,7) by (auto simp: word_le_nat_alt word_less_nat_alt)
  then show ?thesis
    using smart_loop [OF assms(1-5,7) e] assms(6) by (simp add: flash_smart_write_def Let_def)
qed

end

end
