(* ===== verification/Clk.thy ===== *)
theory Clk
  imports Strap
begin

text \<open>
  The clock controller and the watchdogs, \<^verbatim>\<open>src/soc/clk.c\<close> and \<^verbatim>\<open>src/soc/wdt.c\<close>: the AHB
  rate of the three generations, the clock gates, and the reset of the BMC through a
  watchdog with the bridge released and re-initialised around it.
\<close>

section \<open>Clocks\<close>

datatype clksrc = clk_arm | clk_ahb | clk_uart3

definition SCU_CLK_STOP :: u32 where "SCU_CLK_STOP = 0x0c"
definition SCU_CLK_STOP_UART3 :: u32 where "SCU_CLK_STOP_UART3 = BIT 25"
definition SCU_HW_STRAP :: u32 where "SCU_HW_STRAP = 0x70"
definition SCU_HW_STRAP_CLKIN_IN_MOD :: u32 where "SCU_HW_STRAP_CLKIN_IN_MOD = BIT 23"
definition SCU_HW_STRAP_AXI_CLK_FREQ_RATIO_MASK :: u32 where
  "SCU_HW_STRAP_AXI_CLK_FREQ_RATIO_MASK = GENMASK 11 9"
definition SCU_HW_STRAP_ARM_CLK :: u32 where "SCU_HW_STRAP_ARM_CLK = BIT 0"
definition SCU_SILICON_REVISION :: u32 where "SCU_SILICON_REVISION = 0x7c"
definition AST2500_SCU_H_PLL :: u32 where "AST2500_SCU_H_PLL = 0x24"
definition AST2600_SCU_H_PLL :: u32 where "AST2600_SCU_H_PLL = 0x200"
definition AST2600_SCU_HW_STRAP1_ARM_CLK :: u32 where "AST2600_SCU_HW_STRAP1_ARM_CLK = BIT 0"
definition AST2600_SCU_HW_STRAP1_CPU_AXI_RATIO :: u32 where
  "AST2600_SCU_HW_STRAP1_CPU_AXI_RATIO = BIT 16"
definition AST2600_SCU_HW_STRAP1_AHB_FREQ_RATIO_MASK :: u32 where
  "AST2600_SCU_HW_STRAP1_AHB_FREQ_RATIO_MASK = GENMASK 12 11"
definition AST2600_SCU_HW_STRAP1_CLEAR :: u32 where "AST2600_SCU_HW_STRAP1_CLEAR = 0x504"

lemmas clk_consts = SCU_CLK_STOP_def SCU_CLK_STOP_UART3_def SCU_HW_STRAP_def
  SCU_HW_STRAP_CLKIN_IN_MOD_def SCU_HW_STRAP_AXI_CLK_FREQ_RATIO_MASK_def SCU_HW_STRAP_ARM_CLK_def
  SCU_SILICON_REVISION_def AST2500_SCU_H_PLL_def AST2600_SCU_H_PLL_def
  AST2600_SCU_HW_STRAP1_ARM_CLK_def AST2600_SCU_HW_STRAP1_CPU_AXI_RATIO_def
  AST2600_SCU_HW_STRAP1_AHB_FREQ_RATIO_MASK_def AST2600_SCU_HW_STRAP1_CLEAR_def

text \<open>The bit fields of the H-PLL registers: \<open>n\<close> bits from bit \<open>l\<close>.\<close>

definition field :: "nat \<Rightarrow> nat \<Rightarrow> u32 \<Rightarrow> u32" where
  "field l n w = take_bit n (drop_bit l w)"

record 's clk_ops =
  clk_rate_ahb :: "('s, int) state"
  clk_disable_op :: "clksrc \<Rightarrow> ('s, int) state"
  clk_enable_op :: "clksrc \<Rightarrow> ('s, int) state"

definition clk_get_rate :: "'s clk_ops \<Rightarrow> clksrc \<Rightarrow> ('s, int) state" where
  "clk_get_rate ck src = (if src \<noteq> clk_ahb then ret (- ENOTSUP) else clk_rate_ahb ck)"

definition clk_disable :: "'s clk_ops \<Rightarrow> clksrc \<Rightarrow> ('s, int) state" where
  "clk_disable ck src = clk_disable_op ck src"

definition clk_enable :: "'s clk_ops \<Rightarrow> clksrc \<Rightarrow> ('s, int) state" where
  "clk_enable ck src = clk_enable_op ck src"

text \<open>Rates: the arithmetic is that of 32-bit unsigned integers.\<close>

definition cpu_freqs_24_48 :: "u32 list" where
  "cpu_freqs_24_48 = [384000000, 360000000, 336000000, 408000000]"

definition cpu_freqs_25 :: "u32 list" where
  "cpu_freqs_25 = [400000000, 375000000, 350000000, 425000000]"

definition ahb_div :: "u32 list" where
  "ahb_div = [1, 2, 4, 3]"

definition ast2400_rate :: "u32 \<Rightarrow> int" where
  "ast2400_rate strap =
     (let cpu_clk = (if strap AND SCU_HW_STRAP_CLKIN_IN_MOD \<noteq> 0
                     then cpu_freqs_25 ! unat (drop_bit 8 strap AND 3)
                     else cpu_freqs_24_48 ! unat (drop_bit 8 strap AND 3));
          dv = ahb_div ! unat (drop_bit 10 strap AND 3)
      in uint (cpu_clk div dv))"

definition ast2400_clk_rate_ahb :: "'s soc \<Rightarrow> scu \<Rightarrow> ('s, int) state" where
  "ast2400_clk_rate_ahb soc scu = val_then (scu_readl soc scu SCU_HW_STRAP) (\<lambda>strap. ret (ast2400_rate strap))"

definition ast2500_rate :: "u32 \<Rightarrow> u32 \<Rightarrow> int" where
  "ast2500_rate strap pll =
     (let clkin = (if strap AND SCU_HW_STRAP_CLKIN_IN_MOD \<noteq> 0 then 25 else 24);
          h_pll = clkin * (field 5 8 pll + 1) div (field 0 5 pll + 1) div (field 13 6 pll + 1);
          ahb_ratio = drop_bit 9 (strap AND SCU_HW_STRAP_AXI_CLK_FREQ_RATIO_MASK)
      in if ahb_ratio = 0 then - EINVAL
         else uint (h_pll div 2 div (ahb_ratio + 1)))"

definition ast2500_clk_rate_ahb :: "'s soc \<Rightarrow> scu \<Rightarrow> ('s, int) state" where
  "ast2500_clk_rate_ahb soc scu =
     val_then (scu_readl soc scu SCU_HW_STRAP) (\<lambda>strap.
     val_then (scu_readl soc scu AST2500_SCU_H_PLL) (\<lambda>pll. ret (ast2500_rate strap pll)))"

definition ast2600_rate :: "u32 \<Rightarrow> u32 \<Rightarrow> int" where
  "ast2600_rate strap pll =
     (let h_pll = 25 * (field 0 13 pll + 1) div (field 13 6 pll + 1) div (field 19 4 pll + 1);
          cpu_axi_ratio = strap AND AST2600_SCU_HW_STRAP1_CPU_AXI_RATIO;
          ahb_ratio = drop_bit 11 (strap AND AST2600_SCU_HW_STRAP1_AHB_FREQ_RATIO_MASK)
      in if ahb_ratio = 0 then - EINVAL
         else if ahb_ratio = 0 then 200
         else let ratio = ahb_ratio + 1;
                  ratio = (if cpu_axi_ratio \<noteq> 0 then ratio * 2 else ratio)
              in uint (h_pll div 2 div ratio))"

definition ast2600_clk_rate_ahb :: "'s soc \<Rightarrow> scu \<Rightarrow> ('s, int) state" where
  "ast2600_clk_rate_ahb soc scu =
     val_then (scu_readl soc scu AST2600_SCU_HW_STRAP1) (\<lambda>strap.
     val_then (scu_readl soc scu AST2600_SCU_H_PLL) (\<lambda>pll. ret (ast2600_rate strap pll)))"

text \<open>Gates. The AST2500 functions are the same as the AST2400 ones.\<close>

definition ast2400_clk_disable :: "'s soc \<Rightarrow> scu \<Rightarrow> clksrc \<Rightarrow> ('s, int) state" where
  "ast2400_clk_disable soc scu src =
     (case src of
        clk_arm \<Rightarrow> scu_writel soc scu SCU_HW_STRAP SCU_HW_STRAP_ARM_CLK
      | clk_uart3 \<Rightarrow> val_then (scu_readl soc scu SCU_CLK_STOP) (\<lambda>r.
          neg_then (scu_writel soc scu SCU_CLK_STOP (r OR SCU_CLK_STOP_UART3)) (ret 0))
      | clk_ahb \<Rightarrow> ret (- ENOTSUP))"

definition ast2400_clk_enable :: "'s soc \<Rightarrow> scu \<Rightarrow> clksrc \<Rightarrow> ('s, int) state" where
  "ast2400_clk_enable soc scu src =
     (case src of
        clk_arm \<Rightarrow> scu_writel soc scu SCU_SILICON_REVISION SCU_HW_STRAP_ARM_CLK
      | clk_uart3 \<Rightarrow> val_then (scu_readl soc scu SCU_CLK_STOP) (\<lambda>r.
          neg_then (scu_writel soc scu SCU_CLK_STOP (r AND NOT SCU_CLK_STOP_UART3)) (ret 0))
      | clk_ahb \<Rightarrow> ret (- ENOTSUP))"

definition ast2500_clk_disable :: "'s soc \<Rightarrow> scu \<Rightarrow> clksrc \<Rightarrow> ('s, int) state" where
  "ast2500_clk_disable soc scu src =
     (case src of
        clk_arm \<Rightarrow> scu_writel soc scu SCU_HW_STRAP SCU_HW_STRAP_ARM_CLK
      | clk_uart3 \<Rightarrow> val_then (scu_readl soc scu SCU_CLK_STOP) (\<lambda>r.
          neg_then (scu_writel soc scu SCU_CLK_STOP (r OR SCU_CLK_STOP_UART3)) (ret 0))
      | clk_ahb \<Rightarrow> ret (- ENOTSUP))"

definition ast2500_clk_enable :: "'s soc \<Rightarrow> scu \<Rightarrow> clksrc \<Rightarrow> ('s, int) state" where
  "ast2500_clk_enable soc scu src =
     (case src of
        clk_arm \<Rightarrow> scu_writel soc scu SCU_SILICON_REVISION SCU_HW_STRAP_ARM_CLK
      | clk_uart3 \<Rightarrow> val_then (scu_readl soc scu SCU_CLK_STOP) (\<lambda>r.
          neg_then (scu_writel soc scu SCU_CLK_STOP (r AND NOT SCU_CLK_STOP_UART3)) (ret 0))
      | clk_ahb \<Rightarrow> ret (- ENOTSUP))"

definition ast2600_clk_disable :: "'s soc \<Rightarrow> scu \<Rightarrow> clksrc \<Rightarrow> ('s, int) state" where
  "ast2600_clk_disable soc scu src =
     (if src \<noteq> clk_arm then ret (- ENOTSUP)
      else scu_writel soc scu AST2600_SCU_HW_STRAP1 AST2600_SCU_HW_STRAP1_ARM_CLK)"

definition ast2600_clk_enable :: "'s soc \<Rightarrow> scu \<Rightarrow> clksrc \<Rightarrow> ('s, int) state" where
  "ast2600_clk_enable soc scu src =
     (if src \<noteq> clk_arm then ret (- ENOTSUP)
      else scu_writel soc scu AST2600_SCU_HW_STRAP1_CLEAR AST2600_SCU_HW_STRAP1_ARM_CLK)"

definition ast2400_clk_ops :: "'s soc \<Rightarrow> scu \<Rightarrow> 's clk_ops" where
  "ast2400_clk_ops soc scu = \<lparr>clk_rate_ahb = ast2400_clk_rate_ahb soc scu,
     clk_disable_op = ast2400_clk_disable soc scu, clk_enable_op = ast2400_clk_enable soc scu\<rparr>"

definition ast2500_clk_ops :: "'s soc \<Rightarrow> scu \<Rightarrow> 's clk_ops" where
  "ast2500_clk_ops soc scu = \<lparr>clk_rate_ahb = ast2500_clk_rate_ahb soc scu,
     clk_disable_op = ast2500_clk_disable soc scu, clk_enable_op = ast2500_clk_enable soc scu\<rparr>"

definition ast2600_clk_ops :: "'s soc \<Rightarrow> scu \<Rightarrow> 's clk_ops" where
  "ast2600_clk_ops soc scu = \<lparr>clk_rate_ahb = ast2600_clk_rate_ahb soc scu,
     clk_disable_op = ast2600_clk_disable soc scu, clk_enable_op = ast2600_clk_enable soc scu\<rparr>"

definition clk_match :: "(string \<times> ('s soc \<Rightarrow> scu \<Rightarrow> 's clk_ops)) list" where
  "clk_match = [(''aspeed,ast2400-clock'', ast2400_clk_ops), (''aspeed,ast2500-clock'', ast2500_clk_ops),
     (''aspeed,ast2600-clock'', ast2600_clk_ops)]"

text \<open>On failure after \<open>scu_get\<close> the reference is not given back.\<close>

definition clk_driver_init :: "'s soc \<Rightarrow> scu option \<Rightarrow> int \<Rightarrow> int + scu \<times> 's clk_ops" where
  "clk_driver_init soc scu node =
     (case scu of
        None \<Rightarrow> Inl (- ENODEV)
      | Some scu \<Rightarrow>
          (case soc_device_get_match_data (soc_fdt soc) clk_match node of
             None \<Rightarrow> Inl (- EINVAL)
           | Some mk \<Rightarrow> Inr (scu_get scu, mk soc scu)))"

section \<open>Watchdogs\<close>

definition WDT_RELOAD :: u32 where "WDT_RELOAD = 0x04"
definition WDT_RESTART :: u32 where "WDT_RESTART = 0x08"
definition WDT_RESTART_MAGIC :: u32 where "WDT_RESTART_MAGIC = 0x4755"
definition WDT_CTRL :: u32 where "WDT_CTRL = 0x0c"
definition WDT_CTRL_ALT_BOOT :: u32 where "WDT_CTRL_ALT_BOOT = push_bit 7 1"
definition WDT_CTRL_RESET_SOC :: u32 where "WDT_CTRL_RESET_SOC = push_bit 5 0"
definition WDT_CTRL_CLK_1MHZ :: u32 where "WDT_CTRL_CLK_1MHZ = push_bit 4 1"
definition WDT_CTRL_SYS_RESET :: u32 where "WDT_CTRL_SYS_RESET = push_bit 1 1"
definition WDT_CTRL_ENABLE :: u32 where "WDT_CTRL_ENABLE = 1"
definition WDT_RESET_MASK :: u32 where "WDT_RESET_MASK = 0x1c"

lemmas wdt_consts = WDT_RELOAD_def WDT_RESTART_def WDT_RESTART_MAGIC_def WDT_CTRL_def
  WDT_CTRL_ALT_BOOT_def WDT_CTRL_RESET_SOC_def WDT_CTRL_CLK_1MHZ_def WDT_CTRL_SYS_RESET_def
  WDT_CTRL_ENABLE_def WDT_RESET_MASK_def

definition wdt_readl :: "'s soc \<Rightarrow> soc_region \<Rightarrow> u32 \<Rightarrow> ('s, int + u32) state" where
  "wdt_readl soc io r = soc_readl soc (rg_start io + r)"

definition wdt_writel :: "'s soc \<Rightarrow> soc_region \<Rightarrow> u32 \<Rightarrow> u32 \<Rightarrow> ('s, int) state" where
  "wdt_writel soc io r v = soc_writel soc (rg_start io + r) v"

definition wdt_stop :: "'s soc \<Rightarrow> soc_region \<Rightarrow> ('s, int) state" where
  "wdt_stop soc io = val_then (wdt_readl soc io WDT_CTRL) (\<lambda>val.
     wdt_writel soc io WDT_CTRL (val AND NOT WDT_CTRL_ENABLE))"

definition wdt_config_clksrc :: "'s soc \<Rightarrow> soc_region \<Rightarrow> ('s, int) state" where
  "wdt_config_clksrc soc io = val_then (wdt_readl soc io WDT_CTRL) (\<lambda>val.
     wdt_writel soc io WDT_CTRL (val OR WDT_CTRL_CLK_1MHZ))"

definition wdt_driver_init :: "fdt \<Rightarrow> 's clk_ops option \<Rightarrow> int \<Rightarrow> int + soc_region \<times> 's clk_ops" where
  "wdt_driver_init dt ck node =
     rbind (soc_device_get_memory dt node) (\<lambda>io.
       case ck of None \<Rightarrow> Inl (- ENODEV) | Some ck \<Rightarrow> Inr (io, ck))"

text \<open>\<open>wdts\<close> are the instances for the names \<open>wdt1\<close> to \<open>wdt3\<close>, where they exist.\<close>

fun wdt_prevent_reset :: "'s soc \<Rightarrow> soc_region option list \<Rightarrow> ('s, int) state" where
  "wdt_prevent_reset soc [] = ret 0"
| "wdt_prevent_reset soc (None # wdts) = ret (- ENODEV)"
| "wdt_prevent_reset soc (Some io # wdts) = neg_then (wdt_stop soc io) (wdt_prevent_reset soc wdts)"

definition wdt_usecs_to_ticks :: "'s soc \<Rightarrow> soc_region \<Rightarrow> int \<Rightarrow> ('s, int) state" where
  "wdt_usecs_to_ticks soc io usecs = val_then (wdt_readl soc io WDT_CTRL) (\<lambda>val.
     ret (if val AND WDT_CTRL_CLK_1MHZ = 0 then - EIO else usecs))"

text \<open>\<open>usleep\<close> is the time that passes for the hardware: a parameter.\<close>

definition wdt_perform_reset ::
  "'s soc \<Rightarrow> 's clk_ops \<Rightarrow> (int \<Rightarrow> ('s, unit) state) \<Rightarrow> soc_region \<Rightarrow> ('s, int) state" where
  "wdt_perform_reset soc ck usleep io =
     neg_then (wdt_stop soc io)
    (neg_then (wdt_config_clksrc soc io)
    (neg_then (wdt_writel soc io WDT_RESET_MASK 0x23ffffb)
    (do { wait \<leftarrow> wdt_usecs_to_ticks soc io 5000000;
     (if wait < 0 then ret wait else
      neg_then (wdt_writel soc io WDT_RELOAD (of_int wait))
     (neg_then (wdt_writel soc io WDT_RESTART WDT_RESTART_MAGIC)
     (val_then (wdt_readl soc io WDT_CTRL) (\<lambda>mode.
      neg_then (wdt_writel soc io WDT_CTRL
        ((mode OR (WDT_CTRL_RESET_SOC OR WDT_CTRL_SYS_RESET OR WDT_CTRL_ENABLE)) AND NOT WDT_CTRL_ALT_BOOT))
     (neg_then (ahb_release_bridge (soc_ahb soc))
     (do { _ \<leftarrow> usleep (wait + 1000000);
      neg_then (ahb_reinit_bridge (soc_ahb soc))
     (neg_then (clk_enable ck clk_arm)
     (neg_then (wdt_writel soc io WDT_RELOAD 0)
      (ret 0))) })))))) })))"

section \<open>Rates\<close>

lemma unat_and_3_cases: "unat (x AND 3 :: u32) \<in> {0, 1, 2, 3}"
proof -
  have 3: "(3 :: u32) = mask 2" by (simp add: mask_eq_exp_minus_1)
  have "unat (x AND 3) = unat x mod 4" using unat_and_mask [of x 2] unfolding 3 by simp
  moreover have "unat x mod 4 < 4" by simp
  ultimately show ?thesis by auto
qed

lemma ast2400_rate_bounds: "84000000 \<le> ast2400_rate strap \<and> ast2400_rate strap \<le> 425000000"
  using unat_and_3_cases [of "drop_bit 8 strap"] unat_and_3_cases [of "drop_bit 10 strap"]
  by (auto simp: ast2400_rate_def cpu_freqs_25_def cpu_freqs_24_48_def ahb_div_def Let_def)

lemma unat_field: "unat (field l n w) < 2 ^ n"
proof -
  have "unat (take_bit n (drop_bit l w)) = take_bit n (unat (drop_bit l w))" by (rule unsigned_take_bit_eq)
  then show ?thesis by (simp add: field_def)
qed

lemma div_le_self: "a div b \<le> (a :: u32)"
  by (simp add: word_le_nat_alt unat_div)

lemma div_2_2_bound:
  fixes a b :: u32
  assumes "a \<le> c" "2 \<le> b"
  shows "uint (a div 2 div b) \<le> uint c div 4"
proof -
  have "unat (a div 2 div b) = unat a div 2 div unat b" by (simp add: unat_div)
  also have "\<dots> = unat a div (2 * unat b)" by (simp add: div_mult2_eq)
  also have "\<dots> \<le> unat a div 4"
    using assms(2) by (intro div_le_mono2) (auto simp: word_le_nat_alt)
  also have "\<dots> \<le> unat c div 4" using assms(1) by (intro div_le_mono) (simp add: word_le_nat_alt)
  finally have "int (unat (a div 2 div b)) \<le> int (unat c div 4)" by (simp only: of_nat_le_iff)
  moreover have "int (unat c div 4) = uint c div 4" by (simp add: zdiv_int)
  moreover have "uint (a div 2 div b) = int (unat (a div 2 div b))" by simp
  ultimately show ?thesis by linarith
qed

lemma scaled_field:
  fixes k :: u32
  assumes "unat k * 2 ^ n < 2 ^ 32" "n < 32"
  shows "k * (field l n w + 1) \<le> k * 2 ^ n"
proof -
  have f: "unat (field l n w + 1) = unat (field l n w) + 1"
  proof -
    have "(2 :: nat) ^ n < 2 ^ 32" using assms(2) by (intro power_strict_increasing) simp_all
    then show ?thesis using unat_field [of l n w] by (simp add: unat_word_ariths(1))
  qed
  have le: "unat k * unat (field l n w + 1) \<le> unat k * 2 ^ n"
    unfolding f using unat_field [of l n w] by (intro mult_le_mono2) simp
  have len: "LENGTH(32) = 32" by simp
  have "unat k * unat (field l n w + 1) < 2 ^ LENGTH(32)"
    unfolding len using le assms(1) by (rule le_less_trans)
  then have "unat (k * (field l n w + 1)) = unat k * unat (field l n w + 1)"
    by (simp only: unat_mult_lem)
  moreover have "unat ((2 :: u32) ^ n) = 2 ^ n"
  proof -
    have "(2 :: nat) ^ n < 2 ^ 32" using assms(2) by (intro power_strict_increasing) simp_all
    then have "unat (of_nat (2 ^ n) :: u32) = 2 ^ n" by (simp add: unat_of_nat del: of_nat_power)
    then show ?thesis by simp
  qed
  then have "unat (k * 2 ^ n) = unat k * 2 ^ n" using assms(1) by (simp add: unat_word_ariths(2))
  ultimately show ?thesis using le by (simp add: word_le_nat_alt)
qed

lemma ratio_plus_1:
  fixes r :: u32
  assumes "unat r < 8" "r \<noteq> 0"
  shows "2 \<le> r + 1" "2 \<le> (r + 1) * 2"
proof -
  have "0 < unat r" using assms(2) by (simp add: unat_gt_0)
  moreover have "unat (r + 1) = unat r + 1" using assms(1) by (simp add: unat_word_ariths(1))
  moreover from this have "unat ((r + 1) * 2) = (unat r + 1) * 2"
    using assms(1) unat_mult_lem [of "r + 1" 2] by simp
  ultimately show "2 \<le> r + 1" "2 \<le> (r + 1) * 2" by (simp_all add: word_le_nat_alt)
qed

lemma unat_ratio:
  "unat (drop_bit 9 (x AND GENMASK 11 9)) < 8" "unat (drop_bit 11 (x AND GENMASK 12 11)) < 8"
proof -
  have "x AND GENMASK 11 9 \<le> GENMASK 11 9" "x AND GENMASK 12 11 \<le> GENMASK 12 11"
    by (rule word_and_le1)+
  then have "unat (x AND GENMASK 11 9) \<le> 0xe00" "unat (x AND GENMASK 12 11) \<le> 0x1800"
    by (simp_all add: GENMASK_def BIT_def word_le_nat_alt)
  then show "unat (drop_bit 9 (x AND GENMASK 11 9)) < 8" "unat (drop_bit 11 (x AND GENMASK 12 11)) < 8"
    by (simp_all only: unat_drop_bit_eq) (simp_all add: drop_bit_eq_div)
qed

lemma ast2500_rate_bounds: "ast2500_rate strap pll = - EINVAL \<or> 0 \<le> ast2500_rate strap pll \<and> ast2500_rate strap pll \<le> 1600"
proof -
  let ?r = "drop_bit 9 (strap AND SCU_HW_STRAP_AXI_CLK_FREQ_RATIO_MASK)"
  let ?h = "\<lambda>k. k * (field 5 8 pll + 1) div (field 0 5 pll + 1) div (field 13 6 pll + 1)"
  show ?thesis
  proof (cases "?r = 0")
    case False
    then have r: "2 \<le> ?r + 1"
      using unat_ratio(1) [of strap] by (intro ratio_plus_1) (simp_all add: SCU_HW_STRAP_AXI_CLK_FREQ_RATIO_MASK_def)
    have "?h k \<le> k * (field 5 8 pll + 1)" for k using div_le_self order_trans by blast
    note h = order_trans [OF this scaled_field]
    have "?h 25 \<le> 25 * 2 ^ 8" "?h 24 \<le> 24 * 2 ^ 8" by (rule h; simp)+
    from div_2_2_bound [OF this(1) r] div_2_2_bound [OF this(2) r] show ?thesis
      by (auto simp: ast2500_rate_def Let_def)
  qed (simp add: ast2500_rate_def Let_def)
qed

lemma ast2600_rate_bounds: "ast2600_rate strap pll = - EINVAL \<or> 0 \<le> ast2600_rate strap pll \<and> ast2600_rate strap pll \<le> 51200"
proof -
  let ?r = "drop_bit 11 (strap AND AST2600_SCU_HW_STRAP1_AHB_FREQ_RATIO_MASK)"
  let ?h = "25 * (field 0 13 pll + 1) div (field 13 6 pll + 1) div (field 19 4 pll + 1)"
  show ?thesis
  proof (cases "?r = 0")
    case False
    then have r: "2 \<le> ?r + 1" "2 \<le> (?r + 1) * 2"
      using unat_ratio(2) [of strap] ratio_plus_1 [of ?r]
      by (simp_all add: AST2600_SCU_HW_STRAP1_AHB_FREQ_RATIO_MASK_def)
    have "?h \<le> 25 * (field 0 13 pll + 1)" using div_le_self order_trans by blast
    also have "\<dots> \<le> 25 * 2 ^ 13" by (rule scaled_field) simp_all
    finally have h: "?h \<le> 25 * 2 ^ 13" .
    from div_2_2_bound [OF h r(1)] div_2_2_bound [OF h r(2)] False show ?thesis
      by (auto simp: ast2600_rate_def Let_def)
  qed (simp add: ast2600_rate_def Let_def)
qed

section \<open>Properties\<close>

text \<open>
  The AHB rate changes its unit with the generation: on an AST2400 the rate is in
  Hz, between 84 and 425 million, for every strap; on an AST2500 and an AST2600 it is in
  MHz, at most 1600 and 51200, or \<open>-EINVAL\<close>. On an AST2600 the reference rate of 200 for
  an unset ratio is never given: the check before it has already failed.
\<close>

theorem clk_rate_units:
  "84000000 \<le> ast2400_rate strap \<and> ast2400_rate strap \<le> 425000000 \<and>
   (ast2500_rate strap pll = - EINVAL \<or> 0 \<le> ast2500_rate strap pll \<and> ast2500_rate strap pll \<le> 1600) \<and>
   (ast2600_rate strap pll = - EINVAL \<or> 0 \<le> ast2600_rate strap pll \<and> ast2600_rate strap pll \<le> 51200) \<and>
   (strap AND AST2600_SCU_HW_STRAP1_AHB_FREQ_RATIO_MASK = 0 \<longrightarrow> ast2600_rate strap pll = - EINVAL)"
proof (intro conjI impI)
  show "84000000 \<le> ast2400_rate strap" "ast2400_rate strap \<le> 425000000"
    using ast2400_rate_bounds by blast+
  show "ast2500_rate strap pll = - EINVAL \<or> 0 \<le> ast2500_rate strap pll \<and> ast2500_rate strap pll \<le> 1600"
    by (rule ast2500_rate_bounds)
  show "ast2600_rate strap pll = - EINVAL \<or> 0 \<le> ast2600_rate strap pll \<and> ast2600_rate strap pll \<le> 51200"
    by (rule ast2600_rate_bounds)
  show "strap AND AST2600_SCU_HW_STRAP1_AHB_FREQ_RATIO_MASK = 0 \<Longrightarrow> ast2600_rate strap pll = - EINVAL"
    by (simp add: ast2600_rate_def Let_def)
qed

theorem clk_rate_units_witness: "ast2600_rate 0 0x1000 = - EINVAL"
  using clk_rate_units [of 0 "0x1000"] by simp

definition wdt_stopped :: "u32 set \<Rightarrow> (u32 \<Rightarrow> u32) \<Rightarrow> (u32 \<Rightarrow> u32)" where
  "wdt_stopped ctrls r = (\<lambda>a. if a \<in> ctrls then r a AND NOT WDT_CTRL_ENABLE else r a)"

definition wdt_ctrl_addrs :: "soc_region option list \<Rightarrow> u32 set" where
  "wdt_ctrl_addrs wdts = (\<lambda>io. rg_start io + WDT_CTRL) ` {io. Some io \<in> set (takeWhile (\<lambda>w. w \<noteq> None) wdts)}"

lemma wdt_ctrl_addrs_simps [simp]:
  "wdt_ctrl_addrs [] = {}" "wdt_ctrl_addrs (None # wdts) = {}"
  "wdt_ctrl_addrs (Some io # wdts) = insert (rg_start io + WDT_CTRL) (wdt_ctrl_addrs wdts)"
  by (auto simp: wdt_ctrl_addrs_def)

text \<open>
  Stopping the watchdogs: with every watchdog present, \<open>wdt_prevent_reset\<close> succeeds,
  clears the enable bit of each control register and changes no other bit and no other
  register; with one missing it fails with \<open>-ENODEV\<close>, after stopping those before it.
\<close>

theorem wdt_prevent_reset_stops:
  assumes "soc_bus ops invar reg plain_eff soc" "invar s"
    and "\<And>io. Some io \<in> set wdts \<Longrightarrow> unat (rg_start io) mod 4 = 0"
  shows "fst (run_state (wdt_prevent_reset soc wdts) s) = (if None \<in> set wdts then - ENODEV else 0) \<and>
    reg (snd (run_state (wdt_prevent_reset soc wdts) s)) = wdt_stopped (wdt_ctrl_addrs wdts) (reg s)"
  using assms(2,3)
proof (induction wdts arbitrary: s)
  case Nil
  then show ?case by (simp add: wdt_stopped_def)
next
  case (Cons w wdts)
  note [simp] = soc_bus.soc_readl [OF assms(1)] soc_bus.soc_writel [OF assms(1)]
  show ?case
  proof (cases w)
    case None
    then show ?thesis by (simp add: wdt_stopped_def)
  next
    case (Some io)
    let ?s1 = "snd (run_state (wdt_stop soc io) s)"
    have "word_aligned (rg_start io)" using Cons.prems(2) Some by (simp add: word_aligned_iff)
    then have stop: "fst (run_state (wdt_stop soc io) s) = 0" "invar ?s1"
      "reg ?s1 = (reg s)(rg_start io + WDT_CTRL := reg s (rg_start io + WDT_CTRL) AND NOT WDT_CTRL_ENABLE)"
      using Cons.prems(1)
      by (simp_all add: wdt_stop_def wdt_readl_def wdt_writel_def WDT_CTRL_def plain_eff_def)
    have "wdt_stopped (wdt_ctrl_addrs wdts) (reg ?s1) = wdt_stopped (wdt_ctrl_addrs (w # wdts)) (reg s)"
      by (auto simp: Some stop(3) wdt_stopped_def fun_eq_iff and.assoc)
    with Cons.IH [OF stop(2)] Cons.prems(2) Some stop(1) show ?thesis by simp
  qed
qed

theorem wdt_prevent_reset_stops_witness:
  "fst (run_state (wdt_prevent_reset (p2a_soc 0x04030303 example_fdt (regfile plain_eff))
     [Some \<lparr>rg_start = 0x1e785000, rg_length = 0x20\<rparr>, None]) (p2a_start (\<lambda>_. 0xff))) = - ENODEV"
  using wdt_prevent_reset_stops [OF p2a_soc.soc_bus_axioms [where rv = "0x04030303" and dt = example_fdt]
      p2a_start_inv, of "[Some \<lparr>rg_start = 0x1e785000, rg_length = 0x20\<rparr>, None]" "\<lambda>_. 0xff"]
  by (simp add: wdt_stopped_def)

lemma neg_then_0:
  "fst (run_state m s) = 0 \<Longrightarrow> run_state (neg_then m k) s = run_state k (snd (run_state m s))"
  by simp

lemma val_then_Inr:
  "fst (run_state m s) = Inr v \<Longrightarrow> run_state (val_then m k) s = run_state (k v) (snd (run_state m s))"
  by simp

lemma wdt_ctrl_bits:
  fixes v a b c d :: u32
  shows "(((v AND NOT a) OR b) OR (c OR a)) AND NOT d = (v OR (b OR (c OR a))) AND NOT d"
  by (rule bit_word_eqI) (auto simp: bit_simps)

context soc_bus
begin

lemma wdt_regs [simp]:
  assumes "invar s" "word_aligned (rg_start io)" "word_aligned r"
  shows "fst (run_state (wdt_readl soc io r) s) = Inr (reg s (rg_start io + r))"
    "reg (snd (run_state (wdt_readl soc io r) s)) = reg s"
    "invar (snd (run_state (wdt_readl soc io r) s))"
    "fst (run_state (wdt_writel soc io r v) s) = 0"
    "reg (snd (run_state (wdt_writel soc io r v) s)) = eff (reg s) (rg_start io + r) v"
    "invar (snd (run_state (wdt_writel soc io r v) s))"
  using assms by (simp_all add: wdt_readl_def wdt_writel_def)

end

text \<open>The steps of the reset, each followed by whatever comes next.\<close>

lemma wdt_prepared:
  assumes "soc_bus ops invar reg plain_eff soc" "invar s" "word_aligned (rg_start io)"
  shows "\<exists>s'. invar s' \<and> reg s' = (reg s)(rg_start io + 0x0c := (reg s (rg_start io + 0x0c) AND NOT 1) OR 0x10,
      rg_start io + 0x1c := 0x23ffffb) \<and>
    (\<forall>k. run_state (neg_then (wdt_stop soc io) (neg_then (wdt_config_clksrc soc io)
      (neg_then (wdt_writel soc io WDT_RESET_MASK 0x23ffffb)
      (do { wait \<leftarrow> wdt_usecs_to_ticks soc io 5000000; k wait })))) s = run_state (k 5000000) s')"
proof -
  note [simp] = soc_bus.wdt_regs [OF assms(1) _ assms(3)] wdt_consts plain_eff_def
  define v where "v = reg s (rg_start io + 0x0c)"
  define s1 where "s1 = snd (run_state (wdt_stop soc io) s)"
  define s2 where "s2 = snd (run_state (wdt_config_clksrc soc io) s1)"
  define s3 where "s3 = snd (run_state (wdt_writel soc io WDT_RESET_MASK 0x23ffffb) s2)"
  define s4 where "s4 = snd (run_state (wdt_usecs_to_ticks soc io 5000000) s3)"
  have 1: "fst (run_state (wdt_stop soc io) s) = 0" "invar s1"
      "reg s1 = (reg s)(rg_start io + 0x0c := v AND NOT 1)"
    using assms(2) by (simp_all add: s1_def wdt_stop_def v_def)
  have 2: "fst (run_state (wdt_config_clksrc soc io) s1) = 0" "invar s2"
      "reg s2 = (reg s)(rg_start io + 0x0c := (v AND NOT 1) OR 0x10)"
    using 1 by (simp_all add: s2_def wdt_config_clksrc_def)
  have 3: "fst (run_state (wdt_writel soc io WDT_RESET_MASK 0x23ffffb) s2) = 0" "invar s3"
      "reg s3 = (reg s2)(rg_start io + 0x1c := 0x23ffffb)"
    using 2 by (simp_all add: s3_def)
  have 4: "fst (run_state (wdt_usecs_to_ticks soc io 5000000) s3) = 5000000" "invar s4" "reg s4 = reg s3"
    using 3 2(3) by (simp_all add: s4_def wdt_usecs_to_ticks_def)
  have "run_state (neg_then (wdt_stop soc io) (neg_then (wdt_config_clksrc soc io)
      (neg_then (wdt_writel soc io WDT_RESET_MASK 0x23ffffb)
      (do { wait \<leftarrow> wdt_usecs_to_ticks soc io 5000000; k wait })))) s = run_state (k 5000000) s4" for k
    by (simp only: neg_then_0 [OF 1(1)] s1_def [symmetric] neg_then_0 [OF 2(1)] s2_def [symmetric]
        neg_then_0 [OF 3(1)] s3_def [symmetric] run_bind 4(1) s4_def [symmetric])
  then show ?thesis using 4(2,3) 3(3) 2(3) by (intro exI [of _ s4]) (simp add: v_def)
qed

lemma wdt_started:
  assumes "soc_bus ops invar reg plain_eff soc" "invar s" "word_aligned (rg_start io)"
    and "v = reg s (rg_start io + 0x0c)"
  shows "\<exists>s'. invar s' \<and> reg s' = (reg s)(rg_start io + 0x04 := n, rg_start io + 0x08 := 0x4755,
      rg_start io + 0x0c := f v) \<and>
    (\<forall>k. run_state (neg_then (wdt_writel soc io WDT_RELOAD n)
      (neg_then (wdt_writel soc io WDT_RESTART WDT_RESTART_MAGIC)
      (val_then (wdt_readl soc io WDT_CTRL) (\<lambda>mode. neg_then (wdt_writel soc io WDT_CTRL (f mode)) k)))) s =
      run_state k s')"
proof -
  note [simp] = soc_bus.wdt_regs [OF assms(1) _ assms(3)] wdt_consts plain_eff_def
  define s5 where "s5 = snd (run_state (wdt_writel soc io WDT_RELOAD n) s)"
  define s6 where "s6 = snd (run_state (wdt_writel soc io WDT_RESTART WDT_RESTART_MAGIC) s5)"
  define s7 where "s7 = snd (run_state (wdt_readl soc io WDT_CTRL) s6)"
  define s8 where "s8 = snd (run_state (wdt_writel soc io WDT_CTRL (f v)) s7)"
  have 5: "fst (run_state (wdt_writel soc io WDT_RELOAD n) s) = 0" "invar s5"
      "reg s5 = (reg s)(rg_start io + 0x04 := n)"
    using assms(2) by (simp_all add: s5_def)
  have 6: "fst (run_state (wdt_writel soc io WDT_RESTART WDT_RESTART_MAGIC) s5) = 0" "invar s6"
      "reg s6 = (reg s5)(rg_start io + 0x08 := 0x4755)"
    using 5 by (simp_all add: s6_def)
  have 7: "fst (run_state (wdt_readl soc io WDT_CTRL) s6) = Inr v" "invar s7" "reg s7 = reg s6"
    using 6 5(3) assms(4) by (simp_all add: s7_def)
  have 8: "fst (run_state (wdt_writel soc io WDT_CTRL (f v)) s7) = 0" "invar s8"
      "reg s8 = (reg s7)(rg_start io + 0x0c := f v)"
    using 7 by (simp_all add: s8_def)
  have "run_state (neg_then (wdt_writel soc io WDT_RELOAD n)
      (neg_then (wdt_writel soc io WDT_RESTART WDT_RESTART_MAGIC)
      (val_then (wdt_readl soc io WDT_CTRL) (\<lambda>mode. neg_then (wdt_writel soc io WDT_CTRL (f mode)) k)))) s =
      run_state k s8" for k
    by (simp only: neg_then_0 [OF 5(1)] s5_def [symmetric] neg_then_0 [OF 6(1)] s6_def [symmetric]
        val_then_Inr [OF 7(1)] s7_def [symmetric] neg_then_0 [OF 8(1)] s8_def [symmetric])
  then show ?thesis using 8(2,3) 7(3) 6(3) 5(3) by (intro exI [of _ s8]) simp
qed

lemma wdt_armed:
  assumes "soc_bus ops invar reg plain_eff soc" "invar s" "unat (rg_start io) mod 4 = 0"
  shows "\<exists>s1. invar s1 \<and>
    reg s1 = (reg s)
      (rg_start io + 0x1c := 0x23ffffb, rg_start io + 0x04 := 5000000, rg_start io + 0x08 := 0x4755,
       rg_start io + 0x0c := (reg s (rg_start io + 0x0c) OR 0x13) AND NOT 0x80) \<and>
    run_state (wdt_perform_reset soc ck usleep io) s =
      run_state (neg_then (ahb_release_bridge (soc_ahb soc)) (do { _ \<leftarrow> usleep 6000000;
        neg_then (ahb_reinit_bridge (soc_ahb soc))
       (neg_then (clk_enable ck clk_arm)
       (neg_then (wdt_writel soc io WDT_RELOAD 0) (ret 0))) })) s1"
proof -
  let ?io = "rg_start io" and ?v = "reg s (rg_start io + 0x0c)"
  let ?f = "\<lambda>mode. (mode OR (WDT_CTRL_RESET_SOC OR WDT_CTRL_SYS_RESET OR WDT_CTRL_ENABLE)) AND NOT WDT_CTRL_ALT_BOOT"
  let ?k = "neg_then (ahb_release_bridge (soc_ahb soc)) (do { _ \<leftarrow> usleep 6000000;
        neg_then (ahb_reinit_bridge (soc_ahb soc))
       (neg_then (clk_enable ck clk_arm)
       (neg_then (wdt_writel soc io WDT_RELOAD 0) (ret 0))) })"
  have al: "word_aligned ?io" using assms(3) by (simp add: word_aligned_iff)
  obtain s4 where s4: "invar s4" "reg s4 = (reg s)(?io + 0x0c := (?v AND NOT 1) OR 0x10, ?io + 0x1c := 0x23ffffb)"
    and run4: "\<And>k. run_state (neg_then (wdt_stop soc io) (neg_then (wdt_config_clksrc soc io)
      (neg_then (wdt_writel soc io WDT_RESET_MASK 0x23ffffb)
      (do { wait \<leftarrow> wdt_usecs_to_ticks soc io 5000000; k wait })))) s = run_state (k 5000000) s4"
    using wdt_prepared [OF assms(1,2) al] by blast
  obtain s8 where s8: "invar s8" "reg s8 = (reg s4)(?io + 0x04 := 5000000, ?io + 0x08 := 0x4755,
      ?io + 0x0c := ?f ((?v AND NOT 1) OR 0x10))"
    and run8: "\<And>k. run_state (neg_then (wdt_writel soc io WDT_RELOAD 5000000)
      (neg_then (wdt_writel soc io WDT_RESTART WDT_RESTART_MAGIC)
      (val_then (wdt_readl soc io WDT_CTRL) (\<lambda>mode. neg_then (wdt_writel soc io WDT_CTRL (?f mode)) k)))) s4 =
      run_state k s8"
    using wdt_started [OF assms(1) s4(1) al, of "(?v AND NOT 1) OR 0x10" 5000000 ?f] s4(2) by auto
  have "?f ((?v AND NOT 1) OR 0x10) = (?v OR 0x13) AND NOT 0x80"
    using wdt_ctrl_bits [of ?v 1 "0x10" 2 "0x80"] by (simp add: wdt_consts)
  then have "reg s8 = (reg s)(?io + 0x1c := 0x23ffffb, ?io + 0x04 := 5000000, ?io + 0x08 := 0x4755,
      ?io + 0x0c := (?v OR 0x13) AND NOT 0x80)"
    by (simp add: s8(2) s4(2) fun_upd_twist)
  moreover have "run_state (wdt_perform_reset soc ck usleep io) s = run_state ?k s8"
    unfolding wdt_perform_reset_def run4 using run8 by simp
  ultimately show ?thesis using s8(1) by blast
qed

text \<open>
  Claim C34. Arming the reset and what follows it. Whatever the bridge driver does on its release,
  \<open>wdt_perform_reset\<close> hands the bus over (\<open>s1\<close>) with the reset mask, a reload of five seconds of
  the 1 MHz clock, the restart key and a control word that enables a system reset of that
  clock without the alternate boot source. Then, in this order and each only when the one
  before it did not fail, whose status is otherwise the result: the release of the bridge;
  after one second more than the reload, its re-initialisation; and the ungating of the ARM
  clock. At last, where these leave the bridge in order, the reload is cleared and the status
  is 0. The reset mode bits
  already in the control register are kept, not cleared, so the SoC mode is only selected
  when they were zero.
\<close>

theorem wdt_reset_armed:
  assumes "soc_bus ops invar reg plain_eff soc" "invar s" "unat (rg_start io) mod 4 = 0"
  shows "\<exists>s1. invar s1 \<and>
    reg s1 = (reg s)
      (rg_start io + 0x1c := 0x23ffffb, rg_start io + 0x04 := 5000000, rg_start io + 0x08 := 0x4755,
       rg_start io + 0x0c := (reg s (rg_start io + 0x0c) OR 0x13) AND NOT 0x80) \<and>
    (let (released, s2) = run_state (ahb_release_bridge (soc_ahb soc)) s1;
         (again, s3) = run_state (ahb_reinit_bridge (soc_ahb soc)) (snd (run_state (usleep 6000000) s2));
         (ungated, s4) = run_state (clk_enable ck clk_arm) s3;
         r = run_state (wdt_perform_reset soc ck usleep io) s
     in if released < 0 then r = (released, s2)
        else if again < 0 then r = (again, s3)
        else if ungated < 0 then r = (ungated, s4)
        else invar s4 \<longrightarrow> fst r = 0 \<and> invar (snd r) \<and> reg (snd r) = (reg s4)(rg_start io + 0x04 := 0))"
proof -
  have al: "word_aligned (rg_start io)" using assms(3) by (simp add: word_aligned_iff)
  note [simp] = soc_bus.wdt_regs [OF assms(1) _ al] wdt_consts plain_eff_def
  have last: "fst (run_state (neg_then (wdt_writel soc io WDT_RELOAD 0) (ret 0)) t) = 0 \<and>
      invar (snd (run_state (neg_then (wdt_writel soc io WDT_RELOAD 0) (ret 0)) t)) \<and>
      reg (snd (run_state (neg_then (wdt_writel soc io WDT_RELOAD 0) (ret 0)) t)) = (reg t)(rg_start io + 0x04 := 0)"
    if "invar t" for t
    using that by simp
  let ?m = "neg_then (wdt_writel soc io WDT_RELOAD 0) (ret 0)"
  obtain s1 where s1: "invar s1" "reg s1 = (reg s)
      (rg_start io + 0x1c := 0x23ffffb, rg_start io + 0x04 := 5000000, rg_start io + 0x08 := 0x4755,
       rg_start io + 0x0c := (reg s (rg_start io + 0x0c) OR 0x13) AND NOT 0x80)"
    and run: "run_state (wdt_perform_reset soc ck usleep io) s =
      run_state (neg_then (ahb_release_bridge (soc_ahb soc)) (do { _ \<leftarrow> usleep 6000000;
        neg_then (ahb_reinit_bridge (soc_ahb soc)) (neg_then (clk_enable ck clk_arm) ?m) })) s1"
    using wdt_armed [OF assms, of ck usleep] by blast
  obtain released s2 where s2: "run_state (ahb_release_bridge (soc_ahb soc)) s1 = (released, s2)" by fastforce
  obtain again s3 where s3: "run_state (ahb_reinit_bridge (soc_ahb soc)) (snd (run_state (usleep 6000000) s2)) = (again, s3)"
    by fastforce
  obtain ungated s4 where s4: "run_state (clk_enable ck clk_arm) s3 = (ungated, s4)" by fastforce
  have "run_state (wdt_perform_reset soc ck usleep io) s =
      (if released < 0 then (released, s2) else if again < 0 then (again, s3)
       else if ungated < 0 then (ungated, s4) else run_state ?m s4)"
    unfolding run using s2 s3 s4 by (simp add: neg_then_def)
  then show ?thesis using s1 s2 s3 s4 last [of s4] by (intro exI [of _ s1]) simp
qed

text \<open>
  A bridge that cannot be released: the watchdog stays armed. And one that can: all is done.
\<close>

definition wdt_soc :: "int \<Rightarrow> (u32 \<Rightarrow> u32) p2a_hw p2ab soc" where
  "wdt_soc rc = \<lparr>soc_rev = 0x04030303, soc_fdt = example_fdt, soc_ahb = (p2a_ahb (regfile plain_eff))
     \<lparr>ahb_drv := \<lparr>drv_name = ''p2a'', drv_release = Some (ret rc), drv_reinit = None,
       drv_path_required = False, drv_local = False, drv_disabled = False\<rparr>\<rparr>\<rparr>"

lemma wdt_soc_bus: "soc_bus (p2ab_ahb_ops (p2a_mmio (regfile plain_eff)) 0) p2a_ok p2a_regs plain_eff (wdt_soc rc)"
  using p2a_soc.soc_bus_axioms [of plain_eff 0 example_fdt]
  by (simp add: soc_bus_def soc_bus_axioms_def wdt_soc_def p2a_ahb_def p2a_soc_def)

definition wdt_example :: "int \<Rightarrow> int \<times> (u32 \<Rightarrow> u32) p2a_hw p2ab" where
  "wdt_example rc = run_state (wdt_perform_reset (wdt_soc rc)
     (ast2500_clk_ops (wdt_soc rc) \<lparr>scu_refcnt = 1, scu_was_locked = False, scu_start = 0x1e6e2000\<rparr>
        \<lparr>clk_enable_op := (\<lambda>src. ret 0)\<rparr>)
     (\<lambda>n. ret ()) \<lparr>rg_start = 0x1e785000, rg_length = 0x20\<rparr>) (p2a_start (\<lambda>_. 0))"

theorem wdt_reset_armed_witness:
  "fst (wdt_example (- EIO)) = - EIO \<and> p2a_regs (snd (wdt_example (- EIO))) 0x1e785004 = 5000000 \<and>
   p2a_regs (snd (wdt_example (- EIO))) 0x1e78500c = 0x13 \<and>
   fst (wdt_example 0) = 0 \<and> p2a_regs (snd (wdt_example 0)) 0x1e785004 = 0 \<and>
   p2a_regs (snd (wdt_example 0)) 0x1e78501c = 0x23ffffb"
proof -
  have drv: "ahb_release_bridge (soc_ahb (wdt_soc rc)) = ret rc" "ahb_reinit_bridge (soc_ahb (wdt_soc rc)) = ret 0" for rc
    by (simp_all add: wdt_soc_def ahb_release_bridge_def ahb_reinit_bridge_def p2a_ahb_def)
  have armed: "\<exists>s1. p2a_ok s1 \<and> p2a_regs s1 = (\<lambda>_. 0)(0x1e78501c := 0x23ffffb, 0x1e785004 := 5000000,
        0x1e785008 := 0x4755, 0x1e78500c := 0x13) \<and>
      (if rc < 0 then wdt_example rc = (rc, s1)
       else fst (wdt_example rc) = 0 \<and> p2a_regs (snd (wdt_example rc)) = (p2a_regs s1)(0x1e785004 := 0))" for rc
    using wdt_reset_armed [OF wdt_soc_bus [of rc] p2a_start_inv [of "\<lambda>_. 0"],
        where io = "\<lparr>rg_start = 0x1e785000, rg_length = 0x20\<rparr>" and usleep = "\<lambda>n. ret ()" and
          ck = "ast2500_clk_ops (wdt_soc rc) \<lparr>scu_refcnt = 1, scu_was_locked = False, scu_start = 0x1e6e2000\<rparr>
            \<lparr>clk_enable_op := (\<lambda>src. ret 0)\<rparr>"]
    by (cases "rc < 0") (auto simp: drv clk_enable_def Let_def simp flip: wdt_example_def simp del: fun_upd_apply)
  show ?thesis using armed [of "- EIO"] armed [of 0] by (auto simp del: fun_upd_apply) auto
qed

end
