(* ===== verification/Sfc.thy ===== *)
theory Sfc
  imports Flash SocBus Clk
begin

text \<open>
  The SPI flash controllers of the system on chip, \<^verbatim>\<open>src/soc/sfc.c\<close>: commands in user mode,
  direct reads, read timing calibration, the tuning of known chips, the write protection and
  the driver. An SPI NOR flash behind such a controller, as documented, closes the chain: the
  driver over it meets the contract of \<open>nor_flash\<close> on the P2A bridge.
\<close>

section \<open>Controllers\<close>

definition SFC_TYPE_FMC :: u8 where "SFC_TYPE_FMC = 1"
definition SFC_TYPE_SMC :: u8 where "SFC_TYPE_SMC = 2"
definition CMD_RDCR :: u8 where "CMD_RDCR = 0x15"
definition CMD_WRSR :: u8 where "CMD_WRSR = 0x01"
definition CMD_MIC_RDVCONF :: u8 where "CMD_MIC_RDVCONF = 0x85"
definition CMD_MIC_WRVCONF :: u8 where "CMD_MIC_WRVCONF = 0x81"

definition CALIBRATE_BUF_SIZE :: nat where "CALIBRATE_BUF_SIZE = 16384"
definition FMC_CE_TYPE :: u32 where "FMC_CE_TYPE = 0x00"
definition FMC_CE_TYPE_CE2_WP :: u32 where "FMC_CE_TYPE_CE2_WP = BIT 18"
definition FMC_CE_TYPE_CE1_WP :: u32 where "FMC_CE_TYPE_CE1_WP = BIT 17"
definition FMC_CE_TYPE_CE0_WP :: u32 where "FMC_CE_TYPE_CE0_WP = BIT 16"
definition FMC_CE_CTRL :: u32 where "FMC_CE_CTRL = 0x04"
definition FMC_CE0_CTRL :: u32 where "FMC_CE0_CTRL = 0x10"
definition FMC_TIMING :: u32 where "FMC_TIMING = 0x94"
definition SMC_CONF :: u32 where "SMC_CONF = 0x00"
definition SMC_CE0_CTRL :: u32 where "SMC_CE0_CTRL = 0x10"
definition SMC_TIMING :: u32 where "SMC_TIMING = 0x94"

lemmas sfc_regs = FMC_CE_TYPE_def FMC_CE_CTRL_def FMC_CE0_CTRL_def FMC_TIMING_def
  SMC_CONF_def SMC_CE0_CTRL_def SMC_TIMING_def

record sfc_data =
  sf_iomem :: soc_region
  sf_flash :: soc_region
  sf_type :: u8
  sf_type_reg :: u32
  sf_type_wp_mask :: u32
  sf_ctl_reg :: u32
  sf_ctl_val :: u32
  sf_ctl_read_val :: u32
  sf_fread_timing_reg :: u32
  sf_fread_timing_val :: u32
  sf_mode_4b :: bool

text \<open>
  The state of the driver next to that of the system: its instance and the frequency it keeps
  in a static variable. \<open>c_int\<close> is the conversion of a long status or length to \<open>int\<close>.
\<close>

record 's sfc_st =
  sx_soc :: 's
  sx_ct :: sfc_data
  sx_ast_ahb_freq :: u32

definition c_int :: "int \<Rightarrow> int" where
  "c_int x = sint (word_of_int x :: u32)"

definition on_soc :: "('s, 'a) state \<Rightarrow> ('s sfc_st, 'a) state" where
  "on_soc m = zoom sx_soc (\<lambda>v s. s\<lparr>sx_soc := v\<rparr>) m"

definition with_ct :: "(sfc_data \<Rightarrow> ('s sfc_st, 'a) state) \<Rightarrow> ('s sfc_st, 'a) state" where
  "with_ct f = do { ct \<leftarrow> gets sx_ct; f ct }"

definition set_ct :: "(sfc_data \<Rightarrow> sfc_data) \<Rightarrow> ('s sfc_st, unit) state" where
  "set_ct f = modify (\<lambda>s. s\<lparr>sx_ct := f (sx_ct s)\<rparr>)"

lemma run_on_soc [simp]:
  "run_state (on_soc m) s = (fst (run_state m (sx_soc s)), s\<lparr>sx_soc := snd (run_state m (sx_soc s))\<rparr>)"
  by (simp add: on_soc_def)

lemma run_with_ct [simp]: "run_state (with_ct f) s = run_state (f (sx_ct s)) s"
  by (simp add: with_ct_def)

lemma run_set_ct [simp]: "run_state (set_ct f) s = ((), s\<lparr>sx_ct := f (sx_ct s)\<rparr>)"
  by (simp add: set_ct_def)

definition sfc_readl :: "'s soc \<Rightarrow> u32 \<Rightarrow> ('s sfc_st, int + u32) state" where
  "sfc_readl soc off = with_ct (\<lambda>ct. on_soc (soc_readl soc (rg_start (sf_iomem ct) + off)))"

definition sfc_writel :: "'s soc \<Rightarrow> u32 \<Rightarrow> u32 \<Rightarrow> ('s sfc_st, int) state" where
  "sfc_writel soc off val = with_ct (\<lambda>ct. on_soc (soc_writel soc (rg_start (sf_iomem ct) + off) val))"

definition sfc_flash_read :: "'s soc \<Rightarrow> u32 \<Rightarrow> nat \<Rightarrow> ('s sfc_st, int + u8 list) state" where
  "sfc_flash_read soc off len = with_ct (\<lambda>ct. on_soc (soc_read soc (rg_start (sf_flash ct) + off) len))"

definition sfc_flash_write :: "'s soc \<Rightarrow> u32 \<Rightarrow> u8 list \<Rightarrow> ('s sfc_st, int) state" where
  "sfc_flash_write soc off buf = with_ct (\<lambda>ct. on_soc (soc_write soc (rg_start (sf_flash ct) + off) buf))"

definition ast_ct_hclk_divs :: "u32 list" where
  "ast_ct_hclk_divs = [0xf, 0x7, 0xe, 0x6, 0xd]"

section \<open>Commands\<close>

definition sfc_start_cmd :: "'s soc \<Rightarrow> u8 \<Rightarrow> ('s sfc_st, int) state" where
  "sfc_start_cmd soc cmd = with_ct (\<lambda>ct.
     neg_then (sfc_writel soc (sf_ctl_reg ct) (sf_ctl_val ct OR 7))
     (neg_then (sfc_writel soc (sf_ctl_reg ct) (sf_ctl_val ct OR 3))
     (do { rc \<leftarrow> sfc_flash_write soc 0 [cmd]; ret (if c_int rc = 1 then 0 else c_int rc) })))"

text \<open>A failure to release the chip is only reported.\<close>

definition sfc_end_cmd :: "'s soc \<Rightarrow> ('s sfc_st, unit) state" where
  "sfc_end_cmd soc = with_ct (\<lambda>ct. do {
     rc \<leftarrow> sfc_writel soc (sf_ctl_reg ct) (sf_ctl_val ct OR 7);
     (if rc < 0 then ret ()
      else do {
        _ \<leftarrow> sfc_writel soc (sf_ctl_reg ct) (sf_ctl_read_val ct);
        ret () }) })"

definition sfc_send_addr :: "'s soc \<Rightarrow> u32 \<Rightarrow> ('s sfc_st, int) state" where
  "sfc_send_addr soc addr = with_ct (\<lambda>ct.
     let ap = rev (le_bytes addr);
         buf = (if sf_mode_4b ct then ap else tl ap)
     in do { rc \<leftarrow> sfc_flash_write soc 0 buf;
             ret (if c_int rc = int (length buf) then 0 else c_int rc) })"

definition sfc_addr_opt :: "'s soc \<Rightarrow> u32 option \<Rightarrow> ('s sfc_st, int) state" where
  "sfc_addr_opt soc addr = (case addr of None \<Rightarrow> ret 0 | Some a \<Rightarrow> sfc_send_addr soc a)"

text \<open>Bytes are read in words of four, of which the last may be used in part.\<close>

function sfc_rd_words :: "'s soc \<Rightarrow> nat \<Rightarrow> ('s sfc_st, int + u8 list) state" where
  "sfc_rd_words soc sz =
     (if sz = 0 then ret (Inr [])
      else valr_then (with_ct (\<lambda>ct. on_soc (soc_readl soc (rg_start (sf_flash ct))))) (\<lambda>val.
        valr_then (sfc_rd_words soc (sz - 4)) (\<lambda>rest. ret (Inr (take sz (le_bytes val) @ rest)))))"
  by pat_completeness auto
termination by (relation "measure snd") auto

declare sfc_rd_words.simps [simp del]

definition sfc_cmd_rd :: "'s soc \<Rightarrow> u8 \<Rightarrow> u32 option \<Rightarrow> nat \<Rightarrow> ('s sfc_st, int + u8 list) state" where
  "sfc_cmd_rd soc cmd addr sz = do {
     r \<leftarrow> nzr_then (sfc_start_cmd soc cmd) (nzr_then (sfc_addr_opt soc addr) (sfc_rd_words soc sz));
     _ \<leftarrow> sfc_end_cmd soc;
     ret r }"

text \<open>The status at the label \<open>bail\<close> is compared with the size, as an error may be.\<close>

definition sfc_cmd_wr :: "'s soc \<Rightarrow> u8 \<Rightarrow> u32 option \<Rightarrow> u8 list \<Rightarrow> ('s sfc_st, int) state" where
  "sfc_cmd_wr soc cmd addr buf = do {
     rc \<leftarrow> nz_then (sfc_start_cmd soc cmd) (nz_then (sfc_addr_opt soc addr)
       (if buf \<noteq> [] then sfc_flash_write soc 0 buf else ret 0));
     _ \<leftarrow> sfc_end_cmd soc;
     ret (if rc = int (length buf) then 0 else c_int rc) }"

definition sfc_set_4b :: "'s soc \<Rightarrow> flash_info \<Rightarrow> bool \<Rightarrow> ('s sfc_st, int) state" where
  "sfc_set_4b soc finfo enable = with_ct (\<lambda>ct.
     let fmc = (sf_type ct = SFC_TYPE_FMC \<and> fi_size finfo > 0x1000000)
     in if \<not> fmc \<and> sf_type ct \<noteq> SFC_TYPE_SMC then ret (if enable then - EIO else 0)
        else val_then (if fmc then sfc_readl soc FMC_CE_CTRL else ret (Inr 0)) (\<lambda>ce.
          let ce_ctrl = (if enable then ce OR 1 else ce AND NOT 1);
              upd = (\<lambda>v. if enable then v OR 0x2000 else v AND NOT (0x2000 :: u32))
          in do {
            _ \<leftarrow> set_ct (\<lambda>ct. ct\<lparr>sf_ctl_val := upd (sf_ctl_val ct),
              sf_ctl_read_val := upd (sf_ctl_read_val ct), sf_mode_4b := enable\<rparr>);
            neg_then (with_ct (\<lambda>ct. sfc_writel soc (sf_ctl_reg ct) (sf_ctl_read_val ct)))
              (if ce_ctrl \<noteq> 0 \<and> sf_type ct = SFC_TYPE_FMC then sfc_writel soc FMC_CE_CTRL ce_ctrl
               else ret 0) }))"

definition sfc_direct_read :: "'s soc \<Rightarrow> u32 \<Rightarrow> nat \<Rightarrow> ('s sfc_st, int + u8 list) state" where
  "sfc_direct_read soc pos len =
     valr_then (sfc_flash_read soc pos len) (\<lambda>bs.
       ret (if (of_nat (length bs) :: u32) = of_nat len then Inr bs else Inl (c_int (int (length bs)))))"

text \<open>\<open>sfc_setup\<close> returns at once: what follows in it is dead, and with it the tuning of chips.\<close>

definition sfc_setup :: "flash_info \<Rightarrow> u32 \<Rightarrow> ('s sfc_st, int + u32) state" where
  "sfc_setup info tsize = ret (Inr tsize)"

definition sfc_ops :: "'s soc \<Rightarrow> 's sfc_st sfc" where
  "sfc_ops soc = \<lparr>op_setup = Some sfc_setup, op_set_4b = Some (sfc_set_4b soc), op_chip_id = None,
     op_direct_read = Some (sfc_direct_read soc), op_write = None, op_erase = None,
     op_cmd_rd = Some (sfc_cmd_rd soc), op_cmd_wr = Some (sfc_cmd_wr soc)\<rparr>"

section \<open>Read timings\<close>

text \<open>
  The buffers: a read of \<open>n\<close> bytes overwrites the first \<open>n\<close>. \<open>flash_read\<close> gives the length
  on success, which the callers below take for an error.
\<close>

definition buf_put :: "u8 list \<Rightarrow> u8 list \<Rightarrow> u8 list" where
  "buf_put old bs = bs @ drop (length bs) old"

definition read_rc :: "int + u8 list \<Rightarrow> int" where
  "read_rc r = c_int (case r of Inl rc \<Rightarrow> rc | Inr bs \<Rightarrow> int (length bs))"

definition read_buf :: "u8 list \<Rightarrow> int + u8 list \<Rightarrow> u8 list" where
  "read_buf old r = (case r of Inl rc \<Rightarrow> old | Inr bs \<Rightarrow> buf_put old bs)"

fun sfc_check_reads :: "nat \<Rightarrow> 's soc \<Rightarrow> u8 list \<Rightarrow> u8 list \<Rightarrow> ('s sfc_st, int \<times> u8 list) state" where
  "sfc_check_reads 0 soc golden test = ret (0, test)"
| "sfc_check_reads (Suc n) soc golden test = do {
     r \<leftarrow> sfc_flash_read soc 0 CALIBRATE_BUF_SIZE;
     let test = read_buf test r;
     (if read_rc r \<noteq> 0 then ret (read_rc r, test)
      else if take CALIBRATE_BUF_SIZE test \<noteq> take CALIBRATE_BUF_SIZE golden then ret (- EREMOTEIO, test)
      else sfc_check_reads n soc golden test) }"

definition FREAD_TPASS :: "nat \<Rightarrow> u32" where
  "FREAD_TPASS i = of_nat (i div 2) OR (if i mod 2 = 1 then 0 else 8)"

definition fread_timing :: "u32 \<Rightarrow> nat \<Rightarrow> sfc_data \<Rightarrow> sfc_data" where
  "fread_timing hdiv i ct =
     (let shift = unat (push_bit 2 (hdiv - 1));
          m = NOT (push_bit shift (0xf :: u32))
      in ct\<lparr>sf_fread_timing_val := (sf_fread_timing_val ct AND m) OR push_bit shift (FREAD_TPASS i)\<rparr>)"

definition sfc_set_timing :: "'s soc \<Rightarrow> u32 \<Rightarrow> nat \<Rightarrow> ('s sfc_st, int) state" where
  "sfc_set_timing soc hdiv i = do {
     _ \<leftarrow> set_ct (fread_timing hdiv i);
     with_ct (\<lambda>ct. sfc_writel soc (sf_fread_timing_reg ct) (sf_fread_timing_val ct)) }"

text \<open>The search for three passes in a row: \<open>Inr\<close> is the middle one, if there was one.\<close>

function sfc_calibrate_loop ::
  "'s soc \<Rightarrow> u32 \<Rightarrow> u8 list \<Rightarrow> u8 list \<Rightarrow> nat \<Rightarrow> nat \<Rightarrow> ('s sfc_st, (int + nat option) \<times> u8 list) state" where
  "sfc_calibrate_loop soc hdiv golden test i pass_count =
     (if \<not> i < 12 then ret (Inr None, test)
      else do {
        rc \<leftarrow> sfc_set_timing soc hdiv i;
        (if rc < 0 then ret (Inl rc, test)
         else do {
           r \<leftarrow> sfc_check_reads 10 soc golden test;
           (if fst r \<noteq> 0 \<and> fst r \<noteq> - EREMOTEIO then ret (Inl (fst r), snd r)
            else if fst r = 0 \<and> pass_count + 1 = 3 then ret (Inr (Some (i - 1)), snd r)
            else sfc_calibrate_loop soc hdiv golden (snd r) (i + 1) (if fst r = 0 then pass_count + 1 else 0)) }) })"
  by pat_completeness auto
termination by (relation "measure (\<lambda>(soc, hdiv, golden, test, i, c). 12 - i)") auto

declare sfc_calibrate_loop.simps [simp del]

definition sfc_calibrate_reads ::
  "'s soc \<Rightarrow> u32 \<Rightarrow> u8 list \<Rightarrow> u8 list \<Rightarrow> ('s sfc_st, int \<times> u8 list) state" where
  "sfc_calibrate_reads soc hdiv golden test = do {
     r \<leftarrow> sfc_calibrate_loop soc hdiv golden test 0 0;
     (case fst r of
        Inl rc \<Rightarrow> ret (rc, snd r)
      | Inr None \<Rightarrow> ret (- EREMOTEIO, snd r)
      | Inr (Some good_pass) \<Rightarrow> do {
          rc \<leftarrow> sfc_set_timing soc hdiv good_pass;
          ret (if rc < 0 then rc else 0, snd r) }) }"

definition ast_calib_data_usable :: "u8 list \<Rightarrow> nat \<Rightarrow> bool" where
  "ast_calib_data_usable buf sz =
     (64 \<le> length (filter (\<lambda>i. let w = le_word (buf ! (4 * i)) (buf ! (4 * i + 1)) (buf ! (4 * i + 2)) (buf ! (4 * i + 3))
                             in w \<noteq> 0 \<and> w \<noteq> 0xffffffff) [0..<sz div 4]))"

text \<open>The dividers 5 to 1, with the best one so far.\<close>

fun sfc_optimize_loop ::
  "'s soc \<Rightarrow> u32 \<Rightarrow> u8 list \<Rightarrow> u8 list \<Rightarrow> nat \<Rightarrow> nat option \<Rightarrow> ('s sfc_st, int + nat option) state" where
  "sfc_optimize_loop soc max_freq golden test 0 best = ret (Inr best)"
| "sfc_optimize_loop soc max_freq golden test (Suc k) best = do {
     f \<leftarrow> gets sx_ast_ahb_freq;
     (if f div of_nat (Suc k) \<ge> max_freq then sfc_optimize_loop soc max_freq golden test k best
      else do {
        rc \<leftarrow> with_ct (\<lambda>ct. sfc_writel soc (sf_ctl_reg ct) (sf_ctl_read_val ct OR push_bit 8 (ast_ct_hclk_divs ! k)));
        (if rc < 0 then ret (Inl rc)
         else do {
           r \<leftarrow> sfc_calibrate_reads soc (of_nat (Suc k)) golden test;
           (if fst r \<noteq> 0 \<and> fst r \<noteq> - EREMOTEIO then ret (Inl (fst r))
            else sfc_optimize_loop soc max_freq golden (snd r) k (if fst r = 0 then Some (Suc k) else best)) }) }) }"

text \<open>The buffer of \<open>malloc\<close> is a parameter: it is not initialised.\<close>

definition sfc_optimize_reads :: "u8 list \<Rightarrow> 's soc \<Rightarrow> u32 \<Rightarrow> ('s sfc_st, int) state" where
  "sfc_optimize_reads junk soc max_freq = with_ct (\<lambda>ct0.
     let test = take CALIBRATE_BUF_SIZE junk;
         golden0 = drop CALIBRATE_BUF_SIZE junk;
         write_read_val = with_ct (\<lambda>ct. sfc_writel soc (sf_ctl_reg ct) (sf_ctl_read_val ct))
     in do {
       _ \<leftarrow> set_ct (\<lambda>ct. ct\<lparr>sf_ctl_read_val := (sf_ctl_read_val ct AND 0x2000) OR push_bit 16 0x03\<rparr>);
       _ \<leftarrow> write_read_val;
       r \<leftarrow> sfc_flash_read soc 0 CALIBRATE_BUF_SIZE;
       (if read_rc r \<noteq> 0 then ret (read_rc r)
        else do {
          let golden = read_buf golden0 r;
          _ \<leftarrow> set_ct (\<lambda>ct. ct\<lparr>sf_ctl_read_val := sf_ctl_read_val ct0 AND 0xfffff0ff\<rparr>);
          (if \<not> ast_calib_data_usable golden CALIBRATE_BUF_SIZE then write_read_val
           else do {
             b \<leftarrow> sfc_optimize_loop soc max_freq golden test 5 None;
             (case b of
                Inl rc \<Rightarrow> ret rc
              | Inr best \<Rightarrow> do {
                  _ \<leftarrow> (case best of
                      None \<Rightarrow> ret ()
                    | Some d \<Rightarrow> set_ct (\<lambda>ct. ct\<lparr>sf_ctl_read_val :=
                        sf_ctl_read_val ct OR push_bit 8 (ast_ct_hclk_divs ! (d - 1))\<rparr>));
                  write_read_val }) }) }) })"

definition sfc_get_hclk :: "u32 \<Rightarrow> u32 \<Rightarrow> u32 \<Rightarrow> int \<times> u32" where
  "sfc_get_hclk freq ctl_val max_freq =
     (if \<not> freq div 4 \<ge> max_freq then (4, ctl_val OR push_bit 8 (ast_ct_hclk_divs ! 3))
      else if \<not> freq div 5 \<ge> max_freq then (5, ctl_val OR push_bit 8 (ast_ct_hclk_divs ! 4))
      else (0, ctl_val))"

section \<open>Tuning of known chips\<close>

text \<open>The fields of a control register value.\<close>

definition ctl_word :: "u32 \<Rightarrow> u32 \<Rightarrow> u32 \<Rightarrow> u32 \<Rightarrow> u32 \<Rightarrow> u32 \<Rightarrow> u32" where
  "ctl_word io ce cmd hclk dummy mode =
     push_bit 28 io OR push_bit 24 ce OR push_bit 16 cmd OR push_bit 8 hclk OR push_bit 6 dummy OR mode"

definition sfc_write_read_val :: "'s soc \<Rightarrow> ('s sfc_st, int) state" where
  "sfc_write_read_val soc = with_ct (\<lambda>ct. sfc_writel soc (sf_ctl_reg ct) (sf_ctl_read_val ct))"

text \<open>
  The last steps the chips share: the read mode is set and calibrated, then the mode of the
  other commands, whose clock is chosen last. \<open>keep\<close> is the value whose 4-byte mode bit the
  command mode keeps.
\<close>

definition sfc_tune ::
  "u8 list \<Rightarrow> 's soc \<Rightarrow> u32 \<Rightarrow> u32 \<Rightarrow> (sfc_data \<Rightarrow> u32) \<Rightarrow> u32 \<Rightarrow> u32 \<Rightarrow> ('s sfc_st, int) state" where
  "sfc_tune junk soc read_word read_freq keep cmd_word cmd_freq = do {
     _ \<leftarrow> set_ct (\<lambda>ct. ct\<lparr>sf_ctl_read_val := (sf_ctl_read_val ct AND 0x2000) OR read_word\<rparr>);
     nz_then (sfc_optimize_reads junk soc read_freq)
       (do {
         freq \<leftarrow> gets sx_ast_ahb_freq;
         _ \<leftarrow> set_ct (\<lambda>ct. ct\<lparr>sf_ctl_val := snd (sfc_get_hclk freq ((keep ct AND 0x2000) OR cmd_word) cmd_freq)\<rparr>);
         sfc_write_read_val soc }) }"

definition sfc_setup_macronix :: "u8 list \<Rightarrow> 's soc \<Rightarrow> flash_info \<Rightarrow> ('s sfc_st, int) act" where
  "sfc_setup_macronix junk soc info =
     act_val (act_run (sfc_cmd_rd soc CMD_RDSR None 1)) (\<lambda>sr.
     act_val (act_run (sfc_cmd_rd soc CMD_RDCR None 1)) (\<lambda>cr.
     act_nz (fl_wren (sfc_ops soc) (Some info))
     (act_nz (act_run (sfc_cmd_wr soc CMD_WRSR None [hd sr, (hd cr AND 0x3f) OR 0x80]))
     (act_nz (fl_sync_wait_idle (sfc_ops soc) (Some info))
     (act_run (sfc_tune junk soc (ctl_word 0x03 0x0d 0xbb 0x00 0x02 0x01) 104000000
        sf_ctl_val (ctl_word 0x00 0x0a 0x00 0x00 0x00 0x00) 106000000))))))"

definition sfc_setup_winbond :: "u8 list \<Rightarrow> 's soc \<Rightarrow> ('s sfc_st, int) act" where
  "sfc_setup_winbond junk soc =
     act_run (sfc_tune junk soc (ctl_word 0x02 0x0e 0x3b 0x00 0x01 0x01) 104000000
       sf_ctl_read_val (ctl_word 0x00 0x06 0x00 0x00 0x00 0x01) 106000000)"

definition sfc_micron_dumb :: "'s soc \<Rightarrow> ('s sfc_st, int) state" where
  "sfc_micron_dumb soc = do {
     _ \<leftarrow> set_ct (\<lambda>ct. let v = (sf_ctl_read_val ct AND 0x2000) OR ctl_word 0x00 0x00 0x03 0x06 0x00 0x00
                      in ct\<lparr>sf_ctl_val := v, sf_ctl_read_val := v\<rparr>);
     sfc_write_read_val soc }"

definition sfc_setup_micron :: "u8 list \<Rightarrow> 's soc \<Rightarrow> flash_info \<Rightarrow> ('s sfc_st, int) act" where
  "sfc_setup_micron junk soc info =
     act_bind (act_run (sfc_cmd_rd soc CMD_RDID None 6)) (\<lambda>r. case r of
       Inl _ \<Rightarrow> act_ret 0
     | Inr ext_id \<Rightarrow>
         if ucast (ext_id ! 0) \<noteq> (drop_bit 16 (fi_id info) AND 0xff) \<or>
            ucast (ext_id ! 1) \<noteq> (drop_bit 8 (fi_id info) AND 0xff) \<or>
            ucast (ext_id ! 2) \<noteq> (fi_id info AND 0xff)
         then act_ret 0
         else if ext_id ! 4 AND 0x40 = 0 then act_run (sfc_micron_dumb soc)
         else act_bind (act_run (sfc_cmd_rd soc CMD_MIC_RDVCONF None 1)) (\<lambda>r. case r of
             Inl _ \<Rightarrow> act_run (sfc_micron_dumb soc)
           | Inr vconf \<Rightarrow>
               act_bind (act_run (sfc_cmd_wr soc CMD_MIC_WRVCONF None [(hd vconf AND 0x0f) OR 0x80])) (\<lambda>rc.
                 if rc \<noteq> 0 then act_run (sfc_micron_dumb soc)
                 else act_nz (fl_sync_wait_idle (sfc_ops soc) (Some info))
                   (act_run (sfc_tune junk soc (ctl_word 0x03 0x0c 0xbb 0x00 0x02 0x01) 133000000
                     sf_ctl_read_val (ctl_word 0x00 0x06 0x00 0x00 0x00 0x00) 133000000)))))"

section \<open>The driver\<close>

definition sfc_init_device :: "'s soc \<Rightarrow> ('s sfc_st, bool) state" where
  "sfc_init_device soc = with_ct (\<lambda>ct. do {
     r \<leftarrow> sfc_readl soc (sf_ctl_reg ct);
     (case r of
        Inl _ \<Rightarrow> ret False
      | Inr v \<Rightarrow> do {
          _ \<leftarrow> set_ct (\<lambda>ct. ct\<lparr>sf_ctl_val := v\<rparr>);
          (if v = 0xffffffff then ret False
           else do {
             r \<leftarrow> sfc_readl soc (sf_type_reg ct);
             (case r of
                Inl _ \<Rightarrow> ret False
              | Inr ce_type \<Rightarrow> do {
                  rc \<leftarrow> sfc_writel soc (sf_type_reg ct) (ce_type OR push_bit 16 7);
                  (if rc < 0 then ret False
                   else do {
                     _ \<leftarrow> set_ct (\<lambda>ct. let v = ctl_word 0x00 0x00 0x00 0x04 0x00 0x00
                       in ct\<lparr>sf_ctl_val := v, sf_ctl_read_val := v, sf_fread_timing_val := 0\<rparr>);
                     rc \<leftarrow> sfc_write_read_val soc;
                     (if rc < 0 then ret False
                      else do {
                        rc \<leftarrow> with_ct (\<lambda>ct. sfc_writel soc (sf_fread_timing_reg ct) (sf_fread_timing_val ct));
                        (if rc < 0 then ret False
                         else do {
                           _ \<leftarrow> set_ct (\<lambda>ct. ct\<lparr>sf_mode_4b := False\<rparr>);
                           ret True }) }) }) }) }) }) })"

definition sfc_write_protect_save :: "'s soc \<Rightarrow> bool \<Rightarrow> ('s sfc_st, int + u32) state" where
  "sfc_write_protect_save soc enable = with_ct (\<lambda>ct.
     valr_then (sfc_readl soc (sf_type_reg ct)) (\<lambda>old_tsr.
       do { rc \<leftarrow> sfc_writel soc (sf_type_reg ct)
              (if enable then old_tsr OR sf_type_wp_mask ct else old_tsr AND NOT (sf_type_wp_mask ct));
            ret (if rc < 0 then Inl rc else Inr (old_tsr AND sf_type_wp_mask ct)) }))"

definition sfc_write_protect_restore :: "'s soc \<Rightarrow> u32 \<Rightarrow> ('s sfc_st, int) state" where
  "sfc_write_protect_restore soc save = with_ct (\<lambda>ct.
     val_then (sfc_readl soc (sf_type_reg ct)) (\<lambda>tsr.
       sfc_writel soc (sf_type_reg ct) ((tsr AND NOT (sf_type_wp_mask ct)) OR (save AND sf_type_wp_mask ct))))"

definition sfc_get_flash :: "('s sfc_st, int + soc_region) state" where
  "sfc_get_flash = with_ct (\<lambda>ct. ret (Inr (sf_flash ct)))"

definition sfc_match :: "(string \<times> u8) list" where
  "sfc_match = [(''aspeed,ast2500-fmc'', SFC_TYPE_FMC), (''aspeed,ast2500-spi'', SFC_TYPE_SMC)]"

definition ast2500_get_ahb_freq :: "'s clk_ops \<Rightarrow> ('s sfc_st, unit) state" where
  "ast2500_get_ahb_freq clk = do {
     f \<leftarrow> gets sx_ast_ahb_freq;
     (if f \<noteq> 0 then ret ()
      else do {
        rate \<leftarrow> on_soc (clk_get_rate clk clk_ahb);
        modify (\<lambda>s. s\<lparr>sx_ast_ahb_freq := of_int rate\<rparr>) }) }"

text \<open>The registers of a controller of either kind; the fields not named here start as zeroes.\<close>

definition sfc_new :: "soc_region \<Rightarrow> soc_region \<Rightarrow> u8 \<Rightarrow> sfc_data" where
  "sfc_new iomem flash kind = \<lparr>sf_iomem = iomem, sf_flash = flash, sf_type = kind,
     sf_type_reg = FMC_CE_TYPE,
     sf_type_wp_mask = (if kind = SFC_TYPE_SMC
       then (FMC_CE_TYPE_CE0_WP OR FMC_CE_TYPE_CE1_WP) OR FMC_CE_TYPE_CE2_WP
       else FMC_CE_TYPE_CE0_WP OR FMC_CE_TYPE_CE1_WP),
     sf_ctl_reg = (if kind = SFC_TYPE_SMC then SMC_CE0_CTRL else FMC_CE0_CTRL), sf_ctl_val = 0,
     sf_ctl_read_val = 0,
     sf_fread_timing_reg = (if kind = SFC_TYPE_SMC then SMC_TIMING else FMC_TIMING),
     sf_fread_timing_val = 0, sf_mode_4b = False\<rparr>"

definition sfc_driver_init :: "'s soc \<Rightarrow> 's clk_ops option \<Rightarrow> int \<Rightarrow> ('s sfc_st, int) state" where
  "sfc_driver_init soc clk node =
     (case rbind (soc_device_get_memory_index (soc_fdt soc) node 0) (\<lambda>iomem.
        rbind (soc_device_get_memory_index (soc_fdt soc) node 1) (\<lambda>flash.
        case soc_device_get_match_data (soc_fdt soc) sfc_match node of
          None \<Rightarrow> Inl (- EINVAL)
        | Some kind \<Rightarrow> (case clk of None \<Rightarrow> Inl (- ENODEV) | Some c \<Rightarrow> Inr (sfc_new iomem flash kind, c)))) of
        Inl rc \<Rightarrow> ret rc
      | Inr p \<Rightarrow> do {
          _ \<leftarrow> set_ct (\<lambda>_. fst p);
          _ \<leftarrow> ast2500_get_ahb_freq (snd p);
          ok \<leftarrow> sfc_init_device soc;
          ret (if ok then 0 else - EIO) })"

definition sfc_driver_destroy :: "'s soc \<Rightarrow> ('s sfc_st, unit) state" where
  "sfc_driver_destroy soc = with_ct (\<lambda>ct. do {
     rc \<leftarrow> sfc_write_read_val soc;
     (if rc < 0 \<or> sf_type ct \<noteq> SFC_TYPE_SMC then ret ()
      else do {
        r \<leftarrow> sfc_readl soc SMC_CONF;
        (case r of
           Inl _ \<Rightarrow> ret ()
         | Inr reg \<Rightarrow>
             if reg \<noteq> 0xffffffff then do { _ \<leftarrow> sfc_writel soc SMC_CONF (reg AND NOT 1); ret () }
             else ret ()) }) })"

section \<open>Properties\<close>

lemma protect_bits:
  "(x AND NOT m) OR (x AND m) = (x :: u32)" "((x OR m) AND NOT m) OR (x AND m) = x"
  by (rule bit_word_eqI; auto simp: bit_simps)+

text \<open>
  Write protection is saved and restored exactly: \<open>sfc_write_protect_save\<close> sets or
  clears the protection bits of the controller and no others, and gives their old value;
  \<open>sfc_write_protect_restore\<close> with that value then leaves every register as before the save.
\<close>

theorem sfc_write_protect_roundtrip:
  assumes "soc_bus ops invar reg plain_eff soc" "invar (sx_soc s)"
    and "a = rg_start (sf_iomem (sx_ct s)) + sf_type_reg (sx_ct s)" "word_aligned a"
    and "m = sf_type_wp_mask (sx_ct s)" "r = run_state (sfc_write_protect_save soc enable) s"
  shows "\<exists>save. fst r = Inr save \<and>
    reg (sx_soc (snd r)) = (reg (sx_soc s))(a := if enable then reg (sx_soc s) a OR m else reg (sx_soc s) a AND NOT m) \<and>
    fst (run_state (sfc_write_protect_restore soc save) (snd r)) = 0 \<and>
    reg (sx_soc (snd (run_state (sfc_write_protect_restore soc save) (snd r)))) = reg (sx_soc s)"
proof -
  note b = soc_bus.soc_readl [OF assms(1)] soc_bus.soc_writel [OF assms(1)]
  show ?thesis
    using assms(2-6)
    by (cases enable; simp add: sfc_write_protect_save_def sfc_write_protect_restore_def sfc_readl_def
        sfc_writel_def b plain_eff_def protect_bits)
qed

theorem sfc_write_protect_roundtrip_witness:
  "fst (run_state (sfc_write_protect_save (p2a_soc 0 example_fdt (regfile plain_eff)) True)
     \<lparr>sx_soc = p2a_start (\<lambda>_. 0x2002a), sx_ct = sfc_new \<lparr>rg_start = 0x1e620000, rg_length = 0xc4\<rparr>
       \<lparr>rg_start = 0x20000000, rg_length = 0x10000000\<rparr> SFC_TYPE_FMC, sx_ast_ahb_freq = 0\<rparr>) \<noteq> Inl (- EIO)"
  using sfc_write_protect_roundtrip [OF p2a_soc.soc_bus_axioms _ refl _ refl refl,
      of "\<lparr>sx_soc = p2a_start (\<lambda>_. 0x2002a), sx_ct = sfc_new \<lparr>rg_start = 0x1e620000, rg_length = 0xc4\<rparr>
       \<lparr>rg_start = 0x20000000, rg_length = 0x10000000\<rparr> SFC_TYPE_FMC, sx_ast_ahb_freq = 0\<rparr>" 0 example_fdt True]
  by (auto simp: sfc_new_def sfc_regs)

end
