(* ===== verification/SpiNor.thy ===== *)
theory SpiNor
  imports Sfc
begin

text \<open>
  An SPI NOR flash of 16 MiB behind a flash controller, as their data sheets document them: the
  control register moves the chip select, the window clocks every byte through while the chip
  is selected in user mode and shows the memory in read mode, and the chip executes a command
  when it is released. The driver of \<open>Sfc\<close> over this device meets the contract \<open>nor_flash\<close>.
\<close>

section \<open>The chip\<close>

text \<open>
  \<open>sp_in\<close> are the bytes the chip has received since it was selected, \<open>sp_out\<close> how many it has
  sent. An operation is in progress for \<open>sp_delay\<close> status reads, then the write enable latch is
  cleared. Every multi-byte program stays in its page, wrapping around at its end.
\<close>

record spi_dev =
  sp_regs :: "u32 \<Rightarrow> u32"
  sp_in :: "u8 list"
  sp_out :: nat
  sp_mem :: nor
  sp_wel :: bool
  sp_busy :: nat
  sp_delay :: nat

definition SPI_SIZE :: nat where "SPI_SIZE = 0x1000000"

definition spi_ident :: "u8 list" where "spi_ident = [0xef, 0x40, 0x18]"

definition spi_addr :: "u8 \<Rightarrow> u8 \<Rightarrow> u8 \<Rightarrow> nat" where
  "spi_addr a2 a1 a0 = (unat a2 * 0x100 + unat a1) * 0x100 + unat a0"

fun spi_program :: "nor \<Rightarrow> nat \<Rightarrow> u8 list \<Rightarrow> nor" where
  "spi_program m a [] = m"
| "spi_program m a (b # bs) = spi_program (m(a := m a AND b)) (if (a + 1) mod 0x100 = 0 then a + 1 - 0x100 else a + 1) bs"

definition spi_status :: "spi_dev \<Rightarrow> u8" where
  "spi_status d = (if sp_busy d > 0 then STAT_WIP else 0) OR (if sp_wel d then STAT_WEN else 0)"

text \<open>The next byte the chip sends.\<close>

definition spi_answer :: "spi_dev \<Rightarrow> u8" where
  "spi_answer d = (case sp_in d of
       [] \<Rightarrow> 0xff
     | cmd # args \<Rightarrow>
         if cmd = CMD_RDSR then spi_status d
         else if sp_busy d > 0 then 0xff
         else if cmd = CMD_MIC_RDFLST then 0x80
         else if cmd = CMD_RDID then (if sp_out d < 3 then spi_ident ! sp_out d else 0)
         else if cmd = CMD_READ then (case args of
             [a2, a1, a0] \<Rightarrow> sp_mem d ((spi_addr a2 a1 a0 + sp_out d) mod SPI_SIZE)
           | _ \<Rightarrow> 0xff)
         else 0xff)"

definition spi_start :: "nor \<Rightarrow> spi_dev \<Rightarrow> spi_dev" where
  "spi_start m d = d\<lparr>sp_mem := m, sp_busy := sp_delay d, sp_wel := 0 < sp_delay d\<rparr>"

text \<open>What the chip does with what it has received when it is released.\<close>

definition spi_execute :: "spi_dev \<Rightarrow> spi_dev" where
  "spi_execute d = (case sp_in d of
       [] \<Rightarrow> d
     | cmd # args \<Rightarrow>
         if cmd = CMD_RDSR
         then (if sp_busy d = 1 then d\<lparr>sp_busy := 0, sp_wel := False\<rparr> else d\<lparr>sp_busy := sp_busy d - 1\<rparr>)
         else if sp_busy d > 0 then d
         else if cmd = CMD_WREN then d\<lparr>sp_wel := True\<rparr>
         else if \<not> sp_wel d then d
         else case args of
             [] \<Rightarrow> (if cmd = CMD_CE \<or> cmd = CMD_MIC_BULK_ERASE
               then spi_start (nor_erase (sp_mem d) 0 SPI_SIZE) d else d)
           | a2 # a1 # a0 # data \<Rightarrow>
               if cmd = CMD_PP \<and> data \<noteq> []
               then spi_start (spi_program (sp_mem d) (spi_addr a2 a1 a0) data) d
               else (case nor_block cmd of
                   None \<Rightarrow> d
                 | Some k \<Rightarrow> if data = []
                     then spi_start (nor_erase (sp_mem d) (spi_addr a2 a1 a0 div k * k) k) d else d)
           | _ \<Rightarrow> d)"

section \<open>The controller\<close>

definition spi_mode :: "u32 \<Rightarrow> nat" where
  "spi_mode v = unat (v AND 7)"

abbreviation spi_selected :: "spi_dev \<Rightarrow> bool" where
  "spi_selected d \<equiv> spi_mode (sp_regs d 0x10) = 3"

definition spi_control :: "u32 \<Rightarrow> spi_dev \<Rightarrow> spi_dev" where
  "spi_control v d =
     (let d1 = (if spi_selected d \<and> spi_mode v \<noteq> 3 then spi_execute d else d);
          d2 = (if \<not> spi_selected d \<and> spi_mode v = 3 then d1\<lparr>sp_in := [], sp_out := 0\<rparr> else d1)
      in d2\<lparr>sp_regs := (sp_regs d2)(0x10 := v)\<rparr>)"

definition spi_reg_store :: "u32 \<Rightarrow> u32 \<Rightarrow> spi_dev \<Rightarrow> spi_dev" where
  "spi_reg_store off v d = (if off = 0x10 then spi_control v d else d\<lparr>sp_regs := (sp_regs d)(off := v)\<rparr>)"

definition spi_window :: "u32 \<Rightarrow> u32 set" where
  "spi_window fl = {a. unat (a - fl) < SPI_SIZE}"

definition spi_ld8 :: "u32 \<Rightarrow> u32 \<Rightarrow> u32 \<Rightarrow> (spi_dev, u8) state" where
  "spi_ld8 io fl a = do {
     d \<leftarrow> State_Monad.get;
     (if a \<notin> spi_window fl then ret (byte_of (unat (a AND 3)) (sp_regs d ((a AND NOT 3) - io)))
      else if spi_selected d then do {
        _ \<leftarrow> modify (\<lambda>d. d\<lparr>sp_out := Suc (sp_out d)\<rparr>);
        ret (spi_answer d) }
      else if spi_mode (sp_regs d 0x10) \<noteq> 0 \<or> sp_busy d > 0 then ret 0xff
      else ret (sp_mem d (unat (a - fl)))) }"

definition spi_st8 :: "u32 \<Rightarrow> u32 \<Rightarrow> u32 \<Rightarrow> u8 \<Rightarrow> (spi_dev, unit) state" where
  "spi_st8 io fl a b = modify (\<lambda>d.
     if a \<notin> spi_window fl then
       spi_reg_store ((a AND NOT 3) - io)
         ((sp_regs d ((a AND NOT 3) - io) AND NOT (push_bit (8 * unat (a AND 3)) 0xff))
          OR push_bit (8 * unat (a AND 3)) (ucast b)) d
     else if spi_selected d then d\<lparr>sp_in := sp_in d @ [b]\<rparr> else d)"

definition spi_target :: "u32 \<Rightarrow> u32 \<Rightarrow> spi_dev target" where
  "spi_target io fl = \<lparr>tgt_ld8 = spi_ld8 io fl, tgt_st8 = spi_st8 io fl,
     tgt_ld32 = (\<lambda>a. if a \<notin> spi_window fl then gets (\<lambda>d. sp_regs d (a - io))
        else do {
          b0 \<leftarrow> spi_ld8 io fl a; b1 \<leftarrow> spi_ld8 io fl (a + 1); b2 \<leftarrow> spi_ld8 io fl (a + 2);
          b3 \<leftarrow> spi_ld8 io fl (a + 3); ret (le_word b0 b1 b2 b3) }),
     tgt_st32 = (\<lambda>a v. if a \<notin> spi_window fl then modify (spi_reg_store (a - io) v)
        else do {
          _ \<leftarrow> spi_st8 io fl a (byte_of 0 v); _ \<leftarrow> spi_st8 io fl (a + 1) (byte_of 1 v);
          _ \<leftarrow> spi_st8 io fl (a + 2) (byte_of 2 v); spi_st8 io fl (a + 3) (byte_of 3 v) })\<rparr>"

interpretation spi_bytes: byte_target "spi_target io fl" "spi_window fl"
  by unfold_locales (simp_all add: spi_target_def le_bytes_def Let_def eval_nat_numeral)

lemma spi_reg_ld32 [simp]:
  "a \<notin> spi_window fl \<Longrightarrow> run_state (tgt_ld32 (spi_target io fl) a) d = (sp_regs d (a - io), d)"
  by (simp add: spi_target_def)

lemma spi_reg_st32 [simp]:
  "a \<notin> spi_window fl \<Longrightarrow> run_state (tgt_st32 (spi_target io fl) a v) d = ((), spi_reg_store (a - io) v d)"
  by (simp add: spi_target_def)

lemma spi_stores:
  assumes "set xs \<subseteq> spi_window fl" "length xs = length bs" "spi_selected d"
  shows "run_state (tgt_stores (spi_target io fl) (zip xs bs)) d = ((), d\<lparr>sp_in := sp_in d @ bs\<rparr>)"
  using assms
proof (induction xs arbitrary: bs d)
  case (Cons x xs)
  then obtain b bs' where "bs = b # bs'" by (cases bs) simp_all
  with Cons show ?case by (simp add: spi_target_def spi_st8_def)
qed simp

lemma spi_loads:
  assumes "set xs \<subseteq> spi_window fl" "spi_mode (sp_regs d 0x10) = 0" "sp_busy d = 0"
  shows "run_state (tgt_loads (spi_target io fl) xs) d = (map (\<lambda>a. sp_mem d (unat (a - fl))) xs, d)"
  using assms by (induction xs) (simp_all add: spi_target_def spi_ld8_def)

lemma spi_answers:
  assumes "{a, a + 1, a + 2, a + 3} \<subseteq> spi_window fl" "spi_selected d"
  shows "le_bytes (fst (run_state (tgt_ld32 (spi_target io fl) a) d)) =
      map (\<lambda>i. spi_answer (d\<lparr>sp_out := sp_out d + i\<rparr>)) [0..<4]"
    and "snd (run_state (tgt_ld32 (spi_target io fl) a) d) = d\<lparr>sp_out := sp_out d + 4\<rparr>"
  using assms by (simp_all add: spi_target_def spi_ld8_def le_bytes_def upt_rec)

text \<open>A program that stays in its page is what the contract asks for.\<close>

lemma spi_program_page:
  "a mod 0x100 + length bs \<le> 0x100 \<Longrightarrow> spi_program m a bs = nor_program m a bs"
proof (induction bs arbitrary: m a)
  case (Cons b bs)
  have step: "nor_program m a (b # bs) = nor_program (m(a := m a AND b)) (a + 1) bs"
    by (auto simp: nor_program_def fun_eq_iff nth_Cons')
  show ?case
  proof (cases "bs = []")
    case False
    then have "0 < length bs" by simp
    moreover have "a mod 0x100 + (length bs + 1) \<le> 0x100" using Cons.prems by simp
    ultimately have "a mod 0x100 + 1 < 0x100" by linarith
    then have "(a + 1) mod 0x100 = a mod 0x100 + 1" by (simp add: mod_Suc)
    with Cons show ?thesis unfolding step by (simp add: fun_upd_def)
  qed (use step in \<open>simp add: fun_upd_def\<close>)
qed simp

lemma unat_byte_of: "unat (byte_of i w) = unat w div 2 ^ (8 * i) mod 0x100"
proof -
  have "unat (drop_bit (8 * i) w) = unat w div 2 ^ (8 * i)"
    by (simp add: unat_drop_bit_eq) (simp add: drop_bit_eq_div)
  then show ?thesis by (simp add: byte_of_def unsigned_ucast_eq take_bit_eq_mod)
qed

lemma spi_addr_bytes:
  assumes "unat a < SPI_SIZE"
  shows "spi_addr (byte_of 2 a) (byte_of 1 a) (byte_of 0 a) = unat a"
proof -
  let ?x = "unat a"
  have "?x div 0x10000 < 0x100" using assms by (simp add: SPI_SIZE_def)
  then have "?x div 0x10000 mod 0x100 = ?x div 0x10000" by simp
  moreover have "?x div 0x100 div 0x100 = ?x div 0x10000" by (simp add: div_mult2_eq [symmetric])
  moreover have "?x div 0x10000 * 0x100 + ?x div 0x100 mod 0x100 = ?x div 0x100"
    using div_mult_mod_eq [of "?x div 0x100" "0x100"] calculation(2) by simp
  ultimately show ?thesis
    using div_mult_mod_eq [of ?x "0x100"] by (simp add: spi_addr_def unat_byte_of)
qed

section \<open>The driver over the device\<close>

lemma spi_mode_or [simp]:
  "spi_mode v = 0 \<Longrightarrow> spi_mode (v OR 7) = 7" "spi_mode v = 0 \<Longrightarrow> spi_mode (v OR 3) = 3"
  by (simp_all add: spi_mode_def bit.conj_disj_distrib2 unat_eq_0)

lemma window_addrs: "unat a + l \<le> SPI_SIZE \<Longrightarrow> set (span_addrs (fl + a) l) \<subseteq> spi_window fl"
proof -
  assume h: "unat a + l \<le> SPI_SIZE"
  have "unat (a + of_nat i) < SPI_SIZE" if "i < l" for i
    using h that unat_add_of_nat_le [of a i] by simp
  then show ?thesis by (auto simp: span_addrs_def spi_window_def add.assoc)
qed

locale spi_sfc = soc_dev ops invar "spi_target io fl" bus soc + ahb_bulk ops invar "spi_target io fl" bus span
  for ops :: "'s ahb_ops" and invar and io fl and bus and soc and span +
  assumes addrs: "word_aligned io" "word_aligned fl" "io \<notin> spi_window fl"
      "io + 0x10 \<notin> spi_window fl" "io + 0x94 \<notin> spi_window fl"
    and spans: "unat a mod 0x10000 + l \<le> 0x10000 \<Longrightarrow> unat a + l \<le> SPI_SIZE \<Longrightarrow> span (fl + a) l"
begin

definition cfg :: "sfc_data \<Rightarrow> bool" where
  "cfg ct \<longleftrightarrow> rg_start (sf_iomem ct) = io \<and> rg_start (sf_flash ct) = fl \<and> sf_ctl_reg ct = 0x10 \<and>
     spi_mode (sf_ctl_val ct) = 0 \<and> spi_mode (sf_ctl_read_val ct) = 0 \<and> \<not> sf_mode_4b ct"

abbreviation dev :: "'s sfc_st \<Rightarrow> spi_dev" where
  "dev s \<equiv> bus (sx_soc s)"

definition good :: "'s sfc_st \<Rightarrow> bool" where
  "good s \<longleftrightarrow> invar (sx_soc s) \<and> cfg (sx_ct s)"

lemma ctl_write [simp]:
  assumes "good s"
  shows "fst (run_state (sfc_writel soc 0x10 v) s) = 0"
    and "sx_ct (snd (run_state (sfc_writel soc 0x10 v) s)) = sx_ct s"
    and "dev (snd (run_state (sfc_writel soc 0x10 v) s)) = spi_control v (dev s)"
    and "good (snd (run_state (sfc_writel soc 0x10 v) s))"
  using assms addrs by (simp_all add: sfc_writel_def good_def cfg_def spi_reg_store_def)

lemma push [simp]:
  assumes "good s" "spi_selected (dev s)" "length bs \<le> 0x10000"
  shows "fst (run_state (sfc_flash_write soc 0 bs) s) = int (length bs)"
    and "sx_ct (snd (run_state (sfc_flash_write soc 0 bs) s)) = sx_ct s"
    and "dev (snd (run_state (sfc_flash_write soc 0 bs) s)) = (dev s)\<lparr>sp_in := sp_in (dev s) @ bs\<rparr>"
    and "good (snd (run_state (sfc_flash_write soc 0 bs) s))"
proof -
  have "span (fl + 0) (length bs)" by (rule spans) (use assms(3) in \<open>simp_all add: SPI_SIZE_def\<close>)
  moreover have "set (span_addrs (fl + 0) (length bs)) \<subseteq> spi_window fl"
    by (rule window_addrs) (use assms(3) in \<open>simp add: SPI_SIZE_def\<close>)
  ultimately show "fst (run_state (sfc_flash_write soc 0 bs) s) = int (length bs)"
    "sx_ct (snd (run_state (sfc_flash_write soc 0 bs) s)) = sx_ct s"
    "dev (snd (run_state (sfc_flash_write soc 0 bs) s)) = (dev s)\<lparr>sp_in := sp_in (dev s) @ bs\<rparr>"
    "good (snd (run_state (sfc_flash_write soc 0 bs) s))"
    using bulk_write [OF _ _ refl, of "sx_soc s" fl bs] assms(1,2)
    by (simp_all add: sfc_flash_write_def good_def cfg_def soc_write_def ahb_write_def dev_ops spi_stores)
qed

lemma c_int_small: "0 \<le> x \<Longrightarrow> x < 2 ^ 31 \<Longrightarrow> c_int x = x"
  by (simp add: c_int_def signed_of_int signed_take_bit_int_eq_self)

text \<open>After the start of a command the chip has received it and its address.\<close>

definition addr_bytes :: "u32 option \<Rightarrow> u8 list" where
  "addr_bytes addr = (case addr of None \<Rightarrow> [] | Some a \<Rightarrow> [byte_of 2 a, byte_of 1 a, byte_of 0 a])"

definition ok :: "'s sfc_st \<Rightarrow> bool" where
  "ok s \<longleftrightarrow> good s \<and> spi_mode (sp_regs (dev s) 0x10) = 0"

lemma start:
  assumes "ok s" "s1 = snd (run_state (sfc_start_cmd soc cmd) s)"
  shows "fst (run_state (sfc_start_cmd soc cmd) s) = 0" "good s1" "sx_ct s1 = sx_ct s"
    and "dev s1 = (dev s)\<lparr>sp_in := [cmd], sp_out := 0,
      sp_regs := (sp_regs (dev s))(0x10 := sf_ctl_val (sx_ct s) OR 3)\<rparr>"
proof -
  have g: "good s" "spi_mode (sp_regs (dev s) 0x10) = 0" using assms(1) by (simp_all add: ok_def)
  then have c: "sf_ctl_reg (sx_ct s) = 0x10" "spi_mode (sf_ctl_val (sx_ct s)) = 0"
    by (simp_all add: good_def cfg_def)
  show "fst (run_state (sfc_start_cmd soc cmd) s) = 0" "good s1" "sx_ct s1 = sx_ct s"
    "dev s1 = (dev s)\<lparr>sp_in := [cmd], sp_out := 0,
      sp_regs := (sp_regs (dev s))(0x10 := sf_ctl_val (sx_ct s) OR 3)\<rparr>"
    using g c assms(2)
    by (simp_all add: sfc_start_cmd_def spi_control_def c_int_small Let_def)
qed

lemmas start_run [simp] = start [OF _ refl]

lemma send:
  assumes "good s" "spi_selected (dev s)" "s1 = snd (run_state (sfc_addr_opt soc addr) s)"
  shows "fst (run_state (sfc_addr_opt soc addr) s) = 0" "good s1" "sx_ct s1 = sx_ct s"
    and "dev s1 = (dev s)\<lparr>sp_in := sp_in (dev s) @ addr_bytes addr\<rparr>"
proof -
  have "\<not> sf_mode_4b (sx_ct s)" using assms(1) by (simp add: good_def cfg_def)
  then show "fst (run_state (sfc_addr_opt soc addr) s) = 0" "good s1" "sx_ct s1 = sx_ct s"
    "dev s1 = (dev s)\<lparr>sp_in := sp_in (dev s) @ addr_bytes addr\<rparr>"
    using assms
    by (cases addr; simp add: sfc_addr_opt_def sfc_send_addr_def addr_bytes_def le_bytes_def c_int_small Let_def)+
qed

lemmas send_run [simp] = send [OF _ _ refl]

lemma regs_execute [simp]: "sp_regs (spi_execute d) = sp_regs d"
  by (simp add: spi_execute_def spi_start_def split: list.split option.split)

lemma finish:
  assumes "good s" "spi_selected (dev s)" "s1 = snd (run_state (sfc_end_cmd soc) s)"
  shows "ok s1" "sx_ct s1 = sx_ct s"
    and "dev s1 = (spi_execute (dev s))\<lparr>sp_regs := (sp_regs (dev s))(0x10 := sf_ctl_read_val (sx_ct s))\<rparr>"
proof -
  have c: "sf_ctl_reg (sx_ct s) = 0x10" "spi_mode (sf_ctl_val (sx_ct s)) = 0"
    "spi_mode (sf_ctl_read_val (sx_ct s)) = 0"
    using assms(1) by (simp_all add: good_def cfg_def)
  show "ok s1" "sx_ct s1 = sx_ct s"
    "dev s1 = (spi_execute (dev s))\<lparr>sp_regs := (sp_regs (dev s))(0x10 := sf_ctl_read_val (sx_ct s))\<rparr>"
    using assms c by (simp_all add: sfc_end_cmd_def ok_def spi_control_def Let_def)
qed

lemmas finish_run [simp] = finish [OF _ _ refl]

lemma word [simp]:
  assumes "good s" "spi_selected (dev s)"
  shows "\<exists>v. fst (run_state (with_ct (\<lambda>ct. on_soc (soc_readl soc (rg_start (sf_flash ct))))) s) = Inr v \<and>
      le_bytes v = map (\<lambda>i. spi_answer ((dev s)\<lparr>sp_out := sp_out (dev s) + i\<rparr>)) [0..<4]"
    and "sx_ct (snd (run_state (with_ct (\<lambda>ct. on_soc (soc_readl soc (rg_start (sf_flash ct))))) s)) = sx_ct s"
    and "dev (snd (run_state (with_ct (\<lambda>ct. on_soc (soc_readl soc (rg_start (sf_flash ct))))) s)) =
      (dev s)\<lparr>sp_out := sp_out (dev s) + 4\<rparr>"
    and "good (snd (run_state (with_ct (\<lambda>ct. on_soc (soc_readl soc (rg_start (sf_flash ct))))) s))"
proof -
  have fl: "rg_start (sf_flash (sx_ct s)) = fl" using assms(1) by (simp add: good_def cfg_def)
  have "span_addrs (fl + 0) 4 = [fl, fl + 1, fl + 2, fl + 3]" by (simp add: span_addrs_def upt_rec)
  moreover have "set (span_addrs (fl + 0) 4) \<subseteq> spi_window fl"
    by (rule window_addrs) (simp add: SPI_SIZE_def)
  ultimately have "{fl, fl + 1, fl + 2, fl + 3} \<subseteq> spi_window fl" by simp
  note a = spi_answers [OF this assms(2)]
  show "\<exists>v. fst (run_state (with_ct (\<lambda>ct. on_soc (soc_readl soc (rg_start (sf_flash ct))))) s) = Inr v \<and>
      le_bytes v = map (\<lambda>i. spi_answer ((dev s)\<lparr>sp_out := sp_out (dev s) + i\<rparr>)) [0..<4]"
    using a assms(1) addrs fl by (simp add: good_def)
  show "sx_ct (snd (run_state (with_ct (\<lambda>ct. on_soc (soc_readl soc (rg_start (sf_flash ct))))) s)) = sx_ct s"
    "dev (snd (run_state (with_ct (\<lambda>ct. on_soc (soc_readl soc (rg_start (sf_flash ct))))) s)) =
      (dev s)\<lparr>sp_out := sp_out (dev s) + 4\<rparr>"
    "good (snd (run_state (with_ct (\<lambda>ct. on_soc (soc_readl soc (rg_start (sf_flash ct))))) s))"
    using a assms(1) addrs fl by (simp_all add: good_def)
qed

lemma rd_words:
  assumes "good s" "spi_selected (dev s)" "s1 = snd (run_state (sfc_rd_words soc l) s)"
  shows "fst (run_state (sfc_rd_words soc l) s) = Inr (map (\<lambda>i. spi_answer ((dev s)\<lparr>sp_out := sp_out (dev s) + i\<rparr>)) [0..<l])
    \<and> good s1 \<and> sx_ct s1 = sx_ct s \<and> (\<exists>k. dev s1 = (dev s)\<lparr>sp_out := k\<rparr>)"
  using assms
proof (induction l arbitrary: s s1 rule: less_induct)
  case (less l)
  show ?case
  proof (cases "l = 0")
    case True
    have "\<exists>k. dev s = (dev s)\<lparr>sp_out := k\<rparr>" by (rule exI [of _ "sp_out (dev s)"]) simp
    then show ?thesis using less.prems True by (simp add: sfc_rd_words.simps)
  next
    case False
    let ?m = "with_ct (\<lambda>ct. on_soc (soc_readl soc (rg_start (sf_flash ct))))"
    let ?s2 = "snd (run_state ?m s)"
    obtain v where v: "fst (run_state ?m s) = Inr v"
      "le_bytes v = map (\<lambda>i. spi_answer ((dev s)\<lparr>sp_out := sp_out (dev s) + i\<rparr>)) [0..<4]"
      using word(1) [OF less.prems(1,2)] by blast
    note w = word(2-4) [OF less.prems(1,2)]
    have sel: "spi_selected (dev ?s2)" using w(2) less.prems(2) by simp
    note IH = less.IH [of "l - 4", OF _ w(3) sel refl]
    have split: "take l (map f [0..<4]) @ map (\<lambda>i. f (4 + i)) [0..<l - 4] = map f [0..<l]" for f :: "nat \<Rightarrow> u8"
      by (rule nth_equalityI) (auto simp: nth_append min_def)
    show ?thesis
      using IH less.prems(3) w v split [of "\<lambda>i. spi_answer ((dev s)\<lparr>sp_out := sp_out (dev s) + i\<rparr>)"] False
      by (simp add: sfc_rd_words.simps [of soc l] add.assoc)
  qed
qed

text \<open>What the chip has received when it is released.\<close>

lemma spi_norm:
  "d\<lparr>sp_out := k, sp_regs := r, sp_in := xs\<rparr> = d\<lparr>sp_in := xs, sp_out := k, sp_regs := r\<rparr>"
  by simp

definition sent :: "'s sfc_st \<Rightarrow> u8 list \<Rightarrow> nat \<Rightarrow> spi_dev" where
  "sent s xs k = (dev s)\<lparr>sp_in := xs, sp_out := k,
     sp_regs := (sp_regs (dev s))(0x10 := sf_ctl_val (sx_ct s) OR 3)\<rparr>"

lemma sent_simps [simp]:
  "sp_in (sent s xs k) = xs" "sp_out (sent s xs k) = k" "sp_mem (sent s xs k) = sp_mem (dev s)"
  "sp_busy (sent s xs k) = sp_busy (dev s)" "sp_wel (sent s xs k) = sp_wel (dev s)"
  "sp_delay (sent s xs k) = sp_delay (dev s)"
  by (simp_all add: sent_def)

lemma ok_ct: "ok s \<Longrightarrow> spi_mode (sf_ctl_val (sx_ct s)) = 0"
  by (simp add: ok_def good_def cfg_def)

lemma cmd_wr:
  assumes "ok s" "length bs \<le> 0x10000" "q = run_state (sfc_cmd_wr soc cmd addr bs) s"
  shows "fst q = 0" "ok (snd q)"
    and "\<exists>r. dev (snd q) = (spi_execute (sent s (cmd # addr_bytes addr @ bs) 0))\<lparr>sp_regs := r\<rparr>"
proof -
  note c = ok_ct [OF assms(1)]
  show "fst q = 0" "ok (snd q)"
    using assms c by (simp_all add: sfc_cmd_wr_def)
  have "dev (snd q) = (spi_execute (sent s (cmd # addr_bytes addr @ bs) 0))\<lparr>sp_regs :=
      ((sp_regs (dev s))(0x10 := sf_ctl_val (sx_ct s) OR 3))(0x10 := sf_ctl_read_val (sx_ct s))\<rparr>"
    using assms c by (simp add: sfc_cmd_wr_def sent_def spi_norm)
  then show "\<exists>r. dev (snd q) = (spi_execute (sent s (cmd # addr_bytes addr @ bs) 0))\<lparr>sp_regs := r\<rparr>"
    by blast
qed

lemma cmd_rd:
  assumes "ok s" "q = run_state (sfc_cmd_rd soc cmd addr l) s"
  shows "fst q = Inr (map (\<lambda>i. spi_answer (sent s (cmd # addr_bytes addr) i)) [0..<l])" "ok (snd q)"
    and "\<exists>k r. dev (snd q) = (spi_execute (sent s (cmd # addr_bytes addr) k))\<lparr>sp_regs := r\<rparr>"
    and "sx_ct (snd q) = sx_ct s"
proof -
  note c = ok_ct [OF assms(1)]
  let ?s1 = "snd (run_state (sfc_addr_opt soc addr) (snd (run_state (sfc_start_cmd soc cmd) s)))"
  have d: "dev ?s1 = sent s (cmd # addr_bytes addr) 0" "good ?s1" "sx_ct ?s1 = sx_ct s"
    using assms(1) c by (simp_all add: sent_def)
  have sel: "spi_selected (dev ?s1)" using c by (simp add: d(1)) (simp add: sent_def)
  have out: "(sent s xs 0)\<lparr>sp_out := k\<rparr> = sent s xs k" for xs k by (simp add: sent_def)
  let ?r = "run_state (sfc_rd_words soc l) ?s1"
  obtain k where r: "fst ?r = Inr (map (\<lambda>i. spi_answer (sent s (cmd # addr_bytes addr) i)) [0..<l])"
    "good (snd ?r)" "sx_ct (snd ?r) = sx_ct s" "dev (snd ?r) = sent s (cmd # addr_bytes addr) k"
    using rd_words [OF d(2) sel refl, of l] d(3) unfolding d(1) by (auto simp: out)
  have sel2: "spi_selected (dev (snd ?r))" using c by (simp add: r(4)) (simp add: sent_def)
  have q: "q = (fst ?r, snd (run_state (sfc_end_cmd soc) (snd ?r)))"
    using assms c by (simp add: sfc_cmd_rd_def)
  show "fst q = Inr (map (\<lambda>i. spi_answer (sent s (cmd # addr_bytes addr) i)) [0..<l])" "ok (snd q)"
    using r sel2 by (simp_all add: q)
  show "\<exists>k r. dev (snd q) = (spi_execute (sent s (cmd # addr_bytes addr) k))\<lparr>sp_regs := r\<rparr>"
    using r sel2 finish_run(3) [OF r(2) sel2] unfolding q r(4) by auto
  show "sx_ct (snd q) = sx_ct s" using r(3) finish_run(2) [OF r(2) sel2] by (simp add: q)
qed

lemma direct:
  assumes "ok s" "sp_busy (dev s) = 0" "unat a + l \<le> SPI_SIZE" "unat a mod 0x10000 + l \<le> 0x10000"
    and "q = run_state (sfc_direct_read soc a l) s"
  shows "fst q = Inr (nor_bytes (sp_mem (dev s)) (unat a) l) \<and> ok (snd q) \<and> dev (snd q) = dev s"
proof -
  have s: "invar (sx_soc s)" "rg_start (sf_flash (sx_ct s)) = fl" "spi_mode (sp_regs (dev s) 0x10) = 0"
    using assms(1) by (simp_all add: ok_def good_def cfg_def)
  have "unat (a + of_nat i) = unat a + i" if "i < l" for i
    using that assms(3) by (intro unat_add_of_nat) (simp add: SPI_SIZE_def)
  then have bytes: "map (\<lambda>b. sp_mem (dev s) (unat (b - fl))) (span_addrs (fl + a) l) =
      nor_bytes (sp_mem (dev s)) (unat a) l"
    by (intro nth_equalityI) (simp_all add: span_addrs_def add.assoc)
  note r = bulk_read [OF s(1) spans [OF assms(4,3)] refl] spi_loads [OF window_addrs [OF assms(3)] s(3) assms(2)]
  have ok: "ok (s\<lparr>sx_soc := t\<rparr>)" if "invar t" "bus t = dev s" for t
    using assms(1) that by (simp add: ok_def good_def)
  show ?thesis
    using r bytes ok [of "snd (run_state (ops_read ops (fl + a) l) (sx_soc s))"]
    by (simp add: assms(5) sfc_direct_read_def sfc_flash_read_def soc_read_def ahb_read_def dev_ops s(2))
qed

lemma nor_status:
  assumes h: "ok s" "r = run_state (sfc_cmd_rd soc CMD_RDSR None 1) s"
  shows "\<exists>st. fst r = Inr [st] \<and> (st AND STAT_WIP \<noteq> 0 \<longleftrightarrow> 0 < sp_busy (dev s)) \<and>
      (st AND STAT_WEN \<noteq> 0 \<longleftrightarrow> sp_wel (dev s)) \<and> ok (snd r) \<and> sp_mem (dev (snd r)) = sp_mem (dev s) \<and>
      (sp_busy (dev s) = 0 \<longrightarrow> sp_wel (dev (snd r)) = sp_wel (dev s)) \<and>
      sp_busy (dev (snd r)) = sp_busy (dev s) - 1"
proof -
  obtain k g where d: "dev (snd r) = (spi_execute (sent s [CMD_RDSR] k))\<lparr>sp_regs := g\<rparr>"
    using cmd_rd(3) [OF h] by (auto simp: addr_bytes_def)
  show ?thesis
    using cmd_rd(1,2) [OF h] d
    by (auto simp: addr_bytes_def spi_answer_def spi_status_def spi_execute_def STAT_WIP_def STAT_WEN_def)
qed

lemma nor_flags:
  assumes h: "ok s" "sp_busy (dev s) = 0" "s' = snd (run_state (sfc_cmd_rd soc CMD_MIC_RDFLST None 1) s)"
  shows "ok s' \<and> sp_mem (dev s') = sp_mem (dev s) \<and> sp_wel (dev s') = sp_wel (dev s) \<and> sp_busy (dev s') = 0"
proof -
  obtain k g where d: "dev s' = (spi_execute (sent s [CMD_MIC_RDFLST] k))\<lparr>sp_regs := g\<rparr>"
    using cmd_rd(3) [OF h(1) refl, of CMD_MIC_RDFLST None 1] h(3) by (auto simp: addr_bytes_def)
  show ?thesis
    using cmd_rd(2) [OF h(1) refl] h(2,3) d
    by (simp add: spi_execute_def flash_cmds)
qed

lemma nor_wren:
  assumes h: "ok s" "sp_busy (dev s) = 0" "q = run_state (sfc_cmd_wr soc CMD_WREN None []) s"
  shows "fst q = 0 \<and> ok (snd q) \<and> sp_mem (dev (snd q)) = sp_mem (dev s) \<and> sp_wel (dev (snd q)) \<and>
      sp_busy (dev (snd q)) = 0"
proof -
  obtain g where d: "dev (snd q) = (spi_execute (sent s [CMD_WREN] 0))\<lparr>sp_regs := g\<rparr>"
    using cmd_wr(3) [OF h(1) _ h(3)] by (auto simp: addr_bytes_def)
  show ?thesis
    using cmd_wr(1,2) [OF h(1) _ h(3)] h(2) d by (simp add: spi_execute_def flash_cmds)
qed

lemma nor_pp:
  assumes h: "ok s" "sp_busy (dev s) = 0" "sp_wel (dev s)" "bs \<noteq> []" "unat a mod 0x100 + length bs \<le> 0x100"
      "unat a + length bs \<le> SPI_SIZE" "q = run_state (sfc_cmd_wr soc CMD_PP (Some a) bs) s"
  shows "fst q = 0 \<and> ok (snd q) \<and> sp_mem (dev (snd q)) = nor_program (sp_mem (dev s)) (unat a) bs"
proof -
  have len: "length bs \<le> 0x10000" using h(5) by simp
  have "0 < length bs" using h(4) by simp
  then have a: "spi_addr (byte_of 2 a) (byte_of 1 a) (byte_of 0 a) = unat a"
    using h(6) by (intro spi_addr_bytes) linarith
  obtain g where d: "dev (snd q) = (spi_execute (sent s (CMD_PP # byte_of 2 a # byte_of 1 a # byte_of 0 a # bs) 0))\<lparr>sp_regs := g\<rparr>"
    using cmd_wr(3) [OF h(1) len h(7)] by (auto simp: addr_bytes_def)
  show ?thesis
    using cmd_wr(1,2) [OF h(1) len h(7)] h(2-4) d a spi_program_page [OF h(5)]
    by (simp add: spi_execute_def spi_start_def flash_cmds)
qed

lemma nor_erase_block:
  assumes h: "ok s" "sp_busy (dev s) = 0" "sp_wel (dev s)" "nor_block cmd = Some k" "unat a < SPI_SIZE"
      "q = run_state (sfc_cmd_wr soc cmd (Some a) []) s"
  shows "fst q = 0 \<and> ok (snd q) \<and> sp_mem (dev (snd q)) = nor_erase (sp_mem (dev s)) (unat a div k * k) k"
proof -
  note a = spi_addr_bytes [OF h(5)]
  obtain g where d: "dev (snd q) = (spi_execute (sent s [cmd, byte_of 2 a, byte_of 1 a, byte_of 0 a] 0))\<lparr>sp_regs := g\<rparr>"
    using cmd_wr(3) [OF h(1) _ h(6)] by (auto simp: addr_bytes_def)
  have "cmd \<noteq> CMD_RDSR" "cmd \<noteq> CMD_WREN" using h(4) by (auto simp: nor_block_def flash_cmds)
  then show ?thesis
    using cmd_wr(1,2) [OF h(1) _ h(6)] h(2-4) d a
    by (simp add: spi_execute_def spi_start_def)
qed

lemma nor: "nor_flash (sfc_ops soc) ok (\<lambda>s. sp_mem (dev s)) (\<lambda>s. sp_wel (dev s)) (\<lambda>s. sp_busy (dev s))
    SPI_SIZE (sfc_cmd_rd soc) (sfc_cmd_wr soc)"
proof
  fix s s' r q st a bs l k and cmd :: u8
  show "op_cmd_rd (sfc_ops soc) = Some (sfc_cmd_rd soc)" "op_cmd_wr (sfc_ops soc) = Some (sfc_cmd_wr soc)"
    "op_write (sfc_ops soc) = None" "op_erase (sfc_ops soc) = None" "SPI_SIZE \<le> 2 ^ 32"
    by (simp_all add: sfc_ops_def SPI_SIZE_def)
  show "\<exists>st. fst r = Inr [st] \<and> (st AND STAT_WIP \<noteq> 0 \<longleftrightarrow> 0 < sp_busy (dev s)) \<and>
      (st AND STAT_WEN \<noteq> 0 \<longleftrightarrow> sp_wel (dev s)) \<and> ok (snd r) \<and> sp_mem (dev (snd r)) = sp_mem (dev s) \<and>
      (sp_busy (dev s) = 0 \<longrightarrow> sp_wel (dev (snd r)) = sp_wel (dev s)) \<and>
      sp_busy (dev (snd r)) = sp_busy (dev s) - 1"
    if "ok s" "r = run_state (sfc_cmd_rd soc CMD_RDSR None 1) s"
    using that by (rule nor_status)
  show "ok s' \<and> sp_mem (dev s') = sp_mem (dev s) \<and> sp_wel (dev s') = sp_wel (dev s) \<and> sp_busy (dev s') = 0"
    if "ok s" "sp_busy (dev s) = 0" "s' = snd (run_state (sfc_cmd_rd soc CMD_MIC_RDFLST None 1) s)"
    using that by (rule nor_flags)
  show "fst q = 0 \<and> ok (snd q) \<and> sp_mem (dev (snd q)) = sp_mem (dev s) \<and> sp_wel (dev (snd q)) \<and>
      sp_busy (dev (snd q)) = 0"
    if "ok s" "sp_busy (dev s) = 0" "q = run_state (sfc_cmd_wr soc CMD_WREN None []) s"
    using that by (rule nor_wren)
  show "fst q = 0 \<and> ok (snd q) \<and> sp_mem (dev (snd q)) = nor_program (sp_mem (dev s)) (unat a) bs"
    if "ok s" "sp_busy (dev s) = 0" "sp_wel (dev s)" "bs \<noteq> []" "unat a mod 0x100 + length bs \<le> 0x100"
      "unat a + length bs \<le> SPI_SIZE" "q = run_state (sfc_cmd_wr soc CMD_PP (Some a) bs) s"
    using that by (rule nor_pp)
  show "fst q = 0 \<and> ok (snd q) \<and> sp_mem (dev (snd q)) = nor_erase (sp_mem (dev s)) (unat a div k * k) k"
    if "ok s" "sp_busy (dev s) = 0" "sp_wel (dev s)" "nor_block cmd = Some k" "unat a < SPI_SIZE"
      "q = run_state (sfc_cmd_wr soc cmd (Some a) []) s"
    using that by (rule nor_erase_block)
  show "fst r = Inr (nor_bytes (sp_mem (dev s)) (unat a) l) \<and> ok (snd r) \<and> sp_busy (dev (snd r)) = 0 \<and>
      sp_mem (dev (snd r)) = sp_mem (dev s)"
    if h: "ok s" "sp_busy (dev s) = 0" "unat a + l \<le> SPI_SIZE" "0 < l" "unat a mod 0x10000 + l \<le> 0x10000"
      "r = run_state (case op_direct_read (sfc_ops soc) of Some f \<Rightarrow> f a l
        | None \<Rightarrow> sfc_cmd_rd soc CMD_READ (Some a) l) s"
    using direct [OF h(1-3,5) refl] h(2,6) by (simp add: sfc_ops_def)
qed

text \<open>
  A chip that is read in full is taken for a failure: \<open>sfc_optimize_reads\<close> returns the number of
  bytes of its first read, and leaves the slowest read mode behind.
\<close>

lemma optimize:
  assumes "ok s" "sp_busy (dev s) = 0" "q = run_state (sfc_optimize_reads junk soc f) s"
  shows "fst q = 16384 \<and> ok (snd q) \<and> sp_mem (dev (snd q)) = sp_mem (dev s) \<and>
    sf_ctl_read_val (sx_ct (snd q)) = (sf_ctl_read_val (sx_ct s) AND 0x2000) OR 0x30000"
proof -
  let ?v = "(sf_ctl_read_val (sx_ct s) AND 0x2000) OR 0x30000"
  let ?s1 = "s\<lparr>sx_ct := (sx_ct s)\<lparr>sf_ctl_read_val := ?v\<rparr>\<rparr>"
  have m: "spi_mode ?v = 0"
    by (simp add: spi_mode_def bit.conj_disj_distrib2 and.assoc)
  have g: "good ?s1" using assms(1) m by (simp add: ok_def good_def cfg_def)
  have reg: "sf_ctl_reg (sx_ct s) = 0x10" using assms(1) by (simp add: ok_def good_def cfg_def)
  let ?s2 = "snd (run_state (sfc_writel soc 0x10 ?v) ?s1)"
  have s2: "sx_ct ?s2 = sx_ct ?s1" "good ?s2" "dev ?s2 = spi_control ?v (dev s)" using g by simp_all
  have d2: "sp_busy (dev ?s2) = 0" "spi_mode (sp_regs (dev ?s2) 0x10) = 0" "sp_mem (dev ?s2) = sp_mem (dev s)"
    using assms(1,2) m by (simp_all add: s2 ok_def spi_control_def Let_def)
  have ok2: "ok ?s2" using s2 d2 by (simp add: ok_def)
  let ?r = "run_state (sfc_direct_read soc 0 16384) ?s2"
  have r: "fst ?r = Inr (nor_bytes (sp_mem (dev ?s2)) 0 16384)" "ok (snd ?r)" "dev (snd ?r) = dev ?s2"
    using direct [OF ok2 d2(1) _ _ refl, of 0 16384] by (simp_all add: SPI_SIZE_def)
  have fr: "fst (run_state (sfc_flash_read soc 0 16384) ?s2) = Inr (nor_bytes (sp_mem (dev ?s2)) 0 16384)"
    "snd (run_state (sfc_flash_read soc 0 16384) ?s2) = snd ?r"
    "sx_ct (snd (run_state (sfc_flash_read soc 0 16384) ?s2)) = sx_ct ?s2"
    using r(1) by (auto simp: sfc_direct_read_def sfc_flash_read_def split: sum.splits if_splits)
  have c: "c_int 16384 = 16384" by (rule c_int_small) simp_all
  have x: "push_bit 16 (3 :: u32) = 0x30000" by simp
  show ?thesis
    using r(2,3) fr s2(1) d2(3) reg c x
    by (simp add: assms(3) sfc_optimize_reads_def CALIBRATE_BUF_SIZE_def read_rc_def Let_def)
qed

text \<open>
  The initialisation of the device leaves the controller in read mode, whatever it was in,
  unless the control register reads as all ones.
\<close>

lemma init:
  assumes "invar (sx_soc s)" "sx_ct s = sfc_new iomem flash kind" "rg_start iomem = io" "rg_start flash = fl"
    and "sp_regs (dev s) 0x10 \<noteq> 0xffffffff" "q = run_state (sfc_init_device soc) s"
  shows "fst q \<and> ok (snd q) \<and> sp_regs (dev (snd q)) 0 = sp_regs (dev s) 0 OR 0x70000 \<and>
    (\<not> spi_selected (dev s) \<longrightarrow> sp_busy (dev (snd q)) = sp_busy (dev s))"
proof -
  have c: "sf_ctl_reg (sx_ct s) = 0x10" "sf_type_reg (sx_ct s) = 0" "sf_fread_timing_reg (sx_ct s) = 0x94"
    "rg_start (sf_iomem (sx_ct s)) = io" "rg_start (sf_flash (sx_ct s)) = fl"
    using assms(2-4) by (simp_all add: sfc_new_def sfc_regs)
  have v: "ctl_word 0 0 0 4 0 0 = 0x400" "spi_mode 0x400 = 0" by (simp_all add: ctl_word_def spi_mode_def)
  show ?thesis
    using assms(1,5) c v addrs
    by (simp add: assms(6) sfc_init_device_def sfc_write_read_val_def sfc_readl_def sfc_writel_def spi_reg_store_def
        ok_def good_def cfg_def spi_control_def Let_def push_bit_eq_mult)
qed

end

section \<open>The chain behind the P2A bridge\<close>

text \<open>The firmware flash controller of the AST2500 and its first chip select.\<close>

abbreviation fmc_io :: u32 where "fmc_io \<equiv> 0x1e620000"
abbreviation fmc_win :: u32 where "fmc_win \<equiv> 0x20000000"
abbreviation fmc_dev :: "spi_dev target" where "fmc_dev \<equiv> spi_target fmc_io fmc_win"

interpretation p2a_fmc: p2a_bytes "p2a_mmio (spi_target io fl)" "spi_target io fl" ph_bus ph_rbar ph_open "spi_window fl"
  ..

interpretation fmc: spi_sfc "p2ab_ahb_ops (p2a_mmio fmc_dev) 0" p2a_ok fmc_io fmc_win "\<lambda>s. ph_bus (p2_hw s)"
    "p2a_soc rv dt fmc_dev" "p2a_fmc.span fmc_win"
proof (rule spi_sfc.intro)
  show "soc_dev (p2ab_ahb_ops (p2a_mmio fmc_dev) 0) p2a_ok fmc_dev (\<lambda>s. ph_bus (p2_hw s)) (p2a_soc rv dt fmc_dev)"
    by (rule soc_dev.intro [OF p2a_bridge.ahb_bridge_axioms])
      (simp add: soc_dev_axioms_def p2a_soc_def p2a_ahb_def)
  show "ahb_bulk (p2ab_ahb_ops (p2a_mmio fmc_dev) 0) p2a_ok fmc_dev (\<lambda>s. ph_bus (p2_hw s)) (p2a_fmc.span fmc_win)"
    by (rule p2a_fmc.bulk)
  show "spi_sfc_axioms fmc_io fmc_win (p2a_fmc.span fmc_win)"
  proof
    fix a :: u32 and l
    assume h: "unat a mod 0x10000 + l \<le> 0x10000" "unat a + l \<le> SPI_SIZE"
    have "unat (fmc_win + a) mod 0x10000 = unat a mod 0x10000"
    proof -
      have "unat (fmc_win + a) mod 0x10000 = (0x2000 * 0x10000 + unat a) mod 0x10000"
        by (simp add: unat_word_ariths mod_mod_cancel)
      also have "\<dots> = unat a mod 0x10000" by (rule mod_mult_self3)
      finally show ?thesis .
    qed
    with h show "p2a_fmc.span fmc_win (fmc_win + a) l"
      using window_addrs [OF h(2), of fmc_win] by (simp add: p2a_fmc.span_def p2a_span_def SPI_SIZE_def)
  qed (simp_all add: spi_window_def SPI_SIZE_def unat_sub_if_size word_size)
qed

lemmas fmc_nor = fmc.nor [where rv = rv and dt = dt for rv dt]

text \<open>A Winbond W25Q128 on the controller, and the moment after the driver is bound.\<close>

definition w25q128 :: flash_chip where
  "w25q128 = \<lparr>fc_info = flash_infos ! 4, fc_tsize = 0x1000000, fc_min_erase_mask = 0xfff, fc_mode_4b = False\<rparr>"

definition blank_chip :: "nat \<Rightarrow> nor \<Rightarrow> spi_dev" where
  "blank_chip delay m = \<lparr>sp_regs = (\<lambda>_. 0), sp_in = [], sp_out = 0, sp_mem = m, sp_wel = False,
     sp_busy = 0, sp_delay = delay\<rparr>"

definition fmc_regions :: "soc_region \<times> soc_region" where
  "fmc_regions = (\<lparr>rg_start = fmc_io, rg_length = 0xc4\<rparr>, \<lparr>rg_start = fmc_win, rg_length = 0x10000000\<rparr>)"

definition fmc_start :: "spi_dev \<Rightarrow> spi_dev p2a_hw p2ab sfc_st" where
  "fmc_start d = \<lparr>sx_soc = p2a_start d, sx_ct = sfc_new (fst fmc_regions) (snd fmc_regions) SFC_TYPE_FMC,
     sx_ast_ahb_freq = 0\<rparr>"

abbreviation fmc_chip :: "spi_dev p2a_hw p2ab sfc_st \<Rightarrow> spi_dev" where
  "fmc_chip s \<equiv> ph_bus (p2_hw (sx_soc s))"

abbreviation fmc_soc :: "u32 \<Rightarrow> fdt \<Rightarrow> spi_dev p2a_hw p2ab soc" where
  "fmc_soc rv dt \<equiv> p2a_soc rv dt fmc_dev"

interpretation fmc_flash: nor_flash "sfc_ops (fmc_soc rv dt)" fmc.ok "\<lambda>s. sp_mem (fmc_chip s)" "\<lambda>s. sp_wel (fmc_chip s)"
    "\<lambda>s. sp_busy (fmc_chip s)" SPI_SIZE "sfc_cmd_rd (fmc_soc rv dt)" "sfc_cmd_wr (fmc_soc rv dt)"
  by (rule fmc_nor)

lemma fmc_start_ok: "fmc.ok (fmc_start (blank_chip k m))"
  by (simp add: fmc.ok_def fmc.good_def fmc.cfg_def fmc_start_def sfc_new_def sfc_regs blank_chip_def
      spi_mode_def fmc_regions_def)

lemma fmc_start_chip [simp]: "fmc_chip (fmc_start d) = d"
  by (simp add: fmc_start_def)

lemma blank_chip_simps [simp]: "sp_busy (blank_chip k m) = 0" "sp_mem (blank_chip k m) = m"
  by (simp_all add: blank_chip_def)

lemma w25q128_simps [simp]: "fc_tsize w25q128 = 0x1000000" "fc_min_erase_mask w25q128 = 0xfff" "\<not> fc_mode_4b w25q128"
  by (simp_all add: w25q128_def)

section \<open>Properties\<close>

text \<open>
  \<open>flash_smart_write\<close> stores: on any controller that meets the contract of a NOR
  flash, over an idle chip with 4 KiB erase pages, it returns, reports success and leaves the
  memory with the new bytes in the range and every other byte as it was, although the chip can
  only clear bits or erase whole pages; the chip is idle again.
\<close>

theorem flash_smart_write_stores:
  assumes "nor_flash ct ok nmem wen busy n rd wr" "ok s" "busy s = 0"
    and "fc_min_erase_mask c = 0xfff" "\<not> fc_mode_4b c" "unat (fc_tsize c) mod 0x1000 = 0"
    and "unat (fc_tsize c) \<le> n" "src \<noteq> []" "unat dst + length src \<le> unat (fc_tsize c)"
  shows "\<exists>s'. flash_smart_write ct c dst src s = Some (0, s') \<and> ok s' \<and> busy s' = 0 \<and>
    nmem s' = nor_put (nmem s) (unat dst) src"
  using nor_flash.smart_write [OF assms(1) _ assms(4-9), of s] assms(2,3)
  by (simp add: nor_flash.ready_def [OF assms(1)])

theorem flash_smart_write_stores_witness:
  "\<exists>s'. flash_smart_write (sfc_ops (fmc_soc 0x04030303 example_fdt)) w25q128 0xffe [1, 2, 3, 4]
     (fmc_start (blank_chip 3 (\<lambda>_. 0))) = Some (0, s') \<and>
   sp_mem (fmc_chip s') = nor_put (\<lambda>_. 0) 0xffe [1, 2, 3, 4]"
  using flash_smart_write_stores [OF fmc.nor [of "0x04030303" example_fdt] fmc_start_ok [of 3 "\<lambda>_. 0"],
      of w25q128 "[1, 2, 3, 4]" "0xffe"]
  by (auto simp: SPI_SIZE_def)

text \<open>
  Claim C27. \<open>flash_write\<close> programs the range it is given and nothing else, page by page; its
  status says whether the bytes fitted: without verification it is 0, with verification it is
  0 exactly when the range then holds the bytes, and -EREMOTEIO otherwise. The verification
  reads 256 bytes at a time, so the range is aligned to that or lies in one block of 64 KiB.
\<close>

theorem flash_write_programs:
  assumes "nor_flash ct ok nmem wen busy n rd wr" "ok s" "busy s = 0"
    and "src \<noteq> []" "unat dst + length src \<le> unat (fc_tsize c)" "unat (fc_tsize c) \<le> n"
    and "\<not> fc_mode_4b c" "verify \<longrightarrow> verify_fits (unat dst) (length src)"
  shows "\<exists>rc s'. flash_write ct c dst src verify s = Some (rc, s') \<and> ok s' \<and> busy s' = 0 \<and>
    nmem s' = nor_program (nmem s) (unat dst) src \<and>
    rc = (if verify \<and> nor_bytes (nmem s') (unat dst) (length src) \<noteq> src then - EREMOTEIO else 0)"
proof -
  let ?m = "nor_program (nmem s) (unat dst) src"
  obtain s' where "flash_write ct c dst src verify s =
      Some (if verify \<and> nor_bytes ?m (unat dst) (length src) \<noteq> src then - EREMOTEIO else 0, s')"
    "ok s'" "busy s' = 0" "nmem s' = ?m"
    using nor_flash.write_programs [OF assms(1) _ assms(4-8) refl, of s] assms(2,3)
    by (auto simp: nor_flash.ready_def [OF assms(1)])
  then show ?thesis by (intro exI [of _ s'] exI conjI) simp_all
qed

theorem flash_write_programs_witness:
  "\<exists>rc s'. flash_write (sfc_ops (fmc_soc 0x04030303 example_fdt)) w25q128 0x1fe [1, 2, 3, 4] True
     (fmc_start (blank_chip 3 (\<lambda>_. 0xff))) = Some (rc, s') \<and>
   sp_mem (fmc_chip s') = nor_program (\<lambda>_. 0xff) 0x1fe [1, 2, 3, 4]"
  using flash_write_programs [OF fmc.nor [of "0x04030303" example_fdt] fmc_start_ok [of 3 "\<lambda>_. 0xff"],
      of "[1, 2, 3, 4]" "0x1fe" w25q128 True]
  by (auto simp: SPI_SIZE_def verify_fits_def)

text \<open>
  Claim C25. \<open>flash_erase\<close> erases exactly the range, whatever mix of 4, 32 and 64 KiB blocks it
  picks: on every chip with 32 KiB blocks or without 64 KiB blocks, it returns, reports
  success, and only the bytes of the range are set to ones.
\<close>

theorem flash_erase_exact:
  assumes "nor_flash ct ok nmem wen busy n rd wr" "ok s" "busy s = 0"
    and "unat dst mod 0x1000 = 0" "unat len mod 0x1000 = 0" "0 < unat len" "fc_min_erase_mask c = 0xfff"
    and "unat dst + unat len \<le> unat (fc_tsize c)" "unat (fc_tsize c) \<le> n" "erase_fits c (unat len)"
  shows "\<exists>s'. flash_erase ct c dst len s = Some (0, s') \<and> ok s' \<and> busy s' = 0 \<and>
    nmem s' = nor_erase (nmem s) (unat dst) (unat len)"
  using nor_flash.flash_erase_erases [OF assms(1) _ assms(4-10), of s] assms(2,3)
  by (simp add: nor_flash.ready_def [OF assms(1)])

theorem flash_erase_exact_witness:
  "\<exists>s'. flash_erase (sfc_ops (fmc_soc 0x04030303 example_fdt)) w25q128 0x7000 0x19000
     (fmc_start (blank_chip 3 (\<lambda>_. 0))) = Some (0, s') \<and>
   sp_mem (fmc_chip s') = nor_erase (\<lambda>_. 0) 0x7000 0x19000"
  using flash_erase_exact [OF fmc.nor [of "0x04030303" example_fdt] fmc_start_ok [of 3 "\<lambda>_. 0"],
      of "0x7000" "0x19000" w25q128]
  by (auto simp: SPI_SIZE_def erase_fits_def w25q128_def flash_infos_def flash_flags)












text \<open>
  Claim C38. The unlimited polling of \<open>fl_sync_wait_idle\<close> ends exactly when the chip does: over a
  chip whose operation ends after any finite number of status reads it returns success with the
  chip idle and its memory as it was; when every status read says that the operation is still
  in progress it never returns.
\<close>

theorem fl_sync_wait_idle_liveness:
  "(nor_flash ct ok nmem wen busy n rd wr \<and> ok s \<longrightarrow>
      (\<exists>s'. fl_sync_wait_idle ct (Some info) s = Some (0, s') \<and> ok s' \<and> busy s' = 0 \<and> nmem s' = nmem s)) \<and>
   ((\<forall>t. \<exists>st t'. fl_read_stat ct t = Some (Inr st, t') \<and> st AND STAT_WIP \<noteq> 0) \<longrightarrow>
      fl_sync_wait_idle ct finfo s = None)"
proof (intro conjI impI)
  assume h: "nor_flash ct ok nmem wen busy n rd wr \<and> ok s"
  show "\<exists>s'. fl_sync_wait_idle ct (Some info) s = Some (0, s') \<and> ok s' \<and> busy s' = 0 \<and> nmem s' = nmem s"
    using nor_flash.wait_idle [of ct ok nmem wen busy n rd wr s info] h
    by (auto simp: nor_flash.ready_def)
next
  assume h: "\<forall>t. \<exists>st t'. fl_read_stat ct t = Some (Inr st, t') \<and> st AND STAT_WIP \<noteq> 0"
  have "c \<noteq> ct" if "fl_sync_wait_idle c f t = Some y" for c f t y
  proof (rule fl_sync_wait_idle.raw_induct [where P = "\<lambda>c f t y. c \<noteq> ct", OF _ that])
    fix g c f t y
    assume IH: "\<And>c f t y. g c f t = Some y \<Longrightarrow> c \<noteq> ct"
      and step: "Option.bind (fl_read_stat c t) (\<lambda>r. case fst r of
          Inl rc \<Rightarrow> Some (rc, snd r)
        | Inr stat \<Rightarrow>
            if stat AND STAT_WIP = 0
            then (case f of
                None \<Rightarrow> None
              | Some info \<Rightarrow>
                  if fi_flags info AND FL_MICRON_BUGS \<noteq> 0
                  then act_bind (fl_micron_status c) (\<lambda>_. act_ret 0) (snd r)
                  else Some (0, snd r))
            else g c f (snd r)) = Some y"
    show "c \<noteq> ct"
    proof
      assume "c = ct"
      moreover obtain st t' where "fl_read_stat ct t = Some (Inr st, t')" "st AND STAT_WIP \<noteq> 0"
        using h by blast
      ultimately have "g c f t' = Some y" using step by simp
      from IH [OF this] \<open>c = ct\<close> show False by simp
    qed
  qed
  then show "fl_sync_wait_idle ct finfo s = None" by (metis option.exhaust)
qed

theorem fl_sync_wait_idle_liveness_witness:
  "\<exists>s'. fl_sync_wait_idle (sfc_ops (fmc_soc 0x04030303 example_fdt)) (Some (fc_info w25q128))
     (fmc_start ((blank_chip 3 (\<lambda>_. 0))\<lparr>sp_busy := 7\<rparr>)) = Some (0, s') \<and> sp_busy (fmc_chip s') = 0"
proof -
  have "fmc.ok (fmc_start ((blank_chip 3 (\<lambda>_. 0))\<lparr>sp_busy := 7\<rparr>))"
    using fmc_start_ok [of 3 "\<lambda>_. 0"] by (simp add: fmc.ok_def fmc.good_def fmc_start_def)
  then show ?thesis
    using conjunct1 [OF fl_sync_wait_idle_liveness, of "sfc_ops (fmc_soc 0x04030303 example_fdt)" fmc.ok]
      fmc.nor [of "0x04030303" example_fdt] by blast
qed

text \<open>
  Claim C1. The flash driver over the P2A bridge stores what it is told: after the driver has
  initialised a controller whose control register does not read as all ones, with its chip idle
  after that, \<open>flash_smart_write\<close> through \<open>sfc_cmd_rd\<close>, \<open>sfc_cmd_wr\<close> and \<open>sfc_direct_read\<close> ends with
  status 0 and puts exactly the new bytes into the chip, for every latency of the chip.
\<close>

theorem fmc_smart_write_stores:
  assumes "p2a_ok (sx_soc s)" "sx_ct s = sfc_new iomem flash kind"
    and "rg_start iomem = fmc_io" "rg_start flash = fmc_win"
    and "sp_regs (fmc_chip s) 0x10 \<noteq> 0xffffffff"
    and "s1 = snd (run_state (sfc_init_device (fmc_soc rv dt)) s)" "sp_busy (fmc_chip s1) = 0"
    and "src \<noteq> []" "unat dst + length src \<le> 0x1000000"
  shows "fst (run_state (sfc_init_device (fmc_soc rv dt)) s) \<and>
    (\<exists>s2. flash_smart_write (sfc_ops (fmc_soc rv dt)) w25q128 dst src s1 = Some (0, s2) \<and>
      sp_mem (fmc_chip s2) = nor_put (sp_mem (fmc_chip s1)) (unat dst) src \<and> p2a_ok (sx_soc s2))"
proof -
  have i: "fst (run_state (sfc_init_device (fmc_soc rv dt)) s)" "fmc.ok s1"
    using fmc.init [OF assms(1-5) refl, of rv dt] assms(6) by blast+
  have "fmc.ok s2 \<Longrightarrow> p2a_ok (sx_soc s2)" for s2 by (simp add: fmc.ok_def fmc.good_def)
  moreover have "nor_flash.ready fmc.ok (\<lambda>s. sp_busy (fmc_chip s)) s1"
    using i(2) assms(7) by (simp add: nor_flash.ready_def [OF fmc.nor])
  ultimately show ?thesis
    using nor_flash.smart_write [OF fmc.nor [of rv dt], of s1 w25q128 src dst] i(1) assms(8,9)
    by (auto simp: SPI_SIZE_def nor_flash.ready_def [OF fmc.nor])
qed

theorem fmc_smart_write_stores_witness:
  "\<exists>s2. flash_smart_write (sfc_ops (fmc_soc 0x04030303 example_fdt)) w25q128 0x2ffd [9, 8, 7, 6, 5]
     (snd (run_state (sfc_init_device (fmc_soc 0x04030303 example_fdt)) (fmc_start (blank_chip 2 (\<lambda>i. of_nat i))))) =
     Some (0, s2)"
proof -
  let ?s = "fmc_start (blank_chip 2 (\<lambda>i. of_nat i))"
  have "p2a_ok (sx_soc ?s)" "sp_regs (fmc_chip ?s) 0x10 \<noteq> 0xffffffff"
    by (simp_all add: fmc_start_def blank_chip_def)
  moreover have "sx_ct ?s = sfc_new (fst fmc_regions) (snd fmc_regions) SFC_TYPE_FMC" by (simp add: fmc_start_def)
  moreover have "sp_busy (fmc_chip (snd (run_state (sfc_init_device (fmc_soc 0x04030303 example_fdt)) ?s))) = 0"
    using fmc.init [OF calculation(1,3) _ _ calculation(2) refl, of "0x04030303" example_fdt]
    by (simp add: fmc_regions_def fmc_start_def blank_chip_def spi_mode_def)
  ultimately show ?thesis
    using fmc_smart_write_stores [of ?s, OF _ _ _ _ _ refl, of "fst fmc_regions" "snd fmc_regions" SFC_TYPE_FMC "0x04030303" example_fdt
      "[9, 8, 7, 6, 5]" "0x2ffd"] by (auto simp: fmc_regions_def)
qed

text \<open>
  Read calibration never succeeds: \<open>flash_read\<close> of the driver gives the number of
  bytes, which \<open>sfc_optimize_reads\<close> takes for an error. Over an idle chip it returns 16384 after
  its first read, for every frequency limit, and leaves the control value of the slowest read
  mode behind; the timings are never tried.
\<close>

theorem sfc_optimize_reads_fails:
  assumes "spi_sfc ops invar io fl bus soc span" "spi_sfc.ok invar io fl bus s" "sp_busy (bus (sx_soc s)) = 0"
    and "q = run_state (sfc_optimize_reads junk soc max_freq) s"
  shows "fst q = int CALIBRATE_BUF_SIZE \<and> sp_mem (bus (sx_soc (snd q))) = sp_mem (bus (sx_soc s)) \<and>
    sf_ctl_read_val (sx_ct (snd q)) = (sf_ctl_read_val (sx_ct s) AND 0x2000) OR 0x30000"
  using spi_sfc.optimize [OF assms(1-3) assms(4)] by (simp add: CALIBRATE_BUF_SIZE_def)

theorem sfc_optimize_reads_fails_witness:
  "fst (run_state (sfc_optimize_reads [] (fmc_soc 0x04030303 example_fdt) 104000000)
     (fmc_start (blank_chip 2 (\<lambda>i. of_nat i)))) = int CALIBRATE_BUF_SIZE"
  using sfc_optimize_reads_fails [OF fmc.spi_sfc_axioms fmc_start_ok _ refl, of 2 "\<lambda>i. of_nat i" "[]"
      "0x04030303" example_fdt 104000000]
  by simp

end
