(* ===== verification/Trace.thy ===== *)
theory Trace
  imports SocBus
begin

text \<open>
  The AHB trace buffer, \<^verbatim>\<open>src/soc/trace.c\<close>: encoding of the traced lane, arming the controller
  over a zeroed buffer, stopping it, and dumping the ring buffer to a descriptor.
\<close>

section \<open>Registers\<close>

definition R_AHBC_BCR_CSR :: u32 where "R_AHBC_BCR_CSR = 0x40"
definition AHBC_BCR_CSR_BUF_LEN_SHIFT :: nat where "AHBC_BCR_CSR_BUF_LEN_SHIFT = 8"
definition AHBC_BCR_CSR_BUF_LEN_MASK :: u32 where "AHBC_BCR_CSR_BUF_LEN_MASK = GENMASK 10 8"
definition AHBC_BCR_CSR_BUF_LEN_32K :: u32 where "AHBC_BCR_CSR_BUF_LEN_32K = 0b011"
definition AHBC_BCR_CSR_POLL_DATA_SHIFT :: nat where "AHBC_BCR_CSR_POLL_DATA_SHIFT = 4"
definition AHBC_BCR_CSR_POLL_DATA_1_0 :: int where "AHBC_BCR_CSR_POLL_DATA_1_0 = 0"
definition AHBC_BCR_CSR_POLL_DATA_1_1 :: int where "AHBC_BCR_CSR_POLL_DATA_1_1 = 1"
definition AHBC_BCR_CSR_POLL_DATA_1_2 :: int where "AHBC_BCR_CSR_POLL_DATA_1_2 = 2"
definition AHBC_BCR_CSR_POLL_DATA_1_3 :: int where "AHBC_BCR_CSR_POLL_DATA_1_3 = 3"
definition AHBC_BCR_CSR_POLL_DATA_2_0 :: int where "AHBC_BCR_CSR_POLL_DATA_2_0 = 4"
definition AHBC_BCR_CSR_POLL_DATA_2_2 :: int where "AHBC_BCR_CSR_POLL_DATA_2_2 = 5"
definition AHBC_BCR_CSR_POLL_DATA_4_0 :: int where "AHBC_BCR_CSR_POLL_DATA_4_0 = 6"
definition AHBC_BCR_CSR_FLUSH :: u32 where "AHBC_BCR_CSR_FLUSH = BIT 2"
definition AHBC_BCR_CSR_POLL_MODE :: u32 where "AHBC_BCR_CSR_POLL_MODE = BIT 1"
definition AHBC_BCR_CSR_POLL_EN :: u32 where "AHBC_BCR_CSR_POLL_EN = BIT 0"
definition R_AHBC_BCR_BUF :: u32 where "R_AHBC_BCR_BUF = 0x44"
definition AHBC_BCR_BUF_WRAP :: u32 where "AHBC_BCR_BUF_WRAP = BIT 0"
definition R_AHBC_BCR_ADDR :: u32 where "R_AHBC_BCR_ADDR = 0x48"
definition R_AHBC_BCR_FIFO_MERGE :: u32 where "R_AHBC_BCR_FIFO_MERGE = 0x5c"

lemmas trace_polls = AHBC_BCR_CSR_POLL_DATA_1_0_def AHBC_BCR_CSR_POLL_DATA_1_1_def
  AHBC_BCR_CSR_POLL_DATA_1_2_def AHBC_BCR_CSR_POLL_DATA_1_3_def AHBC_BCR_CSR_POLL_DATA_2_0_def
  AHBC_BCR_CSR_POLL_DATA_2_2_def AHBC_BCR_CSR_POLL_DATA_4_0_def

lemmas trace_regs = R_AHBC_BCR_CSR_def R_AHBC_BCR_BUF_def R_AHBC_BCR_ADDR_def R_AHBC_BCR_FIFO_MERGE_def

datatype trace_mode = trace_read | trace_write

record trace =
  tr_ahbc :: soc_region
  tr_sram :: soc_region

definition ahbc_bcr_buf_len :: "nat list" where
  "ahbc_bcr_buf_len = [4 * 1024, 8 * 1024, 16 * 1024, 32 * 1024,
     128 * 1024, 256 * 1024, 512 * 1024, 1024 * 1024]"

section \<open>Operations\<close>

text \<open>
  The lane that is traced. \<open>offset\<close> is at most 3 where it is called, and then no assertion
  of the function can fail; \<open>int\<close> arithmetic as in the source.
\<close>

definition trace_style :: "int \<Rightarrow> int \<Rightarrow> int" where
  "trace_style width offset =
     (if \<not> (width = 1 \<or> width = 2 \<or> width = 4) then - EINVAL
      else if offset \<ge> 4 \<or> offset AND (width - 1) \<noteq> 0 then - EINVAL
      else if width = 1
      then (if offset = 0 then AHBC_BCR_CSR_POLL_DATA_1_0 else if offset = 1 then AHBC_BCR_CSR_POLL_DATA_1_1
            else if offset = 2 then AHBC_BCR_CSR_POLL_DATA_1_2 else AHBC_BCR_CSR_POLL_DATA_1_3)
      else if width = 2
      then (if offset = 0 then AHBC_BCR_CSR_POLL_DATA_2_0 else AHBC_BCR_CSR_POLL_DATA_2_2)
      else AHBC_BCR_CSR_POLL_DATA_4_0)"

definition ahbc_readl :: "'s soc \<Rightarrow> trace \<Rightarrow> u32 \<Rightarrow> ('s, int + u32) state" where
  "ahbc_readl soc ctx off = soc_readl soc (rg_start (tr_ahbc ctx) + off)"

definition ahbc_writel :: "'s soc \<Rightarrow> trace \<Rightarrow> u32 \<Rightarrow> u32 \<Rightarrow> ('s, int) state" where
  "ahbc_writel soc ctx off val = soc_writel soc (rg_start (tr_ahbc ctx) + off) val"

text \<open>Zeroing the buffer: the statuses of the stores are ignored.\<close>

fun trace_zero :: "'s soc \<Rightarrow> u32 \<Rightarrow> nat list \<Rightarrow> ('s, unit) state" where
  "trace_zero soc start [] = ret ()"
| "trace_zero soc start (i # xs) = do {
     _ \<leftarrow> soc_writel soc (of_nat (4 * i) + start) 0;
     trace_zero soc start xs }"

text \<open>
  \<open>None\<close> is the failed assertion on the length of the buffer. The lane is only checked when
  the buffer has been zeroed.
\<close>

definition trace_start :: "'s soc \<Rightarrow> trace \<Rightarrow> u32 \<Rightarrow> int \<Rightarrow> trace_mode \<Rightarrow> ('s, int) state option" where
  "trace_start soc ctx addr width mode =
     (if \<not> unat (rg_length (tr_sram ctx)) \<ge> 32 * 1024 then None
      else Some (
        let csr = push_bit AHBC_BCR_CSR_BUF_LEN_SHIFT AHBC_BCR_CSR_BUF_LEN_32K OR
              (case mode of trace_read \<Rightarrow> 0 | trace_write \<Rightarrow> AHBC_BCR_CSR_POLL_MODE)
        in nz_then (ahbc_writel soc ctx R_AHBC_BCR_CSR csr)
           (nz_then (ahbc_writel soc ctx R_AHBC_BCR_ADDR (addr AND NOT 3))
           (do {
             _ \<leftarrow> trace_zero soc (rg_start (tr_sram ctx)) [0..<unat (rg_length (tr_sram ctx)) div 4];
             nz_then (ahbc_writel soc ctx R_AHBC_BCR_BUF (rg_start (tr_sram ctx) OR AHBC_BCR_BUF_WRAP))
               (let style = trace_style width (uint (addr AND 3))
                in if style < 0 then ret style
                   else ahbc_writel soc ctx R_AHBC_BCR_CSR
                     (((csr OR push_bit AHBC_BCR_CSR_POLL_DATA_SHIFT (of_int style)) OR AHBC_BCR_CSR_FLUSH)
                      OR AHBC_BCR_CSR_POLL_EN)) }))))"

definition trace_stop :: "'s soc \<Rightarrow> trace \<Rightarrow> ('s, int) state" where
  "trace_stop soc ctx =
     val_then (ahbc_readl soc ctx R_AHBC_BCR_CSR) (\<lambda>csr.
       if csr AND AHBC_BCR_CSR_POLL_EN = 0 then ret 0
       else nz_then (ahbc_writel soc ctx R_AHBC_BCR_CSR (csr OR AHBC_BCR_CSR_FLUSH))
         (ahbc_writel soc ctx R_AHBC_BCR_CSR
           ((csr OR AHBC_BCR_CSR_FLUSH) AND NOT (AHBC_BCR_CSR_POLL_EN OR AHBC_BCR_CSR_FLUSH))))"

text \<open>
  Where the ring buffer starts, and the two stretches a dump copies, as they are computed from
  the two registers: an address and a length of type \<open>size_t\<close> each. The partial word in the
  merge register is only logged; \<open>wr\<close> writes to the descriptor.
\<close>

definition trace_write_ptr :: "u32 \<Rightarrow> u32 \<Rightarrow> u32" where
  "trace_write_ptr csr buf =
     (buf AND NOT AHBC_BCR_BUF_WRAP) AND
       GENMASK (11 + unat (drop_bit AHBC_BCR_CSR_BUF_LEN_SHIFT (csr AND AHBC_BCR_CSR_BUF_LEN_MASK))) 2"

definition trace_base :: "u32 \<Rightarrow> u32 \<Rightarrow> u32" where
  "trace_base csr buf = (buf AND NOT AHBC_BCR_BUF_WRAP) AND NOT (trace_write_ptr csr buf OR 3)"

definition trace_wrapped_len :: "u32 \<Rightarrow> u32 \<Rightarrow> u64" where
  "trace_wrapped_len csr buf =
     (ucast (trace_base csr buf) +
      of_nat (ahbc_bcr_buf_len ! unat (drop_bit AHBC_BCR_CSR_BUF_LEN_SHIFT (csr AND AHBC_BCR_CSR_BUF_LEN_MASK))))
     - ucast (trace_write_ptr csr buf)"

definition trace_tail_len :: "u32 \<Rightarrow> u32 \<Rightarrow> u64" where
  "trace_tail_len csr buf = ucast ((buf AND NOT AHBC_BCR_BUF_WRAP) - trace_base csr buf)"

definition trace_dump ::
  "'s soc \<Rightarrow> trace \<Rightarrow> (u8 list \<Rightarrow> ('s, int) state) \<Rightarrow> 's \<Rightarrow> (int \<times> 's) option" where
  "trace_dump soc ctx wr s =
     (case run_state (ahbc_readl soc ctx R_AHBC_BCR_CSR) s of
        (Inl rc, s) \<Rightarrow> Some (rc, s)
      | (Inr csr, s) \<Rightarrow>
          (case run_state (ahbc_readl soc ctx R_AHBC_BCR_BUF) s of
             (Inl rc, s) \<Rightarrow> Some (rc, s)
           | (Inr buf, s) \<Rightarrow>
               let s = snd (run_state (ahbc_readl soc ctx R_AHBC_BCR_FIFO_MERGE) s)
               in Option.bind
                    (if buf AND AHBC_BCR_BUF_WRAP \<noteq> 0
                     then ahb_siphon_out (soc_ahb soc) wr (buf AND NOT AHBC_BCR_BUF_WRAP)
                            (sint (trace_wrapped_len csr buf)) s
                     else Some (0, s))
                    (\<lambda>r. if fst r \<noteq> 0 then Some r
                         else ahb_siphon_out (soc_ahb soc) wr (trace_base csr buf)
                                (sint (trace_tail_len csr buf)) (snd r))))"

definition ahbc_match :: "string list" where
  "ahbc_match = [''aspeed,ast2500-ahb-controller'', ''aspeed,ast2600-ahb-controller'']"

definition trace_driver_init :: "'s soc \<Rightarrow> int \<Rightarrow> ('s, int + trace) state" where
  "trace_driver_init soc node =
     (case rbind (soc_device_get_memory (soc_fdt soc) node) (\<lambda>ahbc.
        rbind (soc_device_get_memory_region_named (soc_fdt soc) node ''trace-buffer'') (\<lambda>sram.
          Inr \<lparr>tr_ahbc = ahbc, tr_sram = sram\<rparr>)) of
        Inl rc \<Rightarrow> ret (Inl rc)
      | Inr ctx \<Rightarrow> do { _ \<leftarrow> trace_stop soc ctx; ret (Inr ctx) })"

section \<open>The controller over a register bus\<close>

definition zeroed :: "(u32 \<Rightarrow> u32) \<Rightarrow> u32 \<Rightarrow> nat list \<Rightarrow> (u32 \<Rightarrow> u32)" where
  "zeroed r start xs = (\<lambda>a. if \<exists>i \<in> set xs. a = start + of_nat (4 * i) then 0 else r a)"

text \<open>The words of the buffer.\<close>

definition trace_words :: "trace \<Rightarrow> u32 set" where
  "trace_words ctx = (\<lambda>i. rg_start (tr_sram ctx) + of_nat (4 * i)) ` {..<unat (rg_length (tr_sram ctx)) div 4}"

lemma zeroed_words:
  "zeroed r (rg_start (tr_sram ctx)) [0..<unat (rg_length (tr_sram ctx)) div 4] =
    (\<lambda>a. if a \<in> trace_words ctx then 0 else r a)"
  by (auto simp: zeroed_def trace_words_def fun_eq_iff)

lemma word_aligned_index: "word_aligned (of_nat (4 * i))"
  using word_aligned_add_nat [of 0 "4 * i"] by simp

locale trace_bus = soc_bus ops invar reg plain_eff soc
  for ops :: "'s ahb_ops" and invar reg and soc :: "'s soc" +
  fixes ctx :: trace
  assumes regs: "word_aligned (rg_start (tr_ahbc ctx))" "word_aligned (rg_start (tr_sram ctx))"
begin

lemma reg_write [simp]:
  assumes "invar s" "word_aligned off"
  shows "fst (run_state (ahbc_writel soc ctx off v) s) = 0"
    and "reg (snd (run_state (ahbc_writel soc ctx off v) s)) = (reg s)(rg_start (tr_ahbc ctx) + off := v)"
    and "invar (snd (run_state (ahbc_writel soc ctx off v) s))"
  using assms regs(1) by (simp_all add: ahbc_writel_def plain_eff_def)

lemma reg_read [simp]:
  assumes "invar s" "word_aligned off"
  shows "fst (run_state (ahbc_readl soc ctx off) s) = Inr (reg s (rg_start (tr_ahbc ctx) + off))"
    and "reg (snd (run_state (ahbc_readl soc ctx off) s)) = reg s"
    and "invar (snd (run_state (ahbc_readl soc ctx off) s))"
  using assms regs(1) by (simp_all add: ahbc_readl_def)

lemma zero [simp]:
  assumes "invar s"
  shows "reg (snd (run_state (trace_zero soc (rg_start (tr_sram ctx)) xs) s)) =
      zeroed (reg s) (rg_start (tr_sram ctx)) xs \<and>
    invar (snd (run_state (trace_zero soc (rg_start (tr_sram ctx)) xs) s))"
  using assms
proof (induction xs arbitrary: s)
  case Nil
  then show ?case by (simp add: zeroed_def)
next
  case (Cons i xs)
  have a: "word_aligned (of_nat (4 * i) + rg_start (tr_sram ctx))"
    using word_aligned_add [OF word_aligned_index, of i] regs(2) by simp
  have z: "zeroed (r(of_nat (4 * i) + rg_start (tr_sram ctx) := 0)) (rg_start (tr_sram ctx)) xs =
      zeroed r (rg_start (tr_sram ctx)) (i # xs)" for r
    by (auto simp: zeroed_def fun_eq_iff add.commute)
  show ?case
    using Cons.IH [of "snd (run_state (soc_writel soc (of_nat (4 * i) + rg_start (tr_sram ctx)) 0) s)"]
      Cons.prems soc_writel [OF Cons.prems a] z
    by (simp add: plain_eff_def fun_upd_def del: soc_writel)
qed

lemma start:
  assumes "invar s" "trace_start soc ctx addr width mode = Some m" "r = run_state m s"
    and "csr = push_bit 8 3 OR (case mode of trace_read \<Rightarrow> 0 | trace_write \<Rightarrow> AHBC_BCR_CSR_POLL_MODE)"
    and "r0 = (zeroed (((reg s)(rg_start (tr_ahbc ctx) + 0x40 := csr))(rg_start (tr_ahbc ctx) + 0x48 := addr AND NOT 3))
      (rg_start (tr_sram ctx)) [0..<unat (rg_length (tr_sram ctx)) div 4])
        (rg_start (tr_ahbc ctx) + 0x44 := rg_start (tr_sram ctx) OR AHBC_BCR_BUF_WRAP)"
  shows "if trace_style width (uint (addr AND 3)) < 0
    then fst r = trace_style width (uint (addr AND 3)) \<and> reg (snd r) = r0
    else fst r = 0 \<and> reg (snd r) = r0(rg_start (tr_ahbc ctx) + 0x40 :=
      ((csr OR push_bit 4 (of_int (trace_style width (uint (addr AND 3))))) OR AHBC_BCR_CSR_FLUSH) OR AHBC_BCR_CSR_POLL_EN)"
proof -
  note d = AHBC_BCR_CSR_BUF_LEN_SHIFT_def AHBC_BCR_CSR_BUF_LEN_32K_def AHBC_BCR_CSR_POLL_DATA_SHIFT_def trace_regs
  show ?thesis
    using assms(2,3) assms(1)
    by (auto simp: trace_start_def d assms(4,5) Let_def split: if_splits)
qed

end

text \<open>A lane is accepted exactly when it lies in its word.\<close>

lemma trace_style_valid:
  assumes "0 \<le> off" "off < 4"
  shows "0 \<le> trace_style width off \<longleftrightarrow> width \<in> {1, 2, 4} \<and> off mod width = 0"
    and "trace_style width off < 0 \<Longrightarrow> trace_style width off = - EINVAL"
proof -
  have "off = 0 \<or> off = 1 \<or> off = 2 \<or> off = 3" using assms by linarith
  then show "0 \<le> trace_style width off \<longleftrightarrow> width \<in> {1, 2, 4} \<and> off mod width = 0"
    "trace_style width off < 0 \<Longrightarrow> trace_style width off = - EINVAL"
    by (auto simp: trace_style_def trace_polls split: if_splits)
qed

lemma uint_and_3: "uint (a AND 3 :: u32) = uint a mod 4" "0 \<le> uint (a AND 3 :: u32)" "uint (a AND 3 :: u32) < 4"
proof -
  have 3: "(3 :: u32) = mask 2" by (simp add: mask_eq_exp_minus_1)
  have "unat (a AND 3) = unat a mod 4" using unat_and_mask [of a 2] unfolding 3 by simp
  then show u: "uint (a AND 3 :: u32) = uint a mod 4" by (simp only: uint_nat zmod_int of_nat_numeral)
  show "0 \<le> uint (a AND 3 :: u32)" "uint (a AND 3 :: u32) < 4" unfolding u by simp_all
qed

definition trace_example :: trace where
  "trace_example = \<lparr>tr_ahbc = \<lparr>rg_start = 0x1e600000, rg_length = 0x100\<rparr>,
     tr_sram = \<lparr>rg_start = 0x1e720000, rg_length = 0x9000\<rparr>\<rparr>"

interpretation p2a_trace: trace_bus "p2ab_ahb_ops (p2a_mmio (regfile plain_eff)) 0" p2a_ok p2a_regs
    "p2a_soc rv dt (regfile plain_eff)" trace_example
  by (rule trace_bus.intro [OF p2a_soc.soc_bus_axioms]) (simp add: trace_bus_axioms_def trace_example_def)

lemma trace_example_words:
  "a \<in> trace_words trace_example \<Longrightarrow> 0x1e720000 \<le> unat a"
proof -
  assume "a \<in> trace_words trace_example"
  then obtain i where i: "i < 0x2400" "a = 0x1e720000 + of_nat (4 * i)"
    by (auto simp: trace_words_def trace_example_def)
  then have "unat a = unat (0x1e720000 :: u32) + 4 * i"
    unfolding i(2) by (intro unat_add_of_nat) simp
  then show ?thesis by simp
qed

section \<open>The stretches of the ring buffer\<close>

lemma GENMASK_low: "h < 31 \<Longrightarrow> 2 \<le> h \<Longrightarrow> GENMASK h 2 = mask (h + 1) AND NOT 3"
proof -
  assume h: "h < 31" "2 \<le> h"
  have "BIT h OR (BIT h - 1) = (mask (h + 1) :: u32)"
  proof -
    have "BIT h - 1 = (mask h :: u32)" by (simp add: BIT_def mask_eq_exp_minus_1 push_bit_eq_mult)
    moreover have "BIT h OR mask h = (mask (h + 1) :: u32)"
      using h by (intro bit_word_eqI) (auto simp: BIT_def bit_simps)
    ultimately show ?thesis by simp
  qed
  moreover have "BIT 2 - 1 = 3" by (simp add: BIT_def)
  ultimately show ?thesis by (simp add: GENMASK_def)
qed

text \<open>A ring of \<open>2 ^ n\<close> bytes at a multiple of its size, with the next word to be written at \<open>p\<close>.\<close>

lemma ring_pointer:
  fixes base p :: u32
  assumes "unat base mod 2 ^ n = 0" "unat p < 2 ^ n" "unat p mod 4 = 0" "2 \<le> n" "n < 32"
  shows "(base + p) AND (mask n AND NOT 3) = p" "(base + p) AND NOT (p OR 3) = base"
    "unat (base + p) = unat base + unat p"
proof -
  have p: "p AND mask n = p" "p AND NOT 3 = p" "base AND mask n = 0"
  proof -
    have "unat (p AND mask n) = unat p" using assms(2) by (simp add: unat_and_mask)
    then show "p AND mask n = p" by (simp only: word_unat_eq_iff)
    have "unat (base AND mask n) = 0" using assms(1) by (simp add: unat_and_mask)
    then show "base AND mask n = 0" by (simp only: unat_eq_zero)
    have "p AND 3 = 0" using assms(3) by (simp add: and_3_eq_0_iff)
    then show "p AND NOT 3 = p" using and_plus_and_not [of p 3] by simp
  qed
  have dis: "base AND p = 0"
  proof -
    have "base AND p = base AND (p AND mask n)" using p(1) by simp
    also have "\<dots> = (base AND mask n) AND p" by (simp only: ac_simps)
    finally show ?thesis using p(3) by simp
  qed
  then have sum: "base + p = base OR p" by (rule disjunctive_add_eq_or)
  have "(base + p) AND mask n = p" unfolding sum using p(1,3) by (simp add: bit.conj_disj_distrib2)
  then have "((base + p) AND mask n) AND NOT 3 = p" using p(2) by simp
  then show "(base + p) AND (mask n AND NOT 3) = p" by (simp only: ac_simps)
  have "base AND 3 = 0"
  proof -
    have three: "(3 :: u32) = mask 2" by (simp add: mask_eq_exp_minus_1)
    have "mask n AND (3 :: u32) = 3"
      unfolding three using assms(4,5) by (intro bit_word_eqI) (auto simp: bit_simps)
    then have "base AND 3 = (base AND mask n) AND 3" by (simp add: ac_simps)
    then show ?thesis using p(3) by simp
  qed
  then have "base AND NOT 3 = base" using and_plus_and_not [of base 3] by simp
  moreover have "base AND NOT p = base" using and_plus_and_not [of base p] dis by simp
  moreover have "p AND NOT (p OR 3) = 0" by (rule bit_word_eqI) (auto simp: bit_simps)
  moreover have "base AND NOT (p OR 3) = (base AND NOT p) AND NOT 3"
    by (rule bit_word_eqI) (auto simp: bit_simps)
  ultimately show "(base + p) AND NOT (p OR 3) = base"
    unfolding sum by (simp add: bit.conj_disj_distrib2)
  have "unat base < 2 ^ 32" by simp
  have "unat base + unat p < 2 ^ 32"
  proof -
    obtain k where k: "unat base = 2 ^ n * k" using assms(1) by auto
    have e: "(2 :: nat) ^ 32 = 2 ^ n * 2 ^ (32 - n)" using assms(5) by (simp add: power_add [symmetric])
    have "unat base < 2 ^ 32" by simp
    then have "2 ^ n * k < 2 ^ n * 2 ^ (32 - n)" unfolding k e .
    then have "k + 1 \<le> 2 ^ (32 - n)" by simp
    then have "2 ^ n * (k + 1) \<le> 2 ^ n * 2 ^ (32 - n)" by (rule mult_le_mono2)
    then show ?thesis using k e assms(2) by simp
  qed
  then show "unat (base + p) = unat base + unat p" by (simp add: unat_word_ariths)
qed

section \<open>Properties\<close>

text \<open>
  \<open>trace_start\<close> arms the trace over a cleared buffer: it only fails its assertion for
  buffers below 32 KiB; otherwise the buffer is all zeroes, the address register holds the word
  of the address, and for a width of 1, 2 or 4 bytes and an address that is a multiple of it
  the control register has the 32 KiB length, the direction, the lane, the flush and the enable
  bit. Any other width or address is refused with -EINVAL and leaves the trace disabled, with
  the buffer lost. No other register changes.
\<close>

theorem trace_start_arms:
  assumes "trace_bus ops invar reg soc ctx" "invar s" "32 * 1024 \<le> unat (rg_length (tr_sram ctx))"
    and "c = rg_start (tr_ahbc ctx)" "trace_words ctx \<inter> {c + 0x40, c + 0x44, c + 0x48} = {}"
    and "csr = push_bit 8 3 OR (case mode of trace_read \<Rightarrow> 0 | trace_write \<Rightarrow> 2)"
  shows "\<exists>m. trace_start soc ctx addr width mode = Some m \<and>
    (let r = run_state m s; regs = reg (snd r)
     in (if width \<in> {1, 2, 4} \<and> uint (addr AND 3) mod width = 0
         then fst r = 0 \<and> regs (c + 0x40) = ((csr OR push_bit 4 (of_int (trace_style width (uint (addr AND 3))))) OR 4) OR 1
         else fst r = - EINVAL \<and> regs (c + 0x40) = csr) \<and>
       regs (c + 0x48) = addr AND NOT 3 \<and> regs (c + 0x44) = rg_start (tr_sram ctx) OR 1 \<and>
       (\<forall>a \<in> trace_words ctx. regs a = 0) \<and>
       (\<forall>a. a \<notin> {c + 0x40, c + 0x44, c + 0x48} \<union> trace_words ctx \<longrightarrow> regs a = reg s a))"
proof -
  obtain m where m: "trace_start soc ctx addr width mode = Some m"
    using assms(3) by (simp add: trace_start_def)
  have bits: "AHBC_BCR_CSR_POLL_MODE = 2" "AHBC_BCR_CSR_FLUSH = 4" "AHBC_BCR_CSR_POLL_EN = 1" "AHBC_BCR_BUF_WRAP = 1"
    by (simp_all add: AHBC_BCR_CSR_POLL_MODE_def AHBC_BCR_CSR_FLUSH_def AHBC_BCR_CSR_POLL_EN_def
        AHBC_BCR_BUF_WRAP_def BIT_def)
  note start = trace_bus.start [OF assms(1,2) m refl refl refl, unfolded bits, folded assms(4,6)]
  note style = trace_style_valid [OF uint_and_3(2,3), of width addr]
  have out: "c + 0x40 \<notin> trace_words ctx" "c + 0x44 \<notin> trace_words ctx" "c + 0x48 \<notin> trace_words ctx"
    using assms(5) by auto
  have in': "a \<noteq> c + 0x40 \<and> a \<noteq> c + 0x44 \<and> a \<noteq> c + 0x48" if "a \<in> trace_words ctx" for a
    using that out by auto
  show ?thesis
  proof (cases "trace_style width (uint (addr AND 3)) < 0")
    case True
    then show ?thesis using start style m out in' by (auto simp: zeroed_words Let_def not_le [symmetric])
  next
    case False
    then show ?thesis using start style m out in' by (auto simp: zeroed_words Let_def)
  qed
qed

theorem trace_start_arms_witness:
  "trace_start (p2a_soc 0 example_fdt (regfile plain_eff)) trace_example 0x1e6e2002 2 trace_write \<noteq> None"
proof -
  have "trace_words trace_example \<inter> {rg_start (tr_ahbc trace_example) + 0x40,
      rg_start (tr_ahbc trace_example) + 0x44, rg_start (tr_ahbc trace_example) + 0x48} = {}"
    using trace_example_words by (fastforce simp: trace_example_def)
  then show ?thesis
    using trace_start_arms [OF p2a_trace.trace_bus_axioms [of 0 example_fdt] p2a_start_inv _ refl _ refl,
        where addr = "0x1e6e2002" and width = 2 and mode = trace_write]
    by (auto simp: trace_example_def)
qed

text \<open>
  What \<open>trace_dump\<close> copies: for the length codes up to 32 KiB, with the ring of that
  length at a multiple of its size, the pointer, the base and the copy of the newest part are
  right, but the copy of the oldest part of a wrapped ring is too long by the base address: a
  ring anywhere but at address 0 is read past its end.
\<close>

theorem trace_dump_stretches:
  fixes base p csr buf :: u32
  assumes "k < 4" "drop_bit 8 (csr AND AHBC_BCR_CSR_BUF_LEN_MASK) = of_nat k"
    and "buf AND NOT 1 = base + p"
    and "unat base mod (ahbc_bcr_buf_len ! k) = 0" "unat p < ahbc_bcr_buf_len ! k" "unat p mod 4 = 0"
  shows "trace_write_ptr csr buf = p \<and> trace_base csr buf = base \<and>
    unat (trace_tail_len csr buf) = unat p \<and>
    unat (trace_wrapped_len csr buf) = unat base + (ahbc_bcr_buf_len ! k - unat p)"
proof -
  have len: "ahbc_bcr_buf_len ! k = 2 ^ (12 + k)"
  proof -
    have "k = 0 \<or> k = 1 \<or> k = 2 \<or> k = 3" using assms(1) by linarith
    then show ?thesis by (auto simp: ahbc_bcr_buf_len_def)
  qed
  have k: "unat (of_nat k :: u32) = k" using assms(1) by (simp add: unat_of_nat)
  have one: "AHBC_BCR_BUF_WRAP = 1" by (simp add: AHBC_BCR_BUF_WRAP_def BIT_def)
  have g: "GENMASK (11 + k) 2 = mask (12 + k) AND NOT 3" using GENMASK_low [of "11 + k"] assms(1) by (simp add: add.commute)
  note r = ring_pointer [OF assms(4-6) [unfolded len]]
  have wp: "trace_write_ptr csr buf = p"
    using r(1) assms(1,2,3) k g by (simp add: trace_write_ptr_def AHBC_BCR_CSR_BUF_LEN_SHIFT_def one)
  have b: "trace_base csr buf = base"
    using r(2) assms(1,3) by (simp add: trace_base_def one wp)
  have le: "unat p \<le> 2 ^ (12 + k)" using assms(5) len by simp
  have small: "2 ^ (12 + k) \<le> (2 ^ 15 :: nat)" using assms(1) by (intro power_increasing) simp_all
  have "unat (trace_wrapped_len csr buf) = unat base + (2 ^ (12 + k) - unat p)"
  proof -
    define m :: nat where "m = 2 ^ (12 + k)"
    have m: "m \<le> 2 ^ 15" "unat p \<le> m" using small le by (simp_all add: m_def)
    have "m \<le> 32768" using m(1) by simp
    then have "unat base + m < 18446744073709551616" using unat_u32_less [of base] by linarith
    then have lt: "unat base + m < 2 ^ 64" by simp
    have "unat (of_nat m :: u64) = m" using m(1) by (simp add: unat_of_nat)
    then have sum: "unat (ucast base + of_nat m :: u64) = unat base + m"
      using lt by (simp add: unat_word_ariths)
    have "unat ((ucast base + of_nat m) - ucast p :: u64) = (unat base + m) - unat p"
      using m(2) sum by (subst unat_sub) (simp_all add: word_le_nat_alt)
    then show ?thesis
      using m(2) assms(2) k len by (simp add: trace_wrapped_len_def AHBC_BCR_CSR_BUF_LEN_SHIFT_def wp b m_def)
  qed
  then show ?thesis
    using wp b len assms(1,3) by (simp add: trace_tail_len_def one)
qed

theorem trace_dump_stretches_witness:
  "unat (trace_wrapped_len 0x305 0x1e720101) = 0x1e720000 + (0x8000 - 0x100)"
proof -
  have m: "AHBC_BCR_CSR_BUF_LEN_MASK = 0x700" by (simp add: AHBC_BCR_CSR_BUF_LEN_MASK_def GENMASK_def BIT_def)
  then show ?thesis
    using trace_dump_stretches [of 3 "0x305" "0x1e720101" "0x1e720000" "0x100"]
    by (simp add: ahbc_bcr_buf_len_def m)
qed

end
