(* ===== verification/UartMux.thy ===== *)
theory UartMux
  imports SocBus
begin

text \<open>
  UART routing, \<^verbatim>\<open>src/soc/uart/mux.c\<close>, and the host transmit discard of the virtual UART,
  \<^verbatim>\<open>src/soc/uart/vuart.c\<close>.
\<close>

section \<open>The routing table\<close>

definition LPC_HICR9 :: u32 where "LPC_HICR9 = 0x98"
definition LPC_HICR9_SEL6IO :: u32 where "LPC_HICR9_SEL6IO = push_bit 8 0b1111"
definition LPC_HICRA :: u32 where "LPC_HICRA = 0x9c"
definition LPC_HICRA_SEL5DW :: u32 where "LPC_HICRA_SEL5DW = push_bit 28 0b1111"
definition LPC_HICRA_SEL4DW :: u32 where "LPC_HICRA_SEL4DW = push_bit 25 0b111"
definition LPC_HICRA_SEL3DW :: u32 where "LPC_HICRA_SEL3DW = push_bit 22 0b111"
definition LPC_HICRA_SEL2DW :: u32 where "LPC_HICRA_SEL2DW = push_bit 19 0b111"
definition LPC_HICRA_SEL1DW :: u32 where "LPC_HICRA_SEL1DW = push_bit 16 0b111"
definition LPC_HICRA_SEL5IO :: u32 where "LPC_HICRA_SEL5IO = push_bit 12 0b111"
definition LPC_HICRA_SEL4IO :: u32 where "LPC_HICRA_SEL4IO = push_bit 9 0b111"
definition LPC_HICRA_SEL3IO :: u32 where "LPC_HICRA_SEL3IO = push_bit 6 0b111"
definition LPC_HICRA_SEL2IO :: u32 where "LPC_HICRA_SEL2IO = push_bit 3 0b111"
definition LPC_HICRA_SEL1IO :: u32 where "LPC_HICRA_SEL1IO = push_bit 0 0b111"

lemmas mux_masks = LPC_HICR9_SEL6IO_def LPC_HICRA_SEL5DW_def LPC_HICRA_SEL4DW_def LPC_HICRA_SEL3DW_def
  LPC_HICRA_SEL2DW_def LPC_HICRA_SEL1DW_def LPC_HICRA_SEL5IO_def LPC_HICRA_SEL4IO_def
  LPC_HICRA_SEL3IO_def LPC_HICRA_SEL2IO_def LPC_HICRA_SEL1IO_def

datatype mux_io = io1 | io2 | io3 | io4 | io5 | io6
datatype mux_uart = uart1 | uart2 | uart3 | uart4 | uart5
datatype mux_obj = mux_obj_io mux_io | mux_obj_uart mux_uart

record mux_desc =
  md_reg :: u32
  md_mask :: u32
  md_val :: u8

record uart_mux =
  um_lpc :: soc_region
  um_hicr9 :: u32
  um_hicra :: u32

text \<open>
  The descriptor of a destination's selector field: every entry of the table names the field
  of its destination, so a row of the table is a list of values by destination.
\<close>

fun uart_field :: "mux_uart \<Rightarrow> u32" where
  "uart_field uart1 = LPC_HICRA_SEL1DW"
| "uart_field uart2 = LPC_HICRA_SEL2DW"
| "uart_field uart3 = LPC_HICRA_SEL3DW"
| "uart_field uart4 = LPC_HICRA_SEL4DW"
| "uart_field uart5 = LPC_HICRA_SEL5DW"

fun io_field :: "mux_io \<Rightarrow> u32" where
  "io_field io1 = LPC_HICRA_SEL1IO"
| "io_field io2 = LPC_HICRA_SEL2IO"
| "io_field io3 = LPC_HICRA_SEL3IO"
| "io_field io4 = LPC_HICRA_SEL4IO"
| "io_field io5 = LPC_HICRA_SEL5IO"
| "io_field io6 = LPC_HICR9_SEL6IO"

definition to_uart :: "mux_uart \<Rightarrow> u8 \<Rightarrow> mux_obj \<times> mux_desc" where
  "to_uart d v = (mux_obj_uart d, \<lparr>md_reg = LPC_HICRA, md_mask = uart_field d, md_val = v\<rparr>)"

definition to_io :: "mux_io \<Rightarrow> u8 \<Rightarrow> mux_obj \<times> mux_desc" where
  "to_io d v = (mux_obj_io d, \<lparr>md_reg = (if d = io6 then LPC_HICR9 else LPC_HICRA), md_mask = io_field d, md_val = v\<rparr>)"

fun mux_row :: "mux_obj \<Rightarrow> (mux_obj \<times> mux_desc) list" where
  "mux_row (mux_obj_uart uart1) =
     [to_uart uart2 0b110, to_uart uart3 0b101, to_uart uart4 0b100, to_uart uart5 0b0101,
      to_io io1 0b000, to_io io2 0b100, to_io io3 0b011, to_io io4 0b010, to_io io5 0b001, to_io io6 0b0000]"
| "mux_row (mux_obj_uart uart2) =
     [to_uart uart1 0b100, to_uart uart3 0b110, to_uart uart4 0b101, to_uart uart5 0b0110,
      to_io io1 0b001, to_io io2 0b000, to_io io3 0b100, to_io io4 0b011, to_io io5 0b010, to_io io6 0b0001]"
| "mux_row (mux_obj_uart uart3) =
     [to_uart uart1 0b101, to_uart uart2 0b100, to_uart uart4 0b110, to_uart uart5 0b0111,
      to_io io1 0b010, to_io io2 0b001, to_io io3 0b000, to_io io4 0b100, to_io io5 0b011, to_io io6 0b0010]"
| "mux_row (mux_obj_uart uart4) =
     [to_uart uart1 0b110, to_uart uart2 0b101, to_uart uart3 0b100, to_uart uart5 0b0111,
      to_io io1 0b011, to_io io2 0b010, to_io io3 0b001, to_io io4 0b000, to_io io5 0b100, to_io io6 0b0011]"
| "mux_row (mux_obj_uart uart5) =
     [to_io io1 0b100, to_io io2 0b011, to_io io3 0b010, to_io io4 0b001, to_io io5 0b000, to_io io6 0b0100]"
| "mux_row (mux_obj_io io1) =
     [to_uart uart1 0b000, to_uart uart2 0b011, to_uart uart3 0b010, to_uart uart4 0b001, to_uart uart5 0b0001,
      to_io io3 0b101, to_io io4 0b101, to_io io5 0b101, to_io io6 0b0101]"
| "mux_row (mux_obj_io io2) =
     [to_uart uart1 0b001, to_uart uart2 0b000, to_uart uart3 0b011, to_uart uart4 0b010, to_uart uart5 0b0010,
      to_io io3 0b110, to_io io4 0b110, to_io io6 0b0110]"
| "mux_row (mux_obj_io io3) =
     [to_uart uart1 0b010, to_uart uart2 0b001, to_uart uart3 0b000, to_uart uart4 0b011, to_uart uart5 0b0011,
      to_io io1 0b101, to_io io2 0b101, to_io io5 0b110, to_io io6 0b0111]"
| "mux_row (mux_obj_io io4) =
     [to_uart uart1 0b011, to_uart uart2 0b010, to_uart uart3 0b001, to_uart uart4 0b000, to_uart uart5 0b0100,
      to_io io1 0b110, to_io io2 0b110, to_io io6 0b1000]"
| "mux_row (mux_obj_io io5) = [to_uart uart5 0b0000, to_io io6 0b1001]"
| "mux_row (mux_obj_io io6) =
     [to_uart uart1 0b111, to_uart uart2 0b111, to_uart uart3 0b111, to_uart uart4 0b111, to_uart uart5 0b1001,
      to_io io1 0b111, to_io io2 0b111, to_io io3 0b111, to_io io4 0b111, to_io io5 0b111]"

text \<open>An entry that is not listed is all zeroes.\<close>

definition mux_lookup :: "mux_obj \<Rightarrow> mux_obj \<Rightarrow> mux_desc" where
  "mux_lookup s d = (case map_of (mux_row s) d of
       Some md \<Rightarrow> md | None \<Rightarrow> \<lparr>md_reg = 0, md_mask = 0, md_val = 0\<rparr>)"

section \<open>Operations\<close>

text \<open>\<open>ffs\<close> of the C library: one more than the index of the least bit that is set.\<close>

definition ffs :: "u32 \<Rightarrow> nat" where
  "ffs x = (if x = 0 then 0 else length (takeWhile (\<lambda>i. \<not> bit x i) [0..<32]) + 1)"

definition lpc_readl :: "'s soc \<Rightarrow> uart_mux \<Rightarrow> u32 \<Rightarrow> ('s, int + u32) state" where
  "lpc_readl soc ctx off = soc_readl soc (rg_start (um_lpc ctx) + off)"

definition lpc_writel :: "'s soc \<Rightarrow> uart_mux \<Rightarrow> u32 \<Rightarrow> u32 \<Rightarrow> ('s, int) state" where
  "lpc_writel soc ctx off val = soc_writel soc (rg_start (um_lpc ctx) + off) val"

definition uart_mux_restore :: "'s soc \<Rightarrow> uart_mux \<Rightarrow> ('s, int) state" where
  "uart_mux_restore soc ctx =
     neg_then (lpc_writel soc ctx LPC_HICR9 (um_hicr9 ctx))
     (neg_then (lpc_writel soc ctx LPC_HICRA (um_hicra ctx)) (ret 0))"

definition uart_mux_route :: "'s soc \<Rightarrow> uart_mux \<Rightarrow> mux_obj \<Rightarrow> mux_obj \<Rightarrow> ('s, int) state" where
  "uart_mux_route soc ctx s d =
     (let md = mux_lookup s d
      in if md_mask md = 0 then ret (- EINVAL)
         else val_then (lpc_readl soc ctx (md_reg md)) (\<lambda>val.
           neg_then (lpc_writel soc ctx (md_reg md)
             ((val AND NOT (md_mask md)) OR push_bit (ffs (md_mask md) - 1) (ucast (md_val md))))
             (ret 0)))"

definition uart_mux_connect :: "'s soc \<Rightarrow> uart_mux \<Rightarrow> mux_obj \<Rightarrow> mux_obj \<Rightarrow> ('s, int) state" where
  "uart_mux_connect soc ctx a b =
     neg_then (uart_mux_route soc ctx a b) (neg_then (uart_mux_route soc ctx b a) (ret 0))"

definition uart_mux_match :: "string list" where
  "uart_mux_match = [''aspeed,ast2500-lpc-v2'']"

definition uart_mux_driver_init :: "'s soc \<Rightarrow> int \<Rightarrow> ('s, int + uart_mux) state" where
  "uart_mux_driver_init soc node =
     (case soc_device_get_memory (soc_fdt soc) node of
        Inl rc \<Rightarrow> ret (Inl rc)
      | Inr lpc \<Rightarrow>
          let ctx = \<lparr>um_lpc = lpc, um_hicr9 = 0, um_hicra = 0\<rparr>
          in valr_then (lpc_readl soc ctx LPC_HICR9) (\<lambda>v9.
             valr_then (lpc_readl soc ctx LPC_HICRA) (\<lambda>va.
               ret (Inr (ctx\<lparr>um_hicr9 := v9, um_hicra := va\<rparr>)))))"

section \<open>The virtual UART\<close>

definition VUART_GCRA :: u32 where "VUART_GCRA = 0x20"
definition VUART_GCRA_TX_DISCARD :: u32 where "VUART_GCRA_TX_DISCARD = push_bit 5 1"

datatype vuart_discard = discard_enable | discard_disable

record vuart =
  vu_iomem :: soc_region

definition vuart_match :: "string list" where
  "vuart_match = [''aspeed,ast2400-vuart'', ''aspeed,ast2500-vuart'', ''aspeed,ast2600-vuart'']"

definition vuart_set_host_tx_discard :: "'s soc \<Rightarrow> vuart \<Rightarrow> vuart_discard \<Rightarrow> ('s, int) state" where
  "vuart_set_host_tx_discard soc ctx st =
     val_then (soc_readl soc (rg_start (vu_iomem ctx) + VUART_GCRA)) (\<lambda>val.
       soc_writel soc (rg_start (vu_iomem ctx) + VUART_GCRA)
         (case st of discard_enable \<Rightarrow> val AND NOT VUART_GCRA_TX_DISCARD
          | discard_disable \<Rightarrow> val OR VUART_GCRA_TX_DISCARD))"

definition vuart_driver_init :: "'s soc \<Rightarrow> int \<Rightarrow> int + vuart" where
  "vuart_driver_init soc node =
     rbind (soc_device_get_memory (soc_fdt soc) node) (\<lambda>iomem. Inr \<lparr>vu_iomem = iomem\<rparr>)"

section \<open>The fields\<close>

text \<open>The position and the width of the selector of a destination.\<close>

fun mux_pos :: "mux_obj \<Rightarrow> nat \<times> nat" where
  "mux_pos (mux_obj_uart uart1) = (16, 3)"
| "mux_pos (mux_obj_uart uart2) = (19, 3)"
| "mux_pos (mux_obj_uart uart3) = (22, 3)"
| "mux_pos (mux_obj_uart uart4) = (25, 3)"
| "mux_pos (mux_obj_uart uart5) = (28, 4)"
| "mux_pos (mux_obj_io io1) = (0, 3)"
| "mux_pos (mux_obj_io io2) = (3, 3)"
| "mux_pos (mux_obj_io io3) = (6, 3)"
| "mux_pos (mux_obj_io io4) = (9, 3)"
| "mux_pos (mux_obj_io io5) = (12, 3)"
| "mux_pos (mux_obj_io io6) = (8, 4)"

definition mux_reg :: "mux_obj \<Rightarrow> u32" where
  "mux_reg d = (if d = mux_obj_io io6 then LPC_HICR9 else LPC_HICRA)"

definition mux_field :: "mux_obj \<Rightarrow> u32" where
  "mux_field d = push_bit (fst (mux_pos d)) (mask (snd (mux_pos d)))"

lemma mux_mask_low: "(0b111 :: u32) = mask 3" "(0b1111 :: u32) = mask 4"
  by (simp_all add: mask_eq_exp_minus_1)

lemma mux_row_entry:
  assumes "(d, md) \<in> set (mux_row s)"
  shows "md_mask md = mux_field d" "md_reg md = mux_reg d" "unat (md_val md) < 2 ^ snd (mux_pos d)"
proof -
  have "md_mask md = mux_field d \<and> md_reg md = mux_reg d \<and> unat (md_val md) < 2 ^ snd (mux_pos d)"
    using assms unfolding mux_field_def
    by (cases s rule: mux_row.cases)
      (auto simp: to_uart_def to_io_def mux_masks mux_mask_low mux_reg_def)
  then show "md_mask md = mux_field d" "md_reg md = mux_reg d" "unat (md_val md) < 2 ^ snd (mux_pos d)"
    by blast+
qed

lemma mux_lookup_entry: "md_mask (mux_lookup s d) \<noteq> 0 \<Longrightarrow> (d, mux_lookup s d) \<in> set (mux_row s)"
  by (auto simp: mux_lookup_def dest: map_of_SomeD split: option.splits)

lemma mux_pos_fits: "0 < snd (mux_pos d) \<and> fst (mux_pos d) + snd (mux_pos d) \<le> 32"
  by (cases d rule: mux_pos.cases) simp_all

lemma bit_mux_field: "bit (mux_field d) i \<longleftrightarrow> fst (mux_pos d) \<le> i \<and> i < fst (mux_pos d) + snd (mux_pos d)"
  using mux_pos_fits [of d] by (auto simp: mux_field_def bit_simps)

lemma ffs_mux_field: "ffs (mux_field d) = fst (mux_pos d) + 1"
proof -
  let ?k = "fst (mux_pos d)"
  have k: "?k < 32" "0 < snd (mux_pos d)" using mux_pos_fits [of d] by simp_all
  have "[0..<32] = [0..<?k] @ [?k..<32]" using k upt_add_eq_append [of 0 ?k "32 - ?k"] by simp
  moreover have "[?k..<32] = ?k # [Suc ?k..<32]" using k by (intro upt_conv_Cons) simp
  ultimately have "takeWhile (\<lambda>i. \<not> bit (mux_field d) i) [0..<32] = [0..<?k]"
    using k by (simp add: bit_mux_field takeWhile_tail)
  moreover have "mux_field d \<noteq> 0" using bit_mux_field [of d ?k] k by auto
  ultimately show ?thesis by (simp add: ffs_def)
qed

text \<open>Two destinations never share a bit of a register.\<close>

lemma mux_fields_disjoint:
  assumes "a \<noteq> b" "mux_reg a = mux_reg b"
  shows "mux_field a AND mux_field b = 0"
proof -
  have "fst (mux_pos a) + snd (mux_pos a) \<le> fst (mux_pos b) \<or> fst (mux_pos b) + snd (mux_pos b) \<le> fst (mux_pos a)"
    using assms
    by (cases a rule: mux_pos.cases; cases b rule: mux_pos.cases)
      (simp_all add: mux_reg_def LPC_HICR9_def LPC_HICRA_def)
  then show ?thesis
    by (intro bit_word_eqI) (auto simp: bit_and_iff bit_mux_field)
qed

definition mux_value :: "mux_obj \<Rightarrow> mux_obj \<Rightarrow> u32" where
  "mux_value s d = push_bit (fst (mux_pos d)) (ucast (md_val (mux_lookup s d)))"

lemma mux_value_fits:
  assumes "md_mask (mux_lookup s d) \<noteq> 0"
  shows "mux_value s d AND NOT (mux_field d) = 0" "mux_value s d AND mux_field d = mux_value s d"
proof -
  let ?v = "md_val (mux_lookup s d)" and ?w = "snd (mux_pos d)"
  have "unat ?v < 2 ^ ?w" by (rule mux_row_entry(3) [OF mux_lookup_entry [OF assms]])
  then have v: "take_bit ?w (unat ?v) = unat ?v" by (simp add: take_bit_nat_eq_self)
  have "i < ?w" if "bit ?v i" for i
  proof -
    have "bit (take_bit ?w (unat ?v)) i" unfolding v using that by (simp add: bit_unsigned_iff)
    then show ?thesis by (simp add: bit_take_bit_iff)
  qed
  then have sub: "bit (mux_value s d) i \<Longrightarrow> bit (mux_field d) i" for i
    unfolding bit_mux_field by (fastforce simp: mux_value_def bit_simps)
  then show "mux_value s d AND NOT (mux_field d) = 0" "mux_value s d AND mux_field d = mux_value s d"
    by (auto intro!: bit_word_eqI simp: bit_simps)
qed

definition mux_routed :: "(u32 \<Rightarrow> u32) \<Rightarrow> uart_mux \<Rightarrow> mux_obj \<Rightarrow> mux_obj \<Rightarrow> bool" where
  "mux_routed r ctx s d \<longleftrightarrow> r (rg_start (um_lpc ctx) + mux_reg d) AND mux_field d = mux_value s d"

locale mux_bus = soc_bus ops invar reg plain_eff soc
  for ops :: "'s ahb_ops" and invar reg and soc :: "'s soc" +
  fixes ctx :: uart_mux
  assumes lpc: "word_aligned (rg_start (um_lpc ctx))"
begin

lemma mux_reg_aligned [simp]: "word_aligned (mux_reg d)"
  by (simp add: mux_reg_def LPC_HICR9_def LPC_HICRA_def)

lemma route:
  assumes "invar s" "md_mask (mux_lookup a d) \<noteq> 0" "r = run_state (uart_mux_route soc ctx a d) s"
    and "x = rg_start (um_lpc ctx) + mux_reg d"
  shows "fst r = 0 \<and> invar (snd r) \<and>
    reg (snd r) = (reg s)(x := (reg s x AND NOT (mux_field d)) OR mux_value a d)"
proof -
  have "word_aligned x" using lpc assms(4) by simp
  then show ?thesis
    using assms(1,2) mux_row_entry [OF mux_lookup_entry [OF assms(2)]]
    by (simp add: assms(3) assms(4) [symmetric] uart_mux_route_def lpc_readl_def lpc_writel_def
        plain_eff_def Let_def ffs_mux_field mux_value_def)
qed

lemma routes_itself: "mux_routed ((reg s)(x := (v AND NOT (mux_field d)) OR mux_value a d)) ctx a d"
  if "x = rg_start (um_lpc ctx) + mux_reg d" "md_mask (mux_lookup a d) \<noteq> 0"
  using mux_value_fits [OF that(2)] that(1)
  by (simp add: mux_routed_def bit.conj_disj_distrib2 and.assoc)

lemma connect:
  assumes "invar s" "md_mask (mux_lookup a b) \<noteq> 0" "md_mask (mux_lookup b a) \<noteq> 0" "a \<noteq> b"
    and "r = run_state (uart_mux_connect soc ctx a b) s"
  shows "fst r = 0 \<and> invar (snd r) \<and> mux_routed (reg (snd r)) ctx a b \<and> mux_routed (reg (snd r)) ctx b a \<and>
    (\<forall>d. d \<noteq> a \<longrightarrow> d \<noteq> b \<longrightarrow> reg (snd r) (rg_start (um_lpc ctx) + mux_reg d) AND mux_field d =
       reg s (rg_start (um_lpc ctx) + mux_reg d) AND mux_field d) \<and>
    (\<forall>x. x \<notin> {rg_start (um_lpc ctx) + LPC_HICR9, rg_start (um_lpc ctx) + LPC_HICRA} \<longrightarrow> reg (snd r) x = reg s x)"
proof -
  let ?x = "\<lambda>d. rg_start (um_lpc ctx) + mux_reg d"
  let ?set = "\<lambda>g s d. g(?x d := (g (?x d) AND NOT (mux_field d)) OR mux_value s d)"
  note r1 = route [OF assms(1,2) refl refl]
  let ?s1 = "snd (run_state (uart_mux_route soc ctx a b) s)"
  note r2 = route [OF _ assms(3) refl refl, of ?s1]
  have regs: "fst r = 0" "invar (snd r)" "reg (snd r) = ?set (?set (reg s) a b) b a"
    using r1 r2 by (auto simp: assms(5) uart_mux_connect_def)
  have other: "?set g u d (?x e) AND mux_field e = g (?x e) AND mux_field e"
    if "d \<noteq> e" "md_mask (mux_lookup u d) \<noteq> 0" for g u d e
  proof (cases "mux_reg d = mux_reg e")
    case True
    note dis = mux_fields_disjoint [OF that(1) True]
    have "mux_value u d AND mux_field e = (mux_value u d AND mux_field d) AND mux_field e"
      by (simp only: mux_value_fits(2) [OF that(2)])
    then have v: "mux_value u d AND mux_field e = 0" using dis by (simp add: and.assoc)
    have "(g (?x d) AND NOT (mux_field d)) AND mux_field e = g (?x d) AND mux_field e"
      using dis by (intro bit_word_eqI) (auto simp: bit_simps dest!: arg_cong [where f = "\<lambda>w. bit w n" for n])
    then show ?thesis using True v by (simp add: bit.conj_disj_distrib2)
  qed simp
  have "mux_routed (?set (?set (reg s) a b) b a) ctx a b"
    using other [of a b b "?set (reg s) a b"] routes_itself [OF refl assms(2), of s "reg s (?x b)"] assms(3,4)
    by (simp add: mux_routed_def)
  moreover have "mux_routed (?set (?set (reg s) a b) b a) ctx b a"
    using mux_value_fits [OF assms(3)] by (simp add: mux_routed_def bit.conj_disj_distrib2 and.assoc)
  moreover have "reg (snd r) (?x d) AND mux_field d = reg s (?x d) AND mux_field d" if "d \<noteq> a" "d \<noteq> b" for d
    using other [of a d b "?set (reg s) a b"] other [of b d a "reg s"] that assms(2,3) unfolding regs(3) by metis
  moreover have "reg (snd r) x = reg s x"
    if "x \<notin> {rg_start (um_lpc ctx) + LPC_HICR9, rg_start (um_lpc ctx) + LPC_HICRA}" for x
    using that unfolding regs(3) by (auto simp: mux_reg_def)
  ultimately show ?thesis
    using regs by auto
qed

lemma restore:
  assumes "invar s" "um_hicr9 ctx = g (rg_start (um_lpc ctx) + LPC_HICR9)"
    and "um_hicra ctx = g (rg_start (um_lpc ctx) + LPC_HICRA)"
    and "\<And>x. x \<notin> {rg_start (um_lpc ctx) + LPC_HICR9, rg_start (um_lpc ctx) + LPC_HICRA} \<Longrightarrow> reg s x = g x"
  shows "fst (run_state (uart_mux_restore soc ctx) s) = 0 \<and> reg (snd (run_state (uart_mux_restore soc ctx) s)) = g"
proof -
  have a: "word_aligned (rg_start (um_lpc ctx) + LPC_HICR9)" "word_aligned (rg_start (um_lpc ctx) + LPC_HICRA)"
    using lpc by (simp_all add: LPC_HICR9_def LPC_HICRA_def)
  show ?thesis
    using a assms by (auto simp: uart_mux_restore_def lpc_writel_def plain_eff_def fun_eq_iff)
qed

end

lemma mux_no_loop: "md_mask (mux_lookup a a) = 0"
  by (cases a rule: mux_row.cases) (simp_all add: mux_lookup_def to_uart_def to_io_def)

definition mux_example :: uart_mux where
  "mux_example = \<lparr>um_lpc = \<lparr>rg_start = 0x1e789000, rg_length = 0x1000\<rparr>, um_hicr9 = 0, um_hicra = 0\<rparr>"

interpretation p2a_mux: mux_bus "p2ab_ahb_ops (p2a_mmio (regfile plain_eff)) 0" p2a_ok p2a_regs
    "p2a_soc rv dt (regfile plain_eff)" mux_example
  by (rule mux_bus.intro [OF p2a_soc.soc_bus_axioms]) (simp add: mux_bus_axioms_def mux_example_def)

section \<open>Properties\<close>

text \<open>
  Connecting two ports routes each to the other and disturbs no other route: wherever
  the table has both directions, \<open>uart_mux_connect\<close> succeeds, the selectors of both ports hold
  the value of the other, and the selectors of all other ports and every other register are as
  before. \<open>uart_mux_restore\<close> with the values saved before then gives back every register.
\<close>

theorem uart_mux_connect_restores:
  assumes "mux_bus ops invar reg soc ctx" "invar s"
    and "md_mask (mux_lookup a b) \<noteq> 0" "md_mask (mux_lookup b a) \<noteq> 0"
    and "um_hicr9 ctx = reg s (rg_start (um_lpc ctx) + LPC_HICR9)"
    and "um_hicra ctx = reg s (rg_start (um_lpc ctx) + LPC_HICRA)"
    and "r = run_state (uart_mux_connect soc ctx a b) s"
  shows "fst r = 0 \<and> mux_routed (reg (snd r)) ctx a b \<and> mux_routed (reg (snd r)) ctx b a \<and>
    (\<forall>d. d \<noteq> a \<longrightarrow> d \<noteq> b \<longrightarrow> reg (snd r) (rg_start (um_lpc ctx) + mux_reg d) AND mux_field d =
       reg s (rg_start (um_lpc ctx) + mux_reg d) AND mux_field d) \<and>
    reg (snd (run_state (uart_mux_restore soc ctx) (snd r))) = reg s"
proof -
  have "a \<noteq> b" using assms(3) mux_no_loop by metis
  note c = mux_bus.connect [OF assms(1-4) this assms(7)]
  then show ?thesis
    using mux_bus.restore [OF assms(1) _ assms(5,6), of "snd r"] by blast
qed

theorem uart_mux_connect_restores_witness:
  "fst (run_state (uart_mux_connect (p2a_soc 0 example_fdt (regfile plain_eff)) mux_example
     (mux_obj_io io1) (mux_obj_uart uart5)) (p2a_start (\<lambda>_. 0))) = 0"
  using uart_mux_connect_restores [OF p2a_mux.mux_bus_axioms [of 0 example_fdt] p2a_start_inv [of "\<lambda>_. 0"] _ _ _ _ refl,
      where a = "mux_obj_io io1" and b = "mux_obj_uart uart5"]
  by (simp add: mux_lookup_def to_uart_def to_io_def mux_masks mux_example_def)

end
