(* ===== verification/Jtag.thy ===== *)
theory Jtag
  imports Strap
begin

text \<open>
  The JTAG master, \<^verbatim>\<open>src/soc/jtag.c\<close>, and the bit-bang server on top of it,
  \<open>run_openocd_bitbang_server\<close> of \<^verbatim>\<open>src/cmd/jtag.c\<close>: what one client session does to the
  pins and what it answers. The reference is the session on the wire itself.
\<close>

section \<open>Registers and state\<close>

definition AST_JTAG_EC :: u32 where "AST_JTAG_EC = 0x08"
definition AST_JTAG_SW_MODE :: u32 where "AST_JTAG_SW_MODE = 0x10"
definition AST_JTAG_EC_ENG_EN :: u32 where "AST_JTAG_EC_ENG_EN = BIT 31"
definition AST_JTAG_EC_ENG_OUT_EN :: u32 where "AST_JTAG_EC_ENG_OUT_EN = BIT 30"
definition AST_JTAG_EC_FORCE_TMS :: u32 where "AST_JTAG_EC_FORCE_TMS = BIT 29"
definition AST_JTAG_SW_MODE_EN :: u32 where "AST_JTAG_SW_MODE_EN = BIT 19"
definition AST_JTAG_SW_MODE_TCK :: u32 where "AST_JTAG_SW_MODE_TCK = BIT 18"
definition AST_JTAG_SW_MODE_TMS :: u32 where "AST_JTAG_SW_MODE_TMS = BIT 17"
definition AST_JTAG_SW_MODE_TDIO :: u32 where "AST_JTAG_SW_MODE_TDIO = BIT 16"
definition AST2400_SCU_RESET_CTRL :: u32 where "AST2400_SCU_RESET_CTRL = 0x04"
definition AST2600_SCU_RESET_CTRL :: u32 where "AST2600_SCU_RESET_CTRL = 0x40"
definition SCU_RESET_CTRL_JTAG_MASTER :: u32 where "SCU_RESET_CTRL_JTAG_MASTER = BIT 22"
definition AST2400_SCU_MISC_CTRL :: u32 where "AST2400_SCU_MISC_CTRL = 0x2c"
definition AST2600_SCU_MISC_CTRL :: u32 where "AST2600_SCU_MISC_CTRL = 0xc0"
definition SCU_MISC_CTRL_JTAG_MASK :: u32 where "SCU_MISC_CTRL_JTAG_MASK = BIT 15 OR BIT 14"
definition SCU_JTAG_NORMAL :: u32 where "SCU_JTAG_NORMAL = 0"
definition SCU_JTAG_IO_TO_PCIE :: u32 where "SCU_JTAG_IO_TO_PCIE = BIT 14"
definition SCU_JTAG_MASTER_TO_PCIE :: u32 where "SCU_JTAG_MASTER_TO_PCIE = BIT 15"
definition SCU_JTAG_MASTER_TO_ARM :: u32 where "SCU_JTAG_MASTER_TO_ARM = BIT 15 OR BIT 14"

lemmas jtag_sw_bits = AST_JTAG_SW_MODE_EN_def AST_JTAG_SW_MODE_TCK_def AST_JTAG_SW_MODE_TMS_def
  AST_JTAG_SW_MODE_TDIO_def

record 's jtag_ops =
  jo_release :: "scu \<Rightarrow> ('s, int) state"
  jo_route :: "scu \<Rightarrow> u32 \<Rightarrow> ('s, int) state"

record 's jtag =
  jt_ops :: "'s jtag_ops"
  jt_regs :: soc_region
  jt_scu :: scu
  jt_refcnt :: int

section \<open>The driver\<close>

definition jtag_readl :: "'s soc \<Rightarrow> 's jtag \<Rightarrow> u32 \<Rightarrow> ('s, int + u32) state" where
  "jtag_readl soc ctx r = soc_readl soc (rg_start (jt_regs ctx) + r)"

definition jtag_writel :: "'s soc \<Rightarrow> 's jtag \<Rightarrow> u32 \<Rightarrow> u32 \<Rightarrow> ('s, int) state" where
  "jtag_writel soc ctx r v = soc_writel soc (rg_start (jt_regs ctx) + r) v"

definition jtag_route :: "'s jtag \<Rightarrow> u32 \<Rightarrow> ('s, int) state" where
  "jtag_route ctx route =
     (if route AND NOT SCU_MISC_CTRL_JTAG_MASK \<noteq> 0 then ret (- EINVAL)
      else jo_route (jt_ops ctx) (jt_scu ctx) route)"

definition flag :: "u8 \<Rightarrow> u32 \<Rightarrow> u32" where
  "flag b m = (if b \<noteq> 0 then m else 0)"

definition jtag_bitbang_set :: "'s soc \<Rightarrow> 's jtag \<Rightarrow> u8 \<Rightarrow> u8 \<Rightarrow> u8 \<Rightarrow> ('s, int) state" where
  "jtag_bitbang_set soc ctx tck tms tdi =
     jtag_writel soc ctx AST_JTAG_SW_MODE
       (AST_JTAG_SW_MODE_EN OR flag tck AST_JTAG_SW_MODE_TCK OR flag tms AST_JTAG_SW_MODE_TMS OR
        flag tdi AST_JTAG_SW_MODE_TDIO)"

text \<open>The value is set whatever the status: 0 where the register could not be read.\<close>

definition jtag_bitbang_get :: "'s soc \<Rightarrow> 's jtag \<Rightarrow> ('s, int \<times> u8) state" where
  "jtag_bitbang_get soc ctx = do {
     r \<leftarrow> jtag_readl soc ctx AST_JTAG_SW_MODE;
     (case r of
        Inl rc \<Rightarrow> ret (rc, 0)
      | Inr v \<Rightarrow> ret (0, if v AND AST_JTAG_SW_MODE_TDIO \<noteq> 0 then 1 else 0)) }"

definition ast2400_jtag_release :: "'s soc \<Rightarrow> scu \<Rightarrow> ('s, int) state" where
  "ast2400_jtag_release soc scu =
     val_then (scu_readl soc scu AST2400_SCU_RESET_CTRL) (\<lambda>r.
       neg_then (scu_writel soc scu AST2400_SCU_RESET_CTRL (r AND NOT SCU_RESET_CTRL_JTAG_MASTER)) (ret 0))"

definition ast2400_jtag_route :: "'s soc \<Rightarrow> scu \<Rightarrow> u32 \<Rightarrow> ('s, int) state" where
  "ast2400_jtag_route soc scu route =
     val_then (scu_readl soc scu AST2400_SCU_MISC_CTRL) (\<lambda>r.
       neg_then (scu_writel soc scu AST2400_SCU_MISC_CTRL ((r AND NOT SCU_MISC_CTRL_JTAG_MASK) OR route))
         (ret 0))"

definition ast2400_jtag_ops :: "'s soc \<Rightarrow> 's jtag_ops" where
  "ast2400_jtag_ops soc = \<lparr>jo_release = ast2400_jtag_release soc, jo_route = ast2400_jtag_route soc\<rparr>"

definition ast2600_jtag_release :: "'s soc \<Rightarrow> scu \<Rightarrow> ('s, int) state" where
  "ast2600_jtag_release soc scu =
     scu_writel soc scu (AST2600_SCU_RESET_CTRL + 4) SCU_RESET_CTRL_JTAG_MASTER"

definition ast2600_jtag_route :: "'s soc \<Rightarrow> scu \<Rightarrow> u32 \<Rightarrow> ('s, int) state" where
  "ast2600_jtag_route soc scu route =
     val_then (scu_readl soc scu AST2600_SCU_MISC_CTRL) (\<lambda>r.
       neg_then (scu_writel soc scu AST2600_SCU_MISC_CTRL ((r AND NOT SCU_MISC_CTRL_JTAG_MASK) OR route))
         (ret 0))"

definition ast2600_jtag_ops :: "'s soc \<Rightarrow> 's jtag_ops" where
  "ast2600_jtag_ops soc = \<lparr>jo_release = ast2600_jtag_release soc, jo_route = ast2600_jtag_route soc\<rparr>"

definition jtag_match :: "'s soc \<Rightarrow> (string \<times> 's jtag_ops) list" where
  "jtag_match soc = [(''aspeed,ast2400-jtag'', ast2400_jtag_ops soc),
     (''aspeed,ast2500-jtag'', ast2400_jtag_ops soc), (''aspeed,ast2600-jtag'', ast2600_jtag_ops soc)]"

text \<open>
  \<open>jtag_driver_init\<close>: the controller and the counted reference to the SCU, which no later
  failure gives back.
\<close>

definition jtag_driver_init ::
  "'s soc \<Rightarrow> scu option \<Rightarrow> int \<Rightarrow> ('s, int + 's jtag) state" where
  "jtag_driver_init soc scu node =
     (case soc_device_get_match_data (soc_fdt soc) (jtag_match soc) node of
        None \<Rightarrow> ret (Inl (- EINVAL))
      | Some ops \<Rightarrow>
        (case soc_device_get_memory (soc_fdt soc) node of
           Inl rc \<Rightarrow> ret (Inl rc)
         | Inr regs \<Rightarrow>
           (case scu of
              None \<Rightarrow> ret (Inl (- ENODEV))
            | Some scu \<Rightarrow>
                let ctx = \<lparr>jt_ops = ops, jt_regs = regs, jt_scu = scu_get scu, jt_refcnt = 1\<rparr>;
                    en = AST_JTAG_EC_ENG_EN OR AST_JTAG_EC_ENG_OUT_EN
                in do {
                  rc \<leftarrow> neg_then (jo_release ops (jt_scu ctx))
                    (neg_then (jtag_writel soc ctx AST_JTAG_EC en)
                    (neg_then (jtag_writel soc ctx AST_JTAG_EC (en OR AST_JTAG_EC_FORCE_TMS))
                    (neg_then (jtag_writel soc ctx AST_JTAG_SW_MODE AST_JTAG_SW_MODE_EN) (ret 0))));
                  ret (if rc < 0 then Inl rc else Inr ctx) })))"

text \<open>\<open>jtag_get\<close> of a driver instance, and \<open>jtag_put\<close>: \<open>None\<close> once it is freed.\<close>

definition jtag_get :: "'s jtag \<Rightarrow> 's jtag" where
  "jtag_get ctx = ctx\<lparr>jt_refcnt := jt_refcnt ctx + 1\<rparr>"

definition jtag_put :: "'s jtag \<Rightarrow> 's jtag option" where
  "jtag_put ctx =
     (let ctx = ctx\<lparr>jt_refcnt := jt_refcnt ctx - 1\<rparr> in if jt_refcnt ctx = 0 then None else Some ctx)"

section \<open>The bit-bang server\<close>

text \<open>
  One client session of \<open>run_openocd_bitbang_server\<close>, from the accepted connection on. The
  client is given by the bytes it sends before it closes the connection, and \<open>wr\<close> is
  \<open>write(2)\<close> of one byte to it. The result is the return value and the descriptors that are
  closed: the client's is leaked unless the client quits, and both are after a failure.
\<close>

datatype jtag_fd = client_fd | server_fd

definition jtag_state_command :: "u8 \<Rightarrow> bool" where
  "jtag_state_command c \<longleftrightarrow> 0x30 \<le> c \<and> c \<le> 0x37"

fun jtag_session :: "'s soc \<Rightarrow> 's jtag \<Rightarrow> (u8 \<Rightarrow> ('s, int) state) \<Rightarrow> u8 list \<Rightarrow>
    ('s, int \<times> jtag_fd list) state" where
  "jtag_session soc jtag wr [] = ret (1, [server_fd])"
| "jtag_session soc jtag wr (command # cs) =
     (if command = 0x42 \<or> command = 0x62 then jtag_session soc jtag wr cs
      else if command = 0x52 then do {
        (rc, tdo) \<leftarrow> jtag_bitbang_get soc jtag;
        (if rc < 0 then ret (1, [])
         else do {
           rc \<leftarrow> wr (tdo + 0x30);
           (if rc < 0 then ret (1, []) else jtag_session soc jtag wr cs) }) }
      else if command = 0x51 then ret (1, [client_fd, server_fd])
      else if jtag_state_command command then do {
        let state = command - 0x30;
        rc \<leftarrow> jtag_bitbang_set soc jtag (state AND 4) (state AND 2) (state AND 1);
        (if rc < 0 then ret (1, []) else jtag_session soc jtag wr cs) }
      else jtag_session soc jtag wr cs)"

section \<open>A session on the wire\<close>

text \<open>
  What is connected to the pins: it moves when the clock, mode and data pins are set, and
  drives its data output. The register target \<open>jtag_target\<close> is a controller at \<open>base\<close> in software
  mode (section JTAG10 of the SoC's manual as the code uses it): a store that has the enable bit
  sets the pins, a load gives the data output in the bit of the data pin.
\<close>

record 'w wire =
  w_pins :: "bool \<Rightarrow> bool \<Rightarrow> bool \<Rightarrow> 'w \<Rightarrow> 'w"
  w_tdo :: "'w \<Rightarrow> bool"

definition jtag_target :: "u32 \<Rightarrow> 'w wire \<Rightarrow> ((u32 \<Rightarrow> u32) \<times> 'w) target" where
  "jtag_target base wire = \<lparr>
     tgt_ld8 = (\<lambda>a. gets (\<lambda>t. 0)),
     tgt_st8 = (\<lambda>a b. ret ()),
     tgt_ld32 = (\<lambda>a. gets (\<lambda>(r, w).
       if a = base + AST_JTAG_SW_MODE
       then (r a AND NOT AST_JTAG_SW_MODE_TDIO) OR (if w_tdo wire w then AST_JTAG_SW_MODE_TDIO else 0)
       else r a)),
     tgt_st32 = (\<lambda>a v. modify (\<lambda>(r, w).
       (r(a := v),
        if a = base + AST_JTAG_SW_MODE \<and> v AND AST_JTAG_SW_MODE_EN \<noteq> 0
        then w_pins wire (v AND AST_JTAG_SW_MODE_TCK \<noteq> 0) (v AND AST_JTAG_SW_MODE_TMS \<noteq> 0)
               (v AND AST_JTAG_SW_MODE_TDIO \<noteq> 0) w
        else w))) \<rparr>"

text \<open>The bytes a client gets and where the wire ends up, by the remote bit-bang protocol.\<close>

fun wire_session :: "'w wire \<Rightarrow> u8 list \<Rightarrow> 'w \<Rightarrow> u8 list \<times> 'w" where
  "wire_session wire [] w = ([], w)"
| "wire_session wire (c # cs) w =
     (if c = 0x51 then ([], w)
      else if c = 0x52
      then (let (out, w') = wire_session wire cs w in ((if w_tdo wire w then 0x31 else 0x30) # out, w'))
      else if 0x30 \<le> c \<and> c \<le> 0x37
      then wire_session wire cs (w_pins wire (bit (c - 0x30) 2) (bit (c - 0x30) 1) (bit (c - 0x30) 0) w)
      else wire_session wire cs w)"

definition session_quits :: "u8 list \<Rightarrow> bool" where
  "session_quits cs \<longleftrightarrow> 0x51 \<in> set cs"

lemma flag_pin:
  fixes tck tms tdi :: u8
  defines "v \<equiv> AST_JTAG_SW_MODE_EN OR flag tck AST_JTAG_SW_MODE_TCK OR flag tms AST_JTAG_SW_MODE_TMS OR
        flag tdi AST_JTAG_SW_MODE_TDIO"
  shows "v AND AST_JTAG_SW_MODE_EN \<noteq> 0"
    and "v AND AST_JTAG_SW_MODE_TCK \<noteq> 0 \<longleftrightarrow> tck \<noteq> 0"
    and "v AND AST_JTAG_SW_MODE_TMS \<noteq> 0 \<longleftrightarrow> tms \<noteq> 0"
    and "v AND AST_JTAG_SW_MODE_TDIO \<noteq> 0 \<longleftrightarrow> tdi \<noteq> 0"
  by (simp_all add: v_def flag_def jtag_sw_bits BIT_def)

lemma and_bit_u8: "(c :: u8) AND 4 \<noteq> 0 \<longleftrightarrow> bit c 2" "c AND 2 \<noteq> 0 \<longleftrightarrow> bit c 1" "c AND 1 \<noteq> 0 \<longleftrightarrow> bit c 0"
  using and_exp_eq_0_iff_not_bit [of c 2] and_exp_eq_0_iff_not_bit [of c 1] and_exp_eq_0_iff_not_bit [of c 0]
  by simp_all

lemma jtag_target_sw_mode:
  "snd (snd (run_state (tgt_st32 (jtag_target base wire) (base + AST_JTAG_SW_MODE) v) t)) =
     (if v AND AST_JTAG_SW_MODE_EN \<noteq> 0
      then w_pins wire (v AND AST_JTAG_SW_MODE_TCK \<noteq> 0) (v AND AST_JTAG_SW_MODE_TMS \<noteq> 0)
             (v AND AST_JTAG_SW_MODE_TDIO \<noteq> 0) (snd t)
      else snd t)"
  "fst (run_state (tgt_ld32 (jtag_target base wire) (base + AST_JTAG_SW_MODE)) t) AND AST_JTAG_SW_MODE_TDIO =
     (if w_tdo wire (snd t) then AST_JTAG_SW_MODE_TDIO else 0)"
  "snd (run_state (tgt_ld32 (jtag_target base wire) a) t) = t"
  by (simp_all add: jtag_target_def split_def bit.conj_disj_distrib2 and.assoc)

locale jtag_wire = soc_dev ops invar "jtag_target base wire" bus soc
  for ops :: "'s ahb_ops" and invar base and wire :: "'w wire" and bus and soc :: "'s soc" +
  fixes jtag :: "'s jtag"
    and wr :: "u8 \<Rightarrow> ('s, int) state"
    and sent :: "'s \<Rightarrow> u8 list"
  assumes regs: "rg_start (jt_regs jtag) = base" "word_aligned base"
    and client_rc: "0 \<le> fst (run_state (wr b) s)"
    and client_sent: "sent (snd (run_state (wr b) s)) = sent s @ [b]"
    and client_bus: "bus (snd (run_state (wr b) s)) = bus s"
    and client_inv: "invar s \<Longrightarrow> invar (snd (run_state (wr b) s))"
    and bus_sent: "sent (snd (run_state (ops_readl ops a) s)) = sent s"
      "sent (snd (run_state (ops_writel ops a v) s)) = sent s"
begin

lemma sw_mode_aligned: "word_aligned (base + AST_JTAG_SW_MODE)"
  using regs by (simp add: AST_JTAG_SW_MODE_def)

lemma bitbang_set:
  assumes "invar s" "r = run_state (jtag_bitbang_set soc jtag tck tms tdi) s"
  shows "fst r = 0 \<and> invar (snd r) \<and> sent (snd r) = sent s \<and>
    snd (bus (snd r)) = w_pins wire (tck \<noteq> 0) (tms \<noteq> 0) (tdi \<noteq> 0) (snd (bus s))"
  using assms(1) sw_mode_aligned regs flag_pin [of tck tms tdi]
  by (simp add: assms(2) jtag_bitbang_set_def jtag_writel_def jtag_target_sw_mode)
    (simp add: soc_writel_def ahb_writel_def dev_ops bus_sent)

lemma bitbang_get:
  assumes "invar s" "r = run_state (jtag_bitbang_get soc jtag) s"
  shows "fst r = (0, if w_tdo wire (snd (bus s)) then 1 else 0) \<and> invar (snd r) \<and> sent (snd r) = sent s \<and>
    bus (snd r) = bus s"
proof -
  have "AST_JTAG_SW_MODE_TDIO \<noteq> 0" by (simp add: jtag_sw_bits BIT_def)
  moreover have "sent (snd (run_state (soc_readl soc a) s)) = sent s" for a
    by (simp add: soc_readl_def ahb_readl_def dev_ops bus_sent)
  ultimately show ?thesis
    using assms(1) sw_mode_aligned regs
    by (simp add: assms(2) jtag_bitbang_get_def jtag_readl_def jtag_target_sw_mode)
qed

lemma session:
  assumes "invar s" "r = run_state (jtag_session soc jtag wr cs) s"
  shows "invar (snd r) \<and> sent (snd r) = sent s @ fst (wire_session wire cs (snd (bus s))) \<and>
    snd (bus (snd r)) = snd (wire_session wire cs (snd (bus s))) \<and>
    fst r = (1, if session_quits cs then [client_fd, server_fd] else [server_fd])"
  using assms
proof (induction cs arbitrary: s r)
  case Nil
  then show ?case by (simp add: session_quits_def)
next
  case (Cons c cs)
  note IH = Cons.IH [OF _ refl] and inv = Cons.prems(1)
  consider "c = 0x42 \<or> c = 0x62" | "c = 0x52" | "c = 0x51" | "0x30 \<le> c \<and> c \<le> 0x37"
    | "c \<notin> {0x42, 0x62, 0x52, 0x51}" "\<not> (0x30 \<le> c \<and> c \<le> 0x37)" by auto
  then show ?case
  proof cases
    case 2
    note g = bitbang_get [OF inv refl]
    let ?s = "snd (run_state (jtag_bitbang_get soc jtag) s)"
    let ?b = "(if w_tdo wire (snd (bus s)) then 1 else 0) + 0x30 :: u8"
    let ?s' = "snd (run_state (wr ?b) ?s)"
    have "sent ?s' = sent s @ [?b]" "bus ?s' = bus s" "invar ?s'"
      using g client_sent client_bus client_inv by metis+
    then show ?thesis
      using IH [of ?s'] 2 g client_rc [of ?b ?s]
      by (simp add: Cons.prems(2) session_quits_def split_def not_less Let_def)
  next
    case 4
    let ?d = "c - 0x30"
    have ne: "c \<noteq> 0x42" "c \<noteq> 0x62" "c \<noteq> 0x52" "c \<noteq> 0x51" using 4 by auto
    let ?q = "run_state (jtag_bitbang_set soc jtag (?d AND 4) (?d AND 2) (?d AND 1)) s"
    note g = bitbang_set [OF inv refl, of "?d AND 4" "?d AND 2" "?d AND 1", unfolded and_bit_u8]
    have step: "r = run_state (jtag_session soc jtag wr cs) (snd ?q)"
      using ne 4 g by (simp add: Cons.prems(2) jtag_state_command_def Let_def)
    have wire: "wire_session wire (c # cs) (snd (bus s)) = wire_session wire cs (snd (bus (snd ?q)))"
      using ne 4 g by simp
    show ?thesis
      unfolding wire using Cons.IH [OF _ step] g ne by (simp add: session_quits_def)
  qed (use IH [OF inv] inv Cons.prems(2) in \<open>auto simp: session_quits_def jtag_state_command_def\<close>)
qed

end

section \<open>The server over the P2A bridge\<close>

text \<open>A client that takes every byte, its log next to the state of the bridge.\<close>

definition log_write :: "u8 \<Rightarrow> ('s \<times> u8 list, int) state" where
  "log_write b = do { modify (\<lambda>p. (fst p, snd p @ [b])); ret 1 }"

definition jtag_example :: "'s soc \<Rightarrow> u32 \<Rightarrow> 's jtag" where
  "jtag_example soc base = \<lparr>jt_ops = ast2400_jtag_ops soc, jt_regs = \<lparr>rg_start = base, rg_length = 0x20\<rparr>,
     jt_scu = \<lparr>scu_refcnt = 1, scu_was_locked = False, scu_start = 0x1e6e2000\<rparr>, jt_refcnt = 1\<rparr>"

interpretation p2a_jtag: jtag_wire "ops_beside (p2ab_ahb_ops (p2a_mmio (jtag_target 0x1e6e4000 wire)) 0)"
    "\<lambda>p. p2a_ok (fst p)" "0x1e6e4000" wire "\<lambda>p. ph_bus (p2_hw (fst p))"
    "p2a_soc_beside rv dt (jtag_target 0x1e6e4000 wire)"
    "jtag_example (p2a_soc_beside rv dt (jtag_target 0x1e6e4000 wire)) 0x1e6e4000" log_write snd
  by (rule jtag_wire.intro [OF p2a_dev.soc_dev_axioms])
    (simp add: jtag_wire_axioms_def jtag_example_def log_write_def ops_beside_def)

section \<open>Properties\<close>

text \<open>
  Claim C8. A session of the bit-bang server is the session on the wire: whatever bytes a client
  sends, over any bus whose JTAG controller moves the pins as it is told, the client gets the
  bytes the protocol defines, the wire ends up where the protocol takes it, LED, reset and
  unknown commands change nothing, and commands after a quit are not looked at. The server closes
  both descriptors on a quit, and leaks the client's when the client closes the connection.
\<close>

theorem jtag_session_equiv:
  assumes "jtag_wire ops invar base wire bus soc jtag wr sent" "invar s"
    and "r = run_state (jtag_session soc jtag wr cs) s"
  shows "(sent (snd r), snd (bus (snd r))) =
      (sent s @ fst (wire_session wire cs (snd (bus s))), snd (wire_session wire cs (snd (bus s)))) \<and>
    fst r = (1, if session_quits cs then [client_fd, server_fd] else [server_fd])"
  using jtag_wire.session [OF assms] by simp

text \<open>The wire of the example is a counter of clock edges that drives its parity.\<close>

definition edge_counter :: "(bool \<times> nat) wire" where
  "edge_counter = \<lparr>w_pins = (\<lambda>tck tms tdi (c, n). (tck, if tck \<and> \<not> c then n + 1 else n)),
     w_tdo = (\<lambda>(c, n). odd n)\<rparr>"

theorem jtag_session_equiv_witness:
  "snd (snd (run_state (jtag_session (p2a_soc_beside 0 example_fdt (jtag_target 0x1e6e4000 edge_counter))
      (jtag_example (p2a_soc_beside 0 example_fdt (jtag_target 0x1e6e4000 edge_counter)) 0x1e6e4000)
      log_write [0x52, 0x30, 0x34, 0x42, 0x52, 0x30, 0x34, 0x52, 0x51, 0x52])
      (p2a_start (\<lambda>_. 0, False, 0), []))) = [0x30, 0x31, 0x30]"
  using jtag_session_equiv [OF p2a_jtag.jtag_wire_axioms [of edge_counter 0 example_fdt] _ refl,
      of "(p2a_start (\<lambda>_. 0, False, 0), [])"
        "[0x52, 0x30, 0x34, 0x42, 0x52, 0x30, 0x34, 0x52, 0x51, 0x52]"]
  by (simp add: edge_counter_def)

end
