(* ===== verification/Prompt.thy ===== *)
theory Prompt
  imports Partial
begin

text \<open>
  Conversations with a prompt, \<^verbatim>\<open>src/prompt.c\<close>: the stream behind it, writing and reading all of
  a buffer, waiting for a string, running a command. The operations of the stream are those of
  the C library on a descriptor and are parameters; a \<open>char\<close> is a byte. Most loops have no
  limit, so the operations are actions that may not return.
\<close>

section \<open>Strings of the C library\<close>

text \<open>The string in a buffer ends at its first zero byte.\<close>

definition c_str :: "string \<Rightarrow> string" where
  "c_str s = takeWhile (\<lambda>c. c \<noteq> CHR 0x00) s"

fun memmem :: "'a list \<Rightarrow> 'a list \<Rightarrow> nat option" where
  "memmem [] needle = (if needle = [] then Some 0 else None)"
| "memmem (c # cs) needle =
     (if take (length needle) (c # cs) = needle then Some 0 else map_option Suc (memmem cs needle))"

section \<open>Streams\<close>

text \<open>
  \<open>f_read n\<close> is \<open>read(2)\<close> of up to \<open>n\<close> bytes, \<open>f_write\<close> is \<open>write(2)\<close>, \<open>f_gets n\<close> is
  \<open>fgets(3)\<close> into \<open>n\<close> bytes. A failure is a negated \<open>errno\<close>, which for \<open>fgets\<close> at the end of
  the input is whatever was there before, 0 perhaps.
\<close>

record 's file_ops =
  f_read :: "nat \<Rightarrow> ('s, int + string) state"
  f_write :: "string \<Rightarrow> ('s, int) state"
  f_gets :: "nat \<Rightarrow> ('s, int + string) state"
  f_close :: "('s, int) state"

record 's prompt =
  pr_stream :: "'s file_ops"
  pr_eol :: string
  pr_have_echo :: bool

definition act_neg :: "('s, int) act \<Rightarrow> ('s, int) act \<Rightarrow> ('s, int) act" where
  "act_neg m k = act_bind m (\<lambda>rc. if rc < 0 then act_ret rc else k)"

lemma act_neg_run [simp]:
  "m s = Some r \<Longrightarrow> act_neg m k s = (if fst r < 0 then Some r else k (snd r))"
  by (simp add: act_neg_def)

section \<open>Operations\<close>

definition prompt_init :: "int + 's file_ops \<Rightarrow> string \<Rightarrow> bool \<Rightarrow> int + 's prompt" where
  "prompt_init stream eol echo =
     rbind stream (\<lambda>f. Inr \<lparr>pr_stream = f, pr_eol = eol, pr_have_echo = echo\<rparr>)"

definition prompt_destroy :: "'s prompt \<Rightarrow> ('s, int) state" where
  "prompt_destroy ctx = neg_then (f_close (pr_stream ctx)) (ret 0)"

text \<open>
  \<open>prompt_gets\<close>: the status and what is in the output afterwards. The length given to
  \<open>fgets\<close> does not shrink as the output fills, so a line that takes a second round is stored
  past the end of the output: \<open>None\<close>, like a loop that does not end. \<open>old\<close> is what the output
  held before, which a first failing round leaves.
\<close>

partial_function (option) prompt_gets_loop ::
  "'s prompt \<Rightarrow> nat \<Rightarrow> string \<Rightarrow> string \<Rightarrow> 's \<Rightarrow> ((int \<times> string) \<times> 's) option" where
  "prompt_gets_loop ctx len old out s =
     (let (r, s1) = run_state (f_gets (pr_stream ctx) len) s
      in case r of
           Inl e \<Rightarrow> Some ((e, old), s1)
         | Inr chunk \<Rightarrow>
             if length out + length chunk + 1 > len then None
             else let out = out @ c_str chunk
                  in if CHR 0x0a \<in> set out then Some ((0, out), s1)
                     else prompt_gets_loop ctx len out out s1)"

definition prompt_gets :: "'s prompt \<Rightarrow> string \<Rightarrow> nat \<Rightarrow> ('s, int \<times> string) act" where
  "prompt_gets ctx old len = prompt_gets_loop ctx len old []"

text \<open>
  \<open>prompt_expect_into\<close>: what was read, and where in it the string begins, unless the buffer
  filled up before it came.
\<close>

partial_function (option) prompt_expect_into ::
  "'s prompt \<Rightarrow> string \<Rightarrow> string \<Rightarrow> nat \<Rightarrow> 's \<Rightarrow> ((int + string \<times> nat option) \<times> 's) option" where
  "prompt_expect_into ctx str prior len s =
     (let (r, s1) = run_state (f_read (pr_stream ctx) (len - length prior)) s
      in case r of
           Inl e \<Rightarrow> Some (Inl e, s1)
         | Inr chunk \<Rightarrow>
             let prior = prior @ chunk
             in if memmem prior str = None \<and> length prior < len
                then prompt_expect_into ctx str prior len s1
                else Some (Inr (prior, memmem prior str), s1))"

partial_function (option) prompt_expect :: "'s prompt \<Rightarrow> string \<Rightarrow> 's \<Rightarrow> (int \<times> 's) option" where
  "prompt_expect ctx str s =
     Option.bind (prompt_expect_into ctx str [] 100 s) (\<lambda>(r, s).
       case r of
         Inl e \<Rightarrow> Some (e, s)
       | Inr (buf, Some i) \<Rightarrow> Some (1, s)
       | Inr (buf, None) \<Rightarrow> prompt_expect ctx str s)"

partial_function (option) prompt_write_loop ::
  "'s prompt \<Rightarrow> string \<Rightarrow> int \<Rightarrow> 's \<Rightarrow> (int \<times> 's) option" where
  "prompt_write_loop ctx buf len s =
     (let (egress, s1) = run_state (f_write (pr_stream ctx) buf) s
      in if egress < 0 then Some (egress, s1)
         else let rest = drop (nat egress) buf
              in if rest \<noteq> [] then prompt_write_loop ctx rest len s1 else Some (len, s1))"

definition prompt_write :: "'s prompt \<Rightarrow> string \<Rightarrow> ('s, int) act" where
  "prompt_write ctx buf = prompt_write_loop ctx buf (int (length buf))"

partial_function (option) prompt_read_loop ::
  "'s prompt \<Rightarrow> string \<Rightarrow> nat \<Rightarrow> 's \<Rightarrow> ((int + string) \<times> 's) option" where
  "prompt_read_loop ctx out len s =
     (let (r, s1) = run_state (f_read (pr_stream ctx) (len - length out)) s
      in case r of
           Inl e \<Rightarrow> Some (Inl e, s1)
         | Inr chunk \<Rightarrow>
             let out = out @ chunk
             in if length out < len then prompt_read_loop ctx out len s1 else Some (Inr out, s1))"

definition prompt_read :: "'s prompt \<Rightarrow> nat \<Rightarrow> ('s, int + string) act" where
  "prompt_read ctx len = prompt_read_loop ctx [] len"

definition prompt_run :: "'s prompt \<Rightarrow> string \<Rightarrow> ('s, int) act" where
  "prompt_run ctx cmd =
     act_neg (prompt_write ctx cmd)
     (act_bind (prompt_write ctx (pr_eol ctx)) (\<lambda>rc.
        if rc < 0 then act_ret rc
        else if pr_have_echo ctx
        then act_bind (act_run (f_gets (pr_stream ctx) (length cmd + length (pr_eol ctx) + 1))) (\<lambda>r.
               case r of Inl e \<Rightarrow> act_ret e | Inr _ \<Rightarrow> act_ret rc)
        else act_ret rc))"

definition prompt_expect_run :: "'s prompt \<Rightarrow> string \<Rightarrow> string \<Rightarrow> ('s, int) act" where
  "prompt_expect_run ctx prompt cmd =
     act_bind (prompt_expect ctx prompt) (\<lambda>rc.
       if rc < 0 then act_ret rc
       else if rc = 0 then act_ret (- EBADE)
       else prompt_run ctx cmd)"

definition prompt_run_expect ::
  "'s prompt \<Rightarrow> string \<Rightarrow> string \<Rightarrow> nat \<Rightarrow> ('s, int + string \<times> nat option) act" where
  "prompt_run_expect ctx cmd prompt len =
     act_bind (prompt_run ctx cmd) (\<lambda>rc.
       if rc < 0 then act_ret (Inl rc) else prompt_expect_into ctx prompt [] len)"

section \<open>Waiting for a string\<close>

lemma memmem_skip: "hd needle \<notin> set p \<Longrightarrow> needle \<noteq> [] \<Longrightarrow> memmem (p @ q) needle = map_option ((+) (length p)) (memmem q needle)"
proof (induction p)
  case (Cons c p)
  have "take (length needle) (c # p @ q) \<noteq> needle"
  proof
    assume "take (length needle) (c # p @ q) = needle"
    then have "hd needle = c" using Cons.prems(2) by (cases needle) auto
    with Cons.prems(1) show False by simp
  qed
  moreover have "memmem (p @ q) needle = map_option ((+) (length p)) (memmem q needle)"
    using Cons by simp
  ultimately show ?case by (cases "memmem q needle") simp_all
qed (cases "memmem q needle"; simp)

lemma memmem_absent: "hd needle \<notin> set p \<Longrightarrow> needle \<noteq> [] \<Longrightarrow> memmem p needle = None"
  using memmem_skip [of needle p "[]"] by simp

lemma memmem_short: "length s < length needle \<Longrightarrow> memmem s needle = None"
  by (induction s) auto

text \<open>
  A response that ends with the first word \<open>w\<close> in it: no proper prefix has one.
\<close>

lemma memmem_prompt:
  assumes "hd w \<notin> set pre" "w \<noteq> []"
  shows "memmem (pre @ w) w = Some (length pre)"
    and "k < length pre + length w \<Longrightarrow> memmem (take k (pre @ w)) w = None"
proof -
  show "memmem (pre @ w) w = Some (length pre)"
    using assms memmem_skip [of w pre w] by (cases w) simp_all
  show "memmem (take k (pre @ w)) w = None" if "k < length pre + length w"
  proof (cases "k \<le> length pre")
    case True
    have "hd w \<notin> set (take k pre)" using assms by (auto dest: in_set_takeD)
    then show ?thesis using True assms memmem_absent [of w] by simp
  next
    case False
    then have "memmem (take (k - length pre) w) w = None" using that by (intro memmem_short) simp
    then show ?thesis using False assms memmem_skip [of w pre] by simp
  qed
qed

text \<open>
  The contract of a stream whose input is already there: reads give it in pieces of any size.
\<close>

locale ready_stream =
  fixes f :: "'s file_ops"
    and pending :: "'s \<Rightarrow> string"
    and same :: "'s \<Rightarrow> 's \<Rightarrow> bool"
  assumes read_ready: "pending s \<noteq> [] \<Longrightarrow> 0 < n \<Longrightarrow>
      \<exists>k s'. run_state (f_read f n) s = (Inr (take k (pending s)), s') \<and> 0 < k \<and> k \<le> n \<and>
        pending s' = drop k (pending s) \<and> same s s'"
    and same_refl: "same s s"
    and same_trans: "same s1 s2 \<Longrightarrow> same s2 s3 \<Longrightarrow> same s1 s3"
begin

lemma expect_word_into:
  assumes "prior @ pending s = pre @ w" "hd w \<notin> set pre" "w \<noteq> []" "length pre + length w \<le> len"
    and "pending s \<noteq> []" "pr_stream ctx = f"
  shows "\<exists>s'. prompt_expect_into ctx w prior len s = Some (Inr (pre @ w, Some (length pre)), s') \<and>
    pending s' = [] \<and> same s s'"
  using assms(1,5)
proof (induction "length (pending s)" arbitrary: prior s rule: less_induct)
  case less
  have "length (prior @ pending s) = length pre + length w" by (simp only: less.prems(1)) simp
  moreover have "0 < length (pending s)" using less.prems(2) by simp
  ultimately have room: "0 < len - length prior" using assms(4) unfolding length_append by linarith
  obtain k s1 where r: "run_state (f_read f (len - length prior)) s = (Inr (take k (pending s)), s1)"
      "0 < k" "pending s1 = drop k (pending s)" "same s s1"
    using read_ready [OF less.prems(2) room] by blast
  let ?p = "prior @ take k (pending s)"
  have all: "?p @ pending s1 = pre @ w" using less.prems(1) r(3) by simp
  show ?case
  proof (cases "pending s1 = []")
    case True
    then have "?p = pre @ w" using all by simp
    then show ?thesis
      using r memmem_prompt(1) [OF assms(2,3)] True assms(6)
      by (subst prompt_expect_into.simps) (simp add: Let_def)
  next
    case False
    have p: "?p = take (length ?p) (pre @ w)" using all by (metis append_eq_conv_conj)
    have "length ?p + length (pending s1) = length pre + length w"
      using arg_cong [OF all, of length] by simp
    moreover have "0 < length (pending s1)" using False by simp
    ultimately have short: "length ?p < length pre + length w" by linarith
    then have none: "memmem ?p w = None" using memmem_prompt(2) [OF assms(2,3)] p by metis
    have "length (pending s1) < length (pending s)" using r(2,3) less.prems(2) by simp
    then obtain s' where "prompt_expect_into ctx w ?p len s1 =
        Some (Inr (pre @ w, Some (length pre)), s')" "pending s' = []" "same s1 s'"
      using less.hyps [OF _ all False] by blast
    moreover have "length ?p < len" using short assms(4) by simp
    ultimately show ?thesis
      using r none assms(6) same_trans by (subst prompt_expect_into.simps) (auto simp: Let_def)
  qed
qed

lemma expect_word:
  assumes "pending s = pre @ w" "hd w \<notin> set pre" "w \<noteq> []" "length pre + length w \<le> 100" "pr_stream ctx = f"
  shows "\<exists>s'. prompt_expect ctx w s = Some (1, s') \<and> pending s' = [] \<and> same s s'"
proof -
  have "pending s \<noteq> []" using assms(1,3) by simp
  then show ?thesis
    using expect_word_into [of "[]" s pre w 100 ctx] assms by (subst prompt_expect.simps) auto
qed

text \<open>The prompt of the shell.\<close>

lemma expect_into:
  assumes "prior @ pending s = pre @ ''$ ''" "CHR 0x24 \<notin> set pre" "length pre + 2 \<le> len"
    and "pending s \<noteq> []" "pr_stream ctx = f"
  shows "\<exists>s'. prompt_expect_into ctx ''$ '' prior len s = Some (Inr (pre @ ''$ '', Some (length pre)), s') \<and>
    pending s' = [] \<and> same s s'"
  using expect_word_into [of prior s pre "''$ ''" len ctx] assms by simp

lemma expect:
  assumes "pending s = pre @ ''$ ''" "CHR 0x24 \<notin> set pre" "length pre + 2 \<le> 100" "pr_stream ctx = f"
  shows "\<exists>s'. prompt_expect ctx ''$ '' s = Some (1, s') \<and> pending s' = [] \<and> same s s'"
  using expect_word [of s pre "''$ ''" ctx] assms by simp

end

end
