(* ===== verification/Debug.thy ===== *)
theory Debug
  imports Prompt SocBus
begin

text \<open>
  The debug UART bridge, \<^verbatim>\<open>src/bridge/debug.c\<close>: AHB accesses typed at the shell of the
  debug UART and read back from its answers. The contract \<open>debug_shell\<close> is a shell whose
  answers come in pieces of any size; over it word accesses are loads and stores of the bus.
\<close>

section \<open>Numbers as text\<close>

definition hexc :: "nat \<Rightarrow> char" where
  "hexc d = ''0123456789abcdef'' ! d"

fun hex_str :: "nat \<Rightarrow> string" where
  "hex_str n = (if n < 16 then [hexc n] else hex_str (n div 16) @ [hexc (n mod 16)])"

declare hex_str.simps [simp del]

definition hexval :: "char \<Rightarrow> nat option" where
  "hexval c = (let k = of_char c :: nat
     in if 48 \<le> k \<and> k \<le> 57 then Some (k - 48)
        else if 97 \<le> k \<and> k \<le> 102 then Some (k - 87)
        else if 65 \<le> k \<and> k \<le> 70 then Some (k - 55) else None)"

definition hex_number :: "string \<Rightarrow> nat" where
  "hex_number ds = foldl (\<lambda>v c. 16 * v + the (hexval c)) 0 ds"

definition is_space :: "char \<Rightarrow> bool" where
  "is_space c \<longleftrightarrow> c = CHR 0x20 \<or> c \<in> {CHR 0x09, CHR 0x0a, CHR 0x0b, CHR 0x0c, CHR 0x0d}"

text \<open>\<open>strtoul(3)\<close> to base 16: \<open>None\<close> out of range.\<close>

definition skip_0x :: "string \<Rightarrow> string" where
  "skip_0x s = (case s of
       c # x # d # ds \<Rightarrow> if c = CHR 0x30 \<and> x \<in> {CHR 0x78, CHR 0x58} \<and> hexval d \<noteq> None then d # ds else s
     | _ \<Rightarrow> s)"

definition split_sign :: "string \<Rightarrow> bool \<times> string" where
  "split_sign s = (case s of
       c # cs \<Rightarrow> if c = CHR 0x2d then (True, cs) else if c = CHR 0x2b then (False, cs) else (False, s)
     | [] \<Rightarrow> (False, []))"

definition strtoul16 :: "string \<Rightarrow> nat option" where
  "strtoul16 s =
     (let (neg, s) = split_sign (dropWhile is_space s);
          v = hex_number (takeWhile (\<lambda>c. hexval c \<noteq> None) (skip_0x s))
      in if v \<ge> 2 ^ 64 then None else Some (if neg then (2 ^ 64 - v) mod 2 ^ 64 else v))"

text \<open>One \<open>%02hhx\<close> of \<open>sscanf(3)\<close>: two characters at most, sign and prefix included.\<close>

datatype scan = scan_eof | scan_fail | scan_val u8 string

definition scan_hh :: "string \<Rightarrow> scan" where
  "scan_hh s =
     (let s = dropWhile is_space s; (neg, r) = split_sign s; w = 2 - (length s - length r);
          ds = takeWhile (\<lambda>c. hexval c \<noteq> None) (take w r)
      in if s = [] then scan_eof
         else if w = 2 \<and> (take 2 r = ''0x'' \<or> take 2 r = ''0X'') then scan_val 0 (drop 2 r)
         else if ds = [] then scan_fail
         else scan_val ((if neg then uminus else (\<lambda>v. v)) (of_nat (hex_number ds))) (drop (length ds) r))"

fun scan_bytes :: "nat \<Rightarrow> string \<Rightarrow> bool \<times> u8 list" where
  "scan_bytes 0 s = (False, [])"
| "scan_bytes (Suc n) s =
     (case scan_hh s of
        scan_eof \<Rightarrow> (True, [])
      | scan_fail \<Rightarrow> (False, [])
      | scan_val v rest \<Rightarrow> (let (e, vs) = scan_bytes n rest in (e, v # vs)))"

text \<open>The tokens of \<open>strtok_r(3)\<close>.\<close>

function tokens :: "char \<Rightarrow> string \<Rightarrow> string list" where
  "tokens d [] = []"
| "tokens d (c # cs) =
     (if c = d then tokens d cs
      else (c # takeWhile (\<lambda>x. x \<noteq> d) cs) # tokens d (dropWhile (\<lambda>x. x \<noteq> d) cs))"
  by pat_completeness auto
termination
  by (relation "measure (length \<circ> snd)") (simp_all add: le_imp_less_Suc length_dropWhile_le)

section \<open>The bridge\<close>

record 's console =
  co_destroy :: "('s, int) act"
  co_set_baud :: "int \<Rightarrow> ('s, int) act"

record 's debug =
  db_console :: "'s console"
  db_prompt :: "'s prompt"
  db_force_quit :: int

abbreviation EBADF :: int where "EBADF \<equiv> 9"

definition CR :: char where "CR = CHR 0x0d"
definition LF :: char where "LF = CHR 0x0a"

definition password :: string where
  "password = ''5z&0VK{@`HW}H~V310=l=JB+M]IV-f;Sz98XfCA&Rp)i|Jo=2?IBN$QaQ2'' @ [CHR 0x22] @ ''Kb|Ov''"

text \<open>The delays of \<open>sleep(3)\<close> are not modelled.\<close>

definition debug_enter :: "'s debug \<Rightarrow> ('s, int) act" where
  "debug_enter ctx =
     (let esc = [CHR 0x1b, CHR 0x71, CR, LF, CHR 0x1b, CHR 0x71, CR, LF];
          cleanup = (\<lambda>rc.
            act_bind (co_set_baud (db_console ctx) 115200) (\<lambda>_.
            act_bind (prompt_run (db_prompt ctx) []) (\<lambda>_. act_ret rc)));
          enter = act_neg (co_set_baud (db_console ctx) 1200)
            (act_bind (prompt_write (db_prompt ctx) password) (\<lambda>rc.
               if rc < 0 then cleanup rc
               else act_bind (prompt_expect (db_prompt ctx) ''$ '') (\<lambda>rc.
                 if rc < 0 then cleanup rc else co_set_baud (db_console ctx) 115200)))
      in if db_force_quit ctx \<noteq> 0
         then act_neg (co_set_baud (db_console ctx) 115200)
              (act_neg (prompt_write (db_prompt ctx) esc) enter)
         else enter)"

definition debug_exit :: "'s debug \<Rightarrow> ('s, int) act" where
  "debug_exit ctx =
     act_neg (prompt_run (db_prompt ctx) ''q'')
     (act_bind (prompt_run (db_prompt ctx) []) (\<lambda>_. co_set_baud (db_console ctx) 115200))"

definition debug_probe :: "'s debug \<Rightarrow> ('s, int) act" where
  "debug_probe ctx = act_neg (debug_enter ctx) (debug_exit ctx)"

text \<open>
  \<open>debug_parse_d\<close>: the bytes a line of a dump stands for. \<open>e\<close> is \<open>errno\<close> where \<open>sscanf\<close> finds
  the end of its input, which need not set it.
\<close>

fun parse_words :: "int \<Rightarrow> string list \<Rightarrow> int + u8 list" where
  "parse_words e [] = Inr []"
| "parse_words e (t # ts) =
     (case scan_bytes 4 t of
        (eof, [b3, b2, b1, b0]) \<Rightarrow> rbind (parse_words e ts) (\<lambda>bs. Inr (b0 # b1 # b2 # b3 # bs))
      | (eof, vs) \<Rightarrow> Inl (if eof \<and> vs = [] then - e else - EBADE))"

definition debug_parse_d :: "int \<Rightarrow> string \<Rightarrow> int + u8 list" where
  "debug_parse_d e line =
     (if CHR 0x3a \<notin> set (c_str line) then Inl (- EBADE)
      else case parse_words e (tokens CHR 0x20 (tl (dropWhile (\<lambda>c. c \<noteq> CHR 0x3a) (c_str line)))) of
             Inl rc \<Rightarrow> if rc < 0 then Inl rc else Inr []
           | Inr bs \<Rightarrow> Inr bs)"

text \<open>The zero bytes of \<open>strtok_r\<close> leave the line up to its first token.\<close>

definition after_strtok :: "string \<Rightarrow> string" where
  "after_strtok line =
     (if CHR 0x3a \<notin> set line then line
      else let rest = tl (dropWhile (\<lambda>c. c \<noteq> CHR 0x3a) line)
           in takeWhile (\<lambda>c. c \<noteq> CHR 0x3a) line @ [CHR 0x3a] @ takeWhile (\<lambda>c. c = CHR 0x20) rest @
              takeWhile (\<lambda>c. c \<noteq> CHR 0x20) (dropWhile (\<lambda>c. c = CHR 0x20) rest))"

text \<open>Without the prompt in the first 100 bytes of the answer, \<open>NULL\<close> is written through.\<close>

definition debug_read_fixed :: "'s debug \<Rightarrow> char \<Rightarrow> u32 \<Rightarrow> ('s, int + u32) act" where
  "debug_read_fixed ctx mode phys =
     (if \<not> (mode = CHR 0x69 \<or> mode = CHR 0x72) then act_ret (Inl (- EINVAL))
      else act_bind (prompt_run_expect (db_prompt ctx) ([mode] @ '' '' @ hex_str (unat phys)) ''$ '' 100)
        (\<lambda>r. case r of
           Inl rc \<Rightarrow> act_ret (Inl rc)
         | Inr (buf, None) \<Rightarrow> act_stuck
         | Inr (buf, Some i) \<Rightarrow>
             let response = dropWhile (\<lambda>c. c \<noteq> hd (pr_eol (db_prompt ctx))) (c_str (take i buf))
             in if response = [] then act_ret (Inl (- EIO))
                else case strtoul16 response of
                       None \<Rightarrow> act_ret (Inl (- ERANGE))
                     | Some v \<Rightarrow> act_ret (Inr (of_nat v))))"

definition DEBUG_D_MAX_LEN :: nat where "DEBUG_D_MAX_LEN = 128 * 1024"
definition DEBUG_CMD_U_MAX :: nat where "DEBUG_CMD_U_MAX = 128"

definition debug_line_size :: nat where
  "debug_line_size = 2 * (length ''20002ba0:31e01002 20433002 30813003 e1a06002'' + 2 + 1)"

definition SSIZE_MAX :: nat where "SSIZE_MAX = 2 ^ 63 - 1"

fun debug_read_bytes :: "'s debug \<Rightarrow> u32 \<Rightarrow> nat \<Rightarrow> ('s, int + u8 list) act" where
  "debug_read_bytes ctx phys 0 = act_ret (Inr [])"
| "debug_read_bytes ctx phys (Suc n) =
     act_bind (debug_read_fixed ctx CHR 0x69 phys) (\<lambda>r. case r of
       Inl rc \<Rightarrow> act_ret (Inl (- 1))
     | Inr val \<Rightarrow> act_bind (debug_read_bytes ctx (phys + 1) n) (\<lambda>r. act_ret (case r of
         Inl rc \<Rightarrow> Inl rc | Inr bs \<Rightarrow> Inr (ucast val # bs))))"

text \<open>
  The three loops of a dump: past the echo of the command, over the lines of the answer, and
  over the commands. The lines give what is stored from the start of the buffer so far, and
  whether the loop ended because enough was consumed, or a line could not be parsed and the
  command is repeated: then the stored bytes stay and the next ones go behind them.
\<close>

partial_function (option) debug_eat_echo ::
  "'s debug \<Rightarrow> string \<Rightarrow> 's \<Rightarrow> ((int + string) \<times> 's) option" where
  "debug_eat_echo ctx line s =
     Option.bind (prompt_gets (db_prompt ctx) line debug_line_size s) (\<lambda>((found, line), s).
       if found < 0 then Some (Inl (- 1), s)
       else if line = ''$ '' @ [LF] then debug_eat_echo ctx line s
       else Some (Inr line, s))"

definition debug_resync :: "'s debug \<Rightarrow> ('s, int) act" where
  "debug_resync ctx =
     act_neg (prompt_run (db_prompt ctx) [])
     (act_neg (prompt_expect (db_prompt ctx) ''$ '') (act_ret 0))"

partial_function (option) debug_read_lines ::
  "'s debug \<Rightarrow> int \<Rightarrow> nat \<Rightarrow> nat \<Rightarrow> u8 list \<Rightarrow> string \<Rightarrow> 's \<Rightarrow>
     ((int + bool \<times> u8 list \<times> string) \<times> 's) option" where
  "debug_read_lines ctx e ingress consumed out line s =
     Option.bind (prompt_gets (db_prompt ctx) line debug_line_size s) (\<lambda>((found, line), s).
       if found < 0 then Some (Inl (- 1), s)
       else case debug_parse_d e line of
              Inl rc \<Rightarrow>
                Option.bind (debug_resync ctx s) (\<lambda>(rc, s).
                  Some (if rc < 0 then Inl (- 1) else Inr (False, out, after_strtok line), s))
            | Inr bs \<Rightarrow>
                if consumed + length bs < ingress
                then debug_read_lines ctx e ingress (consumed + length bs) (out @ bs) (after_strtok line) s
                else Some (Inr (True, out @ bs, after_strtok line), s))"

partial_function (option) debug_read_loop ::
  "'s debug \<Rightarrow> int \<Rightarrow> u32 \<Rightarrow> nat \<Rightarrow> u8 list \<Rightarrow> string \<Rightarrow> 's \<Rightarrow> ((int + u8 list) \<times> 's) option" where
  "debug_read_loop ctx e phys remaining out line s =
     (let ingress = min remaining DEBUG_D_MAX_LEN
      in Option.bind (prompt_run (db_prompt ctx) (''d '' @ hex_str (unat phys) @ '' '' @ hex_str ingress) s)
           (\<lambda>(rc, s).
             if rc < 0 then Some (Inl (- 1), s)
             else Option.bind (debug_eat_echo ctx line s) (\<lambda>(r, s).
               case r of
                 Inl rc \<Rightarrow> Some (Inl rc, s)
               | Inr line \<Rightarrow>
                   Option.bind (debug_read_lines ctx e ingress 0 out line s) (\<lambda>(r, s).
                     case r of
                       Inl rc \<Rightarrow> Some (Inl rc, s)
                     | Inr (complete, out, line) \<Rightarrow>
                         if \<not> complete then debug_read_loop ctx e phys remaining out line s
                         else if remaining - ingress = 0 then Some (Inr out, s)
                         else debug_read_loop ctx e (phys + of_nat ingress) (remaining - ingress) out line s))))"

text \<open>
  \<open>debug_read\<close>: on success, everything that is stored from the start of the buffer, which may
  be more than was asked for. \<open>line\<close> is what the uninitialised line buffer holds.
\<close>

definition debug_read :: "'s debug \<Rightarrow> int \<Rightarrow> string \<Rightarrow> u32 \<Rightarrow> nat \<Rightarrow> ('s, int + u8 list) act" where
  "debug_read ctx e line phys len =
     (if len > SSIZE_MAX then act_ret (Inl (- 1))
      else if len < 4 then debug_read_bytes ctx phys len
      else debug_read_loop ctx e phys len [] line)"

definition byte_char :: "u8 \<Rightarrow> char" where
  "byte_char b = char_of (unat b)"

fun debug_write_bytes :: "'s debug \<Rightarrow> u32 \<Rightarrow> u8 list \<Rightarrow> int \<Rightarrow> ('s, int) act" where
  "debug_write_bytes ctx phys [] len = act_ret len"
| "debug_write_bytes ctx phys (b # bs) len =
     act_bind (prompt_run (db_prompt ctx) (''o '' @ hex_str (unat phys) @ '' '' @ hex_str (unat b))) (\<lambda>rc.
       if rc < 0 then act_ret (- 1)
       else act_bind (prompt_expect (db_prompt ctx) ''$ '') (\<lambda>rc.
         if rc < 0 then act_ret rc
         else if rc = 0 then act_ret (- 1)
         else debug_write_bytes ctx (phys + 1) bs len))"

function debug_write_blocks :: "'s debug \<Rightarrow> u32 \<Rightarrow> u8 list \<Rightarrow> int \<Rightarrow> ('s, int) act" where
  "debug_write_blocks ctx phys bs len =
     (let egress = min (length bs) DEBUG_CMD_U_MAX
      in act_bind (prompt_run (db_prompt ctx) (''u '' @ hex_str (unat phys) @ '' '' @ hex_str egress)) (\<lambda>rc.
           if rc < 0 then act_ret (- 1)
           else act_bind (prompt_write (db_prompt ctx) (map byte_char (take egress bs))) (\<lambda>rc.
             if rc < 0 then act_ret (- 1)
             else act_bind (prompt_expect (db_prompt ctx) ''$ '') (\<lambda>rc.
               if rc < 0 then act_ret (- 1)
               else if drop egress bs = [] then act_ret len
               else debug_write_blocks ctx (phys + of_nat egress) (drop egress bs) len))))"
  by pat_completeness auto
termination
  by (relation "measure (\<lambda>(ctx, phys, bs, len). length bs)") (auto simp: DEBUG_CMD_U_MAX_def)

declare debug_write_blocks.simps [simp del]

definition debug_write :: "'s debug \<Rightarrow> u32 \<Rightarrow> u8 list \<Rightarrow> ('s, int) act" where
  "debug_write ctx phys buf =
     (if length buf > SSIZE_MAX then act_ret (- 1)
      else if length buf \<le> 4 then debug_write_bytes ctx phys buf (int (length buf))
      else debug_write_blocks ctx phys buf (int (length buf)))"

definition debug_readl :: "'s debug \<Rightarrow> u32 \<Rightarrow> ('s, int + u32) act" where
  "debug_readl ctx phys = debug_read_fixed ctx CHR 0x72 phys"

definition AST_G5_WDT :: u32 where "AST_G5_WDT = 0x1e785000"
definition WDT_RELOAD_REG :: u32 where "WDT_RELOAD_REG = 0x04"

text \<open>A store that resets the system is not answered.\<close>

definition debug_resets :: "u32 \<Rightarrow> u32 \<Rightarrow> bool" where
  "debug_resets phys val \<longleftrightarrow> phys AND NOT 0x20 = AST_G5_WDT OR WDT_RELOAD_REG \<and> val = 0"

definition debug_writel :: "'s debug \<Rightarrow> u32 \<Rightarrow> u32 \<Rightarrow> ('s, int) act" where
  "debug_writel ctx phys val =
     act_neg (prompt_run (db_prompt ctx) (''w '' @ hex_str (unat phys) @ '' '' @ hex_str (unat val)))
     (if \<not> debug_resets phys val
      then act_bind (prompt_expect (db_prompt ctx) ''$ '') (\<lambda>rc.
             if rc < 0 then act_ret rc else if rc = 0 then act_ret (- EINVAL) else act_ret 0)
      else act_ret 0)"

definition debug_destroy :: "'s debug \<Rightarrow> ('s, int) act" where
  "debug_destroy ctx =
     act_bind (act_run (prompt_destroy (db_prompt ctx))) (\<lambda>r1.
     act_bind (co_destroy (db_console ctx)) (\<lambda>r2.
       act_ret (if r1 \<noteq> 0 \<or> r2 \<noteq> 0 then - EBADF else 0)))"

definition debug_driver_destroy :: "'s debug \<Rightarrow> ('s, unit) act" where
  "debug_driver_destroy ctx =
     act_bind (debug_exit ctx) (\<lambda>_. act_bind (debug_destroy ctx) (\<lambda>_. act_ret ()))"

definition debug_driver_release :: "'s debug \<Rightarrow> ('s, int) act" where
  "debug_driver_release ctx = debug_exit ctx"

definition debug_driver_reinit :: "'s debug \<Rightarrow> ('s, int) act" where
  "debug_driver_reinit ctx = debug_enter ctx"

section \<open>Numbers there and back\<close>

lemma hexval_hexc [simp]: "d < 16 \<Longrightarrow> hexval (hexc d) = Some d"
proof -
  have "list_all (\<lambda>d. hexval (hexc d) = Some d) [0..<16]" by code_simp
  then show "d < 16 \<Longrightarrow> hexval (hexc d) = Some d" by (simp add: list_all_iff)
qed

lemma hex_number_snoc [simp]: "hex_number (ds @ [c]) = 16 * hex_number ds + the (hexval c)"
  by (simp add: hex_number_def)

lemma hex_number_str [simp]: "hex_number (hex_str n) = n"
proof (induction n rule: hex_str.induct)
  case (1 n)
  then show ?case by (subst hex_str.simps) (auto simp: hex_number_def)
qed

definition hex_char :: "char \<Rightarrow> bool" where
  "hex_char c \<longleftrightarrow> c \<in> set ''0123456789abcdef''"

lemma hex_char_hexc: "d < 16 \<Longrightarrow> hex_char (hexc d)"
  unfolding hex_char_def hexc_def by (rule nth_mem) simp

lemma hex_char_str: "list_all hex_char (hex_str n)"
proof (induction n rule: hex_str.induct)
  case (1 n)
  then show ?case by (subst hex_str.simps) (auto simp: hex_char_hexc)
qed

lemma hex_str_not_Nil: "hex_str n \<noteq> []"
  by (subst hex_str.simps) simp

lemma length_hex_str: "n < 16 ^ k \<Longrightarrow> 0 < k \<Longrightarrow> length (hex_str n) \<le> k"
proof (induction k arbitrary: n)
  case (Suc k)
  show ?case
  proof (cases "n < 16")
    case False
    then have "0 < k" using Suc.prems by (cases k) auto
    moreover have "n div 16 < 16 ^ k" using Suc.prems(1) by (simp add: div_less_iff_less_mult)
    ultimately show ?thesis using Suc.IH [of "n div 16"] False by (subst hex_str.simps) simp
  qed (subst hex_str.simps; simp)
qed simp

lemma hex_char_facts:
  assumes "hex_char c"
  shows "\<exists>d. hexval c = Some d" "\<not> is_space c" "c \<notin> {CR, LF, CHR 0x24, CHR 0x20, CHR 0x00, CHR 0x2d, CHR 0x2b, CHR 0x78, CHR 0x58, CHR 0x3a}"
proof -
  have "list_all (\<lambda>c. hexval c \<noteq> None \<and> \<not> is_space c \<and>
      c \<notin> set [CR, LF, CHR 0x24, CHR 0x20, CHR 0x00, CHR 0x2d, CHR 0x2b, CHR 0x78, CHR 0x58, CHR 0x3a]) ''0123456789abcdef''"
    by code_simp
  then show "\<exists>d. hexval c = Some d" "\<not> is_space c"
    "c \<notin> {CR, LF, CHR 0x24, CHR 0x20, CHR 0x00, CHR 0x2d, CHR 0x2b, CHR 0x78, CHR 0x58, CHR 0x3a}"
    using assms unfolding list_all_iff hex_char_def by auto
qed

lemma hex_chars_avoid:
  assumes "list_all hex_char ds"
  shows "CR \<notin> set ds" "LF \<notin> set ds" "CHR 0x24 \<notin> set ds" "CHR 0x20 \<notin> set ds" "CHR 0x00 \<notin> set ds" "CHR 0x3a \<notin> set ds"
  using assms hex_char_facts(3) unfolding list_all_iff by blast+

text \<open>Numbers as the shell prints them, with zeros in front: a word has eight digits, a byte two.\<close>

definition hex_pad :: "nat \<Rightarrow> nat \<Rightarrow> string" where
  "hex_pad k n = replicate (k - length (hex_str n)) CHR 0x30 @ hex_str n"

definition hex_word :: "u32 \<Rightarrow> string" where
  "hex_word v = hex_pad 8 (unat v)"

definition hex_byte :: "u8 \<Rightarrow> string" where
  "hex_byte b = hex_pad 2 (unat b)"

lemma length_hex_word [simp]: "length (hex_word v) = 8"
  using length_hex_str [of "unat v" 8] by (simp add: hex_word_def hex_pad_def)

lemma length_hex_byte [simp]: "length (hex_byte b) = 2"
  using length_hex_str [of "unat b" 2] unsigned_less [of b, where 'a = nat] by (simp add: hex_byte_def hex_pad_def)

lemma hex_char_pad: "list_all hex_char (hex_pad k n)"
  using hex_char_str [of n] by (auto simp: hex_pad_def hex_char_def [of "CHR 0x30"] list_all_iff)

lemma hex_char_word: "list_all hex_char (hex_word v)"
  by (simp only: hex_word_def hex_char_pad)

lemma hex_char_byte: "list_all hex_char (hex_byte b)"
  by (simp only: hex_byte_def hex_char_pad)

lemma hex_number_zeros: "hex_number (replicate k CHR 0x30 @ ds) = hex_number ds"
proof (induction k)
  case (Suc k)
  have "the (hexval CHR 0x30) = 0" by code_simp
  then show ?case using Suc by (simp add: hex_number_def)
qed simp

lemma hex_number_word [simp]: "hex_number (hex_word v) = unat v" "hex_number (hex_byte b) = unat b"
  by (simp_all add: hex_word_def hex_byte_def hex_pad_def hex_number_zeros)

lemma take_while_hex:
  assumes "list_all hex_char ds" "rest = [] \<or> hexval (hd rest) = None"
  shows "takeWhile (\<lambda>c. hexval c \<noteq> None) (ds @ rest) = ds"
proof -
  have "hexval c \<noteq> None" if "c \<in> set ds" for c
    using assms(1) hex_char_facts(1) that by (fastforce simp: list_all_iff)
  then show ?thesis using assms(2) by (cases rest) (auto simp: takeWhile_append)
qed

lemma strtoul16_hex:
  assumes "list_all hex_char ds" "2 \<le> length ds" "rest = [] \<or> hexval (hd rest) = None" "hex_number ds < 2 ^ 64"
  shows "strtoul16 (CR # LF # ds @ rest) = Some (hex_number ds)"
proof -
  obtain c x r where ds: "ds = c # x # r" using assms(2) by (cases ds rule: remdups_adj.cases) auto
  have c: "hex_char c" "hex_char x" using assms(1) by (simp_all add: ds)
  have space: "dropWhile is_space (CR # LF # ds @ rest) = ds @ rest"
    using hex_char_facts(2) [OF c(1)] by (simp add: ds is_space_def CR_def LF_def)
  have sign: "split_sign (ds @ rest) = (False, ds @ rest)"
    using hex_char_facts(3) [OF c(1)] by (simp add: ds split_sign_def)
  have "skip_0x (ds @ rest) = ds @ rest"
    using hex_char_facts(3) [OF c(2)] by (auto simp: ds skip_0x_def split: list.split)
  then show ?thesis
    using assms(4) take_while_hex [OF assms(1,3)] space sign by (simp add: strtoul16_def)
qed

end
