(* ===== verification/DebugShell.thy ===== *)
theory DebugShell
  imports Debug
begin

text \<open>
  The debug UART bridge at work: the shell behind it as a device on a bus, whose answers arrive
  in pieces of any size, the word and byte accesses through it, and the dumps of the bulk reads.
\<close>

section \<open>The shell\<close>

text \<open>
  The debug UART's shell on a bus: it echoes what is typed and answers a line with a prompt
  behind the answer, except where the line resets the system. What it sends comes in pieces: a
  read gives as much as \<open>sh_sched\<close> says, or everything where that has run out.
\<close>

record 't shell =
  sh_bus :: 't
  sh_line :: string
  sh_out :: string
  sh_sched :: "nat list"

definition shell_answer :: "'t target \<Rightarrow> string \<Rightarrow> 't \<Rightarrow> string option \<times> 't" where
  "shell_answer tgt line t =
     (case tokens CHR 0x20 line of
        [cmd, a] \<Rightarrow>
          if cmd = ''r''
          then (let (v, t) = run_state (tgt_ld32 tgt (of_nat (hex_number a))) t
                in (Some (hex_word v @ [CR, LF] @ ''$ ''), t))
          else if cmd = ''i''
          then (let (b, t) = run_state (tgt_ld8 tgt (of_nat (hex_number a))) t
                in (Some (hex_byte b @ [CR, LF] @ ''$ ''), t))
          else (Some ''$ '', t)
      | [cmd, a, v] \<Rightarrow>
          if cmd = ''w''
          then (let a = of_nat (hex_number a); v = of_nat (hex_number v); (_, t) = run_state (tgt_st32 tgt a v) t
                in (if debug_resets a v then None else Some ''$ '', t))
          else if cmd = ''o''
          then (let (_, t) = run_state (tgt_st8 tgt (of_nat (hex_number a)) (of_nat (hex_number v))) t
                in (Some ''$ '', t))
          else (Some ''$ '', t)
      | _ \<Rightarrow> (Some ''$ '', t))"

definition shell_char :: "'t target \<Rightarrow> char \<Rightarrow> 't shell \<Rightarrow> 't shell" where
  "shell_char tgt c sh =
     (if c = CR
      then (let (answer, t) = shell_answer tgt (sh_line sh) (sh_bus sh)
            in sh\<lparr>sh_bus := t, sh_line := [],
                  sh_out := (case answer of None \<Rightarrow> [] | Some out \<Rightarrow> sh_out sh @ [CR, LF] @ out)\<rparr>)
      else sh\<lparr>sh_line := sh_line sh @ [c], sh_out := sh_out sh @ [c]\<rparr>)"

definition shell_file :: "'t target \<Rightarrow> 't shell file_ops" where
  "shell_file tgt = \<lparr>
     f_read = (\<lambda>n. State (\<lambda>sh.
       let k = (case sh_sched sh of [] \<Rightarrow> n | m # ms \<Rightarrow> max 1 (min n m))
       in (Inr (take k (sh_out sh)), sh\<lparr>sh_out := drop k (sh_out sh), sh_sched := tl (sh_sched sh)\<rparr>))),
     f_write = (\<lambda>s. State (\<lambda>sh. (int (length s), fold (shell_char tgt) s sh))),
     f_gets = (\<lambda>n. State (\<lambda>sh.
       let line = take (n - 1) (takeWhile (\<lambda>c. c \<noteq> LF) (sh_out sh) @ (if LF \<in> set (sh_out sh) then [LF] else []))
       in if line = [] then (Inl 0, sh) else (Inr line, sh\<lparr>sh_out := drop (length line) (sh_out sh)\<rparr>))),
     f_close = ret 0 \<rparr>"

definition shell_debug :: "'t target \<Rightarrow> 't shell debug" where
  "shell_debug tgt = \<lparr>
     db_console = \<lparr>co_destroy = act_ret 0, co_set_baud = (\<lambda>_. act_ret 0)\<rparr>,
     db_prompt = \<lparr>pr_stream = shell_file tgt, pr_eol = [CR], pr_have_echo = False\<rparr>,
     db_force_quit = 0 \<rparr>"

definition shell_idle :: "'t shell \<Rightarrow> bool" where
  "shell_idle sh \<longleftrightarrow> sh_line sh = [] \<and> sh_out sh = []"

interpretation shell_stream: ready_stream "shell_file tgt" sh_out
    "\<lambda>s s'. sh_bus s' = sh_bus s \<and> sh_line s' = sh_line s"
proof (unfold_locales, goal_cases)
  case (1 s n)
  let ?k = "case sh_sched s of [] \<Rightarrow> n | m # ms \<Rightarrow> max 1 (min n m)"
  have "0 < ?k \<and> ?k \<le> n" using 1(2) by (auto split: list.split)
  moreover have "run_state (f_read (shell_file tgt) n) s =
      (Inr (take ?k (sh_out s)), s\<lparr>sh_out := drop ?k (sh_out s), sh_sched := tl (sh_sched s)\<rparr>)"
    by (simp add: shell_file_def Let_def)
  ultimately show ?case by (intro exI [of _ ?k] exI conjI) (assumption | simp)+
qed simp_all

lemma shell_type:
  "CR \<notin> set l \<Longrightarrow> fold (shell_char tgt) l sh = sh\<lparr>sh_line := sh_line sh @ l, sh_out := sh_out sh @ l\<rparr>"
proof (induction l arbitrary: sh)
  case (Cons c l)
  then have "shell_char tgt c sh = sh\<lparr>sh_line := sh_line sh @ [c], sh_out := sh_out sh @ [c]\<rparr>"
    by (auto simp: shell_char_def)
  with Cons show ?case by simp
qed simp

lemma prompt_write_shell [simp]:
  "prompt_write \<lparr>pr_stream = shell_file tgt, pr_eol = eol, pr_have_echo = echo\<rparr> buf sh =
     Some (int (length buf), fold (shell_char tgt) buf sh)"
  by (simp add: prompt_write_def) (subst prompt_write_loop.simps, simp add: shell_file_def)

lemma shell_run:
  assumes "shell_idle sh" "CR \<notin> set cmd" "shell_answer tgt cmd (sh_bus sh) = (answer, t)"
  shows "prompt_run (db_prompt (shell_debug tgt)) cmd sh = Some (1, sh\<lparr>sh_bus := t, sh_line := [],
     sh_out := (case answer of None \<Rightarrow> [] | Some out \<Rightarrow> cmd @ [CR, LF] @ out)\<rparr>)"
  using assms
  by (simp add: prompt_run_def shell_debug_def shell_type shell_idle_def)
    (cases answer; simp add: shell_char_def)

lemma tokens_word: "w \<noteq> [] \<Longrightarrow> d \<notin> set w \<Longrightarrow> tokens d (w @ d # rest) = w # tokens d rest"
  by (cases w) (auto simp: takeWhile_append dropWhile_append)

lemma tokens_last:
  assumes "w \<noteq> []" "d \<notin> set w"
  shows "tokens d w = [w]"
proof (cases w)
  case (Cons c cs)
  then have "takeWhile (\<lambda>x. x \<noteq> d) cs = cs" "dropWhile (\<lambda>x. x \<noteq> d) cs = []"
    using assms by (auto simp: takeWhile_eq_all_conv)
  moreover have "c \<noteq> d" using Cons assms by auto
  ultimately have "tokens d (c # cs) = [c # cs]" by (simp only: tokens.simps if_False)
  then show ?thesis by (simp only: Cons)
qed (use assms in simp)

lemma hex_tokens:
  "tokens CHR 0x20 (hex_str n) = [hex_str n]"
  "tokens CHR 0x20 (hex_str n @ CHR 0x20 # rest) = hex_str n # tokens CHR 0x20 rest"
  using hex_chars_avoid(4) [OF hex_char_str [of n]] hex_str_not_Nil [of n]
  by (simp_all add: tokens_word tokens_last)

lemma shell_answer_r:
  "shell_answer tgt ([CHR 0x72] @ '' '' @ hex_str (unat a)) t =
     (let (v, t) = run_state (tgt_ld32 tgt a) t in (Some (hex_word v @ [CR, LF] @ ''$ ''), t))"
  "shell_answer tgt ([CHR 0x69] @ '' '' @ hex_str (unat a)) t =
     (let (b, t) = run_state (tgt_ld8 tgt a) t in (Some (hex_byte b @ [CR, LF] @ ''$ ''), t))"
  using tokens_word [of "''r''" "CHR 0x20"] tokens_word [of "''i''" "CHR 0x20"]
  by (simp_all add: shell_answer_def hex_tokens)

lemma shell_answer_w:
  "shell_answer tgt (''w '' @ hex_str (unat a) @ '' '' @ hex_str (unat v)) t =
     (if debug_resets a v then None else Some ''$ '', snd (run_state (tgt_st32 tgt a v) t))"
  "shell_answer tgt (''o '' @ hex_str (unat a) @ '' '' @ hex_str (unat b)) t =
     (Some ''$ '', snd (run_state (tgt_st8 tgt a b) t))"
  using tokens_word [of "''w''" "CHR 0x20"] tokens_word [of "''o''" "CHR 0x20"]
  by (simp_all add: shell_answer_def hex_tokens split_def)

lemma hex_str_u32: "length (hex_str (unat (a :: u32))) \<le> 8" "length (hex_str (unat (b :: u8))) \<le> 2"
  using length_hex_str [of "unat a" 8] length_hex_str [of "unat b" 2] unsigned_less [of b, where 'a = nat]
  by simp_all

lemma c_str_id: "CHR 0x00 \<notin> set s \<Longrightarrow> c_str s = s"
  by (auto simp: c_str_def takeWhile_eq_all_conv)

lemma hexval_CR: "hexval CR = None"
  by (simp add: CR_def) code_simp

lemma shell_debug_prompt [simp]:
  "pr_stream (db_prompt (shell_debug tgt)) = shell_file tgt" "pr_eol (db_prompt (shell_debug tgt)) = [CR]"
  by (simp_all add: shell_debug_def)

text \<open>The text before the prompt in the answer to a read.\<close>

lemma shell_text:
  fixes a :: u32
  assumes "mode \<in> {CHR 0x69, CHR 0x72}" "list_all hex_char ds" "length ds \<le> 8"
  defines "cmd \<equiv> [mode] @ '' '' @ hex_str (unat a)"
  defines "pre \<equiv> cmd @ [CR, LF] @ ds @ [CR, LF]"
  shows "CR \<notin> set cmd" "CHR 0x24 \<notin> set pre" "length pre + 2 \<le> 100" "c_str pre = pre"
    "dropWhile (\<lambda>c. c \<noteq> CR) pre = CR # LF # ds @ [CR, LF]"
proof -
  note avoid = hex_chars_avoid [OF hex_char_str [of "unat a"]] hex_chars_avoid [OF assms(2)]
  have m: "mode \<noteq> CR" "mode \<noteq> CHR 0x24" "mode \<noteq> CHR 0x00" using assms(1) by (auto simp: CR_def)
  show "CR \<notin> set cmd" using avoid m by (simp add: cmd_def) (simp add: CR_def)
  then show "dropWhile (\<lambda>c. c \<noteq> CR) pre = CR # LF # ds @ [CR, LF]"
    by (auto simp: pre_def dropWhile_append dropWhile_eq_Nil_conv)
  show "CHR 0x24 \<notin> set pre" using avoid m by (simp add: pre_def cmd_def CR_def LF_def)
  show "length pre + 2 \<le> 100" using hex_str_u32(1) [of a] assms(3) by (simp add: pre_def cmd_def)
  show "c_str pre = pre" using avoid m by (intro c_str_id) (simp add: pre_def cmd_def CR_def LF_def)
qed

lemma debug_answer:
  assumes "mode \<in> {CHR 0x69, CHR 0x72}"
    and "prompt_run (db_prompt ctx) ([mode] @ '' '' @ hex_str (unat a)) s = Some (rc, s1)" "0 \<le> rc"
    and "prompt_expect_into (db_prompt ctx) ''$ '' [] 100 s1 = Some (Inr (pre @ ''$ '', Some (length pre)), s2)"
    and "c_str pre = pre" "dropWhile (\<lambda>c. c \<noteq> hd (pr_eol (db_prompt ctx))) pre \<noteq> []"
    and "strtoul16 (dropWhile (\<lambda>c. c \<noteq> hd (pr_eol (db_prompt ctx))) pre) = Some v"
  shows "debug_read_fixed ctx mode a s = Some (Inr (of_nat v), s2)"
proof -
  have "prompt_run_expect (db_prompt ctx) ([mode] @ '' '' @ hex_str (unat a)) ''$ '' 100 s =
      Some (Inr (pre @ ''$ '', Some (length pre)), s2)"
    using assms(2,3,4) by (simp add: prompt_run_expect_def)
  moreover have "mode = CHR 0x69 \<or> mode = CHR 0x72 \<longleftrightarrow> True" using assms(1) by simp
  ultimately show ?thesis
    using assms(5-) unfolding debug_read_fixed_def by (simp only: act_bind_run fst_conv snd_conv) (simp add: Let_def)
qed

lemma shell_fixed:
  assumes "shell_idle sh" and mode: "mode \<in> {CHR 0x69, CHR 0x72}"
    and ds: "list_all hex_char ds" "length ds \<le> 8" "2 \<le> length ds" "hex_number ds < 2 ^ 64"
    and answer: "shell_answer tgt ([mode] @ '' '' @ hex_str (unat a)) (sh_bus sh) = (Some (ds @ [CR, LF] @ ''$ ''), t)"
  shows "\<exists>sh'. debug_read_fixed (shell_debug tgt) mode a sh = Some (Inr (of_nat (hex_number ds)), sh') \<and>
    shell_idle sh' \<and> sh_bus sh' = t"
proof -
  let ?cmd = "[mode] @ '' '' @ hex_str (unat a)"
  let ?pre = "?cmd @ [CR, LF] @ ds @ [CR, LF]"
  let ?s = "sh\<lparr>sh_bus := t, sh_line := [], sh_out := ?pre @ ''$ ''\<rparr>"
  note parts = shell_text [OF mode ds(1,2), of a]
  from shell_run [OF assms(1) parts(1) answer]
  have run: "prompt_run (db_prompt (shell_debug tgt)) ?cmd sh = Some (1, ?s)" by simp
  obtain s' where into: "prompt_expect_into (db_prompt (shell_debug tgt)) ''$ '' [] 100 ?s =
      Some (Inr (?pre @ ''$ '', Some (length ?pre)), s')"
    and s': "sh_out s' = []" "sh_bus s' = sh_bus ?s \<and> sh_line s' = sh_line ?s"
    using shell_stream.expect_into [of "[]" ?s ?pre 100 "db_prompt (shell_debug tgt)" tgt] parts(2,3)
    by auto
  have str: "strtoul16 (CR # LF # ds @ [CR, LF]) = Some (hex_number ds)"
    by (rule strtoul16_hex) (use ds hexval_CR in simp_all)
  have "debug_read_fixed (shell_debug tgt) mode a sh = Some (Inr (of_nat (hex_number ds)), s')"
    by (rule debug_answer [OF mode run _ into parts(4)])
      (simp_all only: shell_debug_prompt list.sel parts(5) str, simp_all)
  then show ?thesis using s' by (simp add: shell_idle_def)
qed

lemma shell_command:
  assumes "shell_idle sh" "list_all (\<lambda>c. c \<notin> {CR, CHR 0x24}) cmd" "length cmd \<le> 96"
    and "shell_answer tgt cmd (sh_bus sh) = (Some ''$ '', t)"
  shows "\<exists>s1 sh'. prompt_run (db_prompt (shell_debug tgt)) cmd sh = Some (1, s1) \<and>
    prompt_expect (db_prompt (shell_debug tgt)) ''$ '' s1 = Some (1, sh') \<and> shell_idle sh' \<and> sh_bus sh' = t"
proof -
  let ?s = "sh\<lparr>sh_bus := t, sh_line := [], sh_out := cmd @ [CR, LF] @ ''$ ''\<rparr>"
  have "CR \<notin> set cmd" "CHR 0x24 \<notin> set (cmd @ [CR, LF])"
    using assms(2) by (auto simp: list_all_iff CR_def LF_def)
  then obtain s' where "prompt_expect (db_prompt (shell_debug tgt)) ''$ '' ?s = Some (1, s')"
      "sh_out s' = []" "sh_bus s' = t" "sh_line s' = []"
    using shell_stream.expect [of ?s "cmd @ [CR, LF]" "db_prompt (shell_debug tgt)" tgt] assms(3) by auto
  moreover have "prompt_run (db_prompt (shell_debug tgt)) cmd sh = Some (1, ?s)"
    using shell_run [OF assms(1) \<open>CR \<notin> set cmd\<close> assms(4)] by simp
  ultimately show ?thesis by (auto simp: shell_idle_def)
qed

lemma store_command:
  assumes "c \<notin> {CR, CHR 0x24}"
  shows "list_all (\<lambda>c. c \<notin> {CR, CHR 0x24}) ([c] @ '' '' @ hex_str (unat a) @ '' '' @ hex_str n)"
  using hex_chars_avoid [OF hex_char_str [of "unat a"]] hex_chars_avoid [OF hex_char_str [of n]] assms
  by (auto simp: list_all_iff CR_def)

section \<open>Accesses through the shell\<close>

lemma shell_readl:
  assumes "shell_idle sh"
  shows "\<exists>sh'. debug_readl (shell_debug tgt) a sh = Some (Inr (fst (run_state (tgt_ld32 tgt a) (sh_bus sh))), sh') \<and>
    shell_idle sh' \<and> sh_bus sh' = snd (run_state (tgt_ld32 tgt a) (sh_bus sh))"
proof -
  obtain v t where ld: "run_state (tgt_ld32 tgt a) (sh_bus sh) = (v, t)" by fastforce
  have "hex_number (hex_word v) < 2 ^ 64" by (simp, rule less_trans [OF unat_u32_less]) simp
  then show ?thesis
    using shell_fixed [OF assms _ hex_char_word, of "CHR 0x72" v tgt a t] shell_answer_r(1) [of tgt a "sh_bus sh"] ld
    by (auto simp: debug_readl_def)
qed

lemma shell_writel:
  assumes "shell_idle sh"
  shows "\<exists>sh'. debug_writel (shell_debug tgt) a v sh = Some (0, sh') \<and>
    shell_idle sh' \<and> sh_bus sh' = snd (run_state (tgt_st32 tgt a v) (sh_bus sh))"
proof -
  let ?cmd = "''w '' @ hex_str (unat a) @ '' '' @ hex_str (unat v)"
  let ?t = "snd (run_state (tgt_st32 tgt a v) (sh_bus sh))"
  note ok = store_command [of "CHR 0x77" a "unat v"]
  show ?thesis
  proof (cases "debug_resets a v")
    case True
    have "CR \<notin> set ?cmd" using ok by (auto simp: list_all_iff CR_def)
    then have "prompt_run (db_prompt (shell_debug tgt)) ?cmd sh =
        Some (1, sh\<lparr>sh_bus := ?t, sh_line := [], sh_out := []\<rparr>)"
      using shell_run [OF assms, of ?cmd tgt] shell_answer_w(1) [of tgt a v "sh_bus sh"] True by simp
    then show ?thesis using True by (simp add: debug_writel_def shell_idle_def)
  next
    case False
    have len: "length ?cmd \<le> 96" using hex_str_u32(1) [of a] hex_str_u32(1) [of v] by simp
    have "list_all (\<lambda>c. c \<notin> {CR, CHR 0x24}) ?cmd" using ok by (simp add: CR_def)
    then obtain s1 s' where "prompt_run (db_prompt (shell_debug tgt)) ?cmd sh = Some (1, s1)"
        "prompt_expect (db_prompt (shell_debug tgt)) ''$ '' s1 = Some (1, s')" "shell_idle s'" "sh_bus s' = ?t"
      using shell_command [OF assms _ len, of tgt ?t] shell_answer_w(1) [of tgt a v "sh_bus sh"] False by auto
    then show ?thesis using False by (simp add: debug_writel_def)
  qed
qed

lemma span_addrs_Suc: "span_addrs a (Suc n) = a # span_addrs (a + 1) n"
  using span_addrs_append [of a 1 n] by (simp add: span_addrs_def)

lemma span_addrs_0 [simp]: "span_addrs a 0 = []"
  by (simp add: span_addrs_def)

lemma shell_read_bytes:
  assumes "shell_idle sh"
  shows "\<exists>sh'. debug_read_bytes (shell_debug tgt) a n sh =
      Some (Inr (fst (run_state (tgt_loads tgt (span_addrs a n)) (sh_bus sh))), sh') \<and>
    shell_idle sh' \<and> sh_bus sh' = snd (run_state (tgt_loads tgt (span_addrs a n)) (sh_bus sh))"
  using assms
proof (induction n arbitrary: a sh)
  case (Suc n)
  obtain b t where ld: "run_state (tgt_ld8 tgt a) (sh_bus sh) = (b, t)" by fastforce
  have small: "hex_number (hex_byte b) < 2 ^ 64"
    using unsigned_less [of b, where 'a = nat] by simp
  obtain s1 where s1: "debug_read_fixed (shell_debug tgt) CHR 0x69 a sh = Some (Inr (of_nat (unat b)), s1)"
      "shell_idle s1" "sh_bus s1 = t"
    using shell_fixed [OF Suc.prems _ hex_char_byte _ _ small, of "CHR 0x69" tgt a t] shell_answer_r(2) [of tgt a "sh_bus sh"] ld
    by auto
  have "ucast (of_nat (unat b) :: u32) = b"
    by (rule bit_word_eqI) (simp add: bit_simps bit_unsigned_iff)
  moreover obtain s2 where "debug_read_bytes (shell_debug tgt) (a + 1) n s1 =
      Some (Inr (fst (run_state (tgt_loads tgt (span_addrs (a + 1) n)) t)), s2)"
      "shell_idle s2" "sh_bus s2 = snd (run_state (tgt_loads tgt (span_addrs (a + 1) n)) t)"
    using Suc.IH [OF s1(2), of "a + 1"] s1(3) by auto
  ultimately show ?case
    using s1 ld by (simp add: span_addrs_Suc)
qed simp

lemma shell_write_bytes:
  assumes "shell_idle sh"
  shows "\<exists>sh'. debug_write_bytes (shell_debug tgt) a bs len sh = Some (len, sh') \<and>
    shell_idle sh' \<and> sh_bus sh' = snd (run_state (tgt_stores tgt (zip (span_addrs a (length bs)) bs)) (sh_bus sh))"
  using assms
proof (induction bs arbitrary: a sh)
  case (Cons b bs)
  let ?cmd = "''o '' @ hex_str (unat a) @ '' '' @ hex_str (unat b)"
  let ?t = "snd (run_state (tgt_st8 tgt a b) (sh_bus sh))"
  have len: "length ?cmd \<le> 96" using hex_str_u32(1) [of a] hex_str_u32(2) [of b] by simp
  have "list_all (\<lambda>c. c \<notin> {CR, CHR 0x24}) ?cmd"
    using store_command [of "CHR 0x6f" a "unat b"] by (simp add: CR_def)
  then obtain s1 s' where s: "prompt_run (db_prompt (shell_debug tgt)) ?cmd sh = Some (1, s1)"
      "prompt_expect (db_prompt (shell_debug tgt)) ''$ '' s1 = Some (1, s')" "shell_idle s'" "sh_bus s' = ?t"
    using shell_command [OF Cons.prems _ len, of tgt ?t] shell_answer_w(2) [of tgt a b "sh_bus sh"] by auto
  obtain s2 where "debug_write_bytes (shell_debug tgt) (a + 1) bs len s' = Some (len, s2)" "shell_idle s2"
      "sh_bus s2 = snd (run_state (tgt_stores tgt (zip (span_addrs (a + 1) (length bs)) bs)) ?t)"
    using Cons.IH [OF s(3), of "a + 1"] s(4) by auto
  then show ?case using s by (simp add: span_addrs_Suc)
qed simp

section \<open>Lines of a dump\<close>

text \<open>A line as in the comment of the source: an address and words of eight digits.\<close>

fun dump_words :: "u32 list \<Rightarrow> string" where
  "dump_words [] = []"
| "dump_words [w] = hex_word w"
| "dump_words (w # ws) = hex_word w @ CHR 0x20 # dump_words ws"

definition dump_line :: "u32 \<Rightarrow> u32 list \<Rightarrow> string" where
  "dump_line a ws = hex_word a @ CHR 0x3a # dump_words ws @ [CR, LF]"

lemma hex_pad_Suc:
  assumes "0 < k" "n < 16 ^ Suc k"
  shows "hex_pad (Suc k) n = hex_pad k (n div 16) @ [hexc (n mod 16)]"
proof (cases "n < 16")
  case True
  have "replicate k CHR 0x30 = replicate (k - 1) CHR 0x30 @ [CHR 0x30]"
    using assms(1) by (cases k) (simp_all add: replicate_append_same)
  moreover have "hexc 0 = CHR 0x30" by (simp add: hexc_def)
  ultimately show ?thesis using True by (simp add: hex_pad_def hex_str.simps [of n] hex_str.simps [of 0])
next
  case False
  then show ?thesis by (simp add: hex_pad_def hex_str.simps [of n])
qed

lemma hex_pad_2:
  assumes "n < 256"
  shows "hex_pad 2 n = [hexc (n div 16), hexc (n mod 16)]"
proof -
  have "n div 16 < 16" using assms by simp
  moreover have "hex_pad (Suc 1) n = hex_pad 1 (n div 16) @ [hexc (n mod 16)]"
    using assms by (intro hex_pad_Suc) simp_all
  ultimately show ?thesis by (simp add: hex_pad_def hex_str.simps [of "n div 16"] numeral_2_eq_2)
qed

lemma hex_pad_byte:
  assumes "2 \<le> k" "n < 16 ^ (k + 2)"
  shows "hex_pad (k + 2) n = hex_pad k (n div 256) @ hex_pad 2 (n mod 256)"
proof -
  have "hex_pad (k + 2) n = hex_pad (Suc k) (n div 16) @ [hexc (n mod 16)]"
    using hex_pad_Suc [of "Suc k" n] assms by simp
  also have "hex_pad (Suc k) (n div 16) = hex_pad k (n div 16 div 16) @ [hexc (n div 16 mod 16)]"
    using assms by (intro hex_pad_Suc) (simp_all add: div_less_iff_less_mult mult.commute)
  also have "n div 16 div 16 = n div 256" by (simp flip: div_mult2_eq)
  finally have "hex_pad (k + 2) n = hex_pad k (n div 256) @ [hexc (n div 16 mod 16), hexc (n mod 16)]" by simp
  moreover have "n mod 256 div 16 = n div 16 mod 16" "n mod 256 mod 16 = n mod 16"
    using mod_mult2_eq [of n 16 16] by (simp_all add: mod_mod_cancel)
  ultimately show ?thesis by (simp add: hex_pad_2)
qed

lemma hex_word_bytes:
  "hex_word v = hex_byte (byte_of 3 v) @ hex_byte (byte_of 2 v) @ hex_byte (byte_of 1 v) @ hex_byte (byte_of 0 v)"
proof -
  let ?n = "unat v"
  have byte: "unat (byte_of i v) = ?n div 256 ^ i mod 256" for i
  proof -
    have "take_bit 32 ?n = ?n" by (rule take_bit_nat_eq_self) simp
    then have "unat (byte_of i v) = take_bit 8 (drop_bit (8 * i) ?n)"
      by (simp add: byte_of_def unsigned_ucast_eq unsigned_drop_bit_eq)
    moreover have "(2 :: nat) ^ (8 * i) = 256 ^ i" by (simp add: power_mult)
    ultimately show ?thesis by (simp add: take_bit_eq_mod drop_bit_eq_div)
  qed
  have n: "?n < 16 ^ 8" by simp
  have "hex_pad 8 ?n = hex_pad 6 (?n div 256) @ hex_pad 2 (?n mod 256)"
    using hex_pad_byte [of 6 ?n] n by simp
  also have "hex_pad 6 (?n div 256) = hex_pad 4 (?n div 256 div 256) @ hex_pad 2 (?n div 256 mod 256)"
    using hex_pad_byte [of 4 "?n div 256"] n by (simp add: div_less_iff_less_mult)
  also have "hex_pad 4 (?n div 256 div 256) = hex_pad 2 (?n div 256 div 256 div 256) @ hex_pad 2 (?n div 256 div 256 mod 256)"
    using hex_pad_byte [of 2 "?n div 256 div 256"] n by (simp add: div_less_iff_less_mult flip: div_mult2_eq)
  finally have "hex_pad 8 ?n = hex_pad 2 (?n div 256 ^ 3) @ hex_pad 2 (?n div 256 ^ 2 mod 256) @
      hex_pad 2 (?n div 256 mod 256) @ hex_pad 2 (?n mod 256)"
    by (simp flip: div_mult2_eq)
  moreover have "?n div 256 ^ 3 mod 256 = ?n div 256 ^ 3"
    using n by (intro mod_less) (simp add: div_less_iff_less_mult)
  ultimately show ?thesis
    using byte [of 0] byte [of 1] byte [of 2] byte [of 3] by (simp add: hex_word_def hex_byte_def)
qed

lemma scan_hh_byte: "scan_hh (hex_byte b @ rest) = scan_val b rest"
proof -
  obtain c d where b: "hex_byte b = [c, d]"
    using length_hex_byte [of b] by (metis One_nat_def Suc_1 length_0_conv length_Suc_conv)
  then have h: "hex_char c" "hex_char d" using hex_char_byte [of b] by simp_all
  have "dropWhile is_space (c # d # rest) = c # d # rest" using hex_char_facts(2) [OF h(1)] by simp
  moreover have "split_sign (c # d # rest) = (False, c # d # rest)"
    using hex_char_facts(3) [OF h(1)] by (simp add: split_sign_def)
  moreover have "takeWhile (\<lambda>c. hexval c \<noteq> None) [c, d] = [c, d]"
    using take_while_hex [of "[c, d]" "[]"] h by simp
  moreover have "d \<noteq> CHR 0x78" "d \<noteq> CHR 0x58" using hex_char_facts(3) [OF h(2)] by auto
  moreover have "(of_nat (hex_number [c, d]) :: u8) = b" using hex_number_word(2) [of b] b by simp
  ultimately show ?thesis by (simp add: b scan_hh_def Let_def)
qed

lemma scan_word: "scan_bytes 4 (hex_word v @ rest) = (False, [byte_of 3 v, byte_of 2 v, byte_of 1 v, byte_of 0 v])"
  by (simp add: hex_word_bytes scan_hh_byte numeral_eq_Suc)

lemma hex_word_no_space: "CHR 0x20 \<notin> set (hex_word v)" "hex_word v \<noteq> []"
  using hex_chars_avoid(4) [OF hex_char_word [of v]] length_hex_word [of v]
  by (simp, metis list.size(3) length_hex_word zero_neq_numeral)

lemma dump_tokens:
  "ws \<noteq> [] \<Longrightarrow> tokens CHR 0x20 (dump_words ws @ [CR, LF]) =
     map hex_word (butlast ws) @ [hex_word (last ws) @ [CR, LF]]"
proof (induction ws rule: dump_words.induct)
  case (2 w)
  show ?case using hex_word_no_space [of w] by (simp add: tokens_last CR_def LF_def)
next
  case (3 w w' ws)
  show ?case using 3 hex_word_no_space [of w] by (simp add: tokens_word)
qed simp

lemma parse_words_dump:
  assumes "ws \<noteq> []"
  shows "parse_words e (map hex_word (butlast ws) @ [hex_word (last ws) @ [CR, LF]]) = Inr (concat (map le_bytes ws))"
  using assms
proof (induction ws)
  case (Cons w ws)
  then show ?case
    using scan_word [of w "[]"] scan_word [of w "[CR, LF]"] by (cases "ws = []") (simp_all add: le_bytes_def)
qed simp

lemma dump_line_chars:
  "CHR 0x00 \<notin> set (dump_line a ws)" "LF \<in> set (dump_line a ws)" "CHR 0x3a \<notin> set (hex_word a)"
proof -
  have "CHR 0x00 \<notin> set (dump_words ws)"
    by (induction ws rule: dump_words.induct) (use hex_chars_avoid(5) [OF hex_char_word] in auto)
  then show "CHR 0x00 \<notin> set (dump_line a ws)"
    using hex_chars_avoid(5) [OF hex_char_word [of a]] by (auto simp: dump_line_def CR_def LF_def)
  show "CHR 0x3a \<notin> set (hex_word a)" by (rule hex_chars_avoid(6) [OF hex_char_word])
qed (simp add: dump_line_def)

lemma parse_dump:
  assumes "ws \<noteq> []"
  shows "debug_parse_d e (dump_line a ws) = Inr (concat (map le_bytes ws))"
proof -
  have "dropWhile (\<lambda>c. c \<noteq> CHR 0x3a) (dump_line a ws) = CHR 0x3a # dump_words ws @ [CR, LF]"
    using dump_line_chars(3) [of a] by (auto simp: dump_line_def dropWhile_append dropWhile_eq_Nil_conv)
  then show ?thesis
    using dump_tokens [OF assms] parse_words_dump [OF assms] c_str_id [OF dump_line_chars(1)]
    by (simp add: debug_parse_d_def) (simp add: dump_line_def)
qed

section \<open>Bulk reads\<close>

text \<open>
  A conversation that is written down: the lines that will be read, a prompt whenever one is
  waited for, and nothing done with what is typed.
\<close>

definition script_file :: "string list file_ops" where
  "script_file = \<lparr>
     f_read = (\<lambda>n. ret (Inr ''$ '')),
     f_write = (\<lambda>s. ret (int (length s))),
     f_gets = (\<lambda>n. State (\<lambda>ls. case ls of [] \<Rightarrow> (Inl 0, []) | l # ls \<Rightarrow> (Inr l, ls))),
     f_close = ret 0 \<rparr>"

definition script_debug :: "string list debug" where
  "script_debug = \<lparr>
     db_console = \<lparr>co_destroy = act_ret 0, co_set_baud = (\<lambda>_. act_ret 0)\<rparr>,
     db_prompt = \<lparr>pr_stream = script_file, pr_eol = [CR], pr_have_echo = False\<rparr>,
     db_force_quit = 0 \<rparr>"

definition plain_line :: "string \<Rightarrow> bool" where
  "plain_line l \<longleftrightarrow> LF \<in> set l \<and> CHR 0x00 \<notin> set l \<and> length l < debug_line_size"

type_synonym dump = "(u32 \<times> u32 list) list"

definition dump_text :: "dump \<Rightarrow> string list" where
  "dump_text d = map (\<lambda>(a, ws). dump_line a ws) d"

definition dump_bytes :: "dump \<Rightarrow> u8 list" where
  "dump_bytes d = concat (map (\<lambda>(a, ws). concat (map le_bytes ws)) d)"

text \<open>Lines of one to four words.\<close>

definition dump_ok :: "dump \<Rightarrow> bool" where
  "dump_ok d \<longleftrightarrow> list_all (\<lambda>(a, ws). ws \<noteq> [] \<and> length ws \<le> 4) d"

lemma length_dump_words: "ws \<noteq> [] \<Longrightarrow> length (dump_words ws) = 9 * length ws - 1"
  by (induction ws rule: dump_words.induct) simp_all

lemma plain_dump_line: "ws \<noteq> [] \<Longrightarrow> length ws \<le> 4 \<Longrightarrow> plain_line (dump_line a ws)"
  using dump_line_chars(1,2) [of a ws] length_dump_words [of ws]
  by (simp add: plain_line_def debug_line_size_def) (simp add: dump_line_def)

lemma script_gets [simp]:
  "plain_line l \<Longrightarrow> prompt_gets (db_prompt script_debug) old debug_line_size (l # ls) = Some ((0, l), ls)"
  unfolding prompt_gets_def plain_line_def
  by (subst prompt_gets_loop.simps) (simp add: script_debug_def script_file_def c_str_id LF_def)

lemma script_write [simp]:
  "prompt_write (db_prompt script_debug) buf ls = Some (int (length buf), ls)"
  by (simp add: prompt_write_def) (subst prompt_write_loop.simps, simp add: script_debug_def script_file_def)

lemma script_run [simp]: "prompt_run (db_prompt script_debug) cmd ls = Some (1, ls)"
  by (simp add: prompt_run_def) (simp add: script_debug_def)

lemma script_expect [simp]: "prompt_expect (db_prompt script_debug) ''$ '' ls = Some (1, ls)"
  by (subst prompt_expect.simps, subst prompt_expect_into.simps) (simp add: script_debug_def script_file_def)

lemma read_lines_more:
  assumes "dump_ok d" "consumed + length (dump_bytes d) < ingress"
  shows "\<exists>line'. debug_read_lines script_debug e ingress consumed out line (dump_text d @ rest) =
    debug_read_lines script_debug e ingress (consumed + length (dump_bytes d)) (out @ dump_bytes d) line' rest"
  using assms
proof (induction d arbitrary: consumed out line)
  case Nil
  then show ?case by (auto simp: dump_text_def dump_bytes_def)
next
  case (Cons p d)
  obtain a ws where p: "p = (a, ws)" by fastforce
  have ws: "ws \<noteq> []" "length ws \<le> 4" and d: "dump_ok d" using Cons.prems(1) by (simp_all add: dump_ok_def p)
  let ?bs = "concat (map le_bytes ws)"
  have bytes: "dump_bytes (p # d) = ?bs @ dump_bytes d" by (simp add: dump_bytes_def p)
  have "consumed + length ?bs < ingress" using Cons.prems(2) by (simp add: bytes)
  then have "debug_read_lines script_debug e ingress consumed out line (dump_text (p # d) @ rest) =
      debug_read_lines script_debug e ingress (consumed + length ?bs) (out @ ?bs)
        (after_strtok (dump_line a ws)) (dump_text d @ rest)"
    using plain_dump_line [OF ws, of a] parse_dump [OF ws(1), of e a]
    by (subst debug_read_lines.simps) (simp add: dump_text_def p bytes)
  moreover obtain line' where "debug_read_lines script_debug e ingress (consumed + length ?bs) (out @ ?bs)
        (after_strtok (dump_line a ws)) (dump_text d @ rest) =
      debug_read_lines script_debug e ingress (consumed + length ?bs + length (dump_bytes d))
        ((out @ ?bs) @ dump_bytes d) line' rest"
    using Cons.IH [OF d, of "consumed + length ?bs" "out @ ?bs" "after_strtok (dump_line a ws)"] Cons.prems(2)
    by (auto simp: bytes)
  ultimately show ?case unfolding bytes by (auto simp: add.assoc)
qed

lemma dump_bytes_append: "dump_bytes (d @ d') = dump_bytes d @ dump_bytes d'"
  by (simp add: dump_bytes_def)

lemma length_le_concat: "length (concat (map le_bytes ws)) = 4 * length ws"
  by (induction ws) simp_all

text \<open>A line that ends the answer, and one that cannot be parsed.\<close>

lemma read_lines_all:
  assumes "dump_ok d" "d \<noteq> []" "length (dump_bytes d) = ingress"
  shows "\<exists>line'. debug_read_lines script_debug e ingress 0 out line (dump_text d @ rest) =
    Some (Inr (True, out @ dump_bytes d, line'), rest)"
proof -
  obtain i a ws where d: "d = i @ [(a, ws)]" using assms(2) by (metis append_butlast_last_id prod.exhaust)
  have ok: "dump_ok i" "ws \<noteq> []" "length ws \<le> 4" using assms(1) by (auto simp: d dump_ok_def)
  have bytes: "dump_bytes d = dump_bytes i @ concat (map le_bytes ws)" by (simp add: d dump_bytes_def)
  then have len: "length (dump_bytes i) + 4 * length ws = ingress" using assms(3) by (simp add: length_le_concat)
  then have "0 + length (dump_bytes i) < ingress" using ok(2) by (cases ws) simp_all
  from read_lines_more [OF ok(1) this] obtain line' where
    "debug_read_lines script_debug e ingress 0 out line (dump_text i @ (dump_line a ws # rest)) =
     debug_read_lines script_debug e ingress (0 + length (dump_bytes i)) (out @ dump_bytes i) line' (dump_line a ws # rest)"
    by blast
  moreover have "debug_read_lines script_debug e ingress (0 + length (dump_bytes i)) (out @ dump_bytes i) line' (dump_line a ws # rest) =
      Some (Inr (True, out @ dump_bytes d, after_strtok (dump_line a ws)), rest)"
    using plain_dump_line [OF ok(2,3), of a] parse_dump [OF ok(2), of e a] len
    by (subst debug_read_lines.simps) (simp add: bytes length_le_concat)
  moreover have "dump_text d @ rest = dump_text i @ (dump_line a ws # rest)" by (simp add: dump_text_def d)
  ultimately show ?thesis by (simp only:) blast
qed

lemma read_lines_garbled:
  assumes "dump_ok d" "length (dump_bytes d) < ingress" "plain_line bad" "debug_parse_d e bad = Inl rc"
  shows "debug_read_lines script_debug e ingress 0 out line (dump_text d @ bad # rest) =
    Some (Inr (False, out @ dump_bytes d, after_strtok bad), rest)"
proof -
  have "0 + length (dump_bytes d) < ingress" using assms(2) by simp
  from read_lines_more [OF assms(1) this] obtain line' where
    "debug_read_lines script_debug e ingress 0 out line (dump_text d @ bad # rest) =
     debug_read_lines script_debug e ingress (0 + length (dump_bytes d)) (out @ dump_bytes d) line' (bad # rest)"
    by blast
  also have "\<dots> = Some (Inr (False, out @ dump_bytes d, after_strtok bad), rest)"
    using assms(3,4) by (subst debug_read_lines.simps) (simp add: debug_resync_def)
  finally show ?thesis .
qed

text \<open>One command: the echo of it, then its lines.\<close>

lemma eat_echo:
  "plain_line echo \<Longrightarrow> echo \<noteq> ''$ '' @ [LF] \<Longrightarrow>
     debug_eat_echo script_debug line (echo # ls) = Some (Inr echo, ls)"
  by (subst debug_eat_echo.simps) simp

lemma read_loop_command:
  assumes "plain_line echo" "echo \<noteq> ''$ '' @ [LF]" "len \<le> DEBUG_D_MAX_LEN"
    and "debug_read_lines script_debug e len 0 out echo ls = Some (Inr (complete, out', line'), ls')"
  shows "debug_read_loop script_debug e phys len out line (echo # ls) =
    (if complete then Some (Inr out', ls') else debug_read_loop script_debug e phys len out' line' ls')"
  using assms eat_echo [OF assms(1,2)] by (subst debug_read_loop.simps) (simp add: min_def)

section \<open>Bus accesses\<close>

text \<open>
  The bridge for its clients. A call that does not return has no outcome to speak of; over the
  shell every word access returns (\<open>shell_readl\<close>, \<open>shell_writel\<close>).
\<close>

definition act_total :: "'a \<Rightarrow> ('s, 'a) act \<Rightarrow> ('s, 'a) state" where
  "act_total d m = State (\<lambda>s. case m s of Some r \<Rightarrow> r | None \<Rightarrow> (d, s))"

lemma run_act_total [simp]: "m s = Some r \<Longrightarrow> run_state (act_total d m) s = r"
  by (simp add: act_total_def)

definition debug_ahb_ops :: "'s debug \<Rightarrow> int \<Rightarrow> string \<Rightarrow> 's ahb_ops" where
  "debug_ahb_ops ctx e line = \<lparr>
     ops_read = (\<lambda>a n. act_total (Inl (- 1)) (debug_read ctx e line a n)),
     ops_write = (\<lambda>a bs. act_total (- 1) (debug_write ctx a bs)),
     ops_readl = (\<lambda>a. act_total (Inl (- EIO)) (debug_readl ctx a)),
     ops_writel = (\<lambda>a v. act_total (- EIO) (debug_writel ctx a v)) \<rparr>"

lemma shell_readl_run:
  assumes "shell_idle sh" "r = run_state (ops_readl (debug_ahb_ops (shell_debug tgt) e line) a) sh"
  shows "fst r = Inr (fst (run_state (tgt_ld32 tgt a) (sh_bus sh))) \<and> shell_idle (snd r) \<and>
    sh_bus (snd r) = snd (run_state (tgt_ld32 tgt a) (sh_bus sh))"
  using shell_readl [OF assms(1), of tgt a] by (auto simp: assms(2) debug_ahb_ops_def)

lemma shell_writel_run:
  assumes "shell_idle sh" "r = run_state (ops_writel (debug_ahb_ops (shell_debug tgt) e line) a v) sh"
  shows "fst r = 0 \<and> shell_idle (snd r) \<and> sh_bus (snd r) = snd (run_state (tgt_st32 tgt a v) (sh_bus sh))"
  using shell_writel [OF assms(1), of tgt a v] by (auto simp: assms(2) debug_ahb_ops_def)

interpretation shell_bus: ahb_bridge "debug_ahb_ops (shell_debug tgt) e line" shell_idle tgt sh_bus
  by unfold_locales (use shell_readl_run [OF _ refl] shell_writel_run [OF _ refl] in blast)+

definition debug_soc :: "u32 \<Rightarrow> fdt \<Rightarrow> 't target \<Rightarrow> 't shell soc" where
  "debug_soc rv dt tgt = \<lparr>soc_rev = rv, soc_fdt = dt, soc_ahb = \<lparr>
     ahb_drv = \<lparr>drv_name = ''debug-uart'', drv_release = None, drv_reinit = None,
       drv_path_required = True, drv_local = False, drv_disabled = False\<rparr>,
     ahb_ops = debug_ahb_ops (shell_debug tgt) 0 []\<rparr>\<rparr>"

interpretation shell_soc: soc_bus "debug_ahb_ops (shell_debug (regfile eff)) 0 []" shell_idle sh_bus eff
    "debug_soc rv dt (regfile eff)"
  by (intro soc_bus.intro reg_bus.intro soc_bus_axioms.intro shell_bus.ahb_bridge_axioms)
    (simp add: debug_soc_def)

section \<open>Properties\<close>

text \<open>
  Claim C2. Every access through the debug UART is the access of the bus: however the answers
  of the shell are cut into pieces, a word read gives the word loaded, a word write stores it
  (also the one that resets the system and is never answered), reads of up to 3 bytes load and
  writes of up to 4 bytes store one byte after the other, each call returns, and the shell is
  left waiting for the next command.
\<close>

theorem debug_shell_access:
  assumes "shell_idle sh"
  shows "(\<exists>s1. debug_readl (shell_debug tgt) a sh = Some (Inr (fst (run_state (tgt_ld32 tgt a) (sh_bus sh))), s1) \<and>
      shell_idle s1 \<and> sh_bus s1 = snd (run_state (tgt_ld32 tgt a) (sh_bus sh))) \<and>
    (\<exists>s2. debug_writel (shell_debug tgt) a v sh = Some (0, s2) \<and>
      shell_idle s2 \<and> sh_bus s2 = snd (run_state (tgt_st32 tgt a v) (sh_bus sh))) \<and>
    (n < 4 \<longrightarrow> (\<exists>s3. debug_read (shell_debug tgt) e line a n sh =
        Some (Inr (fst (run_state (tgt_loads tgt (span_addrs a n)) (sh_bus sh))), s3) \<and>
      shell_idle s3 \<and> sh_bus s3 = snd (run_state (tgt_loads tgt (span_addrs a n)) (sh_bus sh)))) \<and>
    (length bs \<le> 4 \<longrightarrow> (\<exists>s4. debug_write (shell_debug tgt) a bs sh = Some (int (length bs), s4) \<and>
      shell_idle s4 \<and> sh_bus s4 = snd (run_state (tgt_stores tgt (zip (span_addrs a (length bs)) bs)) (sh_bus sh))))"
proof (intro conjI impI)
  assume "n < 4"
  then show "\<exists>s3. debug_read (shell_debug tgt) e line a n sh =
        Some (Inr (fst (run_state (tgt_loads tgt (span_addrs a n)) (sh_bus sh))), s3) \<and>
      shell_idle s3 \<and> sh_bus s3 = snd (run_state (tgt_loads tgt (span_addrs a n)) (sh_bus sh))"
    using shell_read_bytes [OF assms] by (simp add: debug_read_def SSIZE_MAX_def)
next
  assume "length bs \<le> 4"
  then show "\<exists>s4. debug_write (shell_debug tgt) a bs sh = Some (int (length bs), s4) \<and>
      shell_idle s4 \<and> sh_bus s4 = snd (run_state (tgt_stores tgt (zip (span_addrs a (length bs)) bs)) (sh_bus sh))"
    using shell_write_bytes [OF assms] by (simp add: debug_write_def SSIZE_MAX_def)
qed (rule shell_readl [OF assms] shell_writel [OF assms])+

theorem debug_shell_access_witness:
  "\<exists>s1. debug_readl (shell_debug ram_target) 0x1e6e2000
      \<lparr>sh_bus = (\<lambda>a. if a = 0x1e6e2001 then 0x12 else 0), sh_line = [], sh_out = [], sh_sched = [3, 1, 7]\<rparr> =
    Some (Inr 0x1200, s1)"
proof -
  let ?sh = "\<lparr>sh_bus = (\<lambda>a. if a = 0x1e6e2001 then 0x12 else 0), sh_line = [], sh_out = [], sh_sched = [3, 1, 7]\<rparr>"
  have idle: "shell_idle ?sh" by (simp add: shell_idle_def)
  have "fst (run_state (tgt_ld32 ram_target 0x1e6e2000) (sh_bus ?sh)) = 0x1200" by (simp add: le_word_def)
  then show ?thesis
    using debug_shell_access [OF idle, of ram_target "0x1e6e2000", THEN conjunct1] by metis
qed

text \<open>
  Claim C39. A bulk read stores the bytes its dump shows, but a garbled line makes it overrun its
  buffer: the command is repeated from the start of the block while the bytes that came before
  the garbled line stay, so all that is stored is longer than what was asked for by what had
  already arrived. (One command; lines of one to four words, the last of which completes it.)
\<close>

theorem debug_read_garbled_overruns:
  assumes "dump_ok d" "d \<noteq> []" "length (dump_bytes d) = len" "4 \<le> len" "len \<le> DEBUG_D_MAX_LEN"
    and "plain_line echo" "echo \<noteq> ''$ '' @ [LF]"
    and "dump_ok d1" "d1 \<noteq> []" "length (dump_bytes d1) < len" "plain_line bad" "debug_parse_d e bad = Inl rc"
  shows "debug_read script_debug e line phys len (echo # dump_text d) = Some (Inr (dump_bytes d), []) \<and>
    debug_read script_debug e line phys len (echo # dump_text d1 @ bad # echo # dump_text d) =
      Some (Inr (dump_bytes d1 @ dump_bytes d), []) \<and>
    len < length (dump_bytes d1 @ dump_bytes d)"
proof (intro conjI)
  have small: "\<not> len > SSIZE_MAX" "\<not> len < 4"
    using assms(4,5) by (simp_all add: SSIZE_MAX_def DEBUG_D_MAX_LEN_def)
  note all = read_lines_all [OF assms(1-3), of e _ _ "[]", unfolded append_Nil2]
  note loop = read_loop_command [OF assms(6,7,5)]
  have complete: "debug_read_loop script_debug e phys len out line (echo # dump_text d) =
      Some (Inr (out @ dump_bytes d), [])" for out line
    using all [of out echo] loop by fastforce
  show "debug_read script_debug e line phys len (echo # dump_text d) = Some (Inr (dump_bytes d), [])"
    using small complete by (simp add: debug_read_def)
  show "debug_read script_debug e line phys len (echo # dump_text d1 @ bad # echo # dump_text d) =
      Some (Inr (dump_bytes d1 @ dump_bytes d), [])"
    using small complete loop [OF read_lines_garbled [OF assms(8,10-12)]] by (simp add: debug_read_def)
  obtain a ws ds where "d1 = (a, ws) # ds" using assms(9) by (cases d1) auto
  then have "0 < length (dump_bytes d1)"
    using assms(8) by (cases ws) (simp_all add: dump_ok_def dump_bytes_def)
  then show "len < length (dump_bytes d1 @ dump_bytes d)" using assms(3) by simp
qed

theorem debug_read_garbled_overruns_witness:
  "length (case debug_read script_debug 0 [] 0x80000000 8
      ((''d 80000000 8'' @ [CR, LF]) # dump_text [(0x80000000, [1])] @ (''?'' @ [LF]) #
       (''d 80000000 8'' @ [CR, LF]) # dump_text [(0x80000000, [1, 2])]) of
     Some (Inr bs, _) \<Rightarrow> bs | _ \<Rightarrow> []) = 12"
proof -
  have "debug_parse_d 0 (''?'' @ [LF]) = Inl (- EBADE)" by (simp add: debug_parse_d_def c_str_def LF_def)
  from debug_read_garbled_overruns [of "[(0x80000000, [1, 2])]" 8 "''d 80000000 8'' @ [CR, LF]"
      "[(0x80000000, [1])]" "''?'' @ [LF]" 0, OF _ _ _ _ _ _ _ _ _ _ _ this, of "[]" "0x80000000"]
  show ?thesis
    by (simp add: dump_ok_def dump_bytes_def DEBUG_D_MAX_LEN_def plain_line_def debug_line_size_def LF_def CR_def)
qed

end
