(* ===== verification/Suart.thy ===== *)
theory Suart
  imports Sio Partial
begin

text \<open>
  The UARTs of the SuperIO as the host sees them, \<^verbatim>\<open>src/uart/suart.c\<close>: enabling one, its
  baud rate, and the polled loops that write and read through its FIFO. The contract \<open>uart_port\<close>
  is a transmitter of 16 slots that empties some time after it was filled.
\<close>

section \<open>Registers\<close>

definition UART_RBR :: nat where "UART_RBR = 0x00"
definition UART_THR :: nat where "UART_THR = 0x00"
definition UART_DLL :: nat where "UART_DLL = 0x00"
definition UART_IER :: nat where "UART_IER = 0x01"
definition UART_DLH :: nat where "UART_DLH = 0x01"
definition UART_FCR :: nat where "UART_FCR = 0x02"
definition UART_FCR_XMIT_RST :: u8 where "UART_FCR_XMIT_RST = push_bit 2 1"
definition UART_FCR_RCVR_RST :: u8 where "UART_FCR_RCVR_RST = push_bit 1 1"
definition UART_FCR_FIFO_EN :: u8 where "UART_FCR_FIFO_EN = push_bit 0 1"
definition UART_LCR :: nat where "UART_LCR = 0x03"
definition UART_LCR_DLAB :: u8 where "UART_LCR_DLAB = push_bit 7 1"
definition UART_LCR_EPS :: u8 where "UART_LCR_EPS = push_bit 4 1"
definition UART_LCR_CLS_8 :: u8 where "UART_LCR_CLS_8 = 0x03"
definition UART_MCR :: nat where "UART_MCR = 0x04"
definition UART_MCR_OUT2 :: u8 where "UART_MCR_OUT2 = push_bit 3 1"
definition UART_MCR_NRTS :: u8 where "UART_MCR_NRTS = push_bit 1 1"
definition UART_MCR_NDTR :: u8 where "UART_MCR_NDTR = push_bit 0 1"
definition UART_LSR :: nat where "UART_LSR = 0x05"
definition UART_LSR_ERROR :: u8 where "UART_LSR_ERROR = push_bit 7 1"
definition UART_LSR_THRE :: u8 where "UART_LSR_THRE = push_bit 5 1"
definition UART_LSR_DR :: u8 where "UART_LSR_DR = push_bit 0 1"
definition UART_DEFAULT_BAUD :: int where "UART_DEFAULT_BAUD = 115200"

lemmas uart_regs = UART_RBR_def UART_THR_def UART_DLL_def UART_IER_def UART_DLH_def UART_FCR_def
  UART_LCR_def UART_MCR_def UART_LSR_def
lemmas uart_bits = UART_FCR_XMIT_RST_def UART_FCR_RCVR_RST_def UART_FCR_FIFO_EN_def UART_LSR_ERROR_def
  UART_LSR_THRE_def UART_LSR_DR_def

record suart =
  su_dev :: u8
  su_sirq :: u8
  su_base :: u16
  su_baud :: u16

text \<open>Division of C, towards zero; without a rate it traps.\<close>

definition baud_to_divisor :: "int \<Rightarrow> u16 option" where
  "baud_to_divisor baud =
     (if baud = 0 then None
      else Some (of_int (sgn baud * ((24000000 div 13) div \<bar>16 * baud\<bar>))))"

definition suart_reg :: "suart \<Rightarrow> nat \<Rightarrow> nat" where
  "suart_reg ctx r = unat (su_base ctx) + r"

section \<open>Enabling and disabling\<close>

text \<open>
  \<open>__suart_init\<close>, up to the SuperIO lock: the base address and the interrupt that the logical
  device has or is given. On a failure the SuperIO is locked and closed again.
\<close>

definition suart_sio_config :: "'h lpc_ops \<Rightarrow> bool \<Rightarrow> u16 \<Rightarrow> int \<Rightarrow> ('h sio, int + u16 \<times> u8) state" where
  "suart_sio_config io defaults base sirq =
     (if defaults
      then valr_then (sio_readb io 0x60) (\<lambda>hi.
           valr_then (sio_readb io 0x61) (\<lambda>lo.
           valr_then (sio_readb io 0x70) (\<lambda>s.
             ret (Inr (push_bit 8 (ucast hi) OR ucast lo, s)))))
      else nzr_then (sio_writeb io 0x60 (ucast (drop_bit 8 base)))
           (nzr_then (sio_writeb io 0x61 (ucast (base AND 0xff)))
           (nzr_then (sio_writeb io 0x70 (of_int sirq))
             (ret (Inr (base, of_int sirq))))))"

definition suart_sio_cleanup :: "'h lpc_ops \<Rightarrow> ('h sio, unit) state" where
  "suart_sio_cleanup io = do { _ \<leftarrow> sio_lock io; _ \<leftarrow> sio_destroy io; ret () }"

definition suart_sio_init ::
  "'h lpc_ops \<Rightarrow> u8 \<Rightarrow> bool \<Rightarrow> u16 \<Rightarrow> int \<Rightarrow> ('h sio, int + u16 \<times> u8) state" where
  "suart_sio_init io dev defaults base sirq =
     nzr_then (sio_init io)
    (nzr_then (sio_unlock io)
    (do {
       r \<leftarrow> nzr_then (sio_select io dev)
          (valr_then (suart_sio_config io defaults base sirq) (\<lambda>c.
             nzr_then (sio_writeb io 0x30 1) (ret (Inr c))));
       (case r of
          Inl rc \<Rightarrow> do { _ \<leftarrow> suart_sio_cleanup io; ret (Inl rc) }
        | Inr c \<Rightarrow> do {
            _ \<leftarrow> sio_lock io;
            rc \<leftarrow> sio_destroy io;
            ret (if rc \<noteq> 0 then Inl rc else Inr c) }) }))"

text \<open>The SuperIO is a local variable of the C functions.\<close>

definition on_sio :: "('h sio, 'a) state \<Rightarrow> ('h, 'a) state" where
  "on_sio m = State (\<lambda>h. let r = run_state m \<lparr>sio_io = h, sio_base = 0\<rparr> in (fst r, sio_io (snd r)))"

definition suart_lpc_setup :: "'h lpc_ops \<Rightarrow> suart \<Rightarrow> ('h, int) state" where
  "suart_lpc_setup io ctx =
     (case baud_to_divisor UART_DEFAULT_BAUD of
        None \<Rightarrow> ret 0
      | Some divisor \<Rightarrow> do {
          rc \<leftarrow> nz_then (lpc_writeb io (suart_reg ctx UART_IER) 0)
            (nz_then (lpc_writeb io (suart_reg ctx UART_MCR) (UART_MCR_OUT2 OR UART_MCR_NRTS OR UART_MCR_NDTR))
            (nz_then (lpc_writeb io (suart_reg ctx UART_LCR) (UART_LCR_DLAB OR UART_LCR_EPS OR UART_LCR_CLS_8))
            (nz_then (lpc_writeb io (suart_reg ctx UART_DLH) (ucast (drop_bit 8 divisor)))
            (nz_then (lpc_writeb io (suart_reg ctx UART_DLL) (ucast (divisor AND 0xff)))
            (lpc_writeb io (suart_reg ctx UART_LCR) (UART_LCR_EPS OR UART_LCR_CLS_8))))));
          (if rc \<noteq> 0 then do { _ \<leftarrow> lpc_destroy io; ret rc }
           else lpc_writeb io (suart_reg ctx UART_FCR)
             (UART_FCR_XMIT_RST OR UART_FCR_RCVR_RST OR UART_FCR_FIFO_EN)) })"

definition suart_init_common ::
  "'h lpc_ops \<Rightarrow> suart \<Rightarrow> u8 \<Rightarrow> bool \<Rightarrow> u16 \<Rightarrow> int \<Rightarrow> ('h, int + suart) state" where
  "suart_init_common io ctx dev defaults base sirq =
     (if dev \<notin> {0x02, 0x03, 0x0b, 0x0c} then ret (Inl (- EINVAL))
      else valr_then (on_sio (suart_sio_init io dev defaults base sirq)) (\<lambda>(b, s).
        let ctx = ctx\<lparr>su_base := b, su_sirq := s\<rparr>
        in nzr_then (lpc_init io ''io'')
           (nzr_then (suart_lpc_setup io ctx) (ret (Inr ctx)))))"

definition suart_init_defaults :: "'h lpc_ops \<Rightarrow> suart \<Rightarrow> u8 \<Rightarrow> ('h, int + suart) state" where
  "suart_init_defaults io ctx dev = suart_init_common io ctx dev True 0 0"

definition suart_init :: "'h lpc_ops \<Rightarrow> suart \<Rightarrow> u8 \<Rightarrow> u16 \<Rightarrow> int \<Rightarrow> ('h, int + suart) state" where
  "suart_init io ctx dev base sirq = suart_init_common io ctx dev False base sirq"

text \<open>The logical device that is disabled is the one of the instance, which no function sets.\<close>

definition suart_destroy :: "'h lpc_ops \<Rightarrow> suart \<Rightarrow> ('h, int) state" where
  "suart_destroy io ctx = on_sio
     (nz_then (sio_init io)
     (nz_then (sio_unlock io)
     (do {
        rc \<leftarrow> nz_then (sio_select io (su_dev ctx)) (sio_writeb io 0x30 0);
        _ \<leftarrow> suart_sio_cleanup io;
        ret rc })))"

definition suart_set_baud :: "'h lpc_ops \<Rightarrow> suart \<Rightarrow> int \<Rightarrow> ('h, int + suart) act" where
  "suart_set_baud io ctx rate =
     act_valr (act_run (lpc_readb io (suart_reg ctx UART_LCR))) (\<lambda>lcr.
     act_nzr (act_run (lpc_writeb io (suart_reg ctx UART_LCR) (lcr OR UART_LCR_DLAB)))
     (case baud_to_divisor rate of
        None \<Rightarrow> act_stuck
      | Some divisor \<Rightarrow>
          act_nzr (act_run (lpc_writeb io (suart_reg ctx UART_DLH) (ucast (drop_bit 8 divisor))))
         (act_nzr (act_run (lpc_writeb io (suart_reg ctx UART_DLL) (ucast (divisor AND 0xff))))
         (act_nzr (act_run (lpc_writeb io (suart_reg ctx UART_LCR) (lcr AND NOT UART_LCR_DLAB)))
         (act_nzr (act_run (lpc_writeb io (suart_reg ctx UART_FCR)
             (UART_FCR_RCVR_RST OR UART_FCR_XMIT_RST OR UART_FCR_FIFO_EN)))
         (act_valr (act_run (lpc_readb io (suart_reg ctx UART_LSR))) (\<lambda>_.
            act_ret (Inr (ctx\<lparr>su_baud := of_int rate\<rparr>)))))))))"

section \<open>Through the FIFO\<close>

text \<open>\<open>suart_write\<close> gives how many bytes are left to write.\<close>

fun suart_fill_fifo :: "'h lpc_ops \<Rightarrow> suart \<Rightarrow> u8 list \<Rightarrow> nat \<Rightarrow> ('h, int) state" where
  "suart_fill_fifo io ctx [] slots = ret 0"
| "suart_fill_fifo io ctx (b # bs) 0 = ret (int (length (b # bs)))"
| "suart_fill_fifo io ctx (b # bs) (Suc slots) =
     nz_then (lpc_writeb io (suart_reg ctx UART_THR) b) (suart_fill_fifo io ctx bs slots)"

definition suart_write :: "'h lpc_ops \<Rightarrow> suart \<Rightarrow> u8 list \<Rightarrow> ('h, int) state" where
  "suart_write io ctx buf =
     (if buf = [] then ret 0
      else val_then (lpc_readb io (suart_reg ctx UART_LSR)) (\<lambda>lsr.
        if lsr AND UART_LSR_ERROR \<noteq> 0 then ret (- EIO)
        else if lsr AND UART_LSR_DR \<noteq> 0 then ret (int (length buf))
        else if lsr AND UART_LSR_THRE = 0 then ret (int (length buf))
        else suart_fill_fifo io ctx buf 16))"

text \<open>
  \<open>suart_read\<close>: the bytes read. A burst ends when nothing is ready, the buffer is full or the
  line status cannot be read; 100 bursts are tried whatever the last one came to.
\<close>

fun suart_burst :: "'h lpc_ops \<Rightarrow> suart \<Rightarrow> nat \<Rightarrow> u8 list \<Rightarrow> ('h, int + int \<times> u8 list) state" where
  "suart_burst io ctx space out = do {
     r \<leftarrow> lpc_readb io (suart_reg ctx UART_LSR);
     (case r of
        Inl rc \<Rightarrow> ret (Inr (rc, out))
      | Inr lsr \<Rightarrow>
          (case space of
             0 \<Rightarrow> ret (Inr (0, out))
           | Suc space \<Rightarrow>
               if lsr AND UART_LSR_DR = 0 then ret (Inr (0, out))
               else valr_then (lpc_readb io (suart_reg ctx UART_RBR)) (\<lambda>b.
                 suart_burst io ctx space (out @ [b])))) }"

declare suart_burst.simps [simp del]

fun suart_bursts :: "'h lpc_ops \<Rightarrow> suart \<Rightarrow> nat \<Rightarrow> nat \<Rightarrow> u8 list \<Rightarrow> ('h, int + u8 list) state" where
  "suart_bursts io ctx len 0 out = ret (Inr out)"
| "suart_bursts io ctx len (Suc retry) out =
     valr_then (suart_burst io ctx (len - length out) out) (\<lambda>(rc, out).
       if retry = 0 then ret (if rc \<noteq> 0 then Inl rc else Inr out)
       else suart_bursts io ctx len retry out)"

definition suart_read :: "'h lpc_ops \<Rightarrow> suart \<Rightarrow> nat \<Rightarrow> ('h, int + u8 list) state" where
  "suart_read io ctx len =
     valr_then (lpc_readb io (suart_reg ctx UART_LSR)) (\<lambda>lsr.
       if lsr AND UART_LSR_ERROR \<noteq> 0 then ret (Inl (- EIO))
       else if lsr AND UART_LSR_DR = 0 then ret (Inr [])
       else suart_bursts io ctx len 100 [])"

partial_function (option) suart_flush :: "'h lpc_ops \<Rightarrow> suart \<Rightarrow> u8 list \<Rightarrow> 'h \<Rightarrow> (int \<times> 'h) option" where
  "suart_flush io ctx buf h =
     (if buf = [] then Some (0, h)
      else let (rc, h) = run_state (lpc_writeb io (suart_reg ctx UART_FCR) (UART_FCR_RCVR_RST OR UART_FCR_FIFO_EN)) h
           in if rc \<noteq> 0 then Some (rc, h)
              else let (remaining, h) = run_state (suart_write io ctx buf) h
                   in if remaining \<le> 0 then Some (remaining, h)
                      else suart_flush io ctx (drop (length buf - nat remaining) buf) h)"

text \<open>The delays of \<open>sleep(3)\<close> are not modelled.\<close>

partial_function (option) suart_fill_loop ::
  "'h lpc_ops \<Rightarrow> suart \<Rightarrow> nat \<Rightarrow> u8 list \<Rightarrow> 'h \<Rightarrow> ((int + u8 list) \<times> 'h) option" where
  "suart_fill_loop io ctx len out h =
     (if length out = len then Some (Inr out, h)
      else let (r, h) = run_state (suart_read io ctx (len - length out)) h
           in case r of
                Inl rc \<Rightarrow> Some (Inl rc, h)
              | Inr bs \<Rightarrow> suart_fill_loop io ctx len (out @ bs) h)"

definition suart_fill :: "'h lpc_ops \<Rightarrow> suart \<Rightarrow> nat \<Rightarrow> ('h, int + u8 list) act" where
  "suart_fill io ctx len = suart_fill_loop io ctx len []"

partial_function (option) suart_fill_until_loop ::
  "'h lpc_ops \<Rightarrow> suart \<Rightarrow> nat \<Rightarrow> u8 \<Rightarrow> u8 list \<Rightarrow> 'h \<Rightarrow> ((int + u8 list) \<times> 'h) option" where
  "suart_fill_until_loop io ctx len trm out h =
     (if \<not> (out \<noteq> [] \<and> last out \<noteq> trm \<or> length out \<noteq> len) then Some (Inr out, h)
      else let (r, h) = run_state (suart_read io ctx (len - length out)) h
           in case r of
                Inl rc \<Rightarrow> Some (Inl rc, h)
              | Inr bs \<Rightarrow> suart_fill_until_loop io ctx len trm (out @ bs) h)"

definition suart_fill_until :: "'h lpc_ops \<Rightarrow> suart \<Rightarrow> nat \<Rightarrow> u8 \<Rightarrow> ('h, int + u8 list) act" where
  "suart_fill_until io ctx len trm =
     (if len > 2 ^ 63 - 1 then act_ret (Inl (- EINVAL)) else suart_fill_until_loop io ctx len trm [])"

section \<open>Bridging to two descriptors\<close>

text \<open>
  \<open>suart_run\<close>: waiting for input (\<open>epoll_wait(2)\<close>, whether there is any), reading it and
  writing what the UART received are parameters, on the state that also holds the ports.
  It only ends with an error.
\<close>

record 's uart_fds =
  uf_wait :: "('s, int + bool) state"
  uf_read :: "nat \<Rightarrow> ('s, int + u8 list) state"
  uf_write :: "u8 list \<Rightarrow> ('s, int) state"

definition suart_to_uout :: "'h lpc_ops \<Rightarrow> 'h uart_fds \<Rightarrow> suart \<Rightarrow> ('h, int) act" where
  "suart_to_uout io fds ctx =
     act_val (act_run (suart_read io ctx 1024)) (\<lambda>bs. write_all (uf_write fds) bs)"

partial_function (option) suart_from_uin ::
  "'h lpc_ops \<Rightarrow> 'h uart_fds \<Rightarrow> suart \<Rightarrow> u8 list \<Rightarrow> 'h \<Rightarrow> (int \<times> 'h) option" where
  "suart_from_uin io fds ctx buf s =
     (if buf = [] then Some (0, s)
      else let (left, s) = run_state (suart_write io ctx buf) s
           in if left < 0 then Some (left, s)
              else Option.bind (suart_to_uout io fds ctx s) (\<lambda>(rc, s).
                if rc < 0 then Some (rc, s)
                else suart_from_uin io fds ctx (drop (length buf - nat left) buf) s))"

partial_function (option) suart_run ::
  "'h lpc_ops \<Rightarrow> 'h uart_fds \<Rightarrow> suart \<Rightarrow> 'h \<Rightarrow> (int \<times> 'h) option" where
  "suart_run io fds ctx s =
     (let (r, s) = run_state (uf_wait fds) s
      in case r of
           Inl e \<Rightarrow> Some (e, s)
         | Inr input \<Rightarrow>
             Option.bind
               (if input
                then (let (r, s) = run_state (uf_read fds 16) s
                      in case r of Inl e \<Rightarrow> Some (e, s) | Inr bs \<Rightarrow> suart_from_uin io fds ctx bs s)
                else suart_to_uout io fds ctx s)
               (\<lambda>(rc, s). if rc < 0 then Some (rc, s) else suart_run io fds ctx s))"

section \<open>A transmitter that empties\<close>

text \<open>
  The contract: a poll of the line status either finds the transmitter empty, and then it takes 16
  bytes, or comes closer to that (a byte that came in keeps the writer away just the same);
  resetting the receiver disturbs nothing. \<open>sent\<close> are the bytes the transmitter has taken.
\<close>

definition lsr_ready :: "u8 \<Rightarrow> bool" where
  "lsr_ready v \<longleftrightarrow> v AND UART_LSR_DR = 0 \<and> v AND UART_LSR_THRE \<noteq> 0"

locale uart_port =
  fixes io :: "'h lpc_ops"
    and ctx :: suart
    and sent :: "'h \<Rightarrow> u8 list"
    and room :: "'h \<Rightarrow> nat"
    and delay :: "'h \<Rightarrow> nat"
  assumes lsr: "\<exists>v h'. run_state (lpc_readb io (suart_reg ctx UART_LSR)) h = (Inr v, h') \<and>
      v AND UART_LSR_ERROR = 0 \<and> sent h' = sent h \<and>
      (if lsr_ready v then 16 \<le> room h' else delay h' < delay h)"
    and thr: "0 < room h \<Longrightarrow> \<exists>h'. run_state (lpc_writeb io (suart_reg ctx UART_THR) b) h = (0, h') \<and>
      sent h' = sent h @ [b] \<and> room h' = room h - 1"
    and fcr: "v AND UART_FCR_XMIT_RST = 0 \<Longrightarrow>
      \<exists>h'. run_state (lpc_writeb io (suart_reg ctx UART_FCR) v) h = (0, h') \<and>
      sent h' = sent h \<and> delay h' = delay h"
begin

lemma fill_fifo:
  "n \<le> room h \<Longrightarrow> \<exists>h'. run_state (suart_fill_fifo io ctx buf n) h = (int (length buf - n), h') \<and>
     sent h' = sent h @ take n buf"
proof (induction buf arbitrary: n h)
  case (Cons b bs)
  show ?case
  proof (cases n)
    case (Suc m)
    obtain h1 where h1: "run_state (lpc_writeb io (suart_reg ctx UART_THR) b) h = (0, h1)"
        "sent h1 = sent h @ [b]" "room h1 = room h - 1"
      using thr [of h b] Cons.prems Suc by auto
    have "m \<le> room h1" using h1(3) Cons.prems Suc by simp
    from Cons.IH [OF this] show ?thesis using h1 Suc by auto
  qed simp
qed simp

lemma write_progress:
  assumes "buf \<noteq> []"
  shows "\<exists>h' n. run_state (suart_write io ctx buf) h = (int (length buf - n), h') \<and>
    sent h' = sent h @ take n buf \<and> (n = 0 \<and> delay h' < delay h \<or> n = 16)"
proof -
  obtain v h1 where h1: "run_state (lpc_readb io (suart_reg ctx UART_LSR)) h = (Inr v, h1)"
      "v AND UART_LSR_ERROR = 0" "sent h1 = sent h" "if lsr_ready v then 16 \<le> room h1 else delay h1 < delay h"
    using lsr by blast
  show ?thesis
  proof (cases "lsr_ready v")
    case True
    then obtain h2 where "run_state (suart_fill_fifo io ctx buf 16) h1 = (int (length buf - 16), h2)"
        "sent h2 = sent h1 @ take 16 buf"
      using fill_fifo [of 16 h1 buf] h1(4) by auto
    then show ?thesis using h1 True assms
      by (intro exI [of _ h2] exI [of _ 16]) (simp add: suart_write_def lsr_ready_def)
  next
    case False
    then show ?thesis using h1 assms
      by (intro exI [of _ h1] exI [of _ 0]) (auto simp: suart_write_def lsr_ready_def)
  qed
qed

lemma flush: "\<exists>h'. suart_flush io ctx buf h = Some (0, h') \<and> sent h' = sent h @ buf"
proof (induction "(length buf, delay h)" arbitrary: buf h rule: wf_induct_rule [OF wf_lex_prod [OF wf_less_than wf_less_than]])
  case 1
  show ?case
  proof (cases "buf = []")
    case False
    have "(UART_FCR_RCVR_RST OR UART_FCR_FIFO_EN) AND UART_FCR_XMIT_RST = 0" by (simp add: uart_bits)
    then obtain h1 where h1: "run_state (lpc_writeb io (suart_reg ctx UART_FCR) (UART_FCR_RCVR_RST OR UART_FCR_FIFO_EN)) h = (0, h1)"
        "sent h1 = sent h" "delay h1 = delay h"
      using fcr by blast
    obtain h2 n where h2: "run_state (suart_write io ctx buf) h1 = (int (length buf - n), h2)"
        "sent h2 = sent h1 @ take n buf" "n = 0 \<and> delay h2 < delay h1 \<or> n = 16"
      using write_progress [OF False] by blast
    show ?thesis
    proof (cases "length buf \<le> n")
      case True
      then show ?thesis using h1 h2 False by (subst suart_flush.simps) auto
    next
      case more: False
      let ?rest = "drop n buf"
      have "((length ?rest, delay h2), (length buf, delay h)) \<in> less_than <*lex*> less_than"
        using h2(3) h1(3) more by auto
      then obtain h' where "suart_flush io ctx ?rest h2 = Some (0, h')" "sent h' = sent h2 @ ?rest"
        using 1 by blast
      moreover have "nat (int (length buf) - 16) = length buf - 16" by arith
      ultimately show ?thesis using h1 h2 False more by (subst suart_flush.simps) (auto simp: not_le)
    qed
  qed (subst suart_flush.simps, simp)
qed

end

section \<open>The documented transmitter\<close>

text \<open>
  A transmitter behind the ports of a base address: it takes bytes while it has room, and after
  it was filled it is empty again once it has been polled as often as \<open>ua_sched\<close> says; while it is
  not, polls may also find received bytes.
\<close>

record uart_dev =
  ua_sent :: "u8 list"
  ua_room :: nat
  ua_delay :: nat
  ua_sched :: "nat list"

definition uart_ports :: "nat \<Rightarrow> uart_dev lpc_ops" where
  "uart_ports base = \<lparr>
     lpc_init = (\<lambda>_. ret 0), lpc_destroy = ret 0,
     lpc_readb = (\<lambda>p. State (\<lambda>d.
       if p = base + UART_LSR
       then (if ua_delay d = 0 then (Inr UART_LSR_THRE, d\<lparr>ua_room := 16\<rparr>)
             else (Inr (if even (ua_delay d) then UART_LSR_DR else 0), d\<lparr>ua_delay := ua_delay d - 1\<rparr>))
       else (Inr 0, d))),
     lpc_writeb = (\<lambda>p v. State (\<lambda>d.
       (0, if p = base + UART_THR \<and> 0 < ua_room d
           then d\<lparr>ua_sent := ua_sent d @ [v], ua_room := ua_room d - 1,
                  ua_delay := (case ua_sched d of [] \<Rightarrow> 0 | n # ns \<Rightarrow> n), ua_sched := tl (ua_sched d)\<rparr>
           else d))),
     lpc_read = (\<lambda>_ _. ret (Inl (- ENOTSUP))), lpc_write = (\<lambda>_ _. ret (- ENOTSUP)) \<rparr>"

definition suart_at :: "u16 \<Rightarrow> suart" where
  "suart_at base = \<lparr>su_dev = 0x0b, su_sirq = 4, su_base = base, su_baud = 0\<rparr>"

interpretation uart_dev: uart_port "uart_ports (unat base)" "suart_at base" ua_sent ua_room ua_delay
  by unfold_locales
    (auto simp: uart_ports_def suart_reg_def suart_at_def uart_regs uart_bits lsr_ready_def)

lemma uart_dev_burst_0:
  "run_state (suart_burst (uart_ports (unat b)) (suart_at b) 0 []) d =
    (Inr (0, []), snd (run_state (lpc_readb (uart_ports (unat b)) (suart_reg (suart_at b) UART_LSR)) d))"
  by (subst suart_burst.simps) (simp add: uart_ports_def suart_reg_def suart_at_def)

lemma uart_dev_read_0: "fst (run_state (suart_read (uart_ports (unat b)) (suart_at b) 0) d) = Inr []"
proof -
  have "fst (run_state (suart_bursts (uart_ports (unat b)) (suart_at b) 0 n []) d) = Inr []" for n d
    by (induction n arbitrary: d) (simp_all add: uart_dev_burst_0)
  then show ?thesis by (simp add: suart_read_def uart_ports_def suart_reg_def suart_at_def uart_bits)
qed

section \<open>Properties\<close>

text \<open>
  Claim C10. Flushing always ends and loses nothing: over any transmitter that empties some time
  after it was filled, \<open>suart_flush\<close> returns 0 with the transmitter having taken exactly the
  bytes of the buffer, in order, whatever number of polls each fill of the FIFO takes.
\<close>

theorem suart_flush_sends:
  assumes "uart_port io ctx sent room delay"
  shows "\<exists>h'. suart_flush io ctx buf h = Some (0, h') \<and> sent h' = sent h @ buf"
  by (rule uart_port.flush [OF assms])

theorem suart_flush_sends_witness:
  "\<exists>h'. suart_flush (uart_ports (unat (0x3f8 :: u16))) (suart_at 0x3f8) (replicate 40 0x55)
      \<lparr>ua_sent = [], ua_room = 0, ua_delay = 3, ua_sched = [5, 1]\<rparr> = Some (0, h') \<and> ua_sent h' = replicate 40 0x55"
  using suart_flush_sends [OF uart_dev.uart_port_axioms [of "0x3f8"],
      of "replicate 40 0x55" "\<lparr>ua_sent = [], ua_room = 0, ua_delay = 3, ua_sched = [5, 1]\<rparr>"]
  by simp

lemma fill_until_full:
  assumes "suart_fill_until_loop io ctx len trm out0 h = Some (Inr out, h')"
  shows "length out = len \<and> (out \<noteq> [] \<longrightarrow> last out = trm)"
proof -
  have "\<forall>out. fst r = Inr out \<longrightarrow> length out = len \<and> (out \<noteq> [] \<longrightarrow> last out = trm)"
    if "suart_fill_until_loop io ctx len trm out0 h = Some r" for out0 r
  proof (rule suart_fill_until_loop.raw_induct
      [where P = "\<lambda>io ctx len trm out0 h r. \<forall>out. fst r = Inr out \<longrightarrow>
         length out = len \<and> (out \<noteq> [] \<longrightarrow> last out = trm)", OF _ that], goal_cases)
    case (1 f io ctx len trm out0 h r)
    obtain q h2 where q: "run_state (suart_read io ctx (len - length out0)) h = (q, h2)" by fastforce
    show ?case
    proof (cases q)
      case (Inl rc)
      show ?thesis using 1(2) unfolding q Inl by (auto split: if_splits)
    next
      case (Inr bs)
      show ?thesis
        using 1(2) 1(1) [of io ctx len trm "out0 @ bs" h2 r] unfolding q Inr by (auto split: if_splits)
    qed
  qed
  from this [OF assms] show ?thesis by simp
qed

lemma fill_until_stuck:
  assumes "out \<noteq> []" "length out = len" "last out \<noteq> trm"
    and "\<And>h. fst (run_state (suart_read io ctx 0) h) = Inr []"
  shows "suart_fill_until_loop io ctx len trm out h = None"
proof -
  have "(io', ctx', len', trm', out') \<noteq> (io, ctx, len, trm, out)"
    if "suart_fill_until_loop io' ctx' len' trm' out' h = Some r" for io' ctx' len' trm' out' h r
  proof (rule suart_fill_until_loop.raw_induct
      [where P = "\<lambda>io' ctx' len' trm' out' h r. (io', ctx', len', trm', out') \<noteq> (io, ctx, len, trm, out)", OF _ that], goal_cases)
    case (1 f io' ctx' len' trm' out' h r)
    show ?case
    proof
      assume eq: "(io', ctx', len', trm', out') = (io, ctx, len, trm, out)"
      then have "f io' ctx' len' trm' out' (snd (run_state (suart_read io ctx 0) h)) = Some r"
        using 1(2) assms(1-3) assms(4) [of h] by (auto simp: Let_def split_def)
      from 1(1) [OF this] eq show False by simp
    qed
  qed
  then show ?thesis by (metis option.exhaust)
qed

text \<open>
  Claim C40. Reading until a terminator does not stop at the terminator: \<open>suart_fill_until\<close> of a
  non-empty buffer only ever returns successfully with the buffer full and the terminator in its
  last place, so a terminator that arrives earlier is read past; and once the buffer is full and
  does not end with it, the loop polls with no room left and never returns.
\<close>

theorem suart_fill_until_full:
  assumes "0 < len"
  shows "(suart_fill_until io ctx len trm h = Some (Inr out, h') \<longrightarrow> length out = len \<and> last out = trm) \<and>
    (length full = len \<and> last full \<noteq> trm \<and> (\<forall>h. fst (run_state (suart_read io ctx 0) h) = Inr []) \<longrightarrow>
       suart_fill_until_loop io ctx len trm full h = None)"
proof (intro conjI impI)
  assume "suart_fill_until io ctx len trm h = Some (Inr out, h')"
  then have l: "suart_fill_until_loop io ctx len trm [] h = Some (Inr out, h')"
    by (simp add: suart_fill_until_def split: if_splits)
  show "length out = len" "last out = trm" using fill_until_full [OF l] assms by auto
next
  assume "length full = len \<and> last full \<noteq> trm \<and> (\<forall>h. fst (run_state (suart_read io ctx 0) h) = Inr [])"
  then show "suart_fill_until_loop io ctx len trm full h = None"
    using fill_until_stuck [of full len trm io ctx h] assms by auto
qed

theorem suart_fill_until_full_witness:
  "suart_fill_until_loop (uart_ports (unat (0x3f8 :: u16))) (suart_at 0x3f8) 2 0x0a [0x0a, 0x24]
     \<lparr>ua_sent = [], ua_room = 0, ua_delay = 0, ua_sched = []\<rparr> = None"
proof -
  have "\<forall>d. fst (run_state (suart_read (uart_ports (unat (0x3f8 :: u16))) (suart_at 0x3f8) 0) d) = Inr []"
    using uart_dev_read_0 by blast
  then show ?thesis
    using suart_fill_until_full [of 2, THEN conjunct2, of "[0x0a, 0x24]" "0x0a"
      "uart_ports (unat (0x3f8 :: u16))" "suart_at 0x3f8"] by simp
qed

end
