(* ===== verification/Host.thy ===== *)
theory Host
  imports Ahb Debug
begin

text \<open>
  Finding a bridge, \<^verbatim>\<open>src/host.c\<close>, \<^verbatim>\<open>src/connection.h\<close> and the parsers of
  \<^verbatim>\<open>src/cmd.h\<close>: the registry of bridge drivers, the bridges a run has acquired, the
  description of the connection and what the words after \<open>via\<close> make of it. A driver is a
  pointer into the registry, so here its index; its operations are parameters that return.
  The registry is the array \<open>autodata_get\<close> gives, in the order of the link.
\<close>

section \<open>Connections and drivers\<close>

record connection_args =
  ca_bridge_driver :: "nat option"
  ca_interface :: "string option"
  ca_ip :: "string option"
  ca_username :: "string option"
  ca_password :: "string option"
  ca_port :: int
  ca_internet_args :: bool

definition no_connection :: connection_args where
  "no_connection = \<lparr>ca_bridge_driver = None, ca_interface = None, ca_ip = None, ca_username = None,
     ca_password = None, ca_port = 0, ca_internet_args = False\<rparr>"

record ('s, 'a) host_driver = "'s bridge_driver" +
  drv_probe :: "connection_args \<Rightarrow> ('s, 'a option) state"
  drv_destroy :: "'a \<Rightarrow> ('s, unit) state"

text \<open>The bridges of the host, the list with its head first; an entry is the driver and the handle
  (a pointer to the \<open>ahb\<close> of Ahb in the commands).\<close>

record 'a host =
  h_bridges :: "(nat \<times> 'a) list"

section \<open>The registry\<close>

fun find_index :: "('a \<Rightarrow> bool) \<Rightarrow> 'a list \<Rightarrow> nat option" where
  "find_index P [] = None"
| "find_index P (x # xs) = (if P x then Some 0 else map_option Suc (find_index P xs))"

definition print_bridge_drivers :: "('s, 'a) host_driver list \<Rightarrow> string list" where
  "print_bridge_drivers drivers = ''Available bridges:'' # map (\<lambda>d. ''  '' @ drv_name d) drivers"

definition disable_bridge_driver :: "string \<Rightarrow> ('s, 'a) host_driver list \<Rightarrow> int \<times> ('s, 'a) host_driver list" where
  "disable_bridge_driver drv drivers =
     (case find_index (\<lambda>d. drv_name d = drv) drivers of
        None \<Rightarrow> (- ENOENT, drivers)
      | Some i \<Rightarrow> (0, drivers[i := (drivers ! i)\<lparr>drv_disabled := True\<rparr>]))"

definition get_bridge_driver :: "string \<Rightarrow> ('s, 'a) host_driver list \<Rightarrow> int + nat" where
  "get_bridge_driver drv drivers =
     (case find_index (\<lambda>d. drv_name d = drv \<and> \<not> drv_disabled d) drivers of
        None \<Rightarrow> Inl (- ENOENT)
      | Some i \<Rightarrow> Inr i)"

section \<open>The host\<close>

definition host_probe_bridge ::
  "('s, 'a) host_driver list \<Rightarrow> 'a host \<Rightarrow> nat \<Rightarrow> connection_args \<Rightarrow> ('s, int \<times> 'a host) state" where
  "host_probe_bridge drivers ctx i connection =
     (if drv_disabled (drivers ! i) then ret (0, ctx)
      else do {
        ahb \<leftarrow> drv_probe (drivers ! i) connection;
        (case ahb of
           None \<Rightarrow> ret (0, ctx)
         | Some a \<Rightarrow> ret (0, ctx\<lparr>h_bridges := (i, a) # h_bridges ctx\<rparr>)) })"

fun host_probe_all ::
  "('s, 'a) host_driver list \<Rightarrow> 'a host \<Rightarrow> nat list \<Rightarrow> connection_args \<Rightarrow> int \<Rightarrow> ('s, int \<times> 'a host) state" where
  "host_probe_all drivers ctx [] connection rc = ret (rc, ctx)"
| "host_probe_all drivers ctx (i # is) connection rc = do {
     (rc, ctx) \<leftarrow> host_probe_bridge drivers ctx i connection;
     (if rc < 0 then ret (rc, ctx) else host_probe_all drivers ctx is connection rc) }"

text \<open>\<open>junk\<close> is what the status holds before it is first set.\<close>

definition host_init ::
  "('s, 'a) host_driver list \<Rightarrow> connection_args \<Rightarrow> int \<Rightarrow> ('s, int \<times> 'a host) state" where
  "host_init drivers connection junk =
     (let ctx = \<lparr>h_bridges = []\<rparr>
      in case ca_bridge_driver connection of
           Some i \<Rightarrow> host_probe_bridge drivers ctx i connection
         | None \<Rightarrow> host_probe_all drivers ctx [0..<length drivers] connection junk)"

fun host_destroy_bridges :: "('s, 'a) host_driver list \<Rightarrow> (nat \<times> 'a) list \<Rightarrow> ('s, unit) state" where
  "host_destroy_bridges drivers [] = ret ()"
| "host_destroy_bridges drivers ((i, a) # bs) = do {
     drv_destroy (drivers ! i) a;
     host_destroy_bridges drivers bs }"

definition host_destroy :: "('s, 'a) host_driver list \<Rightarrow> 'a host \<Rightarrow> ('s, unit) state" where
  "host_destroy drivers ctx = host_destroy_bridges drivers (h_bridges ctx)"

definition host_get_ahb :: "'a host \<Rightarrow> 'a option" where
  "host_get_ahb ctx = (case h_bridges ctx of [] \<Rightarrow> None | (i, a) # _ \<Rightarrow> Some a)"

definition host_bridge_release_from_ahb :: "'s ahb \<Rightarrow> ('s, int) state" where
  "host_bridge_release_from_ahb a =
     (case drv_release (ahb_drv a) of Some release \<Rightarrow> release | None \<Rightarrow> ret 0)"

definition host_bridge_reinit_from_ahb :: "'s ahb \<Rightarrow> ('s, int) state" where
  "host_bridge_reinit_from_ahb a =
     (case drv_reinit (ahb_drv a) of Some reinit \<Rightarrow> reinit | None \<Rightarrow> ret 0)"

section \<open>Arguments\<close>

text \<open>
  \<open>strtoul(3)\<close> with the base taken from the prefix: the value, whether it is out of range,
  and what is left behind the number, all of the text if there is none.
\<close>

definition number :: "nat \<Rightarrow> string \<Rightarrow> nat" where
  "number base ds = foldl (\<lambda>v c. base * v + the (hexval c)) 0 ds"

definition digit_of :: "nat \<Rightarrow> char \<Rightarrow> bool" where
  "digit_of base c = (case hexval c of None \<Rightarrow> False | Some d \<Rightarrow> d < base)"

definition ULONG_MAX :: nat where "ULONG_MAX = 2 ^ 64 - 1"
definition UINT32_MAX :: nat where "UINT32_MAX = 2 ^ 32 - 1"

definition strtoul :: "string \<Rightarrow> nat \<times> bool \<times> string" where
  "strtoul s =
     (let (neg, r) = split_sign (dropWhile is_space s);
          (base, r) = (if skip_0x r \<noteq> r then (16, skip_0x r)
                       else if take 1 r = ''0'' then (8, r) else (10, r));
          ds = takeWhile (digit_of base) r;
          v = number base ds
      in if ds = [] then (0, False, s)
         else if v > ULONG_MAX then (ULONG_MAX, True, drop (length ds) r)
         else (if neg then (2 ^ 64 - v) mod 2 ^ 64 else v, False, drop (length ds) r))"

text \<open>\<open>None\<close> is the end of the program with a usage message, \<open>argp_error\<close>.\<close>

definition parse_mem_arg :: "string \<Rightarrow> nat option" where
  "parse_mem_arg arg =
     (let (out, erange, endp) = strtoul arg
      in if out = ULONG_MAX \<and> erange then None
         else if out > UINT32_MAX then None
         else if endp = arg \<or> endp \<noteq> [] then None
         else Some out)"

text \<open>A conversion of an \<open>unsigned long\<close> to an \<open>int\<close>.\<close>

definition int_of_ulong :: "nat \<Rightarrow> int" where
  "int_of_ulong n = sint (of_nat n :: u32)"

text \<open>The status, and the arguments, which may have been changed on a failure too.\<close>

definition cmd_parse_via ::
  "('s, 'a) host_driver list \<Rightarrow> nat \<Rightarrow> string list \<Rightarrow> connection_args \<Rightarrow> int \<times> connection_args" where
  "cmd_parse_via drivers argi argv args =
     (if argi \<ge> length argv then (- EINVAL, args)
      else let argc = length argv - argi - 1
           in if argc \<noteq> 1 \<and> argc \<noteq> 2 \<and> argc \<noteq> 6 then (- EINVAL, args)
              else case get_bridge_driver (argv ! (argi + 1)) drivers of
                     Inl rc \<Rightarrow> (rc, args)
                   | Inr i \<Rightarrow>
                       let args = args\<lparr>ca_bridge_driver := Some i\<rparr>
                       in if argc = 1
                          then (if drv_path_required (drivers ! i) then - EINVAL else 0, args)
                          else let args = args\<lparr>ca_interface := Some (argv ! (argi + 2))\<rparr>
                               in if argc = 2 then (0, args)
                                  else (0, args\<lparr>ca_ip := Some (argv ! (argi + 3)),
                                         ca_port := int_of_ulong (fst (strtoul (argv ! (argi + 4)))),
                                         ca_username := Some (argv ! (argi + 5)),
                                         ca_password := Some (argv ! (argi + 6)),
                                         ca_internet_args := True\<rparr>))"

section \<open>Lookups\<close>

lemma find_index_SomeD:
  "find_index P xs = Some i \<Longrightarrow> i < length xs \<and> P (xs ! i) \<and> (\<forall>j<i. \<not> P (xs ! j))"
proof (induction xs arbitrary: i)
  case (Cons x xs)
  then show ?case by (cases i) (auto split: if_splits simp: less_Suc_eq_0_disj)
qed simp

lemma find_index_None: "find_index P xs = None \<longleftrightarrow> (\<forall>x\<in>set xs. \<not> P x)"
  by (induction xs) auto

lemma get_bridge_driver_InrD:
  assumes "get_bridge_driver drv drivers = Inr i"
  shows "i < length drivers" "drv_name (drivers ! i) = drv" "\<not> drv_disabled (drivers ! i)"
  using assms find_index_SomeD
  by (fastforce simp: get_bridge_driver_def split: option.splits)+

section \<open>A recorded run\<close>

text \<open>
  The drivers with a record of their calls kept beside the state: what they do otherwise is
  unchanged. \<open>Soc_gone\<close> is for the record of a whole session.
\<close>

datatype 'a host_event = Probed nat "'a option" | Destroyed nat 'a | Soc_gone

definition emit :: "'e \<Rightarrow> ('s \<times> 'e list, unit) state" where
  "emit e = modify (\<lambda>t. (fst t, snd t @ [e]))"

definition traced :: "nat \<Rightarrow> ('s, 'a) host_driver \<Rightarrow> ('s \<times> 'a host_event list, 'a) host_driver" where
  "traced i d = \<lparr>
     drv_name = drv_name d,
     drv_release = map_option beside (drv_release d),
     drv_reinit = map_option beside (drv_reinit d),
     drv_path_required = drv_path_required d,
     drv_local = drv_local d,
     drv_disabled = drv_disabled d,
     drv_probe = (\<lambda>c. do { r \<leftarrow> beside (drv_probe d c); emit (Probed i r); ret r }),
     drv_destroy = (\<lambda>a. do { beside (drv_destroy d a); emit (Destroyed i a) }) \<rparr>"

definition traced_all ::
  "('s, 'a) host_driver list \<Rightarrow> ('s \<times> 'a host_event list, 'a) host_driver list" where
  "traced_all drivers = map (\<lambda>i. traced i (drivers ! i)) [0..<length drivers]"

definition acquired :: "(nat \<times> 'a option) list \<Rightarrow> (nat \<times> 'a) list" where
  "acquired ps = rev (concat (map (\<lambda>(i, r). case r of None \<Rightarrow> [] | Some a \<Rightarrow> [(i, a)]) ps))"

lemma acquired_Nil [simp]: "acquired [] = []"
  by (simp add: acquired_def)

lemma acquired_Cons:
  "acquired ((i, r) # ps) = acquired ps @ (case r of None \<Rightarrow> [] | Some a \<Rightarrow> [(i, a)])"
  by (simp add: acquired_def split: option.split)

lemma run_emit [simp]: "run_state (emit e) t = ((), fst t, snd t @ [e])"
  by (simp add: emit_def)

lemma traced_all_nth [simp]: "i < length drivers \<Longrightarrow> traced_all drivers ! i = traced i (drivers ! i)"
  by (simp add: traced_all_def)

lemma length_traced_all [simp]: "length (traced_all drivers) = length drivers"
  by (simp add: traced_all_def)

lemma traced_disabled [simp]: "drv_disabled (traced i d) = drv_disabled d"
  by (simp add: traced_def)

lemma traced_probe [simp]:
  "run_state (drv_probe (traced i d) c) t =
     (fst (run_state (drv_probe d c) (fst t)), snd (run_state (drv_probe d c) (fst t)),
      snd t @ [Probed i (fst (run_state (drv_probe d c) (fst t)))])"
  by (simp add: traced_def)

lemma traced_destroy [simp]:
  "run_state (drv_destroy (traced i d) a) t =
     ((), snd (run_state (drv_destroy d a) (fst t)), snd t @ [Destroyed i a])"
  by (simp add: traced_def)

text \<open>One probe: the record of it, and the same outcome as without a record.\<close>

lemma host_probe_traced:
  assumes "i < length drivers"
  shows "\<exists>ps. map fst ps = (if drv_disabled (drivers ! i) then [] else [i]) \<and>
    run_state (host_probe_bridge (traced_all drivers) ctx i c) t =
      ((0, \<lparr>h_bridges = acquired ps @ h_bridges ctx\<rparr>),
       snd (run_state (host_probe_bridge drivers ctx i c) (fst t)),
       snd t @ map (\<lambda>(i, r). Probed i r) ps) \<and>
    fst (run_state (host_probe_bridge drivers ctx i c) (fst t)) =
      (0, \<lparr>h_bridges = acquired ps @ h_bridges ctx\<rparr>)"
proof (cases "drv_disabled (drivers ! i)")
  case True
  then show ?thesis using assms
    by (intro exI [of _ "[]"]) (simp add: host_probe_bridge_def)
next
  case False
  let ?r = "fst (run_state (drv_probe (drivers ! i) c) (fst t))"
  show ?thesis using assms False
    by (intro exI [of _ "[(i, ?r)]"])
      (cases ?r; simp add: host_probe_bridge_def acquired_Cons)
qed

lemma host_probe_all_traced:
  assumes "\<forall>i\<in>set is. i < length drivers"
  shows "\<exists>ps. map fst ps = filter (\<lambda>i. \<not> drv_disabled (drivers ! i)) is \<and>
    (let r = run_state (host_probe_all (traced_all drivers) ctx is c rc) t;
         q = run_state (host_probe_all drivers ctx is c rc) (fst t)
     in fst r = fst q \<and> fst (snd r) = snd q \<and>
        snd (fst q) = \<lparr>h_bridges = acquired ps @ h_bridges ctx\<rparr> \<and>
        snd (snd r) = snd t @ map (\<lambda>(i, r). Probed i r) ps)"
  using assms
proof (induction "is" arbitrary: ctx rc t)
  case Nil
  then show ?case by simp
next
  case (Cons i "is")
  obtain ps1 where p1: "map fst ps1 = (if drv_disabled (drivers ! i) then [] else [i])"
    "run_state (host_probe_bridge (traced_all drivers) ctx i c) t =
      ((0, \<lparr>h_bridges = acquired ps1 @ h_bridges ctx\<rparr>),
       snd (run_state (host_probe_bridge drivers ctx i c) (fst t)),
       snd t @ map (\<lambda>(i, r). Probed i r) ps1)"
    "fst (run_state (host_probe_bridge drivers ctx i c) (fst t)) =
      (0, \<lparr>h_bridges = acquired ps1 @ h_bridges ctx\<rparr>)"
    using host_probe_traced [of i drivers ctx c t] Cons.prems by auto
  let ?ctx = "\<lparr>h_bridges = acquired ps1 @ h_bridges ctx\<rparr>"
  let ?t = "(snd (run_state (host_probe_bridge drivers ctx i c) (fst t)),
    snd t @ map (\<lambda>(i, r). Probed i r) ps1)"
  obtain ps2 where p2: "map fst ps2 = filter (\<lambda>i. \<not> drv_disabled (drivers ! i)) is"
    "let r = run_state (host_probe_all (traced_all drivers) ?ctx is c 0) ?t;
         q = run_state (host_probe_all drivers ?ctx is c 0) (fst ?t)
     in fst r = fst q \<and> fst (snd r) = snd q \<and>
        snd (fst q) = \<lparr>h_bridges = acquired ps2 @ h_bridges ?ctx\<rparr> \<and>
        snd (snd r) = snd ?t @ map (\<lambda>(i, r). Probed i r) ps2"
    using Cons.IH [of ?ctx 0 ?t] Cons.prems by auto
  have "acquired (ps1 @ ps2) = acquired ps2 @ acquired ps1"
    by (simp add: acquired_def)
  then show ?case using p1 p2
    by (intro exI [of _ "ps1 @ ps2"]) (simp add: Let_def)
qed

lemma host_destroy_traced:
  assumes "\<forall>(i, a)\<in>set bs. i < length drivers"
  shows "snd (run_state (host_destroy_bridges (traced_all drivers) bs) t) =
    (snd (run_state (host_destroy_bridges drivers bs) (fst t)), snd t @ map (\<lambda>(i, a). Destroyed i a) bs)"
  using assms by (induction bs arbitrary: t) auto

section \<open>Properties\<close>

definition conn_ok :: "('s, 'a) host_driver list \<Rightarrow> connection_args \<Rightarrow> bool" where
  "conn_ok drivers c \<longleftrightarrow>
     (case ca_bridge_driver c of
        None \<Rightarrow> c = no_connection
      | Some i \<Rightarrow> i < length drivers \<and> \<not> drv_disabled (drivers ! i) \<and>
          (drv_path_required (drivers ! i) \<longrightarrow> ca_interface c \<noteq> None) \<and>
          (ca_internet_args c \<longrightarrow> ca_interface c \<noteq> None \<and> ca_ip c \<noteq> None \<and>
             ca_username c \<noteq> None \<and> ca_password c \<noteq> None) \<and>
          (\<not> ca_internet_args c \<longrightarrow> ca_ip c = None \<and> ca_username c = None \<and>
             ca_password c = None \<and> ca_port c = 0) \<and>
          - (2 ^ 31) \<le> ca_port c \<and> ca_port c < 2 ^ 31)"

lemma int_of_ulong_range: "- (2 ^ 31) \<le> int_of_ulong n \<and> int_of_ulong n < 2 ^ 31"
  unfolding int_of_ulong_def using sint_lt [of "of_nat n :: u32"] sint_ge [of "of_nat n :: u32"] by simp

text \<open>
  Claim C4. Whatever words follow \<open>via\<close>, \<open>cmd_parse_via\<close> either fails with \<open>-EINVAL\<close> or
  \<open>-ENOENT\<close> or leaves well-formed connection arguments: the driver is a registered one of the
  name that was given and not disabled, a driver that needs a path has one, and the flag for the
  console server is set exactly when all its fields are. It only succeeds on 1, 2 or 6 words.
\<close>

theorem cmd_parse_via_wf:
  assumes "cmd_parse_via drivers argi argv no_connection = (rc, args)"
  shows "if rc = 0
    then conn_ok drivers args \<and>
      (\<exists>i. ca_bridge_driver args = Some i \<and> drv_name (drivers ! i) = argv ! (argi + 1)) \<and>
      length argv - argi - 1 \<in> {1, 2, 6} \<and>
      (ca_internet_args args \<longleftrightarrow> length argv - argi - 1 = 6)
    else rc \<in> {- EINVAL, - ENOENT} \<and> \<not> ca_internet_args args"
proof -
  let ?n = "length argv - argi - 1"
  show ?thesis
  proof (cases "argi < length argv \<and> ?n \<in> {1, 2, 6}")
    case False
    then show ?thesis using assms
      by (auto simp: cmd_parse_via_def Let_def no_connection_def split: if_splits)
  next
    case True
    show ?thesis
    proof (cases "get_bridge_driver (argv ! (argi + 1)) drivers")
      case (Inl e)
      moreover have "e = - ENOENT" using Inl by (auto simp: get_bridge_driver_def split: option.splits)
      ultimately show ?thesis using True assms
        by (auto simp: cmd_parse_via_def Let_def no_connection_def)
    next
      case (Inr i)
      show ?thesis using True assms Inr get_bridge_driver_InrD [OF Inr] int_of_ulong_range
        by (auto simp: cmd_parse_via_def Let_def no_connection_def conn_ok_def split: if_splits)
    qed
  qed
qed

definition example_drivers :: "(nat, nat) host_driver list" where
  "example_drivers =
     [\<lparr>drv_name = ''devmem'', drv_release = None, drv_reinit = None, drv_path_required = False,
       drv_local = True, drv_disabled = True, drv_probe = (\<lambda>c. ret (Some 7)), drv_destroy = (\<lambda>a. ret ())\<rparr>,
      \<lparr>drv_name = ''p2a'', drv_release = None, drv_reinit = None, drv_path_required = False,
       drv_local = False, drv_disabled = False, drv_probe = (\<lambda>c. ret (Some 8)), drv_destroy = (\<lambda>a. ret ())\<rparr>,
      \<lparr>drv_name = ''debug-uart'', drv_release = None, drv_reinit = None, drv_path_required = True,
       drv_local = False, drv_disabled = False,
       drv_probe = (\<lambda>c. ret (if ca_interface c = None then None else Some 9)), drv_destroy = (\<lambda>a. ret ())\<rparr>]"

lemma example_drivers_simps [simp]:
  "length example_drivers = 3" "drv_name (example_drivers ! 2) = ''debug-uart''"
  "drv_disabled (example_drivers ! 0)" "\<not> drv_disabled (example_drivers ! Suc 0)"
  "\<not> drv_disabled (example_drivers ! 2)"
  by (simp_all add: example_drivers_def)

theorem cmd_parse_via_wf_witness:
  "let (rc, args) = cmd_parse_via example_drivers 0 [''via'', ''debug-uart'', ''/dev/ttyUSB0''] no_connection
   in rc = 0 \<and> conn_ok example_drivers args \<and> \<not> ca_internet_args args"
proof -
  define r where "r = cmd_parse_via example_drivers 0 [''via'', ''debug-uart'', ''/dev/ttyUSB0''] no_connection"
  have rc: "fst r = 0"
    by (simp add: r_def cmd_parse_via_def example_drivers_def get_bridge_driver_def)
  have "cmd_parse_via example_drivers 0 [''via'', ''debug-uart'', ''/dev/ttyUSB0''] no_connection =
      (fst r, snd r)" by (simp add: r_def)
  from cmd_parse_via_wf [OF this] rc show ?thesis
    unfolding r_def [symmetric] by (simp add: split_def)
qed

text \<open>
  Claim C3. The life of the bridges of a run, for any drivers (their calls recorded beside the
  state): \<open>host_init\<close> probes each driver that is not disabled once, in the order of the registry,
  or only the one the connection names; \<open>host_get_ahb\<close> gives the handle of the last probe that
  succeeded; and \<open>host_destroy\<close> destroys every handle that was acquired exactly once, by the
  driver that gave it, the last first. The record changes nothing else.
\<close>

theorem host_lifecycle:
  assumes "\<forall>i. ca_bridge_driver c = Some i \<longrightarrow> i < length drivers"
  shows "\<exists>ps.
    (let ((rc, h), t) = run_state (host_init (traced_all drivers) c junk) (s, []);
         ((rc', h'), s1) = run_state (host_init drivers c junk) s;
         (_, t2) = run_state (host_destroy (traced_all drivers) h) t;
         (_, s2) = run_state (host_destroy drivers h') s1
     in map fst ps = (case ca_bridge_driver c of
          Some i \<Rightarrow> if drv_disabled (drivers ! i) then [] else [i]
        | None \<Rightarrow> filter (\<lambda>i. \<not> drv_disabled (drivers ! i)) [0..<length drivers]) \<and>
        t = (s1, map (\<lambda>(i, r). Probed i r) ps) \<and> rc = rc' \<and> h = h' \<and>
        host_get_ahb h = (case acquired ps of [] \<Rightarrow> None | (i, a) # _ \<Rightarrow> Some a) \<and>
        t2 = (s2, map (\<lambda>(i, r). Probed i r) ps @ map (\<lambda>(i, a). Destroyed i a) (acquired ps)))"
proof -
  have init: "\<exists>ps. map fst ps = (case ca_bridge_driver c of
          Some i \<Rightarrow> if drv_disabled (drivers ! i) then [] else [i]
        | None \<Rightarrow> filter (\<lambda>i. \<not> drv_disabled (drivers ! i)) [0..<length drivers]) \<and>
     (let r = run_state (host_init (traced_all drivers) c junk) (s, []);
          q = run_state (host_init drivers c junk) s
      in fst r = fst q \<and> fst (snd r) = snd q \<and> snd (fst q) = \<lparr>h_bridges = acquired ps\<rparr> \<and>
         snd (snd r) = map (\<lambda>(i, r). Probed i r) ps)" (is "\<exists>ps. ?P ps")
  proof (cases "ca_bridge_driver c")
    case None
    with host_probe_all_traced [of "[0..<length drivers]" drivers "\<lparr>h_bridges = []\<rparr>" c junk "(s, [])"]
    show ?thesis by (simp add: host_init_def Let_def)
  next
    case (Some i)
    then have "i < length drivers" using assms by blast
    from host_probe_traced [OF this, of "\<lparr>h_bridges = []\<rparr>" c "(s, [])"] Some
    show ?thesis by (auto simp: host_init_def Let_def)
  qed
  then obtain ps where ps: "?P ps" by blast
  have "i < length drivers" if "(i, a) \<in> set (acquired ps)" for i a
  proof -
    have "i \<in> set (map fst ps)" using that
      by (force simp: acquired_def split: option.splits)
    then show ?thesis using ps assms by (auto split: option.splits if_splits)
  qed
  then have "\<forall>(i, a)\<in>set (acquired ps). i < length drivers" by blast
  from host_destroy_traced [OF this] ps show ?thesis
    by (intro exI [of _ ps]) (simp add: Let_def split_def host_get_ahb_def host_destroy_def prod_eq_iff)
qed

theorem host_lifecycle_witness:
  "snd (snd (run_state (host_init (traced_all example_drivers) no_connection 0) (0, []))) =
     [Probed 1 (Some 8), Probed 2 None] \<and>
   (\<exists>ps. map fst ps = [1, 2] \<and>
     snd (snd (run_state (host_init (traced_all example_drivers) no_connection 0) (0, []))) =
       map (\<lambda>(i, r). Probed i r) ps)"
proof -
  have p: "\<forall>i. ca_bridge_driver no_connection = Some i \<longrightarrow> i < length example_drivers"
    by (simp add: no_connection_def)
  have "\<exists>ps. map fst ps = [1, 2] \<and>
     snd (snd (run_state (host_init (traced_all example_drivers) no_connection 0) (0, []))) =
       map (\<lambda>(i, r). Probed i r) ps"
    using host_lifecycle [OF p, of 0 0]
  proof (elim exE, goal_cases)
    case (1 ps)
    have c: "ca_bridge_driver no_connection = None" by (simp add: no_connection_def)
    have u: "[0..<3] = [0, Suc 0, 2]" by (simp add: upt_rec numeral_eq_Suc)
    from 1 show ?case by (intro exI [of _ ps]) (simp add: Let_def split_def c u)
  qed
  moreover have "snd (snd (run_state (host_init (traced_all example_drivers) no_connection 0) (0, []))) =
     [Probed 1 (Some 8), Probed 2 None]"
    by code_simp
  ultimately show ?thesis by blast
qed

end
