(* ===== verification/Argp.thy ===== *)
theory Argp
  imports Host
begin

text \<open>
  The command line as \<open>argp_parse(3)\<close> hands it to a parser: the options and the words in order,
  each word with its index and the number of words before it, then the end. \<open>argp_error\<close> and
  \<open>argp_usage\<close> leave the program with status 64. The parsers that the commands share are here
  too: \<open>via\<close>, and the words of the commands that access one address.
\<close>

datatype argp_event = Opt char string | Word nat string

datatype 'a argp = argp_exit int | argp_args 'a

abbreviation argp_error :: "'a argp" where
  "argp_error \<equiv> argp_exit 64"

fun argp_bind :: "'a argp \<Rightarrow> ('a \<Rightarrow> 'b argp) \<Rightarrow> 'b argp" where
  "argp_bind (argp_exit e) k = argp_exit e"
| "argp_bind (argp_args a) k = k a"

definition argp_check :: "bool \<Rightarrow> 'a argp \<Rightarrow> 'a argp" where
  "argp_check ok k = (if ok then k else argp_error)"

text \<open>An option's parser, a word's parser with the index, the count and the word, and the end's.\<close>

record 'a parser =
  on_opt :: "char \<Rightarrow> string \<Rightarrow> 'a \<Rightarrow> 'a argp"
  on_word :: "nat \<Rightarrow> nat \<Rightarrow> string \<Rightarrow> 'a \<Rightarrow> 'a argp"
  on_end :: "nat \<Rightarrow> 'a \<Rightarrow> 'a argp"

definition no_options :: "char \<Rightarrow> string \<Rightarrow> 'a \<Rightarrow> 'a argp" where
  "no_options c v a = argp_error"

fun argp_parse :: "'a parser \<Rightarrow> argp_event list \<Rightarrow> nat \<Rightarrow> 'a \<Rightarrow> 'a argp" where
  "argp_parse p [] n a = on_end p n a"
| "argp_parse p (Opt c v # es) n a = argp_bind (on_opt p c v a) (argp_parse p es n)"
| "argp_parse p (Word i w # es) n a = argp_bind (on_word p i n w a) (argp_parse p es (Suc n))"

text \<open>A command line without options.\<close>

definition words :: "string list \<Rightarrow> argp_event list" where
  "words ws = map (\<lambda>(i, w). Word i w) (enumerate 1 ws)"

lemma enumerate_Cons: "enumerate n (x # xs) = (n, x) # enumerate (Suc n) xs"
  by simp

text \<open>What \<open>via\<close> does in every command that has it: a failure ends the program.\<close>

definition parse_via ::
  "('s, 'b) host_driver list \<Rightarrow> string list \<Rightarrow> nat \<Rightarrow> connection_args \<Rightarrow> connection_args argp" where
  "parse_via drivers argv argi c =
     (let (rc, c) = cmd_parse_via drivers argi argv c in argp_check (rc = 0) (argp_args c))"

section \<open>One address\<close>

record ast_ahb_args =
  aa_read_length :: "u32 option"
  aa_write_value :: "u32 option"
  aa_address :: u32
  aa_read :: bool

definition no_access :: ast_ahb_args where
  "no_access = \<lparr>aa_read_length = None, aa_write_value = None, aa_address = 0, aa_read = False\<rparr>"

definition strtoul32 :: "string \<Rightarrow> u32" where
  "strtoul32 s = of_nat (fst (strtoul s))"

text \<open>The words of \<open>read ADDRESS\<close> and \<open>write ADDRESS VALUE\<close>, counted from \<open>n\<close>.\<close>

fun parse_access :: "nat \<Rightarrow> string \<Rightarrow> ast_ahb_args \<Rightarrow> ast_ahb_args argp" where
  "parse_access 0 arg a = argp_check (arg = ''read'' \<or> arg = ''write'')
     (argp_args (if arg = ''read'' then a\<lparr>aa_read := True\<rparr> else a))"
| "parse_access (Suc 0) arg a = argp_args (a\<lparr>aa_address := strtoul32 arg\<rparr>)"
| "parse_access (Suc (Suc 0)) arg a =
     argp_args (if \<not> aa_read a then a\<lparr>aa_write_value := Some (strtoul32 arg)\<rparr> else a)"
| "parse_access n arg a = argp_args a"

definition end_access :: "nat \<Rightarrow> ast_ahb_args \<Rightarrow> ast_ahb_args argp" where
  "end_access n a = argp_check (\<not> n < 2) (argp_check (aa_read a \<or> \<not> n < 3) (argp_args a))"

definition cmd_ilpc_parse_opt :: "ast_ahb_args parser" where
  "cmd_ilpc_parse_opt = \<lparr>on_opt = no_options, on_word = (\<lambda>i. parse_access), on_end = end_access\<rparr>"

definition cmd_devmem_parse_opt :: "ast_ahb_args parser" where
  "cmd_devmem_parse_opt = \<lparr>on_opt = no_options, on_word = (\<lambda>i. parse_access), on_end = end_access\<rparr>"

definition AST_PCI_DID_VGA :: u16 where "AST_PCI_DID_VGA = 0x2000"
definition AST_PCI_DID_BMC :: u16 where "AST_PCI_DID_BMC = 0x2402"

record cmd_p2a_args =
  p2a_ahb_args :: ast_ahb_args
  p2a_device_id :: u16

fun parse_p2a :: "nat \<Rightarrow> string \<Rightarrow> cmd_p2a_args \<Rightarrow> cmd_p2a_args argp" where
  "parse_p2a 0 arg a =
     (if arg = ''vga'' then argp_args (a\<lparr>p2a_device_id := AST_PCI_DID_VGA\<rparr>)
      else if arg = ''bmc'' then argp_args (a\<lparr>p2a_device_id := AST_PCI_DID_BMC\<rparr>)
      else argp_error)"
| "parse_p2a (Suc n) arg a =
     argp_bind (parse_access n arg (p2a_ahb_args a)) (\<lambda>x. argp_args (a\<lparr>p2a_ahb_args := x\<rparr>))"

definition end_p2a :: "nat \<Rightarrow> cmd_p2a_args \<Rightarrow> cmd_p2a_args argp" where
  "end_p2a n a = argp_check (\<not> n < 3) (argp_check (aa_read (p2a_ahb_args a) \<or> \<not> n < 4) (argp_args a))"

definition cmd_p2a_parse_opt :: "cmd_p2a_args parser" where
  "cmd_p2a_parse_opt = \<lparr>on_opt = no_options, on_word = (\<lambda>i. parse_p2a), on_end = end_p2a\<rparr>"

record cmd_debug_args =
  dbg_connection :: connection_args
  dbg_ahb_args :: ast_ahb_args
  dbg_force_quit :: bool

definition parse_debug ::
  "('s, 'b) host_driver list \<Rightarrow> string list \<Rightarrow> nat \<Rightarrow> nat \<Rightarrow> string \<Rightarrow> cmd_debug_args \<Rightarrow> cmd_debug_args argp" where
  "parse_debug drivers argv i n arg a =
     (if arg = ''via''
      then argp_bind (parse_via drivers argv i (dbg_connection a)) (\<lambda>c. argp_args (a\<lparr>dbg_connection := c\<rparr>))
      else argp_bind (parse_access n arg (dbg_ahb_args a)) (\<lambda>x. argp_args (a\<lparr>dbg_ahb_args := x\<rparr>)))"

definition cmd_debug_parse_opt ::
  "('s, 'b) host_driver list \<Rightarrow> string list \<Rightarrow> cmd_debug_args parser" where
  "cmd_debug_parse_opt drivers argv = \<lparr>
     on_opt = (\<lambda>c v a. argp_check (c = CHR ''F'') (argp_args (a\<lparr>dbg_force_quit := True\<rparr>))),
     on_word = parse_debug drivers argv,
     on_end = (\<lambda>n a. argp_bind (end_access n (dbg_ahb_args a)) (\<lambda>_.
       argp_check (ca_interface (dbg_connection a) \<noteq> None) (argp_args a))) \<rparr>"

section \<open>Numbers on the command line\<close>

lemma number_hex: "list_all (\<lambda>c. hexval c \<noteq> None) ds \<Longrightarrow> number 16 ds = hex_number ds"
  by (simp add: number_def hex_number_def)

lemma digit_of_16: "hex_char c \<Longrightarrow> digit_of 16 c"
proof -
  have "list_all (digit_of 16) ''0123456789abcdef''" by code_simp
  then show "hex_char c \<Longrightarrow> digit_of 16 c" by (auto simp: hex_char_def list_all_iff)
qed

lemma strtoul_hex:
  assumes "n < 2 ^ 64"
  shows "strtoul (CHR ''0'' # CHR ''x'' # hex_str n) = (n, False, [])"
proof -
  have hex: "list_all hex_char (hex_str n)" by (rule hex_char_str)
  obtain c cs where cs: "hex_str n = c # cs" using hex_str_not_Nil [of n] by (cases "hex_str n") auto
  then have "hexval c \<noteq> None" using hex hex_char_facts(1) [of c] by auto
  moreover have "\<not> is_space CHR 0x30" by code_simp
  ultimately have skip: "split_sign (dropWhile is_space (CHR ''0'' # CHR ''x'' # hex_str n)) = (False, CHR ''0'' # CHR ''x'' # hex_str n)"
      "skip_0x (CHR ''0'' # CHR ''x'' # hex_str n) = hex_str n"
    by (simp_all add: split_sign_def skip_0x_def cs)
  have all: "takeWhile (digit_of 16) (hex_str n) = hex_str n"
    using hex digit_of_16 by (auto simp: takeWhile_eq_all_conv list_all_iff)
  have "list_all (\<lambda>c. hexval c \<noteq> None) (hex_str n)"
    using hex hex_char_facts(1) by (fastforce simp: list_all_iff)
  then have v: "number 16 (hex_str n) = n" by (simp add: number_hex)
  have ne: "(hex_str n \<noteq> CHR ''0'' # CHR ''x'' # hex_str n) = True"
    by (metis append_Cons append_Nil append_self_conv2 list.discI)
  have "(n > ULONG_MAX) = False" using assms by (simp add: ULONG_MAX_def)
  moreover have "hex_str n = [] \<longleftrightarrow> False" using hex_str_not_Nil [of n] by simp
  ultimately show ?thesis
    by (simp only: strtoul_def Let_def skip prod.case ne if_True if_False all v) simp
qed

lemma strtoul32_hex [simp]: "strtoul32 (CHR ''0'' # CHR ''x'' # hex_str (unat (v :: u32))) = v"
proof -
  have "unat v < 2 ^ 64" by (rule less_trans [OF unat_u32_less]) simp
  then show ?thesis by (simp add: strtoul32_def strtoul_hex)
qed

text \<open>
  A memory argument is a whole number below 2^32, in any base \<open>strtoul\<close> knows, and nothing else.
\<close>

lemma parse_mem_arg_bound: "parse_mem_arg s = Some v \<Longrightarrow> v < 2 ^ 32 \<and> snd (snd (strtoul s)) = []"
  by (auto simp: parse_mem_arg_def UINT32_MAX_def split: if_splits prod.splits)

lemma parse_mem_arg_hex: "n < 2 ^ 32 \<Longrightarrow> parse_mem_arg (CHR ''0'' # CHR ''x'' # hex_str n) = Some n"
proof -
  assume n: "n < 2 ^ 32"
  then have "n < 2 ^ 64" by (rule less_trans) simp
  with n show ?thesis by (simp add: parse_mem_arg_def strtoul_hex UINT32_MAX_def ULONG_MAX_def)
qed

end
