(* ===== verification/Console.thy ===== *)
theory Console
  imports Host
begin

text \<open>
  The consoles a debug UART is reached over: a local terminal, \<^verbatim>\<open>src/tty.c\<close>, and a Digi
  Portserver TS 16, \<^verbatim>\<open>src/ts16.c\<close>, with the initialisation of the debug bridge over either
  from \<^verbatim>\<open>src/bridge/debug.c\<close>. The calls of the operating system are parameters.
\<close>

section \<open>Local terminals\<close>

datatype speed = B0 | B1200 | B115200

text \<open>
  The terminal interface of the C library, over an abstract \<open>termios\<close>. Failures are negated
  \<open>errno\<close> values, but \<open>open(2)\<close> gives -1. The boolean of \<open>tcsetattr\<close> is whether it flushes.
\<close>

record ('s, 't) tty_os =
  os_open :: "string \<Rightarrow> ('s, int) state"
  os_tcgetattr :: "int \<Rightarrow> ('s, int + 't) state"
  os_tcsetattr :: "int \<Rightarrow> bool \<Rightarrow> 't \<Rightarrow> ('s, int) state"
  os_cfsetospeed :: "speed \<Rightarrow> 't \<Rightarrow> int + 't"
  os_cfsetispeed :: "speed \<Rightarrow> 't \<Rightarrow> int + 't"
  os_cfmakeraw :: "'t \<Rightarrow> 't"

record tty =
  tty_fd :: int

definition tty_baud_map :: "(int \<times> speed) list" where
  "tty_baud_map = [(1200, B1200), (115200, B115200), (0, B0)]"

fun tty_find :: "(int \<times> speed) list \<Rightarrow> int \<Rightarrow> speed" where
  "tty_find [] baud = B0"
| "tty_find ((b, sp) # rows) baud = (if b \<noteq> 0 \<and> b \<noteq> baud then tty_find rows baud else sp)"

definition tty_find_speed :: "int \<Rightarrow> speed" where
  "tty_find_speed baud = tty_find tty_baud_map baud"

definition tty_set_baud :: "('s, 't) tty_os \<Rightarrow> tty \<Rightarrow> int \<Rightarrow> ('s, int) state" where
  "tty_set_baud os ctx baud =
     (let sp = tty_find_speed baud
      in if sp = B0 then ret (- EINVAL)
         else val_then (os_tcgetattr os (tty_fd ctx)) (\<lambda>t.
           case os_cfsetospeed os sp t of
             Inl rc \<Rightarrow> ret rc
           | Inr t \<Rightarrow> (case os_cfsetispeed os sp t of
               Inl rc \<Rightarrow> ret rc
             | Inr t \<Rightarrow> neg_then (os_tcsetattr os (tty_fd ctx) False t) (ret 0))))"

definition tty_destroy :: "('s, int) state" where
  "tty_destroy = ret 0"

definition tty_ops :: "('s, 't) tty_os \<Rightarrow> tty \<Rightarrow> 's console" where
  "tty_ops os ctx = \<lparr>co_destroy = act_run tty_destroy,
     co_set_baud = (\<lambda>baud. act_run (tty_set_baud os ctx baud))\<rparr>"

text \<open>
  \<open>tty_init\<close>: the test for a failing \<open>open\<close> asks for descriptor 0; \<open>e\<close> is \<open>errno\<close> there. The
  attributes are those of the terminal or, where they cannot be had, what memory holds.
\<close>

definition tty_init :: "('s, 't) tty_os \<Rightarrow> int \<Rightarrow> 't \<Rightarrow> string \<Rightarrow> ('s, int \<times> tty) state" where
  "tty_init os e junk path = do {
     fd \<leftarrow> os_open os path;
     (if fd = 0 then ret (- e, \<lparr>tty_fd = fd\<rparr>)
      else do {
        r \<leftarrow> os_tcgetattr os fd;
        _ \<leftarrow> os_tcsetattr os fd True (os_cfmakeraw os (case r of Inl _ \<Rightarrow> junk | Inr t \<Rightarrow> t));
        ret (fd, \<lparr>tty_fd = fd\<rparr>) }) }"

section \<open>The port server\<close>

text \<open>
  Sockets: \<open>os_socket\<close> gives a descriptor or -1, \<open>os_connect\<close> 0 or a negated \<open>errno\<close>;
  \<open>os_fdopen\<close> is \<open>fdopen(3)\<close>, \<open>os_errno\<close> the value of \<open>errno\<close>. A port is 16 bits wide.
\<close>

record 's net_os =
  os_aton :: "string \<Rightarrow> u32 option"
  os_socket :: "('s, int) state"
  os_connect :: "int \<Rightarrow> u32 \<Rightarrow> u16 \<Rightarrow> ('s, int) state"
  os_close :: "int \<Rightarrow> ('s, unit) state"
  os_fdopen :: "int \<Rightarrow> ('s, int + 's file_ops) state"
  os_errno :: "('s, int) state"

text \<open>The prompt is not there before \<open>ts16_control_init\<close> has set it up.\<close>

record 's ts16 =
  ts_concentrator :: "'s prompt option"
  ts_port :: int

fun nat_dec :: "nat \<Rightarrow> string" where
  "nat_dec n = (if n < 10 then [hexc n] else nat_dec (n div 10) @ [hexc (n mod 10)])"

declare nat_dec.simps [simp del]

definition int_dec :: "int \<Rightarrow> string" where
  "int_dec i = (if i < 0 then ''-'' else []) @ nat_dec (nat \<bar>i\<bar>)"

definition ts16_bin :: "int \<Rightarrow> string \<Rightarrow> string" where
  "ts16_bin port onoff = ''set port range='' @ int_dec port @ '' bin='' @ onoff"

definition ts16_kill :: "int \<Rightarrow> string" where
  "ts16_kill port = ''kill tty='' @ int_dec port"

text \<open>A command at the prompt of the port server.\<close>

definition ts16_command :: "'s ts16 \<Rightarrow> string \<Rightarrow> ('s, int) act" where
  "ts16_command ctx cmd =
     (case ts_concentrator ctx of
        None \<Rightarrow> act_stuck
      | Some p \<Rightarrow> prompt_expect_run p ''#> '' cmd)"

definition ts16_close :: "'s net_os \<Rightarrow> int \<Rightarrow> int \<Rightarrow> ('s, int) act" where
  "ts16_close os fd rc = act_bind (act_run (os_close os fd)) (\<lambda>_. act_ret rc)"

definition ts16_hang_up :: "'s net_os \<Rightarrow> 's ts16 \<Rightarrow> int \<Rightarrow> int \<Rightarrow> ('s, int) act" where
  "ts16_hang_up os ctx fd rc =
     (case ts_concentrator ctx of
        None \<Rightarrow> act_stuck
      | Some p \<Rightarrow> act_bind (act_run (prompt_destroy p)) (\<lambda>cleanup.
          ts16_close os fd (if cleanup < 0 \<and> rc = 0 then cleanup else rc)))"

definition ts16_reset_port :: "'s net_os \<Rightarrow> 's ts16 \<Rightarrow> int \<Rightarrow> int \<Rightarrow> ('s, int) act" where
  "ts16_reset_port os ctx fd rc =
     act_bind (ts16_command ctx (ts16_bin (ts_port ctx) ''off'')) (\<lambda>cleanup.
       let rc = (if cleanup < 0 \<and> rc = 0 then cleanup else rc)
       in act_bind (ts16_command ctx (ts16_kill (ts_port ctx))) (\<lambda>cleanup.
            ts16_hang_up os ctx fd (if cleanup < 0 \<and> rc = 0 then cleanup else rc)))"

definition ts16_login :: "'s net_os \<Rightarrow> 's ts16 \<Rightarrow> string \<Rightarrow> string \<Rightarrow> ('s, int) act \<Rightarrow> int \<Rightarrow> ('s, int) act" where
  "ts16_login os ctx expect answer k fd =
     (case ts_concentrator ctx of
        None \<Rightarrow> act_stuck
      | Some p \<Rightarrow> act_bind (prompt_expect_run p expect answer) (\<lambda>rc.
          if rc < 0 then act_bind (act_run (os_errno os)) (\<lambda>e. ts16_hang_up os ctx fd (- e)) else k))"

definition ts16_configure :: "'s net_os \<Rightarrow> 's ts16 \<Rightarrow> int \<Rightarrow> ('s, int) act" where
  "ts16_configure os ctx fd =
     act_bind (ts16_command ctx (ts16_bin (ts_port ctx) ''on'')) (\<lambda>rc.
       if rc < 0 then ts16_hang_up os ctx fd rc
       else act_bind (ts16_command ctx (ts16_kill (ts_port ctx))) (\<lambda>rc.
         if rc < 0 then ts16_reset_port os ctx fd rc else act_ret 0))"

definition ts16_control_init ::
  "'s net_os \<Rightarrow> 's ts16 \<Rightarrow> string \<Rightarrow> string \<Rightarrow> string \<Rightarrow> ('s, int \<times> 's ts16) act" where
  "ts16_control_init os ctx ip username passwd =
     (case os_aton os ip of
        None \<Rightarrow> act_bind (act_run (os_errno os)) (\<lambda>e. act_ret (- e, ctx))
      | Some addr \<Rightarrow>
          act_bind (act_run (os_socket os)) (\<lambda>concentrator.
            if concentrator < 0 then act_bind (act_run (os_errno os)) (\<lambda>e. act_ret (- e, ctx))
            else act_bind (act_run (os_connect os concentrator addr 23)) (\<lambda>rc.
              if rc < 0 then act_bind (ts16_close os concentrator rc) (\<lambda>rc. act_ret (rc, ctx))
              else act_bind (act_run (os_fdopen os concentrator)) (\<lambda>stream.
                case prompt_init stream [CR, LF] False of
                  Inl rc \<Rightarrow> act_bind (ts16_close os concentrator rc) (\<lambda>rc. act_ret (rc, ctx))
                | Inr p \<Rightarrow>
                    let ctx = ctx\<lparr>ts_concentrator := Some p\<rparr>
                    in act_bind
                         (ts16_login os ctx ''login: '' username
                           (ts16_login os ctx ''password: '' passwd
                             (ts16_configure os ctx concentrator) concentrator) concentrator)
                         (\<lambda>rc. act_ret (rc, ctx))))))"

definition ts16_control_destroy :: "'s ts16 \<Rightarrow> ('s, int) act" where
  "ts16_control_destroy ctx =
     act_neg (ts16_command ctx (ts16_bin (ts_port ctx) ''off''))
     (act_neg (ts16_command ctx (ts16_kill (ts_port ctx)))
     (case ts_concentrator ctx of None \<Rightarrow> act_stuck | Some p \<Rightarrow> act_run (prompt_destroy p)))"

definition ts16_console_init :: "'s net_os \<Rightarrow> string \<Rightarrow> int \<Rightarrow> ('s, int) act" where
  "ts16_console_init os ip port =
     (case os_aton os ip of
        None \<Rightarrow> act_bind (act_run (os_errno os)) (\<lambda>e. act_ret (- e))
      | Some addr \<Rightarrow>
          act_bind (act_run (os_socket os)) (\<lambda>console.
            if console < 0 then act_ret console
            else act_bind (act_run (os_connect os console addr (word_of_int (2000 + 100 + port)))) (\<lambda>rc.
              if rc < 0 then ts16_close os console rc else act_ret console)))"

definition ts16_set_baud :: "'s ts16 \<Rightarrow> int \<Rightarrow> ('s, int) act" where
  "ts16_set_baud ctx baud =
     act_neg (ts16_command ctx (''set line range='' @ int_dec (ts_port ctx) @ '' baud='' @ int_dec baud))
     (act_ret 0)"

definition ts16_destroy :: "'s ts16 \<Rightarrow> ('s, int) act" where
  "ts16_destroy ctx = act_bind (ts16_control_destroy ctx) (\<lambda>_. act_ret 0)"

definition ts16_ops :: "'s ts16 \<Rightarrow> 's console" where
  "ts16_ops ctx = \<lparr>co_destroy = ts16_destroy ctx, co_set_baud = ts16_set_baud ctx\<rparr>"

text \<open>The descriptor of the console, or a status.\<close>

definition ts16_init ::
  "'s net_os \<Rightarrow> string \<Rightarrow> int \<Rightarrow> string \<Rightarrow> string \<Rightarrow> ('s, int \<times> 's ts16) act" where
  "ts16_init os ip port username passwd =
     act_bind (ts16_control_init os \<lparr>ts_concentrator = None, ts_port = port\<rparr> ip username passwd)
     (\<lambda>(rc, ctx).
       if rc < 0 then act_ret (rc, ctx)
       else act_bind (ts16_console_init os ip port) (\<lambda>fd.
         if fd < 0 then act_bind (ts16_control_destroy ctx) (\<lambda>_. act_ret (fd, ctx))
         else act_ret (fd, ctx)))"

section \<open>The debug bridge over a console\<close>

definition debug_ts16_console_init ::
  "'s net_os \<Rightarrow> string \<Rightarrow> int \<Rightarrow> string \<Rightarrow> string \<Rightarrow> ('s, int \<times> 's console) act" where
  "debug_ts16_console_init os ip port username passwd =
     act_bind (ts16_init os ip port username passwd) (\<lambda>(fd, ctx). act_ret (fd, ts16_ops ctx))"

definition tty_console_init ::
  "('s, 't) tty_os \<Rightarrow> int \<Rightarrow> 't \<Rightarrow> string \<Rightarrow> ('s, int \<times> 's console) act" where
  "tty_console_init os e junk path =
     act_bind (act_run (tty_init os e junk path)) (\<lambda>(fd, ctx). act_ret (fd, tty_ops os ctx))"

text \<open>
  \<open>debug_init\<close> with its variable arguments taken from the connection. A missing address or
  login is \<open>NULL\<close>, which is followed. \<open>force\<close> is what the flag of the context holds.
\<close>

definition debug_init ::
  "('s, 't) tty_os \<Rightarrow> 's net_os \<Rightarrow> int \<Rightarrow> 't \<Rightarrow> int \<Rightarrow> connection_args \<Rightarrow> ('s, int + 's debug) act" where
  "debug_init tty net e junk force c =
     (case ca_interface c of
        None \<Rightarrow> act_ret (Inl (- EINVAL))
      | Some interface \<Rightarrow>
          act_bind
            (if interface = ''digi,portserver-ts-16''
             then (case (ca_ip c, ca_username c, ca_password c) of
                     (Some ip, Some user, Some pass) \<Rightarrow> debug_ts16_console_init net ip (ca_port c) user pass
                   | _ \<Rightarrow> act_stuck)
             else tty_console_init tty e junk interface)
            (\<lambda>(fd, console).
              if fd < 0 then act_ret (Inl fd)
              else act_bind (act_run (os_fdopen net fd)) (\<lambda>stream.
                case prompt_init stream [CR] False of
                  Inl rc \<Rightarrow> act_bind (co_destroy console) (\<lambda>_. act_ret (Inl rc))
                | Inr p \<Rightarrow> act_ret (Inr \<lparr>db_console = console, db_prompt = p, db_force_quit = force\<rparr>))))"

definition debug_driver_probe ::
  "('s, 't) tty_os \<Rightarrow> 's net_os \<Rightarrow> int \<Rightarrow> 't \<Rightarrow> int \<Rightarrow> connection_args \<Rightarrow> ('s, 's debug option) act" where
  "debug_driver_probe tty net e junk force c =
     (if ca_interface c = None then act_ret None
      else act_bind (debug_init tty net e junk force c) (\<lambda>r. case r of
        Inl rc \<Rightarrow> act_ret None
      | Inr ctx \<Rightarrow> act_bind (debug_enter ctx) (\<lambda>rc.
          if rc < 0 then act_bind (debug_destroy ctx) (\<lambda>_. act_ret None)
          else act_ret (Some ctx))))"

section \<open>A port server\<close>

text \<open>
  The port server as a device: it asks for a name, a password and then for commands, and keeps
  the lines it is given. What it sends comes in pieces of the sizes in \<open>pv_sched\<close>. The
  descriptors of the connections count up from 3, and those that are closed are kept too.
  \<open>pv_early\<close> records that something was typed ahead: a character came while the server's
  last prompt, or a part of it, was still unread.
\<close>

record portserver =
  pv_out :: string
  pv_line :: string
  pv_lines :: "string list"
  pv_sched :: "nat list"
  pv_fd :: int
  pv_closed :: "int list"
  pv_early :: bool

definition pv_prompt :: "nat \<Rightarrow> string" where
  "pv_prompt n = (if n = 0 then ''login: '' else if n = 1 then ''password: '' else ''#> '')"

definition pv_heard :: "portserver \<Rightarrow> portserver" where
  "pv_heard d = (if pv_out d = [] then d else d\<lparr>pv_early := True\<rparr>)"

definition pv_char :: "char \<Rightarrow> portserver \<Rightarrow> portserver" where
  "pv_char c d0 =
     (let d = pv_heard d0
      in if c = CR then d
      else if c = LF
      then d\<lparr>pv_line := [], pv_lines := pv_lines d @ [pv_line d],
             pv_out := pv_out d @ [CR, LF] @ pv_prompt (Suc (length (pv_lines d)))\<rparr>
      else d\<lparr>pv_line := pv_line d @ [c]\<rparr>)"

definition pv_file :: "int \<Rightarrow> portserver file_ops" where
  "pv_file fd = \<lparr>
     f_read = (\<lambda>n. State (\<lambda>d.
       let k = (case pv_sched d of [] \<Rightarrow> n | m # ms \<Rightarrow> max 1 (min n m))
       in (Inr (take k (pv_out d)), d\<lparr>pv_out := drop k (pv_out d), pv_sched := tl (pv_sched d)\<rparr>))),
     f_write = (\<lambda>s. State (\<lambda>d. (int (length s), fold pv_char s d))),
     f_gets = (\<lambda>n. ret (Inl 0)),
     f_close = do { modify (\<lambda>d. d\<lparr>pv_closed := pv_closed d @ [fd]\<rparr>); ret 0 } \<rparr>"

definition pv_net :: "(string \<Rightarrow> u32 option) \<Rightarrow> portserver net_os" where
  "pv_net aton = \<lparr>
     os_aton = aton,
     os_socket = State (\<lambda>d. (pv_fd d, d\<lparr>pv_fd := pv_fd d + 1\<rparr>)),
     os_connect = (\<lambda>fd addr port. ret 0),
     os_close = (\<lambda>fd. modify (\<lambda>d. d\<lparr>pv_closed := pv_closed d @ [fd]\<rparr>)),
     os_fdopen = (\<lambda>fd. ret (Inr (pv_file fd))),
     os_errno = ret 0 \<rparr>"

definition pv_fresh :: "nat list \<Rightarrow> portserver" where
  "pv_fresh sched = \<lparr>pv_out = pv_prompt 0, pv_line = [], pv_lines = [], pv_sched = sched, pv_fd = 3,
     pv_closed = [], pv_early = False\<rparr>"

definition pv_keeps :: "portserver \<Rightarrow> portserver \<Rightarrow> bool" where
  "pv_keeps d d' \<longleftrightarrow> pv_line d' = pv_line d \<and> pv_lines d' = pv_lines d \<and> pv_fd d' = pv_fd d \<and>
     pv_closed d' = pv_closed d \<and> pv_early d' = pv_early d"

interpretation pv_stream: ready_stream "pv_file fd" pv_out pv_keeps
proof (unfold_locales, goal_cases)
  case (1 s n)
  let ?k = "case pv_sched s of [] \<Rightarrow> n | m # ms \<Rightarrow> max 1 (min n m)"
  have "0 < ?k \<and> ?k \<le> n" using 1(2) by (auto split: list.split)
  moreover have "run_state (f_read (pv_file fd) n) s =
      (Inr (take ?k (pv_out s)), s\<lparr>pv_out := drop ?k (pv_out s), pv_sched := tl (pv_sched s)\<rparr>)"
    by (simp add: pv_file_def Let_def)
  ultimately show ?case by (intro exI [of _ ?k] exI conjI) (assumption | simp add: pv_keeps_def)+
qed (simp_all add: pv_keeps_def)

text \<open>The server waits for its next line, and all earlier ones came when it did.\<close>

definition pv_waits :: "portserver \<Rightarrow> string list \<Rightarrow> int \<Rightarrow> int list \<Rightarrow> bool" where
  "pv_waits d lines fd closed \<longleftrightarrow>
     (\<exists>pre. pv_out d = pre @ pv_prompt (length lines) \<and> set pre \<subseteq> {CR, LF} \<and> length pre \<le> 2) \<and>
     pv_line d = [] \<and> pv_lines d = lines \<and> pv_fd d = fd \<and> pv_closed d = closed \<and> \<not> pv_early d"

definition typable :: "string \<Rightarrow> bool" where
  "typable s \<longleftrightarrow> CR \<notin> set s \<and> LF \<notin> set s"

lemma pv_type: "typable l \<Longrightarrow> pv_out d = [] \<Longrightarrow> fold pv_char l d = d\<lparr>pv_line := pv_line d @ l\<rparr>"
  by (induction l arbitrary: d) (auto simp: pv_char_def pv_heard_def typable_def)

abbreviation pv_conn :: "int \<Rightarrow> portserver prompt" where
  "pv_conn fd \<equiv> \<lparr>pr_stream = pv_file fd, pr_eol = [CR, LF], pr_have_echo = False\<rparr>"

lemma prompt_write_pv [simp]:
  "prompt_write (pv_conn fd) buf d = Some (int (length buf), fold pv_char buf d)"
  by (simp add: prompt_write_def) (subst prompt_write_loop.simps, simp add: pv_file_def)

lemma pv_prompt_facts:
  "pv_prompt n \<noteq> []" "set pre \<subseteq> {CR, LF} \<Longrightarrow> hd (pv_prompt n) \<notin> set pre" "length (pv_prompt n) \<le> 10"
  by (auto simp: pv_prompt_def CR_def LF_def)

lemma pv_answer:
  assumes "pv_waits d lines fd closed" "typable cmd" "w = pv_prompt (length lines)"
  shows "\<exists>d'. prompt_expect_run (pv_conn h) w cmd d = Some (2, d') \<and> pv_waits d' (lines @ [cmd]) fd closed"
proof -
  obtain pre where pre: "pv_out d = pre @ pv_prompt (length lines)" "set pre \<subseteq> {CR, LF}" "length pre \<le> 2"
    using assms(1) by (auto simp: pv_waits_def)
  have "length pre + length (pv_prompt (length lines)) \<le> 100"
    using pre(3) pv_prompt_facts(3) [of "length lines"] by simp
  then obtain d1 where d1: "prompt_expect (pv_conn h) w d = Some (1, d1)" "pv_out d1 = []" "pv_keeps d d1"
    using pv_stream.expect_word [OF pre(1) pv_prompt_facts(2) [OF pre(2)] pv_prompt_facts(1), of "pv_conn h" h]
      assms(3) by auto
  have lf: "LF \<noteq> CR" by (simp add: LF_def CR_def)
  let ?d = "d1\<lparr>pv_line := [], pv_lines := lines @ [cmd], pv_out := [CR, LF] @ pv_prompt (Suc (length lines))\<rparr>"
  have l: "pv_line d1 = []" "pv_lines d1 = lines" "pv_fd d1 = fd" "pv_closed d1 = closed" "\<not> pv_early d1"
    using d1(3) assms(1) by (auto simp: pv_keeps_def pv_waits_def)
  have "prompt_run (pv_conn h) cmd d1 = Some (2, ?d)"
    using assms(2) l d1(2) lf by (simp add: prompt_run_def pv_type) (simp add: pv_char_def pv_heard_def)
  then have "prompt_expect_run (pv_conn h) w cmd d = Some (2, ?d)"
    using d1(1) by (simp add: prompt_expect_run_def)
  moreover have "pv_waits ?d (lines @ [cmd]) fd closed"
    using l by (auto simp: pv_waits_def intro: exI [of _ "[CR, LF]"])
  ultimately show ?thesis by blast
qed

lemma pv_command:
  assumes "pv_waits d lines fd closed" "typable cmd" "2 \<le> length lines" "ts_concentrator ctx = Some (pv_conn h)"
  shows "\<exists>d'. ts16_command ctx cmd d = Some (2, d') \<and> pv_waits d' (lines @ [cmd]) fd closed"
proof -
  have "''#> '' = pv_prompt (length lines)" using assms(3) by (auto simp: pv_prompt_def)
  from pv_answer [OF assms(1,2) this, of h] assms(4) show ?thesis by (simp add: ts16_command_def)
qed

lemma nat_dec_digits: "set (nat_dec n) \<subseteq> set ''0123456789abcdef''"
proof (induction n rule: nat_dec.induct)
  case (1 n)
  have h: "hexc d \<in> set ''0123456789abcdef''" if "d < 16" for d
    unfolding hexc_def by (rule nth_mem) (use that in simp)
  show ?case
  proof (cases "n < 10")
    case True
    then show ?thesis using h [of n] by (subst nat_dec.simps) simp
  next
    case False
    then show ?thesis using 1 h [of "n mod 10"] by (subst nat_dec.simps) auto
  qed
qed

lemma typable_dec: "typable (int_dec i)"
  using nat_dec_digits [of "nat \<bar>i\<bar>"] by (auto simp: typable_def int_dec_def CR_def LF_def)

lemma typable_append [simp]: "typable (a @ b) \<longleftrightarrow> typable a \<and> typable b"
  by (auto simp: typable_def)

lemma typable_commands [simp]:
  "typable (ts16_kill port)" "onoff \<in> {''on'', ''off''} \<Longrightarrow> typable (ts16_bin port onoff)"
  "typable (''set line range='' @ int_dec port @ '' baud='' @ int_dec baud)"
  using typable_dec [of port] typable_dec [of baud]
  by (auto simp: ts16_kill_def ts16_bin_def) (auto simp: typable_def CR_def LF_def)


lemma pv_login:
  assumes "pv_waits d lines fd closed" "typable answer" "expect = pv_prompt (length lines)"
    and "ts_concentrator ctx = Some (pv_conn h)"
  shows "\<exists>d'. pv_waits d' (lines @ [answer]) fd closed \<and>
    ts16_login os ctx expect answer k g d = k d'"
proof -
  obtain d' where "prompt_expect_run (pv_conn h) expect answer d = Some (2, d')"
      "pv_waits d' (lines @ [answer]) fd closed"
    using pv_answer [OF assms(1-3)] by blast
  then show ?thesis using assms(4) by (intro exI [of _ d']) (simp add: ts16_login_def)
qed

lemma pv_net_simps [simp]:
  "os_aton (pv_net aton) = aton" "run_state (os_socket (pv_net aton)) d = (pv_fd d, d\<lparr>pv_fd := pv_fd d + 1\<rparr>)"
  "os_connect (pv_net aton) fd addr port = ret 0" "os_fdopen (pv_net aton) fd = ret (Inr (pv_file fd))"
  by (simp_all add: pv_net_def)

lemma pv_control_init:
  assumes "aton ip = Some addr" "typable user" "typable passwd"
  shows "\<exists>d. ts16_control_init (pv_net aton) \<lparr>ts_concentrator = None, ts_port = port\<rparr> ip user passwd (pv_fresh sched) =
      Some ((0, \<lparr>ts_concentrator = Some (pv_conn 3), ts_port = port\<rparr>), d) \<and>
    pv_waits d [user, passwd, ts16_bin port ''on'', ts16_kill port] 4 []"
proof -
  let ?ctx = "\<lparr>ts_concentrator = Some (pv_conn 3), ts_port = port\<rparr>"
  let ?d0 = "(pv_fresh sched)\<lparr>pv_fd := 4\<rparr>"
  have 0: "pv_waits ?d0 [] 4 []" by (simp add: pv_waits_def pv_fresh_def)
  let ?k2 = "ts16_configure (pv_net aton) ?ctx 3"
  let ?k1 = "ts16_login (pv_net aton) ?ctx ''password: '' passwd ?k2 3"
  obtain d1 where 1: "pv_waits d1 [user] 4 []"
      "ts16_login (pv_net aton) ?ctx ''login: '' user ?k1 3 ?d0 = ?k1 d1"
    using pv_login [OF 0 assms(2), of "''login: ''" ?ctx 3 "pv_net aton" ?k1 3] by (auto simp: pv_prompt_def)
  obtain d2 where 2: "pv_waits d2 [user, passwd] 4 []" "?k1 d1 = ?k2 d2"
    using pv_login [OF 1(1) assms(3), of "''password: ''" ?ctx 3 "pv_net aton" ?k2 3] by (auto simp: pv_prompt_def)
  obtain d3 where 3: "ts16_command ?ctx (ts16_bin port ''on'') d2 = Some (2, d3)"
      "pv_waits d3 [user, passwd, ts16_bin port ''on''] 4 []"
    using pv_command [OF 2(1), of "ts16_bin port ''on''" ?ctx 3] by auto
  obtain d4 where 4: "ts16_command ?ctx (ts16_kill port) d3 = Some (2, d4)"
      "pv_waits d4 [user, passwd, ts16_bin port ''on'', ts16_kill port] 4 []"
    using pv_command [OF 3(2), of "ts16_kill port" ?ctx 3] by auto
  have "?k2 d2 = Some (0, d4)" using 3(1) 4(1) by (simp add: ts16_configure_def)
  then have "ts16_login (pv_net aton) ?ctx ''login: '' user ?k1 3 ?d0 = Some (0, d4)" using 1(2) 2(2) by simp
  moreover have "(pv_fresh sched)\<lparr>pv_fd := pv_fd (pv_fresh sched) + 1\<rparr> = ?d0" "pv_fd (pv_fresh sched) = 3"
    by (simp_all add: pv_fresh_def)
  ultimately show ?thesis using assms(1) 4(2)
    by (simp add: ts16_control_init_def prompt_init_def Let_def)
qed

text \<open>
  Claim C11. A session with the port server: whatever the sizes its prompts arrive in, \<open>ts16_init\<close>
  logs in, switches the port to binary mode, resets it and gives the descriptor of the second
  connection; setting the baud rate is one more command; and destroying the console undoes the
  mode, resets the port and closes the control connection, once. These lines and no others are
  sent, and each is typed only after the whole prompt before it has been read
  (\<open>\<not> pv_early\<close>): nothing is typed ahead of the server.
\<close>

theorem ts16_session:
  assumes "aton ip = Some addr" "typable user" "typable passwd"
  shows "\<exists>ctx d1 d2 d3.
    ts16_init (pv_net aton) ip port user passwd (pv_fresh sched) = Some ((4, ctx), d1) \<and>
    pv_lines d1 = [user, passwd, ts16_bin port ''on'', ts16_kill port] \<and> pv_closed d1 = [] \<and> \<not> pv_early d1 \<and>
    ts16_set_baud ctx baud d1 = Some (0, d2) \<and>
    pv_lines d2 = pv_lines d1 @ [''set line range='' @ int_dec port @ '' baud='' @ int_dec baud] \<and> \<not> pv_early d2 \<and>
    ts16_destroy ctx d2 = Some (0, d3) \<and>
    pv_lines d3 = pv_lines d2 @ [ts16_bin port ''off'', ts16_kill port] \<and> pv_closed d3 = [3] \<and> \<not> pv_early d3"
proof -
  let ?ctx = "\<lparr>ts_concentrator = Some (pv_conn 3), ts_port = port\<rparr>"
  let ?l = "[user, passwd, ts16_bin port ''on'', ts16_kill port]"
  let ?b = "''set line range='' @ int_dec port @ '' baud='' @ int_dec baud"
  obtain d where d: "ts16_control_init (pv_net aton) \<lparr>ts_concentrator = None, ts_port = port\<rparr> ip user passwd
      (pv_fresh sched) = Some ((0, ?ctx), d)" "pv_waits d ?l 4 []"
    using pv_control_init [of aton ip, OF assms] by blast
  let ?d1 = "d\<lparr>pv_fd := 5\<rparr>"
  have w1: "pv_waits ?d1 ?l 5 []" "pv_fd d = 4" using d(2) by (simp_all add: pv_waits_def)
  have init: "ts16_init (pv_net aton) ip port user passwd (pv_fresh sched) = Some ((4, ?ctx), ?d1)"
    using d(1) assms(1) w1(2) by (simp add: ts16_init_def ts16_console_init_def)
  obtain d2 where 2: "ts16_command ?ctx ?b ?d1 = Some (2, d2)" "pv_waits d2 (?l @ [?b]) 5 []"
    using pv_command [OF w1(1) typable_commands(3), of ?ctx 3 port baud] by auto
  obtain d3 where 3: "ts16_command ?ctx (ts16_bin port ''off'') d2 = Some (2, d3)"
      "pv_waits d3 ((?l @ [?b]) @ [ts16_bin port ''off'']) 5 []"
    using pv_command [OF 2(2), of "ts16_bin port ''off''" ?ctx 3] by auto
  obtain d4 where 4: "ts16_command ?ctx (ts16_kill port) d3 = Some (2, d4)"
      "pv_waits d4 (((?l @ [?b]) @ [ts16_bin port ''off'']) @ [ts16_kill port]) 5 []"
    using pv_command [OF 3(2), of "ts16_kill port" ?ctx 3] by auto
  have "ts16_set_baud ?ctx baud ?d1 = Some (0, d2)" using 2(1) by (simp add: ts16_set_baud_def)
  moreover have "ts16_destroy ?ctx d2 = Some (0, d4\<lparr>pv_closed := [3]\<rparr>)"
    using 3(1) 4 by (simp add: ts16_destroy_def ts16_control_destroy_def prompt_destroy_def pv_file_def
      pv_waits_def neg_then_def)
  ultimately show ?thesis using init w1(1) 2(2) 4(2)
    by (intro exI [of _ ?ctx] exI [of _ ?d1] exI [of _ d2] exI [of _ "d4\<lparr>pv_closed := [3]\<rparr>"])
      (simp add: pv_waits_def)
qed

theorem ts16_session_witness:
  "\<exists>ctx d1 d2 d3. ts16_init (pv_net (\<lambda>_. Some 0x7f000001)) ''localhost'' 5 ''root'' ''dbps'' (pv_fresh [1, 2, 3]) =
     Some ((4, ctx), d1) \<and> ts16_set_baud ctx 1200 d1 = Some (0, d2) \<and> ts16_destroy ctx d2 = Some (0, d3) \<and>
   pv_lines d3 = [''root'', ''dbps'', ''set port range=5 bin=on'', ''kill tty=5'',
     ''set line range=5 baud=1200'', ''set port range=5 bin=off'', ''kill tty=5''] \<and> \<not> pv_early d3"
proof -
  have t: "typable ''root''" "typable ''dbps''" by (simp_all add: typable_def CR_def LF_def)
  have c: "ts16_bin 5 ''on'' = ''set port range=5 bin=on''" "ts16_bin 5 ''off'' = ''set port range=5 bin=off''"
    "ts16_kill 5 = ''kill tty=5''" "''set line range='' @ int_dec 5 @ '' baud='' @ int_dec 1200 =
      ''set line range=5 baud=1200''"
    by code_simp+
  obtain ctx d1 d2 d3 where d: "ts16_init (pv_net (\<lambda>_. Some 0x7f000001)) ''localhost'' 5 ''root'' ''dbps''
      (pv_fresh [1, 2, 3]) = Some ((4, ctx), d1)" "ts16_set_baud ctx 1200 d1 = Some (0, d2)"
      "ts16_destroy ctx d2 = Some (0, d3)" "\<not> pv_early d3"
      "pv_lines d1 = [''root'', ''dbps'', ts16_bin 5 ''on'', ts16_kill 5]"
      "pv_lines d2 = pv_lines d1 @ [''set line range='' @ int_dec 5 @ '' baud='' @ int_dec 1200]"
      "pv_lines d3 = pv_lines d2 @ [ts16_bin 5 ''off'', ts16_kill 5]"
    using ts16_session [of "\<lambda>_. Some 0x7f000001" "''localhost''" "0x7f000001", OF refl t, of 5 "[1, 2, 3]" 1200]
    by blast
  then show ?thesis unfolding c by auto
qed

text \<open>
  An address that does not parse: \<open>inet_aton(3)\<close> does not set \<open>errno\<close>, so with an \<open>errno\<close> of 0
  the initialisation reports success with descriptor 0, standard input, and no connection.
\<close>

theorem ts16_bad_address:
  assumes "os_aton os ip = None" "run_state (os_errno os) s = (0, s)"
  shows "\<exists>ctx. ts16_init os ip port user passwd s = Some ((0, ctx), s) \<and> ts_concentrator ctx = None"
  using assms by (simp add: ts16_init_def ts16_control_init_def ts16_console_init_def)

text \<open>
  A local terminal takes exactly the two rates of the table and refuses the others without
  touching the terminal.
\<close>

lemma tty_find_speed_known: "tty_find_speed baud = (if baud = 1200 then B1200 else if baud = 115200 then B115200 else B0)"
  by (simp add: tty_find_speed_def tty_baud_map_def)

end
