(* ===== verification/Access.thy ===== *)
theory Access
  imports Argp Console SocBus
begin

text \<open>
  The commands that read or write one address: \<^verbatim>\<open>src/ast.c\<close> and the commands \<^verbatim>\<open>p2a\<close>,
  \<^verbatim>\<open>ilpc\<close>, \<^verbatim>\<open>devmem\<close> and \<^verbatim>\<open>debug\<close> of \<^verbatim>\<open>src/cmd\<close>, with the search for a PCI function,
  \<^verbatim>\<open>src/pci.c\<close>, and the opening of the P2A bridge on one. \<open>Inl\<close> of a result is the end of the
  program with that status, \<open>Inr\<close> what the command returns. The host is little-endian, so
  \<open>le32toh\<close> is the identity.
\<close>

section \<open>PCI functions\<close>

record dirent =
  de_name :: string
  de_is_link :: bool

text \<open>
  The file system: the entries of the directory of devices or a negated \<open>errno\<close>, reading at
  most so many bytes of a file (\<open>None\<close> if it cannot be opened or read), and opening a file, -1
  on a failure.
\<close>

record 's pci_os =
  pc_devices :: "('s, int + dirent list) state"
  pc_read :: "string \<Rightarrow> nat \<Rightarrow> ('s, string option) state"
  pc_open :: "string \<Rightarrow> ('s, int) state"
  pc_close :: "int \<Rightarrow> ('s, int) state"

text \<open>\<open>strtol(3)\<close> to base 16 of the few characters of an identifier, where nothing overflows.\<close>

definition strtol16 :: "string \<Rightarrow> int" where
  "strtol16 s =
     (let (neg, r) = split_sign (dropWhile is_space s);
          v = int (hex_number (takeWhile (\<lambda>c. hexval c \<noteq> None) (skip_0x r)))
      in if neg then - v else v)"

definition read_sysfs_id :: "'s pci_os \<Rightarrow> string \<Rightarrow> ('s, int) state" where
  "read_sysfs_id os file = do {
     content \<leftarrow> pc_read os file 6;
     (case content of
        None \<Rightarrow> ret (- 1)
      | Some s \<Rightarrow>
          let i = strtol16 (c_str s)
          in ret (if i > 0xffff \<or> i < 0 then - 1 else i)) }"

fun pci_find :: "'s pci_os \<Rightarrow> u16 \<Rightarrow> u16 \<Rightarrow> dirent list \<Rightarrow> ('s, string option) state" where
  "pci_find os vid did [] = ret None"
| "pci_find os vid did (de # des) =
     (if \<not> de_is_link de then pci_find os vid did des
      else do {
        this_vid \<leftarrow> read_sysfs_id os (de_name de @ ''/vendor'');
        this_did \<leftarrow> read_sysfs_id os (de_name de @ ''/device'');
        (if this_vid = uint vid \<and> this_did = uint did then ret (Some (de_name de))
         else pci_find os vid did des) })"

definition pci_open :: "'s pci_os \<Rightarrow> u16 \<Rightarrow> u16 \<Rightarrow> nat \<Rightarrow> ('s, int) state" where
  "pci_open os vid did bar =
     val_then (pc_devices os) (\<lambda>des. do {
       found \<leftarrow> pci_find os vid did des;
       (case found of
          None \<Rightarrow> ret (- ENOENT)
        | Some name \<Rightarrow> pc_open os (name @ ''/resource'' @ nat_dec bar)) })"

text \<open>The assertion on the descriptor: \<open>None\<close>.\<close>

definition pci_close :: "'s pci_os \<Rightarrow> int \<Rightarrow> ('s, int option) state" where
  "pci_close os fd = (if fd < 0 then ret None else do { rc \<leftarrow> pc_close os fd; ret (Some rc) })"

section \<open>The P2A bridge on a PCI function\<close>

definition AST_PCI_VID :: u16 where "AST_PCI_VID = 0x1a03"
definition AST_MMIO_BAR :: nat where "AST_MMIO_BAR = 1"

text \<open>
  \<open>mmap\<close> and \<open>munmap\<close> give 0 or a negated \<open>errno\<close>; \<open>start\<close> is the rest of \<open>p2ab_init\<close>, on the
  BAR. The result is the descriptor the context keeps.
\<close>

definition p2ab_open ::
  "'s pci_os \<Rightarrow> (int \<Rightarrow> ('s, int) state) \<Rightarrow> ('s, int) state \<Rightarrow> ('s, int) state \<Rightarrow> u16 \<Rightarrow> u16 \<Rightarrow>
   ('s, int + int) state" where
  "p2ab_open os map_bar unmap_bar start vid did = do {
     fd \<leftarrow> pci_open os vid did AST_MMIO_BAR;
     (if fd < 0 then ret (Inl fd)
      else do {
        rc \<leftarrow> map_bar fd;
        (if rc < 0 then do { _ \<leftarrow> pci_close os fd; ret (Inl rc) }
         else do {
           rc \<leftarrow> start;
           (if rc < 0 then do { _ \<leftarrow> unmap_bar; _ \<leftarrow> pci_close os fd; ret (Inl rc) }
            else ret (Inr fd)) }) }) }"

definition p2ab_destroy ::
  "'s pci_os \<Rightarrow> ('s, int) state \<Rightarrow> ('s, int) state \<Rightarrow> int \<Rightarrow> ('s, int option) state" where
  "p2ab_destroy os unmap_bar lock fd = do {
     rc \<leftarrow> lock;
     (if rc < 0 then ret (Some rc)
      else do {
        rc \<leftarrow> unmap_bar;
        (if rc < 0 then ret (Some rc) else pci_close os fd) }) }"

section \<open>One access\<close>

text \<open>The standard streams: reading, writing and the line that shows a word.\<close>

record 's stdio =
  io_read :: "nat \<Rightarrow> ('s, int + u8 list) state"
  io_write :: "u8 list \<Rightarrow> ('s, int) state"
  io_print :: "u32 \<Rightarrow> u32 \<Rightarrow> ('s, unit) state"

abbreviation EXIT_FAILURE :: int where "EXIT_FAILURE \<equiv> 1"

definition ast_ahb_access :: "'s stdio \<Rightarrow> ast_ahb_args \<Rightarrow> 's ahb \<Rightarrow> ('s, int + int) act" where
  "ast_ahb_access io args ahb =
     (let exit_on = (\<lambda>m. act_bind m (\<lambda>rc. act_ret (if rc \<noteq> 0 then Inl EXIT_FAILURE else Inr 0)))
      in if aa_read args
         then (let len = (case aa_read_length args of None \<Rightarrow> 4 | Some n \<Rightarrow> n)
               in if len > 4
                  then exit_on (ahb_siphon_out ahb (io_write io) (aa_address args) (uint len))
                  else act_bind (act_run (ahb_readl ahb (aa_address args))) (\<lambda>r. case r of
                         Inl rc \<Rightarrow> act_ret (Inl EXIT_FAILURE)
                       | Inr val \<Rightarrow> act_bind (act_run (io_print io (aa_address args) val)) (\<lambda>_. act_ret (Inr 0))))
         else (case aa_write_value args of
                 Some v \<Rightarrow> exit_on (act_run (ahb_writel ahb (aa_address args) v))
               | None \<Rightarrow> exit_on (ahb_siphon_in ahb (io_read io) (aa_address args) (- 1))))"

section \<open>The commands\<close>

text \<open>
  The three commands over a bridge on the host: opening it, the access and closing it. \<open>'c\<close> is
  the context of the bridge, and \<open>None\<close> from closing a failed assertion.
\<close>

record ('s, 'c) bridge_ctx =
  bc_init :: "('s, int + 'c) state"
  bc_ahb :: "'c \<Rightarrow> 's ahb"
  bc_destroy :: "'c \<Rightarrow> ('s, int option) state"

definition with_bridge ::
  "('s, 'c) bridge_ctx \<Rightarrow> 's stdio \<Rightarrow> ast_ahb_args \<Rightarrow> (int \<Rightarrow> int \<Rightarrow> int) \<Rightarrow> ('s, int + int) act" where
  "with_bridge b io args result =
     act_bind (act_run (bc_init b)) (\<lambda>r. case r of
       Inl rc \<Rightarrow> act_ret (Inr rc)
     | Inr c \<Rightarrow> act_bind (ast_ahb_access io args (bc_ahb b c)) (\<lambda>r. case r of
         Inl st \<Rightarrow> act_ret (Inl st)
       | Inr rc \<Rightarrow>
           if rc \<noteq> 0 then act_ret (Inr rc)
           else act_bind (act_run (bc_destroy b c)) (\<lambda>cleanup. case cleanup of
                  None \<Rightarrow> act_stuck
                | Some cl \<Rightarrow> act_ret (Inr (if cl \<noteq> 0 then result cl rc else 0)))))"

definition do_p2a ::
  "(u16 \<Rightarrow> ('s, 'c) bridge_ctx) \<Rightarrow> 's stdio \<Rightarrow> argp_event list \<Rightarrow> ('s, int + int) act" where
  "do_p2a p2a io argv =
     (case argp_parse cmd_p2a_parse_opt argv 0 \<lparr>p2a_ahb_args = no_access, p2a_device_id = 0\<rparr> of
        argp_exit st \<Rightarrow> act_ret (Inl st)
      | argp_args a \<Rightarrow> with_bridge (p2a (p2a_device_id a)) io (p2a_ahb_args a) (\<lambda>cleanup rc. cleanup))"

definition do_ilpc :: "('s, 'c) bridge_ctx \<Rightarrow> 's stdio \<Rightarrow> argp_event list \<Rightarrow> ('s, int + int) act" where
  "do_ilpc ilpc io argv =
     (case argp_parse cmd_ilpc_parse_opt argv 0 no_access of
        argp_exit st \<Rightarrow> act_ret (Inl st)
      | argp_args a \<Rightarrow> with_bridge ilpc io a (\<lambda>cleanup rc. rc))"

definition do_devmem :: "('s, 'c) bridge_ctx \<Rightarrow> 's stdio \<Rightarrow> argp_event list \<Rightarrow> ('s, int + int) act" where
  "do_devmem dm io argv =
     (case argp_parse cmd_devmem_parse_opt argv 0 no_access of
        argp_exit st \<Rightarrow> act_ret (Inl st)
      | argp_args a \<Rightarrow> with_bridge dm io a (\<lambda>cleanup rc. cleanup))"

text \<open>\<open>db_ahb\<close> is the bridge of the context, whose accesses may not return.\<close>

definition do_debug ::
  "('s, 'b) host_driver list \<Rightarrow> (int \<Rightarrow> connection_args \<Rightarrow> ('s, int + 's debug) act) \<Rightarrow>
   (ast_ahb_args \<Rightarrow> 's debug \<Rightarrow> ('s, int + int) act) \<Rightarrow> string list \<Rightarrow> argp_event list \<Rightarrow>
   ('s, int + int) act" where
  "do_debug drivers init acc argv events =
     (case argp_parse (cmd_debug_parse_opt drivers argv) events 0
             \<lparr>dbg_connection = no_connection, dbg_ahb_args = no_access, dbg_force_quit = False\<rparr> of
        argp_exit st \<Rightarrow> act_ret (Inl st)
      | argp_args a \<Rightarrow>
          act_bind (init (if dbg_force_quit a then 1 else 0) (dbg_connection a)) (\<lambda>r. case r of
            Inl rc \<Rightarrow> act_ret (Inr rc)
          | Inr ctx \<Rightarrow> act_bind (debug_enter ctx) (\<lambda>rc.
              let destroy = (\<lambda>rc. act_bind (debug_destroy ctx) (\<lambda>_. act_ret (Inr rc)))
              in if rc < 0 then destroy rc
                 else act_bind (acc (dbg_ahb_args a) ctx) (\<lambda>r. case r of
                        Inl st \<Rightarrow> act_ret (Inl st)
                      | Inr rc \<Rightarrow>
                          if rc \<noteq> 0 then act_ret (Inr rc)
                          else act_bind (debug_exit ctx) (\<lambda>_. destroy rc)))))"

section \<open>The p2a command on a system\<close>

text \<open>
  A system with PCI functions and the P2A device on the VGA or the BMC function: the state is
  the bridge next to the words that were printed.
\<close>

type_synonym 't p2a_proc = "'t p2a_hw p2ab \<times> (u32 \<times> u32) list"

definition static_pci :: "(dirent \<times> string \<times> string) list \<Rightarrow> 's pci_os" where
  "static_pci fns = \<lparr>
     pc_devices = ret (Inr (map fst fns)),
     pc_read = (\<lambda>f n. ret (map_option (take n) (map_of (concat (map (\<lambda>(de, v, d).
       [(de_name de @ ''/vendor'', v), (de_name de @ ''/device'', d)]) fns)) f))),
     pc_open = (\<lambda>f. ret 3),
     pc_close = (\<lambda>fd. ret 0) \<rparr>"

definition p2a_ctx ::
  "(dirent \<times> string \<times> string) list \<Rightarrow> 't target \<Rightarrow> u16 \<Rightarrow> ('t p2a_proc, int) bridge_ctx" where
  "p2a_ctx fns tgt did = \<lparr>
     bc_init = p2ab_open (static_pci fns) (\<lambda>fd. ret 0) (ret 0) (beside (p2ab_init (p2a_mmio tgt))) AST_PCI_VID did,
     bc_ahb = (\<lambda>fd. \<lparr>ahb_drv = \<lparr>drv_name = ''p2a'', drv_release = None, drv_reinit = None,
       drv_path_required = False, drv_local = False, drv_disabled = False\<rparr>,
       ahb_ops = ops_beside (p2ab_ahb_ops (p2a_mmio tgt) 0)\<rparr>),
     bc_destroy = p2ab_destroy (static_pci fns) (ret 0)
       (beside (do { r \<leftarrow> p2ab_lock (p2a_mmio tgt); ret (the r) })) \<rparr>"

definition print_io :: "('s \<times> (u32 \<times> u32) list) stdio" where
  "print_io = \<lparr>io_read = (\<lambda>n. ret (Inr [])), io_write = (\<lambda>bs. ret (int (length bs))),
     io_print = (\<lambda>a v. modify (\<lambda>p. (fst p, snd p @ [(a, v)])))\<rparr>"

definition bmc_functions :: "(dirent \<times> string \<times> string) list" where
  "bmc_functions =
     [(\<lparr>de_name = ''0000:00:00.0'', de_is_link = True\<rparr>, ''0x8086'', ''0x2000''),
      (\<lparr>de_name = ''0000:02:00.0'', de_is_link = True\<rparr>, ''0x1a03'', ''0x2000''),
      (\<lparr>de_name = ''0000:02:00.1'', de_is_link = True\<rparr>, ''0x1a03'', ''0x2402'')]"

lemma sysfs_ids [simp]:
  "strtol16 (c_str ''0x8086'') = 0x8086" "strtol16 (c_str ''0x1a03'') = 0x1a03"
  "strtol16 (c_str ''0x2000'') = 0x2000" "strtol16 (c_str ''0x2402'') = 0x2402"
  by (simp_all add: strtol16_def c_str_def split_sign_def is_space_def skip_0x_def hexval_def hex_number_def of_char_def)

definition pci_has :: "(dirent \<times> string \<times> string) list \<Rightarrow> u16 \<Rightarrow> bool" where
  "pci_has fns did \<longleftrightarrow> (\<forall>s :: unit. fst (run_state (pci_open (static_pci fns) AST_PCI_VID did AST_MMIO_BAR) s) = 3)"

lemma run_read_sysfs_id:
  "run_state (read_sysfs_id (static_pci fns) f) s =
    (fst (run_state (read_sysfs_id (static_pci fns) f) ()), s)"
  by (simp add: read_sysfs_id_def static_pci_def Let_def split: option.split)

lemma run_pci_find:
  "run_state (pci_find (static_pci fns) vid did des) s =
    (fst (run_state (pci_find (static_pci fns) vid did des) ()), s)"
proof (induction des)
  case (Cons de des)
  show ?case
    using run_read_sysfs_id [of fns "de_name de @ ''/vendor''" s]
      run_read_sysfs_id [of fns "de_name de @ ''/device''" s] Cons by simp
qed simp

lemma run_pci_open:
  "run_state (pci_open (static_pci fns) vid did bar) s =
    (fst (run_state (pci_open (static_pci fns) vid did bar) ()), s)"
  using run_pci_find [of fns vid did "map fst fns" s]
  by (simp add: pci_open_def val_then_def static_pci_def [of fns] split: option.split)

lemma pci_has_open: "pci_has fns did \<Longrightarrow> run_state (pci_open (static_pci fns) AST_PCI_VID did AST_MMIO_BAR) s = (3, s)"
  using run_pci_open [of fns AST_PCI_VID did AST_MMIO_BAR s] by (simp add: pci_has_def)

lemma bmc_functions_found: "pci_has bmc_functions AST_PCI_DID_VGA" "pci_has bmc_functions AST_PCI_DID_BMC"
  by (simp_all add: pci_has_def pci_open_def val_then_def static_pci_def bmc_functions_def
      read_sysfs_id_def AST_PCI_VID_def AST_PCI_DID_VGA_def AST_PCI_DID_BMC_def)

lemma p2ab_init_run:
  fixes s :: "'t p2a_hw p2ab"
  shows "fst (run_state (p2ab_init (p2a_mmio tgt)) s) = 0"
    and "p2a_ok (snd (run_state (p2ab_init (p2a_mmio tgt)) s))"
    and "ph_bus (p2_hw (snd (run_state (p2ab_init (p2a_mmio tgt)) s))) = ph_bus (p2_hw s)"
  using p2a.rbar_st32 [OF _ refl, of 0 tgt "p2_hw s"]
    p2a.pkr_st32 [OF refl, of tgt 1 "snd (run_state (mm_st32 (p2a_mmio tgt) P2AB_RBAR 0) (p2_hw s))"]
  by (simp_all add: p2ab_init_def p2ab_unlock_def p2a_inv_def)

lemma p2ab_lock_run:
  "fst (run_state (p2ab_lock (p2a_mmio tgt)) s) = Some 0"
  "ph_bus (p2_hw (snd (run_state (p2ab_lock (p2a_mmio tgt)) s))) = ph_bus (p2_hw s)"
  "\<not> ph_open (p2_hw (snd (run_state (p2ab_lock (p2a_mmio tgt)) s)))"
  using p2a.pkr_st32 [OF refl, of tgt 0 "p2_hw s"] by (simp_all add: p2ab_lock_def)

text \<open>A command over the bridge: opened, one access, closed.\<close>

lemma p2a_with_bridge:
  fixes s :: "'t p2a_hw p2ab"
  assumes "pci_has fns did"
    and acc: "\<And>s1. p2a_ok s1 \<Longrightarrow> ph_bus (p2_hw s1) = ph_bus (p2_hw s) \<Longrightarrow> \<exists>s2 out'.
      ast_ahb_access print_io args (bc_ahb (p2a_ctx fns tgt did) 3) (s1, out) = Some (Inr 0, (s2, out')) \<and>
      ph_bus (p2_hw s2) = t \<and> out' = out @ printed"
  shows "\<exists>s'. with_bridge (p2a_ctx fns tgt did) print_io args res (s, out) = Some (Inr 0, (s', out @ printed)) \<and>
    ph_bus (p2_hw s') = t \<and> \<not> ph_open (p2_hw s')"
proof -
  let ?s1 = "snd (run_state (p2ab_init (p2a_mmio tgt)) s)"
  have "bc_init (p2a_ctx fns tgt did) =
      p2ab_open (static_pci fns) (\<lambda>fd. ret 0) (ret 0) (beside (p2ab_init (p2a_mmio tgt))) AST_PCI_VID did"
    by (simp add: p2a_ctx_def)
  then have init: "run_state (bc_init (p2a_ctx fns tgt did)) (s, out) = (Inr 3, (?s1, out))"
    using pci_has_open [OF assms(1), of "(s, out)"] p2ab_init_run(1) [of tgt s] by (simp add: p2ab_open_def)
  obtain s2 where s2: "ast_ahb_access print_io args (bc_ahb (p2a_ctx fns tgt did) 3) (?s1, out) =
      Some (Inr 0, (s2, out @ printed))" "ph_bus (p2_hw s2) = t"
    using acc [OF p2ab_init_run(2) p2ab_init_run(3)] by blast
  let ?s3 = "snd (run_state (p2ab_lock (p2a_mmio tgt)) s2)"
  have "run_state (bc_destroy (p2a_ctx fns tgt did) 3) (s2, out @ printed) = (Some 0, (?s3, out @ printed))"
    using p2ab_lock_run(1) [of tgt s2]
    by (simp add: p2a_ctx_def p2ab_destroy_def pci_close_def static_pci_def)
  then have "with_bridge (p2a_ctx fns tgt did) print_io args res (s, out) = Some (Inr 0, (?s3, out @ printed))"
    using init s2(1) by (simp add: with_bridge_def)
  then show ?thesis using p2ab_lock_run(2,3) [of tgt s2] s2(2) by auto
qed

lemma p2a_access_read:
  assumes "p2a_ok s" "word_aligned a"
  shows "\<exists>s2. ast_ahb_access print_io \<lparr>aa_read_length = None, aa_write_value = w, aa_address = a, aa_read = True\<rparr>
      (bc_ahb (p2a_ctx fns tgt did) 3) (s, out) =
      Some (Inr 0, (s2, out @ [(a, fst (run_state (tgt_ld32 tgt a) (ph_bus (p2_hw s))))])) \<and>
    ph_bus (p2_hw s2) = snd (run_state (tgt_ld32 tgt a) (ph_bus (p2_hw s)))"
  using p2a_dev.readl_val [of "(s, out)" a tgt] p2a_dev.readl_bus [of "(s, out)" a tgt] assms
  by (simp add: ast_ahb_access_def p2a_ctx_def ahb_readl_def print_io_def ops_beside_def Let_def)

lemma p2a_access_write:
  assumes "p2a_ok s" "word_aligned a"
  shows "\<exists>s2. ast_ahb_access print_io \<lparr>aa_read_length = l, aa_write_value = Some v, aa_address = a, aa_read = False\<rparr>
      (bc_ahb (p2a_ctx fns tgt did) 3) (s, out) = Some (Inr 0, (s2, out)) \<and>
    ph_bus (p2_hw s2) = snd (run_state (tgt_st32 tgt a v) (ph_bus (p2_hw s)))"
  using p2a_dev.writel_rc [of "(s, out)" a tgt v] p2a_dev.writel_bus [of "(s, out)" a tgt v] assms
  by (simp add: ast_ahb_access_def p2a_ctx_def ahb_writel_def print_io_def ops_beside_def Let_def)

text \<open>The command line of a read and of a write.\<close>

definition hex_arg :: "u32 \<Rightarrow> string" where
  "hex_arg v = ''0x'' @ hex_str (unat v)"

lemma p2a_line_read:
  assumes "(dev, did) \<in> {(''vga'', AST_PCI_DID_VGA), (''bmc'', AST_PCI_DID_BMC)}"
  shows "argp_parse cmd_p2a_parse_opt (words [dev, ''read'', hex_arg a]) 0
      \<lparr>p2a_ahb_args = no_access, p2a_device_id = 0\<rparr> =
    argp_args \<lparr>p2a_ahb_args = \<lparr>aa_read_length = None, aa_write_value = None, aa_address = a, aa_read = True\<rparr>,
      p2a_device_id = did\<rparr>"
  using assms by (auto simp: words_def cmd_p2a_parse_opt_def argp_check_def no_access_def hex_arg_def
      end_p2a_def numeral_eq_Suc)

lemma p2a_line_write:
  assumes "(dev, did) \<in> {(''vga'', AST_PCI_DID_VGA), (''bmc'', AST_PCI_DID_BMC)}"
  shows "argp_parse cmd_p2a_parse_opt (words [dev, ''write'', hex_arg a, hex_arg v]) 0
      \<lparr>p2a_ahb_args = no_access, p2a_device_id = 0\<rparr> =
    argp_args \<lparr>p2a_ahb_args = \<lparr>aa_read_length = None, aa_write_value = Some v, aa_address = a, aa_read = False\<rparr>,
      p2a_device_id = did\<rparr>"
  using assms by (auto simp: words_def cmd_p2a_parse_opt_def argp_check_def no_access_def hex_arg_def
      end_p2a_def numeral_eq_Suc)

text \<open>
  Claim C12. The \<open>p2a\<close> command from its words to the bus: on a system that has the PCI function
  named, \<open>read\<close> with an aligned address in hexadecimal prints exactly the word a load of that bus
  address gives, \<open>write\<close> is exactly one store of the value, both return 0, print nothing else, and
  leave the bridge closed.
\<close>

theorem p2a_command:
  fixes s :: "'t p2a_hw p2ab"
  assumes "(dev, did) \<in> {(''vga'', AST_PCI_DID_VGA), (''bmc'', AST_PCI_DID_BMC)}"
    and "pci_has fns did" "word_aligned a"
  shows "\<exists>s1 s2.
    do_p2a (p2a_ctx fns tgt) print_io (words [dev, ''read'', hex_arg a]) (s, out) =
      Some (Inr 0, (s1, out @ [(a, fst (run_state (tgt_ld32 tgt a) (ph_bus (p2_hw s))))])) \<and>
    ph_bus (p2_hw s1) = snd (run_state (tgt_ld32 tgt a) (ph_bus (p2_hw s))) \<and> \<not> ph_open (p2_hw s1) \<and>
    do_p2a (p2a_ctx fns tgt) print_io (words [dev, ''write'', hex_arg a, hex_arg v]) (s, out) =
      Some (Inr 0, (s2, out)) \<and>
    ph_bus (p2_hw s2) = snd (run_state (tgt_st32 tgt a v) (ph_bus (p2_hw s))) \<and> \<not> ph_open (p2_hw s2)"
proof -
  let ?r = "\<lparr>aa_read_length = None, aa_write_value = None, aa_address = a, aa_read = True\<rparr>"
  let ?w = "\<lparr>aa_read_length = None, aa_write_value = Some v, aa_address = a, aa_read = False\<rparr>"
  have "\<exists>s1. with_bridge (p2a_ctx fns tgt did) print_io ?r (\<lambda>cleanup rc. cleanup) (s, out) =
      Some (Inr 0, (s1, out @ [(a, fst (run_state (tgt_ld32 tgt a) (ph_bus (p2_hw s))))])) \<and>
    ph_bus (p2_hw s1) = snd (run_state (tgt_ld32 tgt a) (ph_bus (p2_hw s))) \<and> \<not> ph_open (p2_hw s1)"
    by (rule p2a_with_bridge [OF assms(2)])
      (use p2a_access_read [OF _ assms(3)] in \<open>fastforce\<close>)
  moreover have "\<exists>s2. with_bridge (p2a_ctx fns tgt did) print_io ?w (\<lambda>cleanup rc. cleanup) (s, out) =
      Some (Inr 0, (s2, out @ [])) \<and>
    ph_bus (p2_hw s2) = snd (run_state (tgt_st32 tgt a v) (ph_bus (p2_hw s))) \<and> \<not> ph_open (p2_hw s2)"
    by (rule p2a_with_bridge [OF assms(2)])
      (use p2a_access_write [OF _ assms(3)] in \<open>fastforce\<close>)
  ultimately show ?thesis
    by (auto simp: do_p2a_def p2a_line_read [OF assms(1)] p2a_line_write [OF assms(1)])
qed

theorem p2a_command_witness:
  "\<exists>s1. do_p2a (p2a_ctx bmc_functions (regfile plain_eff)) print_io
      (words [''vga'', ''read'', hex_arg 0x1e6e2004]) (p2a_start (\<lambda>a. a + 1), []) =
    Some (Inr 0, (s1, [(0x1e6e2004, 0x1e6e2005)]))"
proof -
  have "word_aligned 0x1e6e2004" by (simp add: word_aligned_def)
  from p2a_command [of "''vga''" AST_PCI_DID_VGA, OF _ bmc_functions_found(1) this,
      of "regfile plain_eff" "p2a_start (\<lambda>a. a + 1)" "[]" 0]
  show ?thesis by auto
qed

text \<open>
  The check for a missing value counts the words after \<open>via\<close> too: a write through the debug UART
  without a value is accepted, and takes its data from the standard input.
\<close>

theorem debug_write_without_value:
  "case argp_parse (cmd_debug_parse_opt example_drivers
          [''debug'', ''write'', ''0x1e6e2000'', ''via'', ''debug-uart'', ''/dev/ttyUSB0''])
        (words [''write'', ''0x1e6e2000'', ''via'', ''debug-uart'', ''/dev/ttyUSB0'']) 0
        \<lparr>dbg_connection = no_connection, dbg_ahb_args = no_access, dbg_force_quit = False\<rparr> of
     argp_exit st \<Rightarrow> False
   | argp_args a \<Rightarrow> \<not> aa_read (dbg_ahb_args a) \<and> aa_write_value (dbg_ahb_args a) = None"
  by (simp add: words_def cmd_debug_parse_opt_def parse_debug_def parse_via_def cmd_parse_via_def
      get_bridge_driver_def example_drivers_def argp_check_def no_access_def no_connection_def end_access_def
      numeral_eq_Suc)

end
