(* ===== verification/Session.thy ===== *)
theory Session
  imports Access
begin

text \<open>
  What the handlers under \<^verbatim>\<open>src/cmd\<close> have in common: acquiring a bridge, probing the system
  behind it, the command itself, and giving everything back. The property is what this frame
  gives back on each of its ways out.
\<close>

section \<open>The frame of a command\<close>

text \<open>
  \<open>se_ahb\<close> follows the handle of a bridge; \<open>se_probe\<close> is \<open>soc_probe\<close> with the drivers bound
  and \<open>se_destroy\<close> is \<open>soc_destroy\<close>, over the state of the whole program. The statuses a command
  makes of a failing \<open>host_init\<close>, of no bridge and of a failing \<open>soc_probe\<close> are arguments;
  \<open>Inl\<close> is a call of \<open>exit\<close>. A body gives its status and whether it goes through the
  cleanup.
\<close>

record ('s, 'a) session =
  se_drivers :: "('s, 'a) host_driver list"
  se_ahb :: "'a \<Rightarrow> 's ahb"
  se_probe :: "'s ahb \<Rightarrow> ('s, int + 's soc) state"
  se_destroy :: "'s soc \<Rightarrow> ('s, unit) state"
  se_junk :: int

definition with_soc ::
  "('s, 'a) session \<Rightarrow> connection_args \<Rightarrow> (int \<Rightarrow> int + int) \<Rightarrow> int \<Rightarrow> (int \<Rightarrow> int) \<Rightarrow>
   ('s ahb \<Rightarrow> 's soc \<Rightarrow> ('s, int \<times> bool) act) \<Rightarrow> ('s, int + int) act" where
  "with_soc se c host_rc ahb_rc soc_rc body =
     act_bind (act_run (host_init (se_drivers se) c (se_junk se))) (\<lambda>(rc, host).
       if rc < 0 then act_ret (host_rc rc)
       else let leave = (\<lambda>rc. act_bind (act_run (host_destroy (se_drivers se) host)) (\<lambda>_. act_ret (Inr rc)))
            in case host_get_ahb host of
                 None \<Rightarrow> leave ahb_rc
               | Some a \<Rightarrow>
                   act_bind (act_run (se_probe se (se_ahb se a))) (\<lambda>r. case r of
                     Inl rc \<Rightarrow> leave (soc_rc rc)
                   | Inr soc \<Rightarrow>
                       act_bind (body (se_ahb se a) soc) (\<lambda>(rc, cleanup).
                         if cleanup
                         then act_bind (act_run (se_destroy se soc)) (\<lambda>_. leave rc)
                         else act_ret (Inr rc))))"

text \<open>A body whose every path goes through the cleanup.\<close>

definition tidy :: "('s, int) act \<Rightarrow> ('s, int \<times> bool) act" where
  "tidy m = act_bind m (\<lambda>rc. act_ret (rc, True))"

lemma tidy_run [simp]: "m s = Some r \<Longrightarrow> tidy m s = Some ((fst r, True), snd r)"
  by (simp add: tidy_def)

text \<open>
  The frame around a body: \<open>acquires\<close> is a session that gets as far as the system, \<open>released\<close>
  its state after the cleanup.
\<close>

definition acquires ::
  "('s, 'a) session \<Rightarrow> connection_args \<Rightarrow> 's \<Rightarrow> 'a host \<Rightarrow> 'a \<Rightarrow> 's soc \<Rightarrow> 's \<Rightarrow> bool" where
  "acquires se c s host a soc s2 \<longleftrightarrow>
     (\<exists>s1. run_state (host_init (se_drivers se) c (se_junk se)) s = ((0, host), s1) \<and>
       host_get_ahb host = Some a \<and> run_state (se_probe se (se_ahb se a)) s1 = (Inr soc, s2))"

definition released :: "('s, 'a) session \<Rightarrow> 'a host \<Rightarrow> 's soc \<Rightarrow> 's \<Rightarrow> 's" where
  "released se host soc s =
     snd (run_state (host_destroy (se_drivers se) host) (snd (run_state (se_destroy se soc) s)))"

lemma with_soc_acquired:
  assumes "acquires se c s host a soc s1" "body (se_ahb se a) soc s1 = Some ((rc, True), s2)"
  shows "with_soc se c h r p body s = Some (Inr rc, released se host soc s2)"
  using assms by (auto simp: acquires_def released_def with_soc_def Let_def split_def)

section \<open>Recorded sessions\<close>

text \<open>A step that leaves the record alone, and a session whose end is recorded.\<close>

definition quiet :: "('s \<times> 'e list, 'b) state \<Rightarrow> bool" where
  "quiet m \<longleftrightarrow> (\<forall>t. snd (snd (run_state m t)) = snd t)"

definition recorded :: "('s \<times> 'a host_event list, 'a) session \<Rightarrow> ('s, 'a) host_driver list \<Rightarrow> bool" where
  "recorded se drivers \<longleftrightarrow> se_drivers se = traced_all drivers \<and> (\<forall>a. quiet (se_probe se a)) \<and>
     (\<forall>soc t. snd (snd (run_state (se_destroy se soc) t)) = snd t @ [Soc_gone])"

lemma host_probe_bridge_rc [simp]: "fst (fst (run_state (host_probe_bridge drivers ctx i c) s)) = 0"
  by (simp add: host_probe_bridge_def split: option.split)

lemma host_probe_all_rc:
  "is \<noteq> [] \<Longrightarrow> fst (fst (run_state (host_probe_all drivers ctx is c rc) s)) = 0"
proof (induction "is" arbitrary: ctx rc s)
  case (Cons i "is")
  let ?r = "run_state (host_probe_bridge drivers ctx i c) s"
  have "run_state (host_probe_all drivers ctx (i # is) c rc) s =
      run_state (host_probe_all drivers (snd (fst ?r)) is c 0) (snd ?r)"
    by (simp add: split_def)
  then show ?case using Cons by (cases "is = []") simp_all
qed simp

lemma host_init_recorded:
  fixes drivers :: "('s, 'a) host_driver list"
  assumes "\<forall>i. ca_bridge_driver c = Some i \<longrightarrow> i < length drivers"
  shows "\<exists>ps rc t'. run_state (host_init (traced_all drivers) c junk) (s, es) =
      ((rc, \<lparr>h_bridges = acquired ps\<rparr>), t') \<and> (rc = 0 \<or> ps = []) \<and>
    snd t' = es @ map (\<lambda>(i, r). Probed i r) ps \<and> (\<forall>(i, a)\<in>set (acquired ps). i < length drivers)"
proof -
  have ok: "\<forall>(i, a)\<in>set (acquired ps). i < length drivers"
    if "\<forall>i\<in>set (map fst ps). i < length drivers" for ps :: "(nat \<times> 'a option) list"
    using that by (force simp: acquired_def split: option.splits)
  show ?thesis
  proof (cases "ca_bridge_driver c")
    case None
    let ?r = "run_state (host_probe_all (traced_all drivers) \<lparr>h_bridges = []\<rparr> [0..<length drivers] c junk) (s, es)"
    obtain ps where ps: "map fst ps = filter (\<lambda>i. \<not> drv_disabled (drivers ! i)) [0..<length drivers]"
      "snd (fst ?r) = \<lparr>h_bridges = acquired ps\<rparr>" "snd (snd ?r) = es @ map (\<lambda>(i, r). Probed i r) ps"
      using host_probe_all_traced [of "[0..<length drivers]" drivers "\<lparr>h_bridges = []\<rparr>" c junk "(s, es)"]
      by (auto simp: Let_def)
    have i: "\<forall>i\<in>set (map fst ps). i < length drivers" unfolding ps(1) by simp
    have rc: "fst (fst ?r) = 0 \<or> ps = []"
    proof (cases "drivers = []")
      case True
      then show ?thesis using ps(1) by simp
    next
      case False
      then have "[0..<length drivers] \<noteq> []" by simp
      then show ?thesis by (intro disjI1 host_probe_all_rc)
    qed
    show ?thesis
      by (rule exI [of _ ps], rule exI [of _ "fst (fst ?r)"], rule exI [of _ "snd ?r"])
        (use ps(2,3) rc ok [OF i] None in \<open>simp add: host_init_def Let_def prod_eq_iff\<close>)
  next
    case (Some i)
    then have i: "i < length drivers" using assms by blast
    obtain ps where ps: "map fst ps = (if drv_disabled (drivers ! i) then [] else [i])"
      "run_state (host_probe_bridge (traced_all drivers) \<lparr>h_bridges = []\<rparr> i c) (s, es) =
        ((0, \<lparr>h_bridges = acquired ps @ []\<rparr>),
         snd (run_state (host_probe_bridge drivers \<lparr>h_bridges = []\<rparr> i c) s),
         es @ map (\<lambda>(i, r). Probed i r) ps)"
      using host_probe_traced [OF i, of "\<lparr>h_bridges = []\<rparr>" c "(s, es)"] by auto
    have "\<forall>i\<in>set (map fst ps). i < length drivers" unfolding ps(1) using i by simp
    from ok [OF this] ps(2) Some show ?thesis
      by (intro exI [of _ ps]) (simp add: host_init_def Let_def)
  qed
qed

text \<open>
  Claim C5. What the frame of the commands gives back, for any drivers and any system, whose calls
  are recorded, and any body. Without a bridge there is nothing, and the status is that of a
  failing \<open>host_init\<close> or of no bridge. After a failing \<open>soc_probe\<close> every bridge acquired is destroyed
  once, the last first. After a body that goes through the cleanup the system is ended first,
  once, and then the bridges are destroyed so. After a body that returns past the cleanup, as
  the one of \<^verbatim>\<open>write firmware\<close> does when its reset fails, neither is given back. The
  status is the body's in both cases, and a body that does not return leaves the frame waiting.
\<close>

theorem session_releases:
  fixes drivers :: "('s, 'a) host_driver list"
  assumes "recorded se drivers" "\<forall>i. ca_bridge_driver c = Some i \<longrightarrow> i < length drivers"
  shows "\<exists>ps rc t. run_state (host_init (se_drivers se) c (se_junk se)) (s, []) = ((rc, \<lparr>h_bridges = acquired ps\<rparr>), t) \<and>
    snd t = map (\<lambda>(i, r). Probed i r) ps \<and>
    (let run = with_soc se c host_rc ahb_rc soc_rc body (s, []);
         bridges = map (\<lambda>(i, a). Destroyed i a) (acquired ps)
     in case acquired ps of
       [] \<Rightarrow> run = Some (if rc < 0 then host_rc rc else Inr ahb_rc, t)
     | (i, a) # _ \<Rightarrow> (case run_state (se_probe se (se_ahb se a)) t of
         (Inl e, t1) \<Rightarrow> \<exists>t'. run = Some (Inr (soc_rc e), t') \<and> snd t' = snd t @ bridges
       | (Inr soc, t1) \<Rightarrow> (case body (se_ahb se a) soc t1 of
           None \<Rightarrow> run = None
         | Some ((brc, cleanup), t2) \<Rightarrow>
             \<exists>t'. run = Some (Inr brc, t') \<and> snd t' = snd t2 @ (if cleanup then Soc_gone # bridges else []))))"
    (is "\<exists>ps rc t. ?acquired ps rc t \<and> ?probes ps t \<and> ?returned ps rc t")
proof -
  have drv: "se_drivers se = traced_all drivers" and probe: "\<And>a t. snd (snd (run_state (se_probe se a) t)) = snd t"
    and destroy: "\<And>soc t. snd (snd (run_state (se_destroy se soc) t)) = snd t @ [Soc_gone]"
    using assms(1) unfolding recorded_def quiet_def by blast+
  obtain ps rc t where init: "run_state (host_init (traced_all drivers) c (se_junk se)) (s, []) =
      ((rc, \<lparr>h_bridges = acquired ps\<rparr>), t)" "rc = 0 \<or> ps = []" "snd t = map (\<lambda>(i, r). Probed i r) ps"
      "\<forall>(i, a)\<in>set (acquired ps). i < length drivers"
    using host_init_recorded [OF assms(2), of "se_junk se" s "[]"] by auto
  note leave = host_destroy_traced [OF init(4)]
  show ?thesis
  proof (intro exI [of _ ps] exI [of _ rc] exI [of _ t] conjI)
    show "?returned ps rc t"
    proof (cases "acquired ps")
      case Nil
      then show ?thesis using init(1) drv
        by (simp add: with_soc_def host_get_ahb_def host_destroy_def)
    next
      case (Cons b bs)
      obtain i a where b: "b = (i, a)" by fastforce
      have rc: "rc = 0" using init(2) Cons by auto
      obtain x t1 where x: "run_state (se_probe se (se_ahb se a)) t = (x, t1)" "snd t1 = snd t"
        using probe [of "se_ahb se a" t] by (metis prod.collapse)
      show ?thesis
        using init(1) Cons b rc x drv leave [of t1] leave destroy
        by (cases x; cases "case x of Inr soc \<Rightarrow> body (se_ahb se a) soc t1")
          (auto simp: with_soc_def host_get_ahb_def host_destroy_def split_def)
    qed
  qed (use init drv in auto)
qed

definition example_session :: "(nat \<times> nat host_event list, nat) session" where
  "example_session = \<lparr>
     se_drivers = traced_all example_drivers,
     se_ahb = (\<lambda>a. \<lparr>ahb_drv = \<lparr>drv_name = ''p2a'', drv_release = None, drv_reinit = None,
       drv_path_required = False, drv_local = False, drv_disabled = False\<rparr>,
       ahb_ops = \<lparr>ops_read = (\<lambda>a n. ret (Inr [])), ops_write = (\<lambda>a bs. ret 0), ops_readl = (\<lambda>a. ret (Inr 0)),
         ops_writel = (\<lambda>a v. ret 0)\<rparr>\<rparr>),
     se_probe = (\<lambda>ahb. ret (Inr \<lparr>soc_rev = 0x04030303, soc_fdt = example_fdt, soc_ahb = ahb\<rparr>)),
     se_destroy = (\<lambda>soc. emit Soc_gone),
     se_junk = 0 \<rparr>"

text \<open>A body that cleans up and one that does not, on a host with two drivers of which one finds a bridge.\<close>

theorem session_releases_witness:
  "(\<exists>t. with_soc example_session no_connection Inr 1 (\<lambda>rc. rc) (\<lambda>ahb soc. tidy (act_ret 7)) (0, []) = Some (Inr 7, t) \<and>
     snd t = [Probed 1 (Some 8), Probed 2 None, Soc_gone, Destroyed 1 8]) \<and>
   (\<exists>t. with_soc example_session no_connection Inr 1 (\<lambda>rc. rc) (\<lambda>ahb soc. act_ret (7, False)) (0, []) = Some (Inr 7, t) \<and>
     snd t = [Probed 1 (Some 8), Probed 2 None])"
proof -
  have 1: "recorded example_session example_drivers"
    by (simp add: recorded_def example_session_def quiet_def)
  have 2: "\<forall>i. ca_bridge_driver no_connection = Some i \<longrightarrow> i < length example_drivers"
    by (simp add: no_connection_def)
  have e: "snd (snd (run_state (host_init (se_drivers example_session) no_connection (se_junk example_session)) (0, []))) =
      [Probed 1 (Some 8), Probed 2 None]" by code_simp
  have ps: "acquired ps = [(1, 8)]" if "map (\<lambda>(i, r). Probed i r) ps = [Probed 1 (Some 8), Probed 2 None]"
    for ps :: "(nat \<times> nat option) list"
    using that by (auto simp: map_eq_Cons_conv acquired_def)
  have probe: "run_state (se_probe example_session ahb) t =
      (Inr \<lparr>soc_rev = 0x04030303, soc_fdt = example_fdt, soc_ahb = ahb\<rparr>, t)" for ahb t
    by (simp add: example_session_def)
  note run = session_releases [OF 1 2, of 0 Inr 1 "\<lambda>rc. rc"]
  show ?thesis
    using run [of "\<lambda>ahb soc. tidy (act_ret 7)"] run [of "\<lambda>ahb soc. act_ret (7, False)"] e
    by (elim exE conjE) (auto simp: ps probe Let_def)
qed

end
