(* ===== verification/Commands.thy ===== *)
theory Commands
  imports Session Clk Bridges Otp SpiNor Trace UartMux Sdmc
begin

text \<open>
  The commands of \<^verbatim>\<open>src/cmd\<close> that work on one controller of the system: \<^verbatim>\<open>reset\<close>, \<^verbatim>\<open>otp\<close>,
  \<^verbatim>\<open>trace\<close>, \<^verbatim>\<open>sfc\<close>, \<^verbatim>\<open>probe\<close> and \<^verbatim>\<open>coprocessor\<close>, each its parser and its handler in the
  frame of Session.
\<close>

section \<open>What the handlers ask the system for\<close>

text \<open>
  The instances of the drivers, each found by the lookup of Soc or not at all; a flash controller
  is its operations with those for the write protection. Below them the calls of the operating
  system: waiting, the standard streams, what is printed, and for a confirmation the typed text
  and \<open>errno\<close>.
\<close>

record 's sfc_handle =
  sh_ops :: "'s sfc"
  sh_protect_save :: "bool \<Rightarrow> ('s, int + u32) state"
  sh_protect_restore :: "u32 \<Rightarrow> ('s, int) state"
  sh_get_flash :: "('s, int + soc_region) state"

record 's services =
  sv_clk :: "'s soc \<Rightarrow> ('s, 's clk_ops option) state"
  sv_wdt :: "'s soc \<Rightarrow> string \<Rightarrow> ('s, (soc_region \<times> 's clk_ops) option) state"
  sv_wdts :: "soc_region option list"
  sv_otp :: "'s soc \<Rightarrow> ('s, otp option) state"
  sv_trace :: "'s soc \<Rightarrow> ('s, trace option) state"
  sv_sfc :: "'s soc \<Rightarrow> string \<Rightarrow> ('s, 's sfc_handle option) state"
  sv_sdmc :: "'s soc \<Rightarrow> ('s, sdmc option) state"
  sv_scu :: "'s soc \<Rightarrow> ('s, scu option) state"
  sv_scu_put :: "'s soc \<Rightarrow> scu \<Rightarrow> ('s, unit) state"
  sv_vuart :: "'s soc \<Rightarrow> ('s, vuart option) state"
  sv_mux :: "'s soc \<Rightarrow> ('s, uart_mux option) state"
  sv_bridges :: "'s bridgectl list"
  sv_os :: "'s os_clock"
  sv_usleep :: "int \<Rightarrow> ('s, int) state"
  sv_sigwait :: "('s, int) state"
  sv_read :: "nat \<Rightarrow> ('s, int + u8 list) state"
  sv_write :: "u8 list \<Rightarrow> ('s, int) state"
  sv_show_words :: "u32 list \<Rightarrow> ('s, unit) state"
  sv_show :: "string list \<Rightarrow> ('s, unit) state"
  sv_errno :: int
  sv_input :: string

text \<open>An instance, or the status without one.\<close>

definition need ::
  "('s, 'x option) state \<Rightarrow> int \<Rightarrow> ('x \<Rightarrow> ('s, int) act) \<Rightarrow> ('s, int) act" where
  "need m rc k = act_bind (act_run m) (\<lambda>r. case r of None \<Rightarrow> act_ret rc | Some x \<Rightarrow> k x)"

lemma need_run [simp]:
  "need m rc k s = (case fst (run_state m s) of None \<Rightarrow> Some (rc, snd (run_state m s))
     | Some x \<Rightarrow> k x (snd (run_state m s)))"
  by (simp add: need_def split: option.split)

text \<open>The words that hold a connection, in any command: \<open>via\<close>, or the command's own.\<close>

definition via_or ::
  "('s, 'b) host_driver list \<Rightarrow> string list \<Rightarrow> ('a \<Rightarrow> connection_args) \<Rightarrow> (connection_args \<Rightarrow> 'a \<Rightarrow> 'a) \<Rightarrow>
   (nat \<Rightarrow> string \<Rightarrow> 'a \<Rightarrow> 'a argp) \<Rightarrow> nat \<Rightarrow> nat \<Rightarrow> string \<Rightarrow> 'a \<Rightarrow> 'a argp" where
  "via_or drivers argv get put own i n arg a =
     (if arg = ''via'' then argp_bind (parse_via drivers argv i (get a)) (\<lambda>c. argp_args (put c a))
      else own n arg a)"

section \<open>reset\<close>

record cmd_reset_args =
  rs_connection :: connection_args
  rs_wdt :: "string option"

fun parse_reset :: "nat \<Rightarrow> string \<Rightarrow> cmd_reset_args \<Rightarrow> cmd_reset_args argp" where
  "parse_reset 0 arg a = argp_check (arg = ''soc'') (argp_args a)"
| "parse_reset (Suc 0) arg a = argp_args (a\<lparr>rs_wdt := Some arg\<rparr>)"
| "parse_reset n arg a = argp_args a"

definition cmd_reset_parse_opt ::
  "('s, 'b) host_driver list \<Rightarrow> string list \<Rightarrow> cmd_reset_args parser" where
  "cmd_reset_parse_opt drivers argv = \<lparr>
     on_opt = no_options,
     on_word = via_or drivers argv rs_connection (\<lambda>c a. a\<lparr>rs_connection := c\<rparr>) parse_reset,
     on_end = (\<lambda>n a. argp_check (\<not> n < 2) (argp_args a)) \<rparr>"

text \<open>A watchdog that was not named is \<open>NULL\<close>, which its lookup follows.\<close>

definition reset_body :: "'s services \<Rightarrow> cmd_reset_args \<Rightarrow> 's ahb \<Rightarrow> 's soc \<Rightarrow> ('s, int) act" where
  "reset_body sv a ahb soc =
     need (sv_clk sv soc) 0 (\<lambda>clk.
       case rs_wdt a of None \<Rightarrow> act_stuck | Some name \<Rightarrow>
       need (sv_wdt sv soc name) 0 (\<lambda>(io, wclk).
         let enable_arm = (\<lambda>rc. act_bind (act_run (clk_enable clk clk_arm)) (\<lambda>_. act_ret rc));
             reset = act_bind (act_run (wdt_prevent_reset soc (sv_wdts sv))) (\<lambda>rc.
               if rc < 0 then enable_arm rc
               else act_bind (act_run (wdt_perform_reset soc wclk (\<lambda>us. do { _ \<leftarrow> sv_usleep sv us; ret () }) io))
                      (\<lambda>rc. if rc < 0 then enable_arm rc else act_ret rc))
         in if \<not> drv_local (ahb_drv ahb) then act_neg (act_run (clk_disable clk clk_arm)) reset else reset))"

definition do_reset ::
  "('s, 'a) session \<Rightarrow> 's services \<Rightarrow> string list \<Rightarrow> argp_event list \<Rightarrow> ('s, int + int) act" where
  "do_reset se sv argv events =
     (case argp_parse (cmd_reset_parse_opt (se_drivers se) argv) events 0
             \<lparr>rs_connection = no_connection, rs_wdt = None\<rparr> of
        argp_exit st \<Rightarrow> act_ret (Inl st)
      | argp_args a \<Rightarrow> with_soc se (rs_connection a) Inr EXIT_FAILURE (\<lambda>rc. rc)
                        (\<lambda>ahb soc. tidy (reset_body sv a ahb soc)))"

section \<open>otp\<close>

record cmd_otp_args =
  ot_connection :: connection_args
  ot_region :: otp_region
  ot_read :: bool
  ot_key :: u32
  ot_value :: u32

fun parse_otp :: "nat \<Rightarrow> string \<Rightarrow> cmd_otp_args \<Rightarrow> cmd_otp_args argp" where
  "parse_otp 0 arg a = argp_check (arg = ''conf'' \<or> arg = ''strap'')
     (argp_args (a\<lparr>ot_region := (if arg = ''conf'' then otp_region_conf else otp_region_strap)\<rparr>))"
| "parse_otp (Suc 0) arg a = argp_check (arg = ''read'' \<or> arg = ''write'')
     (argp_args (a\<lparr>ot_read := (arg = ''read'')\<rparr>))"
| "parse_otp (Suc (Suc 0)) arg a = argp_args (a\<lparr>ot_key := strtoul32 arg\<rparr>)"
| "parse_otp (Suc (Suc (Suc 0))) arg a = argp_args (a\<lparr>ot_key := strtoul32 arg\<rparr>)"
| "parse_otp n arg a = argp_args a"

definition cmd_otp_parse_opt :: "('s, 'b) host_driver list \<Rightarrow> string list \<Rightarrow> cmd_otp_args parser" where
  "cmd_otp_parse_opt drivers argv = \<lparr>
     on_opt = no_options,
     on_word = via_or drivers argv ot_connection (\<lambda>c a. a\<lparr>ot_connection := c\<rparr>) parse_otp,
     on_end = (\<lambda>n a. argp_check (\<not> n < 2) (argp_check (ot_read a \<or> \<not> n < 4) (argp_args a))) \<rparr>"

definition no_otp_args :: cmd_otp_args where
  "no_otp_args = \<lparr>ot_connection = no_connection, ot_region = otp_region_strap, ot_read = False,
     ot_key = 0, ot_value = 0\<rparr>"

definition otp_body :: "'s services \<Rightarrow> cmd_otp_args \<Rightarrow> 's ahb \<Rightarrow> 's soc \<Rightarrow> ('s, int) act" where
  "otp_body sv a ahb soc =
     (if soc_generation soc \<noteq> Some ast_g6 then act_ret EXIT_FAILURE
      else need (sv_otp sv soc) EXIT_FAILURE (\<lambda>otp.
        if ot_read a
        then act_bind (act_run (otp_read (sv_os sv) soc otp (ot_region a))) (\<lambda>r. case r of
               Inl rc \<Rightarrow> act_ret rc
             | Inr ws \<Rightarrow> act_bind (act_run (sv_show_words sv ws)) (\<lambda>_. act_ret 0))
        else if ot_region a = otp_region_strap
        then act_run (otp_write_strap (sv_os sv) soc otp (sv_errno sv) (sv_input sv)
                        (unat (ot_key a)) (unat (ot_value a)))
        else act_run (otp_write_conf (sv_os sv) soc otp (sv_errno sv) (sv_input sv)
                        (unat (ot_key a)) (unat (ot_value a)))))"

definition do_otp ::
  "('s, 'a) session \<Rightarrow> 's services \<Rightarrow> string list \<Rightarrow> argp_event list \<Rightarrow> ('s, int + int) act" where
  "do_otp se sv argv events =
     (case argp_parse (cmd_otp_parse_opt (se_drivers se) argv) events 0 no_otp_args of
        argp_exit st \<Rightarrow> act_ret (Inl st)
      | argp_args a \<Rightarrow> with_soc se (ot_connection a) Inr EXIT_FAILURE (\<lambda>rc. rc)
                        (\<lambda>ahb soc. tidy (otp_body sv a ahb soc)))"

section \<open>trace\<close>

record cmd_trace_args =
  tc_address :: u64
  tc_width :: u64
  tc_mode :: trace_mode
  tc_connection :: connection_args

definition strtoul64 :: "string \<Rightarrow> u64" where
  "strtoul64 s = of_nat (fst (strtoul s))"

fun parse_trace :: "nat \<Rightarrow> string \<Rightarrow> cmd_trace_args \<Rightarrow> cmd_trace_args argp" where
  "parse_trace 0 arg a = argp_args (a\<lparr>tc_address := strtoul64 arg\<rparr>)"
| "parse_trace (Suc 0) arg a =
     argp_check (strtoul64 arg \<in> {1, 2, 4}) (argp_args (a\<lparr>tc_width := strtoul64 arg\<rparr>))"
| "parse_trace (Suc (Suc 0)) arg a =
     (if arg = ''read'' then argp_args (a\<lparr>tc_mode := trace_read\<rparr>)
      else if arg = ''write'' then argp_args (a\<lparr>tc_mode := trace_write\<rparr>)
      else argp_error)"
| "parse_trace n arg a = argp_args a"

definition cmd_trace_parse_opt :: "('s, 'b) host_driver list \<Rightarrow> string list \<Rightarrow> cmd_trace_args parser" where
  "cmd_trace_parse_opt drivers argv = \<lparr>
     on_opt = no_options,
     on_word = via_or drivers argv tc_connection (\<lambda>c a. a\<lparr>tc_connection := c\<rparr>) parse_trace,
     on_end = (\<lambda>n a. argp_check (tc_address a AND (tc_width a - 1) = 0) (argp_args a)) \<rparr>"

text \<open>A failed assertion of \<open>trace_start\<close> does not return.\<close>

definition trace_body :: "'s services \<Rightarrow> cmd_trace_args \<Rightarrow> 's ahb \<Rightarrow> 's soc \<Rightarrow> ('s, int) act" where
  "trace_body sv a ahb soc =
     need (sv_trace sv soc) 0 (\<lambda>tr.
       case trace_start soc tr (ucast (tc_address a)) (sint (ucast (tc_width a) :: u32)) (tc_mode a) of
         None \<Rightarrow> act_stuck
       | Some start \<Rightarrow>
           act_nz (act_run start)
           (act_neg (act_run (host_bridge_release_from_ahb ahb))
           (act_bind (act_run (sv_sigwait sv)) (\<lambda>rc.
             if rc \<noteq> 0 then act_ret (- rc)
             else act_neg (act_run (host_bridge_reinit_from_ahb ahb))
                  (act_nz (act_run (trace_stop soc tr)) (trace_dump soc tr (sv_write sv)))))))"

definition do_trace ::
  "('s, 'a) session \<Rightarrow> 's services \<Rightarrow> string list \<Rightarrow> argp_event list \<Rightarrow> ('s, int + int) act" where
  "do_trace se sv argv events =
     (case argp_parse (cmd_trace_parse_opt (se_drivers se) argv) events 0
             \<lparr>tc_address = 0, tc_width = 0, tc_mode = trace_read, tc_connection = no_connection\<rparr> of
        argp_exit st \<Rightarrow> act_ret (Inl st)
      | argp_args a \<Rightarrow> with_soc se (tc_connection a) (\<lambda>rc. Inl EXIT_FAILURE) EXIT_FAILURE (\<lambda>rc. rc)
                        (\<lambda>ahb soc. tidy (trace_body sv a ahb soc)))"

section \<open>sfc\<close>

datatype flash_op = flash_op_read | flash_op_write | flash_op_erase

record cmd_sfc_args =
  fc_connection :: connection_args
  fc_sfc :: "string option"
  fc_address :: u32
  fc_len :: u32
  fc_operation :: flash_op

definition SFC_FLASH_WIN :: nat where "SFC_FLASH_WIN = 0x10000"

fun parse_sfc :: "nat \<Rightarrow> string \<Rightarrow> cmd_sfc_args \<Rightarrow> cmd_sfc_args argp" where
  "parse_sfc 0 arg a =
     (if arg = ''erase'' then argp_args (a\<lparr>fc_operation := flash_op_erase\<rparr>)
      else if arg = ''read'' then argp_args (a\<lparr>fc_operation := flash_op_read\<rparr>)
      else if arg = ''write'' then argp_args (a\<lparr>fc_operation := flash_op_write\<rparr>)
      else argp_error)"
| "parse_sfc (Suc 0) arg a = argp_args (a\<lparr>fc_address := strtoul32 arg\<rparr>)"
| "parse_sfc (Suc (Suc 0)) arg a = argp_args (a\<lparr>fc_len := strtoul32 arg\<rparr>)"
| "parse_sfc n arg a = argp_args a"

definition cmd_sfc_parse_opt :: "('s, 'b) host_driver list \<Rightarrow> string list \<Rightarrow> cmd_sfc_args parser" where
  "cmd_sfc_parse_opt drivers argv = \<lparr>
     on_opt = (\<lambda>c v a. argp_check (c = CHR ''s'' \<and> v = ''fmc'') (argp_args (a\<lparr>fc_sfc := Some v\<rparr>))),
     on_word = via_or drivers argv fc_connection (\<lambda>c a. a\<lparr>fc_connection := c\<rparr>) parse_sfc,
     on_end = (\<lambda>n a. argp_check (fc_sfc a \<noteq> None) (argp_check (\<not> n < 3) (argp_args a))) \<rparr>"

text \<open>
  The loop of a write: the standard input in chunks, each written where the last one ended. It
  ends with the input, a failing read or a failing write.
\<close>

partial_function (option) sfc_write_loop ::
  "'s services \<Rightarrow> 's sfc \<Rightarrow> flash_chip \<Rightarrow> u32 \<Rightarrow> int \<Rightarrow> 's \<Rightarrow> (int \<times> 's) option" where
  "sfc_write_loop sv ct c addr rc s =
     (let (r, s1) = run_state (sv_read sv SFC_FLASH_WIN) s
      in case r of
           Inl e \<Rightarrow> Some (e, s1)
         | Inr buf \<Rightarrow>
             if buf = [] then Some (rc, s1)
             else Option.bind (flash_write ct c addr buf True s1) (\<lambda>(rc, s2).
                    if rc < 0 then Some (rc, s2)
                    else sfc_write_loop sv ct c (addr + of_nat (length buf)) rc s2))"

text \<open>\<open>junk\<close> is what fresh memory holds, which is written out when the read fails.\<close>

definition sfc_body ::
  "'s services \<Rightarrow> u8 list \<Rightarrow> cmd_sfc_args \<Rightarrow> 's ahb \<Rightarrow> 's soc \<Rightarrow> ('s, int) act" where
  "sfc_body sv junk a ahb soc =
     need (sv_sfc sv soc (the (fc_sfc a))) 0 (\<lambda>sfc.
       act_val (flash_init (sh_ops sfc)) (\<lambda>c.
         case fc_operation a of
           flash_op_read \<Rightarrow>
             act_bind (flash_read (sh_ops sfc) c (ucast (fc_address a)) (unat (fc_len a))) (\<lambda>r.
             act_bind (act_run (sv_write sv (case r of Inl _ \<Rightarrow> take (unat (fc_len a)) junk | Inr bs \<Rightarrow> bs))) (\<lambda>egress.
               act_ret (if egress < 0 then egress else case r of Inl rc \<Rightarrow> rc | Inr _ \<Rightarrow> 0)))
         | flash_op_write \<Rightarrow> sfc_write_loop sv (sh_ops sfc) c (fc_address a) 0
         | flash_op_erase \<Rightarrow> flash_erase (sh_ops sfc) c (ucast (fc_address a)) (ucast (fc_len a))))"

definition do_sfc ::
  "('s, 'a) session \<Rightarrow> 's services \<Rightarrow> u8 list \<Rightarrow> string list \<Rightarrow> argp_event list \<Rightarrow> ('s, int + int) act" where
  "do_sfc se sv junk argv events =
     (case argp_parse (cmd_sfc_parse_opt (se_drivers se) argv) events 0
             \<lparr>fc_connection = no_connection, fc_sfc = None, fc_address = 0, fc_len = 0,
              fc_operation = flash_op_read\<rparr> of
        argp_exit st \<Rightarrow> act_ret (Inl st)
      | argp_args a \<Rightarrow> with_soc se (fc_connection a) Inr EXIT_FAILURE (\<lambda>rc. rc)
                        (\<lambda>ahb soc. tidy (sfc_body sv junk a ahb soc)))"

section \<open>probe\<close>

record cmd_probe_args =
  pb_list_ifaces :: bool
  pb_requirement :: bridge_mode
  pb_connection :: connection_args

text \<open>The mode that is 0 is \<open>bm_permissive\<close>, which a missing requirement is replaced by.\<close>

definition cmd_probe_parse_opt :: "('s, 'b) host_driver list \<Rightarrow> string list \<Rightarrow> cmd_probe_args parser" where
  "cmd_probe_parse_opt drivers argv = \<lparr>
     on_opt = (\<lambda>c v a.
       if c = CHR ''l'' then argp_args (a\<lparr>pb_list_ifaces := True\<rparr>)
       else if c = CHR ''r'' then
         argp_check (v = ''integrity'' \<or> v = ''confidentiality'')
           (argp_args (a\<lparr>pb_requirement := (if v = ''integrity'' then bm_restricted else bm_disabled)\<rparr>))
       else argp_error),
     on_word = via_or drivers argv pb_connection (\<lambda>c a. a\<lparr>pb_connection := c\<rparr>) (\<lambda>n w. argp_args),
     on_end = (\<lambda>n. argp_args) \<rparr>"

definition probe_body :: "'s services \<Rightarrow> bridge_mode \<Rightarrow> cmd_probe_args \<Rightarrow> 's ahb \<Rightarrow> 's soc \<Rightarrow> ('s, int) act" where
  "probe_body sv junk a ahb soc =
     (if pb_list_ifaces a
      then act_bind (act_run (sv_show sv (soc_list_bridge_controllers (sv_bridges sv)))) (\<lambda>_. act_ret 0)
      else act_bind (act_run (soc_probe_bridge_controllers (sv_bridges sv) (ca_interface (pb_connection a)) junk))
        (\<lambda>(rc, discovered, lines). act_bind (act_run (sv_show sv lines)) (\<lambda>_.
          act_ret (if rc < 0 then EXIT_FAILURE
                   else if pb_requirement a \<le> discovered then 0 else EXIT_FAILURE))))"

text \<open>The command ends with \<open>exit\<close>; the precedence in its test of \<open>host_init\<close> makes a failure 1.\<close>

definition do_probe ::
  "('s, 'a) session \<Rightarrow> 's services \<Rightarrow> bridge_mode \<Rightarrow> string list \<Rightarrow> argp_event list \<Rightarrow> ('s, int + int) act" where
  "do_probe se sv junk argv events =
     (case argp_parse (cmd_probe_parse_opt (se_drivers se) argv) events 0
             \<lparr>pb_list_ifaces = False, pb_requirement = bm_permissive, pb_connection = no_connection\<rparr> of
        argp_exit st \<Rightarrow> act_ret (Inl st)
      | argp_args a \<Rightarrow>
          act_bind (with_soc se (pb_connection a) (\<lambda>rc. Inl EXIT_FAILURE) EXIT_FAILURE (\<lambda>rc. rc)
                     (\<lambda>ahb soc. tidy (probe_body sv junk a ahb soc)))
            (\<lambda>r. act_ret (Inl (case r of Inl st \<Rightarrow> st | Inr rc \<Rightarrow> rc))))"

section \<open>Memory behind the bridge\<close>

definition soc_siphon_out ::
  "'s soc \<Rightarrow> (u8 list \<Rightarrow> ('s, int) state) \<Rightarrow> u32 \<Rightarrow> int \<Rightarrow> ('s, int) act" where
  "soc_siphon_out soc wr phys len = ahb_siphon_out (soc_ahb soc) wr phys len"

definition soc_siphon_in ::
  "'s soc \<Rightarrow> (nat \<Rightarrow> ('s, int + u8 list) state) \<Rightarrow> u32 \<Rightarrow> int \<Rightarrow> ('s, int) act" where
  "soc_siphon_in soc rd phys len = ahb_siphon_in (soc_ahb soc) rd phys len"

text \<open>
  The check the commands make of a region they were given, two numbers of type
  \<open>unsigned long\<close>: the end of DRAM is computed in 32 bits.
\<close>

definition ram_ill_formed :: "nat \<Rightarrow> nat \<Rightarrow> soc_region \<Rightarrow> bool" where
  "ram_ill_formed base size' dram \<longleftrightarrow>
     base < unat (rg_start dram) \<or> base + size' > unat (rg_start dram + rg_length dram)"

section \<open>coprocessor\<close>

datatype cmd_coprocessor_mode = coproc_run | coproc_stop

record cmd_coprocessor_args =
  cp_mem_base :: nat
  cp_mem_size :: nat
  cp_connection :: connection_args
  cp_mode :: cmd_coprocessor_mode

definition COPROC_CACHED_MEM_SIZE :: nat where "COPROC_CACHED_MEM_SIZE = 16 * 1024 * 1024"
definition COPROC_TOTAL_MEM_SIZE :: nat where "COPROC_TOTAL_MEM_SIZE = 32 * 1024 * 1024"
definition SCU_COPROC_CTRL :: u32 where "SCU_COPROC_CTRL = 0xa00"
definition SCU_COPROC_CTRL_RESET_ASSERT :: u32 where "SCU_COPROC_CTRL_RESET_ASSERT = BIT 1"
definition SCU_COPROC_CTRL_EN :: u32 where "SCU_COPROC_CTRL_EN = BIT 0"
definition SCU_COPROC_MEM_BASE :: u32 where "SCU_COPROC_MEM_BASE = 0xa04"
definition SCU_COPROC_IMEM_LIMIT :: u32 where "SCU_COPROC_IMEM_LIMIT = 0xa08"
definition SCU_COPROC_DMEM_LIMIT :: u32 where "SCU_COPROC_DMEM_LIMIT = 0xa0c"
definition SCU_COPROC_CACHE_RANGE :: u32 where "SCU_COPROC_CACHE_RANGE = 0xa40"
definition SCU_COPROC_CACHE_1ST_16MB_EN :: u32 where "SCU_COPROC_CACHE_1ST_16MB_EN = BIT 0"
definition SCU_COPROC_CACHE_FUNC :: u32 where "SCU_COPROC_CACHE_FUNC = 0xa48"
definition SCU_COPROC_CACHE_EN :: u32 where "SCU_COPROC_CACHE_EN = BIT 0"

definition mem_arg :: "string \<Rightarrow> (nat \<Rightarrow> 'a argp) \<Rightarrow> 'a argp" where
  "mem_arg arg k = (case parse_mem_arg arg of None \<Rightarrow> argp_error | Some v \<Rightarrow> k v)"

fun parse_coprocessor :: "nat \<Rightarrow> string \<Rightarrow> cmd_coprocessor_args \<Rightarrow> cmd_coprocessor_args argp" where
  "parse_coprocessor 0 arg a = argp_check (arg = ''run'' \<or> arg = ''stop'')
     (argp_args (a\<lparr>cp_mode := (if arg = ''run'' then coproc_run else coproc_stop)\<rparr>))"
| "parse_coprocessor (Suc n) arg a =
     (if cp_mode a \<noteq> coproc_run then argp_args a
      else case n of
             0 \<Rightarrow> mem_arg arg (\<lambda>v. argp_args (a\<lparr>cp_mem_base := v\<rparr>))
           | Suc 0 \<Rightarrow> mem_arg arg (\<lambda>v. argp_check (v = COPROC_TOTAL_MEM_SIZE) (argp_args (a\<lparr>cp_mem_size := v\<rparr>)))
           | Suc (Suc _) \<Rightarrow> argp_args a)"

definition cmd_coprocessor_parse_opt ::
  "('s, 'b) host_driver list \<Rightarrow> string list \<Rightarrow> cmd_coprocessor_args parser" where
  "cmd_coprocessor_parse_opt drivers argv = \<lparr>
     on_opt = no_options,
     on_word = via_or drivers argv cp_connection (\<lambda>c a. a\<lparr>cp_connection := c\<rparr>) parse_coprocessor,
     on_end = (\<lambda>n a. argp_check (\<not> (cp_mode a = coproc_run \<and> n < 3))
                      (argp_check (\<not> (cp_mode a = coproc_stop \<and> n < 1)) (argp_args a))) \<rparr>"

text \<open>Register writes in order, up to the first that fails: whether one did.\<close>

fun scu_writes :: "'s soc \<Rightarrow> scu \<Rightarrow> (u32 \<times> u32) list \<Rightarrow> ('s, bool) state" where
  "scu_writes soc scu [] = ret False"
| "scu_writes soc scu ((r, v) # rvs) = do {
     rc \<leftarrow> scu_writel soc scu r v;
     (if rc \<noteq> 0 then ret True else scu_writes soc scu rvs) }"

text \<open>A step whose failure is a negative status, in a handler that fails with 1.\<close>

definition or_fail :: "('s, int) act \<Rightarrow> ('s, int) act \<Rightarrow> ('s, int) act" where
  "or_fail m k = act_bind m (\<lambda>rc. if rc < 0 then act_ret EXIT_FAILURE else k)"

definition coproc_config :: "nat \<Rightarrow> nat \<Rightarrow> (u32 \<times> u32) list" where
  "coproc_config base size' =
     [(SCU_COPROC_MEM_BASE, of_nat base),
      (SCU_COPROC_IMEM_LIMIT, of_nat (base + COPROC_CACHED_MEM_SIZE)),
      (SCU_COPROC_DMEM_LIMIT, of_nat (base + size')),
      (SCU_COPROC_CACHE_RANGE, SCU_COPROC_CACHE_1ST_16MB_EN),
      (SCU_COPROC_CACHE_FUNC, SCU_COPROC_CACHE_EN)]"

definition coproc_start :: "'s services \<Rightarrow> 's soc \<Rightarrow> scu \<Rightarrow> nat \<Rightarrow> nat \<Rightarrow> ('s, int) act" where
  "coproc_start sv soc scu base size' =
     or_fail (act_run (scu_writel soc scu SCU_COPROC_CTRL 0))
    (or_fail (act_run (scu_writel soc scu SCU_COPROC_CTRL SCU_COPROC_CTRL_RESET_ASSERT))
    (or_fail (soc_siphon_in soc (sv_read sv) (of_nat base) (int size'))
    (act_bind (act_run (scu_writes soc scu (coproc_config base size'))) (\<lambda>failed.
      if failed then act_ret EXIT_FAILURE
      else or_fail (act_run (sv_usleep sv 1000))
          (or_fail (act_run (scu_writel soc scu SCU_COPROC_CTRL 0))
          (or_fail (act_run (sv_usleep sv 1000))
          (or_fail (act_run (scu_writel soc scu SCU_COPROC_CTRL SCU_COPROC_CTRL_EN))
          (act_ret 0))))))))"

definition with_scu :: "'s services \<Rightarrow> 's soc \<Rightarrow> scu \<Rightarrow> ('s, int) act \<Rightarrow> ('s, int) act" where
  "with_scu sv soc scu m = act_bind m (\<lambda>rc. act_bind (act_run (sv_scu_put sv soc scu)) (\<lambda>_. act_ret rc))"

definition coprocessor_run_body ::
  "'s services \<Rightarrow> cmd_coprocessor_args \<Rightarrow> 's ahb \<Rightarrow> 's soc \<Rightarrow> ('s, int) act" where
  "coprocessor_run_body sv a ahb soc =
     (if soc_generation soc \<noteq> Some ast_g6 then act_ret EXIT_FAILURE
      else need (sv_sdmc sv soc) EXIT_FAILURE (\<lambda>sdmc.
        act_bind (act_run (sdmc_get_dram soc sdmc)) (\<lambda>r. case r of
          Inl rc \<Rightarrow> act_ret EXIT_FAILURE
        | Inr dram \<Rightarrow>
            if cp_mem_base a > UINT32_MAX then act_ret EXIT_FAILURE
            else if (cp_mem_base a + cp_mem_size a) mod 2 ^ 32 < cp_mem_base a then act_ret EXIT_FAILURE
            else if ram_ill_formed (cp_mem_base a) (cp_mem_size a) dram then act_ret EXIT_FAILURE
            else need (sv_scu sv soc) EXIT_FAILURE (\<lambda>scu.
              with_scu sv soc scu (coproc_start sv soc scu (cp_mem_base a) (cp_mem_size a))))))"

definition coprocessor_stop_body :: "'s services \<Rightarrow> 's ahb \<Rightarrow> 's soc \<Rightarrow> ('s, int) act" where
  "coprocessor_stop_body sv ahb soc =
     (if soc_generation soc \<noteq> Some ast_g6 then act_ret EXIT_FAILURE
      else need (sv_scu sv soc) EXIT_FAILURE (\<lambda>scu.
        with_scu sv soc scu (act_bind (act_run (scu_writel soc scu SCU_COPROC_CTRL 0)) (\<lambda>rc.
          act_ret (if rc < 0 then EXIT_FAILURE else rc)))))"

definition cmd_coprocessor_run ::
  "('s, 'a) session \<Rightarrow> 's services \<Rightarrow> cmd_coprocessor_args \<Rightarrow> ('s, int + int) act" where
  "cmd_coprocessor_run se sv a =
     with_soc se (cp_connection a) (\<lambda>rc. Inr EXIT_FAILURE) EXIT_FAILURE (\<lambda>rc. EXIT_FAILURE)
       (\<lambda>ahb soc. tidy (coprocessor_run_body sv a ahb soc))"

definition cmd_coprocessor_stop ::
  "('s, 'a) session \<Rightarrow> 's services \<Rightarrow> cmd_coprocessor_args \<Rightarrow> ('s, int + int) act" where
  "cmd_coprocessor_stop se sv a =
     with_soc se (cp_connection a) (\<lambda>rc. Inr EXIT_FAILURE) EXIT_FAILURE (\<lambda>rc. EXIT_FAILURE)
       (\<lambda>ahb soc. tidy (coprocessor_stop_body sv ahb soc))"

definition do_coprocessor ::
  "('s, 'a) session \<Rightarrow> 's services \<Rightarrow> string list \<Rightarrow> argp_event list \<Rightarrow> ('s, int + int) act" where
  "do_coprocessor se sv argv events =
     (case argp_parse (cmd_coprocessor_parse_opt (se_drivers se) argv) events 0
             \<lparr>cp_mem_base = 0, cp_mem_size = 0, cp_connection = no_connection, cp_mode = coproc_run\<rparr> of
        argp_exit st \<Rightarrow> act_ret (Inl st)
      | argp_args a \<Rightarrow>
          (case cp_mode a of
             coproc_run \<Rightarrow> cmd_coprocessor_run se sv a
           | coproc_stop \<Rightarrow> cmd_coprocessor_stop se sv a))"

section \<open>Properties\<close>

text \<open>
  Claim C21. A write of the \<open>otp\<close> command does not do what its words say: the fourth word goes
  where the third went, so for every bit and value \<open>otp strap write BIT VALUE\<close> programs the
  option whose number is VALUE, to 0, and \<open>otp conf write WORD BIT\<close> bit 0 of the word whose
  number is BIT.
\<close>

theorem otp_command_misplaces:
  assumes "third \<noteq> ''via''" "fourth \<noteq> ''via''" "soc_generation soc = Some ast_g6"
    and "run_state (sv_otp sv soc) s = (Some otp, s1)"
  shows "\<exists>strap conf.
    argp_parse (cmd_otp_parse_opt drivers argv) (words [''strap'', ''write'', third, fourth]) 0 no_otp_args =
      argp_args strap \<and>
    otp_body sv strap ahb soc s =
      Some (run_state (otp_write_strap (sv_os sv) soc otp (sv_errno sv) (sv_input sv) (unat (strtoul32 fourth)) 0) s1) \<and>
    argp_parse (cmd_otp_parse_opt drivers argv) (words [''conf'', ''write'', third, fourth]) 0 no_otp_args =
      argp_args conf \<and>
    otp_body sv conf ahb soc s =
      Some (run_state (otp_write_conf (sv_os sv) soc otp (sv_errno sv) (sv_input sv) (unat (strtoul32 fourth)) 0) s1)"
proof -
  let ?args = "\<lambda>reg. no_otp_args\<lparr>ot_region := reg, ot_key := strtoul32 fourth\<rparr>"
  have "argp_parse (cmd_otp_parse_opt drivers argv) (words [''strap'', ''write'', third, fourth]) 0 no_otp_args =
      argp_args (?args otp_region_strap)"
    "argp_parse (cmd_otp_parse_opt drivers argv) (words [''conf'', ''write'', third, fourth]) 0 no_otp_args =
      argp_args (?args otp_region_conf)"
    using assms(1,2)
    by (simp_all add: words_def cmd_otp_parse_opt_def via_or_def argp_check_def no_otp_args_def numeral_eq_Suc)
  then show ?thesis
    using assms(3,4) by (intro exI [of _ "?args otp_region_strap"] exI [of _ "?args otp_region_conf"])
      (simp add: otp_body_def no_otp_args_def)
qed

text \<open>Services with nothing behind them, and with one-time programmable memory.\<close>

definition no_services :: "'s os_clock \<Rightarrow> 's services" where
  "no_services os = \<lparr>
     sv_clk = (\<lambda>soc. ret None), sv_wdt = (\<lambda>soc n. ret None), sv_wdts = [], sv_otp = (\<lambda>soc. ret None),
     sv_trace = (\<lambda>soc. ret None), sv_sfc = (\<lambda>soc n. ret None), sv_sdmc = (\<lambda>soc. ret None),
     sv_scu = (\<lambda>soc. ret None), sv_scu_put = (\<lambda>soc scu. ret ()),
     sv_vuart = (\<lambda>soc. ret None), sv_mux = (\<lambda>soc. ret None), sv_bridges = [],
     sv_os = os, sv_usleep = (\<lambda>us. ret 0), sv_sigwait = ret 0, sv_read = (\<lambda>n. ret (Inr [])),
     sv_write = (\<lambda>bs. ret (int (length bs))), sv_show_words = (\<lambda>ws. ret ()), sv_show = (\<lambda>l. ret ()),
     sv_errno = 5, sv_input = ''YES'' \<rparr>"

definition otp_services :: "'s os_clock \<Rightarrow> otp \<Rightarrow> 's services" where
  "otp_services os otp = (no_services os)\<lparr>sv_otp := (\<lambda>soc. ret (Some otp))\<rparr>"

theorem otp_command_misplaces_witness:
  "\<exists>a. argp_parse (cmd_otp_parse_opt example_drivers []) (words [''strap'', ''write'', ''40'', ''1'']) 0 no_otp_args =
     argp_args a \<and>
   otp_body (otp_services counter_clock (otp_a2 0x1e6f2000)) a (soc_ahb otp_soc) otp_soc (otp_blank 0) =
     Some (run_state (otp_write_strap counter_clock otp_soc (otp_a2 0x1e6f2000) 5 ''YES''
       (unat (strtoul32 ''1'')) 0) (otp_blank 0))"
proof -
  have g: "soc_generation otp_soc = Some ast_g6"
    by (simp add: soc_generation_def p2a_soc_beside_def rev_generation_def)
  show ?thesis
    using otp_command_misplaces [of "''40''" "''1''", OF _ _ g,
      of "otp_services counter_clock (otp_a2 0x1e6f2000)" "otp_blank 0" "otp_a2 0x1e6f2000" "otp_blank 0"
         example_drivers "[]" "soc_ahb otp_soc"]
    by (auto simp: otp_services_def no_services_def)
qed

end
