(* ===== verification/ReadWrite.thy ===== *)
theory ReadWrite
  imports Commands
begin

text \<open>
  The commands that copy whole regions, \<^verbatim>\<open>src/cmd/read.c\<close> and \<^verbatim>\<open>src/cmd/write.c\<close>: the image
  of the firmware flash, and DRAM, to the standard output or from the standard input.
\<close>

section \<open>read\<close>

datatype cmd_read_mode = read_none | read_firmware | read_ram

record cmd_read_args =
  rd_mem_base :: nat
  rd_mem_size :: nat
  rd_connection :: connection_args
  rd_mode :: cmd_read_mode

definition parse_mem_type :: "char \<Rightarrow> string \<Rightarrow> cmd_read_args \<Rightarrow> cmd_read_args argp" where
  "parse_mem_type c v a = argp_check (c = CHR ''t'' \<and> (v = ''firmware'' \<or> v = ''ram''))
     (argp_args (a\<lparr>rd_mode := (if v = ''firmware'' then read_firmware else read_ram)\<rparr>))"

definition parse_mem_word :: "nat \<Rightarrow> string \<Rightarrow> cmd_read_args \<Rightarrow> cmd_read_args argp" where
  "parse_mem_word n arg a =
     (if rd_mode a \<noteq> read_ram then argp_args a
      else if n = 0 then mem_arg arg (\<lambda>v. argp_args (a\<lparr>rd_mem_base := v\<rparr>))
      else if n = 1 then mem_arg arg (\<lambda>v. argp_args (a\<lparr>rd_mem_size := v\<rparr>))
      else argp_args a)"

definition cmd_read_parse_opt :: "('s, 'b) host_driver list \<Rightarrow> string list \<Rightarrow> cmd_read_args parser" where
  "cmd_read_parse_opt drivers argv = \<lparr>
     on_opt = parse_mem_type,
     on_word = via_or drivers argv rd_connection (\<lambda>c a. a\<lparr>rd_connection := c\<rparr>) parse_mem_word,
     on_end = (\<lambda>n a. argp_check (rd_mode a \<noteq> read_none)
       (argp_check (\<not> (rd_mode a = read_ram \<and> 0 < n \<and> n < 2)) (argp_args a))) \<rparr>"

definition no_mem_args :: cmd_read_args where
  "no_mem_args = \<lparr>rd_mem_base = 0, rd_mem_size = 0, rd_connection = no_connection, rd_mode = read_none\<rparr>"

definition read_firmware_body :: "'s services \<Rightarrow> 's ahb \<Rightarrow> 's soc \<Rightarrow> ('s, int) act" where
  "read_firmware_body sv ahb soc =
     need (sv_sfc sv soc ''fmc'') (- ENODEV) (\<lambda>sfc.
     act_val (flash_init (sh_ops sfc)) (\<lambda>chip.
     act_val (act_run (sh_protect_save sfc True)) (\<lambda>wp.
     act_val (act_run (sh_get_flash sfc)) (\<lambda>flash.
     act_bind (soc_siphon_out soc (sv_write sv) (rg_start flash) (uint (fi_size (fc_info chip)))) (\<lambda>rc.
     act_bind (act_run (sh_protect_restore sfc wp)) (\<lambda>_. act_ret rc))))))"

text \<open>Without a region, or with one that starts at 0 or is empty, all DRAM below the video memory.\<close>

definition read_ram_body :: "'s services \<Rightarrow> cmd_read_args \<Rightarrow> 's ahb \<Rightarrow> 's soc \<Rightarrow> ('s, int) act" where
  "read_ram_body sv a ahb soc =
     need (sv_sdmc sv soc) (- ENODEV) (\<lambda>sdmc.
     act_val (act_run (sdmc_get_dram soc sdmc)) (\<lambda>dram.
       if rd_mem_base a \<noteq> 0 \<and> rd_mem_size a \<noteq> 0
       then if ram_ill_formed (rd_mem_base a) (rd_mem_size a) dram then act_ret (- EINVAL)
            else soc_siphon_out soc (sv_write sv) (of_nat (rd_mem_base a)) (int (rd_mem_size a))
       else act_val (act_run (sdmc_get_vram soc sdmc)) (\<lambda>vram.
            soc_siphon_out soc (sv_write sv) (rg_start dram) (uint (rg_length dram - rg_length vram)))))"

text \<open>The two numbers are below \<open>2 ^ 32\<close>, so the subtraction of the code is that of the naturals.\<close>

definition cmd_read_firmware :: "('s, 'a) session \<Rightarrow> 's services \<Rightarrow> cmd_read_args \<Rightarrow> ('s, int + int) act" where
  "cmd_read_firmware se sv a =
     with_soc se (rd_connection a) Inr (- ENODEV) (\<lambda>rc. rc) (\<lambda>ahb soc. tidy (read_firmware_body sv ahb soc))"

definition cmd_read_ram :: "('s, 'a) session \<Rightarrow> 's services \<Rightarrow> cmd_read_args \<Rightarrow> ('s, int + int) act" where
  "cmd_read_ram se sv a =
     (if UINT32_MAX - rd_mem_size a < rd_mem_base a then act_ret (Inr (- EINVAL))
      else with_soc se (rd_connection a) Inr (- ENODEV) (\<lambda>rc. rc) (\<lambda>ahb soc. tidy (read_ram_body sv a ahb soc)))"

definition do_read ::
  "('s, 'a) session \<Rightarrow> 's services \<Rightarrow> string list \<Rightarrow> argp_event list \<Rightarrow> ('s, int + int) act" where
  "do_read se sv argv events =
     (case argp_parse (cmd_read_parse_opt (se_drivers se) argv) events 0 no_mem_args of
        argp_exit st \<Rightarrow> act_ret (Inl st)
      | argp_args a \<Rightarrow>
          (case rd_mode a of
             read_firmware \<Rightarrow> cmd_read_firmware se sv a
           | read_ram \<Rightarrow> cmd_read_ram se sv a
           | read_none \<Rightarrow> act_ret (Inr (- EINVAL))))"

section \<open>write\<close>

text \<open>The arguments and their parser are those of \<open>read\<close> but for the check at the end.\<close>

type_synonym cmd_write_mode = cmd_read_mode
type_synonym cmd_write_args = cmd_read_args

definition cmd_write_parse_opt :: "('s, 'b) host_driver list \<Rightarrow> string list \<Rightarrow> cmd_write_args parser" where
  "cmd_write_parse_opt drivers argv = \<lparr>
     on_opt = parse_mem_type,
     on_word = via_or drivers argv rd_connection (\<lambda>c a. a\<lparr>rd_connection := c\<rparr>) parse_mem_word,
     on_end = (\<lambda>n a. argp_check (rd_mode a \<noteq> read_none)
       (argp_check (\<not> (rd_mode a = read_ram \<and> n < 2)) (argp_args a))) \<rparr>"

text \<open>One block: erased and written until the written data compares.\<close>

partial_function (option) write_block ::
  "'s sfc \<Rightarrow> flash_chip \<Rightarrow> u32 \<Rightarrow> u8 list \<Rightarrow> 's \<Rightarrow> (int \<times> 's) option" where
  "write_block ct c phys buf s =
     Option.bind (flash_erase ct c (ucast phys) (of_nat (length buf)) s) (\<lambda>(rc, s1).
       if rc < 0 then Some (rc, s1)
       else Option.bind (flash_write ct c phys buf True s1) (\<lambda>(rc, s2).
         if rc = - EREMOTEIO then write_block ct c phys buf s2 else Some (rc, s2)))"

text \<open>A read that gives less than a block ends the loop before its bytes are written.\<close>

partial_function (option) write_blocks ::
  "'s services \<Rightarrow> 's sfc \<Rightarrow> flash_chip \<Rightarrow> u32 \<Rightarrow> 's \<Rightarrow> (int \<times> 's) option" where
  "write_blocks sv ct c phys s =
     (let (r, s1) = run_state (sv_read sv SFC_FLASH_WIN) s
      in case r of
           Inl e \<Rightarrow> Some (e, s1)
         | Inr buf \<Rightarrow>
             if length buf < SFC_FLASH_WIN then Some (0, s1)
             else Option.bind (write_block ct c phys buf s1) (\<lambda>(rc, s2).
                    if rc \<noteq> 0 then Some (rc, s2)
                    else write_blocks sv ct c (phys + of_nat (length buf)) s2))"

text \<open>
  What is done at \<open>cleanup_state\<close>, with the status so far: on success the reset, whose failures
  return past the cleanup.
\<close>

definition write_cleanup_state ::
  "'s services \<Rightarrow> 's ahb \<Rightarrow> 's soc \<Rightarrow> 's clk_ops \<Rightarrow> vuart \<Rightarrow> int \<Rightarrow> ('s, int \<times> bool) act" where
  "write_cleanup_state sv ahb soc clk vuart rc =
     (if rc = 0
      then if drv_local (ahb_drv ahb) then act_ret (0, True)
           else act_bind (act_run (sv_wdt sv soc ''wdt2'')) (\<lambda>r. case r of
                  None \<Rightarrow> act_ret (- ENODEV, False)
                | Some (io, wclk) \<Rightarrow>
                    act_bind (act_run (wdt_perform_reset soc wclk (\<lambda>us. do { _ \<leftarrow> sv_usleep sv us; ret () }) io))
                      (\<lambda>rc. act_ret (rc, \<not> rc < 0)))
      else act_bind (act_run (vuart_set_host_tx_discard soc vuart discard_disable)) (\<lambda>_.
           act_bind (act_run (clk_enable clk clk_arm)) (\<lambda>_. act_ret (rc, True))))"

definition write_firmware_body :: "'s services \<Rightarrow> 's ahb \<Rightarrow> 's soc \<Rightarrow> ('s, int \<times> bool) act" where
  "write_firmware_body sv ahb soc =
     act_bind (act_run (sv_clk sv soc)) (\<lambda>r. case r of None \<Rightarrow> act_ret (- ENODEV, True) | Some clk \<Rightarrow>
     act_bind (act_run (sv_vuart sv soc)) (\<lambda>r. case r of None \<Rightarrow> act_ret (- ENODEV, True) | Some vuart \<Rightarrow>
     act_bind
       (if drv_local (ahb_drv ahb) then act_ret 0
        else act_neg (act_run (wdt_prevent_reset soc (sv_wdts sv)))
            (act_neg (act_run (clk_disable clk clk_arm))
            (act_neg (act_run (vuart_set_host_tx_discard soc vuart discard_enable)) (act_ret 0))))
       (\<lambda>rc. act_bind
         (if rc < 0 then act_ret rc
          else need (sv_sfc sv soc ''fmc'') (- ENODEV) (\<lambda>sfc.
               act_val (flash_init (sh_ops sfc)) (\<lambda>chip. write_blocks sv (sh_ops sfc) chip 0)))
         (write_cleanup_state sv ahb soc clk vuart))))"

definition write_ram_body :: "'s services \<Rightarrow> cmd_write_args \<Rightarrow> 's ahb \<Rightarrow> 's soc \<Rightarrow> ('s, int) act" where
  "write_ram_body sv a ahb soc =
     need (sv_sdmc sv soc) (- ENODEV) (\<lambda>sdmc.
     act_val (act_run (sdmc_get_dram soc sdmc)) (\<lambda>dram.
       if ram_ill_formed (rd_mem_base a) (rd_mem_size a) dram then act_ret (- EINVAL)
       else soc_siphon_in soc (sv_read sv) (of_nat (rd_mem_base a)) (int (rd_mem_size a))))"

definition cmd_write_firmware :: "('s, 'a) session \<Rightarrow> 's services \<Rightarrow> cmd_write_args \<Rightarrow> ('s, int + int) act" where
  "cmd_write_firmware se sv a = with_soc se (rd_connection a) Inr (- ENODEV) (\<lambda>rc. rc) (write_firmware_body sv)"

definition cmd_write_ram :: "('s, 'a) session \<Rightarrow> 's services \<Rightarrow> cmd_write_args \<Rightarrow> ('s, int + int) act" where
  "cmd_write_ram se sv a =
     with_soc se (rd_connection a) Inr EXIT_FAILURE (\<lambda>rc. rc) (\<lambda>ahb soc. tidy (write_ram_body sv a ahb soc))"

definition do_write ::
  "('s, 'a) session \<Rightarrow> 's services \<Rightarrow> string list \<Rightarrow> argp_event list \<Rightarrow> ('s, int + int) act" where
  "do_write se sv argv events =
     (case argp_parse (cmd_write_parse_opt (se_drivers se) argv) events 0 no_mem_args of
        argp_exit st \<Rightarrow> act_ret (Inl st)
      | argp_args a \<Rightarrow>
          (case rd_mode a of
             read_firmware \<Rightarrow> cmd_write_firmware se sv a
           | read_ram \<Rightarrow> cmd_write_ram se sv a
           | read_none \<Rightarrow> act_ret (Inr (- EINVAL))))"


section \<open>A system with memory and streams\<close>

text \<open>
  Memory behind a bridge, with the configuration of the memory controller in it, and the standard
  streams beside it.
\<close>

locale ram_console = soc_dev ops invar ram_target mem soc + ram: ahb_ram ops invar mem span
  for ops :: "'s ahb_ops" and invar and mem :: "'s \<Rightarrow> u32 \<Rightarrow> u8" and soc :: "'s soc" and span +
  fixes wr and rd and out :: "'s \<Rightarrow> u8 list" and inp :: "'s \<Rightarrow> u8 list"
  assumes sink: "fd_sink wr out invar mem"
    and source: "fd_source rd inp invar mem"
    and wr_inp: "invar s \<Longrightarrow> inp (snd (run_state (wr bs) s)) = inp s"
    and rd_out: "invar s \<Longrightarrow> out (snd (run_state (rd l) s)) = out s"
    and streams: "invar s \<Longrightarrow> s' \<in> {snd (run_state (ops_read ops a l) s), snd (run_state (ops_write ops a bs) s),
        snd (run_state (ops_readl ops a) s)} \<Longrightarrow> out s' = out s \<and> inp s' = inp s"

definition sdmc_config :: "sdmc \<Rightarrow> (u32 \<Rightarrow> u8) \<Rightarrow> u32" where
  "sdmc_config ctx m = fst (run_state (tgt_ld32 ram_target (rg_start (sdmc_iomem ctx) + MCR_CONFIG)) m)"

definition dram_of :: "sdmc \<Rightarrow> (u32 \<Rightarrow> u8) \<Rightarrow> soc_region" where
  "dram_of ctx m = sdmc_dram_region ctx (sdmc_config ctx m)"

definition vram_size :: "sdmc \<Rightarrow> (u32 \<Rightarrow> u8) \<Rightarrow> u32" where
  "vram_size ctx m = vram_sizes (sdmc_pdata ctx) ! unat (drop_bit 2 (sdmc_config ctx m) AND 3)"

lemma vram_size_le:
  "sdmc_pdata ctx \<in> sdmc_pdatas \<Longrightarrow> unat (vram_size ctx m) \<le> unat (rg_length (dram_of ctx m))"
  using vram_fits [of "sdmc_pdata ctx" "drop_bit 2 (sdmc_config ctx m)" "sdmc_config ctx m"]
  by (simp add: vram_size_def dram_of_def sdmc_dram_region_def)

context ram_console
begin

lemma quiet:
  assumes "invar s"
  shows "out (snd (run_state (ops_read ops a l) s)) = out s" "inp (snd (run_state (ops_read ops a l) s)) = inp s"
    and "out (snd (run_state (ops_write ops a bs) s)) = out s" "inp (snd (run_state (ops_write ops a bs) s)) = inp s"
    and "out (snd (run_state (ops_readl ops a) s)) = out s" "inp (snd (run_state (ops_readl ops a) s)) = inp s"
  using streams [OF assms] by blast+

lemma dram_lookup:
  assumes "invar s" "word_aligned (rg_start (sdmc_iomem ctx))"
  shows "fst (run_state (sdmc_get_dram soc ctx) s) = Inr (dram_of ctx (mem s)) \<and>
    fst (run_state (sdmc_get_vram soc ctx) s) =
      Inr \<lparr>rg_start = rg_start (dram_of ctx (mem s)) + rg_length (dram_of ctx (mem s)) - vram_size ctx (mem s),
           rg_length = vram_size ctx (mem s)\<rparr>"
    and "s' = snd (run_state (sdmc_get_dram soc ctx) s) \<or> s' = snd (run_state (sdmc_get_vram soc ctx) s) \<Longrightarrow>
      invar s' \<and> mem s' = mem s \<and> out s' = out s \<and> inp s' = inp s"
proof -
  have al: "word_aligned (rg_start (sdmc_iomem ctx) + MCR_CONFIG)"
    using assms(2) by (simp add: MCR_CONFIG_def)
  note r = soc_readl [OF assms(1) al]
  have st: "out (snd (run_state (soc_readl soc a) s)) = out s"
    "inp (snd (run_state (soc_readl soc a) s)) = inp s" for a
    using quiet(5,6) [OF assms(1)] by (simp_all add: soc_readl_def ahb_readl_def dev_ops)
  show "fst (run_state (sdmc_get_dram soc ctx) s) = Inr (dram_of ctx (mem s)) \<and>
    fst (run_state (sdmc_get_vram soc ctx) s) =
      Inr \<lparr>rg_start = rg_start (dram_of ctx (mem s)) + rg_length (dram_of ctx (mem s)) - vram_size ctx (mem s),
           rg_length = vram_size ctx (mem s)\<rparr>"
    using r(1) by (simp add: sdmc_get_dram_def sdmc_get_vram_def sdmc_readl_def dram_of_def vram_size_def
        sdmc_config_def sdmc_dram_region_def Let_def)
  show "s' = snd (run_state (sdmc_get_dram soc ctx) s) \<or> s' = snd (run_state (sdmc_get_vram soc ctx) s) \<Longrightarrow>
      invar s' \<and> mem s' = mem s \<and> out s' = out s \<and> inp s' = inp s"
    using r st by (auto simp: sdmc_get_dram_def sdmc_get_vram_def sdmc_readl_def Let_def)
qed

lemma siphon_out:
  assumes "invar s" "l < 2 ^ 32" "chunk_spans span a l"
  shows "\<exists>s'. soc_siphon_out soc wr a (int l) s = Some (0, s') \<and> invar s' \<and> mem s' = mem s \<and>
    out s' = out s @ mem_range (mem s) a l"
proof (cases "l = 0")
  case False
  from False show ?thesis
    using ram.siphon_out_complete [OF sink assms(1) dev_ops quiet(1), of "int l" a] assms(2,3)
    by (simp add: soc_siphon_out_def ahb_siphon_out_def)
qed (use assms(1) in \<open>simp add: soc_siphon_out_def ahb_siphon_out_def mem_range_def\<close>)

lemma siphon_in:
  assumes "invar s" "l < 2 ^ 32" "\<forall>k m. k + m \<le> l \<longrightarrow> span (a + of_nat k) m"
  shows "\<exists>s'. soc_siphon_in soc rd a (int l) s = Some (0, s') \<and> invar s' \<and>
    mem s' = mem_upd (mem s) a (take l (inp s)) \<and> inp s' = drop l (inp s) \<and> out s' = out s"
proof -
  let ?invar = "\<lambda>t. invar t \<and> out t = out s"
  have r: "ahb_ram ops ?invar mem span"
    by unfold_locales (simp_all add: ram.read_val ram.read_mem ram.read_inv ram.write_rc ram.write_mem
      ram.write_inv quiet)
  have src: "fd_source rd inp ?invar mem"
    unfolding fd_source_def using source [unfolded fd_source_def] rd_out by (metis snd_conv)
  have keep: "inp (snd (run_state (ops_write ops a bs) t)) = inp t" if "?invar t" for t a bs
    using quiet(4) that by blast
  have n: "siphon_count (int l) k \<le> l" "take (siphon_count (int l) k) xs = take l xs"
    "drop (siphon_count (int l) k) xs = drop l xs" if "k = length xs" for k and xs :: "u8 list"
    using that by (auto simp: siphon_count_def min_def)
  show ?thesis
    using ahb_ram.siphon_in_complete [OF r src dev_ops keep, of s "int l" a] assms n [OF refl, of "inp s"]
    by (force simp: soc_siphon_in_def)
qed

end


text \<open>The command line for DRAM, with a region or none, and what it asks for.\<close>

definition ram_line :: "(nat \<times> nat) option \<Rightarrow> argp_event list" where
  "ram_line r = Opt CHR ''t'' ''ram'' # (case r of None \<Rightarrow> [] | Some (b, l) \<Rightarrow>
     [Word 2 (CHR ''0'' # CHR ''x'' # hex_str b), Word 3 (CHR ''0'' # CHR ''x'' # hex_str l)])"

definition ram_args :: "(nat \<times> nat) option \<Rightarrow> cmd_read_args" where
  "ram_args r = (case r of None \<Rightarrow> no_mem_args\<lparr>rd_mode := read_ram\<rparr>
     | Some (b, l) \<Rightarrow> no_mem_args\<lparr>rd_mode := read_ram, rd_mem_base := b, rd_mem_size := l\<rparr>)"

definition ram_region :: "sdmc \<Rightarrow> (u32 \<Rightarrow> u8) \<Rightarrow> (nat \<times> nat) option \<Rightarrow> nat \<times> nat" where
  "ram_region ctx m r = (case r of
     None \<Rightarrow> (unat (rg_start (dram_of ctx m)), unat (rg_length (dram_of ctx m)) - unat (vram_size ctx m))
   | Some x \<Rightarrow> x)"

text \<open>DRAM ends below \<open>2 ^ 32\<close>, and the region, if any, is not empty and inside.\<close>

definition ram_fits :: "soc_region \<Rightarrow> (nat \<times> nat) option \<Rightarrow> bool" where
  "ram_fits dram r \<longleftrightarrow> unat (rg_start dram) + unat (rg_length dram) < 2 ^ 32 \<and>
     (case r of None \<Rightarrow> True | Some (b, l) \<Rightarrow>
        0 < b \<and> 0 < l \<and> unat (rg_start dram) \<le> b \<and> b + l \<le> unat (rg_start dram) + unat (rg_length dram))"

lemma ram_fits_formed: "ram_fits dram (Some (b, l)) \<Longrightarrow> \<not> ram_ill_formed b l dram \<and> b + l < 2 ^ 32"
  by (simp add: ram_fits_def ram_ill_formed_def unat_word_ariths(1))

lemma parse_ram_line:
  assumes "\<And>b l. r = Some (b, l) \<Longrightarrow> b + l < 2 ^ 32"
  shows "argp_parse (cmd_read_parse_opt drivers argv) (ram_line r) 0 no_mem_args = argp_args (ram_args r)"
    and "r \<noteq> None \<Longrightarrow>
      argp_parse (cmd_write_parse_opt drivers argv) (ram_line r) 0 no_mem_args = argp_args (ram_args r)"
proof -
  have words: "parse_mem_arg (CHR ''0'' # CHR ''x'' # hex_str b) = Some b"
    "parse_mem_arg (CHR ''0'' # CHR ''x'' # hex_str l) = Some l" if "r = Some (b, l)" for b l
    using assms [OF that] by (auto intro!: parse_mem_arg_hex)
  note d = ram_line_def ram_args_def parse_mem_type_def parse_mem_word_def via_or_def argp_check_def
    mem_arg_def no_mem_args_def
  show "argp_parse (cmd_read_parse_opt drivers argv) (ram_line r) 0 no_mem_args = argp_args (ram_args r)"
    using words by (cases r) (auto simp: d cmd_read_parse_opt_def)
  show "r \<noteq> None \<Longrightarrow>
      argp_parse (cmd_write_parse_opt drivers argv) (ram_line r) 0 no_mem_args = argp_args (ram_args r)"
    using words by (cases r) (auto simp: d cmd_write_parse_opt_def)
qed

text \<open>The body of the command, over memory.\<close>

definition ram_services :: "'s services \<Rightarrow> 's soc \<Rightarrow> sdmc \<Rightarrow> bool" where
  "ram_services sv soc ctx \<longleftrightarrow> (\<forall>s. run_state (sv_sdmc sv soc) s = (Some ctx, s)) \<and>
     sdmc_pdata ctx \<in> sdmc_pdatas \<and> unat (rg_start (sdmc_iomem ctx)) mod 4 = 0"

lemma read_ram_body_dumps:
  assumes "ram_console ops invar mem soc span (sv_write sv) (sv_read sv) out inp" "ram_services sv soc ctx"
    and "invar s" "ram_fits (dram_of ctx (mem s)) r" "ram_region ctx (mem s) r = (b, l)"
    and "chunk_spans span (of_nat b) l"
  shows "\<exists>s'. read_ram_body sv (ram_args r) ahb soc s = Some (0, s') \<and> invar s' \<and> mem s' = mem s \<and>
    out s' = out s @ mem_range (mem s) (of_nat b) l"
proof -
  have al: "word_aligned (rg_start (sdmc_iomem ctx))"
    using assms(2) by (simp add: ram_services_def word_aligned_iff)
  let ?s1 = "snd (run_state (sdmc_get_dram soc ctx) s)"
  let ?s2 = "snd (run_state (sdmc_get_vram soc ctx) ?s1)"
  note look = ram_console.dram_lookup [OF assms(1)]
  note d = look(1) [OF assms(3) al] look(2) [OF assms(3) al, of ?s1]
  have d2: "invar ?s2 \<and> mem ?s2 = mem s \<and> out ?s2 = out s"
    using look(2) [of ?s1 ctx ?s2] al d by auto
  have v: "fst (run_state (sdmc_get_vram soc ctx) ?s1) =
      Inr \<lparr>rg_start = rg_start (dram_of ctx (mem s)) + rg_length (dram_of ctx (mem s)) - vram_size ctx (mem s),
           rg_length = vram_size ctx (mem s)\<rparr>"
    using look(1) [of ?s1 ctx] al d by auto
  have sd: "run_state (sv_sdmc sv soc) s = (Some ctx, s)" using assms(2) by (simp add: ram_services_def)
  have lt: "l < 2 ^ 32"
    using assms(4,5) ram_fits_formed by (cases r) (auto simp: ram_region_def ram_fits_def)
  note out = ram_console.siphon_out [OF assms(1) _ lt assms(6)]
  show ?thesis
  proof (cases r)
    case None
    have "unat (vram_size ctx (mem s)) \<le> unat (rg_length (dram_of ctx (mem s)))"
      using vram_size_le assms(2) by (simp add: ram_services_def)
    then have "uint (rg_length (dram_of ctx (mem s)) - vram_size ctx (mem s)) = int l"
      using assms(5) None by (auto simp: ram_region_def uint_nat unat_sub word_le_nat_alt)
    moreover have "rg_start (dram_of ctx (mem s)) = of_nat b"
      using assms(5) None by (auto simp: ram_region_def)
    ultimately show ?thesis using out [of ?s2] d d2 v None sd
      by (simp add: read_ram_body_def ram_args_def no_mem_args_def)
  next
    case (Some x)
    then have x: "r = Some (b, l)" using assms(5) by (simp add: ram_region_def)
    then have "0 < b" "0 < l" "\<not> ram_ill_formed b l (dram_of ctx (mem s))"
      using assms(4) ram_fits_formed by (auto simp: ram_fits_def)
    then show ?thesis using out [of ?s1] d sd x
      by (simp add: read_ram_body_def ram_args_def no_mem_args_def)
  qed
qed


lemma config_kept:
  assumes "unat (rg_start (sdmc_iomem ctx)) + 8 \<le> b" "b + length bs < 2 ^ 32"
  shows "sdmc_config ctx (mem_upd m (of_nat b) bs) = sdmc_config ctx m"
proof -
  let ?a = "rg_start (sdmc_iomem ctx)"
  have keep: "mem_upd m (of_nat b) bs (?a + of_nat k) = m (?a + of_nat k)" if "k < 8" for k
  proof -
    have a: "unat (?a + of_nat k) = unat ?a + k" using that assms by (intro unat_add_of_nat) simp
    have "unat (of_nat b :: u32) = b" using assms(2) by (simp add: unat_of_nat)
    then have "unat (?a + of_nat k - of_nat b) = unat ?a + k + 2 ^ 32 - b"
      using a that assms(1) by (simp add: unat_sub_if_size word_size)
    then have "\<not> unat (?a + of_nat k - of_nat b) < length bs" using assms(2) a that by simp
    then show ?thesis by (simp add: mem_upd_def)
  qed
  from keep [of 4] keep [of 5] keep [of 6] keep [of 7] show ?thesis
    by (simp add: sdmc_config_def MCR_CONFIG_def add.assoc)
qed

lemma write_ram_body_stores:
  assumes "ram_console ops invar mem soc span (sv_write sv) (sv_read sv) out inp" "ram_services sv soc ctx"
    and "invar s" "ram_fits (dram_of ctx (mem s)) (Some (b, l))"
    and "\<forall>k m. k + m \<le> l \<longrightarrow> span (of_nat b + of_nat k) m"
  shows "\<exists>s'. write_ram_body sv (ram_args (Some (b, l))) ahb soc s = Some (0, s') \<and> invar s' \<and>
    mem s' = mem_upd (mem s) (of_nat b) (take l (inp s)) \<and> inp s' = drop l (inp s) \<and> out s' = out s"
proof -
  have al: "word_aligned (rg_start (sdmc_iomem ctx))"
    using assms(2) by (simp add: ram_services_def word_aligned_iff)
  have sd: "run_state (sv_sdmc sv soc) s = (Some ctx, s)" using assms(2) by (simp add: ram_services_def)
  let ?s1 = "snd (run_state (sdmc_get_dram soc ctx) s)"
  note look = ram_console.dram_lookup [OF assms(1)]
  note d = look(1) [OF assms(3) al] look(2) [OF assms(3) al, of ?s1]
  note f = ram_fits_formed [OF assms(4)]
  obtain s' where "soc_siphon_in soc (sv_read sv) (of_nat b) (int l) ?s1 = Some (0, s')" "invar s'"
    "mem s' = mem_upd (mem s) (of_nat b) (take l (inp s))" "inp s' = drop l (inp s)" "out s' = out s"
    using ram_console.siphon_in [OF assms(1), of ?s1 l "of_nat b"] d f assms(5) by auto
  then show ?thesis using d f sd
    by (simp add: write_ram_body_def ram_args_def no_mem_args_def)
qed


section \<open>A console beside the P2A bridge\<close>

text \<open>The standard output so far and the standard input to come.\<close>

definition con_write :: "u8 list \<Rightarrow> ('b \<times> u8 list \<times> u8 list, int) state" where
  "con_write bs = do { modify (\<lambda>(b, o', i). (b, o' @ bs, i)); ret (int (length bs)) }"

definition con_read :: "nat \<Rightarrow> ('b \<times> u8 list \<times> u8 list, int + u8 list) state" where
  "con_read n = do { bs \<leftarrow> gets (\<lambda>(b, o', i). take n i); modify (\<lambda>(b, o', i). (b, o', drop n i)); ret (Inr bs) }"

interpretation p2a_console: ram_console "ops_beside (p2ab_ahb_ops (p2a_mmio ram_target) 0)" "\<lambda>p. p2a_ok (fst p)"
    "\<lambda>p. ph_bus (p2_hw (fst p))" "p2a_soc_beside rv dt ram_target" p2a_span con_write con_read
    "\<lambda>p. fst (snd p)" "\<lambda>p. snd (snd p)"
proof (intro ram_console.intro p2a_dev.soc_dev_axioms p2a_bulk.aside)
  have "k \<le> n \<and> (0 < n \<longrightarrow> xs \<noteq> [] \<longrightarrow> 0 < k) \<and> take k xs = take n xs \<and> drop k xs = drop n xs"
    if "k = min n (length xs)" for k n and xs :: "u8 list"
    using that by (auto simp: min_def)
  then have rd: "\<exists>k\<le>n. (0 < n \<longrightarrow> xs \<noteq> [] \<longrightarrow> 0 < k) \<and> take k xs = take n xs \<and> drop k xs = drop n xs"
    for n and xs :: "u8 list" by blast
  show "ram_console_axioms (ops_beside (p2ab_ahb_ops (p2a_mmio ram_target) 0)) (\<lambda>p. p2a_ok (fst p))
      (\<lambda>p. ph_bus (p2_hw (fst p))) con_write con_read (\<lambda>p. fst (snd p)) (\<lambda>p. snd (snd p))"
  proof
    show "fd_sink con_write (\<lambda>p. fst (snd p)) (\<lambda>p. p2a_ok (fst p)) (\<lambda>p. ph_bus (p2_hw (fst p)))"
      unfolding fd_sink_def by (auto simp: con_write_def intro!: exI [where P = "\<lambda>n. _ n \<and> _ n"])
    show "fd_source con_read (\<lambda>p. snd (snd p)) (\<lambda>p. p2a_ok (fst p)) (\<lambda>p. ph_bus (p2_hw (fst p)))"
      unfolding fd_source_def using rd by (fastforce simp: con_read_def)
  qed (auto simp: con_write_def con_read_def ops_beside_def)
qed

section \<open>Properties\<close>

text \<open>
  Claim C13. \<open>read --type=ram\<close> from the command line to the standard output: for any bridge that
  serves the copy, any memory controller of the three generations with its DRAM below
  \<open>2 ^ 32\<close>, and a region inside DRAM or none, the command writes exactly the bytes of the region,
  or of all DRAM below the video memory, changes no memory, gives the status 0 and
  releases what it acquired.
\<close>

theorem read_ram_dumps:
  assumes "ram_console ops invar mem soc span (sv_write sv) (sv_read sv) out inp" "ram_services sv soc ctx"
    and "acquires se no_connection s host a soc s1" "invar s1"
    and "ram_fits (dram_of ctx (mem s1)) r" "ram_region ctx (mem s1) r = (b, l)" "chunk_spans span (of_nat b) l"
  shows "\<exists>s2. do_read se sv argv (ram_line r) s = Some (Inr 0, released se host soc s2) \<and>
    out s2 = out s1 @ mem_range (mem s1) (of_nat b) l \<and> mem s2 = mem s1"
proof -
  have fits: "b + l < 2 ^ 32" if "r = Some (b, l)" for b l
    using assms(5) ram_fits_formed that by blast
  obtain s2 where s2: "read_ram_body sv (ram_args r) (se_ahb se a) soc s1 = Some (0, s2)" "mem s2 = mem s1"
    "out s2 = out s1 @ mem_range (mem s1) (of_nat b) l"
    using read_ram_body_dumps [OF assms(1,2,4-7)] by blast
  have args: "rd_connection (ram_args r) = no_connection" "rd_mode (ram_args r) = read_ram"
    "\<not> UINT32_MAX - rd_mem_size (ram_args r) < rd_mem_base (ram_args r)"
    using fits by (auto simp: ram_args_def no_mem_args_def UINT32_MAX_def split: option.split)
  have "with_soc se no_connection Inr (- ENODEV) (\<lambda>rc. rc) (\<lambda>ahb soc. tidy (read_ram_body sv (ram_args r) ahb soc)) s =
      Some (Inr 0, released se host soc s2)"
    by (rule with_soc_acquired [OF assms(3)]) (simp add: s2(1))
  then show ?thesis
    using s2(2,3) args parse_ram_line(1) [OF fits, of r "se_drivers se" argv]
    by (intro exI [of _ s2]) (simp add: do_read_def cmd_read_ram_def)
qed

text \<open>A 1 GiB AST2500 at \<open>0x80000000\<close>: the configuration register is memory too.\<close>

definition console_services :: "sdmc \<Rightarrow> ('b \<times> u8 list \<times> u8 list) os_clock \<Rightarrow> ('b \<times> u8 list \<times> u8 list) services" where
  "console_services ctx os = (no_services os)\<lparr>sv_sdmc := (\<lambda>soc. ret (Some ctx)),
     sv_read := con_read, sv_write := con_write\<rparr>"

definition console_clock :: "('b \<times> u8 list \<times> u8 list) os_clock" where
  "console_clock = \<lparr>clk_gettime = ret (0, 0), clk_nanosleep = (\<lambda>t. ret 0)\<rparr>"

definition console_session :: "'s soc \<Rightarrow> ('s, unit) session" where
  "console_session soc = \<lparr>
     se_drivers = [\<lparr>drv_name = ''p2a'', drv_release = None, drv_reinit = None, drv_path_required = False,
       drv_local = False, drv_disabled = False, drv_probe = (\<lambda>c. ret (Some ())), drv_destroy = (\<lambda>a. ret ())\<rparr>],
     se_ahb = (\<lambda>_. soc_ahb soc), se_probe = (\<lambda>a. ret (Inr soc)), se_destroy = (\<lambda>soc. ret ()), se_junk = 0 \<rparr>"

lemma console_session_acquires:
  "acquires (console_session soc) no_connection s \<lparr>h_bridges = [(0, ())]\<rparr> () soc s"
  by (simp add: acquires_def console_session_def host_init_def host_probe_bridge_def no_connection_def
      host_get_ahb_def)

lemma console_services_ram:
  "ram_services (console_services (sdmc_example ast2500_sdmc_pdata) os) soc (sdmc_example ast2500_sdmc_pdata)"
  by (simp add: ram_services_def console_services_def sdmc_example_def sdmc_pdatas_def)

lemma chunk_spans_one:
  assumes "l \<le> nat AHB_CHUNK" "span a l"
  shows "chunk_spans span a l"
  unfolding chunk_spans_def
proof (intro allI impI)
  fix k
  assume "k * nat AHB_CHUNK < l"
  then show "span (a + of_nat (k * nat AHB_CHUNK)) (min (nat AHB_CHUNK) (l - k * nat AHB_CHUNK))"
    using assms by (cases k) auto
qed

lemma p2a_chunks:
  assumes "unat a mod 0x10000 = 0"
  shows "chunk_spans p2a_span a l"
proof -
  have "unat (a + of_nat j) mod 0x10000 = (unat a + j) mod 0x10000" for j
    by (simp add: unat_word_ariths(1) unat_of_nat mod_mod_cancel mod_add_right_eq)
  moreover have "(unat a + k * nat AHB_CHUNK) mod 0x10000 = 0" for k
    using assms by (simp add: AHB_CHUNK_def mod_add_eq [symmetric])
  ultimately have "unat (a + of_nat (k * nat AHB_CHUNK)) mod 0x10000 = 0" for k by presburger
  then show ?thesis by (auto simp: chunk_spans_def p2a_span_def AHB_CHUNK_def)
qed

abbreviation ram_soc :: "((u32 \<Rightarrow> u8) p2a_hw p2ab \<times> 'w) soc" where
  "ram_soc \<equiv> p2a_soc_beside 0x04030303 example_fdt ram_target"

abbreviation ram_mcr :: sdmc where
  "ram_mcr \<equiv> sdmc_example ast2500_sdmc_pdata"

lemma zero_dram [simp]:
  "dram_of ram_mcr (\<lambda>_. 0) = \<lparr>rg_start = 0x80000000, rg_length = 0x8000000\<rparr>" "vram_size ram_mcr (\<lambda>_. 0) = 0x800000"
  by (simp_all add: dram_of_def vram_size_def sdmc_dram_region_def sdmc_config_def sdmc_example_def
      ast2500_sdmc_pdata_def ast2500_dram_sizes_def ast_vram_sizes_def le_word_def)

theorem read_ram_dumps_witness:
  "\<exists>s2. do_read (console_session ram_soc) (console_services ram_mcr console_clock) [] (ram_line None)
      (p2a_start (\<lambda>_. 0), [], []) = Some (Inr 0, s2)"
proof -
  have "\<exists>s2. do_read (console_session ram_soc) (console_services ram_mcr console_clock) [] (ram_line None)
        (p2a_start (\<lambda>_. 0), [], []) =
      Some (Inr 0, released (console_session ram_soc) \<lparr>h_bridges = [(0, ())]\<rparr> ram_soc s2) \<and>
    fst (snd s2) = fst (snd (p2a_start (\<lambda>_. 0 :: u8), [], [] :: u8 list)) @ mem_range (\<lambda>_. 0) (of_nat 0x80000000) 0x7800000 \<and>
    ph_bus (p2_hw (fst s2)) = (\<lambda>_. 0)"
    using read_ram_dumps [OF _ console_services_ram console_session_acquires, of "ops_beside (p2ab_ahb_ops (p2a_mmio ram_target) 0)"
        "\<lambda>p. p2a_ok (fst p)"
        "\<lambda>p. ph_bus (p2_hw (fst p))" ram_soc p2a_span console_clock "\<lambda>p. fst (snd p)" "\<lambda>p. snd (snd p)"
        "(p2a_start (\<lambda>_. 0), [], [])" None "0x80000000" "0x7800000" "[]"]
      p2a_console.ram_console_axioms [of "0x04030303" example_fdt] p2a_chunks [of "0x80000000" "0x7800000"]
    by (simp add: console_services_def ram_fits_def ram_region_def)
  then show ?thesis by blast
qed


text \<open>
  Claim C15. What \<open>write --type=ram\<close> stores, \<open>read --type=ram\<close> of the same region gives back: for any
  region inside DRAM, away from the registers of the memory controller, and at least as much
  input, the write takes exactly the region's bytes from the standard input, puts them into
  memory and changes nothing else, and the read then writes these bytes to the standard output.
\<close>

theorem ram_write_read:
  assumes "ram_console ops invar mem soc span (sv_write sv) (sv_read sv) out inp" "ram_services sv soc ctx"
    and "invar s" "ram_fits (dram_of ctx (mem s)) (Some (b, l))" "l \<le> length (inp s)"
    and "\<forall>k m. k + m \<le> l \<longrightarrow> span (of_nat b + of_nat k) m" "chunk_spans span (of_nat b) l"
    and "unat (rg_start (sdmc_iomem ctx)) + 8 \<le> b"
  shows "\<exists>s1 s2. write_ram_body sv (ram_args (Some (b, l))) ahb soc s = Some (0, s1) \<and>
    mem s1 = mem_upd (mem s) (of_nat b) (take l (inp s)) \<and> inp s1 = drop l (inp s) \<and> out s1 = out s \<and>
    read_ram_body sv (ram_args (Some (b, l))) ahb soc s1 = Some (0, s2) \<and>
    out s2 = out s @ take l (inp s) \<and> mem s2 = mem s1"
proof -
  obtain s1 where s1: "write_ram_body sv (ram_args (Some (b, l))) ahb soc s = Some (0, s1)" "invar s1"
    "mem s1 = mem_upd (mem s) (of_nat b) (take l (inp s))" "inp s1 = drop l (inp s)" "out s1 = out s"
    using write_ram_body_stores [OF assms(1-4,6)] by blast
  have len: "length (take l (inp s)) = l" "b + l < 2 ^ 32"
    using assms(5) ram_fits_formed [OF assms(4)] by simp_all
  then have "dram_of ctx (mem s1) = dram_of ctx (mem s)"
    using config_kept [OF assms(8), of "take l (inp s)"] s1(3) by (simp add: dram_of_def)
  then obtain s2 where s2: "read_ram_body sv (ram_args (Some (b, l))) ahb soc s1 = Some (0, s2)" "mem s2 = mem s1"
    "out s2 = out s1 @ mem_range (mem s1) (of_nat b) l"
    using read_ram_body_dumps [OF assms(1,2) s1(2), of "Some (b, l)" b l] assms(4,7)
    by (auto simp: ram_region_def)
  have "mem_range (mem s1) (of_nat b) l = take l (inp s)"
    using mem_range_upd [of "take l (inp s)" "mem s" "of_nat b"] len s1(3) by simp
  then show ?thesis using s1 s2 by auto
qed

theorem ram_write_read_witness:
  "\<exists>s1 s2. write_ram_body (console_services ram_mcr console_clock) (ram_args (Some (0x80000010, 3))) (soc_ahb ram_soc)
     ram_soc (p2a_start (\<lambda>_. 0), [], [1, 2, 3, 4]) = Some (0, s1) \<and>
   read_ram_body (console_services ram_mcr console_clock) (ram_args (Some (0x80000010, 3))) (soc_ahb ram_soc) ram_soc s1 =
     Some (0, s2) \<and> fst (snd s2) = [1, 2, 3]"
proof -
  have sp: "\<forall>k m. k + m \<le> 3 \<longrightarrow> p2a_span (of_nat 0x80000010 + of_nat k) m"
  proof (intro allI impI)
    fix k m :: nat
    assume "k + m \<le> 3"
    then have "unat ((0x80000010 :: u32) + of_nat k) = 0x80000010 + k" "m \<le> 3 - k" "k \<le> 3"
      by (simp_all add: unat_word_ariths(1) unat_of_nat)
    moreover have "k = 0 \<or> k = 1 \<or> k = 2 \<or> k = 3" using calculation(3) by auto
    ultimately show "p2a_span (of_nat 0x80000010 + of_nat k) m" by (auto simp: p2a_span_def)
  qed
  have con: "ram_console (ops_beside (p2ab_ahb_ops (p2a_mmio ram_target) 0)) (\<lambda>p. p2a_ok (fst p))
      (\<lambda>p. ph_bus (p2_hw (fst p))) ram_soc p2a_span (sv_write (console_services ram_mcr console_clock))
      (sv_read (console_services ram_mcr console_clock)) (\<lambda>p. fst (snd p)) (\<lambda>p. snd (snd p))"
    using p2a_console.ram_console_axioms by (simp add: console_services_def)
  have ch: "chunk_spans p2a_span (of_nat 0x80000010) 3"
    by (rule chunk_spans_one) (simp_all add: p2a_span_def AHB_CHUNK_def)
  let ?s = "(p2a_start (\<lambda>_. 0), [], [1, 2, 3, 4]) :: (u32 \<Rightarrow> u8) p2a_hw p2ab \<times> u8 list \<times> u8 list"
  have fits: "ram_fits (dram_of ram_mcr (ph_bus (p2_hw (fst ?s)))) (Some (0x80000010, 3))"
    by (simp add: ram_fits_def)
  have mc: "unat (rg_start (sdmc_iomem ram_mcr)) + 8 \<le> 0x80000010" by (simp add: sdmc_example_def)
  have "p2a_ok (fst ?s)" "3 \<le> length (snd (snd ?s))" by simp_all
  from ram_write_read [OF con console_services_ram this(1) fits this(2) sp ch mc, of "soc_ahb ram_soc"]
  show ?thesis by simp blast
qed

text \<open>
  Claim C22. DRAM that ends at \<open>2 ^ 32\<close>, as the 2 GiB of an AST2600 at \<open>0x80000000\<close> do, cannot be
  accessed: its end is computed in 32 bits, where it is 0, so every region that is given
  to \<open>write\<close>, to \<open>read\<close> or to \<open>coprocessor run\<close> is refused as ill-formed, wherever it lies, with
  nothing copied.
\<close>

theorem ram_top_refused:
  assumes "soc_bus ops invar reg eff soc" "invar s" "run_state (sv_sdmc sv soc) s = (Some ctx, s)"
    and "unat (rg_start (sdmc_iomem ctx)) mod 4 = 0" "sdmc_pdata ctx = ast2600_sdmc_pdata"
    and "reg s (rg_start (sdmc_iomem ctx) + MCR_CONFIG) AND 3 = 3" "rg_start (sdmc_dram ctx) = 0x80000000"
    and "rd_mem_base a \<noteq> 0" "rd_mem_size a \<noteq> 0" "cp_mem_size c \<noteq> 0" "soc_generation soc = Some ast_g6"
  shows "let s' = snd (run_state (sdmc_get_dram soc ctx) s) in reg s' = reg s \<and>
    write_ram_body sv a ahb soc s = Some (- EINVAL, s') \<and>
    read_ram_body sv a ahb soc s = Some (- EINVAL, s') \<and>
    coprocessor_run_body sv c ahb soc s = Some (EXIT_FAILURE, s')"
proof -
  have al: "word_aligned (rg_start (sdmc_iomem ctx))" using assms(4) by (simp add: word_aligned_iff)
  let ?r = "run_state (sdmc_get_dram soc ctx) s"
  let ?dram = "\<lparr>rg_start = 0x80000000, rg_length = 0x80000000\<rparr> :: soc_region"
  have r: "fst ?r = Inr ?dram" "reg (snd ?r) = reg s"
    using soc_bus.sdmc_readl_ok(4,5) [OF assms(1,2) al] assms(5-7)
    by (simp_all add: sdmc_get_dram_def sdmc_dram_region_def ast2600_sdmc_pdata_def ast2600_dram_sizes_def
        MCR_CONFIG_def)
  have "ram_ill_formed b l ?dram" if "l \<noteq> 0" for b l
    using that by (simp add: ram_ill_formed_def)
  then show ?thesis
    using r assms(3,8-11)
    by (simp add: write_ram_body_def read_ram_body_def coprocessor_run_body_def Let_def)
qed

theorem ram_top_refused_witness:
  "write_ram_body ((no_services \<lparr>clk_gettime = ret (0, 0), clk_nanosleep = (\<lambda>t. ret 0)\<rparr>)
       \<lparr>sv_sdmc := (\<lambda>soc. ret (Some (sdmc_example ast2600_sdmc_pdata)))\<rparr>)
     (ram_args (Some (0x90000000, 0x1000))) (p2a_ahb (regfile plain_eff)) (p2a_soc 0x05030303 example_fdt (regfile plain_eff))
     (p2a_start ((\<lambda>_. 0)(0x1e6e0004 := 3))) =
   Some (- EINVAL, snd (run_state (sdmc_get_dram (p2a_soc 0x05030303 example_fdt (regfile plain_eff))
     (sdmc_example ast2600_sdmc_pdata)) (p2a_start ((\<lambda>_. 0)(0x1e6e0004 := 3)))))"
proof -
  have g: "soc_generation (p2a_soc 0x05030303 example_fdt (regfile plain_eff)) = Some ast_g6"
    by (simp add: soc_generation_def p2a_soc_def rev_generation_def)
  show ?thesis
    using ram_top_refused [OF p2a_soc.soc_bus_axioms p2a_start_inv [where t = "(\<lambda>_. 0)(0x1e6e0004 := 3)"] _ _ _ _ _ _ _ _ g,
        where ctx = "sdmc_example ast2600_sdmc_pdata"
        and sv = "(no_services \<lparr>clk_gettime = ret (0, 0), clk_nanosleep = (\<lambda>t. ret 0)\<rparr>)
          \<lparr>sv_sdmc := (\<lambda>soc. ret (Some (sdmc_example ast2600_sdmc_pdata)))\<rparr>"
        and a = "ram_args (Some (0x90000000, 0x1000))"
        and c = "\<lparr>cp_mem_base = 0, cp_mem_size = 1, cp_connection = no_connection, cp_mode = coproc_run\<rparr>"
        and ahb = "p2a_ahb (regfile plain_eff)"]
    by (simp add: sdmc_example_def MCR_CONFIG_def ram_args_def no_mem_args_def Let_def)
qed

end
