(* ===== verification/Firmware.thy ===== *)
theory Firmware
  imports ReadWrite
begin

text \<open>
  What \<open>write --type=firmware\<close> leaves in the flash, over the contract of a NOR flash: whole
  blocks only.
\<close>

section \<open>The blocks of an image\<close>

text \<open>The part of an image that is written: its whole blocks.\<close>

definition whole_blocks :: "u8 list \<Rightarrow> u8 list" where
  "whole_blocks img = take (0x10000 * (length img div 0x10000)) img"

lemma whole_blocks_short: "length img < 0x10000 \<Longrightarrow> whole_blocks img = []"
  by (simp add: whole_blocks_def)

lemma whole_blocks_step:
  assumes "0x10000 \<le> length img"
  shows "whole_blocks img = take 0x10000 img @ whole_blocks (drop 0x10000 img)"
proof -
  have "length img div 0x10000 = Suc ((length img - 0x10000) div 0x10000)"
    using assms by (simp add: le_div_geq)
  then have "0x10000 * (length img div 0x10000) = 0x10000 + 0x10000 * ((length img - 0x10000) div 0x10000)"
    by simp
  then show ?thesis by (simp add: whole_blocks_def take_add)
qed

text \<open>
  The flash and the image beside each other: the controller leaves the input alone (its contract
  holds for every input that is left), and a read of the input gives a whole block as long as
  there is one, as that of a regular file does.
\<close>

locale image_flash =
  fixes sv :: "'s services" and ct :: "'s sfc" and ok nmem wen busy n rd wr and inp :: "'s \<Rightarrow> u8 list"
  assumes flash: "nor_flash ct (\<lambda>s. ok s \<and> inp s = x) nmem wen busy n rd wr"
    and whole_read: "ok s \<Longrightarrow> busy s = 0 \<Longrightarrow> r = run_state (sv_read sv SFC_FLASH_WIN) s \<Longrightarrow>
      fst r = Inr (take 0x10000 (inp s)) \<and> inp (snd r) = drop 0x10000 (inp s) \<and> ok (snd r) \<and>
      busy (snd r) = 0 \<and> nmem (snd r) = nmem s"
begin

lemma block:
  assumes "ok s" "busy s = 0" "length bs = 0x10000" "unat d mod 0x10000 = 0" "unat d + 0x10000 \<le> unat (fc_tsize c)"
    and "unat (fc_tsize c) \<le> n" "fc_min_erase_mask c = 0xfff" "\<not> fc_mode_4b c" "erase_fits c 0x10000"
  shows "\<exists>s'. write_block ct c d bs s = Some (0, s') \<and> ok s' \<and> busy s' = 0 \<and> inp s' = inp s \<and>
    nmem s' = nor_put (nmem s) (unat d) bs"
proof -
  let ?ok = "\<lambda>t. ok t \<and> inp t = inp s"
  note rdy = nor_flash.ready_def [OF flash [of "inp s"]]
  have "0x10000 dvd unat d" using assms(4) by (simp add: mod_eq_0_iff_dvd)
  then have "0x1000 dvd unat d" "0x100 dvd unat d" by (rule dvd_trans [rotated], simp)+
  then have al: "unat d mod 0x1000 = 0" "unat d mod 0x100 = 0" by (simp_all add: mod_eq_0_iff_dvd)
  obtain s1 where s1: "flash_erase ct c (ucast d) (of_nat (length bs)) s = Some (0, s1)" "?ok s1" "busy s1 = 0"
    "nmem s1 = nor_erase (nmem s) (unat d) 0x10000"
    using nor_flash.flash_erase_erases [OF flash [of "inp s"], of s "ucast d" "0x10000" c] assms al rdy by auto
  have "nor_program (nmem s1) (unat d) bs = nor_put (nmem s1) (unat d) bs"
    unfolding s1(4) using nor_erase_program [of "unat d" "unat d" bs "0x10000" "nmem s"] assms(3) by simp
  moreover have "bs \<noteq> []" using assms(3) by auto
  ultimately obtain s2 where s2: "flash_write ct c d bs True s1 = Some (0, s2)" "?ok s2" "busy s2 = 0"
    "nmem s2 = nor_put (nmem s1) (unat d) bs"
    using nor_flash.flash_write_puts [OF flash [of "inp s"], of s1 bs d c True] assms(3,5-8) al(2) s1(2,3) rdy
    by (auto simp: verify_fits_def)
  have "nmem s2 = nor_put (nmem s) (unat d) bs"
    unfolding s2(4) s1(4) using assms(3) by (auto simp: nor_put_def nor_erase_def fun_eq_iff)
  then show ?thesis using s1 s2 by (subst write_block.simps) simp
qed

lemma blocks:
  assumes "ok s" "busy s = 0" "unat d mod 0x10000 = 0"
    and "unat d + length (whole_blocks (inp s)) \<le> unat (fc_tsize c)" "unat (fc_tsize c) \<le> n"
    and "fc_min_erase_mask c = 0xfff" "\<not> fc_mode_4b c" "erase_fits c 0x10000"
  shows "\<exists>s'. write_blocks sv ct c d s = Some (0, s') \<and> ok s' \<and> busy s' = 0 \<and>
    nmem s' = nor_put (nmem s) (unat d) (whole_blocks (inp s))"
  using assms(1-4)
proof (induction "length (inp s)" arbitrary: d s rule: less_induct)
  case less
  let ?r = "run_state (sv_read sv SFC_FLASH_WIN) s"
  note r = whole_read [OF less.prems(1,2) refl]
  show ?case
  proof (cases "length (inp s) < 0x10000")
    case True
    then show ?thesis using r whole_blocks_short [OF True]
      by (subst write_blocks.simps) (simp add: split_def SFC_FLASH_WIN_def)
  next
    case False
    then have ge: "0x10000 \<le> length (inp s)" by simp
    let ?bs = "take 0x10000 (inp s)"
    note w = whole_blocks_step [OF ge]
    have len: "length ?bs = 0x10000" using ge by simp
    have room: "unat d + 0x10000 + length (whole_blocks (drop 0x10000 (inp s))) \<le> unat (fc_tsize c)"
      using less.prems(4) w len by simp
    obtain s1 where s1: "write_block ct c d ?bs (snd ?r) = Some (0, s1)" "ok s1" "busy s1 = 0"
      "inp s1 = drop 0x10000 (inp s)" "nmem s1 = nor_put (nmem s) (unat d) ?bs"
      using block [of "snd ?r" ?bs d c] r len room less.prems(3) assms(5-8) by auto
    have "unat (fc_tsize c) < 2 ^ 32" by simp
    then have "unat d + 0x10000 < 2 ^ 32" using room by linarith
    then have u: "unat (d + 0x10000) = unat d + 0x10000"
      using unat_add_of_nat [of d "0x10000"] by simp
    then have "unat (d + 0x10000) mod 0x10000 = 0" using less.prems(3) by simp
    moreover have "length (inp s1) < length (inp s)" using ge s1(4) by simp
    ultimately obtain s2 where s2: "write_blocks sv ct c (d + 0x10000) s1 = Some (0, s2)" "ok s2" "busy s2 = 0"
      "nmem s2 = nor_put (nmem s1) (unat d + 0x10000) (whole_blocks (drop 0x10000 (inp s)))"
      using less.hyps [of s1 "d + 0x10000"] s1(2-4) u room by auto
    have "nmem s2 = nor_put (nmem s) (unat d) (whole_blocks (inp s))"
      unfolding w nor_put_append s2(4) s1(5) len by simp
    then show ?thesis using r s1(1) s2 len
      by (subst write_blocks.simps) (simp add: split_def SFC_FLASH_WIN_def)
  qed
qed

end

section \<open>Identification\<close>

text \<open>An idle chip that answers with the identifier of the W25Q128 and stays in 3-byte mode.\<close>

lemma flash_init_w25q128:
  assumes "op_chip_id ct = None" "op_cmd_rd ct = Some rd" "op_setup ct = Some f" "\<And>info t. f info t = ret (Inr t)"
    and "op_set_4b ct = Some g" "run_state (rd CMD_RDSR None 1) s = (Inr [st], s1)" "st AND STAT_WIP = 0"
    and "run_state (rd CMD_RDID None 3) s1 = (Inr spi_ident, s2)"
    and "run_state (g (fc_info w25q128) False) s2 = (0, s3)"
  shows "flash_init ct s = Some (Inr w25q128, s3)"
proof -
  have info: "List.find (\<lambda>i. fi_id i = 0xef4018) flash_infos = Some (fc_info w25q128)"
    by (simp add: flash_infos_def w25q128_def)
  have flags: "fi_size (fc_info w25q128) = 0x1000000" "fi_flags (fc_info w25q128) AND FL_ERASE_4K \<noteq> 0"
    "fi_flags (fc_info w25q128) AND FL_CAN_4B = 0"
    by (simp_all add: w25q128_def flash_infos_def flash_flags)
  have iid: "(push_bit 16 (ucast (spi_ident ! 0)) OR push_bit 8 (ucast (spi_ident ! 1))) OR ucast (spi_ident ! 2) =
      (0xef4018 :: u32)" "\<not> length spi_ident < 3"
    by (simp_all add: spi_ident_def)
  have "fl_read_stat ct s = Some (Inr st, s1)" using assms(2,6) by (simp add: fl_read_stat_def)
  then have "fl_chip_id ct s = Some (Inr spi_ident, s2)" using assms(2,7,8) by (simp add: fl_chip_id_def)
  then have "flash_identify ct s =
      Some (Inr \<lparr>fc_info = fc_info w25q128, fc_tsize = 0x1000000, fc_min_erase_mask = 0xfff, fc_mode_4b = False\<rparr>, s2)"
    using assms(1,3,4) iid info flags
    by (simp add: flash_identify_def Let_def min_erase_mask_of_def)
  moreover have "\<lparr>fc_info = fc_info w25q128, fc_tsize = 0x1000000, fc_min_erase_mask = 0xfff, fc_mode_4b = False\<rparr> = w25q128"
    by (simp add: w25q128_def)
  ultimately show ?thesis
    using assms(5,9) flags by (simp add: flash_init_def flash_configure_def flash_ctrl_4b_def Let_def)
qed

context spi_sfc
begin

lemma ident_steps:
  assumes "ok s" "sp_busy (dev s) = 0" "sf_type (sx_ct s) = SFC_TYPE_FMC"
  obtains st s1 s2 where "run_state (sfc_cmd_rd soc CMD_RDSR None 1) s = (Inr [st], s1)" "st AND STAT_WIP = 0"
    "run_state (sfc_cmd_rd soc CMD_RDID None 3) s1 = (Inr spi_ident, s2)"
    "run_state (sfc_set_4b soc (fc_info w25q128) False) s2 = (0, s2)"
    "ok s2" "sp_busy (dev s2) = 0" "sp_mem (dev s2) = sp_mem (dev s)"
proof -
  let ?q = "run_state (sfc_cmd_rd soc CMD_RDSR None 1) s"
  let ?s1 = "snd ?q"
  obtain k g where d: "dev ?s1 = (spi_execute (sent s [CMD_RDSR] k))\<lparr>sp_regs := g\<rparr>"
    using cmd_rd(3) [OF assms(1) refl, of CMD_RDSR None 1] by (auto simp: addr_bytes_def)
  have s1: "fst ?q = Inr [spi_status (sent s [CMD_RDSR] 0)]" "ok ?s1" "sx_ct ?s1 = sx_ct s"
    "sp_busy (dev ?s1) = 0" "sp_mem (dev ?s1) = sp_mem (dev s)"
    using cmd_rd(1,2,4) [OF assms(1) refl, of CMD_RDSR None 1] d assms(2)
    by (simp_all add: addr_bytes_def spi_answer_def spi_execute_def)
  let ?r = "run_state (sfc_cmd_rd soc CMD_RDID None 3) ?s1"
  obtain k g where d2: "dev (snd ?r) = (spi_execute (sent ?s1 [CMD_RDID] k))\<lparr>sp_regs := g\<rparr>"
    using cmd_rd(3) [OF s1(2) refl, of CMD_RDID None 3] by (auto simp: addr_bytes_def)
  have "CMD_RDID \<noteq> CMD_RDSR" "CMD_RDID \<noteq> CMD_MIC_RDFLST" "CMD_RDID \<noteq> CMD_WREN" "CMD_RDID \<noteq> CMD_CE"
    "CMD_RDID \<noteq> CMD_MIC_BULK_ERASE" by (simp_all add: flash_cmds)
  then have s2: "fst ?r = Inr spi_ident" "ok (snd ?r)" "sx_ct (snd ?r) = sx_ct s"
    "sp_busy (dev (snd ?r)) = 0" "sp_mem (dev (snd ?r)) = sp_mem (dev s)"
    using cmd_rd(1,2,4) [OF s1(2) refl, of CMD_RDID None 3] d2 s1
    by (simp_all add: addr_bytes_def spi_answer_def spi_execute_def spi_ident_def upt_rec)
  have "run_state (sfc_set_4b soc (fc_info w25q128) False) (snd ?r) = (0, snd ?r)"
    using s2(3) assms(3) by (simp add: sfc_set_4b_def w25q128_def flash_infos_def SFC_TYPE_FMC_def SFC_TYPE_SMC_def Let_def)
  moreover have "spi_status (sent s [CMD_RDSR] 0) AND STAT_WIP = 0"
    using assms(2) by (simp add: spi_status_def STAT_WIP_def STAT_WEN_def)
  ultimately show thesis using that [of _ ?s1 "snd ?r"] s1(1) s2 by (simp add: prod_eq_iff)
qed

end

section \<open>The chain beside a file\<close>

definition sfc_beside :: "'s sfc \<Rightarrow> ('s \<times> 'w) sfc" where
  "sfc_beside ct = \<lparr>
     op_setup = map_option (\<lambda>f i t. beside (f i t)) (op_setup ct),
     op_set_4b = map_option (\<lambda>f i e. beside (f i e)) (op_set_4b ct),
     op_chip_id = map_option beside (op_chip_id ct),
     op_direct_read = map_option (\<lambda>f a l. beside (f a l)) (op_direct_read ct),
     op_write = map_option (\<lambda>f a bs. beside (f a bs)) (op_write ct),
     op_erase = map_option (\<lambda>f a l. beside (f a l)) (op_erase ct),
     op_cmd_rd = map_option (\<lambda>f c a l. beside (f c a l)) (op_cmd_rd ct),
     op_cmd_wr = map_option (\<lambda>f c a bs. beside (f c a bs)) (op_cmd_wr ct)\<rparr>"

lemma nor_beside:
  assumes "nor_flash ct ok nmem wen busy n rd wr"
  shows "nor_flash (sfc_beside ct) (\<lambda>p. ok (fst p) \<and> snd p = x) (\<lambda>p. nmem (fst p)) (\<lambda>p. wen (fst p))
    (\<lambda>p. busy (fst p)) n (\<lambda>c a l. beside (rd c a l)) (\<lambda>c a bs. beside (wr c a bs))"
proof (unfold_locales, goal_cases)
  case (6 s r)
  then show ?case using nor_flash.status [OF assms, of "fst s" _, OF _ refl] by auto
next
  case (7 s s')
  then show ?case using nor_flash.flags [OF assms, of "fst s", OF _ _ refl] by auto
next
  case (8 s q)
  then show ?case using nor_flash.wren [OF assms, of "fst s", OF _ _ refl] by auto
next
  case (9 s bs a q)
  then show ?case using nor_flash.program [OF assms, of "fst s" bs a, OF _ _ _ _ _ _ refl] by auto
next
  case (10 s cmd k a q)
  then show ?case using nor_flash.erase [OF assms, of "fst s" cmd k a, OF _ _ _ _ _ refl] by auto
next
  case (11 s a l r)
  then show ?case using nor_flash.read [OF assms, of "fst s" a l, OF _ _ _ _ _ refl]
    by (cases "op_direct_read ct") (auto simp: sfc_beside_def)
qed (use nor_flash.cmds [OF assms] nor_flash.simple [OF assms] nor_flash.size32 [OF assms] in
  \<open>simp_all add: sfc_beside_def\<close>)

lemma beside_ret: "beside (ret v) = ret v"
  by (simp add: beside_def zoom_def State_Monad.return_def)

definition file_read :: "nat \<Rightarrow> ('b \<times> u8 list, int + u8 list) state" where
  "file_read l = do { bs \<leftarrow> gets (\<lambda>p. take l (snd p)); modify (\<lambda>p. (fst p, drop l (snd p))); ret (Inr bs) }"

text \<open>The FMC of an AST2500 with its clocks and its virtual UART, and the image on the standard input.\<close>

definition image_services :: "u32 \<Rightarrow> fdt \<Rightarrow> (spi_dev p2a_hw p2ab sfc_st \<times> u8 list) services" where
  "image_services rv dt = (no_services \<lparr>clk_gettime = ret (0, 0), clk_nanosleep = (\<lambda>t. ret 0)\<rparr>)\<lparr>
     sv_clk := (\<lambda>soc. ret (Some \<lparr>clk_rate_ahb = ret 0, clk_disable_op = (\<lambda>c. ret 0), clk_enable_op = (\<lambda>c. ret 0)\<rparr>)),
     sv_vuart := (\<lambda>soc. ret (Some \<lparr>vu_iomem = \<lparr>rg_start = 0x1e787000, rg_length = 0x40\<rparr>\<rparr>)),
     sv_sfc := (\<lambda>soc name. ret (Some \<lparr>sh_ops = sfc_beside (sfc_ops (fmc_soc rv dt)),
       sh_protect_save = (\<lambda>b. ret (Inr 0)), sh_protect_restore = (\<lambda>v. ret 0),
       sh_get_flash = ret (Inr (snd fmc_regions))\<rparr>)),
     sv_read := file_read\<rparr>"

interpretation fmc_image: image_flash "image_services rv dt" "sfc_beside (sfc_ops (fmc_soc rv dt))"
    "\<lambda>p. fmc.ok (fst p)" "\<lambda>p. sp_mem (fmc_chip (fst p))" "\<lambda>p. sp_wel (fmc_chip (fst p))"
    "\<lambda>p. sp_busy (fmc_chip (fst p))" SPI_SIZE
    "\<lambda>c a l. beside (sfc_cmd_rd (fmc_soc rv dt) c a l)" "\<lambda>c a bs. beside (sfc_cmd_wr (fmc_soc rv dt) c a bs)" snd
  by (rule image_flash.intro [OF nor_beside [OF fmc.nor]])
    (simp add: image_services_def file_read_def SFC_FLASH_WIN_def)

section \<open>Properties\<close>

text \<open>
  Claim C14. \<open>write --type=firmware\<close> writes the whole 64 KiB blocks of its input and drops the rest
  without an error: on a bridge that is local to the BMC, over any chip with 4 KiB erase pages
  and blocks that fit, the command ends with status 0 and has replaced exactly the first
  bytes of the flash by the whole blocks of the image; a shorter image changes nothing.
\<close>

theorem write_firmware_whole_blocks:
  assumes "image_flash sv (sh_ops sfc) ok nmem wen busy n rd wr inp" "drv_local (ahb_drv ahb)"
    and "run_state (sv_clk sv soc) s = (Some clk, s)" "run_state (sv_vuart sv soc) s = (Some vuart, s)"
    and "run_state (sv_sfc sv soc ''fmc'') s = (Some sfc, s)"
    and "flash_init (sh_ops sfc) s = Some (Inr c, s1)" "ok s1" "busy s1 = 0"
    and "length (inp s1) \<le> unat (fc_tsize c)" "unat (fc_tsize c) \<le> n"
    and "fc_min_erase_mask c = 0xfff" "\<not> fc_mode_4b c" "erase_fits c 0x10000"
  shows "\<exists>s2. write_firmware_body sv ahb soc s = Some ((0, True), s2) \<and>
    nmem s2 = nor_put (nmem s1) 0 (whole_blocks (inp s1)) \<and>
    (length (inp s1) < 0x10000 \<longrightarrow> nmem s2 = nmem s1)"
proof -
  have "length (whole_blocks (inp s1)) \<le> unat (fc_tsize c)"
    using assms(9) by (simp add: whole_blocks_def)
  then obtain s2 where "write_blocks sv (sh_ops sfc) c 0 s1 = Some (0, s2)"
    "nmem s2 = nor_put (nmem s1) 0 (whole_blocks (inp s1))"
    using image_flash.blocks [OF assms(1,7,8), of 0 c] assms(10-13) by auto
  then show ?thesis
    using assms(2-6) by (auto simp: write_firmware_body_def write_cleanup_state_def whole_blocks_short)
qed


text \<open>A bridge local to the BMC: the command asks it for nothing but that.\<close>

definition local_ahb :: "'s ahb" where
  "local_ahb = \<lparr>ahb_drv = \<lparr>drv_name = ''devmem'', drv_release = None, drv_reinit = None,
       drv_path_required = False, drv_local = True, drv_disabled = False\<rparr>,
     ahb_ops = \<lparr>ops_read = (\<lambda>a l. ret (Inl (- EIO))), ops_write = (\<lambda>a bs. ret (- EIO)),
       ops_readl = (\<lambda>a. ret (Inl (- EIO))), ops_writel = (\<lambda>a v. ret (- EIO))\<rparr>\<rparr>"

theorem write_firmware_whole_blocks_witness:
  "\<exists>s2. write_firmware_body (image_services 0x04030303 example_fdt) local_ahb
      \<lparr>soc_rev = 0x04030303, soc_fdt = example_fdt, soc_ahb = local_ahb\<rparr>
      (fmc_start (blank_chip 3 (\<lambda>_. 0)), replicate 0x10003 7) = Some ((0, True), s2) \<and>
    sp_mem (fmc_chip (fst s2)) = nor_put (\<lambda>_. 0) 0 (replicate 0x10000 7)"
proof -
  let ?ct = "sfc_ops (fmc_soc 0x04030303 example_fdt)" and ?s = "fmc_start (blank_chip 3 (\<lambda>_. 0))"
  have type: "sf_type (sx_ct ?s) = SFC_TYPE_FMC" by (simp add: fmc_start_def sfc_new_def)
  obtain st s1 s2 where i: "run_state (sfc_cmd_rd (fmc_soc 0x04030303 example_fdt) CMD_RDSR None 1) ?s = (Inr [st], s1)"
    "st AND STAT_WIP = 0" "run_state (sfc_cmd_rd (fmc_soc 0x04030303 example_fdt) CMD_RDID None 3) s1 = (Inr spi_ident, s2)"
    "run_state (sfc_set_4b (fmc_soc 0x04030303 example_fdt) (fc_info w25q128) False) s2 = (0, s2)"
    "fmc.ok s2" "sp_busy (fmc_chip s2) = 0" "sp_mem (fmc_chip s2) = (\<lambda>_. 0)"
    using fmc.ident_steps [OF fmc_start_ok [of 3 "\<lambda>_. 0"] _ type, of "0x04030303" example_fdt] by auto
  have init: "flash_init (sfc_beside ?ct) (?s, replicate 0x10003 7) = Some (Inr w25q128, s2, replicate 0x10003 7)"
    by (rule flash_init_w25q128 [where rd = "\<lambda>c a l. beside (sfc_cmd_rd (fmc_soc 0x04030303 example_fdt) c a l)"
        and f = "\<lambda>i t. beside (sfc_setup i t)"
        and g = "\<lambda>i e. beside (sfc_set_4b (fmc_soc 0x04030303 example_fdt) i e)" and st = st and ?s1.0 = "(s1, replicate 0x10003 7)"
        and ?s2.0 = "(s2, replicate 0x10003 7)"])
      (use i in \<open>simp_all add: sfc_beside_def sfc_ops_def sfc_setup_def beside_ret\<close>)
  have fits: "erase_fits w25q128 0x10000" by (simp add: erase_fits_def w25q128_def flash_infos_def flash_flags)
  have len: "length (snd (s2, replicate 0x10003 (7 :: u8))) \<le> unat (fc_tsize w25q128)" by simp
  have whole: "whole_blocks (replicate 0x10003 7) = replicate 0x10000 7"
    by (simp add: whole_blocks_def)
  let ?sv = "image_services 0x04030303 example_fdt"
  let ?h = "\<lparr>sh_ops = sfc_beside ?ct, sh_protect_save = (\<lambda>b. ret (Inr 0)), sh_protect_restore = (\<lambda>v. ret 0),
       sh_get_flash = ret (Inr (snd fmc_regions))\<rparr> :: (spi_dev p2a_hw p2ab sfc_st \<times> u8 list) sfc_handle"
  have "image_flash ?sv (sh_ops ?h) (\<lambda>p. fmc.ok (fst p)) (\<lambda>p. sp_mem (fmc_chip (fst p))) (\<lambda>p. sp_wel (fmc_chip (fst p)))
    (\<lambda>p. sp_busy (fmc_chip (fst p))) SPI_SIZE
    (\<lambda>c a l. beside (sfc_cmd_rd (fmc_soc 0x04030303 example_fdt) c a l))
    (\<lambda>c a bs. beside (sfc_cmd_wr (fmc_soc 0x04030303 example_fdt) c a bs)) snd"
    using fmc_image.image_flash_axioms by simp
  note flash = this
  let ?soc = "\<lparr>soc_rev = 0x04030303, soc_fdt = example_fdt, soc_ahb = local_ahb\<rparr> ::
      (spi_dev p2a_hw p2ab sfc_st \<times> u8 list) soc"
  obtain clk vuart where sv: "run_state (sv_clk ?sv ?soc) t = (Some clk, t)"
    "run_state (sv_vuart ?sv ?soc) t = (Some vuart, t)"
    "run_state (sv_sfc ?sv ?soc name) t = (Some ?h, t)" for t name
    by (simp add: image_services_def)
  have "drv_local (ahb_drv (local_ahb :: (spi_dev p2a_hw p2ab sfc_st \<times> u8 list) ahb))"
    by (simp add: local_ahb_def)
  note w = write_firmware_whole_blocks [OF flash this sv(1) [of "(?s, replicate 0x10003 7)"] sv(2) sv(3),
    of w25q128 "(s2, replicate 0x10003 7)"]
  have "\<exists>s3. write_firmware_body ?sv local_ahb ?soc (?s, replicate 0x10003 7) = Some ((0, True), s3) \<and>
      sp_mem (fmc_chip (fst s3)) = nor_put (sp_mem (fmc_chip (fst (s2, replicate 0x10003 (7 :: u8))))) 0
        (whole_blocks (snd (s2, replicate 0x10003 7))) \<and>
      (length (snd (s2, replicate 0x10003 (7 :: u8))) < 0x10000 \<longrightarrow>
        sp_mem (fmc_chip (fst s3)) = sp_mem (fmc_chip (fst (s2, replicate 0x10003 (7 :: u8)))))"
    by (rule w) (use init i(5-7) fits len in \<open>simp_all add: SPI_SIZE_def\<close>)
  with i(7) whole
  show ?thesis by auto
qed

end
