(* ===== verification/Replace.thy ===== *)
theory Replace
  imports ReadWrite
begin

text \<open>
  The command that replaces a string in DRAM, \<^verbatim>\<open>src/cmd/replace.c\<close>: window by window, every
  occurrence in the copy that was read is overwritten in memory.
\<close>

section \<open>The command\<close>

definition DUMP_RAM_WIN :: nat where "DUMP_RAM_WIN = 8 * 2 ^ 20"

record cmd_replace_args =
  rp_match :: "string option"
  rp_replace :: "string option"
  rp_connection :: connection_args

fun parse_replace :: "nat \<Rightarrow> string \<Rightarrow> cmd_replace_args \<Rightarrow> cmd_replace_args argp" where
  "parse_replace 0 arg a = argp_check (arg = ''ram'') (argp_args a)"
| "parse_replace (Suc 0) arg a = argp_args (a\<lparr>rp_match := Some arg\<rparr>)"
| "parse_replace (Suc (Suc 0)) arg a = argp_args (a\<lparr>rp_replace := Some arg\<rparr>)"
| "parse_replace n arg a = argp_args a"

text \<open>
  The lengths are compared only where both strings were given: without one, which the words
  after \<open>via\<close> can hide, \<open>strlen\<close> follows \<open>NULL\<close>, for which the handler below is stuck.
\<close>

definition end_replace :: "nat \<Rightarrow> cmd_replace_args \<Rightarrow> cmd_replace_args argp" where
  "end_replace n a = argp_check (\<not> n < 3)
     (case (rp_match a, rp_replace a) of
        (Some m, Some r) \<Rightarrow> argp_check (\<not> length m < length r) (argp_args a)
      | _ \<Rightarrow> argp_args a)"

definition cmd_replace_parse_opt :: "('s, 'b) host_driver list \<Rightarrow> string list \<Rightarrow> cmd_replace_args parser" where
  "cmd_replace_parse_opt drivers argv = \<lparr>
     on_opt = no_options,
     on_word = via_or drivers argv rp_connection (\<lambda>c a. a\<lparr>rp_connection := c\<rparr>) parse_replace,
     on_end = end_replace \<rparr>"

definition string_bytes :: "string \<Rightarrow> u8 list" where
  "string_bytes = map of_char"

text \<open>
  The search in the window that was read, from an offset on: \<open>rc\<close> is the status so far. A match
  of the empty string is found again for ever.
\<close>

partial_function (option) replace_scan ::
  "'s ahb \<Rightarrow> nat \<Rightarrow> u8 list \<Rightarrow> u8 list \<Rightarrow> u8 list \<Rightarrow> nat \<Rightarrow> int \<Rightarrow> 's \<Rightarrow> (int \<times> 's) option" where
  "replace_scan ahb cursor win m r pos rc s =
     (case memmem (drop pos win) m of
        None \<Rightarrow> Some (rc, s)
      | Some i \<Rightarrow>
          (let (rc, s1) = run_state (ahb_write ahb (of_nat (cursor + pos + i)) r) s
           in if rc < 0 \<or> rc \<noteq> int (length r) \<or> pos + i + length m > DUMP_RAM_WIN then Some (rc, s1)
              else replace_scan ahb cursor win m r (pos + i + length m) rc s1))"

text \<open>The windows: a failing write only ends the search in its window.\<close>

partial_function (option) replace_windows ::
  "'s ahb \<Rightarrow> u8 list \<Rightarrow> u8 list \<Rightarrow> nat \<Rightarrow> nat \<Rightarrow> int \<Rightarrow> 's \<Rightarrow> (int \<times> 's) option" where
  "replace_windows ahb m r cursor end' rc s =
     (if \<not> cursor < end' then Some (rc, s)
      else let (res, s1) = run_state (ahb_read ahb (of_nat cursor) DUMP_RAM_WIN) s
           in case res of
                Inl e \<Rightarrow> Some (e, s1)
              | Inr win \<Rightarrow>
                  if length win \<noteq> DUMP_RAM_WIN then Some (int (length win), s1)
                  else Option.bind (replace_scan ahb cursor win m r 0 (int DUMP_RAM_WIN) s1) (\<lambda>(rc, s2).
                    replace_windows ahb m r (cursor + DUMP_RAM_WIN) end' rc s2))"

definition replace_body :: "'s services \<Rightarrow> u8 list \<Rightarrow> u8 list \<Rightarrow> 's ahb \<Rightarrow> 's soc \<Rightarrow> ('s, int) act" where
  "replace_body sv m r ahb soc =
     need (sv_sdmc sv soc) EXIT_FAILURE (\<lambda>sdmc.
     act_val (act_run (sdmc_get_dram soc sdmc)) (\<lambda>dram.
     act_val (act_run (sdmc_get_vram soc sdmc)) (\<lambda>vram.
       replace_windows ahb m r (unat (rg_start dram)) (unat (rg_start vram)) 0)))"

definition do_replace ::
  "('s, 'a) session \<Rightarrow> 's services \<Rightarrow> string list \<Rightarrow> argp_event list \<Rightarrow> ('s, int + int) act" where
  "do_replace se sv argv events =
     (case argp_parse (cmd_replace_parse_opt (se_drivers se) argv) events 0
             \<lparr>rp_match = None, rp_replace = None, rp_connection = no_connection\<rparr> of
        argp_exit st \<Rightarrow> act_ret (Inl st)
      | argp_args a \<Rightarrow>
          (case (rp_match a, rp_replace a) of
             (Some m, Some r) \<Rightarrow>
               with_soc se (rp_connection a) (\<lambda>rc. Inr EXIT_FAILURE) EXIT_FAILURE (\<lambda>rc. rc)
                 (\<lambda>ahb soc. tidy (replace_body sv (string_bytes m) (string_bytes r) ahb soc))
           | _ \<Rightarrow> act_stuck))"

section \<open>What a scan replaces\<close>

text \<open>
  The specification: the leftmost occurrence is overwritten, what is left of it stays, and the
  search goes on behind it.
\<close>

function replace_all :: "'a list \<Rightarrow> 'a list \<Rightarrow> 'a list \<Rightarrow> 'a list" where
  "replace_all m r bs =
     (if m = [] then bs else
      case memmem bs m of
        None \<Rightarrow> bs
      | Some i \<Rightarrow> take i bs @ r @ drop (length r) m @ replace_all m r (drop (i + length m) bs))"
  by pat_completeness auto

lemma memmem_Some:
  "memmem bs m = Some i \<Longrightarrow> i + length m \<le> length bs \<and> take (length m) (drop i bs) = m"
proof (induction bs m arbitrary: i rule: memmem.induct)
  case (2 c cs needle)
  show ?case
  proof (cases "take (length needle) (c # cs) = needle")
    case True
    then have "length needle \<le> length (c # cs)" by (metis length_take min.cobounded1)
    then show ?thesis using 2(2) True by simp
  next
    case False
    then obtain j where "memmem cs needle = Some j" "i = Suc j" using 2(2) by auto
    then show ?thesis using 2(1) [OF False] by simp
  qed
qed (simp split: if_splits)

termination replace_all
proof (relation "measure (\<lambda>(m, r, bs). length bs)")
  fix m r bs :: "'a list" and i
  assume h: "m \<noteq> []" "memmem bs m = Some i"
  then have "0 < length m" "i + length m \<le> length bs" using memmem_Some [OF h(2)] by auto
  then have "length (drop (i + length m) bs) < length bs" unfolding length_drop by linarith
  then show "((m, r, drop (i + length m) bs), m, r, bs) \<in> measure (\<lambda>(m, r, bs). length bs)" by simp
qed simp

declare replace_all.simps [simp del]

lemma memmem_split:
  assumes "memmem bs m = Some i"
  shows "bs = take i bs @ m @ drop (i + length m) bs"
proof -
  have "take i bs @ take (length m) (drop i bs) @ drop (length m) (drop i bs) = bs"
    by (metis append_take_drop_id)
  moreover have "drop (length m) (drop i bs) = drop (i + length m) bs" by (simp add: add.commute)
  ultimately show ?thesis using memmem_Some [OF assms] by simp
qed

lemma length_replace_all: "length r \<le> length m \<Longrightarrow> length (replace_all m r bs) = length bs"
proof (induction m r bs rule: replace_all.induct)
  case (1 m r bs)
  show ?case
  proof (cases "m = [] \<or> memmem bs m = None")
    case False
    then obtain i where i: "memmem bs m = Some i" "m \<noteq> []" by auto
    then show ?thesis
      using 1(1) [OF i(2,1) 1(2)] 1(2) memmem_Some [OF i(1)]
      by (subst replace_all.simps) (simp add: Let_def)
  qed (auto simp: replace_all.simps [of m r bs])
qed

lemma mem_upd_same: "mem_range m a (length bs) = bs \<Longrightarrow> mem_upd m a bs = m"
proof
  fix x
  assume h: "mem_range m a (length bs) = bs"
  show "mem_upd m a bs x = m x"
  proof (cases "unat (x - a) < length bs")
    case True
    then have "bs ! unat (x - a) = m (a + of_nat (unat (x - a)))"
      using h by (metis (no_types, lifting) length_mem_range mem_range_def nth_map_upt add_0 diff_zero)
    then show ?thesis using True by (simp add: mem_upd_def)
  qed (simp add: mem_upd_def)
qed


text \<open>The memory after the windows from \<open>a\<close> on.\<close>

fun replaced_windows :: "nat \<Rightarrow> u32 \<Rightarrow> u8 list \<Rightarrow> u8 list \<Rightarrow> (u32 \<Rightarrow> u8) \<Rightarrow> (u32 \<Rightarrow> u8)" where
  "replaced_windows 0 a m r mem = mem"
| "replaced_windows (Suc n) a m r mem = replaced_windows n (a + of_nat DUMP_RAM_WIN) m r
     (mem_upd mem a (replace_all m r (mem_range mem a DUMP_RAM_WIN)))"

lemma mem_range_disjoint:
  assumes "length bs + l + k \<le> 2 ^ 32" "length bs \<le> k"
  shows "mem_range (mem_upd m a bs) (a + of_nat k) l = mem_range m (a + of_nat k) l"
proof (rule nth_equalityI)
  fix i
  assume "i < length (mem_range (mem_upd m a bs) (a + of_nat k) l)"
  then have "i < l" by simp
  then have "unat (of_nat (k + i) :: u32) = k + i" using assms(1) \<open>i < l\<close> by (simp add: unat_of_nat del: of_nat_add)
  moreover have "a + of_nat k + of_nat i - a = of_nat (k + i)" by simp
  ultimately have "unat (a + of_nat k + of_nat i - a) = k + i" by metis
  then show "mem_range (mem_upd m a bs) (a + of_nat k) l ! i = mem_range m (a + of_nat k) l ! i"
    using \<open>i < l\<close> assms(2) by (simp add: mem_range_def mem_upd_def)
qed simp


section \<open>The scan over memory\<close>

text \<open>Storing \<open>r\<close> over the first occurrence of \<open>m\<close> in the window \<open>bs\<close> at \<open>a\<close>: the parts up to it, and the rest.\<close>

lemma store_over:
  assumes "mem_range m0 a (length bs) = bs" "memmem bs m = Some i" "length r \<le> length m" "length bs \<le> DUMP_RAM_WIN"
    and "m1 = mem_upd m0 (a + of_nat i) r"
  shows "mem_upd m0 a (take i bs @ r @ drop (length r) m) = m1"
    and "mem_range m1 (a + of_nat (i + length m)) (length bs - (i + length m)) = drop (i + length m) bs"
proof -
  let ?q = "i + length m" and ?b = "a + of_nat i" and ?x = "take i bs" and ?z = "drop (length r) m"
  have q: "?q \<le> length bs" using memmem_Some [OF assms(2)] by (auto simp: min_def split: if_splits)
  then have lx: "length ?x = i" by simp
  have "bs = mem_range m0 a (i + (length m + (length bs - ?q)))" using assms(1) q by (simp add: algebra_simps)
  also have "\<dots> = mem_range m0 a i @ mem_range m0 ?b (length m) @ mem_range m0 (a + of_nat ?q) (length bs - ?q)"
    by (simp add: mem_range_append algebra_simps)
  finally have "mem_range m0 a i @ mem_range m0 ?b (length m) @ mem_range m0 (a + of_nat ?q) (length bs - ?q) =
      ?x @ m @ drop ?q bs"
    using memmem_split [OF assms(2)] by simp
  then have parts: "mem_range m0 a i = ?x" "mem_range m0 ?b (length m) = m"
    "mem_range m0 (a + of_nat ?q) (length bs - ?q) = drop ?q bs"
    using lx by (simp_all add: append_eq_append_conv)
  have len: "length r + (length bs - ?q) + length m \<le> 2 ^ 32" "length r + length ?z + length r \<le> 2 ^ 32"
    "length ?x + length (r @ ?z) \<le> 2 ^ 32" "length r + length ?z \<le> 2 ^ 32"
    using q assms(3,4) lx by (simp_all add: DUMP_RAM_WIN_def)
  have z: "mem_range m0 (?b + of_nat (length r)) (length ?z) = ?z"
    using mem_range_split [OF assms(3), of m0 ?b] parts(2) by (metis append_eq_conv_conj length_drop length_mem_range)
  have "mem_upd m0 a (?x @ r @ ?z) = mem_upd (mem_upd m0 a ?x) (a + of_nat (length ?x)) (r @ ?z)"
    by (rule mem_upd_append [OF len(3), symmetric])
  also have "\<dots> = mem_upd m0 ?b (r @ ?z)" using mem_upd_same [of m0 a ?x] parts(1) lx by simp
  also have "\<dots> = mem_upd (mem_upd m0 ?b r) (?b + of_nat (length r)) ?z"
    by (rule mem_upd_append [OF len(4), symmetric])
  also have "\<dots> = m1" using mem_upd_same mem_range_disjoint [OF len(2), of m0 ?b] z assms(5) by simp
  finally show "mem_upd m0 a (?x @ r @ ?z) = m1" .
  have b: "?b + of_nat (length m) = a + of_nat ?q" by (simp add: algebra_simps)
  show "mem_range m1 (a + of_nat ?q) (length bs - ?q) = drop ?q bs"
    using mem_range_disjoint [OF len(1) assms(3), of m0 ?b] parts(3) unfolding assms(5) b by metis
qed

context ahb_ram
begin

lemma scan:
  assumes "ahb_ops ahb = ops" "invar s" "m \<noteq> []" "length r \<le> length m" "\<forall>a. span a (length r)"
    and "length win = DUMP_RAM_WIN" "pos \<le> length win" "0 \<le> rc"
    and "mem_range (mem s) (of_nat (cursor + pos)) (length win - pos) = drop pos win"
  shows "\<exists>rc' s'. replace_scan ahb cursor win m r pos rc s = Some (rc', s') \<and> invar s' \<and>
    mem s' = mem_upd (mem s) (of_nat (cursor + pos)) (replace_all m r (drop pos win)) \<and>
    (0 < rc \<longrightarrow> r \<noteq> [] \<longrightarrow> 0 < rc')"
  using assms(2,7-)
proof (induction "length win - pos" arbitrary: pos rc s rule: less_induct)
  case less
  let ?a = "of_nat (cursor + pos) :: u32"
  show ?case
  proof (cases "memmem (drop pos win) m")
    case None
    then show ?thesis
      using less.prems mem_upd_same [of "mem s" ?a "drop pos win"]
      by (subst replace_scan.simps) (simp add: replace_all.simps [of m])
  next
    case (Some i)
    let ?bs = "drop pos win" and ?q = "pos + i + length m"
    have i: "i + length m \<le> length ?bs" using memmem_Some [OF Some] by blast
    have m: "0 < length m" using assms(3) by simp
    have q: "?q \<le> length win" "length win - ?q < length win - pos" using i m less.prems(2) unfolding length_drop by linarith+
    let ?b = "of_nat (cursor + pos + i) :: u32"
    let ?s1 = "snd (run_state (ops_write ops ?b r) s)"
    have sp: "span ?b (length r)" using assms(5) by blast
    note s1 = write_rc [OF less.prems(1) sp] write_mem [OF less.prems(1) sp] write_inv [OF less.prems(1) sp]
    have dq: "drop (i + length m) ?bs = drop ?q win" by (simp add: ac_simps)
    let ?new = "take i ?bs @ r @ drop (length r) m" and ?t = "replace_all m r (drop ?q win)"
    have at: "of_nat (cursor + pos) + of_nat i = ?b" "of_nat (cursor + pos) + of_nat (i + length m) = (of_nat (cursor + ?q) :: u32)"
      by (simp_all add: algebra_simps)
    have "mem ?s1 = mem_upd (mem s) (?a + of_nat i) r" unfolding at(1) by (rule s1(2))
    note over = store_over [OF _ Some assms(4) _ this]
    have first: "mem_upd (mem s) ?a ?new = mem ?s1"
      by (rule over(1)) (use less.prems(4) assms(6) in simp_all)
    have "mem_range (mem ?s1) (?a + of_nat (i + length m)) (length ?bs - (i + length m)) = drop (i + length m) ?bs"
      by (rule over(2)) (use less.prems(4) assms(6) in simp_all)
    then have rest: "mem_range (mem ?s1) (of_nat (cursor + ?q)) (length win - ?q) = drop ?q win"
      unfolding at(2) dq by (simp add: algebra_simps)
    have len: "length ?new + length ?t \<le> 2 ^ 32" "length ?new = i + length m"
      using i q(1) assms(4,6) length_replace_all [OF assms(4), of "drop ?q win"] by (simp_all add: DUMP_RAM_WIN_def)
    obtain rc' s' where s': "replace_scan ahb cursor win m r ?q (int (length r)) ?s1 = Some (rc', s')" "invar s'"
      "mem s' = mem_upd (mem ?s1) (of_nat (cursor + ?q)) ?t" "r \<noteq> [] \<Longrightarrow> 0 < rc'"
      using less.hyps [OF q(2) s1(3) q(1) _ rest, of "int (length r)"] by auto
    have "mem s' = mem_upd (mem s) ?a (?new @ ?t)"
      using mem_upd_append [OF len(1), of "mem s" ?a] unfolding s'(3) first len(2) at(2) .
    moreover have "replace_all m r ?bs = ?new @ ?t"
      using Some assms(3) dq by (simp add: replace_all.simps [of m r ?bs])
    moreover have "run_state (ahb_write ahb ?b r) s = (int (length r), ?s1)"
      using s1(1) assms(1) by (simp add: ahb_write_def prod_eq_iff)
    ultimately show ?thesis
      using Some s' q(1) assms(6) by (subst replace_scan.simps) auto
  qed
qed

lemma windows:
  assumes "ahb_ops ahb = ops" "m \<noteq> []" "length r \<le> length m" "\<forall>a. span a (length r)"
    and "invar s" "end' \<le> cursor + n * DUMP_RAM_WIN" "cursor + n * DUMP_RAM_WIN < end' + DUMP_RAM_WIN"
    and "\<forall>k<n. span (of_nat (cursor + k * DUMP_RAM_WIN)) DUMP_RAM_WIN"
  shows "\<exists>rc' s'. replace_windows ahb m r cursor end' rc s = Some (rc', s') \<and> invar s' \<and>
    mem s' = replaced_windows n (of_nat cursor) m r (mem s) \<and> (0 < n \<or> 0 < rc \<longrightarrow> r \<noteq> [] \<longrightarrow> 0 < rc')"
  using assms(5-)
proof (induction n arbitrary: cursor rc s)
  case 0
  then show ?case by (subst replace_windows.simps) simp
next
  case (Suc n)
  let ?a = "of_nat cursor :: u32"
  let ?r = "run_state (ops_read ops ?a DUMP_RAM_WIN) s"
  have sp: "span ?a DUMP_RAM_WIN" using Suc.prems(4) by (auto dest: spec [of _ 0])
  note rd = read_val [OF Suc.prems(1) sp] read_mem [OF Suc.prems(1) sp] read_inv [OF Suc.prems(1) sp]
  let ?win = "mem_range (mem s) ?a DUMP_RAM_WIN"
  obtain rc1 s1 where s1: "replace_scan ahb cursor ?win m r 0 (int DUMP_RAM_WIN) (snd ?r) = Some (rc1, s1)" "invar s1"
    "mem s1 = mem_upd (mem s) ?a (replace_all m r ?win)" "r \<noteq> [] \<longrightarrow> 0 < rc1"
    using scan [OF assms(1) rd(3) assms(2-4), of ?win 0 "int DUMP_RAM_WIN" cursor] rd(2)
    by (auto simp: DUMP_RAM_WIN_def)
  have "\<forall>k<n. span (of_nat (cursor + DUMP_RAM_WIN + k * DUMP_RAM_WIN)) DUMP_RAM_WIN"
  proof (intro allI impI)
    fix k
    assume "k < n"
    then have "span (of_nat (cursor + Suc k * DUMP_RAM_WIN)) DUMP_RAM_WIN" using Suc.prems(4) by blast
    then show "span (of_nat (cursor + DUMP_RAM_WIN + k * DUMP_RAM_WIN)) DUMP_RAM_WIN"
      by (simp add: algebra_simps)
  qed
  then obtain rc2 s2 where s2: "replace_windows ahb m r (cursor + DUMP_RAM_WIN) end' rc1 s1 = Some (rc2, s2)" "invar s2"
    "mem s2 = replaced_windows n (of_nat (cursor + DUMP_RAM_WIN)) m r (mem s1)" "0 < n \<or> 0 < rc1 \<longrightarrow> r \<noteq> [] \<longrightarrow> 0 < rc2"
    using Suc.IH [OF s1(2), of "cursor + DUMP_RAM_WIN" rc1] Suc.prems(2,3) by (auto simp: algebra_simps)
  have "cursor < end'" using Suc.prems(3) by (simp add: DUMP_RAM_WIN_def)
  then show ?case
    using s1 s2 rd(1) assms(1)
    by (subst replace_windows.simps) (auto simp: ahb_read_def split_def)
qed

end

section \<open>Properties\<close>

text \<open>The windows from the start of DRAM to the video memory, rounded up.\<close>

definition ram_windows :: "sdmc \<Rightarrow> (u32 \<Rightarrow> u8) \<Rightarrow> nat" where
  "ram_windows ctx m = (unat (rg_length (dram_of ctx m)) - unat (vram_size ctx m) + (DUMP_RAM_WIN - 1)) div DUMP_RAM_WIN"

lemma string_bytes_simps [simp]:
  "length (string_bytes s) = length s" "string_bytes s = [] \<longleftrightarrow> s = []"
  by (simp_all add: string_bytes_def)

lemma unat_vram_start:
  assumes "sdmc_pdata ctx \<in> sdmc_pdatas" "ram_fits (dram_of ctx m) None"
  shows "unat (rg_start (dram_of ctx m) + rg_length (dram_of ctx m) - vram_size ctx m) =
    unat (rg_start (dram_of ctx m)) + (unat (rg_length (dram_of ctx m)) - unat (vram_size ctx m))"
proof -
  let ?d = "dram_of ctx m"
  have v: "0 < unat (vram_size ctx m)" "unat (vram_size ctx m) \<le> unat (rg_length ?d)"
    using vram_fits [OF assms(1), of "drop_bit 2 (sdmc_config ctx m)" "sdmc_config ctx m"]
    by (simp_all add: vram_size_def dram_of_def sdmc_dram_region_def)
  have "unat (rg_start ?d) + unat (rg_length ?d) \<le> 2 ^ 32" using assms(2) by (simp add: ram_fits_def)
  from unat_top_region [OF this v(2,1)] v(2) show ?thesis by simp
qed

text \<open>
  Claim C16. \<open>replace ram MATCH REPLACE\<close> from its command line to memory: with a match that is not
  empty and a replacement that is not longer, the command returns, and in each window of 8 MiB
  from the start of DRAM up to the video memory every occurrence, the leftmost first, begins
  with the replacement and keeps the rest of the match; nothing else changes, and an occurrence that
  crosses windows stays. The status is then positive, so the success is reported as a
  failure.
\<close>

theorem replace_ram:
  assumes "ram_console ops invar mem soc span (sv_write sv) (sv_read sv) out inp" "ram_services sv soc ctx"
    and "acquires se no_connection s host a soc s1" "invar s1" "ahb_ops (se_ahb se a) = ops"
    and "ram_fits (dram_of ctx (mem s1)) None"
    and "m \<noteq> []" "length r \<le> length m" "m \<noteq> ''via''" "r \<noteq> ''via''" "\<forall>a. span a (length r)"
    and "\<forall>k < ram_windows ctx (mem s1).
      span (of_nat (unat (rg_start (dram_of ctx (mem s1))) + k * DUMP_RAM_WIN)) DUMP_RAM_WIN"
  shows "\<exists>rc s2. do_replace se sv argv (words [''ram'', m, r]) s = Some (Inr rc, released se host soc s2) \<and>
    mem s2 = replaced_windows (ram_windows ctx (mem s1)) (rg_start (dram_of ctx (mem s1)))
      (string_bytes m) (string_bytes r) (mem s1) \<and>
    (0 < ram_windows ctx (mem s1) \<and> r \<noteq> [] \<longrightarrow> 0 < rc)"
proof -
  have al: "word_aligned (rg_start (sdmc_iomem ctx))" and pd: "sdmc_pdata ctx \<in> sdmc_pdatas"
    and sd: "\<And>s. run_state (sv_sdmc sv soc) s = (Some ctx, s)"
    using assms(2) by (simp_all add: ram_services_def word_aligned_iff)
  let ?d = "dram_of ctx (mem s1)" and ?n = "ram_windows ctx (mem s1)"
  let ?t1 = "snd (run_state (sdmc_get_dram soc ctx) s1)"
  let ?t2 = "snd (run_state (sdmc_get_vram soc ctx) ?t1)"
  let ?top = "rg_start ?d + rg_length ?d - vram_size ctx (mem s1)"
  note look = ram_console.dram_lookup [OF assms(1)]
  have d: "fst (run_state (sdmc_get_dram soc ctx) s1) = Inr ?d" "invar ?t1" "mem ?t1 = mem s1"
    using look(1) [OF assms(4) al] look(2) [OF assms(4) al, of ?t1] by simp_all
  have v: "fst (run_state (sdmc_get_vram soc ctx) ?t1) = Inr \<lparr>rg_start = ?top, rg_length = vram_size ctx (mem s1)\<rparr>"
    "invar ?t2" "mem ?t2 = mem s1"
    using look(1) [OF d(2) al] look(2) [OF d(2) al, of ?t2] d(3) by simp_all
  let ?l = "unat (rg_length ?d) - unat (vram_size ctx (mem s1))"
  have div: "?l \<le> ?n * DUMP_RAM_WIN" "?n * DUMP_RAM_WIN < ?l + DUMP_RAM_WIN"
    unfolding ram_windows_def by (simp_all add: DUMP_RAM_WIN_def)
  have ram: "ahb_ram ops invar mem span" by (rule ram_console.axioms(2) [OF assms(1)])
  obtain rc s2 where s2: "replace_windows (se_ahb se a) (string_bytes m) (string_bytes r) (unat (rg_start ?d)) (unat ?top) 0 ?t2 =
      Some (rc, s2)" "mem s2 = replaced_windows ?n (rg_start ?d) (string_bytes m) (string_bytes r) (mem s1)"
    "0 < ?n \<longrightarrow> r \<noteq> [] \<longrightarrow> 0 < rc"
    using ahb_ram.windows [OF ram assms(5), of "string_bytes m" "string_bytes r" ?t2 "unat ?top" "unat (rg_start ?d)" ?n 0]
      assms(7,8,11,12) v(2,3) div unat_vram_start [OF pd assms(6)] by auto
  have body: "replace_body sv (string_bytes m) (string_bytes r) (se_ahb se a) soc s1 = Some (rc, s2)"
    using d v sd s2(1) by (simp add: replace_body_def)
  have "argp_parse (cmd_replace_parse_opt (se_drivers se) argv) (words [''ram'', m, r]) 0
      \<lparr>rp_match = None, rp_replace = None, rp_connection = no_connection\<rparr> =
    argp_args \<lparr>rp_match = Some m, rp_replace = Some r, rp_connection = no_connection\<rparr>"
    using assms(8-10)
    by (simp add: words_def cmd_replace_parse_opt_def via_or_def argp_check_def end_replace_def numeral_eq_Suc)
  moreover have "with_soc se no_connection (\<lambda>rc. Inr EXIT_FAILURE) EXIT_FAILURE (\<lambda>rc. rc)
      (\<lambda>ahb soc. tidy (replace_body sv (string_bytes m) (string_bytes r) ahb soc)) s =
    Some (Inr rc, released se host soc s2)"
    by (rule with_soc_acquired [OF assms(3)]) (simp add: body)
  ultimately show ?thesis using s2(2,3) by (intro exI [of _ rc] exI [of _ s2]) (simp add: do_replace_def)
qed


theorem replace_ram_witness:
  "\<exists>rc s2. do_replace (console_session ram_soc) (console_services ram_mcr console_clock) [] (words [''ram'', ''a'', ''b''])
      (p2a_start (\<lambda>_. 0), [], []) = Some (Inr rc, s2) \<and> 0 < rc"
proof -
  let ?s = "(p2a_start (\<lambda>_. 0), [], []) :: (u32 \<Rightarrow> u8) p2a_hw p2ab \<times> u8 list \<times> u8 list"
  have con: "ram_console (ops_beside (p2ab_ahb_ops (p2a_mmio ram_target) 0)) (\<lambda>p. p2a_ok (fst p))
      (\<lambda>p. ph_bus (p2_hw (fst p))) ram_soc p2a_span (sv_write (console_services ram_mcr console_clock))
      (sv_read (console_services ram_mcr console_clock)) (\<lambda>p. fst (snd p)) (\<lambda>p. snd (snd p))"
    using p2a_console.ram_console_axioms by (simp add: console_services_def)
  have "unat (x :: u32) mod 0x10000 + 1 \<le> 0x10000" for x
    using mod_less_divisor [of "0x10000" "unat x"] by linarith
  then have one: "\<forall>x. p2a_span x (length ''b'')" by (simp add: p2a_span_def)
  have win: "\<forall>k < ram_windows ram_mcr (ph_bus (p2_hw (fst ?s))).
    p2a_span (of_nat (unat (rg_start (dram_of ram_mcr (ph_bus (p2_hw (fst ?s))))) + k * DUMP_RAM_WIN)) DUMP_RAM_WIN"
  proof (intro allI impI)
    fix k
    have "unat (of_nat (0x80000000 + k * 0x800000) :: u32) mod 0x10000 = (0x80000000 + k * 0x800000) mod 0x10000"
      unfolding unat_of_nat by (simp add: mod_mod_cancel del: of_nat_add of_nat_mult)
    also have "\<dots> = 0" by (simp add: mod_add_eq [symmetric])
    finally show "p2a_span (of_nat (unat (rg_start (dram_of ram_mcr (ph_bus (p2_hw (fst ?s))))) + k * DUMP_RAM_WIN)) DUMP_RAM_WIN"
      by (simp add: p2a_span_def DUMP_RAM_WIN_def del: of_nat_add of_nat_mult)
  qed
  have ops: "ahb_ops (se_ahb (console_session ram_soc) ()) = ops_beside (p2ab_ahb_ops (p2a_mmio ram_target) 0)"
    by (simp add: console_session_def p2a_soc_beside_def)
  have n: "0 < ram_windows ram_mcr (ph_bus (p2_hw (fst ?s)))" by (simp add: ram_windows_def DUMP_RAM_WIN_def)
  have "p2a_ok (fst ?s)" "ram_fits (dram_of ram_mcr (ph_bus (p2_hw (fst ?s)))) None" by (simp_all add: ram_fits_def)
  from replace_ram [OF con console_services_ram console_session_acquires this(1) ops this(2) _ _ _ _ one win, of "''a''" "[]"] n
  show ?thesis by fastforce
qed

end
