(* ===== verification/ConsoleCmd.thy ===== *)
theory ConsoleCmd
  imports Replace Suart UartMux
begin

text \<open>
  The command \<^verbatim>\<open>console\<close>, \<^verbatim>\<open>src/cmd/console.c\<close>: it routes a UART of the host to the console
  of the BMC, logs in there, starts a getty, and routes the UART to that. The property is that the
  routes are afterwards what they were, on every path.
\<close>

section \<open>Arguments\<close>

text \<open>\<open>atoi(3)\<close>: \<open>strtol\<close> in base ten, converted to \<open>int\<close>.\<close>

definition LONG_MAX :: int where "LONG_MAX = 2 ^ 63 - 1"

definition atoi :: "string \<Rightarrow> int" where
  "atoi s =
     (let (neg, r) = split_sign (dropWhile is_space s);
          v = int (number 10 (takeWhile (digit_of 10) r))
      in sint (word_of_int (if neg then max (- v) (- LONG_MAX - 1) else min v LONG_MAX) :: u32))"

record cmd_console_args =
  cc_host_uart :: string
  cc_user :: string
  cc_pass :: string
  cc_connection :: connection_args
  cc_baud :: int

fun parse_console :: "nat \<Rightarrow> string \<Rightarrow> cmd_console_args \<Rightarrow> cmd_console_args argp" where
  "parse_console 0 arg a = argp_check (arg = ''uart3'') (argp_args (a\<lparr>cc_host_uart := arg\<rparr>))"
| "parse_console (Suc 0) arg a = argp_check (arg = ''uart2'')
     (argp_args (a\<lparr>cc_connection := (cc_connection a)\<lparr>ca_interface := Some arg\<rparr>\<rparr>))"
| "parse_console (Suc (Suc 0)) arg a = argp_args (a\<lparr>cc_baud := atoi arg\<rparr>)"
| "parse_console (Suc (Suc (Suc 0))) arg a = argp_args (a\<lparr>cc_user := arg\<rparr>)"
| "parse_console (Suc (Suc (Suc (Suc 0)))) arg a = argp_args (a\<lparr>cc_pass := arg\<rparr>)"
| "parse_console n arg a = argp_args a"

definition cmd_console_parse_opt :: "cmd_console_args parser" where
  "cmd_console_parse_opt = \<lparr>
     on_opt = no_options,
     on_word = (\<lambda>i. parse_console),
     on_end = (\<lambda>n a. argp_check (\<not> n < 5) (argp_args a)) \<rparr>"

section \<open>The dialogue\<close>

text \<open>
  \<open>over\<close> is what the memory behind the literal of a line feed and its terminator holds: the code
  flushes 5 and 8 bytes from there. The delays are not modelled.
\<close>

record 's console_io =
  ci_ports :: "'s lpc_ops"
  ci_fds :: "'s uart_fds"
  ci_suart :: suart
  ci_over :: "u8 list"

abbreviation sio_suart3 :: u8 where "sio_suart3 \<equiv> 0x0b"

definition newline :: "u8 list \<Rightarrow> nat \<Rightarrow> u8 list" where
  "newline over n = take n (0x0a # 0 # over)"

definition run_getty :: "u8 list" where
  "run_getty = string_bytes ''/sbin/agetty -8 -L ttyS1 1200 xterm &'' @ [0x0a]"

fun flushes :: "'s lpc_ops \<Rightarrow> suart \<Rightarrow> u8 list list \<Rightarrow> ('s, int) act" where
  "flushes io ctx [] = act_ret 0"
| "flushes io ctx (b # bs) = act_nz (suart_flush io ctx b) (flushes io ctx bs)"

definition console_dialogue ::
  "'s console_io \<Rightarrow> cmd_console_args \<Rightarrow> 's soc \<Rightarrow> uart_mux \<Rightarrow> suart \<Rightarrow> ('s, int) act" where
  "console_dialogue ci a soc mux ctx =
     (let io = ci_ports ci; user = string_bytes (cc_user a); pass = string_bytes (cc_pass a);
          nl = newline (ci_over ci)
      in act_val (suart_set_baud io ctx 115200) (\<lambda>ctx.
           act_nz (flushes io ctx [user, nl 5, pass, nl 8, run_getty])
          (act_nz (act_run (uart_mux_restore soc mux))
          (act_nz (act_run (uart_mux_connect soc mux (mux_obj_uart uart3) (mux_obj_uart uart2)))
          (act_val (suart_set_baud io ctx (cc_baud a)) (\<lambda>ctx.
             act_nz (flushes io ctx [nl 1, user, nl 5, pass, nl 1])
               (suart_run io (ci_fds ci) ctx)))))))"

section \<open>The handler\<close>

text \<open>A step and the cleanup after it, whose status is only printed.\<close>

definition act_then :: "('s, int) act \<Rightarrow> ('s, int) state \<Rightarrow> ('s, int) act" where
  "act_then m cleanup = act_bind m (\<lambda>rc. act_bind (act_run cleanup) (\<lambda>_. act_ret rc))"

definition console_body ::
  "'s services \<Rightarrow> 's console_io \<Rightarrow> cmd_console_args \<Rightarrow> 's ahb \<Rightarrow> 's soc \<Rightarrow> ('s, int) act" where
  "console_body sv ci a ahb soc =
     need (sv_clk sv soc) 0 (\<lambda>clk.
     need (sv_mux sv soc) 0 (\<lambda>mux.
       act_neg (act_run (clk_enable clk clk_uart3))
      (act_neg (act_run (uart_mux_route soc mux (mux_obj_uart uart3) (mux_obj_uart uart5)))
      (act_then
        (act_val (act_run (suart_init_defaults (ci_ports ci) (ci_suart ci) sio_suart3)) (\<lambda>ctx.
          act_then (console_dialogue ci a soc mux ctx) (suart_destroy (ci_ports ci) ctx)))
        (uart_mux_restore soc mux)))))"

definition do_console ::
  "('s, 'a) session \<Rightarrow> 's services \<Rightarrow> 's console_io \<Rightarrow> argp_event list \<Rightarrow> ('s, int + int) act" where
  "do_console se sv ci events =
     (case argp_parse cmd_console_parse_opt events 0
             \<lparr>cc_host_uart = [], cc_user = [], cc_pass = [], cc_connection = no_connection, cc_baud = 0\<rparr> of
        argp_exit st \<Rightarrow> act_ret (Inl st)
      | argp_args a \<Rightarrow> with_soc se (cc_connection a) Inr EXIT_FAILURE (\<lambda>rc. rc)
                        (\<lambda>ahb soc. tidy (console_body sv ci a ahb soc)))"

section \<open>What a step keeps\<close>

text \<open>
  \<open>keeps P m\<close>: the action keeps the predicate of the state if it returns. The rules follow the
  structure of the code, the partial functions by their fixed-point induction.
\<close>

definition holds_after :: "('s \<Rightarrow> bool) \<Rightarrow> ('s, 'a) state \<Rightarrow> bool" where
  "holds_after P m \<longleftrightarrow> (\<forall>s. P s \<longrightarrow> P (snd (run_state m s)))"

definition keeps :: "('s \<Rightarrow> bool) \<Rightarrow> ('s, 'a) act \<Rightarrow> bool" where
  "keeps P m \<longleftrightarrow> (\<forall>s r. P s \<longrightarrow> m s = Some r \<longrightarrow> P (snd r))"

named_theorems keep

lemma holds_after_ret [keep]: "holds_after P (ret v)"
  by (simp add: holds_after_def)

lemma holds_after_bind [keep]:
  "holds_after P m \<Longrightarrow> (\<And>v. holds_after P (k v)) \<Longrightarrow> holds_after P (State_Monad.bind m k)"
  by (simp add: holds_after_def)

lemma holds_after_if [keep]:
  "(b \<Longrightarrow> holds_after P m) \<Longrightarrow> (\<not> b \<Longrightarrow> holds_after P n) \<Longrightarrow> holds_after P (if b then m else n)"
  by simp

lemma holds_after_sum [keep]:
  "(\<And>e. holds_after P (f e)) \<Longrightarrow> (\<And>v. holds_after P (g v)) \<Longrightarrow>
    holds_after P (case x of Inl e \<Rightarrow> f e | Inr v \<Rightarrow> g v)"
  by (cases x) simp_all

lemma holds_after_pair [keep]: "(\<And>a b. holds_after P (f a b)) \<Longrightarrow> holds_after P (case x of (a, b) \<Rightarrow> f a b)"
  by (cases x) simp

lemma holds_after_nz [keep]: "holds_after P m \<Longrightarrow> holds_after P k \<Longrightarrow> holds_after P (nz_then m k)"
  unfolding nz_then_def by (intro keep)

lemma holds_after_neg [keep]: "holds_after P m \<Longrightarrow> holds_after P k \<Longrightarrow> holds_after P (neg_then m k)"
  unfolding neg_then_def by (intro keep)

lemma holds_after_val [keep]:
  "holds_after P m \<Longrightarrow> (\<And>v. holds_after P (k v)) \<Longrightarrow> holds_after P (val_then m k)"
  unfolding val_then_def by (intro keep)

lemma holds_after_valr [keep]:
  "holds_after P m \<Longrightarrow> (\<And>v. holds_after P (k v)) \<Longrightarrow> holds_after P (valr_then m k)"
  unfolding valr_then_def by (intro keep)

lemma holds_after_nzr [keep]: "holds_after P m \<Longrightarrow> holds_after P k \<Longrightarrow> holds_after P (nzr_then m k)"
  unfolding nzr_then_def by (intro keep)

lemma keeps_run [keep]: "holds_after P m \<Longrightarrow> keeps P (act_run m)"
  by (simp add: holds_after_def keeps_def)

lemma keeps_ret [keep]: "keeps P (act_ret v)"
  by (simp add: keeps_def)

lemma keeps_stuck [keep]: "keeps P act_stuck"
  by (simp add: keeps_def)

lemma keepsI: "(\<And>s v s'. P s \<Longrightarrow> m s = Some (v, s') \<Longrightarrow> P s') \<Longrightarrow> keeps P m"
  by (auto simp: keeps_def)

lemma keepsD: "keeps P m \<Longrightarrow> P s \<Longrightarrow> m s = Some (v, s') \<Longrightarrow> P s'"
  by (auto simp: keeps_def)

lemma keeps_bind [keep]:
  assumes "keeps P m" "\<And>v. keeps P (k v)"
  shows "keeps P (act_bind m k)"
proof (rule keepsI)
  fix s v s' assume "P s" "act_bind m k s = Some (v, s')"
  then obtain u t where "m s = Some (u, t)" "k u t = Some (v, s')"
    by (auto simp: act_bind_def bind_eq_Some_conv)
  then show "P s'" using keepsD [OF assms(1) \<open>P s\<close>] keepsD [OF assms(2)] by blast
qed

lemma keeps_sum [keep]:
  "(\<And>e. keeps P (f e)) \<Longrightarrow> (\<And>v. keeps P (g v)) \<Longrightarrow> keeps P (case x of Inl e \<Rightarrow> f e | Inr v \<Rightarrow> g v)"
  by (cases x) simp_all

lemma keeps_option [keep]:
  "keeps P f \<Longrightarrow> (\<And>v. keeps P (g v)) \<Longrightarrow> keeps P (case x of None \<Rightarrow> f | Some v \<Rightarrow> g v)"
  by (cases x) simp_all

lemma keeps_if [keep]: "keeps P m \<Longrightarrow> keeps P n \<Longrightarrow> keeps P (if b then m else n)"
  by simp

lemma keeps_nz [keep]: "keeps P m \<Longrightarrow> keeps P k \<Longrightarrow> keeps P (act_nz m k)"
  unfolding act_nz_def by (intro keep)

lemma keeps_neg [keep]: "keeps P m \<Longrightarrow> keeps P k \<Longrightarrow> keeps P (act_neg m k)"
  unfolding act_neg_def by (intro keep)

lemma keeps_val [keep]: "keeps P m \<Longrightarrow> (\<And>v. keeps P (k v)) \<Longrightarrow> keeps P (act_val m k)"
  unfolding act_val_def by (intro keep)

lemma keeps_valr [keep]: "keeps P m \<Longrightarrow> (\<And>v. keeps P (k v)) \<Longrightarrow> keeps P (act_valr m k)"
  unfolding act_valr_def by (intro keep)

lemma keeps_nzr [keep]: "keeps P m \<Longrightarrow> keeps P k \<Longrightarrow> keeps P (act_nzr m k)"
  unfolding act_nzr_def by (intro keep)

lemma keeps_then [keep]: "keeps P m \<Longrightarrow> holds_after P c \<Longrightarrow> keeps P (act_then m c)"
  unfolding act_then_def by (intro keep)

section \<open>The UART keeps what its ports keep\<close>

definition ports_keep :: "('s \<Rightarrow> bool) \<Rightarrow> 's lpc_ops \<Rightarrow> bool" where
  "ports_keep P io \<longleftrightarrow> (\<forall>x. holds_after P (lpc_init io x)) \<and> holds_after P (lpc_destroy io) \<and>
     (\<forall>p. holds_after P (lpc_readb io p)) \<and> (\<forall>p v. holds_after P (lpc_writeb io p v))"

definition fds_keep :: "('s \<Rightarrow> bool) \<Rightarrow> 's uart_fds \<Rightarrow> bool" where
  "fds_keep P fds \<longleftrightarrow> holds_after P (uf_wait fds) \<and> (\<forall>n. holds_after P (uf_read fds n)) \<and>
     (\<forall>bs. holds_after P (uf_write fds bs))"

lemma ports_keepD [keep]:
  assumes "ports_keep P io"
  shows "holds_after P (lpc_init io x)" "holds_after P (lpc_destroy io)"
    "holds_after P (lpc_readb io p)" "holds_after P (lpc_writeb io p v)"
  using assms by (simp_all add: ports_keep_def)

lemma fds_keepD [keep]:
  assumes "fds_keep P fds"
  shows "holds_after P (uf_wait fds)" "holds_after P (uf_read fds n)" "holds_after P (uf_write fds bs)"
  using assms by (simp_all add: fds_keep_def)

lemma on_sio_keeps [keep]: "holds_after (\<lambda>s. P (sio_io s)) m \<Longrightarrow> holds_after P (on_sio m)"
  by (simp add: holds_after_def on_sio_def Let_def)

lemma sio_port_keeps [keep]: "holds_after P m \<Longrightarrow> holds_after (\<lambda>s. P (sio_io s)) (sio_port m)"
  by (simp add: holds_after_def)

lemma sio_base_keeps [keep]:
  "holds_after (\<lambda>s. P (sio_io s)) (modify (\<lambda>s. s\<lparr>sio_base := b\<rparr>))"
  "holds_after (\<lambda>s. P (sio_io s)) (gets f)"
  by (simp_all add: holds_after_def)

lemmas sio_defs = sio_init_def sio_destroy_def sio_lock_def sio_unlock_def sio_readb_def
  sio_writeb_def sio_select_def sio_addr_write_def

lemma sio_keeps [keep]:
  fixes io :: "'s lpc_ops"
  assumes "ports_keep P io"
  shows "holds_after (\<lambda>s. P (sio_io s)) (sio_init io)" "holds_after (\<lambda>s. P (sio_io s)) (sio_destroy io)"
    "holds_after (\<lambda>s. P (sio_io s)) (sio_lock io)" "holds_after (\<lambda>s. P (sio_io s)) (sio_unlock io)"
    "holds_after (\<lambda>s. P (sio_io s)) (sio_readb io x)" "holds_after (\<lambda>s. P (sio_io s)) (sio_writeb io x v)"
    "holds_after (\<lambda>s. P (sio_io s)) (sio_select io d)"
  unfolding sio_defs by (intro keep assms)+

lemma suart_init_keeps:
  assumes "ports_keep P io"
  shows "holds_after P (suart_init_defaults io ctx dev)"
proof -
  have config: "holds_after (\<lambda>s. P (sio_io s)) (suart_sio_config io True 0 0)"
    unfolding suart_sio_config_def by (simp, intro keep assms)
  have sio: "holds_after (\<lambda>s. P (sio_io s)) (suart_sio_init io dev True 0 0)"
    unfolding suart_sio_init_def suart_sio_cleanup_def by (intro keep assms config)
  have lpc: "holds_after P (suart_lpc_setup io c)" for c
    unfolding suart_lpc_setup_def UART_DEFAULT_BAUD_def
    by (simp add: baud_to_divisor_def, intro keep assms)
  show ?thesis
    unfolding suart_init_defaults_def suart_init_common_def Let_def
    by (intro keep assms sio lpc)
qed

lemma suart_destroy_keeps:
  assumes "ports_keep P io"
  shows "holds_after P (suart_destroy io ctx)"
  unfolding suart_destroy_def suart_sio_cleanup_def by (intro keep assms)

lemma suart_set_baud_keeps:
  assumes "ports_keep P io"
  shows "keeps P (suart_set_baud io ctx rate)"
  unfolding suart_set_baud_def by (intro keep assms)

lemma suart_write_keeps:
  assumes "ports_keep P io"
  shows "holds_after P (suart_write io ctx buf)"
proof -
  have "holds_after P (suart_fill_fifo io ctx buf n)" for buf n
  proof (induction buf arbitrary: n)
    case (Cons b bs)
    then show ?case by (cases n) (simp_all add: keep assms)
  qed (simp add: keep)
  then show ?thesis
    unfolding suart_write_def by (intro keep assms)
qed

lemma suart_read_keeps:
  assumes "ports_keep P io"
  shows "holds_after P (suart_read io ctx len)"
proof -
  have burst: "holds_after P (suart_burst io ctx n out)" for n out
  proof (induction n arbitrary: out)
    case 0
    show ?case by (subst suart_burst.simps) (simp, intro keep assms)
  next
    case (Suc n)
    show ?case by (subst suart_burst.simps) (simp, intro keep assms Suc)
  qed
  have "holds_after P (suart_bursts io ctx len n out)" for n out
  proof (induction n arbitrary: out)
    case (Suc n)
    show ?case unfolding suart_bursts.simps by (intro keep assms Suc burst)
  qed (simp add: keep)
  then show ?thesis
    unfolding suart_read_def by (intro keep assms)
qed

lemma suart_flush_keeps:
  assumes "ports_keep P io"
  shows "keeps P (suart_flush io ctx buf)"
proof -
  have "ports_keep P io \<longrightarrow> P h \<longrightarrow> P (snd r)" if "suart_flush io ctx buf h = Some r" for io ctx buf h r
  proof (rule suart_flush.raw_induct [where P = "\<lambda>io ctx buf h r. ports_keep P io \<longrightarrow> P h \<longrightarrow> P (snd r)", OF _ that],
      goal_cases)
    case (1 f io ctx buf h r)
    show ?case
    proof (intro impI)
      assume io: "ports_keep P io" and "P h"
      let ?h1 = "snd (run_state (lpc_writeb io (suart_reg ctx UART_FCR) (UART_FCR_RCVR_RST OR UART_FCR_FIFO_EN)) h)"
      have h1: "P ?h1" using ports_keepD(4) [OF io] \<open>P h\<close> by (simp add: holds_after_def)
      then have h2: "P (snd (run_state (suart_write io ctx buf) ?h1))"
        using suart_write_keeps [OF io] by (simp add: holds_after_def)
      show "P (snd r)"
        using 1(2) h1 h2 \<open>P h\<close> 1(1) io by (auto simp: Let_def split_def split: if_splits)
    qed
  qed
  then show ?thesis using assms by (auto simp: keeps_def)
qed

lemma write_all_keeps:
  assumes "\<And>bs. holds_after P (wr bs)"
  shows "keeps P (write_all wr bs)"
proof -
  have "(\<forall>bs. holds_after P (wr bs)) \<longrightarrow> P s \<longrightarrow> P (snd r)" if "write_all wr bs s = Some r" for wr bs s r
  proof (rule write_all.raw_induct [where P = "\<lambda>wr bs s r. (\<forall>bs. holds_after P (wr bs)) \<longrightarrow> P s \<longrightarrow> P (snd r)", OF _ that],
      goal_cases)
    case (1 f wr bs s r)
    then show ?case by (auto simp: Let_def split_def holds_after_def split: if_splits)
  qed
  then show ?thesis using assms by (auto simp: keeps_def)
qed

lemma suart_to_uout_keeps:
  assumes "ports_keep P io" "fds_keep P fds"
  shows "keeps P (suart_to_uout io fds ctx)"
  unfolding suart_to_uout_def by (intro keep suart_read_keeps write_all_keeps assms)

lemma suart_from_uin_keeps:
  assumes "ports_keep P io" "fds_keep P fds"
  shows "keeps P (suart_from_uin io fds ctx buf)"
proof -
  have "ports_keep P io \<longrightarrow> fds_keep P fds \<longrightarrow> P s \<longrightarrow> P (snd r)"
    if "suart_from_uin io fds ctx buf s = Some r" for io fds ctx buf s r
  proof (rule suart_from_uin.raw_induct
      [where P = "\<lambda>io fds ctx buf s r. ports_keep P io \<longrightarrow> fds_keep P fds \<longrightarrow> P s \<longrightarrow> P (snd r)", OF _ that],
      goal_cases)
    case (1 f io fds ctx buf s r)
    show ?case
    proof (intro impI)
      assume io: "ports_keep P io" and fds: "fds_keep P fds" and "P s"
      let ?s1 = "snd (run_state (suart_write io ctx buf) s)"
      let ?rest = "drop (length buf - nat (fst (run_state (suart_write io ctx buf) s))) buf"
      have s1: "P ?s1" using suart_write_keeps [OF io] \<open>P s\<close> by (simp add: holds_after_def)
      have s2: "P s2" if "suart_to_uout io fds ctx ?s1 = Some (rc, s2)" for rc s2
        using keepsD [OF suart_to_uout_keeps [OF io fds] s1 that] .
      show "P (snd r)"
      proof (cases "buf = [] \<or> fst (run_state (suart_write io ctx buf) s) < 0")
        case True
        then show ?thesis using 1(2) s1 \<open>P s\<close> by (auto simp: split_def split: if_splits)
      next
        case False
        then have "Option.bind (suart_to_uout io fds ctx ?s1) (\<lambda>(rc, s). if rc < 0 then Some (rc, s) else f io fds ctx ?rest s) = Some r"
          using 1(2) by (simp add: split_def Let_def)
        then obtain rc s2 where t: "suart_to_uout io fds ctx ?s1 = Some (rc, s2)"
          and r: "(if rc < 0 then Some (rc, s2) else f io fds ctx ?rest s2) = Some r"
          unfolding bind_eq_Some_conv by auto
        show ?thesis using r s2 [OF t] 1(1) [of io fds ctx _ s2 r] io fds by (cases "rc < 0") auto
      qed
    qed
  qed
  then show ?thesis using assms by (auto simp: keeps_def)
qed

lemma suart_run_keeps:
  assumes "ports_keep P io" "fds_keep P fds"
  shows "keeps P (suart_run io fds ctx)"
proof -
  have "ports_keep P io \<longrightarrow> fds_keep P fds \<longrightarrow> P s \<longrightarrow> P (snd r)"
    if "suart_run io fds ctx s = Some r" for io fds ctx s r
  proof (rule suart_run.raw_induct
      [where P = "\<lambda>io fds ctx s r. ports_keep P io \<longrightarrow> fds_keep P fds \<longrightarrow> P s \<longrightarrow> P (snd r)", OF _ that],
      goal_cases)
    case (1 f io fds ctx s r)
    show ?case
    proof (intro impI)
      assume io: "ports_keep P io" and fds: "fds_keep P fds" and "P s"
      let ?s1 = "snd (run_state (uf_wait fds) s)" and ?s2 = "\<lambda>s. snd (run_state (uf_read fds 16) s)"
      have s1: "P ?s1" "P (?s2 ?s1)" using fds_keepD [OF fds] \<open>P s\<close> by (simp_all add: holds_after_def)
      have s3: "P s3" if "suart_to_uout io fds ctx ?s1 = Some (rc, s3)" for rc s3
        using keepsD [OF suart_to_uout_keeps [OF io fds] s1(1) that] .
      have s4: "P s4" if "suart_from_uin io fds ctx bs (?s2 ?s1) = Some (rc, s4)" for bs rc s4
        using keepsD [OF suart_from_uin_keeps [OF io fds] s1(2) that] .
      let ?step = "\<lambda>input. if input
        then (let (r, s) = run_state (uf_read fds 16) ?s1
              in case r of Inl e \<Rightarrow> Some (e, s) | Inr bs \<Rightarrow> suart_from_uin io fds ctx bs s)
        else suart_to_uout io fds ctx ?s1"
      show "P (snd r)"
      proof (cases "fst (run_state (uf_wait fds) s)")
        case (Inl e)
        then show ?thesis using 1(2) s1 by (auto simp: split_def)
      next
        case (Inr input)
        have "Option.bind (?step input) (\<lambda>(rc, s). if rc < 0 then Some (rc, s) else f io fds ctx s) = Some r"
          using 1(2) unfolding Let_def split_def Inr by simp
        then obtain rc s5 where t: "?step input = Some (rc, s5)"
          and r: "(if rc < 0 then Some (rc, s5) else f io fds ctx s5) = Some r"
          unfolding bind_eq_Some_conv by auto
        have "P s5"
        proof (cases input)
          case True
          then show ?thesis using t s1(2) s4
            by (cases "fst (run_state (uf_read fds 16) ?s1)") (auto simp: split_def)
        qed (use t s3 in auto)
        then show ?thesis using r 1(1) [of io fds ctx s5 r] io fds by (cases "rc < 0") auto
      qed
    qed
  qed
  then show ?thesis using assms by (auto simp: keeps_def)
qed

lemma flushes_keep: "ports_keep P io \<Longrightarrow> keeps P (flushes io ctx bs)"
  by (induction bs) (simp_all add: keep suart_flush_keeps)

section \<open>The routes of the command\<close>

text \<open>The routes are those that were saved, on a bus that works.\<close>

definition routes_saved :: "('s \<Rightarrow> bool) \<Rightarrow> ('s \<Rightarrow> u32 \<Rightarrow> u32) \<Rightarrow> uart_mux \<Rightarrow> 's \<Rightarrow> bool" where
  "routes_saved invar reg mux s \<longleftrightarrow> invar s \<and>
     reg s (rg_start (um_lpc mux) + LPC_HICR9) = um_hicr9 mux \<and>
     reg s (rg_start (um_lpc mux) + LPC_HICRA) = um_hicra mux"

context mux_bus
begin

lemma lpc_aligned: "word_aligned (rg_start (um_lpc ctx) + LPC_HICR9)" "word_aligned (rg_start (um_lpc ctx) + LPC_HICRA)"
  using lpc by (simp_all add: LPC_HICR9_def LPC_HICRA_def)

lemma restored: "invar s \<Longrightarrow> routes_saved invar reg ctx (snd (run_state (uart_mux_restore soc ctx) s))"
  using lpc_aligned by (simp add: uart_mux_restore_def lpc_writel_def routes_saved_def plain_eff_def)
    (simp add: LPC_HICR9_def LPC_HICRA_def)

lemma mux_keeps [keep]:
  "holds_after invar (uart_mux_restore soc ctx)" "holds_after invar (uart_mux_route soc ctx a b)"
  "holds_after invar (uart_mux_connect soc ctx a b)"
proof -
  show "holds_after invar (uart_mux_restore soc ctx)"
    using restored by (simp add: holds_after_def routes_saved_def)
  have "invar (snd (run_state (uart_mux_route soc ctx a b) s))" if "invar s" for s a b
  proof (cases "md_mask (mux_lookup a b) = 0")
    case False
    then show ?thesis using route [OF that False refl refl] by blast
  qed (simp add: uart_mux_route_def that)
  then show r: "holds_after invar (uart_mux_route soc ctx a b)" for a b
    by (simp add: holds_after_def)
  then show "holds_after invar (uart_mux_connect soc ctx a b)"
    unfolding uart_mux_connect_def by (intro keep)
qed

lemma dialogue_keeps:
  assumes "ports_keep invar (ci_ports ci)" "fds_keep invar (ci_fds ci)"
  shows "keeps invar (console_dialogue ci a soc ctx su)"
  unfolding console_dialogue_def Let_def
  by (intro keep suart_set_baud_keeps flushes_keep suart_run_keeps mux_keeps assms)

lemma then_restored:
  assumes "keeps invar m" "invar s" "act_then m (uart_mux_restore soc ctx) s = Some (rc, s')"
  shows "routes_saved invar reg ctx s'"
proof -
  obtain v t where t: "m s = Some (v, t)" "s' = snd (run_state (uart_mux_restore soc ctx) t)"
    using assms(3) by (auto simp: act_then_def act_bind_def bind_eq_Some_conv)
  then show ?thesis using restored [OF keepsD [OF assms(1,2) t(1)]] by simp
qed

end

text \<open>
  Claim C17. The command leaves the UART routes as they were, on every path. Over any bus on which
  the registers of the multiplexer can be accessed, with ports, descriptors and a UART of any
  behaviour that does not break that bus, and a clock controller whose gate for UART3 is not one
  of the route registers: whenever \<open>do_console\<close>'s body returns, after an error of any step or
  at the end of the session, both route registers hold what the driver saved when it was bound.
\<close>

theorem console_restores_routes:
  fixes reg :: "'s \<Rightarrow> u32 \<Rightarrow> u32"
  assumes "mux_bus ops invar reg soc mux" "routes_saved invar reg mux s"
    and "\<forall>s. run_state (sv_clk sv soc) s = (Some clk, s)" "\<forall>s. run_state (sv_mux sv soc) s = (Some mux, s)"
    and "holds_after (routes_saved invar reg mux) (clk_enable clk clk_uart3)"
    and "ports_keep invar (ci_ports ci)" "fds_keep invar (ci_fds ci)"
    and "console_body sv ci a ahb soc s = Some (rc, s')"
  shows "routes_saved invar reg mux s'"
proof -
  let ?s1 = "snd (run_state (clk_enable clk clk_uart3) s)"
  let ?r2 = "run_state (uart_mux_route soc mux (mux_obj_uart uart3) (mux_obj_uart uart5)) ?s1"
  have s1: "routes_saved invar reg mux ?s1" using assms(2,5) by (simp add: holds_after_def)
  have route: "fst ?r2 = 0" "invar (snd ?r2)"
    using mux_bus.route [OF assms(1) _ _ refl refl, of ?s1 "mux_obj_uart uart3" "mux_obj_uart uart5"] s1
    by (simp_all add: routes_saved_def mux_lookup_def to_uart_def to_io_def mux_masks)
  have "keeps invar (act_val (act_run (suart_init_defaults (ci_ports ci) (ci_suart ci) sio_suart3)) (\<lambda>ctx.
      act_then (console_dialogue ci a soc mux ctx) (suart_destroy (ci_ports ci) ctx)))"
    by (intro keep suart_init_keeps suart_destroy_keeps mux_bus.dialogue_keeps [OF assms(1)] assms)
  from mux_bus.then_restored [OF assms(1) this route(2)] show ?thesis
    using assms(3,4,8) s1 route(1) by (auto simp: console_body_def split: if_splits)
qed

text \<open>Ports that fail.\<close>

definition dead_ports :: "'s lpc_ops" where
  "dead_ports = \<lparr>lpc_init = (\<lambda>_. ret 0), lpc_destroy = ret 0, lpc_readb = (\<lambda>p. ret (Inl (- EIO))),
     lpc_writeb = (\<lambda>p v. ret (- EIO)), lpc_read = (\<lambda>_ _. ret (Inl (- EIO))), lpc_write = (\<lambda>_ _. ret (- EIO))\<rparr>"

definition dead_fds :: "'s uart_fds" where
  "dead_fds = \<lparr>uf_wait = ret (Inl (- EIO)), uf_read = (\<lambda>n. ret (Inl (- EIO))), uf_write = (\<lambda>bs. ret (- EIO))\<rparr>"

definition dead_console :: "'s console_io" where
  "dead_console = \<lparr>ci_ports = dead_ports, ci_fds = dead_fds, ci_suart = suart_at 0, ci_over = []\<rparr>"

definition console_args :: cmd_console_args where
  "console_args = \<lparr>cc_host_uart = ''uart3'', cc_user = ''root'', cc_pass = ''0penBmc'',
     cc_connection = no_connection, cc_baud = 115200\<rparr>"

definition mux_soc :: "(u32 \<Rightarrow> u32) p2a_hw p2ab soc" where
  "mux_soc = p2a_soc 0 example_fdt (regfile plain_eff)"

definition mux_services :: "'s os_clock \<Rightarrow> 's clk_ops \<Rightarrow> uart_mux \<Rightarrow> 's services" where
  "mux_services os clk mux = (no_services os)\<lparr>sv_clk := (\<lambda>soc. ret (Some clk)), sv_mux := (\<lambda>soc. ret (Some mux))\<rparr>"

definition no_clock :: "'s os_clock" where
  "no_clock = \<lparr>clk_gettime = ret (0, 0), clk_nanosleep = (\<lambda>t. ret 0)\<rparr>"

lemma dead_console_keeps:
  "ports_keep P (ci_ports dead_console)" "fds_keep P (ci_fds dead_console)"
  by (simp_all add: dead_console_def dead_ports_def dead_fds_def ports_keep_def fds_keep_def keep)

lemma dead_console_init: "run_state (suart_init_defaults (ci_ports dead_console) c sio_suart3) s = (Inl (- EIO), s)"
  by (simp add: dead_console_def dead_ports_def suart_init_defaults_def suart_init_common_def on_sio_def
      suart_sio_init_def sio_defs sio_port_def zoom_def)

lemma mux_soc_clk:
  assumes "routes_saved p2a_ok p2a_regs mux_example s"
  shows "fst (run_state (clk_enable (ast2500_clk_ops mux_soc (scu_at 0x1e6e2000)) clk_uart3) s) = 0 \<and>
    routes_saved p2a_ok p2a_regs mux_example (snd (run_state (clk_enable (ast2500_clk_ops mux_soc (scu_at 0x1e6e2000)) clk_uart3) s))"
  using assms
  by (simp add: routes_saved_def clk_enable_def ast2500_clk_ops_def ast2500_clk_enable_def scu_readl_def
      scu_writel_def scu_at_def mux_soc_def clk_consts plain_eff_def mux_example_def LPC_HICR9_def LPC_HICRA_def)

theorem console_restores_routes_witness:
  "\<exists>s'. console_body (mux_services no_clock (ast2500_clk_ops mux_soc (scu_at 0x1e6e2000)) mux_example)
      dead_console console_args (soc_ahb mux_soc) mux_soc (p2a_start (\<lambda>_. 0)) = Some (- EIO, s') \<and>
    routes_saved p2a_ok p2a_regs mux_example s'"
proof -
  let ?clk = "ast2500_clk_ops mux_soc (scu_at 0x1e6e2000)" and ?s = "p2a_start (\<lambda>_. 0)"
  let ?sv = "mux_services no_clock ?clk mux_example"
  have bus: "mux_bus (p2ab_ahb_ops (p2a_mmio (regfile plain_eff)) 0) p2a_ok p2a_regs mux_soc mux_example"
    using p2a_mux.mux_bus_axioms by (simp add: mux_soc_def)
  have saved: "routes_saved p2a_ok p2a_regs mux_example ?s"
    using p2a_start_inv [of "\<lambda>_. 0"] by (simp add: routes_saved_def mux_example_def)
  have sv: "\<forall>s. run_state (sv_clk ?sv mux_soc) s = (Some ?clk, s)"
    "\<forall>s. run_state (sv_mux ?sv mux_soc) s = (Some mux_example, s)"
    by (simp_all add: mux_services_def)
  have clk: "holds_after (routes_saved p2a_ok p2a_regs mux_example) (clk_enable ?clk clk_uart3)"
    using mux_soc_clk by (simp add: holds_after_def)
  let ?s1 = "snd (run_state (clk_enable ?clk clk_uart3) ?s)"
  have s1: "p2a_ok ?s1" using mux_soc_clk [OF saved] by (simp add: routes_saved_def)
  have route: "fst (run_state (uart_mux_route mux_soc mux_example (mux_obj_uart uart3) (mux_obj_uart uart5)) ?s1) = 0"
    using mux_bus.route [OF bus s1 _ refl refl, of "mux_obj_uart uart3" "mux_obj_uart uart5"]
    by (simp add: mux_lookup_def to_uart_def to_io_def mux_masks)
  obtain s' where run: "console_body ?sv dead_console console_args (soc_ahb mux_soc) mux_soc ?s = Some (- EIO, s')"
    using sv route mux_soc_clk [OF saved] by (simp add: console_body_def act_then_def dead_console_init)
  show ?thesis
    using run console_restores_routes [OF bus saved sv clk dead_console_keeps run] by blast
qed

end
