(* ===== verification/JtagCmd.thy ===== *)
theory JtagCmd
  imports Jtag ConsoleCmd
begin

text \<open>
  The command \<^verbatim>\<open>jtag\<close>, \<^verbatim>\<open>src/cmd/jtag.c\<close>: its parser, the server around the client session of
  Jtag, and the handler, which serves for ever.
\<close>

section \<open>Arguments\<close>

record cmd_jtag_args =
  jc_connection :: connection_args
  jc_controller :: "string option"
  jc_target_bits :: u32
  jc_listen_port :: int

definition jtag_target_bits :: "string \<Rightarrow> u32 option" where
  "jtag_target_bits arg =
     (if arg = ''arm'' then Some SCU_JTAG_MASTER_TO_ARM
      else if arg = ''pcie'' then Some SCU_JTAG_MASTER_TO_PCIE
      else if arg = ''external'' then Some SCU_JTAG_NORMAL
      else None)"

definition jtag_opt :: "char \<Rightarrow> string \<Rightarrow> cmd_jtag_args \<Rightarrow> cmd_jtag_args argp" where
  "jtag_opt c v a =
     (if c = CHR ''c'' then argp_args (a\<lparr>jc_controller := Some v\<rparr>)
      else if c = CHR ''p'' then
        let a = a\<lparr>jc_listen_port := atoi v\<rparr>
        in argp_check (\<not> (jc_listen_port a = 0 \<and> jc_listen_port a > 65535)) (argp_args a)
      else if c = CHR ''t'' then
        (case jtag_target_bits v of None \<Rightarrow> argp_error | Some b \<Rightarrow> argp_args (a\<lparr>jc_target_bits := b\<rparr>))
      else argp_error)"

definition jtag_end :: "nat \<Rightarrow> cmd_jtag_args \<Rightarrow> cmd_jtag_args argp" where
  "jtag_end n a =
     (let a = (if jc_controller a = None then a\<lparr>jc_controller := Some ''jtag''\<rparr> else a);
          a = (if jc_listen_port a = 0 then a\<lparr>jc_listen_port := 33333\<rparr> else a);
          a = (if jc_target_bits a = 0 then a\<lparr>jc_target_bits := SCU_JTAG_MASTER_TO_ARM\<rparr> else a)
      in argp_check (ca_bridge_driver (jc_connection a) \<noteq> None) (argp_args a))"

definition cmd_jtag_parse_opt :: "('s, 'b) host_driver list \<Rightarrow> string list \<Rightarrow> cmd_jtag_args parser" where
  "cmd_jtag_parse_opt drivers argv = \<lparr>
     on_opt = jtag_opt,
     on_word = via_or drivers argv jc_connection (\<lambda>c a. a\<lparr>jc_connection := c\<rparr>) (\<lambda>n w. argp_args),
     on_end = jtag_end \<rparr>"

section \<open>The server\<close>

text \<open>
  The sockets: each call gives a negative value when it fails, and an accepted client is given by
  the bytes it will send.
\<close>

record 's jtag_net =
  jn_socket :: "('s, int) state"
  jn_bind :: "u16 \<Rightarrow> ('s, int) state"
  jn_listen :: "('s, int) state"
  jn_accept :: "('s, int + u8 list) state"
  jn_write :: "u8 \<Rightarrow> ('s, int) state"
  jn_close :: "jtag_fd \<Rightarrow> ('s, unit) state"

fun jtag_closes :: "'s jtag_net \<Rightarrow> jtag_fd list \<Rightarrow> ('s, unit) state" where
  "jtag_closes net [] = ret ()"
| "jtag_closes net (fd # fds) = do { jn_close net fd; jtag_closes net fds }"

definition run_openocd_bitbang_server ::
  "'s soc \<Rightarrow> 's jtag \<Rightarrow> 's jtag_net \<Rightarrow> u16 \<Rightarrow> ('s, int) state" where
  "run_openocd_bitbang_server soc jtag net port = do {
     fd \<leftarrow> jn_socket net;
     (if fd < 0 then ret 1
      else do {
        rc \<leftarrow> jn_bind net port;
        (if rc < 0 then ret 1
         else do {
           rc \<leftarrow> jn_listen net;
           (if rc < 0 then ret 1
            else do {
              r \<leftarrow> jn_accept net;
              (case r of
                 Inl _ \<Rightarrow> ret 1
               | Inr client \<Rightarrow> do {
                   (rc, closed) \<leftarrow> jtag_session soc jtag (jn_write net) client;
                   jtag_closes net closed;
                   ret rc }) }) }) }) }"

text \<open>\<open>while (true)\<close> around it, whatever it returns.\<close>

partial_function (option) jtag_serve :: "('s, int) state \<Rightarrow> 's \<Rightarrow> (int \<times> 's) option" where
  "jtag_serve server s = jtag_serve server (snd (run_state server s))"

definition jtag_body ::
  "('s soc \<Rightarrow> string \<Rightarrow> ('s, 's jtag option) state) \<Rightarrow> 's jtag_net \<Rightarrow> cmd_jtag_args \<Rightarrow> 's ahb \<Rightarrow> 's soc \<Rightarrow>
   ('s, int) act" where
  "jtag_body get_jtag net a ahb soc =
     need (get_jtag soc (the (jc_controller a))) 0 (\<lambda>jtag.
       act_bind (act_run (jtag_route jtag (jc_target_bits a))) (\<lambda>_.
         jtag_serve (run_openocd_bitbang_server soc jtag net (of_int (jc_listen_port a)))))"

text \<open>The command ends with \<open>exit\<close>.\<close>

definition do_jtag ::
  "('s, 'a) session \<Rightarrow> ('s soc \<Rightarrow> string \<Rightarrow> ('s, 's jtag option) state) \<Rightarrow> 's jtag_net \<Rightarrow>
   string list \<Rightarrow> argp_event list \<Rightarrow> ('s, int + int) act" where
  "do_jtag se get_jtag net argv events =
     (case argp_parse (cmd_jtag_parse_opt (se_drivers se) argv) events 0
             \<lparr>jc_connection = no_connection, jc_controller = None, jc_target_bits = 0, jc_listen_port = 0\<rparr> of
        argp_exit st \<Rightarrow> act_ret (Inl st)
      | argp_args a \<Rightarrow>
          act_bind (with_soc se (jc_connection a) (\<lambda>rc. Inl EXIT_FAILURE) EXIT_FAILURE (\<lambda>rc. rc)
                     (\<lambda>ahb soc. tidy (jtag_body get_jtag net a ahb soc)))
            (\<lambda>r. act_ret (Inl (case r of Inl st \<Rightarrow> st | Inr rc \<Rightarrow> rc))))"

section \<open>What the command does not do\<close>

lemma jtag_serve_diverges: "jtag_serve server s = None"
proof -
  have False if "jtag_serve server s = Some r" for server :: "('s, int) state" and s r
    by (rule jtag_serve.raw_induct [where P = "\<lambda>server s r. False", OF _ that])
  then show ?thesis by (cases "jtag_serve server s") auto
qed

text \<open>The command does not return once it has a controller: its cleanup is never reached.\<close>

lemma jtag_body_diverges:
  "fst (run_state (get_jtag soc (the (jc_controller a))) s) \<noteq> None \<Longrightarrow>
    jtag_body get_jtag net a ahb soc s = None"
  by (auto simp: jtag_body_def jtag_serve_diverges)

text \<open>The target \<open>external\<close> is replaced by \<open>arm\<close>, and no port is refused.\<close>

lemma jtag_external_is_arm:
  assumes "jtag_opt CHR ''t'' ''external'' a = argp_args b" "jtag_end n b = argp_args d"
  shows "jc_target_bits d = SCU_JTAG_MASTER_TO_ARM"
  using assms
  by (auto simp: jtag_opt_def jtag_target_bits_def jtag_end_def Let_def argp_check_def SCU_JTAG_NORMAL_def
      split: if_splits)

lemma jtag_any_port: "jtag_opt CHR ''p'' v a = argp_args (a\<lparr>jc_listen_port := atoi v\<rparr>)"
  by (simp add: jtag_opt_def argp_check_def)

end
