(* ===== verification/Logging.thy ===== *)
theory Logging
  imports Replace
begin

text \<open>
  Messages, \<^verbatim>\<open>src/log.c\<close>, and the check for root, \<^verbatim>\<open>src/priv.c\<close>: the level of the program,
  the prefix with its colour on a terminal, and the loop that writes it out.
\<close>

section \<open>Levels and colours\<close>

datatype log_level = level_none | level_error | level_info | level_debug | level_trace

datatype log_colour = colour_white | colour_yellow | colour_green | colour_red

fun log_rank :: "log_level \<Rightarrow> nat" where
  "log_rank level_none = 0"
| "log_rank level_error = 1"
| "log_rank level_info = 2"
| "log_rank level_debug = 3"
| "log_rank level_trace = 4"

instantiation log_level :: linorder
begin

definition less_eq_log_level :: "log_level \<Rightarrow> log_level \<Rightarrow> bool" where
  "less_eq_log_level a b \<longleftrightarrow> log_rank a \<le> log_rank b"

definition less_log_level :: "log_level \<Rightarrow> log_level \<Rightarrow> bool" where
  "less_log_level a b \<longleftrightarrow> log_rank a < log_rank b"

instance
proof
  fix a b :: log_level
  show "a \<le> b \<Longrightarrow> b \<le> a \<Longrightarrow> a = b"
    by (cases a; cases b) (simp_all add: less_eq_log_level_def)
qed (auto simp: less_eq_log_level_def less_log_level_def)

end

lemmas log_order = less_eq_log_level_def less_log_level_def

definition escape :: "string \<Rightarrow> u8 list" where
  "escape s = 0x1b # string_bytes s"

fun log_colour_codes :: "log_colour \<Rightarrow> u8 list" where
  "log_colour_codes colour_white = escape ''[97m''"
| "log_colour_codes colour_yellow = escape ''[93m''"
| "log_colour_codes colour_green = escape ''[92m''"
| "log_colour_codes colour_red = escape ''[91m''"

text \<open>The table has no entry for the first level, so that entry is 0.\<close>

fun log_colour_lookup :: "log_level \<Rightarrow> log_colour" where
  "log_colour_lookup level_trace = colour_white"
| "log_colour_lookup level_debug = colour_yellow"
| "log_colour_lookup level_info = colour_green"
| "log_colour_lookup level_error = colour_red"
| "log_colour_lookup level_none = colour_white"

section \<open>Writing\<close>

text \<open>
  The calls of the operating system, on a descriptor; \<open>li_format\<close> is \<open>vdprintf(3)\<close> of a text that
  is already formatted. The level of the program is kept beside them.
\<close>

record 's log_io =
  li_stderr :: int
  li_isatty :: "int \<Rightarrow> bool"
  li_write :: "int \<Rightarrow> u8 list \<Rightarrow> ('s, int) state"
  li_format :: "int \<Rightarrow> u8 list \<Rightarrow> ('s, int) state"
  li_perror :: "string \<Rightarrow> ('s, unit) state"

record 's logger =
  lg_level :: log_level
  lg_os :: 's

definition on_os :: "('s, 'a) act \<Rightarrow> ('s logger, 'a) act" where
  "on_os m = (\<lambda>l. map_option (\<lambda>(v, s). (v, l\<lparr>lg_os := s\<rparr>)) (m (lg_os l)))"

partial_function (option) log_write_all :: "'s log_io \<Rightarrow> int \<Rightarrow> u8 list \<Rightarrow> 's \<Rightarrow> (unit \<times> 's) option" where
  "log_write_all io fd buf s =
     (if buf = [] then Some ((), s)
      else let (egress, s') = run_state (li_write io fd buf) s
           in if egress < 0 then Some (run_state (li_perror io ''write'') s')
              else log_write_all io fd (drop (nat egress) buf) s')"

definition log_set_colour :: "'s log_io \<Rightarrow> int \<Rightarrow> log_colour \<Rightarrow> ('s, unit) act" where
  "log_set_colour io fd colour = log_write_all io fd (log_colour_codes colour)"

definition log_reset_colour :: "'s log_io \<Rightarrow> int \<Rightarrow> ('s, unit) act" where
  "log_reset_colour io fd = log_write_all io fd (escape ''[0m'')"

definition log_format :: "'s log_io \<Rightarrow> int \<Rightarrow> u8 list \<Rightarrow> ('s, unit) act" where
  "log_format io fd text = act_bind (act_run (li_format io fd text)) (\<lambda>rc.
     if rc < 0 then act_run (li_perror io ''vdprintf'') else act_ret ())"

definition log_tty :: "'s log_io \<Rightarrow> int \<Rightarrow> ('s, unit) act \<Rightarrow> ('s, unit) act" where
  "log_tty io fd m = (if li_isatty io fd then m else act_ret ())"

definition log_msg :: "'s log_io \<Rightarrow> log_level \<Rightarrow> u8 list \<Rightarrow> ('s logger, unit) act" where
  "log_msg io lvl text = (\<lambda>l.
     if lvl > lg_level l then Some ((), l)
     else let fd = li_stderr io
          in on_os (act_bind (log_tty io fd (log_set_colour io fd (log_colour_lookup lvl))) (\<lambda>_.
                    act_bind (log_write_all io fd (string_bytes ''[*] '')) (\<lambda>_.
                    act_bind (log_tty io fd (log_reset_colour io fd)) (\<lambda>_.
                      log_format io fd text)))) l)"

definition log_highlight :: "'s log_io \<Rightarrow> int \<Rightarrow> log_colour \<Rightarrow> u8 list \<Rightarrow> ('s logger, unit) act" where
  "log_highlight io fd colour text = on_os
     (act_bind (log_tty io fd (log_set_colour io fd colour)) (\<lambda>_.
      act_bind (log_format io fd text) (\<lambda>_.
        log_tty io fd (log_reset_colour io fd))))"

definition log_set_level :: "log_level \<Rightarrow> ('s logger, unit) state" where
  "log_set_level lvl = modify (\<lambda>l. l\<lparr>lg_level := lvl\<rparr>)"

section \<open>Root\<close>

definition priv_am_root :: "nat \<Rightarrow> bool" where
  "priv_am_root euid \<longleftrightarrow> euid = 0"

definition priv_print_unprivileged :: "'s log_io \<Rightarrow> string \<Rightarrow> ('s logger, unit) act" where
  "priv_print_unprivileged io name =
     log_msg io level_error (string_bytes (name @ '' needs to be run as root'') @ [0x0a])"

section \<open>What a message looks like\<close>

text \<open>
  A stream that takes what it is given in pieces of any size; \<open>out\<close> is what each descriptor has
  taken.
\<close>

locale log_stream =
  fixes io :: "'s log_io"
    and out :: "'s \<Rightarrow> int \<Rightarrow> u8 list"
  assumes takes: "buf \<noteq> [] \<Longrightarrow> \<exists>k s'. run_state (li_write io fd buf) s = (int k, s') \<and> 0 < k \<and> k \<le> length buf \<and>
      out s' = (out s)(fd := out s fd @ take k buf)"
    and formats: "\<exists>n s'. run_state (li_format io fd buf) s = (int n, s') \<and>
      out s' = (out s)(fd := out s fd @ buf)"
begin

lemma write_all_out: "\<exists>s'. log_write_all io fd buf s = Some ((), s') \<and> out s' = (out s)(fd := out s fd @ buf)"
proof (induction "length buf" arbitrary: buf s rule: less_induct)
  case less
  show ?case
  proof (cases "buf = []")
    case True
    then show ?thesis by (subst log_write_all.simps) simp
  next
    case False
    then obtain k s1 where k: "run_state (li_write io fd buf) s = (int k, s1)" "0 < k" "k \<le> length buf"
        "out s1 = (out s)(fd := out s fd @ take k buf)"
      using takes by blast
    have "length (drop k buf) < length buf" using k(2) False by simp
    then obtain s2 where s2: "log_write_all io fd (drop k buf) s1 = Some ((), s2)"
        "out s2 = (out s1)(fd := out s1 fd @ drop k buf)"
      using less by blast
    then show ?thesis using False k by (subst log_write_all.simps) simp
  qed
qed

lemma tty_out: "(\<And>s. \<exists>s'. m s = Some ((), s') \<and> out s' = (out s)(fd := out s fd @ bs)) \<Longrightarrow>
    \<exists>s'. log_tty io fd m s = Some ((), s') \<and>
      out s' = (out s)(fd := out s fd @ (if li_isatty io fd then bs else []))"
  by (simp add: log_tty_def)

lemma format_out: "\<exists>s'. log_format io fd text s = Some ((), s') \<and> out s' = (out s)(fd := out s fd @ text)"
  using formats [of fd "text" s] by (auto simp: log_format_def)

lemma bind_out:
  assumes "\<exists>s'. m s = Some ((), s') \<and> out s' = (out s)(fd := out s fd @ as)"
    and "\<And>s. \<exists>s'. k () s = Some ((), s') \<and> out s' = (out s)(fd := out s fd @ bs)"
  shows "\<exists>s'. act_bind m k s = Some ((), s') \<and> out s' = (out s)(fd := out s fd @ as @ bs)"
proof -
  obtain s1 where s1: "m s = Some ((), s1)" "out s1 = (out s)(fd := out s fd @ as)" using assms(1) by blast
  obtain s2 where "k () s1 = Some ((), s2)" "out s2 = (out s1)(fd := out s1 fd @ bs)" using assms(2) by blast
  then show ?thesis using s1 by simp
qed

end

text \<open>The message of a level, on a terminal and otherwise.\<close>

definition log_line :: "bool \<Rightarrow> log_level \<Rightarrow> u8 list \<Rightarrow> u8 list" where
  "log_line tty lvl text =
     (if tty then log_colour_codes (log_colour_lookup lvl) else []) @ string_bytes ''[*] '' @
     (if tty then escape ''[0m'' else []) @ text"

context log_stream
begin

lemma msg_out:
  assumes "fd = li_stderr io"
  shows "\<exists>l'. log_msg io lvl text l = Some ((), l') \<and> lg_level l' = lg_level l \<and>
    out (lg_os l') = (if lg_level l < lvl then out (lg_os l)
      else (out (lg_os l))(fd := out (lg_os l) fd @ log_line (li_isatty io fd) lvl text))"
proof (cases "lg_level l < lvl")
  case False
  let ?tty = "\<lambda>bs. if li_isatty io fd then bs else []"
  let ?m = "act_bind (log_tty io fd (log_set_colour io fd (log_colour_lookup lvl))) (\<lambda>_.
    act_bind (log_write_all io fd (string_bytes ''[*] '')) (\<lambda>_.
    act_bind (log_tty io fd (log_reset_colour io fd)) (\<lambda>_. log_format io fd text)))"
  have set: "\<exists>s'. log_tty io fd (log_set_colour io fd c) s = Some ((), s') \<and>
      out s' = (out s)(fd := out s fd @ ?tty (log_colour_codes c))" for c s
    by (rule tty_out) (simp add: log_set_colour_def write_all_out)
  have reset: "\<exists>s'. log_tty io fd (log_reset_colour io fd) s = Some ((), s') \<and>
      out s' = (out s)(fd := out s fd @ ?tty (escape ''[0m''))" for s
    by (rule tty_out) (simp add: log_reset_colour_def write_all_out)
  have "\<exists>s'. ?m s = Some ((), s') \<and>
      out s' = (out s)(fd := out s fd @ log_line (li_isatty io fd) lvl text)" for s
    unfolding log_line_def by (intro bind_out set reset write_all_out format_out)
  from this [of "lg_os l"] show ?thesis
    using False assms by (auto simp: log_msg_def on_os_def Let_def)
qed (simp add: log_msg_def)

end

text \<open>Descriptors that take three bytes at a time; the standard error stream is a terminal.\<close>

definition terminal_io :: "(int \<Rightarrow> u8 list) log_io" where
  "terminal_io = \<lparr>
     li_stderr = 2, li_isatty = (\<lambda>fd. fd = 2),
     li_write = (\<lambda>fd bs. State (\<lambda>s. (int (min 3 (length bs)), s(fd := s fd @ take 3 bs)))),
     li_format = (\<lambda>fd bs. State (\<lambda>s. (int (length bs), s(fd := s fd @ bs)))),
     li_perror = (\<lambda>m. ret ()) \<rparr>"

interpretation terminal: log_stream terminal_io "\<lambda>s. s"
proof (unfold_locales, goal_cases)
  case (1 buf fd s)
  then show ?case
    by (intro exI [of _ "min 3 (length buf)"] exI [of _ "s(fd := s fd @ take 3 buf)"])
      (auto simp: terminal_io_def min_def)
next
  case (2 fd buf s)
  then show ?case by (simp add: terminal_io_def)
qed

text \<open>
  Claim C18. Messages are written whole, filtered by the level. Over any descriptors that take what
  they are given in pieces of any size, \<open>log_msg\<close> always returns and never changes the level: a
  message above the level of the program writes nothing anywhere; any other appends to the
  standard error stream, and to nothing else, its prefix, in the colour of its level exactly when
  that is a terminal, and then its text.
\<close>

theorem log_msg_writes:
  assumes "log_stream io out" "fd = li_stderr io"
  shows "\<exists>l'. log_msg io lvl text l = Some ((), l') \<and> lg_level l' = lg_level l \<and>
    out (lg_os l') = (if lg_level l < lvl then out (lg_os l)
      else (out (lg_os l))(fd := out (lg_os l) fd @ log_line (li_isatty io fd) lvl text))"
  by (rule log_stream.msg_out [OF assms])

theorem log_msg_writes_witness:
  "\<exists>l'. log_msg terminal_io level_error (string_bytes ''No'') \<lparr>lg_level = level_info, lg_os = (\<lambda>fd. [])\<rparr> =
     Some ((), l') \<and> lg_os l' 2 = log_line True level_error (string_bytes ''No'')"
proof -
  have 2: "2 = li_stderr terminal_io" by (simp add: terminal_io_def)
  have tty: "li_isatty terminal_io 2" by (simp add: terminal_io_def)
  from log_msg_writes [OF terminal.log_stream_axioms 2, of level_error "string_bytes ''No''"
      "\<lparr>lg_level = level_info, lg_os = (\<lambda>fd. [])\<rparr>"]
  show ?thesis using tty by (auto simp: log_order)
qed

end
