(* ===== verification/Culvert.thy ===== *)
theory Culvert
  imports Logging JtagCmd
begin

text \<open>
  The program, \<^verbatim>\<open>src/culvert.c\<close>: its own options, the registry of commands of \<^verbatim>\<open>src/cmd.h\<close>, and
  the dispatch to one of them. Messages are not modelled inside of the commands, so a command
  runs on the state under the logger.
\<close>

section \<open>The registry of commands\<close>

text \<open>
  A command gets the bridge drivers, an array it shares with the options, and its arguments. It
  returns \<open>Inr\<close> of its status or calls \<open>exit\<close>, \<open>Inl\<close>.
\<close>

record ('s, 'a) cmd =
  cmd_name :: string
  cmd_description :: "string option"
  cmd_fn :: "('s, 'a) host_driver list \<Rightarrow> string list \<Rightarrow> ('s, int + int) act"

fun strcmp :: "string \<Rightarrow> string \<Rightarrow> int" where
  "strcmp [] [] = 0"
| "strcmp [] (d # ds) = - of_char d"
| "strcmp (c # cs) [] = of_char c"
| "strcmp (c # cs) (d # ds) = (if c = d then strcmp cs ds else of_char c - of_char d)"

definition cmd_cmp :: "('s, 'a) cmd \<Rightarrow> ('s, 'a) cmd \<Rightarrow> int" where
  "cmd_cmp a b = strcmp (cmd_name a) (cmd_name b)"

text \<open>\<open>qsort(3)\<close>, whose order of equal elements nothing depends on.\<close>

fun qsort_insert :: "('a \<Rightarrow> 'a \<Rightarrow> int) \<Rightarrow> 'a \<Rightarrow> 'a list \<Rightarrow> 'a list" where
  "qsort_insert cmp x [] = [x]"
| "qsort_insert cmp x (y # ys) = (if cmp x y \<le> 0 then x # y # ys else y # qsort_insert cmp x ys)"

definition qsort :: "('a \<Rightarrow> 'a \<Rightarrow> int) \<Rightarrow> 'a list \<Rightarrow> 'a list" where
  "qsort cmp xs = foldr (qsort_insert cmp) xs []"

text \<open>One line of the help: \<open>"%s  %-20s %s\n"\<close>.\<close>

definition pad20 :: "string \<Rightarrow> string" where
  "pad20 s = s @ replicate (20 - length s) CHR '' ''"

definition cmd_line :: "('s, 'a) cmd \<Rightarrow> string" where
  "cmd_line c = ''  '' @ pad20 (cmd_name c) @ '' '' @
     (case cmd_description c of None \<Rightarrow> [] | Some d \<Rightarrow> d) @ [CHR 0x0a]"

text \<open>The heading is a parameter, for its dash is not one character.\<close>

definition make_root_doc :: "string \<Rightarrow> ('s, 'a) cmd list \<Rightarrow> string" where
  "make_root_doc heading cmds = foldl (\<lambda>doc c. doc @ cmd_line c) heading cmds"

section \<open>The options of the program\<close>

record root_arguments =
  ra_name :: "string option"
  ra_args :: "string list"

text \<open>What a parser's step comes to: the end of the program, a status that ends parsing, or more.\<close>

datatype 'a root_step = root_exit int | root_error int | root_go 'a

text \<open>The parts of the program that the options change: the drivers and the arguments.\<close>

record ('s, 'a) root =
  rt_drivers :: "('s, 'a) host_driver list"
  rt_args :: root_arguments

definition root_opt ::
  "(string list \<Rightarrow> ('s, unit) state) \<Rightarrow> char \<Rightarrow> string \<Rightarrow> ('s, 'a) root \<Rightarrow>
   ('s logger, ('s, 'a) root root_step) act" where
  "root_opt show c v r =
     (if c = CHR ''q'' then act_bind (act_run (log_set_level level_none)) (\<lambda>_. act_ret (root_go r))
      else if c = CHR ''v'' then act_bind (act_run (log_set_level level_trace)) (\<lambda>_. act_ret (root_go r))
      else if c = CHR ''s'' then
        (let (rc, drivers) = disable_bridge_driver v (rt_drivers r)
         in act_ret (if rc \<noteq> 0 then root_error (- EINVAL) else root_go (r\<lparr>rt_drivers := drivers\<rparr>)))
      else if c = CHR ''l'' then
        act_bind (on_os (act_run (show (print_bridge_drivers (rt_drivers r))))) (\<lambda>_. act_ret (root_exit 0))
      else act_ret (root_exit 64))"

text \<open>A word: what follows it in \<open>argv\<close> is the command's, and parsing is at its end.\<close>

definition root_word :: "string list \<Rightarrow> nat \<Rightarrow> string \<Rightarrow> ('s, 'a) root \<Rightarrow> ('s, 'a) root root_step" where
  "root_word argv i w r =
     (case ra_name (rt_args r) of
        Some _ \<Rightarrow> root_exit 64
      | None \<Rightarrow> root_go (r\<lparr>rt_args := \<lparr>ra_name = Some w, ra_args = drop (i + 1) argv\<rparr>\<rparr>))"

definition root_end :: "('s, 'a) root \<Rightarrow> ('s, 'a) root root_step" where
  "root_end r = (if ra_name (rt_args r) = None then root_exit 64 else root_go r)"

fun root_bind :: "'a root_step \<Rightarrow> ('a \<Rightarrow> ('s, 'b root_step) act) \<Rightarrow> ('s, 'b root_step) act" where
  "root_bind (root_exit st) k = act_ret (root_exit st)"
| "root_bind (root_error rc) k = act_ret (root_error rc)"
| "root_bind (root_go r) k = k r"

fun parse_root ::
  "(string list \<Rightarrow> ('s, unit) state) \<Rightarrow> string list \<Rightarrow> argp_event list \<Rightarrow> ('s, 'a) root \<Rightarrow>
   ('s logger, ('s, 'a) root root_step) act" where
  "parse_root show argv [] r = act_ret (root_end r)"
| "parse_root show argv (Opt c v # es) r =
     act_bind (root_opt show c v r) (\<lambda>st. root_bind st (parse_root show argv es))"
| "parse_root show argv (Word i w # es) r =
     root_bind (root_word argv i w r) (\<lambda>r. act_ret (root_end r))"

section \<open>The program\<close>

definition exit_status :: "int \<Rightarrow> int" where
  "exit_status rc = (if rc \<noteq> 0 then EXIT_FAILURE else 0)"

definition run_cmd ::
  "('s, 'a) cmd list \<Rightarrow> string list \<Rightarrow> ('s, 'a) root \<Rightarrow> ('s logger, int) act" where
  "run_cmd cmds argv r =
     (case ra_name (rt_args r) of
        None \<Rightarrow> act_ret (exit_status 0)
      | Some name \<Rightarrow>
          (case find (\<lambda>c. name = cmd_name c) cmds of
             None \<Rightarrow> act_ret (exit_status (- EINVAL))
           | Some selected \<Rightarrow>
               act_bind (on_os (cmd_fn selected (rt_drivers r)
                   ((hd argv @ '' '' @ name) # ra_args (rt_args r))))
                 (\<lambda>rc. act_ret (case rc of Inl st \<Rightarrow> st | Inr rc \<Rightarrow> exit_status rc))))"

definition culvert_main ::
  "(string list \<Rightarrow> ('s, unit) state) \<Rightarrow> ('s, 'a) cmd list \<Rightarrow> ('s, 'a) host_driver list \<Rightarrow>
   string list \<Rightarrow> argp_event list \<Rightarrow> ('s logger, int) act" where
  "culvert_main show cmds drivers argv events =
     act_bind (act_run (log_set_level level_info)) (\<lambda>_.
     act_bind (parse_root show argv events
         \<lparr>rt_drivers = drivers, rt_args = \<lparr>ra_name = None, ra_args = []\<rparr>\<rparr>)
       (\<lambda>st. case st of
          root_exit st \<Rightarrow> act_ret st
        | root_error rc \<Rightarrow> act_ret (exit_status rc)
        | root_go r \<Rightarrow> run_cmd (qsort cmd_cmp cmds) argv r))"

section \<open>The commands of the program\<close>

text \<open>
  What the handlers work on: how \<open>argp\<close> cuts the arguments of a command into events, the session
  over the drivers, the services below it, the bridges that some commands open by themselves, and
  the memory that is read before it is written.
\<close>

record ('s, 'a, 'c, 'd, 'e) cmd_env =
  ev_argp :: "string \<Rightarrow> string list \<Rightarrow> argp_event list"
  ev_session :: "('s, 'a) host_driver list \<Rightarrow> ('s, 'a) session"
  ev_services :: "'s services"
  ev_console :: "'s console_io"
  ev_jtag :: "'s soc \<Rightarrow> string \<Rightarrow> ('s, 's jtag option) state"
  ev_net :: "'s jtag_net"
  ev_stdio :: "'s stdio"
  ev_p2a :: "u16 \<Rightarrow> ('s, 'c) bridge_ctx"
  ev_ilpc :: "('s, 'd) bridge_ctx"
  ev_devmem :: "('s, 'e) bridge_ctx"
  ev_debug :: "int \<Rightarrow> connection_args \<Rightarrow> ('s, int + 's debug) act"
  ev_debug_access :: "ast_ahb_args \<Rightarrow> 's debug \<Rightarrow> ('s, int + int) act"
  ev_junk :: "u8 list"
  ev_junk_mode :: bridge_mode

definition console_cmd :: "('s, 'a, 'c, 'd, 'e) cmd_env \<Rightarrow> ('s, 'a) cmd" where
  "console_cmd env = \<lparr>cmd_name = ''console'',
     cmd_description = Some ''Start a getty on the BMC console'',
     cmd_fn = (\<lambda>drivers argv. do_console
       (ev_session env drivers) (ev_services env) (ev_console env) (ev_argp env ''console'' argv))\<rparr>"

definition coprocessor_cmd :: "('s, 'a, 'c, 'd, 'e) cmd_env \<Rightarrow> ('s, 'a) cmd" where
  "coprocessor_cmd env = \<lparr>cmd_name = ''coprocessor'',
     cmd_description = Some ''Do things on the coprocessors of the AST2600'',
     cmd_fn = (\<lambda>drivers argv. do_coprocessor
       (ev_session env drivers) (ev_services env) argv (ev_argp env ''coprocessor'' argv))\<rparr>"

definition debug_cmd :: "('s, 'a, 'c, 'd, 'e) cmd_env \<Rightarrow> ('s, 'a) cmd" where
  "debug_cmd env = \<lparr>cmd_name = ''debug'',
     cmd_description = Some ''Read or write 4 bytes of data via the AHB bridge'',
     cmd_fn = (\<lambda>drivers argv. do_debug
       drivers (ev_debug env) (ev_debug_access env) argv (ev_argp env ''debug'' argv))\<rparr>"

definition devmem_cmd :: "('s, 'a, 'c, 'd, 'e) cmd_env \<Rightarrow> ('s, 'a) cmd" where
  "devmem_cmd env = \<lparr>cmd_name = ''devmem'',
     cmd_description = Some ''Read or write data to /dev/mem'',
     cmd_fn = (\<lambda>drivers argv. do_devmem
       (ev_devmem env) (ev_stdio env) (ev_argp env ''devmem'' argv))\<rparr>"

definition ilpc_cmd :: "('s, 'a, 'c, 'd, 'e) cmd_env \<Rightarrow> ('s, 'a) cmd" where
  "ilpc_cmd env = \<lparr>cmd_name = ''ilpc'',
     cmd_description = Some ''Read or write via iLPC'',
     cmd_fn = (\<lambda>drivers argv. do_ilpc
       (ev_ilpc env) (ev_stdio env) (ev_argp env ''ilpc'' argv))\<rparr>"

definition jtag_cmd :: "('s, 'a, 'c, 'd, 'e) cmd_env \<Rightarrow> ('s, 'a) cmd" where
  "jtag_cmd env = \<lparr>cmd_name = ''jtag'',
     cmd_description = Some ''Start a JTAG OpenOCD Bitbang server'',
     cmd_fn = (\<lambda>drivers argv. do_jtag
       (ev_session env drivers) (ev_jtag env) (ev_net env) argv (ev_argp env ''jtag'' argv))\<rparr>"

definition otp_cmd :: "('s, 'a, 'c, 'd, 'e) cmd_env \<Rightarrow> ('s, 'a) cmd" where
  "otp_cmd env = \<lparr>cmd_name = ''otp'',
     cmd_description = Some ''Read and write the OTP configuration (AST2600-only)'',
     cmd_fn = (\<lambda>drivers argv. do_otp
       (ev_session env drivers) (ev_services env) argv (ev_argp env ''otp'' argv))\<rparr>"

definition p2a_cmd :: "('s, 'a, 'c, 'd, 'e) cmd_env \<Rightarrow> ('s, 'a) cmd" where
  "p2a_cmd env = \<lparr>cmd_name = ''p2a'',
     cmd_description = Some ''Read or write data via p2a devices'',
     cmd_fn = (\<lambda>drivers argv. do_p2a
       (ev_p2a env) (ev_stdio env) (ev_argp env ''p2a'' argv))\<rparr>"

definition probe_cmd :: "('s, 'a, 'c, 'd, 'e) cmd_env \<Rightarrow> ('s, 'a) cmd" where
  "probe_cmd env = \<lparr>cmd_name = ''probe'',
     cmd_description = Some ''Probe for any BMC'',
     cmd_fn = (\<lambda>drivers argv. do_probe
       (ev_session env drivers) (ev_services env) (ev_junk_mode env) argv (ev_argp env ''probe'' argv))\<rparr>"

definition read_cmd :: "('s, 'a, 'c, 'd, 'e) cmd_env \<Rightarrow> ('s, 'a) cmd" where
  "read_cmd env = \<lparr>cmd_name = ''read'',
     cmd_description = Some ''Read data from the FMC or RAM'',
     cmd_fn = (\<lambda>drivers argv. do_read
       (ev_session env drivers) (ev_services env) argv (ev_argp env ''read'' argv))\<rparr>"

definition replace_cmd :: "('s, 'a, 'c, 'd, 'e) cmd_env \<Rightarrow> ('s, 'a) cmd" where
  "replace_cmd env = \<lparr>cmd_name = ''replace'',
     cmd_description = Some ''Replace a portion in the memory'',
     cmd_fn = (\<lambda>drivers argv. do_replace
       (ev_session env drivers) (ev_services env) argv (ev_argp env ''replace'' argv))\<rparr>"

definition reset_cmd :: "('s, 'a, 'c, 'd, 'e) cmd_env \<Rightarrow> ('s, 'a) cmd" where
  "reset_cmd env = \<lparr>cmd_name = ''reset'',
     cmd_description = Some ''Reset a component of the BMC chip'',
     cmd_fn = (\<lambda>drivers argv. do_reset
       (ev_session env drivers) (ev_services env) argv (ev_argp env ''reset'' argv))\<rparr>"

definition sfc_cmd :: "('s, 'a, 'c, 'd, 'e) cmd_env \<Rightarrow> ('s, 'a) cmd" where
  "sfc_cmd env = \<lparr>cmd_name = ''sfc'',
     cmd_description = Some ''Read, write or erase areas of a supported SFC'',
     cmd_fn = (\<lambda>drivers argv. do_sfc
       (ev_session env drivers) (ev_services env) (ev_junk env) argv (ev_argp env ''sfc'' argv))\<rparr>"

definition trace_cmd :: "('s, 'a, 'c, 'd, 'e) cmd_env \<Rightarrow> ('s, 'a) cmd" where
  "trace_cmd env = \<lparr>cmd_name = ''trace'',
     cmd_description = Some ''Trace what happens on a register'',
     cmd_fn = (\<lambda>drivers argv. do_trace
       (ev_session env drivers) (ev_services env) argv (ev_argp env ''trace'' argv))\<rparr>"

definition write_cmd :: "('s, 'a, 'c, 'd, 'e) cmd_env \<Rightarrow> ('s, 'a) cmd" where
  "write_cmd env = \<lparr>cmd_name = ''write'',
     cmd_description = Some ''Write data to the FMC or RAM'',
     cmd_fn = (\<lambda>drivers argv. do_write
       (ev_session env drivers) (ev_services env) argv (ev_argp env ''write'' argv))\<rparr>"

definition culvert_cmds :: "('s, 'a, 'c, 'd, 'e) cmd_env \<Rightarrow> ('s, 'a) cmd list" where
  "culvert_cmds env = [console_cmd env, coprocessor_cmd env, debug_cmd env, devmem_cmd
     env, ilpc_cmd env, jtag_cmd env, otp_cmd env, p2a_cmd env, probe_cmd env, read_cmd env,
     replace_cmd env, reset_cmd env, sfc_cmd env, trace_cmd env, write_cmd env]"

lemmas cmd_defs = console_cmd_def coprocessor_cmd_def debug_cmd_def devmem_cmd_def
  ilpc_cmd_def jtag_cmd_def otp_cmd_def p2a_cmd_def probe_cmd_def read_cmd_def replace_cmd_def
  reset_cmd_def sfc_cmd_def trace_cmd_def write_cmd_def

lemma culvert_cmd_names: "map cmd_name (culvert_cmds env) = [''console'',
     ''coprocessor'', ''debug'', ''devmem'', ''ilpc'', ''jtag'', ''otp'', ''p2a'', ''probe'',
     ''read'', ''replace'', ''reset'', ''sfc'', ''trace'', ''write'']"
  by (simp add: culvert_cmds_def cmd_defs)

section \<open>Dispatch\<close>

text \<open>
  What the options come to: the level of the last of \<open>-q\<close> and \<open>-v\<close>, and the drivers without
  those that are skipped.
\<close>

definition opts_level :: "(char \<times> string) list \<Rightarrow> log_level" where
  "opts_level opts = foldl (\<lambda>l (c, v). if c = CHR ''q'' then level_none
     else if c = CHR ''v'' then level_trace else l) level_info opts"

definition skips :: "(char \<times> string) list \<Rightarrow> string set" where
  "skips opts = {v. (CHR ''s'', v) \<in> set opts}"

definition skip_drivers :: "string set \<Rightarrow> ('s, 'a) host_driver list \<Rightarrow> ('s, 'a) host_driver list" where
  "skip_drivers names drivers =
     map (\<lambda>d. if drv_name d \<in> names then d\<lparr>drv_disabled := True\<rparr> else d) drivers"

definition opts_ok :: "('s, 'a) host_driver list \<Rightarrow> (char \<times> string) list \<Rightarrow> bool" where
  "opts_ok drivers opts \<longleftrightarrow> list_all (\<lambda>(c, v). c = CHR ''q'' \<or> c = CHR ''v'' \<or>
     c = CHR ''s'' \<and> v \<in> set (map drv_name drivers)) opts"

lemma disable_is_skip:
  assumes "distinct (map drv_name drivers)" "v \<in> set (map drv_name drivers)"
  shows "disable_bridge_driver v drivers = (0, skip_drivers {v} drivers)"
proof (cases "find_index (\<lambda>d. drv_name d = v) drivers")
  case None
  then show ?thesis using assms(2) by (auto simp: find_index_None)
next
  case (Some i)
  note i = find_index_SomeD [OF Some]
  have "drv_name (drivers ! j) = v \<longleftrightarrow> j = i" if "j < length drivers" for j
    using that i assms(1) nth_eq_iff_index_eq [OF assms(1), of j i] by auto
  then show ?thesis
    using Some i by (auto simp: disable_bridge_driver_def skip_drivers_def intro!: nth_equalityI)
qed

lemma skip_drivers_simps [simp]:
  "map drv_name (skip_drivers N drivers) = map drv_name drivers"
  "skip_drivers M (skip_drivers N drivers) = skip_drivers (N \<union> M) drivers"
  "skip_drivers {} drivers = drivers"
  by (auto simp: skip_drivers_def)

lemma parse_root_opts:
  assumes "distinct (map drv_name (rt_drivers r))" "opts_ok (rt_drivers r) opts"
  shows "parse_root show argv (map (\<lambda>(c, v). Opt c v) opts @ es) r l =
    parse_root show argv es (r\<lparr>rt_drivers := skip_drivers (skips opts) (rt_drivers r)\<rparr>)
      (l\<lparr>lg_level := foldl (\<lambda>l (c, v). if c = CHR ''q'' then level_none
         else if c = CHR ''v'' then level_trace else l) (lg_level l) opts\<rparr>)"
  using assms
proof (induction opts arbitrary: r l)
  case (Cons q opts)
  obtain c v where q: "q = (c, v)" by fastforce
  consider "c = CHR ''q''" | "c = CHR ''v''" | "c = CHR ''s''" "v \<in> set (map drv_name (rt_drivers r))"
    using Cons.prems(2) by (auto simp: opts_ok_def q)
  then show ?case
  proof cases
    case 3
    have ok: "opts_ok (skip_drivers {v} (rt_drivers r)) opts"
      using Cons.prems(2) by (simp add: opts_ok_def)
    have s: "skips (q # opts) = {v} \<union> skips opts" using 3(1) by (auto simp: skips_def q)
    from Cons.IH [of "r\<lparr>rt_drivers := skip_drivers {v} (rt_drivers r)\<rparr>" l] ok Cons.prems(1) 3 show ?thesis
      unfolding s by (simp add: q root_opt_def disable_is_skip)
  qed (use Cons in \<open>simp_all add: q root_opt_def log_set_level_def opts_ok_def skips_def\<close>)
qed (simp add: skips_def)

lemma set_qsort_insert: "set (qsort_insert cmp x ys) = insert x (set ys)"
  by (induction ys) auto

lemma set_qsort [simp]: "set (qsort cmp xs) = set xs"
  unfolding qsort_def by (induction xs) (simp_all add: set_qsort_insert)

text \<open>The first of the sorted commands that has the name is the one of the registry that has it.\<close>

lemma find_qsort:
  assumes "distinct (map cmd_name cmds)"
  shows "find (\<lambda>c. name = cmd_name c) (qsort cmp cmds) = find (\<lambda>c. name = cmd_name c) cmds"
proof (cases "find (\<lambda>c. name = cmd_name c) cmds")
  case None
  then have "find (\<lambda>c. name = cmd_name c) (qsort cmp cmds) = None" by (simp add: find_None_iff)
  with None show ?thesis by simp
next
  case (Some c)
  from Some have c: "c \<in> set cmds" "name = cmd_name c" by (auto simp: find_Some_iff)
  then obtain c' where c': "find (\<lambda>c. name = cmd_name c) (qsort cmp cmds) = Some c'"
    by (cases "find (\<lambda>c. name = cmd_name c) (qsort cmp cmds)") (auto simp: find_None_iff)
  then obtain j where "j < length (qsort cmp cmds)" "c' = qsort cmp cmds ! j" "name = cmd_name c'"
    by (auto simp: find_Some_iff)
  then have "c' \<in> set cmds" "name = cmd_name c'" using nth_mem [of j "qsort cmp cmds"] by simp_all
  then have "c' = c" using c assms by (auto simp: distinct_map inj_on_def)
  with c' Some show ?thesis by simp
qed

text \<open>
  Claim C7. The program runs the command that is named, and only that. For any registry of
  commands with names of their own and any drivers: after options that are \<open>-q\<close>, \<open>-v\<close> or \<open>-s\<close>
  with a driver's name, the word \<open>name\<close> at place \<open>i\<close> of the arguments runs the command of that
  name, on the drivers of which exactly those that were skipped have been disabled, with the
  arguments behind the word and the program's name and the word in front of them; what follows
  the word is not looked at. The program ends with the status the command exits with, else with
  0 exactly if the command returns 0; without such a command it ends with 1, having done nothing
  but set the level of the last of \<open>-q\<close> and \<open>-v\<close>.
\<close>

theorem culvert_dispatch:
  assumes "distinct (map cmd_name cmds)" "distinct (map drv_name drivers)" "opts_ok drivers opts"
    and "l' = l\<lparr>lg_level := opts_level opts\<rparr>"
  shows "culvert_main show cmds drivers argv (map (\<lambda>(c, v). Opt c v) opts @ Word i name # rest) l =
    (case find (\<lambda>c. name = cmd_name c) cmds of
       None \<Rightarrow> Some (1, l')
     | Some c \<Rightarrow>
         map_option (\<lambda>(r, s). (case r of Inl st \<Rightarrow> st | Inr rc \<Rightarrow> if rc = 0 then 0 else 1, l'\<lparr>lg_os := s\<rparr>))
           (cmd_fn c (skip_drivers (skips opts) drivers)
              ((hd argv @ '' '' @ name) # drop (i + 1) argv) (lg_os l)))"
proof -
  let ?r = "\<lparr>rt_drivers = drivers, rt_args = \<lparr>ra_name = None, ra_args = []\<rparr>\<rparr>"
  have parse: "parse_root show argv (map (\<lambda>(c, v). Opt c v) opts @ Word i name # rest) ?r (l\<lparr>lg_level := level_info\<rparr>) =
      Some (root_go \<lparr>rt_drivers = skip_drivers (skips opts) drivers,
        rt_args = \<lparr>ra_name = Some name, ra_args = drop (i + 1) argv\<rparr>\<rparr>, l')"
    using parse_root_opts [of ?r opts "show" argv "Word i name # rest"] assms(2-4)
    by (simp add: root_word_def root_end_def opts_level_def)
  show ?thesis
    using assms(4)
    by (simp add: culvert_main_def log_set_level_def parse run_cmd_def find_qsort [OF assms(1)] exit_status_def
        on_os_def act_bind_def map_option_case split: option.split)
      (auto simp: exit_status_def split: option.split sum.split)
qed

text \<open>The commands of the program have names of their own.\<close>

lemma culvert_cmds_distinct: "distinct (map cmd_name (culvert_cmds env))"
  unfolding culvert_cmd_names by simp

theorem culvert_dispatch_witness:
  "\<forall>env :: (nat, nat, nat, nat, nat) cmd_env. \<exists>s. culvert_main (\<lambda>_. ret ()) (culvert_cmds (env\<lparr>ev_argp := (\<lambda>c argv. [])\<rparr>)) example_drivers
     [''culvert'', ''-v'', ''jtag''] [Opt CHR ''v'' [], Word 2 ''jtag''] \<lparr>lg_level = level_none, lg_os = 7\<rparr> =
     Some (64, \<lparr>lg_level = level_trace, lg_os = s\<rparr>)"
proof
  fix env :: "(nat, nat, nat, nat, nat) cmd_env"
  let ?env = "env\<lparr>ev_argp := (\<lambda>c argv. [])\<rparr>"
  have drivers: "distinct (map drv_name example_drivers)" by (simp add: example_drivers_def)
  have opts: "opts_ok example_drivers [(CHR ''v'', [])]" by (simp add: opts_ok_def)
  have "find (\<lambda>c. ''jtag'' = cmd_name c) (culvert_cmds ?env) = Some (jtag_cmd ?env)"
    by (simp add: culvert_cmds_def cmd_defs)
  then show "\<exists>s. culvert_main (\<lambda>_. ret ()) (culvert_cmds ?env) example_drivers
     [''culvert'', ''-v'', ''jtag''] [Opt CHR ''v'' [], Word 2 ''jtag''] \<lparr>lg_level = level_none, lg_os = 7\<rparr> =
     Some (64, \<lparr>lg_level = level_trace, lg_os = s\<rparr>)"
    using culvert_dispatch [OF culvert_cmds_distinct drivers opts refl, of "\<lambda>_. ret ()" ?env
      "[''culvert'', ''-v'', ''jtag'']" 2 "''jtag''" "[]" "\<lparr>lg_level = level_none, lg_os = 7\<rparr>"]
    by (simp add: opts_level_def jtag_cmd_def do_jtag_def cmd_jtag_parse_opt_def jtag_end_def argp_check_def
        no_connection_def)
qed

end
