(* ===== verification/CcanList.thy ===== *)
theory CcanList
  imports Prelude
begin

text \<open>
  The doubly linked lists that keep the bridges, the devices and the controllers,
  \<^verbatim>\<open>src/ccan/list\<close>: the operations on a heap of nodes, and that they implement the operations
  of HOL's lists, by which the other theories model them.
\<close>

section \<open>Nodes in memory\<close>

text \<open>A pointer is an address; a list head is the node it consists of.\<close>

type_synonym addr = u64

record list_node =
  ln_next :: addr
  ln_prev :: addr

type_synonym heap = "addr \<Rightarrow> list_node"

definition set_next :: "addr \<Rightarrow> addr \<Rightarrow> heap \<Rightarrow> heap" where
  "set_next p v hp = hp(p := (hp p)\<lparr>ln_next := v\<rparr>)"

definition set_prev :: "addr \<Rightarrow> addr \<Rightarrow> heap \<Rightarrow> heap" where
  "set_prev p v hp = hp(p := (hp p)\<lparr>ln_prev := v\<rparr>)"

lemma set_next_simps [simp]:
  "ln_next (set_next p v hp q) = (if q = p then v else ln_next (hp q))"
  "ln_prev (set_next p v hp q) = ln_prev (hp q)"
  by (simp_all add: set_next_def)

lemma set_prev_simps [simp]:
  "ln_prev (set_prev p v hp q) = (if q = p then v else ln_prev (hp q))"
  "ln_next (set_prev p v hp q) = ln_next (hp q)"
  by (simp_all add: set_prev_def)

section \<open>Operations\<close>

text \<open>The assignments in their order, a statement a line; the checks are those of a build without
  \<open>CCAN_LIST_DEBUG\<close>, which have no effect.\<close>

definition list_node_init :: "addr \<Rightarrow> heap \<Rightarrow> heap" where
  "list_node_init n hp = set_next n n (set_prev n n hp)"

definition list_head_init :: "addr \<Rightarrow> heap \<Rightarrow> heap" where
  "list_head_init h hp = set_next h h (set_prev h h hp)"

definition list_add_after :: "addr \<Rightarrow> addr \<Rightarrow> addr \<Rightarrow> heap \<Rightarrow> heap" where
  "list_add_after h p n hp =
     (let hp = set_next n (ln_next (hp p)) hp;
          hp = set_prev n p hp;
          hp = set_prev (ln_next (hp p)) n hp
      in set_next p n hp)"

definition list_add :: "addr \<Rightarrow> addr \<Rightarrow> heap \<Rightarrow> heap" where
  "list_add h n = list_add_after h h n"

definition list_add_before :: "addr \<Rightarrow> addr \<Rightarrow> addr \<Rightarrow> heap \<Rightarrow> heap" where
  "list_add_before h p n hp =
     (let hp = set_next n p hp;
          hp = set_prev n (ln_prev (hp p)) hp;
          hp = set_next (ln_prev (hp p)) n hp
      in set_prev p n hp)"

definition list_add_tail :: "addr \<Rightarrow> addr \<Rightarrow> heap \<Rightarrow> heap" where
  "list_add_tail h n = list_add_before h h n"

definition list_empty :: "addr \<Rightarrow> heap \<Rightarrow> bool" where
  "list_empty h hp \<longleftrightarrow> ln_next (hp h) = h"

definition list_empty_nocheck :: "addr \<Rightarrow> heap \<Rightarrow> bool" where
  "list_empty_nocheck h hp \<longleftrightarrow> ln_next (hp h) = h"

definition list_del :: "addr \<Rightarrow> heap \<Rightarrow> heap" where
  "list_del n hp =
     (let hp = set_prev (ln_next (hp n)) (ln_prev (hp n)) hp
      in set_next (ln_prev (hp n)) (ln_next (hp n)) hp)"

definition list_del_init :: "addr \<Rightarrow> heap \<Rightarrow> heap" where
  "list_del_init n hp = list_node_init n (list_del n hp)"

text \<open>A failed assertion is \<open>None\<close>.\<close>

definition list_del_from :: "addr \<Rightarrow> addr \<Rightarrow> heap \<Rightarrow> heap option" where
  "list_del_from h n hp = (if list_empty h hp then None else Some (list_del n hp))"

definition list_swap :: "addr \<Rightarrow> addr \<Rightarrow> heap \<Rightarrow> heap" where
  "list_swap a n hp =
     (let hp = hp(n := hp a);
          hp = set_prev (ln_next (hp n)) n hp
      in set_next (ln_prev (hp n)) n hp)"

text \<open>Entries: \<open>off\<close> is where the node is in its structure, and \<open>None\<close> is \<open>NULL\<close>.\<close>

definition list_node_to_off :: "addr \<Rightarrow> u64 \<Rightarrow> addr" where
  "list_node_to_off node off = node - off"

definition list_node_from_off :: "addr \<Rightarrow> u64 \<Rightarrow> addr" where
  "list_node_from_off ptr off = ptr + off"

definition list_top :: "addr \<Rightarrow> u64 \<Rightarrow> heap \<Rightarrow> addr option" where
  "list_top h off hp = (if list_empty h hp then None else Some (ln_next (hp h) - off))"

definition list_pop :: "addr \<Rightarrow> u64 \<Rightarrow> heap \<Rightarrow> addr option \<times> heap" where
  "list_pop h off hp =
     (if list_empty h hp then (None, hp)
      else let n = ln_next (hp h) in (Some (n - off), list_del n hp))"

definition list_tail :: "addr \<Rightarrow> u64 \<Rightarrow> heap \<Rightarrow> addr option" where
  "list_tail h off hp = (if list_empty h hp then None else Some (ln_prev (hp h) - off))"

definition list_entry_or_null :: "addr \<Rightarrow> addr \<Rightarrow> u64 \<Rightarrow> addr option" where
  "list_entry_or_null h n off = (if n = h then None else Some (n - off))"

definition list_next :: "addr \<Rightarrow> addr \<Rightarrow> u64 \<Rightarrow> heap \<Rightarrow> addr option" where
  "list_next h i off hp = list_entry_or_null h (ln_next (hp (i + off))) off"

definition list_prev :: "addr \<Rightarrow> addr \<Rightarrow> u64 \<Rightarrow> heap \<Rightarrow> addr option" where
  "list_prev h i off hp = list_entry_or_null h (ln_prev (hp (i + off))) off"

definition list_append_list :: "addr \<Rightarrow> addr \<Rightarrow> heap \<Rightarrow> heap" where
  "list_append_list to from hp =
     (let from_tail = ln_prev (hp from);
          to_tail = ln_prev (hp to);
          hp = set_prev to from_tail hp;
          hp = set_next from_tail to hp;
          hp = set_next to_tail from hp;
          hp = set_prev from to_tail hp;
          hp = list_del from hp
      in list_head_init from hp)"

definition list_prepend_list :: "addr \<Rightarrow> addr \<Rightarrow> heap \<Rightarrow> heap" where
  "list_prepend_list to from hp =
     (let from_tail = ln_prev (hp from);
          to_head = ln_next (hp to);
          hp = set_next to from hp;
          hp = set_prev from to hp;
          hp = set_prev to_head from_tail hp;
          hp = set_next from_tail to_head hp;
          hp = list_del from hp
      in list_head_init from hp)"

text \<open>
  The check of the debugging build walks the ring and may not come back; it gives the node or
  \<open>NULL\<close>, and with a message it aborts instead, \<open>Inl\<close>.
\<close>

definition list_corrupt :: "string option \<Rightarrow> unit + addr option" where
  "list_corrupt abortstr = (if abortstr = None then Inr None else Inl ())"

partial_function (option) list_check_loop ::
  "heap \<Rightarrow> string option \<Rightarrow> addr \<Rightarrow> addr \<Rightarrow> addr \<Rightarrow> (unit + addr option) option" where
  "list_check_loop hp abortstr node p n =
     (if n = node
      then Some (if ln_prev (hp node) \<noteq> p then list_corrupt abortstr else Inr (Some node))
      else if ln_prev (hp n) \<noteq> p then Some (list_corrupt abortstr)
      else list_check_loop hp abortstr node n (ln_next (hp n)))"

definition list_check_node :: "addr \<Rightarrow> string option \<Rightarrow> heap \<Rightarrow> (unit + addr option) option" where
  "list_check_node node abortstr hp = list_check_loop hp abortstr node node (ln_next (hp node))"

definition list_check :: "addr \<Rightarrow> string option \<Rightarrow> heap \<Rightarrow> (unit + addr option) option" where
  "list_check h abortstr hp = list_check_node h abortstr hp"

text \<open>
  The loops: \<open>body\<close> gets a structure and the state, of which \<open>mem\<close> is the memory. The plain
  loop reads the next node after the body, the safe one before it.
\<close>

partial_function (option) list_for_each ::
  "('s \<Rightarrow> heap) \<Rightarrow> addr \<Rightarrow> u64 \<Rightarrow> (addr \<Rightarrow> 's \<Rightarrow> 's) \<Rightarrow> addr \<Rightarrow> 's \<Rightarrow> 's option" where
  "list_for_each mem h off body i s =
     (if i + off = h then Some s
      else let s = body i s in list_for_each mem h off body (ln_next (mem s (i + off)) - off) s)"

partial_function (option) list_for_each_safe ::
  "('s \<Rightarrow> heap) \<Rightarrow> addr \<Rightarrow> u64 \<Rightarrow> (addr \<Rightarrow> 's \<Rightarrow> 's) \<Rightarrow> addr \<Rightarrow> addr \<Rightarrow> 's \<Rightarrow> 's option" where
  "list_for_each_safe mem h off body i nxt s =
     (if i + off = h then Some s
      else let s = body i s
           in list_for_each_safe mem h off body nxt (ln_next (mem s (nxt + off)) - off) s)"

definition for_each :: "('s \<Rightarrow> heap) \<Rightarrow> addr \<Rightarrow> u64 \<Rightarrow> (addr \<Rightarrow> 's \<Rightarrow> 's) \<Rightarrow> 's \<Rightarrow> 's option" where
  "for_each mem h off body s = list_for_each mem h off body (ln_next (mem s h) - off) s"

definition for_each_safe :: "('s \<Rightarrow> heap) \<Rightarrow> addr \<Rightarrow> u64 \<Rightarrow> (addr \<Rightarrow> 's \<Rightarrow> 's) \<Rightarrow> 's \<Rightarrow> 's option" where
  "for_each_safe mem h off body s =
     (let i = ln_next (mem s h) - off
      in list_for_each_safe mem h off body i (ln_next (mem s (i + off)) - off) s)"

section \<open>Rings\<close>

text \<open>
  \<open>chain hp a xs b\<close>: from \<open>a\<close> over \<open>xs\<close> to \<open>b\<close>, with both links of every step. A list is a chain from its
  head to its head.
\<close>

fun chain :: "heap \<Rightarrow> addr \<Rightarrow> addr list \<Rightarrow> addr \<Rightarrow> bool" where
  "chain hp a [] b \<longleftrightarrow> ln_next (hp a) = b \<and> ln_prev (hp b) = a"
| "chain hp a (x # xs) b \<longleftrightarrow> ln_next (hp a) = x \<and> ln_prev (hp x) = a \<and> chain hp x xs b"

definition list_at :: "heap \<Rightarrow> addr \<Rightarrow> addr list \<Rightarrow> bool" where
  "list_at hp h xs \<longleftrightarrow> distinct (h # xs) \<and> chain hp h xs h"

lemma chain_append [simp]: "chain hp a (xs @ y # ys) b \<longleftrightarrow> chain hp a xs y \<and> chain hp y ys b"
  by (induction xs arbitrary: a) auto

lemma chain_set_next [simp]: "p \<noteq> a \<Longrightarrow> p \<notin> set xs \<Longrightarrow> chain (set_next p v hp) a xs b = chain hp a xs b"
  by (induction xs arbitrary: a) auto

lemma chain_set_prev [simp]: "p \<noteq> b \<Longrightarrow> p \<notin> set xs \<Longrightarrow> chain (set_prev p v hp) a xs b = chain hp a xs b"
  by (induction xs arbitrary: a) auto

lemma chain_update [simp]:
  "p \<noteq> a \<Longrightarrow> p \<noteq> b \<Longrightarrow> p \<notin> set xs \<Longrightarrow> chain (hp(p := v)) a xs b = chain hp a xs b"
  by (induction xs arbitrary: a) auto

lemma chain_ends:
  assumes "chain hp a xs b"
  shows "ln_next (hp a) = hd (xs @ [b])" "ln_prev (hp b) = last (a # xs)"
  using assms by (induction xs arbitrary: a) auto

text \<open>A ring has no beginning.\<close>

lemma list_at_rotate: "list_at hp h (ys @ p # zs) \<longleftrightarrow> list_at hp p (zs @ h # ys)"
  by (auto simp: list_at_def)

lemma list_at_init: "list_at (list_head_init h hp) h []"
  by (simp add: list_at_def list_head_init_def)

lemma list_at_add:
  assumes "list_at hp h xs" "n \<notin> set (h # xs)"
  shows "list_at (list_add_after h' h n hp) h (n # xs)"
  using assms by (cases xs) (auto simp: list_at_def list_add_after_def Let_def)

lemma list_at_add_before:
  assumes "list_at hp h xs" "n \<notin> set (h # xs)"
  shows "list_at (list_add_before h' h n hp) h (xs @ [n])"
  using assms by (cases xs rule: rev_cases) (auto simp: list_at_def list_add_before_def Let_def)

text \<open>Removing the node a ring is looked at from.\<close>

lemma list_at_del:
  assumes "list_at hp x (q # qs)"
  shows "list_at (list_del x hp) q qs"
  using assms by (cases qs rule: rev_cases) (auto simp: list_at_def list_del_def Let_def)

lemma list_at_swap:
  assumes "list_at hp a (q # qs)" "n \<notin> set (a # q # qs)"
  shows "list_at (list_swap a n hp) n (q # qs)"
  using assms
  by (cases qs rule: rev_cases) (auto simp: list_at_def list_swap_def Let_def)

section \<open>The operations at any place of a list\<close>

lemma list_del_at:
  assumes "list_at hp h (ys @ x # zs)"
  shows "list_at (list_del x hp) h (ys @ zs)"
proof (cases zs)
  case Nil
  then show ?thesis using list_at_del [of hp x h ys] assms by (simp add: list_at_rotate [of hp h ys])
next
  case (Cons z zs')
  have "list_at hp x (z # (zs' @ h # ys))" using assms Cons by (simp add: list_at_rotate [of hp h ys])
  then have "list_at (list_del x hp) z (zs' @ h # ys)" by (rule list_at_del)
  then show ?thesis using Cons by (simp add: list_at_rotate [of "list_del x hp" z])
qed

lemma list_del_member:
  assumes "list_at hp h xs" "x \<in> set xs"
  shows "list_at (list_del x hp) h (remove1 x xs)"
proof -
  obtain ys zs where xs: "xs = ys @ x # zs" by (meson assms(2) split_list)
  then have "x \<notin> set ys" using assms(1) by (auto simp: list_at_def)
  then show ?thesis using list_del_at [of hp h ys x zs] assms(1) by (simp add: xs remove1_append)
qed

lemma list_swap_at:
  assumes "list_at hp h (ys @ x # zs)" "n \<notin> set (h # ys @ x # zs)"
  shows "list_at (list_swap x n hp) h (ys @ n # zs)"
proof -
  have r: "list_at hp x (zs @ h # ys)" using assms(1) by (simp add: list_at_rotate [of hp h])
  obtain q qs where q: "zs @ h # ys = q # qs" by (cases "zs @ h # ys") auto
  have "n \<notin> set (x # q # qs)" using assms(2) unfolding q [symmetric] by auto
  from list_at_swap [OF r [unfolded q] this]
  have "list_at (list_swap x n hp) n (zs @ h # ys)" by (simp only: q)
  then show ?thesis by (simp add: list_at_rotate [of _ n zs])
qed

lemma list_ends:
  assumes "list_at hp h xs"
  shows "list_empty h hp \<longleftrightarrow> xs = []"
    and "list_top h off hp = (case xs of [] \<Rightarrow> None | x # _ \<Rightarrow> Some (x - off))"
    and "list_tail h off hp = (if xs = [] then None else Some (last xs - off))"
    and "list_pop h off hp = (case xs of [] \<Rightarrow> (None, hp) | x # _ \<Rightarrow> (Some (x - off), list_del x hp))"
proof -
  have c: "ln_next (hp h) = hd (xs @ [h])" "ln_prev (hp h) = last (h # xs)" "h \<notin> set xs"
    using assms chain_ends [of hp h xs h] by (auto simp: list_at_def)
  show e: "list_empty h hp \<longleftrightarrow> xs = []" using c by (cases xs) (auto simp: list_empty_def)
  show "list_top h off hp = (case xs of [] \<Rightarrow> None | x # _ \<Rightarrow> Some (x - off))"
    using c e by (cases xs) (simp_all add: list_top_def)
  show "list_tail h off hp = (if xs = [] then None else Some (last xs - off))"
    using c e by (simp add: list_tail_def)
  show "list_pop h off hp = (case xs of [] \<Rightarrow> (None, hp) | x # _ \<Rightarrow> (Some (x - off), list_del x hp))"
    using c e by (cases xs) (simp_all add: list_pop_def)
qed

text \<open>Before and after a member.\<close>

lemma list_steps:
  assumes "list_at hp h (ys @ x # zs)" "i = x - off"
  shows "list_next h i off hp = (case zs of [] \<Rightarrow> None | z # _ \<Rightarrow> Some (z - off))"
    and "list_prev h i off hp = (if ys = [] then None else Some (last ys - off))"
proof -
  have c: "ln_next (hp x) = hd (zs @ [h])" "ln_prev (hp x) = last (h # ys)" "h \<notin> set ys" "h \<notin> set zs"
    using assms(1) chain_ends [of hp x zs h] chain_ends [of hp h ys x] by (auto simp: list_at_def)
  show "list_next h i off hp = (case zs of [] \<Rightarrow> None | z # _ \<Rightarrow> Some (z - off))"
    using c assms(2) by (cases zs) (auto simp: list_next_def list_entry_or_null_def)
  show "list_prev h i off hp = (if ys = [] then None else Some (last ys - off))"
    using c assms(2) by (cases ys rule: rev_cases) (auto simp: list_prev_def list_entry_or_null_def)
qed

text \<open>Two lists become one, and the other is empty.\<close>

lemma list_at_frame:
  assumes "list_at hp h xs" "\<forall>p\<in>set (h # xs). hp' p = hp p"
  shows "list_at hp' h xs"
proof -
  have "chain hp' a ys b = chain hp a ys b" if "\<forall>p\<in>set (a # b # ys). hp' p = hp p" for a ys b
    using that by (induction ys arbitrary: a) auto
  then show ?thesis using assms by (simp add: list_at_def)
qed

lemma list_init_frame: "list_at hp h xs \<Longrightarrow> f \<notin> set (h # xs) \<Longrightarrow> list_at (list_head_init f hp) h xs"
  by (rule list_at_frame) (auto simp: list_head_init_def set_next_def set_prev_def)

lemma list_append_at:
  assumes "list_at hp to xs" "list_at hp from ys" "set (to # xs) \<inter> set (from # ys) = {}"
  shows "list_at (list_append_list to from hp) to (xs @ ys) \<and> list_at (list_append_list to from hp) from []"
proof -
  let ?ft = "ln_prev (hp from)" and ?tt = "ln_prev (hp to)"
  let ?hp = "set_prev from ?tt (set_next ?tt from (set_next ?ft to (set_prev to ?ft hp)))"
  have c: "?ft = last (from # ys)" "?tt = last (to # xs)"
    using assms(1,2) chain_ends(2) by (auto simp: list_at_def)
  have "list_at ?hp to (xs @ from # ys)"
    unfolding c using assms
    by (cases xs rule: rev_cases; cases ys rule: rev_cases) (auto simp: list_at_def)
  then have "list_at (list_del from ?hp) to (xs @ ys)" by (rule list_del_at)
  then show ?thesis
    using list_init_frame [of "list_del from ?hp" to "xs @ ys" "from"] list_at_init assms(2,3)
    by (auto simp: list_append_list_def Let_def list_at_def)
qed

lemma list_prepend_at:
  assumes "list_at hp to xs" "list_at hp from ys" "set (to # xs) \<inter> set (from # ys) = {}"
  shows "list_at (list_prepend_list to from hp) to (ys @ xs) \<and> list_at (list_prepend_list to from hp) from []"
proof -
  let ?ft = "ln_prev (hp from)" and ?th = "ln_next (hp to)"
  let ?hp = "set_next ?ft ?th (set_prev ?th ?ft (set_prev from to (set_next to from hp)))"
  have c: "?ft = last (from # ys)" "?th = hd (xs @ [to])"
    using assms(1,2) chain_ends by (auto simp: list_at_def)
  have "list_at ?hp to ([] @ from # ys @ xs)"
    unfolding c using assms
    by (cases xs; cases ys rule: rev_cases) (auto simp: list_at_def)
  then have "list_at (list_del from ?hp) to ([] @ ys @ xs)" by (rule list_del_at)
  then show ?thesis
    using list_init_frame [of "list_del from ?hp" to "ys @ xs" "from"] list_at_init assms(2,3)
    by (auto simp: list_prepend_list_def Let_def list_at_def)
qed

section \<open>Walking a list\<close>

lemma check_chain:
  assumes "chain hp p xs h" "h \<notin> set xs"
  shows "list_check_loop hp abortstr h p (ln_next (hp p)) = Some (Inr (Some h))"
  using assms
proof (induction xs arbitrary: p)
  case (Cons x xs)
  then show ?case by (subst list_check_loop.simps) auto
qed (subst list_check_loop.simps, simp)

lemma list_check_ok: "list_at hp h xs \<Longrightarrow> list_check h abortstr hp = Some (Inr (Some h))"
  by (auto simp: list_check_def list_check_node_def list_at_def intro: check_chain)

lemma for_each_fold:
  assumes "\<And>s x. list_at (mem s) h (ys @ xs) \<Longrightarrow> x \<in> set xs \<Longrightarrow> list_at (mem (body (x - off) s)) h (ys @ xs)"
    and "list_at (mem s) h (ys @ xs)" "i + off = hd (xs @ [h])"
  shows "list_for_each mem h off body i s = Some (fold (\<lambda>x. body (x - off)) xs s)"
  using assms
proof (induction xs arbitrary: ys i s)
  case Nil
  then show ?case by (subst list_for_each.simps) simp
next
  case (Cons x xs)
  let ?s = "body (x - off) s"
  have i: "i = x - off" "i + off = x" using Cons.prems(3) by (auto simp: algebra_simps)
  have s: "list_at (mem ?s) h (ys @ x # xs)" using Cons.prems(1) [OF Cons.prems(2), of x] by simp
  then have c: "ln_next (mem ?s x) = hd (xs @ [h])" "x \<noteq> h"
    using chain_ends(1) [of "mem ?s" x xs h] by (auto simp: list_at_def)
  have "list_for_each mem h off body (hd (xs @ [h]) - off) ?s = Some (fold (\<lambda>x. body (x - off)) xs ?s)"
    by (rule Cons.IH [of "ys @ [x]"]) (use Cons.prems(1) s in auto)
  then show ?case using i c by (subst list_for_each.simps) simp
qed

text \<open>A body that takes the current member out, as those of the destructors do.\<close>

lemma for_each_safe_fold:
  assumes "\<And>s x xs. list_at (mem s) h (x # xs) \<Longrightarrow> list_at (mem (body (x - off) s)) h xs"
    and "list_at (mem s) h xs" "i + off = hd (xs @ [h])" "nxt = ln_next (mem s (hd (xs @ [h]))) - off"
  shows "list_for_each_safe mem h off body i nxt s = Some (fold (\<lambda>x. body (x - off)) xs s) \<and>
    list_at (mem (fold (\<lambda>x. body (x - off)) xs s)) h []"
  using assms
proof (induction xs arbitrary: i nxt s)
  case Nil
  then show ?case by (subst list_for_each_safe.simps) simp
next
  case (Cons x xs)
  let ?s = "body (x - off) s"
  have i: "i = x - off" "i + off = x" using Cons.prems(3) by (auto simp: algebra_simps)
  have c: "nxt + off = hd (xs @ [h])" "x \<noteq> h"
    using Cons.prems(2,4) chain_ends(1) [of "mem s" x xs h] by (auto simp: list_at_def)
  have s: "list_at (mem ?s) h xs" using Cons.prems(1) [OF Cons.prems(2)] .
  from Cons.IH [OF Cons.prems(1) s c(1) refl] show ?case
    using i c by (subst list_for_each_safe.simps) simp
qed

section \<open>Properties\<close>

text \<open>
  Claim C9. The pointer lists are lists. Where a heap holds the list \<open>xs\<close> at the head \<open>h\<close>, adding a
  node that is not in it puts it in front or at the end, deleting a member takes out that member,
  the test for emptiness, \<open>list_top\<close>, \<open>list_tail\<close> and \<open>list_pop\<close> tell what the list is, and the
  consistency check passes; appending or prepending another, disjoint list leaves that one empty.
\<close>

theorem list_implements:
  assumes "list_at hp h xs" "n \<notin> set (h # xs)" "list_at hp h2 ys" "set (h # xs) \<inter> set (h2 # ys) = {}"
  shows "list_at (list_add h n hp) h (n # xs) \<and> list_at (list_add_tail h n hp) h (xs @ [n]) \<and>
    (\<forall>x\<in>set xs. list_at (list_del x hp) h (remove1 x xs)) \<and>
    (list_empty h hp \<longleftrightarrow> xs = []) \<and>
    list_top h off hp = (case xs of [] \<Rightarrow> None | x # _ \<Rightarrow> Some (x - off)) \<and>
    list_tail h off hp = (if xs = [] then None else Some (last xs - off)) \<and>
    list_pop h off hp = (case xs of [] \<Rightarrow> (None, hp) | x # _ \<Rightarrow> (Some (x - off), list_del x hp)) \<and>
    list_check h abortstr hp = Some (Inr (Some h)) \<and>
    list_at (list_append_list h h2 hp) h (xs @ ys) \<and> list_at (list_append_list h h2 hp) h2 [] \<and>
    list_at (list_prepend_list h h2 hp) h (ys @ xs) \<and> list_at (list_prepend_list h h2 hp) h2 []"
  using list_at_add [OF assms(1,2)] list_at_add_before [OF assms(1,2)] list_del_member [OF assms(1)]
    list_ends [OF assms(1)] list_check_ok [OF assms(1)] list_append_at [OF assms(1,3,4)]
    list_prepend_at [OF assms(1,3,4)]
  unfolding list_add_def list_add_tail_def by blast

text \<open>Two lists of two and of one node.\<close>

definition example_heap :: heap where
  "example_heap = list_add_tail 0x100 0x120 (list_add_tail 0x100 0x110 (list_head_init 0x100
     (list_add 0x200 0x210 (list_head_init 0x200 (\<lambda>_. \<lparr>ln_next = 0, ln_prev = 0\<rparr>)))))"

lemma example_heap_lists: "list_at example_heap 0x100 [0x110, 0x120]" "list_at example_heap 0x200 [0x210]"
  by (simp_all add: example_heap_def list_at_def list_add_def list_add_tail_def list_add_after_def
      list_add_before_def list_head_init_def)

theorem list_implements_witness:
  "list_at (list_add 0x100 0x130 example_heap) 0x100 [0x130, 0x110, 0x120] \<and>
   list_at (list_append_list 0x100 0x200 example_heap) 0x100 [0x110, 0x120, 0x210]"
  using list_implements [OF example_heap_lists(1) _ example_heap_lists(2),
    where n = "0x130" and off = 0 and abortstr = None] by simp

text \<open>
  Claim C24. A loop over a list whose body takes the current member out ends: with
  \<open>list_for_each_safe\<close>, whatever else the body does to the memory, it is called once for every
  member, in their order, and the list is empty in the end.
\<close>

theorem for_each_safe_empties:
  assumes "\<forall>s x xs. list_at (mem s) h (x # xs) \<longrightarrow> list_at (mem (body (x - off) s)) h xs"
    and "list_at (mem s) h xs"
  shows "for_each_safe mem h off body s = Some (fold (\<lambda>x. body (x - off)) xs s) \<and>
    list_at (mem (fold (\<lambda>x. body (x - off)) xs s)) h []"
proof -
  have "ln_next (mem s h) = hd (xs @ [h])"
    using assms(2) chain_ends(1) [of "mem s" h xs h] by (simp add: list_at_def)
  moreover have "list_at (mem (body (x - off) s)) h xs" if "list_at (mem s) h (x # xs)" for s x xs
    using assms(1) that by blast
  ultimately show ?thesis
    unfolding for_each_safe_def Let_def by (intro for_each_safe_fold) (use assms(2) in auto)
qed

text \<open>The members are recorded, taken out and overwritten, as memory is that was given back.\<close>

definition drop_member :: "addr \<Rightarrow> heap \<times> addr list \<Rightarrow> heap \<times> addr list" where
  "drop_member x s = ((list_del (x + 8) (fst s))(x + 8 := \<lparr>ln_next = 0, ln_prev = 0\<rparr>), snd s @ [x])"

theorem for_each_safe_empties_witness:
  "\<exists>hp. for_each_safe fst 0x100 8 drop_member (example_heap, []) = Some (hp, [0x108, 0x118]) \<and>
     list_at hp 0x100 []"
proof -
  have step: "\<forall>s x xs. list_at (fst s) 0x100 (x # xs) \<longrightarrow> list_at (fst (drop_member (x - 8) s)) 0x100 xs"
  proof (intro allI impI)
    fix s :: "heap \<times> addr list" and x xs
    assume l: "list_at (fst s) 0x100 (x # xs)"
    have "list_at (list_del x (fst s)) 0x100 xs" using list_del_at [of "fst s" "0x100" "[]" x xs] l by simp
    then show "list_at (fst (drop_member (x - 8) s)) 0x100 xs"
      by (rule list_at_frame) (use l in \<open>auto simp: drop_member_def list_at_def\<close>)
  qed
  have at: "list_at (fst (example_heap, [] :: addr list)) 0x100 [0x110, 0x120]" using example_heap_lists by simp
  let ?r = "fold (\<lambda>x. drop_member (x - 8)) [0x110, 0x120] (example_heap, [])"
  have "snd ?r = [0x108, 0x118]" by (simp add: drop_member_def)
  then have "?r = (fst ?r, [0x108, 0x118])" by (metis prod.collapse)
  then show ?thesis
    using for_each_safe_empties [OF step at] by metis
qed

end
