(* ===== verification/Shell.thy ===== *)
theory Shell
  imports Partial
begin

text \<open>
  Collecting the output of a shell command, \<^verbatim>\<open>src/shell.c\<close>: the standard streams are put aside,
  replaced for the child and put back. The property is that the descriptors are afterwards what
  they were.
\<close>

section \<open>The calls of the operating system\<close>

text \<open>\<open>Inl\<close> is the \<open>errno\<close> of a call that gives -1.\<close>

record 's shell_os =
  so_dup :: "int \<Rightarrow> ('s, int + int) state"
  so_close :: "int \<Rightarrow> ('s, int + unit) state"
  so_open :: "string \<Rightarrow> ('s, int + int) state"
  so_pipe :: "('s, int + int \<times> int) state"
  so_dup2 :: "int \<Rightarrow> int \<Rightarrow> ('s, int + int) state"
  so_system :: "string \<Rightarrow> ('s, int + int) state"
  so_read :: "int \<Rightarrow> nat \<Rightarrow> ('s, int + u8 list) state"

abbreviation STDOUT :: int where "STDOUT \<equiv> 1"
abbreviation STDERR :: int where "STDERR \<equiv> 2"

section \<open>Cleaning up\<close>

text \<open>The labels at the end of the function, each with what follows it.\<close>

definition cleanup_stdout_dup :: "'s shell_os \<Rightarrow> int \<Rightarrow> ('s, unit) state" where
  "cleanup_stdout_dup os out = do { _ \<leftarrow> so_close os out; ret () }"

definition cleanup_stderr_dup :: "'s shell_os \<Rightarrow> int \<Rightarrow> int \<Rightarrow> ('s, unit) state" where
  "cleanup_stderr_dup os out err = do { _ \<leftarrow> so_close os err; cleanup_stdout_dup os out }"

definition cleanup_stderr_close :: "'s shell_os \<Rightarrow> int \<Rightarrow> int \<Rightarrow> ('s, unit) state" where
  "cleanup_stderr_close os out err = do { _ \<leftarrow> so_dup2 os err STDERR; cleanup_stderr_dup os out err }"

definition cleanup_pipe :: "'s shell_os \<Rightarrow> int \<Rightarrow> int \<Rightarrow> int \<Rightarrow> int \<Rightarrow> ('s, unit) state" where
  "cleanup_pipe os out err p0 p1 = do {
     (if p1 \<noteq> -1 then do { _ \<leftarrow> so_close os p1; ret () } else ret ());
     _ \<leftarrow> so_close os p0;
     cleanup_stderr_close os out err }"

definition cleanup_stdout :: "'s shell_os \<Rightarrow> int \<Rightarrow> int \<Rightarrow> int \<Rightarrow> int \<Rightarrow> ('s, unit) state" where
  "cleanup_stdout os out err p0 p1 = do { _ \<leftarrow> so_dup2 os out STDOUT; cleanup_pipe os out err p0 p1 }"

section \<open>The output\<close>

text \<open>Reading until the end of the output or of the buffer.\<close>

function shell_read :: "'s shell_os \<Rightarrow> int \<Rightarrow> nat \<Rightarrow> u8 list \<Rightarrow> 's \<Rightarrow> (int + u8 list) \<times> 's" where
  "shell_read os fd remaining out s =
     (case run_state (so_read os fd remaining) s of
        (Inl e, s1) \<Rightarrow> (Inl (- e), s1)
      | (Inr bs, s1) \<Rightarrow>
          if bs \<noteq> [] \<and> remaining - length bs \<noteq> 0
          then shell_read os fd (remaining - length bs) (out @ bs) s1
          else (Inr (out @ bs), s1))"
  by pat_completeness auto

termination
  by (relation "measure (\<lambda>(os, fd, remaining, out, s). remaining)") auto

declare shell_read.simps [simp del]

text \<open>The terminator goes behind the output, or over its last byte where the buffer is full.\<close>

definition shell_terminate :: "nat \<Rightarrow> u8 list \<Rightarrow> u8 list" where
  "shell_terminate len out = (if length out < len then out else butlast out) @ [0]"

definition shell_leave :: "('s, unit) state \<Rightarrow> int \<Rightarrow> u8 list \<Rightarrow> ('s, int \<times> u8 list) act" where
  "shell_leave cleanup rc buf = act_bind (act_run cleanup) (\<lambda>_. act_ret (rc, buf))"

definition shell_run ::
  "'s shell_os \<Rightarrow> string \<Rightarrow> nat \<Rightarrow> int \<Rightarrow> int \<Rightarrow> int \<Rightarrow> int \<Rightarrow> ('s, int \<times> u8 list) act" where
  "shell_run os cmd len out err p0 p1 =
     act_bind (act_run (so_dup2 os p1 STDOUT)) (\<lambda>r. case r of
       Inl e \<Rightarrow> shell_leave (cleanup_pipe os out err p0 p1) (- e) []
     | Inr fd \<Rightarrow>
         if fd \<noteq> STDOUT then act_stuck
         else act_bind (act_run (so_system os cmd)) (\<lambda>r. case r of
           Inl e \<Rightarrow> if e = 0 then act_stuck else shell_leave (cleanup_stdout os out err p0 p1) (- e) []
         | Inr _ \<Rightarrow>
             act_bind (act_run (so_close os STDOUT)) (\<lambda>_.
             act_bind (act_run (so_close os p1)) (\<lambda>_.
             act_bind (act_run (State (shell_read os p0 len []))) (\<lambda>r. case r of
               Inl rc \<Rightarrow> shell_leave (cleanup_stdout os out err p0 (-1)) rc []
             | Inr bs \<Rightarrow> shell_leave (cleanup_stdout os out err p0 (-1)) (int (length bs)) (shell_terminate len bs))))))"

definition shell_get_output :: "'s shell_os \<Rightarrow> string \<Rightarrow> nat \<Rightarrow> ('s, int \<times> u8 list) act" where
  "shell_get_output os cmd len =
     (if len = 0 then act_stuck
      else act_bind (act_run (so_dup os STDOUT)) (\<lambda>r. case r of
        Inl e \<Rightarrow> act_ret (- e, [])
      | Inr out \<Rightarrow> act_bind (act_run (so_dup os STDERR)) (\<lambda>r. case r of
        Inl e \<Rightarrow> shell_leave (cleanup_stdout_dup os out) (- e) []
      | Inr err \<Rightarrow> act_bind (act_run (so_close os STDERR)) (\<lambda>r. case r of
        Inl e \<Rightarrow> shell_leave (cleanup_stderr_dup os out err) (- e) []
      | Inr _ \<Rightarrow> act_bind (act_run (so_open os ''/dev/null'')) (\<lambda>r. case r of
        Inl e \<Rightarrow> shell_leave (cleanup_stderr_close os out err) (- e) []
      | Inr _ \<Rightarrow> act_bind (act_run (so_pipe os)) (\<lambda>r. case r of
        Inl e \<Rightarrow> shell_leave (cleanup_stderr_close os out err) (- e) []
      | Inr (p0, p1) \<Rightarrow> shell_run os cmd len out err p0 p1))))))"

lemma shell_terminate_bound:
  "0 < len \<Longrightarrow> length out \<le> len \<Longrightarrow> length (shell_terminate len out) \<le> len \<and> last (shell_terminate len out) = 0"
  by (auto simp: shell_terminate_def)

section \<open>A table of descriptors\<close>

text \<open>
  The contract. \<open>tbl\<close> is what each descriptor refers to. A call that makes a descriptor fails
  and changes nothing, or takes the least that is free. \<open>close\<close> of an open descriptor
  succeeds and frees it, or fails, and then POSIX leaves open whether it is freed. \<open>dup2\<close> of
  an open descriptor succeeds, or fails and changes nothing. A child and reading change no
  descriptor of the parent. \<open>flt\<close> keeps the failures of \<open>close\<close> and \<open>dup2\<close>: the descriptor that
  was to be closed, or the one that was to refer to a file, with that file.
\<close>

datatype 'f shell_fault = CloseFault int | DupFault int 'f

definition least_free :: "(int \<Rightarrow> 'f option) \<Rightarrow> int \<Rightarrow> bool" where
  "least_free t n \<longleftrightarrow> 0 \<le> n \<and> t n = None \<and> (\<forall>m. 0 \<le> m \<longrightarrow> m < n \<longrightarrow> t m \<noteq> None)"

text \<open>
  What is given back of the table \<open>t\<close> at the start: each descriptor, unless the very call
  that gives it back failed. That is closing it, for a standard stream putting its file back
  (a \<open>dup2\<close> of just that file), and for standard error closing it in the first place.
\<close>

definition excused :: "(int \<Rightarrow> 'f option) \<Rightarrow> 'f shell_fault set \<Rightarrow> int \<Rightarrow> bool" where
  "excused t F fd \<longleftrightarrow>
     (if fd = STDOUT then DupFault STDOUT (the (t STDOUT)) \<in> F
      else if fd = STDERR then DupFault STDERR (the (t STDERR)) \<in> F \<or> CloseFault STDERR \<in> F
      else CloseFault fd \<in> F)"

definition fds_restored :: "(int \<Rightarrow> 'f option) \<Rightarrow> (int \<Rightarrow> 'f option) \<Rightarrow> 'f shell_fault set \<Rightarrow> bool" where
  "fds_restored t u F \<longleftrightarrow> (\<forall>fd. excused t F fd \<or> u fd = t fd)"

lemma excused_mono: "excused t F fd \<Longrightarrow> F \<subseteq> G \<Longrightarrow> excused t G fd"
  by (auto simp: excused_def split: if_splits)

lemma excused_none [simp]: "\<not> excused t {} fd"
  by (simp add: excused_def)

locale fd_table =
  fixes os :: "'s shell_os"
    and tbl :: "'s \<Rightarrow> int \<Rightarrow> 'f option"
    and flt :: "'s \<Rightarrow> 'f shell_fault set"
  assumes negative: "fd < 0 \<Longrightarrow> tbl s fd = None"
    and dup: "tbl s fd = Some f \<Longrightarrow> \<exists>r s'. run_state (so_dup os fd) s = (r, s') \<and> flt s' = flt s \<and>
      (case r of Inl e \<Rightarrow> 0 < e \<and> tbl s' = tbl s | Inr n \<Rightarrow> least_free (tbl s) n \<and> tbl s' = (tbl s)(n := Some f))"
    and close: "tbl s fd \<noteq> None \<Longrightarrow> \<exists>r s'. run_state (so_close os fd) s = (r, s') \<and>
      (case r of Inl e \<Rightarrow> 0 < e \<and> flt s' = insert (CloseFault fd) (flt s) \<and> tbl s' \<in> {tbl s, (tbl s)(fd := None)}
       | Inr _ \<Rightarrow> flt s' = flt s \<and> tbl s' = (tbl s)(fd := None))"
    and openf: "\<exists>r s'. run_state (so_open os path) s = (r, s') \<and> flt s' = flt s \<and>
      (case r of Inl e \<Rightarrow> 0 < e \<and> tbl s' = tbl s | Inr n \<Rightarrow> \<exists>f. least_free (tbl s) n \<and> tbl s' = (tbl s)(n := Some f))"
    and pipe: "\<exists>r s'. run_state (so_pipe os) s = (r, s') \<and> flt s' = flt s \<and>
      (case r of Inl e \<Rightarrow> 0 < e \<and> tbl s' = tbl s | Inr (p0, p1) \<Rightarrow> \<exists>f g. least_free (tbl s) p0 \<and>
         least_free ((tbl s)(p0 := Some f)) p1 \<and> tbl s' = (tbl s)(p0 := Some f, p1 := Some g))"
    and dup2: "tbl s a = Some f \<Longrightarrow> 0 \<le> b \<Longrightarrow> \<exists>r s'. run_state (so_dup2 os a b) s = (r, s') \<and>
      (case r of Inl e \<Rightarrow> 0 < e \<and> flt s' = insert (DupFault b f) (flt s) \<and> tbl s' = tbl s
       | Inr n \<Rightarrow> n = b \<and> flt s' = flt s \<and> tbl s' = (tbl s)(b := Some f))"
    and system: "\<exists>r s'. run_state (so_system os cmd) s = (r, s') \<and> flt s' = flt s \<and> tbl s' = tbl s \<and>
      (case r of Inl e \<Rightarrow> 0 < e | Inr st \<Rightarrow> True)"
    and read: "\<exists>r s'. run_state (so_read os fd n) s = (r, s') \<and> flt s' = flt s \<and> tbl s' = tbl s \<and>
      (case r of Inl e \<Rightarrow> 0 < e | Inr bs \<Rightarrow> length bs \<le> n)"
begin

lemma shell_read_tbl:
  "tbl (snd (shell_read os fd n out s)) = tbl s \<and> flt (snd (shell_read os fd n out s)) = flt s \<and>
    (case fst (shell_read os fd n out s) of Inl e \<Rightarrow> e < 0 | Inr bs \<Rightarrow> length bs \<le> length out + n)"
proof (induction n arbitrary: out s rule: less_induct)
  case (less n)
  obtain r s1 where r: "run_state (so_read os fd n) s = (r, s1)" "tbl s1 = tbl s" "flt s1 = flt s"
      "case r of Inl e \<Rightarrow> 0 < e | Inr bs \<Rightarrow> length bs \<le> n"
    using read by blast
  show ?case
  proof (cases r)
    case (Inl e)
    then show ?thesis using r by (subst (1 2 3) shell_read.simps) simp
  next
    case (Inr bs)
    have bs: "length bs \<le> n" using r(4) Inr by simp
    show ?thesis
    proof (cases "bs \<noteq> [] \<and> n - length bs \<noteq> 0")
      case True
      then have "n - length bs < n" by auto
      from less [OF this, of "out @ bs" s1] show ?thesis
        using r Inr bs True by (subst (1 2 3) shell_read.simps) (auto split: sum.splits)
    next
      case False
      then show ?thesis using r Inr bs by (subst (1 2 3) shell_read.simps) auto
    qed
  qed
qed

text \<open>
  Everything but the descriptors of \<open>D\<close> has been given back. Closing and putting back settle
  one descriptor each and touch no other.
\<close>

definition owes :: "(int \<Rightarrow> 'f option) \<Rightarrow> int set \<Rightarrow> 's \<Rightarrow> bool" where
  "owes t D s \<longleftrightarrow> (\<forall>fd. fd \<notin> D \<longrightarrow> excused t (flt s) fd \<or> tbl s fd = t fd)"

definition only :: "int \<Rightarrow> 's \<Rightarrow> 's \<Rightarrow> bool" where
  "only fd s s' \<longleftrightarrow> flt s \<subseteq> flt s' \<and> (\<forall>x. x \<noteq> fd \<longrightarrow> tbl s' x = tbl s x)"

lemma owes_only:
  "owes t D s \<Longrightarrow> only fd s s' \<Longrightarrow> excused t (flt s') fd \<or> tbl s' fd = t fd \<Longrightarrow> owes t (D - {fd}) s'"
  unfolding owes_def
proof (intro allI impI)
  fix x
  assume o: "\<forall>x. x \<notin> D \<longrightarrow> excused t (flt s) x \<or> tbl s x = t x" "only fd s s'"
    "excused t (flt s') fd \<or> tbl s' fd = t fd" "x \<notin> D - {fd}"
  show "excused t (flt s') x \<or> tbl s' x = t x"
  proof (cases "x = fd")
    case False
    then have "excused t (flt s) x \<or> tbl s x = t x" "tbl s' x = tbl s x" "flt s \<subseteq> flt s'"
      using o by (auto simp: only_def)
    then show ?thesis using excused_mono by metis
  qed (use o in simp)
qed

lemma closes:
  assumes "tbl s fd \<noteq> None"
  shows "\<exists>r s'. run_state (so_close os fd) s = (r, s') \<and> only fd s s' \<and> (CloseFault fd \<in> flt s' \<or> tbl s' fd = None) \<and>
    (case r of Inl e \<Rightarrow> 0 < e \<and> CloseFault fd \<in> flt s' | Inr _ \<Rightarrow> flt s' = flt s \<and> tbl s' = (tbl s)(fd := None))"
proof -
  obtain r s' where r: "run_state (so_close os fd) s = (r, s')"
    "case r of Inl e \<Rightarrow> 0 < e \<and> flt s' = insert (CloseFault fd) (flt s) \<and> tbl s' \<in> {tbl s, (tbl s)(fd := None)}
       | Inr _ \<Rightarrow> flt s' = flt s \<and> tbl s' = (tbl s)(fd := None)"
    using close [OF assms] by blast
  then have "only fd s s'" by (cases r) (auto simp: only_def)
  with r show ?thesis by (cases r) auto
qed

lemma settles:
  assumes "tbl s fd \<noteq> None" "fd \<notin> {STDOUT, STDERR}" "t fd = None" "owes t D s"
  shows "\<exists>r s'. run_state (so_close os fd) s = (r, s') \<and> only fd s s' \<and> owes t (D - {fd}) s'"
proof -
  obtain r s' where r: "run_state (so_close os fd) s = (r, s')" "only fd s s'"
      "CloseFault fd \<in> flt s' \<or> tbl s' fd = None"
    using closes [OF assms(1)] by blast
  moreover have "excused t (flt s') fd \<or> tbl s' fd = t fd" using r(3) assms(2,3) by (auto simp: excused_def)
  ultimately show ?thesis using owes_only [OF assms(4)] by blast
qed

lemma puts_back:
  assumes "tbl s a = t b" "t b = Some f" "b \<in> {STDOUT, STDERR}" "owes t D s"
  shows "\<exists>r s'. run_state (so_dup2 os a b) s = (r, s') \<and> only b s s' \<and> owes t (D - {b}) s'"
proof -
  have "0 \<le> b" using assms(3) by auto
  then obtain r s' where r: "run_state (so_dup2 os a b) s = (r, s')"
    "case r of Inl e \<Rightarrow> 0 < e \<and> flt s' = insert (DupFault b f) (flt s) \<and> tbl s' = tbl s
       | Inr n \<Rightarrow> n = b \<and> flt s' = flt s \<and> tbl s' = (tbl s)(b := Some f)"
    using dup2 [of s a f b] assms(1,2) by auto
  have "only b s s'" using r(2) by (cases r) (auto simp: only_def)
  moreover have "DupFault b f \<in> flt s' \<or> tbl s' b = t b" using r(2) assms(2) by (cases r) auto
  then have "excused t (flt s') b \<or> tbl s' b = t b" using assms(2,3) by (auto simp: excused_def)
  ultimately show ?thesis using r(1) owes_only [OF assms(4)] by blast
qed

text \<open>
  Every label gives back what is owed at its place: \<open>t\<close> is the table at the start, \<open>out\<close> and
  \<open>err\<close> are the copies of the two streams.
\<close>

definition aside :: "(int \<Rightarrow> 'f option) \<Rightarrow> int \<Rightarrow> int \<Rightarrow> bool" where
  "aside t out err \<longleftrightarrow> t STDOUT \<noteq> None \<and> t STDERR \<noteq> None \<and> t out = None \<and> t err = None \<and> out \<noteq> err"

definition copies :: "(int \<Rightarrow> 'f option) \<Rightarrow> int \<Rightarrow> int \<Rightarrow> 's \<Rightarrow> bool" where
  "copies t out err s \<longleftrightarrow> aside t out err \<and> tbl s out = t STDOUT \<and> tbl s err = t STDERR"

lemma aside_streams: "aside t out err \<Longrightarrow> out \<notin> {STDOUT, STDERR} \<and> err \<notin> {STDOUT, STDERR}"
  by (auto simp: aside_def)

lemma copies_only: "copies t out err s \<Longrightarrow> only fd s s' \<Longrightarrow> fd \<notin> {out, err} \<Longrightarrow> copies t out err s'"
  by (auto simp: copies_def only_def)

lemma stdout_dup_settles:
  assumes "tbl s out \<noteq> None" "out \<notin> {STDOUT, STDERR}" "t out = None" "owes t {out} s"
  shows "owes t {} (snd (run_state (cleanup_stdout_dup os out) s))"
  using settles [OF assms] by (auto simp: cleanup_stdout_dup_def)

lemma stderr_dup_settles:
  assumes "copies t out err s" "owes t {err, out} s"
  shows "owes t {} (snd (run_state (cleanup_stderr_dup os out err) s))"
proof -
  have a: "tbl s err \<noteq> None" "t err = None" "tbl s out \<noteq> None" "t out = None" "err \<noteq> out" "aside t out err"
    using assms(1) by (auto simp: copies_def aside_def)
  note st = aside_streams [OF a(6)]
  obtain r s1 where s1: "run_state (so_close os err) s = (r, s1)" "only err s s1" "owes t ({err, out} - {err}) s1"
    using settles [OF a(1) _ a(2) assms(2)] st by blast
  have "owes t {out} s1" using s1(3) a(5) by (simp add: insert_Diff_if)
  then have "owes t {} (snd (run_state (cleanup_stdout_dup os out) s1))"
    by (intro stdout_dup_settles) (use s1(2) a st in \<open>auto simp: only_def\<close>)
  then show ?thesis using s1(1) by (simp add: cleanup_stderr_dup_def)
qed

lemma stderr_close_settles:
  assumes "copies t out err s" "owes t {STDERR, err, out} s"
  shows "owes t {} (snd (run_state (cleanup_stderr_close os out err) s))"
proof -
  obtain f where f: "t STDERR = Some f" "tbl s err = t STDERR" "aside t out err"
    using assms(1) by (auto simp: copies_def aside_def)
  note st = aside_streams [OF f(3)]
  obtain r s1 where s1: "run_state (so_dup2 os err STDERR) s = (r, s1)" "only STDERR s s1"
      "owes t ({STDERR, err, out} - {STDERR}) s1"
    using puts_back [OF f(2,1) _ assms(2)] by blast
  have "copies t out err s1" "owes t {err, out} s1"
    using copies_only [OF assms(1) s1(2)] s1(3) st by (auto simp: insert_Diff_if)
  from stderr_dup_settles [OF this] s1(1) show ?thesis by (simp add: cleanup_stderr_close_def)
qed

text \<open>The ends of the pipe that are open.\<close>

definition pipe_ends :: "(int \<Rightarrow> 'f option) \<Rightarrow> int \<Rightarrow> int \<Rightarrow> int \<Rightarrow> int \<Rightarrow> 's \<Rightarrow> bool" where
  "pipe_ends t out err p0 p1 s \<longleftrightarrow> p0 \<noteq> p1 \<and> p0 \<noteq> -1 \<and> {p0, p1} \<inter> {STDOUT, STDERR, out, err} = {} \<and>
     t p0 = None \<and> t p1 = None \<and> tbl s p0 \<noteq> None \<and> (p1 \<noteq> -1 \<longrightarrow> tbl s p1 \<noteq> None)"

lemma pipe_ends_only: "pipe_ends t out err p0 p1 s \<Longrightarrow> only fd s s' \<Longrightarrow> fd \<notin> {p0, p1} \<Longrightarrow> pipe_ends t out err p0 p1 s'"
  by (auto simp: pipe_ends_def only_def)

lemma owes_less: "owes t D s \<Longrightarrow> D \<subseteq> E \<Longrightarrow> owes t E s"
  by (auto simp: owes_def)

lemma pipe_settles:
  assumes "copies t out err s" "pipe_ends t out err p0 p1 s"
    and "owes t ({p0, STDERR, err, out} \<union> ({p1} - {-1})) s"
  shows "owes t {} (snd (run_state (cleanup_pipe os out err p0 p1) s))"
proof -
  have p: "p0 \<notin> {STDOUT, STDERR}" "p1 \<notin> {STDOUT, STDERR}" "{p0, p1} \<inter> {out, err} = {}" "p0 \<noteq> p1"
      "t p0 = None" "t p1 = None" "tbl s p0 \<noteq> None"
    using assms(2) by (auto simp: pipe_ends_def)
  let ?s1 = "if p1 \<noteq> -1 then snd (run_state (so_close os p1) s) else s"
  have s1: "only p1 s ?s1 \<and> owes t {p0, STDERR, err, out} ?s1"
  proof (cases "p1 = -1")
    case False
    then have "tbl s p1 \<noteq> None" using assms(2) by (simp add: pipe_ends_def)
    from settles [OF this p(2,6) assms(3)] show ?thesis using False
      by (auto intro: owes_less)
  qed (use assms(3) in \<open>simp add: only_def\<close>)
  then have "tbl ?s1 p0 \<noteq> None" using p(4,7) by (simp add: only_def)
  from settles [OF this p(1,5) conjunct2 [OF s1]]
  obtain r s2 where s2: "run_state (so_close os p0) ?s1 = (r, s2)" "only p0 ?s1 s2"
      "owes t ({p0, STDERR, err, out} - {p0}) s2" by blast
  have "copies t out err s2"
    using copies_only [OF copies_only [OF assms(1) conjunct1 [OF s1]] s2(2)] p(3) by blast
  then have "owes t {} (snd (run_state (cleanup_stderr_close os out err) s2))"
    by (rule stderr_close_settles) (rule owes_less [OF s2(3)], blast)
  then show ?thesis using s2(1) by (cases "p1 = -1") (simp_all add: cleanup_pipe_def)
qed

lemma stdout_settles:
  assumes "copies t out err s" "pipe_ends t out err p0 p1 s"
    and "owes t ({STDOUT, p0, STDERR, err, out} \<union> ({p1} - {-1})) s"
  shows "owes t {} (snd (run_state (cleanup_stdout os out err p0 p1) s))"
proof -
  obtain f where f: "t STDOUT = Some f" "tbl s out = t STDOUT" "aside t out err"
    using assms(1) by (auto simp: copies_def aside_def)
  obtain r s1 where s1: "run_state (so_dup2 os out STDOUT) s = (r, s1)" "only STDOUT s s1"
      "owes t ({STDOUT, p0, STDERR, err, out} \<union> ({p1} - {-1}) - {STDOUT}) s1"
    using puts_back [OF f(2,1) _ assms(3)] by blast
  have "STDOUT \<notin> {out, err}" "STDOUT \<notin> {p0, p1}"
    using aside_streams [OF f(3)] assms(2) by (auto simp: pipe_ends_def)
  then have "copies t out err s1" "pipe_ends t out err p0 p1 s1"
    using copies_only [OF assms(1) s1(2)] pipe_ends_only [OF assms(2) s1(2)] by blast+
  moreover have "owes t ({p0, STDERR, err, out} \<union> ({p1} - {-1})) s1"
    by (rule owes_less [OF s1(3)]) blast
  ultimately show ?thesis using pipe_settles s1(1) by (simp add: cleanup_stdout_def)
qed

text \<open>From the pipe on, where standard output is still untouched.\<close>

definition gives_back :: "(int \<Rightarrow> 'f option) \<Rightarrow> nat \<Rightarrow> ((int \<times> u8 list) \<times> 's) option \<Rightarrow> bool" where
  "gives_back t len r \<longleftrightarrow>
     (\<exists>rc buf s'. r = Some ((rc, buf), s') \<and> owes t {} s' \<and> (rc < 0 \<or> length buf \<le> len \<and> last buf = 0))"

lemma gives_back_leave:
  "0 < e \<Longrightarrow> owes t {} (snd (run_state c s)) \<Longrightarrow> gives_back t len (shell_leave c (- e) [] s)"
  by (auto simp: gives_back_def shell_leave_def)

lemma same_table:
  assumes "tbl s' = tbl s" "flt s \<subseteq> flt s'"
  shows "owes t D s \<Longrightarrow> owes t D s'" "copies t out err s \<Longrightarrow> copies t out err s'"
    "pipe_ends t out err p0 p1 s \<Longrightarrow> pipe_ends t out err p0 p1 s'"
  using assms(1) excused_mono [OF _ assms(2)] by (auto simp: owes_def copies_def pipe_ends_def)

lemma owes_grow:
  assumes "owes t D s" "only fd s s'"
  shows "owes t (insert fd D) s'"
proof -
  have "flt s \<subseteq> flt s'" using assms(2) by (simp add: only_def)
  then show ?thesis using assms excused_mono [of t "flt s" _ "flt s'"] by (auto simp: owes_def only_def)
qed

lemma shell_tail:
  assumes "0 < len" "copies t out err s" "pipe_ends t out err p0 p1 s" "p1 \<noteq> -1" "t (-1) = None"
    and "owes t {STDOUT, p0, p1, STDERR, err, out} s" "tbl s STDOUT \<noteq> None"
  shows "gives_back t len (act_bind (act_run (so_close os STDOUT)) (\<lambda>_.
    act_bind (act_run (so_close os p1)) (\<lambda>_.
    act_bind (act_run (State (shell_read os p0 len []))) (\<lambda>r. case r of
      Inl rc \<Rightarrow> shell_leave (cleanup_stdout os out err p0 (-1)) rc []
    | Inr bs \<Rightarrow> shell_leave (cleanup_stdout os out err p0 (-1)) (int (length bs)) (shell_terminate len bs)))) s)"
proof -
  have a: "aside t out err" using assms(2) by (simp add: copies_def)
  note st = aside_streams [OF a]
  have p: "p0 \<noteq> p1" "p0 \<noteq> -1" "{p0, p1} \<inter> {STDOUT, STDERR, out, err} = {}" "t p1 = None" "tbl s p1 \<noteq> None"
    using assms(3,4) by (auto simp: pipe_ends_def)
  obtain r3 s3 where s3: "run_state (so_close os STDOUT) s = (r3, s3)" "only STDOUT s s3"
    using closes [OF assms(7)] by blast
  have c3: "copies t out err s3" "pipe_ends t out err p0 p1 s3"
    using copies_only [OF assms(2) s3(2)] pipe_ends_only [OF assms(3) s3(2)] st p(3) by blast+
  have o3: "owes t {STDOUT, p0, p1, STDERR, err, out} s3"
    using owes_grow [OF assms(6) s3(2)] by (simp add: insert_absorb)
  have "tbl s3 p1 \<noteq> None" "p1 \<notin> {STDOUT, STDERR}" using c3(2) assms(4) by (auto simp: pipe_ends_def)
  from settles [OF this p(4) o3] obtain r4 s4 where s4: "run_state (so_close os p1) s3 = (r4, s4)" "only p1 s3 s4"
      "owes t ({STDOUT, p0, p1, STDERR, err, out} - {p1}) s4" by blast
  let ?r5 = "shell_read os p0 len [] s4"
  note r5 = shell_read_tbl [of p0 len "[]" s4]
  have c4: "copies t out err s4" using copies_only [OF c3(1) s4(2)] p(3) by blast
  have "out \<noteq> -1" "err \<noteq> -1" using c4 negative [of "-1" s4] by (auto simp: copies_def aside_def)
  moreover have "tbl s4 p0 \<noteq> None" "t p0 = None"
    using c3(2) s4(2) by (auto simp: pipe_ends_def only_def)
  ultimately have e4: "pipe_ends t out err p0 (-1) s4"
    using p assms(5) by (auto simp: pipe_ends_def)
  have o4: "owes t ({STDOUT, p0, STDERR, err, out} \<union> ({-1} - {-1})) s4"
    by (rule owes_less [OF s4(3)]) blast
  note same5 = same_table [of "snd ?r5" s4, OF conjunct1 [OF r5] equalityD2 [OF conjunct1 [OF conjunct2 [OF r5]]]]
  have "owes t {} (snd (run_state (cleanup_stdout os out err p0 (-1)) (snd ?r5)))"
    by (rule stdout_settles [OF same5(2) [OF c4] same5(3) [OF e4] same5(1) [OF o4]])
  then show ?thesis
    using s3(1) s4(1) r5 shell_terminate_bound [OF assms(1)]
    by (cases "fst ?r5") (auto simp: gives_back_def shell_leave_def)
qed

lemma shell_run_gives_back:
  assumes "0 < len" "copies t out err s" "pipe_ends t out err p0 p1 s" "p1 \<noteq> -1" "t (-1) = None"
    and "owes t {p0, p1, STDERR, err, out} s"
  shows "gives_back t len (shell_run os cmd len out err p0 p1 s)"
proof -
  have a: "aside t out err" using assms(2) by (simp add: copies_def)
  obtain g where g: "tbl s p1 = Some g" using assms(3,4) by (auto simp: pipe_ends_def)
  have p1: "{p0, STDERR, err, out} \<union> ({p1} - {-1}) = {p0, p1, STDERR, err, out}"
    "{STDOUT, p0, STDERR, err, out} \<union> ({p1} - {-1}) = {STDOUT, p0, p1, STDERR, err, out}"
    using assms(4) by auto
  obtain r1 s1 where s1: "run_state (so_dup2 os p1 STDOUT) s = (r1, s1)"
      "case r1 of Inl e \<Rightarrow> 0 < e \<and> flt s1 = insert (DupFault STDOUT g) (flt s) \<and> tbl s1 = tbl s
       | Inr n \<Rightarrow> n = STDOUT \<and> flt s1 = flt s \<and> tbl s1 = (tbl s)(STDOUT := Some g)"
    using dup2 [OF g, of STDOUT] by auto
  show ?thesis
  proof (cases r1)
    case (Inl e)
    then have "tbl s1 = tbl s" "flt s \<subseteq> flt s1" "0 < e" using s1(2) by auto
    note same = same_table [OF this(1,2)]
    have "owes t {} (snd (run_state (cleanup_pipe os out err p0 p1) s1))"
      by (rule pipe_settles [OF same(2) [OF assms(2)] same(3) [OF assms(3)]], unfold p1, rule same(1) [OF assms(6)])
    then show ?thesis using gives_back_leave [OF \<open>0 < e\<close>] s1(1) Inl by (simp add: shell_run_def)
  next
    case (Inr n)
    then have o: "n = STDOUT" "only STDOUT s s1" "tbl s1 STDOUT = Some g" using s1(2) by (auto simp: only_def)
    obtain r2 s2 where s2: "run_state (so_system os cmd) s1 = (r2, s2)" "flt s2 = flt s1" "tbl s2 = tbl s1"
        "case r2 of Inl e \<Rightarrow> 0 < e | Inr st \<Rightarrow> True"
      using system by blast
    note same = same_table [OF s2(3) equalityD2 [OF s2(2)]]
    have "STDOUT \<notin> {out, err}" "STDOUT \<notin> {p0, p1}" using aside_streams [OF a] assms(3) by (auto simp: pipe_ends_def)
    then have c: "copies t out err s2" "pipe_ends t out err p0 p1 s2"
      using same(2) [OF copies_only [OF assms(2) o(2)]] same(3) [OF pipe_ends_only [OF assms(3) o(2)]] by blast+
    have w: "owes t {STDOUT, p0, p1, STDERR, err, out} s2" by (rule same(1) [OF owes_grow [OF assms(6) o(2)]])
    show ?thesis
    proof (cases r2)
      case (Inl e)
      have "owes t {} (snd (run_state (cleanup_stdout os out err p0 p1) s2))"
        by (rule stdout_settles [OF c], unfold p1, rule w)
      then show ?thesis using gives_back_leave [of e] s1(1) s2 Inr Inl o(1) by (simp add: shell_run_def)
    next
      case (Inr st)
      have "tbl s2 STDOUT \<noteq> None" using o(3) s2(3) by simp
      from shell_tail [OF assms(1) c assms(4,5) w this] s1(1) s2(1) Inr \<open>r1 = Inr n\<close> o(1)
      show ?thesis by (simp add: shell_run_def)
    qed
  qed
qed

text \<open>Before the pipe nothing has failed yet, so what is not owed is as it was.\<close>

definition exact :: "(int \<Rightarrow> 'f option) \<Rightarrow> int set \<Rightarrow> 's \<Rightarrow> bool" where
  "exact t D s \<longleftrightarrow> (\<forall>fd. fd \<notin> D \<longrightarrow> tbl s fd = t fd)"

lemma exact_owes: "exact t D s \<Longrightarrow> owes t D s"
  by (simp add: exact_def owes_def)

lemma pipe_and_run:
  assumes "0 < len" "copies t out err s" "exact t {STDERR, err, out} s" "tbl s STDERR \<noteq> None"
  shows "gives_back t len (act_bind (act_run (so_pipe os)) (\<lambda>r. case r of
      Inl e \<Rightarrow> shell_leave (cleanup_stderr_close os out err) (- e) []
    | Inr (p0, p1) \<Rightarrow> shell_run os cmd len out err p0 p1) s)"
proof -
  have a: "aside t out err" using assms(2) by (simp add: copies_def)
  obtain r s1 where r: "run_state (so_pipe os) s = (r, s1)" "flt s1 = flt s"
      "case r of Inl e \<Rightarrow> 0 < e \<and> tbl s1 = tbl s | Inr (p0, p1) \<Rightarrow> \<exists>f g. least_free (tbl s) p0 \<and>
         least_free ((tbl s)(p0 := Some f)) p1 \<and> tbl s1 = (tbl s)(p0 := Some f, p1 := Some g)"
    using pipe by blast
  show ?thesis
  proof (cases r)
    case (Inl e)
    then have e: "0 < e" "tbl s1 = tbl s" using r(3) by auto
    note same = same_table [OF e(2) equalityD2 [OF r(2)]]
    from stderr_close_settles [OF same(2) [OF assms(2)] same(1) [OF exact_owes [OF assms(3)]]] r(1) Inl
    show ?thesis using gives_back_leave [OF e(1)] by simp
  next
    case (Inr p)
    obtain p0 p1 where p: "p = (p0, p1)" by fastforce
    then obtain f g where fg: "least_free (tbl s) p0" "least_free ((tbl s)(p0 := Some f)) p1"
        "tbl s1 = (tbl s)(p0 := Some f, p1 := Some g)"
      using r(3) Inr by auto
    have fresh: "tbl s p0 = None" "tbl s p1 = None" "p0 \<noteq> p1" "0 \<le> p0" "0 \<le> p1"
      using fg by (auto simp: least_free_def split: if_splits)
    have c: "tbl s out = t STDOUT" "tbl s err = t STDERR" "t STDOUT \<noteq> None" "t STDERR \<noteq> None"
      using assms(2) by (auto simp: copies_def aside_def)
    have "tbl s STDOUT = t STDOUT" using assms(3) aside_streams [OF a] by (auto simp: exact_def)
    then have d: "{p0, p1} \<inter> {STDOUT, STDERR, out, err} = {}" using fresh c assms(4) by auto
    then have t: "t p0 = None" "t p1 = None" using assms(3) fresh by (auto simp: exact_def)
    have "tbl s (-1) = None" by (rule negative) simp
    moreover from this have "-1 \<noteq> out" "-1 \<noteq> err" using c by auto
    ultimately have neg: "t (-1) = None" using assms(3) by (simp add: exact_def)
    have ends: "pipe_ends t out err p0 p1 s1" using fresh d t fg(3) by (auto simp: pipe_ends_def)
    have cs: "copies t out err s1" using assms(2) d fg(3) by (auto simp: copies_def)
    have "exact t {p0, p1, STDERR, err, out} s1" using assms(3) fg(3) by (auto simp: exact_def)
    from shell_run_gives_back [OF assms(1) cs ends _ neg exact_owes [OF this]] fresh(5) r(1) Inr p
    show ?thesis by simp
  qed
qed

lemma open_and_run:
  assumes "0 < len" "copies t out err s" "exact t {STDERR, err, out} s" "tbl s STDERR = None" "tbl s 0 \<noteq> None"
  shows "gives_back t len (act_bind (act_run (so_open os ''/dev/null'')) (\<lambda>r. case r of
      Inl e \<Rightarrow> shell_leave (cleanup_stderr_close os out err) (- e) []
    | Inr _ \<Rightarrow> act_bind (act_run (so_pipe os)) (\<lambda>r. case r of
      Inl e \<Rightarrow> shell_leave (cleanup_stderr_close os out err) (- e) []
    | Inr (p0, p1) \<Rightarrow> shell_run os cmd len out err p0 p1)) s)"
proof -
  have a: "aside t out err" using assms(2) by (simp add: copies_def)
  note st = aside_streams [OF a]
  obtain r s1 where r: "run_state (so_open os ''/dev/null'') s = (r, s1)" "flt s1 = flt s"
      "case r of Inl e \<Rightarrow> 0 < e \<and> tbl s1 = tbl s
        | Inr n \<Rightarrow> \<exists>f. least_free (tbl s) n \<and> tbl s1 = (tbl s)(n := Some f)"
    using openf by blast
  show ?thesis
  proof (cases r)
    case (Inl e)
    then have e: "0 < e" "tbl s1 = tbl s" using r(3) by auto
    note same = same_table [OF e(2) equalityD2 [OF r(2)]]
    from stderr_close_settles [OF same(2) [OF assms(2)] same(1) [OF exact_owes [OF assms(3)]]] r(1) Inl
    show ?thesis using gives_back_leave [OF e(1)] by simp
  next
    case (Inr n)
    then obtain f where f: "least_free (tbl s) n" "tbl s1 = (tbl s)(n := Some f)" using r(3) by auto
    have "tbl s STDOUT \<noteq> None" using assms(2,3) st by (auto simp: exact_def copies_def aside_def)
    then have "n \<noteq> 0" "n \<noteq> STDOUT" "0 \<le> n" using assms(5) f(1) unfolding least_free_def by auto
    moreover have "\<not> STDERR < n" using assms(4) f(1) unfolding least_free_def by (metis zero_le_numeral)
    ultimately have n: "n = STDERR" by linarith
    have "copies t out err s1" "exact t {STDERR, err, out} s1" "tbl s1 STDERR \<noteq> None"
      using assms(2,3) f(2) n st by (auto simp: copies_def exact_def)
    from pipe_and_run [OF assms(1) this] r(1) Inr show ?thesis by simp
  qed
qed

lemma close_and_run:
  assumes "0 < len" "copies t out err s" "exact t {err, out} s" "tbl s 0 \<noteq> None" "0 \<notin> {out, err}"
  shows "gives_back t len (act_bind (act_run (so_close os STDERR)) (\<lambda>r. case r of
      Inl e \<Rightarrow> shell_leave (cleanup_stderr_dup os out err) (- e) []
    | Inr _ \<Rightarrow> act_bind (act_run (so_open os ''/dev/null'')) (\<lambda>r. case r of
      Inl e \<Rightarrow> shell_leave (cleanup_stderr_close os out err) (- e) []
    | Inr _ \<Rightarrow> act_bind (act_run (so_pipe os)) (\<lambda>r. case r of
      Inl e \<Rightarrow> shell_leave (cleanup_stderr_close os out err) (- e) []
    | Inr (p0, p1) \<Rightarrow> shell_run os cmd len out err p0 p1))) s)"
proof -
  have a: "aside t out err" using assms(2) by (simp add: copies_def)
  note st = aside_streams [OF a]
  have "tbl s STDERR \<noteq> None" using assms(3) a st by (auto simp: exact_def aside_def)
  from closes [OF this] obtain r s1 where r: "run_state (so_close os STDERR) s = (r, s1)" "only STDERR s s1"
    "case r of Inl e \<Rightarrow> 0 < e \<and> CloseFault STDERR \<in> flt s1 | Inr _ \<Rightarrow> flt s1 = flt s \<and> tbl s1 = (tbl s)(STDERR := None)"
    by blast
  have c: "copies t out err s1" using copies_only [OF assms(2) r(2)] st by blast
  have x: "exact t {STDERR, err, out} s1" "tbl s1 0 \<noteq> None"
    using r(2) assms(3,4) by (auto simp: only_def exact_def)
  show ?thesis
  proof (cases r)
    case (Inl e)
    have "owes t {err, out} s1"
      using x(1) r(3) Inl by (auto simp: exact_def owes_def excused_def)
    from stderr_dup_settles [OF c this] show ?thesis
      using r Inl gives_back_leave [of e] by simp
  next
    case (Inr u)
    then have "tbl s1 STDERR = None" using r(3) by simp
    from open_and_run [OF assms(1) c x(1) this x(2)] show ?thesis
      using r(1) Inr by simp
  qed
qed

lemma get_output_gives_back:
  assumes "tbl s 0 \<noteq> None" "tbl s STDOUT = Some f1" "tbl s STDERR = Some f2" "0 < len"
  shows "gives_back (tbl s) len (shell_get_output os cmd len s)"
proof -
  let ?t = "tbl s"
  obtain r1 s1 where s1: "run_state (so_dup os STDOUT) s = (r1, s1)" "flt s1 = flt s"
      "case r1 of Inl e \<Rightarrow> 0 < e \<and> tbl s1 = ?t | Inr n \<Rightarrow> least_free ?t n \<and> tbl s1 = ?t(n := Some f1)"
    using dup [OF assms(2)] by blast
  show ?thesis
  proof (cases r1)
    case (Inl e)
    then show ?thesis using s1 assms(4) by (auto simp: shell_get_output_def gives_back_def owes_def)
  next
    case out: (Inr out)
    then have o: "?t out = None" "tbl s1 = ?t(out := Some f1)" "out \<notin> {0, STDOUT, STDERR}"
      using s1(3) assms by (auto simp: least_free_def)
    have "tbl s1 STDERR = Some f2" using o assms(3) by simp
    from dup [OF this] obtain r2 s2 where s2: "run_state (so_dup os STDERR) s1 = (r2, s2)" "flt s2 = flt s1"
      "case r2 of Inl e \<Rightarrow> 0 < e \<and> tbl s2 = tbl s1 | Inr n \<Rightarrow> least_free (tbl s1) n \<and> tbl s2 = (tbl s1)(n := Some f2)"
      by blast
    show ?thesis
    proof (cases r2)
      case (Inl e)
      then have "owes ?t {} (snd (run_state (cleanup_stdout_dup os out) s2))"
        by (intro stdout_dup_settles exact_owes) (use o s2(3) in \<open>auto simp: exact_def\<close>)
      then show ?thesis using s1(1) s2 out assms(4) Inl gives_back_leave [of e]
        by (simp add: shell_get_output_def)
    next
      case err: (Inr err)
      then have e: "?t err = None" "err \<noteq> out" "tbl s2 = ?t(out := Some f1, err := Some f2)" "err \<notin> {0, STDOUT, STDERR}"
        using s2(3) assms o by (auto simp: least_free_def split: if_splits)
      have "copies ?t out err s2" "exact ?t {err, out} s2" "tbl s2 0 \<noteq> None" "0 \<notin> {out, err}"
        using e o assms by (auto simp: copies_def aside_def exact_def)
      from close_and_run [OF assms(4) this] s1(1) s2(1) out err assms(4) show ?thesis
        by (simp add: shell_get_output_def)
    qed
  qed
qed

end

section \<open>The documented table\<close>

text \<open>
  A table that hands out the first free entry of its 64, next to the output that the child
  has written, which is read in pieces of three bytes. Any call can fail: \<open>fd_errs\<close> has the
  \<open>errno\<close> of the coming ones, 0 where one succeeds. As Linux documents it, a failing \<open>close\<close> has
  freed the descriptor.
\<close>

record fds =
  fd_tab :: "int \<Rightarrow> nat option"
  fd_output :: "u8 list"
  fd_errs :: "int list"
  fd_flt :: "nat shell_fault set"

definition fd_get :: "fds \<Rightarrow> int \<Rightarrow> nat option" where
  "fd_get d fd = (if 0 \<le> fd then fd_tab d fd else None)"

definition fd_set :: "int \<Rightarrow> nat option \<Rightarrow> fds \<Rightarrow> fds" where
  "fd_set fd f d = d\<lparr>fd_tab := (fd_tab d)(fd := f)\<rparr>"

fun fd_free :: "fds \<Rightarrow> nat \<Rightarrow> int \<Rightarrow> int option" where
  "fd_free d 0 n = None"
| "fd_free d (Suc k) n = (if fd_get d n = None then Some n else fd_free d k (n + 1))"

definition fd_new :: "nat option \<Rightarrow> (fds, int + int) state" where
  "fd_new f = State (\<lambda>d. case fd_free d 64 0 of None \<Rightarrow> (Inl 24, d) | Some n \<Rightarrow> (Inr n, fd_set n f d))"

definition fd_call :: "(fds \<Rightarrow> fds) \<Rightarrow> (fds, int + 'a) state \<Rightarrow> (fds, int + 'a) state" where
  "fd_call g m = State (\<lambda>d. case fd_errs d of [] \<Rightarrow> run_state m d
     | e # es \<Rightarrow> if 0 < e then (Inl e, g (d\<lparr>fd_errs := es\<rparr>)) else run_state m (d\<lparr>fd_errs := es\<rparr>))"

definition fd_fault :: "nat shell_fault \<Rightarrow> fds \<Rightarrow> fds" where
  "fd_fault x d = d\<lparr>fd_flt := insert x (fd_flt d)\<rparr>"

definition table_os :: "fds shell_os" where
  "table_os = \<lparr>
     so_dup = (\<lambda>fd. fd_call id (State (\<lambda>d. run_state (fd_new (fd_get d fd)) d))),
     so_close = (\<lambda>fd. fd_call (\<lambda>d. fd_fault (CloseFault fd) (fd_set fd None d))
       (do { _ \<leftarrow> modify (fd_set fd None); ret (Inr ()) })),
     so_open = (\<lambda>path. fd_call id (fd_new (Some 0))),
     so_pipe = fd_call id (State (\<lambda>d. case run_state (fd_new (Some 100)) d of
       (Inl e, _) \<Rightarrow> (Inl e, d)
     | (Inr a, d1) \<Rightarrow> (case run_state (fd_new (Some 101)) d1 of
         (Inl e, _) \<Rightarrow> (Inl e, d)
       | (Inr b, d2) \<Rightarrow> (Inr (a, b), d2)))),
     so_dup2 = (\<lambda>a b. fd_call (\<lambda>d. fd_fault (DupFault b (the (fd_get d a))) d)
       (State (\<lambda>d. (Inr b, fd_set b (fd_get d a) d)))),
     so_system = (\<lambda>cmd. fd_call id (ret (Inr 0))),
     so_read = (\<lambda>fd n. fd_call id (State (\<lambda>d. (Inr (take (min 3 n) (fd_output d)),
       d\<lparr>fd_output := drop (min 3 n) (fd_output d)\<rparr>)))) \<rparr>"

lemma fd_free_least:
  assumes "fd_free d k n = Some m" "0 \<le> n" "\<forall>i. 0 \<le> i \<longrightarrow> i < n \<longrightarrow> fd_get d i \<noteq> None"
  shows "least_free (fd_get d) m"
  using assms
proof (induction d k n rule: fd_free.induct)
  case (2 d k n)
  show ?case
  proof (cases "fd_get d n = None")
    case False
    have "\<forall>i. 0 \<le> i \<longrightarrow> i < n + 1 \<longrightarrow> fd_get d i \<noteq> None"
    proof (intro allI impI)
      fix i assume "0 \<le> i" "i < n + 1"
      then show "fd_get d i \<noteq> None" using 2(4) False by (cases "i = n") auto
    qed
    then show ?thesis using 2(1-3) False by simp
  qed (use 2 in \<open>auto simp: least_free_def\<close>)
qed simp

lemma fd_get_set [simp]: "0 \<le> fd \<Longrightarrow> fd_get (fd_set fd f d) = (fd_get d)(fd := f)"
  by (auto simp: fd_get_def fd_set_def fun_eq_iff)

lemma fd_simps [simp]:
  "fd_get (d\<lparr>fd_output := bs\<rparr>) = fd_get d" "fd_get (d\<lparr>fd_errs := es\<rparr>) = fd_get d"
  "fd_get (fd_fault x d) = fd_get d" "fd_flt (fd_fault x d) = insert x (fd_flt d)"
  "fd_flt (fd_set fd f d) = fd_flt d"
  by (simp_all add: fd_get_def fd_fault_def fd_set_def fun_eq_iff)

text \<open>A call fails as told or does its work, in a state that has the same table.\<close>

lemma fd_call_cases:
  obtains e es where "run_state (fd_call g m) d = (Inl e, g (d\<lparr>fd_errs := es\<rparr>))" "0 < e"
  | d0 where "run_state (fd_call g m) d = run_state m d0" "fd_get d0 = fd_get d" "fd_flt d0 = fd_flt d"
proof (cases "fd_errs d")
  case Nil
  then show ?thesis using that(2) [of d] by (simp add: fd_call_def)
next
  case (Cons e es)
  then show ?thesis using that(1) [of e es] that(2) [of "d\<lparr>fd_errs := es\<rparr>"]
    by (cases "0 < e") (simp_all add: fd_call_def)
qed

lemma fd_new_run:
  "\<exists>r d'. run_state (fd_new f) d = (r, d') \<and> fd_flt d' = fd_flt d \<and> (case r of Inl e \<Rightarrow> 0 < e \<and> fd_get d' = fd_get d
    | Inr n \<Rightarrow> least_free (fd_get d) n \<and> fd_get d' = (fd_get d)(n := f))"
proof (cases "fd_free d 64 0")
  case (Some n)
  then have "least_free (fd_get d) n" by (rule fd_free_least) simp_all
  then show ?thesis using Some by (simp add: fd_new_def least_free_def)
qed (simp add: fd_new_def)

lemma table_dup:
  "fd_get s fd = Some f \<Longrightarrow> \<exists>r s'. run_state (so_dup table_os fd) s = (r, s') \<and> fd_flt s' = fd_flt s \<and>
    (case r of Inl e \<Rightarrow> 0 < e \<and> fd_get s' = fd_get s
     | Inr n \<Rightarrow> least_free (fd_get s) n \<and> fd_get s' = (fd_get s)(n := Some f))"
proof -
  assume f: "fd_get s fd = Some f"
  show ?thesis
  proof (cases rule: fd_call_cases [of id "State (\<lambda>d. run_state (fd_new (fd_get d fd)) d)" s])
    case (2 d0)
    then show ?thesis using fd_new_run [of "Some f" d0] f by (fastforce simp: table_os_def split: sum.splits)
  qed (simp add: table_os_def)
qed

lemma table_open:
  "\<exists>r s'. run_state (so_open table_os path) s = (r, s') \<and> fd_flt s' = fd_flt s \<and>
    (case r of Inl e \<Rightarrow> 0 < e \<and> fd_get s' = fd_get s
     | Inr n \<Rightarrow> \<exists>f. least_free (fd_get s) n \<and> fd_get s' = (fd_get s)(n := Some f))"
proof (cases rule: fd_call_cases [of id "fd_new (Some 0)" s])
  case (2 d0)
  then show ?thesis using fd_new_run [of "Some 0" d0] by (fastforce simp: table_os_def split: sum.splits)
qed (simp add: table_os_def)

lemma table_pipe:
  "\<exists>r s'. run_state (so_pipe table_os) s = (r, s') \<and> fd_flt s' = fd_flt s \<and>
    (case r of Inl e \<Rightarrow> 0 < e \<and> fd_get s' = fd_get s | Inr (p0, p1) \<Rightarrow> \<exists>f g. least_free (fd_get s) p0 \<and>
       least_free ((fd_get s)(p0 := Some f)) p1 \<and> fd_get s' = (fd_get s)(p0 := Some f, p1 := Some g))"
proof (cases rule: fd_call_cases [of id "State (\<lambda>d. case run_state (fd_new (Some 100)) d of
       (Inl e, _) \<Rightarrow> (Inl e, d)
     | (Inr a, d1) \<Rightarrow> (case run_state (fd_new (Some 101)) d1 of
         (Inl e, _) \<Rightarrow> (Inl e, d)
       | (Inr b, d2) \<Rightarrow> (Inr (a, b), d2)))" s])
  case (2 d0)
  obtain r1 d1 where r1: "run_state (fd_new (Some 100)) d0 = (r1, d1)" "fd_flt d1 = fd_flt d0"
      "case r1 of Inl e \<Rightarrow> 0 < e \<and> fd_get d1 = fd_get d0
        | Inr n \<Rightarrow> least_free (fd_get d0) n \<and> fd_get d1 = (fd_get d0)(n := Some 100)"
    using fd_new_run [of "Some 100" d0] by blast
  obtain r2 d2 where r2: "run_state (fd_new (Some 101)) d1 = (r2, d2)" "fd_flt d2 = fd_flt d1"
      "case r2 of Inl e \<Rightarrow> 0 < e \<and> fd_get d2 = fd_get d1
        | Inr n \<Rightarrow> least_free (fd_get d1) n \<and> fd_get d2 = (fd_get d1)(n := Some 101)"
    using fd_new_run [of "Some 101" d1] by blast
  show ?thesis
    by (cases r1; cases r2) (use 2 r1 r2 in \<open>auto simp: table_os_def\<close>)
qed (simp add: table_os_def)

lemma table_close:
  "fd_get s fd \<noteq> None \<Longrightarrow> \<exists>r s'. run_state (so_close table_os fd) s = (r, s') \<and>
    (case r of Inl e \<Rightarrow> 0 < e \<and> fd_flt s' = insert (CloseFault fd) (fd_flt s) \<and>
        fd_get s' \<in> {fd_get s, (fd_get s)(fd := None)}
     | Inr _ \<Rightarrow> fd_flt s' = fd_flt s \<and> fd_get s' = (fd_get s)(fd := None))"
proof -
  assume "fd_get s fd \<noteq> None"
  then have "0 \<le> fd" by (simp add: fd_get_def split: if_splits)
  then show ?thesis
    by (cases rule: fd_call_cases [of "\<lambda>d. fd_fault (CloseFault fd) (fd_set fd None d)"
          "do { _ \<leftarrow> modify (fd_set fd None); ret (Inr ()) }" s]) (simp_all add: table_os_def)
qed

lemma table_dup2:
  "fd_get s a = Some f \<Longrightarrow> 0 \<le> b \<Longrightarrow> \<exists>r s'. run_state (so_dup2 table_os a b) s = (r, s') \<and>
    (case r of Inl e \<Rightarrow> 0 < e \<and> fd_flt s' = insert (DupFault b f) (fd_flt s) \<and> fd_get s' = fd_get s
     | Inr n \<Rightarrow> n = b \<and> fd_flt s' = fd_flt s \<and> fd_get s' = (fd_get s)(b := Some f))"
  by (cases rule: fd_call_cases [of "\<lambda>d. fd_fault (DupFault b (the (fd_get d a))) d"
        "State (\<lambda>d. (Inr b, fd_set b (fd_get d a) d))" s]) (simp_all add: table_os_def)

interpretation fds: fd_table table_os fd_get fd_flt
proof (unfold_locales, goal_cases)
  case (1 fd s)
  then show ?case by (simp add: fd_get_def)
next
  case (2 s fd f)
  then show ?case by (rule table_dup)
next
  case (3 s fd)
  then show ?case by (rule table_close)
next
  case (4 path s)
  show ?case by (rule table_open)
next
  case (5 s)
  show ?case by (rule table_pipe)
next
  case (6 s a f b)
  then show ?case by (rule table_dup2)
next
  case (7 cmd s)
  show ?case
    by (cases rule: fd_call_cases [of id "ret (Inr (0 :: int))" s]) (simp_all add: table_os_def)
next
  case (8 fd n s)
  show ?case
    by (cases rule: fd_call_cases [of id "State (\<lambda>d. (Inr (take (min 3 n) (fd_output d)),
       d\<lparr>fd_output := drop (min 3 n) (fd_output d)\<rparr>))" s]) (simp_all add: table_os_def)
qed

section \<open>Properties\<close>

text \<open>
  Claim C19. Collecting the output of a command leaves the descriptors as they were. With the three
  standard streams open and a buffer that is not empty, \<open>shell_get_output\<close> returns, whichever
  of its calls fail, \<open>close\<close> and \<open>dup2\<close> too: each descriptor then refers to what it did before
  and no other is left open, except a descriptor whose own closing failed, and a standard stream
  for which putting its file back failed, or, for standard error, closing it at the
  start. Without such failures the table is the one at the start. Where the status is not
  negative the buffer holds a terminated string that fits.
\<close>

theorem shell_get_output_restores:
  assumes "fd_table os tbl flt" "tbl s 0 \<noteq> None" "tbl s 1 \<noteq> None" "tbl s 2 \<noteq> None" "0 < len"
  shows "\<exists>rc buf s'. shell_get_output os cmd len s = Some ((rc, buf), s') \<and>
    fds_restored (tbl s) (tbl s') (flt s') \<and> (flt s' = {} \<longrightarrow> tbl s' = tbl s) \<and>
    (rc < 0 \<or> length buf \<le> len \<and> last buf = 0)"
proof -
  obtain f1 f2 where f: "tbl s 1 = Some f1" "tbl s 2 = Some f2" using assms(3,4) by blast
  from fd_table.get_output_gives_back [OF assms(1,2) f assms(5), of cmd] show ?thesis
    unfolding fd_table.gives_back_def [OF assms(1)] fd_table.owes_def [OF assms(1)] fds_restored_def
    by fastforce
qed

text \<open>
  The pipe is not put in place of standard output (\<open>EBUSY\<close>): its ends and the copies are closed
  again.
\<close>

theorem shell_get_output_restores_witness:
  "\<exists>buf s'. shell_get_output table_os ''id'' 4 \<lparr>fd_tab = (\<lambda>fd. if fd < 3 then Some (nat fd) else None),
     fd_output = [0x75, 0x69, 0x64, 0x3d, 0x30], fd_errs = [0, 0, 0, 0, 0, 16], fd_flt = {}\<rparr> = Some ((-16, buf), s') \<and>
   fds_restored (fd_get \<lparr>fd_tab = (\<lambda>fd. if fd < 3 then Some (nat fd) else None),
     fd_output = [0x75, 0x69, 0x64, 0x3d, 0x30], fd_errs = [0, 0, 0, 0, 0, 16], fd_flt = {}\<rparr>) (fd_get s') (fd_flt s')"
proof -
  let ?s = "\<lparr>fd_tab = (\<lambda>fd. if fd < 3 then Some (nat fd) else None),
     fd_output = [0x75, 0x69, 0x64, 0x3d, 0x30], fd_errs = [0, 0, 0, 0, 0, 16], fd_flt = {}\<rparr>"
  obtain rc buf s' where r: "shell_get_output table_os ''id'' 4 ?s = Some ((rc, buf), s')"
      "fds_restored (fd_get ?s) (fd_get s') (fd_flt s')"
    using shell_get_output_restores [OF fds.fd_table_axioms, of ?s 4 "''id''"] by (auto simp: fd_get_def)
  moreover have "fst (fst (the (shell_get_output table_os ''id'' 4 ?s))) = -16" by code_simp
  ultimately show ?thesis by auto
qed

text \<open>
  Linux frees a descriptor even where \<open>close\<close> fails. Then the failure of the first closing leaves
  standard error closed: the label it goes to does not put the stream back.
\<close>

lemma shell_loses_stderr:
  "fd_get (snd (the (shell_get_output table_os ''id'' 4 \<lparr>fd_tab = (\<lambda>fd. if fd < 3 then Some (nat fd) else None),
     fd_output = [], fd_errs = [0, 0, 5], fd_flt = {}\<rparr>))) STDERR = None"
  by code_simp

end
