(* ===== verification/Lpc.thy ===== *)
theory Lpc
  imports Ilpc
begin

text \<open>
  The LPC ports of the host, \<^verbatim>\<open>src/lpc.h\<close>: the instructions of x86, \<^verbatim>\<open>src/arch/x86_64/lpc.c\<close>,
  the files of the kernel on POWER, \<^verbatim>\<open>src/arch/ppc64/lpc.c\<close>, and a host without either. Each is the
  interface of Sio, and with the SuperIO behind its files the one of POWER has its contract.
\<close>

section \<open>x86\<close>

text \<open>The instructions, with the delay of the variants that end in \<open>_p\<close> left out.\<close>

record 'h port_io =
  pi_iopl :: "nat \<Rightarrow> ('h, int) state"
  pi_inb :: "u16 \<Rightarrow> ('h, u8) state"
  pi_inw :: "u16 \<Rightarrow> ('h, u16) state"
  pi_inl :: "u16 \<Rightarrow> ('h, u32) state"
  pi_outb :: "u8 \<Rightarrow> u16 \<Rightarrow> ('h, unit) state"
  pi_outw :: "u16 \<Rightarrow> u16 \<Rightarrow> ('h, unit) state"
  pi_outl :: "u32 \<Rightarrow> u16 \<Rightarrow> ('h, unit) state"

definition x86_lpc_init :: "'h port_io \<Rightarrow> string \<Rightarrow> ('h, int) state" where
  "x86_lpc_init cpu space =
     (if space \<noteq> ''io'' then ret (- ENOTSUP)
      else do { rc \<leftarrow> pi_iopl cpu 3; (if rc < 0 then ret rc else ret 0) })"

definition x86_lpc_destroy :: "('h, int) state" where
  "x86_lpc_destroy = ret 0"

text \<open>The address is converted to the 16 bits of a port.\<close>

definition x86_lpc_readb :: "'h port_io \<Rightarrow> nat \<Rightarrow> ('h, int + u8) state" where
  "x86_lpc_readb cpu addr = do { v \<leftarrow> pi_inb cpu (of_nat addr); ret (Inr v) }"

definition x86_lpc_writeb :: "'h port_io \<Rightarrow> nat \<Rightarrow> u8 \<Rightarrow> ('h, int) state" where
  "x86_lpc_writeb cpu addr val = do { _ \<leftarrow> pi_outb cpu val (of_nat addr); ret 0 }"

definition x86_lpc_readw :: "'h port_io \<Rightarrow> nat \<Rightarrow> ('h, int + u16) state" where
  "x86_lpc_readw cpu addr = do { v \<leftarrow> pi_inw cpu (of_nat addr); ret (Inr v) }"

definition x86_lpc_writew :: "'h port_io \<Rightarrow> nat \<Rightarrow> u16 \<Rightarrow> ('h, int) state" where
  "x86_lpc_writew cpu addr val = do { _ \<leftarrow> pi_outw cpu val (of_nat addr); ret 0 }"

definition x86_lpc_readl :: "'h port_io \<Rightarrow> nat \<Rightarrow> ('h, int + u32) state" where
  "x86_lpc_readl cpu addr = do { v \<leftarrow> pi_inl cpu (of_nat addr); ret (Inr v) }"

definition x86_lpc_writel :: "'h port_io \<Rightarrow> nat \<Rightarrow> u32 \<Rightarrow> ('h, int) state" where
  "x86_lpc_writel cpu addr val = do { _ \<leftarrow> pi_outl cpu val (of_nat addr); ret 0 }"

definition x86_lpc_read :: "nat \<Rightarrow> nat \<Rightarrow> ('h, int + u8 list) state" where
  "x86_lpc_read addr size' = ret (Inl (- ENOTSUP))"

definition x86_lpc_write :: "nat \<Rightarrow> u8 list \<Rightarrow> ('h, int) state" where
  "x86_lpc_write addr val = ret (- ENOTSUP)"

definition x86_lpc_ops :: "'h port_io \<Rightarrow> 'h lpc_ops" where
  "x86_lpc_ops cpu = \<lparr>
     lpc_init = x86_lpc_init cpu, lpc_destroy = x86_lpc_destroy,
     lpc_readb = x86_lpc_readb cpu, lpc_writeb = x86_lpc_writeb cpu,
     lpc_read = x86_lpc_read, lpc_write = x86_lpc_write \<rparr>"

section \<open>POWER\<close>

text \<open>The calls on a file; \<open>Inl\<close> is \<open>errno\<close>. The descriptor is part of the handle.\<close>

record 'h file_calls =
  fc_open :: "string \<Rightarrow> ('h, int + int) state"
  fc_close :: "int \<Rightarrow> ('h, int + unit) state"
  fc_lseek :: "int \<Rightarrow> nat \<Rightarrow> ('h, int + unit) state"
  fc_read :: "int \<Rightarrow> nat \<Rightarrow> ('h, int + u8 list) state"
  fc_write :: "int \<Rightarrow> u8 list \<Rightarrow> ('h, int + nat) state"

record 'h lpc_file =
  lf_fd :: int
  lf_os :: 'h

definition on_file :: "(int \<Rightarrow> ('h, 'a) state) \<Rightarrow> ('h lpc_file, 'a) state" where
  "on_file m = State (\<lambda>f. let (r, h) = run_state (m (lf_fd f)) (lf_os f) in (r, f\<lparr>lf_os := h\<rparr>))"

lemma run_on_file [simp]:
  "run_state (on_file m) f =
    (fst (run_state (m (lf_fd f)) (lf_os f)), f\<lparr>lf_os := snd (run_state (m (lf_fd f)) (lf_os f))\<rparr>)"
  by (simp add: on_file_def split_def Let_def)

definition SYSFS_PREFIX :: string where "SYSFS_PREFIX = ''/sys/kernel/debug/powerpc/lpc''"

definition ppc_lpc_init :: "'h file_calls \<Rightarrow> string \<Rightarrow> ('h lpc_file, int) state" where
  "ppc_lpc_init os space = do {
     r \<leftarrow> on_file (\<lambda>_. fc_open os (SYSFS_PREFIX @ ''/'' @ space));
     (case r of
        Inl e \<Rightarrow> do { _ \<leftarrow> modify (\<lambda>f. f\<lparr>lf_fd := -1\<rparr>); ret (- e) }
      | Inr fd \<Rightarrow> do { _ \<leftarrow> modify (\<lambda>f. f\<lparr>lf_fd := fd\<rparr>); ret 0 }) }"

definition ppc_lpc_destroy :: "'h file_calls \<Rightarrow> ('h lpc_file, int) state" where
  "ppc_lpc_destroy os = do {
     r \<leftarrow> on_file (fc_close os);
     ret (case r of Inl e \<Rightarrow> - e | Inr _ \<Rightarrow> 0) }"

definition ppc_lpc_read :: "'h file_calls \<Rightarrow> nat \<Rightarrow> nat \<Rightarrow> ('h lpc_file, int + u8 list) state" where
  "ppc_lpc_read os addr size' = do {
     r \<leftarrow> on_file (\<lambda>fd. fc_lseek os fd addr);
     (case r of
        Inl e \<Rightarrow> ret (Inl (- e))
      | Inr _ \<Rightarrow> do {
          r \<leftarrow> on_file (\<lambda>fd. fc_read os fd size');
          ret (case r of Inl e \<Rightarrow> Inl (- e) | Inr bs \<Rightarrow> Inr bs) }) }"

definition ppc_lpc_write :: "'h file_calls \<Rightarrow> nat \<Rightarrow> u8 list \<Rightarrow> ('h lpc_file, int) state" where
  "ppc_lpc_write os addr val = do {
     r \<leftarrow> on_file (\<lambda>fd. fc_lseek os fd addr);
     (case r of
        Inl e \<Rightarrow> ret (- e)
      | Inr _ \<Rightarrow> do {
          r \<leftarrow> on_file (\<lambda>fd. fc_write os fd val);
          ret (case r of Inl e \<Rightarrow> - e | Inr n \<Rightarrow> int n) }) }"

text \<open>
  A value in the order of a host that is little endian. A short read leaves the rest of it as
  it was, \<open>junk\<close>.
\<close>

definition le_nat :: "u8 list \<Rightarrow> nat" where
  "le_nat bs = foldr (\<lambda>b n. unat b + 256 * n) bs 0"

definition nat_le :: "nat \<Rightarrow> nat \<Rightarrow> u8 list" where
  "nat_le size' n = map (\<lambda>i. of_nat (n div 256 ^ i)) [0..<size']"

text \<open>What is written is what is read back.\<close>

lemma le_nat_le: "le_nat (nat_le k n) = n mod 256 ^ k"
proof -
  have "le_nat (map (\<lambda>i. of_nat (n div 256 ^ i) :: u8) [j..<j + k]) = (n div 256 ^ j) mod 256 ^ k" for j
  proof (induction k arbitrary: j)
    case (Suc k)
    have "[j..<j + Suc k] = j # [Suc j..<Suc j + k]" by (simp add: upt_conv_Cons)
    then have "le_nat (map (\<lambda>i. of_nat (n div 256 ^ i) :: u8) [j..<j + Suc k]) =
        n div 256 ^ j mod 256 + 256 * (n div 256 ^ Suc j mod 256 ^ k)"
      using Suc.IH [of "Suc j"] by (simp add: le_nat_def unat_of_nat)
    also have "n div 256 ^ Suc j = n div 256 ^ j div 256" by (simp only: power_Suc2 div_mult2_eq)
    finally show ?case by (simp add: mod_mult2_eq)
  qed (simp add: le_nat_def)
  from this [of 0] show ?thesis by (simp add: nat_le_def)
qed

definition ppc_lpc_value :: "'h file_calls \<Rightarrow> u8 list \<Rightarrow> nat \<Rightarrow> nat \<Rightarrow> ('h lpc_file, int + nat) state" where
  "ppc_lpc_value os junk addr size' = do {
     r \<leftarrow> ppc_lpc_read os addr size';
     ret (case r of Inl rc \<Rightarrow> Inl rc | Inr bs \<Rightarrow> Inr (le_nat (take size' (bs @ drop (length bs) junk)))) }"

definition ppc_lpc_status :: "'h file_calls \<Rightarrow> nat \<Rightarrow> u8 list \<Rightarrow> ('h lpc_file, int) state" where
  "ppc_lpc_status os addr val = do {
     rc \<leftarrow> ppc_lpc_write os addr val;
     ret (if rc < 0 then rc else 0) }"

definition ppc_lpc_readb :: "'h file_calls \<Rightarrow> u8 list \<Rightarrow> nat \<Rightarrow> ('h lpc_file, int + u8) state" where
  "ppc_lpc_readb os junk addr = do {
     r \<leftarrow> ppc_lpc_value os junk addr 1; ret (map_sum (\<lambda>rc. rc) of_nat r) }"

definition ppc_lpc_writeb :: "'h file_calls \<Rightarrow> nat \<Rightarrow> u8 \<Rightarrow> ('h lpc_file, int) state" where
  "ppc_lpc_writeb os addr val = ppc_lpc_status os addr (nat_le 1 (unat val))"

definition ppc_lpc_readw :: "'h file_calls \<Rightarrow> u8 list \<Rightarrow> nat \<Rightarrow> ('h lpc_file, int + u16) state" where
  "ppc_lpc_readw os junk addr = do {
     r \<leftarrow> ppc_lpc_value os junk addr 2; ret (map_sum (\<lambda>rc. rc) of_nat r) }"

definition ppc_lpc_writew :: "'h file_calls \<Rightarrow> nat \<Rightarrow> u16 \<Rightarrow> ('h lpc_file, int) state" where
  "ppc_lpc_writew os addr val = ppc_lpc_status os addr (nat_le 2 (unat val))"

definition ppc_lpc_readl :: "'h file_calls \<Rightarrow> u8 list \<Rightarrow> nat \<Rightarrow> ('h lpc_file, int + u32) state" where
  "ppc_lpc_readl os junk addr = do {
     r \<leftarrow> ppc_lpc_value os junk addr 4; ret (map_sum (\<lambda>rc. rc) of_nat r) }"

definition ppc_lpc_writel :: "'h file_calls \<Rightarrow> nat \<Rightarrow> u32 \<Rightarrow> ('h lpc_file, int) state" where
  "ppc_lpc_writel os addr val = ppc_lpc_status os addr (nat_le 4 (unat val))"

definition ppc_lpc_ops :: "'h file_calls \<Rightarrow> u8 list \<Rightarrow> 'h lpc_file lpc_ops" where
  "ppc_lpc_ops os junk = \<lparr>
     lpc_init = ppc_lpc_init os, lpc_destroy = ppc_lpc_destroy os,
     lpc_readb = ppc_lpc_readb os junk, lpc_writeb = ppc_lpc_writeb os,
     lpc_read = ppc_lpc_read os, lpc_write = ppc_lpc_write os \<rparr>"

section \<open>Neither\<close>

definition no_lpc_ops :: "'h lpc_ops" where
  "no_lpc_ops = \<lparr>
     lpc_init = (\<lambda>space. ret (- ENOTSUP)), lpc_destroy = ret (- ENOTSUP),
     lpc_readb = (\<lambda>addr. ret (Inl (- ENOTSUP))), lpc_writeb = (\<lambda>addr val. ret (- ENOTSUP)),
     lpc_read = (\<lambda>addr size'. ret (Inl (- ENOTSUP))), lpc_write = (\<lambda>addr val. ret (- ENOTSUP)) \<rparr>"

section \<open>The SuperIO on both\<close>

text \<open>
  The instructions on the device: on x86 every port that has 16 bits is the device's, and the rest
  wrap around to one that has.
\<close>

definition superio_cpu :: "'t target \<Rightarrow> nat \<Rightarrow> 't superio port_io" where
  "superio_cpu tgt strap = \<lparr>
     pi_iopl = (\<lambda>n. ret 0),
     pi_inb = (\<lambda>p. State (port_read tgt strap (unat p))),
     pi_inw = (\<lambda>p. ret 0xffff), pi_inl = (\<lambda>p. ret 0xffffffff),
     pi_outb = (\<lambda>v p. State (\<lambda>d. ((), port_write tgt strap (unat p) v d))),
     pi_outw = (\<lambda>v p. ret ()), pi_outl = (\<lambda>v p. ret ()) \<rparr>"

lemma x86_superio:
  assumes "port < 2 ^ 16"
  shows "run_state (lpc_readb (x86_lpc_ops (superio_cpu tgt strap)) port) d =
      (Inr (fst (port_read tgt strap port d)), snd (port_read tgt strap port d))"
    and "run_state (lpc_writeb (x86_lpc_ops (superio_cpu tgt strap)) port v) d = (0, port_write tgt strap port v d)"
  using assms
  by (simp_all add: x86_lpc_ops_def x86_lpc_readb_def x86_lpc_writeb_def superio_cpu_def unat_of_nat)

text \<open>The file of the port space: the offset is the port, an access one of a byte.\<close>

definition superio_file :: "'t target \<Rightarrow> nat \<Rightarrow> ('t superio \<times> nat) file_calls" where
  "superio_file tgt strap = \<lparr>
     fc_open = (\<lambda>path. ret (Inr 3)), fc_close = (\<lambda>fd. ret (Inr ())),
     fc_lseek = (\<lambda>fd off. State (\<lambda>(d, _). (Inr (), d, off))),
     fc_read = (\<lambda>fd n. State (\<lambda>(d, off). let (v, d) = port_read tgt strap off d in (Inr [v], d, off + 1))),
     fc_write = (\<lambda>fd bs. State (\<lambda>(d, off). (Inr 1, port_write tgt strap off (hd bs) d, off + 1))) \<rparr>"

interpretation ppc: superio_ports "ppc_lpc_ops (superio_file tgt strap) junk" tgt strap "\<lambda>f. fst (lf_os f)"
  by unfold_locales
    (simp_all add: ppc_lpc_ops_def ppc_lpc_writeb_def ppc_lpc_status_def ppc_lpc_write_def ppc_lpc_readb_def
      ppc_lpc_value_def ppc_lpc_read_def superio_file_def split_def Let_def le_nat_def nat_le_def)

interpretation ppc_bridge: ahb_bridge "ilpcb_ops (ppc_lpc_ops (superio_file tgt strap) junk)"
    "\<lambda>s. sio_base s = strap" tgt "\<lambda>s. si_bus (fst (lf_os (sio_io s)))"
  by (rule ppc.bridge)

end
