(* ===== verification/Drivers.thy ===== *)
theory Drivers
  imports CcanList Pciectl Devmem Access
begin

text \<open>
  The life cycle of the drivers: the bridge controllers of \<^verbatim>\<open>src/soc/pciectl.c\<close>,
  \<^verbatim>\<open>src/soc/ilpcctl.c\<close> and \<^verbatim>\<open>src/soc/debugctl.c\<close>, which register themselves in a list of the
  SoC, and the probe and destruction of bridges on the host. The list is the one of CcanList, for
  the drivers put nodes of their own memory into it.
\<close>

section \<open>The list of controllers\<close>

definition controller_register :: "addr \<Rightarrow> addr \<Rightarrow> (heap, int) state" where
  "controller_register head node = do { _ \<leftarrow> modify (list_add head node); ret 0 }"

definition soc_bridge_controller_unregister :: "addr \<Rightarrow> (heap, unit) state" where
  "soc_bridge_controller_unregister node = modify (list_del node)"

text \<open>
  \<open>init\<close> functions give their status and the instance, if they set one: a status of 0 without an
  instance is possible. They start from what the allocation gave them, addresses and contents.
\<close>

section \<open>The PCIe device controller\<close>

text \<open>\<open>get\<close> finds the bridge gates of a node. The driver is only bound to nodes that match.\<close>

definition pciectl_driver_init ::
  "fdt \<Rightarrow> (int \<Rightarrow> bridges option) \<Rightarrow> sdmc option \<Rightarrow> addr \<Rightarrow> addr \<Rightarrow> addr \<Rightarrow> int \<Rightarrow>
   (heap, int \<times> pciectl option) state" where
  "pciectl_driver_init dt get sdmc head p2a_node xdma_node node =
     (case soc_device_get_memory dt node of
        Inl rc \<Rightarrow> ret (rc, None)
      | Inr scu \<Rightarrow>
     (case sdmc of
        None \<Rightarrow> ret (0, None)
      | Some sdmc \<Rightarrow>
          let pdata = the (soc_device_get_match_data dt pciectl_matches node);
              bridges = (if pdata = ast2600_pcie_pdata then bridges_get_by_device dt get node else None)
          in if pdata = ast2600_pcie_pdata \<and> bridges = None then ret (0, None)
             else do {
               rc \<leftarrow> controller_register head p2a_node;
               (if rc < 0 then ret (rc, None)
                else do {
                  rc \<leftarrow> controller_register head xdma_node;
                  ret (if rc < 0 then (rc, None)
                       else (0, Some \<lparr>pc_bridges = bridges, pc_node = node, pc_scu = scu, pc_pdata = pdata,
                              pc_sdmc = sdmc\<rparr>)) }) }))"

text \<open>The instance is freed afterwards, with both of its nodes.\<close>

definition pciectl_driver_destroy :: "addr \<Rightarrow> addr \<Rightarrow> (heap, unit) state" where
  "pciectl_driver_destroy p2a_node xdma_node = soc_bridge_controller_unregister p2a_node"

section \<open>The iLPC controller\<close>

text \<open>\<open>fresh\<close> is what the allocated memory holds, for the fields that one generation does not set.\<close>

definition ilpcctl_matches :: "(string \<times> bool) list" where
  "ilpcctl_matches = [(''aspeed,ast2400-ilpc-ahb-bridge'', False), (''aspeed,ast2500-ilpc-ahb-bridge'', False),
     (''aspeed,ast2600-ilpc-ahb-bridge'', True)]"

definition ilpcctl_driver_init ::
  "fdt \<Rightarrow> (int \<Rightarrow> bridges option) \<Rightarrow> ('s strap_ops \<times> sioctl_pdata) option \<Rightarrow> 's ilpcctl \<Rightarrow> addr \<Rightarrow> addr \<Rightarrow> int \<Rightarrow>
   (heap, int \<times> (bool \<times> 's ilpcctl) option) state" where
  "ilpcctl_driver_init dt get sioctl fresh head ctl_node node =
     (case soc_device_get_memory dt node of
        Inl rc \<Rightarrow> ret (rc, None)
      | Inr lpc \<Rightarrow>
     (case soc_device_get_match_data dt ilpcctl_matches node of
        None \<Rightarrow> ret (- EINVAL, None)
      | Some gated \<Rightarrow>
     (case sioctl of
        None \<Rightarrow> ret (0, None)
      | Some (strap, pdata) \<Rightarrow>
          let ctx = fresh\<lparr>il_lpc := lpc, il_strap := strap, il_pdata := pdata\<rparr>
          in case (if gated
                   then (case bridges_device_get_gate dt (Some get) node of
                           Inl rc \<Rightarrow> Inl rc
                         | Inr (b, gate) \<Rightarrow> Inr (ctx\<lparr>il_bridges := the b, il_gate := gate\<rparr>))
                   else Inr ctx) of
               Inl rc \<Rightarrow> ret (rc, None)
             | Inr ctx \<Rightarrow> do {
                 rc \<leftarrow> controller_register head ctl_node;
                 ret (if rc < 0 then (rc, None) else (0, Some (gated, ctx))) })))"

definition ilpcctl_driver_destroy :: "addr \<Rightarrow> (heap, unit) state" where
  "ilpcctl_driver_destroy ctl_node = soc_bridge_controller_unregister ctl_node"

section \<open>The debug UART controller\<close>

definition debugctl_matches :: "(string \<times> bool) list" where
  "debugctl_matches = [(''aspeed,ast2500-debug-ahb-bridge'', False), (''aspeed,ast2600-uart'', True)]"

definition debugctl_driver_init ::
  "fdt \<Rightarrow> (int \<Rightarrow> bridges option) \<Rightarrow> addr \<Rightarrow> addr \<Rightarrow> int \<Rightarrow> (heap, int \<times> (bool \<times> debugctl) option) state" where
  "debugctl_driver_init dt get head ctl_node node =
     (case soc_device_get_memory dt node of
        Inl rc \<Rightarrow> ret (rc, None)
      | Inr region \<Rightarrow>
     (case bridges_device_get_gate dt (Some get) node of
        Inl rc \<Rightarrow> ret (rc, None)
      | Inr (b, gate) \<Rightarrow>
     (case soc_device_get_match_data dt debugctl_matches node of
        None \<Rightarrow> ret (- EINVAL, None)
      | Some g6 \<Rightarrow> do {
          rc \<leftarrow> controller_register head ctl_node;
          ret (if rc < 0 then (rc, None)
               else (0, Some (g6, \<lparr>dc_region = region, dc_bridges = the b, dc_id = gate\<rparr>))) })))"

definition debugctl_driver_destroy :: "addr \<Rightarrow> (heap, unit) state" where
  "debugctl_driver_destroy ctl_node = soc_bridge_controller_unregister ctl_node"

section \<open>The controllers of a system\<close>

text \<open>\<open>soc_init_bridge_controllers\<close>: the device is looked up again, for the drivers of others may
  have been initialised meanwhile.\<close>

definition soc_init_bridge_controllers ::
  "(soc_driver \<Rightarrow> int \<Rightarrow> (('w, 'd) soc_state, int + 'd) state) \<Rightarrow> fdt \<Rightarrow> (('w, 'd) soc_state, unit) state" where
  "soc_init_bridge_controllers init dt = do {
     devs \<leftarrow> gets ss_devices;
     fold (\<lambda>dev m. do {
       _ \<leftarrow> m;
       (if fdt_node_check_compatible dt (dev_node dev) ''bridge-controller'' \<noteq> 0 then ret ()
        else do { _ \<leftarrow> soc_driver_get_drvdata_by_node init (dev_node dev); ret () }) }) devs (ret ()) }"

definition soc_destroy ::
  "(soc_driver \<Rightarrow> 'd \<Rightarrow> (('w, 'd) soc_state, unit) state) \<Rightarrow> (('w, 'd) soc_state, unit) state" where
  "soc_destroy destroy = soc_unbind_drivers destroy"

section \<open>Bridges on the host\<close>

text \<open>
  The probe of a bridge driver: the handle, or \<open>None\<close> after everything was given back. A failed
  assertion of the destruction does not return.
\<close>

definition bridge_driver_probe ::
  "('s, int + 'c) state \<Rightarrow> ('c \<Rightarrow> ('s, int) state) \<Rightarrow> ('c \<Rightarrow> ('s, int option) state) \<Rightarrow> ('s, 'c option) act" where
  "bridge_driver_probe init probe destroy =
     act_bind (act_run init) (\<lambda>r. case r of
       Inl rc \<Rightarrow> act_ret None
     | Inr c \<Rightarrow> act_bind (act_run (probe c)) (\<lambda>rc.
         if rc < 0
         then act_bind (act_run (destroy c)) (\<lambda>r. case r of None \<Rightarrow> act_stuck | Some _ \<Rightarrow> act_ret None)
         else act_ret (Some c)))"

definition bridge_driver_destroy :: "('c \<Rightarrow> ('s, int option) state) \<Rightarrow> 'c \<Rightarrow> ('s, unit) act" where
  "bridge_driver_destroy destroy c =
     act_bind (act_run (destroy c)) (\<lambda>r. case r of None \<Rightarrow> act_stuck | Some _ \<Rightarrow> act_ret ())"

definition p2ab_driver_probe ::
  "'s pci_os \<Rightarrow> (int \<Rightarrow> ('s, int) state) \<Rightarrow> ('s, int) state \<Rightarrow> ('s, int) state \<Rightarrow> ('s, int) state \<Rightarrow>
   ('s, int) state \<Rightarrow> ('s, int option) act" where
  "p2ab_driver_probe os map_bar unmap_bar start lock probe =
     bridge_driver_probe (p2ab_open os map_bar unmap_bar start AST_PCI_VID AST_PCI_DID_VGA)
       (\<lambda>_. probe) (p2ab_destroy os unmap_bar lock)"

definition p2ab_driver_destroy :: "'s pci_os \<Rightarrow> ('s, int) state \<Rightarrow> ('s, int) state \<Rightarrow> int \<Rightarrow> ('s, unit) act" where
  "p2ab_driver_destroy os unmap_bar lock fd = bridge_driver_destroy (p2ab_destroy os unmap_bar lock) fd"

text \<open>The calls that \<open>devmem_init\<close> makes: \<open>Inl\<close> is \<open>errno\<close>.\<close>

record 's devmem_calls =
  dv_page_size :: "('s, nat) state"
  dv_open :: "string \<Rightarrow> ('s, int + int) state"
  dv_mmap :: "int \<Rightarrow> nat \<Rightarrow> u32 \<Rightarrow> ('s, int + unit) state"
  dv_close :: "int \<Rightarrow> ('s, int) state"

definition devmem_init :: "'s devmem_calls \<Rightarrow> ('s, int + nat \<times> int) state" where
  "devmem_init os = do {
     pgsize \<leftarrow> dv_page_size os;
     r \<leftarrow> dv_open os ''/dev/mem'';
     (case r of
        Inl e \<Rightarrow> ret (Inl (- e))
      | Inr fd \<Rightarrow> do {
          m \<leftarrow> dv_mmap os fd (unat AST_SOC_IO_LEN) AST_SOC_IO;
          (case m of
             Inl e \<Rightarrow> do { _ \<leftarrow> dv_close os fd; ret (Inl (- e)) }
           | Inr _ \<Rightarrow> ret (Inr (pgsize, fd))) }) }"

definition devmem_driver_probe ::
  "'s devmem_calls \<Rightarrow> (nat \<times> int \<Rightarrow> ('s, int) state) \<Rightarrow> (nat \<times> int \<Rightarrow> ('s, int option) state) \<Rightarrow>
   ('s, (nat \<times> int) option) act" where
  "devmem_driver_probe os probe destroy = bridge_driver_probe (devmem_init os) probe destroy"

definition devmem_driver_destroy :: "(nat \<times> int \<Rightarrow> ('s, int option) state) \<Rightarrow> nat \<times> int \<Rightarrow> ('s, unit) act" where
  "devmem_driver_destroy destroy c = bridge_driver_destroy destroy c"

section \<open>Properties\<close>

lemma run_register: "run_state (controller_register h n) hp = (0, list_add h n hp)"
  by (simp add: controller_register_def)

lemma run_unregister: "run_state (soc_bridge_controller_unregister n) hp = ((), list_del n hp)"
  by (simp add: soc_bridge_controller_unregister_def)

lemma pciectl_driver_init_heap:
  "fst (run_state (pciectl_driver_init dt get sdmc h p2a xdma node) hp) = (0, Some ctx) \<Longrightarrow>
   snd (run_state (pciectl_driver_init dt get sdmc h p2a xdma node) hp) = list_add h xdma (list_add h p2a hp)"
  by (auto simp: pciectl_driver_init_def run_register Let_def split: sum.splits option.splits if_splits)

text \<open>
  Claim C20. A PCIe device controller that is destroyed leaves one of its two nodes behind: the
  initialisation put the nodes of the P2A and the XDMA bridge in front of the controllers
  already registered, the destruction takes out that of the P2A bridge only, and then frees the
  memory of both. So the list of the SoC goes through freed memory, and a controller that is
  unregistered next, as when the SoC is destroyed, is taken out by writing to it.
\<close>

theorem pciectl_destroy_dangles:
  assumes "list_at hp h (x # xs)" "distinct [p2a, xdma]" "{p2a, xdma} \<inter> set (h # x # xs) = {}"
    and "fst (run_state (pciectl_driver_init dt get sdmc h p2a xdma node) hp) = (0, Some ctx)"
    and "hp1 = snd (run_state (pciectl_driver_init dt get sdmc h p2a xdma node) hp)"
    and "hp2 = snd (run_state (pciectl_driver_destroy p2a xdma) hp1)"
    and "hp3 = snd (run_state (soc_bridge_controller_unregister x) hp2)"
  shows "list_at hp1 h (xdma # p2a # x # xs) \<and> list_at hp2 h (xdma # x # xs) \<and> hp3 xdma \<noteq> hp2 xdma"
proof -
  have "list_at (list_add h p2a hp) h (p2a # x # xs)"
    unfolding list_add_def using list_at_add [OF assms(1), of p2a] assms(3) by auto
  then have one: "list_at hp1 h (xdma # p2a # x # xs)"
    unfolding assms(5) pciectl_driver_init_heap [OF assms(4)] list_add_def
    using list_at_add [of "list_add h p2a hp" h "p2a # x # xs" xdma] assms(2,3) by (auto simp: list_add_def)
  have two: "list_at hp2 h (xdma # x # xs)"
    using list_del_at [of hp1 h "[xdma]" p2a "x # xs"] one
    by (simp add: assms(6) pciectl_driver_destroy_def run_unregister)
  then have "list_at hp3 h (xdma # xs)"
    using list_del_at [of hp2 h "[xdma]" x xs] by (simp add: assms(7) run_unregister)
  then have "ln_next (hp3 xdma) = hd (xs @ [h])" using chain_ends(1) [of hp3 xdma xs h] by (simp add: list_at_def)
  moreover have "ln_next (hp2 xdma) = x" "x \<noteq> hd (xs @ [h])" using two by (cases xs; auto simp: list_at_def)+
  ultimately show ?thesis using one two by auto
qed

text \<open>A blob with the controller of an AST2500 and its registers.\<close>

definition pcie_fdt :: fdt where
  "pcie_fdt = example_fdt\<lparr>
     fdt_node_check_compatible := (\<lambda>node c. if c = ''aspeed,ast2500-pcie-device-controller'' then 0 else 1),
     fdt_getprop_cells := (\<lambda>node name. Some ([0x1e6e2000, 0x1000], 8))\<rparr>"

theorem pciectl_destroy_dangles_witness:
  "list_at (list_del 0x130 (list_add 0x100 0x140 (list_add 0x100 0x130 example_heap))) 0x100
     [0x140, 0x110, 0x120]"
proof -
  let ?init = "run_state (pciectl_driver_init pcie_fdt (\<lambda>_. None) (Some (pc_sdmc pciectl2500)) 0x100 0x130 0x140 30)
    example_heap"
  have ok: "\<exists>ctx. fst ?init = (0, Some ctx)"
    by (simp add: pciectl_driver_init_def soc_device_get_memory_def soc_device_get_memory_index_def
        soc_device_resolve_node_def pcie_fdt_def example_fdt_def pciectl_matches_def run_register
        ast2500_pcie_pdata_def ast2600_pcie_pdata_def)
  then obtain ctx where ctx: "fst ?init = (0, Some ctx)" by blast
  have "distinct [0x130, 0x140 :: addr]" "{0x130, 0x140 :: addr} \<inter> set [0x100, 0x110, 0x120] = {}" by simp_all
  from pciectl_destroy_dangles [OF example_heap_lists(1) this ctx refl refl refl]
  show ?thesis
    by (simp add: pciectl_driver_init_heap [OF ctx] pciectl_driver_destroy_def run_unregister)
qed

end
