(* ===== verification/System.thy ===== *)
theory System
  imports Drivers Commands Jtag
begin

text \<open>
  The drivers of a system together: the \<open>_get\<close> functions that look an instance up and create it
  with the instances it needs, and the \<open>destroy\<close> functions that \<^verbatim>\<open>soc_destroy\<close> calls. The instance of
  the system control unit is shared and counted: \<^verbatim>\<open>src/soc/strap.c\<close>, \<^verbatim>\<open>src/soc/clk.c\<close> and
  \<^verbatim>\<open>src/soc/jtag.c\<close> take references to it. The property is that its protection is given back when
  the system is destroyed, unless a reference was kept.
\<close>

section \<open>Shared instances\<close>

text \<open>
  Next to the world, the memory of the SCU instance while it is allocated, and whether a reference to
  it was used after it was freed.
\<close>

record 'w shared =
  sh_world :: 'w
  sh_scu :: "scu option"
  sh_stray :: bool

text \<open>
  What a device keeps: \<open>i_scu\<close> is the pointer to the shared instance, which those of the straps and
  the clocks hold as well, with the node that gave their operations; a SuperIO decode control holds
  its straps, a watchdog its clocks.
\<close>

datatype inst =
    i_scu
  | i_strap int
  | i_sioctl soc_region sioctl_pdata inst
  | i_clk int
  | i_wdt soc_region inst
  | i_sdmc sdmc
  | i_otp otp
  | i_trace trace
  | i_mux uart_mux
  | i_vuart vuart
  | i_bridges soc_region "bridge_gate_desc list option"
  | i_jtag int

type_synonym 'w sys = "('w shared, inst) soc_state"

abbreviation sys_scu :: "'w sys \<Rightarrow> scu option" where
  "sys_scu s \<equiv> sh_scu (ss_world s)"

definition set_scu :: "scu option \<Rightarrow> 'w sys \<Rightarrow> 'w sys" where
  "set_scu m s = s\<lparr>ss_world := (ss_world s)\<lparr>sh_scu := m\<rparr>\<rparr>"

definition set_stray :: "'w sys \<Rightarrow> 'w sys" where
  "set_stray s = s\<lparr>ss_world := (ss_world s)\<lparr>sh_stray := True\<rparr>\<rparr>"

section \<open>The system control unit\<close>

definition scu_init :: "'w sys soc \<Rightarrow> soc_driver \<Rightarrow> int \<Rightarrow> ('w sys, int + inst) state" where
  "scu_init soc d node = do {
     r \<leftarrow> scu_driver_init soc node;
     (case r of
        Inl rc \<Rightarrow> ret (Inl rc)
      | Inr ctx \<Rightarrow> do { _ \<leftarrow> modify (set_scu (Some ctx)); ret (Inr i_scu) }) }"

definition soc_scu_get :: "'w sys soc \<Rightarrow> ('w sys, scu option) state" where
  "soc_scu_get soc = do {
     r \<leftarrow> soc_driver_get_drvdata (scu_init soc) ''scu'';
     (case r of
        None \<Rightarrow> ret None
      | Some _ \<Rightarrow> do {
          m \<leftarrow> gets sys_scu;
          (case m of
             None \<Rightarrow> do { _ \<leftarrow> modify set_stray; ret None }
           | Some ctx \<Rightarrow> do { _ \<leftarrow> modify (set_scu (Some (scu_get ctx))); ret (Some (scu_get ctx)) }) }) }"

definition soc_scu_put :: "'w sys soc \<Rightarrow> ('w sys, unit) state" where
  "soc_scu_put soc = do {
     m \<leftarrow> gets sys_scu;
     (case m of
        None \<Rightarrow> modify set_stray
      | Some ctx \<Rightarrow> do { r \<leftarrow> scu_put soc ctx; modify (set_scu r) }) }"

section \<open>The drivers that use it\<close>

definition strap_init :: "'w sys soc \<Rightarrow> soc_driver \<Rightarrow> int \<Rightarrow> ('w sys, int + inst) state" where
  "strap_init soc d node = do {
     scu \<leftarrow> soc_scu_get soc;
     ret (map_sum (\<lambda>rc. rc) (\<lambda>_. i_strap node) (strap_driver_init soc scu node)) }"

definition strap_get :: "'w sys soc \<Rightarrow> ('w sys, inst option) state" where
  "strap_get soc = soc_driver_get_drvdata (strap_init soc) ''strap''"

definition clk_init :: "'w sys soc \<Rightarrow> soc_driver \<Rightarrow> int \<Rightarrow> ('w sys, int + inst) state" where
  "clk_init soc d node = do {
     scu \<leftarrow> soc_scu_get soc;
     ret (map_sum (\<lambda>rc. rc) (\<lambda>_. i_clk node) (clk_driver_init soc scu node)) }"

definition clk_get :: "'w sys soc \<Rightarrow> ('w sys, inst option) state" where
  "clk_get soc = soc_driver_get_drvdata (clk_init soc) ''clk''"

text \<open>The reference that \<open>jtag_driver_init\<close> takes is never given back.\<close>

definition jtag_init :: "'w sys soc \<Rightarrow> soc_driver \<Rightarrow> int \<Rightarrow> ('w sys, int + inst) state" where
  "jtag_init soc d node =
     (case (soc_device_get_match_data (soc_fdt soc) (jtag_match soc) node,
            soc_device_get_memory (soc_fdt soc) node) of
        (None, _) \<Rightarrow> ret (Inl (- EINVAL))
      | (_, Inl rc) \<Rightarrow> ret (Inl rc)
      | _ \<Rightarrow> do {
          scu \<leftarrow> soc_scu_get soc;
          r \<leftarrow> jtag_driver_init soc scu node;
          ret (map_sum (\<lambda>rc. rc) (\<lambda>_. i_jtag node) r) })"

definition sioctl_init :: "'w sys soc \<Rightarrow> soc_driver \<Rightarrow> int \<Rightarrow> ('w sys, int + inst) state" where
  "sioctl_init soc d node =
     (case rbind (soc_device_get_memory (soc_fdt soc) node) (\<lambda>scu.
             case soc_device_get_match_data (soc_fdt soc) sioctl_matches node of
               None \<Rightarrow> Inl (- EINVAL) | Some pd \<Rightarrow> Inr (scu, pd)) of
        Inl rc \<Rightarrow> ret (Inl rc)
      | Inr (scu, pd) \<Rightarrow> do {
          st \<leftarrow> strap_get soc;
          ret (case st of None \<Rightarrow> Inl (- ENODEV) | Some i \<Rightarrow> Inr (i_sioctl scu pd i)) })"

definition sioctl_get :: "'w sys soc \<Rightarrow> ('w sys, inst option) state" where
  "sioctl_get soc = soc_driver_get_drvdata (sioctl_init soc) ''sioctl''"

definition wdt_init :: "'w sys soc \<Rightarrow> soc_driver \<Rightarrow> int \<Rightarrow> ('w sys, int + inst) state" where
  "wdt_init soc d node =
     (case soc_device_get_memory (soc_fdt soc) node of
        Inl rc \<Rightarrow> ret (Inl rc)
      | Inr io \<Rightarrow> do {
          ck \<leftarrow> clk_get soc;
          ret (case ck of None \<Rightarrow> Inl (- ENODEV) | Some i \<Rightarrow> Inr (i_wdt io i)) })"

definition wdt_get_by_name :: "'w sys soc \<Rightarrow> string \<Rightarrow> ('w sys, inst option) state" where
  "wdt_get_by_name soc name = soc_driver_get_drvdata_by_name (wdt_init soc) (soc_fdt soc) ''wdt'' name"

section \<open>The drivers on their own\<close>

text \<open>\<open>n\<close> is the size of the blob, which bounds the search for the node of the memory.\<close>

definition sdmc_init :: "nat \<Rightarrow> 'w sys soc \<Rightarrow> soc_driver \<Rightarrow> int \<Rightarrow> ('w sys, int + inst) state" where
  "sdmc_init n soc d node =
     ret (map_sum (\<lambda>rc. rc) i_sdmc (the (sdmc_driver_init (n + 1) (soc_fdt soc) node)))"

definition sdmc_get :: "nat \<Rightarrow> 'w sys soc \<Rightarrow> ('w sys, inst option) state" where
  "sdmc_get n soc = soc_driver_get_drvdata (sdmc_init n soc) ''sdmc''"

definition otp_init :: "'w sys soc \<Rightarrow> soc_driver \<Rightarrow> int \<Rightarrow> ('w sys, int + inst) state" where
  "otp_init soc d node = ret (map_sum (\<lambda>rc. rc) i_otp (otp_driver_init soc node))"

definition otp_get :: "'w sys soc \<Rightarrow> ('w sys, inst option) state" where
  "otp_get soc = soc_driver_get_drvdata (otp_init soc) ''otp''"

definition trace_init :: "'w sys soc \<Rightarrow> soc_driver \<Rightarrow> int \<Rightarrow> ('w sys, int + inst) state" where
  "trace_init soc d node = do { r \<leftarrow> trace_driver_init soc node; ret (map_sum (\<lambda>rc. rc) i_trace r) }"

definition trace_get :: "'w sys soc \<Rightarrow> ('w sys, inst option) state" where
  "trace_get soc = soc_driver_get_drvdata (trace_init soc) ''trace''"

definition mux_init :: "'w sys soc \<Rightarrow> soc_driver \<Rightarrow> int \<Rightarrow> ('w sys, int + inst) state" where
  "mux_init soc d node = do { r \<leftarrow> uart_mux_driver_init soc node; ret (map_sum (\<lambda>rc. rc) i_mux r) }"

definition uart_mux_get :: "'w sys soc \<Rightarrow> ('w sys, inst option) state" where
  "uart_mux_get soc = soc_driver_get_drvdata (mux_init soc) ''uart-mux''"

definition vuart_init :: "'w sys soc \<Rightarrow> soc_driver \<Rightarrow> int \<Rightarrow> ('w sys, int + inst) state" where
  "vuart_init soc d node = ret (map_sum (\<lambda>rc. rc) i_vuart (vuart_driver_init soc node))"

definition vuart_get_by_name :: "'w sys soc \<Rightarrow> string \<Rightarrow> ('w sys, inst option) state" where
  "vuart_get_by_name soc name =
     soc_driver_get_drvdata_by_name (vuart_init soc) (soc_fdt soc) ''vuart'' name"

definition bridges_init :: "'w sys soc \<Rightarrow> soc_driver \<Rightarrow> int \<Rightarrow> ('w sys, int + inst) state" where
  "bridges_init soc d node =
     ret (map_sum (\<lambda>rc. rc) (\<lambda>(scu, gates). i_bridges scu gates) (bridges_driver_init (soc_fdt soc) node))"

section \<open>Destruction\<close>

definition scu_driver_destroy :: "'w sys soc \<Rightarrow> ('w sys, unit) state" where
  "scu_driver_destroy soc = soc_scu_put soc"

definition strap_driver_destroy :: "'w sys soc \<Rightarrow> ('w sys, unit) state" where
  "strap_driver_destroy soc = soc_scu_put soc"

definition clk_driver_destroy :: "'w sys soc \<Rightarrow> ('w sys, unit) state" where
  "clk_driver_destroy soc = soc_scu_put soc"

text \<open>The others free their instance and do nothing else.\<close>

definition driver_destroy :: "'w sys soc \<Rightarrow> soc_driver \<Rightarrow> inst \<Rightarrow> ('w sys, unit) state" where
  "driver_destroy soc d i =
     (case i of
        i_scu \<Rightarrow> scu_driver_destroy soc
      | i_strap _ \<Rightarrow> strap_driver_destroy soc
      | i_clk _ \<Rightarrow> clk_driver_destroy soc
      | _ \<Rightarrow> ret ())"

definition system_destroy :: "'w sys soc \<Rightarrow> ('w sys, unit) state" where
  "system_destroy soc = soc_destroy (driver_destroy soc)"

text \<open>\<open>soc_probe\<close> as a whole: the system of the revision, with the drivers bound to its blob of \<open>n\<close> bytes.\<close>

definition system_probe ::
  "nat \<Rightarrow> (ast_generation \<Rightarrow> fdt) \<Rightarrow> soc_driver list \<Rightarrow> 'w sys ahb \<Rightarrow> ('w sys, int + 'w sys soc) state" where
  "system_probe n fdts drivers ahb = do {
     r \<leftarrow> soc_probe fdts ahb;
     (case r of
        Inl rc \<Rightarrow> ret (Inl rc)
      | Inr soc \<Rightarrow> do {
          _ \<leftarrow> modify (ss_devices_update (\<lambda>_. the (soc_bind_drivers (2 * n + 2) (soc_fdt soc) drivers [])));
          ret (Inr soc) }) }"

section \<open>What the commands ask for\<close>

definition strap_of :: "'w sys soc \<Rightarrow> scu option \<Rightarrow> inst \<Rightarrow> 'w sys strap_ops option" where
  "strap_of soc scu i =
     (case i of i_strap node \<Rightarrow> (case strap_driver_init soc scu node of Inl _ \<Rightarrow> None | Inr (_, st) \<Rightarrow> st) | _ \<Rightarrow> None)"

definition clk_of :: "'w sys soc \<Rightarrow> scu option \<Rightarrow> inst \<Rightarrow> 'w sys clk_ops option" where
  "clk_of soc scu i =
     (case i of i_clk node \<Rightarrow> (case clk_driver_init soc scu node of Inl _ \<Rightarrow> None | Inr (_, ck) \<Rightarrow> Some ck) | _ \<Rightarrow> None)"

definition wdt_of :: "'w sys soc \<Rightarrow> scu option \<Rightarrow> inst \<Rightarrow> (soc_region \<times> 'w sys clk_ops) option" where
  "wdt_of soc scu i = (case i of i_wdt io ck \<Rightarrow> map_option (Pair io) (clk_of soc scu ck) | _ \<Rightarrow> None)"

definition use_instance ::
  "(scu option \<Rightarrow> inst \<Rightarrow> 'a option) \<Rightarrow> ('w sys, inst option) state \<Rightarrow> ('w sys, 'a option) state" where
  "use_instance f m = do {
     r \<leftarrow> m;
     scu \<leftarrow> gets sys_scu;
     ret (Option.bind r (f scu)) }"

text \<open>The services of Commands over these instances; what they ask of the operating system is kept.\<close>

definition system_services :: "nat \<Rightarrow> 'w sys services \<Rightarrow> 'w sys services" where
  "system_services n sv = sv\<lparr>
     sv_clk := (\<lambda>soc. use_instance (clk_of soc) (clk_get soc)),
     sv_wdt := (\<lambda>soc name. use_instance (wdt_of soc) (wdt_get_by_name soc name)),
     sv_otp := (\<lambda>soc. use_instance (\<lambda>_ i. case i of i_otp x \<Rightarrow> Some x | _ \<Rightarrow> None) (otp_get soc)),
     sv_trace := (\<lambda>soc. use_instance (\<lambda>_ i. case i of i_trace x \<Rightarrow> Some x | _ \<Rightarrow> None) (trace_get soc)),
     sv_sdmc := (\<lambda>soc. use_instance (\<lambda>_ i. case i of i_sdmc x \<Rightarrow> Some x | _ \<Rightarrow> None) (sdmc_get n soc)),
     sv_scu := soc_scu_get,
     sv_scu_put := (\<lambda>soc _. soc_scu_put soc),
     sv_vuart := (\<lambda>soc. use_instance (\<lambda>_ i. case i of i_vuart x \<Rightarrow> Some x | _ \<Rightarrow> None) (vuart_get_by_name soc ''vuart'')),
     sv_mux := (\<lambda>soc. use_instance (\<lambda>_ i. case i of i_mux x \<Rightarrow> Some x | _ \<Rightarrow> None) (uart_mux_get soc))\<rparr>"

section \<open>Over a bridge\<close>

text \<open>The bridge acts on the world alone.\<close>

abbreviation world_of :: "'w sys \<Rightarrow> 'w" where
  "world_of s \<equiv> sh_world (ss_world s)"

definition set_world :: "'w \<Rightarrow> 'w sys \<Rightarrow> 'w sys" where
  "set_world w s = s\<lparr>ss_world := (ss_world s)\<lparr>sh_world := w\<rparr>\<rparr>"

definition on_world :: "('w, 'a) state \<Rightarrow> ('w sys, 'a) state" where
  "on_world m = zoom world_of set_world m"

definition world_soc :: "'w soc \<Rightarrow> 'w sys soc" where
  "world_soc soc = \<lparr>soc_rev = soc_rev soc, soc_fdt = soc_fdt soc, soc_ahb = \<lparr>
     ahb_drv = (let d = ahb_drv (soc_ahb soc) in \<lparr>drv_name = drv_name d,
       drv_release = map_option on_world (drv_release d), drv_reinit = map_option on_world (drv_reinit d),
       drv_path_required = drv_path_required d, drv_local = drv_local d, drv_disabled = drv_disabled d\<rparr>),
     ahb_ops = (let ops = ahb_ops (soc_ahb soc) in \<lparr>ops_read = (\<lambda>a n. on_world (ops_read ops a n)),
       ops_write = (\<lambda>a bs. on_world (ops_write ops a bs)), ops_readl = (\<lambda>a. on_world (ops_readl ops a)),
       ops_writel = (\<lambda>a v. on_world (ops_writel ops a v))\<rparr>)\<rparr>\<rparr>"

lemma sys_update_simps [simp]:
  "world_of (set_world w s) = w" "world_of (set_scu m s) = world_of s"
  "ss_devices (set_world w s) = ss_devices s" "ss_devices (set_scu m s) = ss_devices s"
  "sys_scu (set_world w s) = sys_scu s" "sys_scu (set_scu m s) = m"
  "sh_stray (ss_world (set_world w s)) = sh_stray (ss_world s)"
  "sh_stray (ss_world (set_scu m s)) = sh_stray (ss_world s)"
  by (simp_all add: set_world_def set_scu_def)

lemma world_soc_simps [simp]:
  "soc_fdt (world_soc soc) = soc_fdt soc"
  "run_state (soc_readl (world_soc soc) a) s =
     (fst (run_state (soc_readl soc a) (world_of s)), set_world (snd (run_state (soc_readl soc a) (world_of s))) s)"
  "run_state (soc_writel (world_soc soc) a v) s =
     (fst (run_state (soc_writel soc a v) (world_of s)), set_world (snd (run_state (soc_writel soc a v) (world_of s))) s)"
  by (simp_all add: world_soc_def soc_readl_def soc_writel_def ahb_readl_def ahb_writel_def on_world_def Let_def)

section \<open>References to the SCU\<close>

lemma map_sum_Inr_iff: "map_sum g f x = Inr y \<longleftrightarrow> (\<exists>z. x = Inr z \<and> y = f z)"
  by (cases x) auto

fun refs_of :: "inst option \<Rightarrow> int" where
  "refs_of (Some (i_strap _)) = 1"
| "refs_of (Some (i_clk _)) = 1"
| "refs_of _ = 0"

definition refs :: "inst soc_device list \<Rightarrow> int" where
  "refs devs = sum_list (map (\<lambda>dev. refs_of (dev_data dev)) devs)"

lemma refs_of_nonneg: "0 \<le> refs_of i"
  by (cases i rule: refs_of.cases) simp_all

lemma refs_nonneg: "0 \<le> refs devs"
  unfolding refs_def by (rule sum_list_nonneg) (auto simp: refs_of_nonneg)

lemma refs_set:
  assumes "distinct (map dev_node devs)" "dev \<in> set devs" "dev_data dev = None"
  shows "refs (set_drvdata (dev_node dev) i devs) = refs devs + refs_of (Some i)"
  using assms
proof (induction devs)
  case (Cons d devs)
  show ?case
  proof (cases "d = dev")
    case True
    have "dev_node x \<noteq> dev_node dev" if "x \<in> set devs" for x using Cons.prems(1) True that by (auto simp: image_iff)
    then have "set_drvdata (dev_node dev) i devs = devs"
      unfolding set_drvdata_def by (intro map_idI) simp
    then show ?thesis using True Cons.prems(3) by (simp add: set_drvdata_def refs_def)
  next
    case False
    then have "dev_node d \<noteq> dev_node dev" using Cons.prems(1,2) by auto
    then show ?thesis using Cons False by (simp add: set_drvdata_def refs_def)
  qed
qed simp

lemma run_fold_seq:
  "snd (run_state (fold (\<lambda>x m. do { _ \<leftarrow> m; f x }) xs m) s) = fold (\<lambda>x s. snd (run_state (f x) s)) xs (snd (run_state m s))"
  by (induction xs arbitrary: m) simp_all

text \<open>The references that destroying a device gives back.\<close>

definition puts :: "inst soc_device \<Rightarrow> int" where
  "puts dev = (if dev_data dev = Some i_scu then 1 else refs_of (dev_data dev))"

lemma sum_puts: "sum_list (map puts ds) = refs ds + int (length (filter (\<lambda>dev. dev_data dev = Some i_scu) ds))"
  by (induction ds) (auto simp: puts_def refs_def)

lemma one_node:
  "distinct (map f xs) \<Longrightarrow> x \<in> set xs \<Longrightarrow> length (filter (\<lambda>y. f y = f x) xs) = 1"
proof (induction xs)
  case (Cons a xs)
  have "filter (\<lambda>y. f y = f x) xs = []" if "f a = f x"
    using Cons.prems(1) that by (auto simp: filter_empty_conv image_iff)
  then show ?case using Cons by auto
qed simp

text \<open>
  What happens between the probe and the destruction of a system: lookups of drivers, anything that
  keeps the world as \<open>keep\<close> says, and references to the SCU that are taken and given back. \<open>n\<close> counts
  those still held.
\<close>

datatype lookup = lk_strap | lk_clk | lk_sioctl | lk_wdt string | lk_otp | lk_sdmc nat | lk_vuart string

fun look :: "'w sys soc \<Rightarrow> lookup \<Rightarrow> ('w sys, inst option) state" where
  "look soc lk_strap = strap_get soc"
| "look soc lk_clk = clk_get soc"
| "look soc lk_sioctl = sioctl_get soc"
| "look soc (lk_wdt name) = wdt_get_by_name soc name"
| "look soc lk_otp = otp_get soc"
| "look soc (lk_sdmc n) = sdmc_get n soc"
| "look soc (lk_vuart name) = vuart_get_by_name soc name"

inductive sys_run :: "('w \<Rightarrow> 'w \<Rightarrow> bool) \<Rightarrow> 'w sys soc \<Rightarrow> 'w sys \<Rightarrow> int \<Rightarrow> 'w sys \<Rightarrow> bool"
  for keep :: "'w \<Rightarrow> 'w \<Rightarrow> bool" and soc :: "'w sys soc" and s :: "'w sys" where
  sys_start: "sys_run keep soc s 0 s"
| sys_world: "sys_run keep soc s n t \<Longrightarrow> keep (world_of t) w \<Longrightarrow> sys_run keep soc s n (set_world w t)"
| sys_look: "sys_run keep soc s n t \<Longrightarrow> sys_run keep soc s n (snd (run_state (look soc l) t))"
| sys_get: "sys_run keep soc s n t \<Longrightarrow> sys_run keep soc s (n + 1) (snd (run_state (soc_scu_get soc) t))"
| sys_put: "sys_run keep soc s n t \<Longrightarrow> 0 < n \<Longrightarrow> sys_run keep soc s (n - 1) (snd (run_state (soc_scu_put soc) t))"

text \<open>
  A system whose devices \<open>devs\<close> were bound and not yet initialised, over a bus with the registers of
  an SCU at \<open>b\<close>. \<open>k\<close> is what its protection was.
\<close>

locale scu_system = soc_bus ops invar reg "scu_eff b" soc
  for ops :: "'w ahb_ops" and invar and reg and b and soc :: "'w soc" +
  fixes devs :: "inst soc_device list" and k :: u32
  assumes aligned: "word_aligned b"
    and known: "k \<in> {0, 1}"
    and scu_dev: "\<exists>dev\<in>set devs. sd_name (dev_driver dev) = ''scu''"
    and scu_mem: "\<forall>dev\<in>set devs. sd_name (dev_driver dev) = ''scu'' \<longrightarrow>
      (\<exists>rg. soc_device_get_memory (soc_fdt soc) (dev_node dev) = Inr rg \<and> rg_start rg = b)"
    and clk_data: "\<forall>dev\<in>set devs. sd_name (dev_driver dev) = ''clk'' \<longrightarrow> soc_device_get_match_data (soc_fdt soc)
      (clk_match :: (string \<times> ('w sys soc \<Rightarrow> scu \<Rightarrow> 'w sys clk_ops)) list) (dev_node dev) \<noteq> None"
    and nodes: "distinct (map dev_node devs)"
    and fresh: "\<forall>dev\<in>set devs. dev_data dev = None"
begin

definition scu_node :: int where
  "scu_node = dev_node (the (find (\<lambda>dev. sd_name (dev_driver dev) = ''scu'') devs))"

text \<open>The invariant, with \<open>n\<close> references that are not those of devices.\<close>

definition devs_ok :: "bool \<Rightarrow> inst soc_device list \<Rightarrow> bool" where
  "devs_ok alive ds \<longleftrightarrow> map dev_id ds = map dev_id devs \<and>
     (\<forall>dev\<in>set ds. dev_data dev = Some i_scu \<longleftrightarrow> dev_node dev = scu_node \<and> alive) \<and>
     (\<forall>dev\<in>set ds. dev_node dev = scu_node \<longrightarrow> dev_data dev \<in> {None, Some i_scu})"

definition sys_inv :: "int \<Rightarrow> 'w sys \<Rightarrow> bool" where
  "sys_inv n s \<longleftrightarrow> invar (world_of s) \<and> \<not> sh_stray (ss_world s) \<and> 0 \<le> n \<and>
     devs_ok (sys_scu s \<noteq> None) (ss_devices s) \<and>
     (case sys_scu s of
        None \<Rightarrow> n = 0 \<and> refs (ss_devices s) = 0 \<and> reg (world_of s) b = k
      | Some ctx \<Rightarrow> scu_refcnt ctx = 1 + refs (ss_devices s) + n \<and> scu_start ctx = b \<and>
          scu_was_locked ctx = (k = 0) \<and> reg (world_of s) b = 1)"

lemma inv_ids: "sys_inv n s \<Longrightarrow> map dev_id (ss_devices s) = map dev_id devs"
  by (simp add: sys_inv_def devs_ok_def)

lemma inv_member:
  assumes "sys_inv n s" "dev \<in> set (ss_devices s)"
  shows "\<exists>d\<in>set devs. dev_node d = dev_node dev \<and> dev_driver d = dev_driver dev"
proof -
  have "dev_id dev \<in> set (map dev_id (ss_devices s))" using assms(2) by simp
  then have "dev_id dev \<in> set (map dev_id devs)" unfolding inv_ids [OF assms(1)] .
  then show ?thesis by auto
qed

lemma inv_nodes: "sys_inv n s \<Longrightarrow> distinct (map dev_node (ss_devices s))"
proof -
  assume "sys_inv n s"
  then have "map fst (map dev_id (ss_devices s)) = map fst (map dev_id devs)" by (simp only: inv_ids)
  then have "map dev_node (ss_devices s) = map dev_node devs" by (simp add: comp_def)
  then show ?thesis using nodes by simp
qed

lemma inv_world:
  "sys_inv n s \<Longrightarrow> invar w \<Longrightarrow> reg w b = reg (world_of s) b \<Longrightarrow> sys_inv n (set_world w s)"
  by (simp add: sys_inv_def split: option.splits)

lemma scu_found:
  assumes "sys_inv n s"
  shows "\<exists>dev rg. find (\<lambda>dev. sd_name (dev_driver dev) = ''scu'') (ss_devices s) = Some dev \<and>
    dev \<in> set (ss_devices s) \<and> dev_node dev = scu_node \<and> sd_name (dev_driver dev) = ''scu'' \<and>
    soc_device_get_memory (soc_fdt soc) scu_node = Inr rg \<and> rg_start rg = b"
proof -
  obtain d where d: "find (\<lambda>dev. sd_name (dev_driver dev) = ''scu'') devs = Some d"
    using scu_dev by (cases "find (\<lambda>dev. sd_name (dev_driver dev) = ''scu'') devs") (auto simp: find_None_iff)
  have dn: "dev_node d = scu_node" "d \<in> set devs" "sd_name (dev_driver d) = ''scu''"
    using d by (simp add: scu_node_def) (use d in \<open>auto simp: find_Some_iff\<close>)
  have "find (\<lambda>x. sd_name (snd (dev_id x)) = ''scu'') devs = Some d" using d by simp
  from find_key [OF inv_ids [OF assms, symmetric] this] obtain y where
    y: "find (\<lambda>dev. sd_name (dev_driver dev) = ''scu'') (ss_devices s) = Some y" "dev_id y = dev_id d" by auto
  then have "y \<in> set (ss_devices s)" by (auto simp: find_Some_iff)
  then show ?thesis using y dn scu_mem by auto
qed

text \<open>What creating an instance may do to the devices: those of drivers other than \<open>N\<close> stay.\<close>

definition untouched :: "string set \<Rightarrow> 'w sys \<Rightarrow> 'w sys \<Rightarrow> bool" where
  "untouched N s s' \<longleftrightarrow> (\<forall>dev\<in>set (ss_devices s). sd_name (dev_driver dev) \<notin> N \<longrightarrow> dev \<in> set (ss_devices s'))"

lemma untouched_trans:
  "untouched N s s1 \<Longrightarrow> untouched M s1 s2 \<Longrightarrow> untouched (N \<union> M) s s2"
  by (auto simp: untouched_def)

lemma untouched_set:
  "sys_inv n s \<Longrightarrow> dev \<in> set (ss_devices s) \<Longrightarrow>
   untouched {sd_name (dev_driver dev)} s (s\<lparr>ss_devices := set_drvdata (dev_node dev) i (ss_devices s)\<rparr>)"
proof -
  assume "sys_inv n s" and dev: "dev \<in> set (ss_devices s)"
  have "distinct (map dev_node (ss_devices s))" using inv_nodes [OF \<open>sys_inv n s\<close>] .
  then have "d = dev" if "d \<in> set (ss_devices s)" "dev_node d = dev_node dev" for d
    using that dev by (auto simp: distinct_map inj_on_def)
  then show ?thesis by (force simp: untouched_def set_drvdata_def)
qed

text \<open>The SCU: the first lookup creates the instance and opens the SCU.\<close>

lemma scu_driver_init_run:
  assumes "sys_inv n s" "sys_scu s = None" "soc_device_get_memory (soc_fdt soc) node = Inr rg" "rg_start rg = b"
  shows "\<exists>w. run_state (scu_driver_init (world_soc soc) node) s =
      (Inr \<lparr>scu_refcnt = 1, scu_was_locked = (k = 0), scu_start = b\<rparr>, set_world w s) \<and>
    invar w \<and> reg w b = 1"
proof -
  have w: "invar (world_of s)" "reg (world_of s) b = k" using assms(1,2) by (simp_all add: sys_inv_def)
  let ?w = "snd (run_state (soc_readl soc b) (world_of s))"
  have r: "fst (run_state (soc_readl soc b) (world_of s)) = Inr k" "invar ?w" "reg ?w b = k"
    using w aligned by simp_all
  show ?thesis
  proof (cases "k = 0")
    case True
    then show ?thesis using r aligned assms(3,4)
      by (intro exI [of _ "snd (run_state (soc_writel soc b AST_SCU_PASSWORD) ?w)"])
        (simp add: scu_driver_init_def scu_is_locked_def scu_readl_def scu_writel_def scu_unlock_def
          AST_SCU_PROT_KEY_def scu_eff_def set_world_def)
  next
    case False
    then show ?thesis using r assms(3,4) known
      by (intro exI [of _ ?w])
        (simp add: scu_driver_init_def scu_is_locked_def scu_readl_def AST_SCU_PROT_KEY_def)
  qed
qed

lemma devs_ok_set:
  assumes "devs_ok (m \<noteq> None) ds" "dev \<in> set ds" "i = i_scu \<longleftrightarrow> dev_node dev = scu_node" "i = i_scu \<Longrightarrow> m' \<noteq> None"
    and "i \<noteq> i_scu \<Longrightarrow> m' = None \<longleftrightarrow> m = None"
  shows "devs_ok (m' \<noteq> None) (set_drvdata (dev_node dev) i ds)"
proof -
  have "map dev_id (set_drvdata (dev_node dev) i ds) = map dev_id ds" by (simp add: set_drvdata_def)
  then have ids: "map dev_id (set_drvdata (dev_node dev) i ds) = map dev_id devs"
    using assms(1) unfolding devs_ok_def by simp
  have "\<forall>d\<in>set (set_drvdata (dev_node dev) i ds). (dev_data d = Some i_scu \<longleftrightarrow> dev_node d = scu_node \<and> m' \<noteq> None) \<and>
      (dev_node d = scu_node \<longrightarrow> dev_data d \<in> {None, Some i_scu})"
    using assms unfolding devs_ok_def by (cases "i = i_scu") (auto simp: set_drvdata_def)
  then show ?thesis unfolding devs_ok_def using ids by blast
qed

lemma scu_get_inv:
  assumes "sys_inv n s"
  shows "fst (run_state (soc_scu_get (world_soc soc)) s) \<noteq> None \<and>
    sys_inv (n + 1) (snd (run_state (soc_scu_get (world_soc soc)) s)) \<and>
    untouched {''scu''} s (snd (run_state (soc_scu_get (world_soc soc)) s))"
proof -
  obtain dev rg where dev: "find (\<lambda>dev. sd_name (dev_driver dev) = ''scu'') (ss_devices s) = Some dev"
      "dev \<in> set (ss_devices s)" "dev_node dev = scu_node" "sd_name (dev_driver dev) = ''scu''"
    and rg: "soc_device_get_memory (soc_fdt soc) scu_node = Inr rg" "rg_start rg = b"
    using scu_found [OF assms] by auto
  have data: "dev_data dev = (if sys_scu s = None then None else Some i_scu)"
    using assms dev(2,3) by (auto simp: sys_inv_def devs_ok_def)
  show ?thesis
  proof (cases "sys_scu s")
    case (Some ctx)
    then have "run_state (soc_scu_get (world_soc soc)) s =
        (Some (scu_get ctx), set_scu (Some (scu_get ctx)) s)"
      using dev(1) data by (simp add: soc_scu_get_def soc_driver_get_drvdata_def soc_device_init_driver_def)
    then show ?thesis using assms Some by (simp add: sys_inv_def untouched_def scu_get_def)
  next
    case None
    let ?ctx = "\<lparr>scu_refcnt = 1, scu_was_locked = (k = 0), scu_start = b\<rparr>"
    obtain w where w: "run_state (scu_driver_init (world_soc soc) scu_node) s = (Inr ?ctx, set_world w s)"
        "invar w" "reg w b = 1"
      using scu_driver_init_run [OF assms None rg] by blast
    let ?s = "(set_scu (Some (scu_get ?ctx)) (set_world w s))
      \<lparr>ss_devices := set_drvdata (dev_node dev) i_scu (ss_devices s)\<rparr>"
    have run: "run_state (soc_scu_get (world_soc soc)) s = (Some (scu_get ?ctx), ?s)"
      using dev(1,3) data None w(1)
      by (simp add: soc_scu_get_def soc_driver_get_drvdata_def soc_device_init_driver_def scu_init_def
          set_scu_def set_world_def)
    have "refs (set_drvdata (dev_node dev) i_scu (ss_devices s)) = 0"
      using refs_set [OF inv_nodes [OF assms] dev(2)] data None assms by (simp add: sys_inv_def)
    moreover have "devs_ok True (set_drvdata (dev_node dev) i_scu (ss_devices s))"
      using devs_ok_set [of None "ss_devices s" dev i_scu "Some ?ctx"] assms dev(2,3) None
      by (simp add: sys_inv_def)
    ultimately have "sys_inv (n + 1) ?s"
      using assms None w(2,3) by (simp add: sys_inv_def scu_get_def)
    moreover have "untouched {''scu''} s ?s"
      using untouched_set [OF assms dev(2)] dev(4) by (simp add: untouched_def)
    ultimately show ?thesis by (simp add: run)
  qed
qed

lemma scu_put_inv:
  assumes "sys_inv n s" "0 < n"
  shows "sys_inv (n - 1) (snd (run_state (soc_scu_put (world_soc soc)) s))"
proof (cases "sys_scu s")
  case None
  then show ?thesis using assms by (simp add: sys_inv_def)
next
  case (Some ctx)
  then have c: "scu_refcnt ctx = 1 + refs (ss_devices s) + n" using assms by (simp add: sys_inv_def)
  have "scu_refcnt ctx - 1 \<noteq> 0" using c assms(2) refs_nonneg [of "ss_devices s"] by simp
  then show ?thesis using assms Some c
    by (simp add: soc_scu_put_def scu_put_def Let_def sys_inv_def)
qed

text \<open>
  The contract of the initialisation of a driver: it touches no device but those of the drivers it
  looks up, and the references it took are those its instance stands for.
\<close>

definition good_init :: "string \<Rightarrow> string set \<Rightarrow> (soc_driver \<Rightarrow> int \<Rightarrow> ('w sys, int + inst) state) \<Rightarrow> bool" where
  "good_init name N init \<longleftrightarrow> (\<forall>n s dev. sys_inv n s \<longrightarrow> dev \<in> set (ss_devices s) \<longrightarrow> sd_name (dev_driver dev) = name \<longrightarrow>
     untouched N s (snd (run_state (init (dev_driver dev) (dev_node dev)) s)) \<and>
     (case fst (run_state (init (dev_driver dev) (dev_node dev)) s) of
        Inl _ \<Rightarrow> sys_inv n (snd (run_state (init (dev_driver dev) (dev_node dev)) s))
      | Inr i \<Rightarrow> i \<noteq> i_scu \<and>
          sys_inv (n + refs_of (Some i)) (snd (run_state (init (dev_driver dev) (dev_node dev)) s))))"

definition keeps_refs :: "string set \<Rightarrow> ('w sys, 'a) state \<Rightarrow> bool" where
  "keeps_refs N m \<longleftrightarrow> (\<forall>n s. sys_inv n s \<longrightarrow> sys_inv n (snd (run_state m s)) \<and> untouched N s (snd (run_state m s)))"

lemma not_scu_node:
  assumes "sys_inv n s" "dev \<in> set (ss_devices s)" "sd_name (dev_driver dev) \<noteq> ''scu''"
  shows "dev_node dev \<noteq> scu_node"
proof -
  obtain d where d: "d \<in> set (ss_devices s)" "dev_node d = scu_node" "sd_name (dev_driver d) = ''scu''"
    using scu_found [OF assms(1)] by auto
  then show ?thesis
    using inv_nodes [OF assms(1)] assms(2,3) by (metis distinct_map inj_onD)
qed

lemma adopt_inv:
  assumes "sys_inv (n + refs_of (Some i)) s" "dev \<in> set (ss_devices s)" "dev_data dev = None" "0 \<le> n"
    and "i \<noteq> i_scu" "dev_node dev \<noteq> scu_node"
  shows "sys_inv n (s\<lparr>ss_devices := set_drvdata (dev_node dev) i (ss_devices s)\<rparr>)"
proof -
  let ?ds = "set_drvdata (dev_node dev) i (ss_devices s)"
  have "refs ?ds = refs (ss_devices s) + refs_of (Some i)"
    using refs_set [OF inv_nodes [OF assms(1)] assms(2,3)] .
  moreover have "devs_ok (sys_scu s \<noteq> None) ?ds"
    using devs_ok_set [of "sys_scu s" "ss_devices s" dev i "sys_scu s"] assms by (simp add: sys_inv_def)
  moreover have "refs (ss_devices s) = 0 \<and> refs_of (Some i) = 0 \<and> n = 0" if "sys_scu s = None"
    using assms(1,4) refs_of_nonneg [of "Some i"] that by (simp add: sys_inv_def)
  ultimately show ?thesis using assms(1,4) by (simp add: sys_inv_def split: option.splits)
qed

lemma init_keeps:
  assumes "good_init name N init" "name \<notin> N" "name \<noteq> ''scu''" "sys_inv n s"
    and "dev \<in> set (ss_devices s)" "sd_name (dev_driver dev) = name"
  shows "sys_inv n (snd (run_state (soc_device_init_driver init dev) s)) \<and>
    untouched (insert name N) s (snd (run_state (soc_device_init_driver init dev) s))"
proof (cases "dev_data dev")
  case (Some i)
  then show ?thesis using assms(4) by (simp add: soc_device_init_driver_def untouched_def)
next
  case None
  let ?r = "run_state (init (dev_driver dev) (dev_node dev)) s"
  have un: "untouched N s (snd ?r)"
    and r: "case fst ?r of Inl _ \<Rightarrow> sys_inv n (snd ?r)
      | Inr i \<Rightarrow> i \<noteq> i_scu \<and> sys_inv (n + refs_of (Some i)) (snd ?r)"
    using assms(1,4-6) by (simp_all add: good_init_def)
  show ?thesis
  proof (cases "fst ?r")
    case (Inl rc)
    then show ?thesis using None r un by (auto simp: soc_device_init_driver_def untouched_def)
  next
    case (Inr i)
    let ?s = "(snd ?r)\<lparr>ss_devices := set_drvdata (dev_node dev) i (ss_devices (snd ?r))\<rparr>"
    have i: "i \<noteq> i_scu" "sys_inv (n + refs_of (Some i)) (snd ?r)" using r Inr by simp_all
    have mem: "dev \<in> set (ss_devices (snd ?r))" using un assms(2,5,6) by (simp add: untouched_def)
    have "sys_inv n ?s"
      using adopt_inv [OF i(2) mem None _ i(1)] not_scu_node [OF assms(4,5)] assms(3,4,6)
      by (simp add: sys_inv_def)
    moreover have "untouched (insert name N) s ?s"
      using un untouched_set [OF i(2) mem, of i] assms(6) by (auto simp: untouched_def)
    ultimately show ?thesis using None Inr by (simp add: soc_device_init_driver_def)
  qed
qed

lemma lookup_keeps:
  assumes "good_init name N init" "name \<notin> N" "name \<noteq> ''scu''"
  shows "keeps_refs (insert name N) (soc_driver_get_drvdata init name)"
    and "keeps_refs (insert name N) (soc_driver_get_drvdata_by_name init dt name nm)"
proof -
  show "keeps_refs (insert name N) (soc_driver_get_drvdata init name)"
    using init_keeps [OF assms]
    by (auto simp: keeps_refs_def soc_driver_get_drvdata_def untouched_def find_Some_iff split: option.split)
  show "keeps_refs (insert name N) (soc_driver_get_drvdata_by_name init dt name nm)"
    using init_keeps [OF assms]
    by (auto simp: keeps_refs_def soc_driver_get_drvdata_by_name_def untouched_def find_Some_iff
        split: option.split sum.split)
qed

lemma keeps_refsD: "keeps_refs N m \<Longrightarrow> sys_inv n s \<Longrightarrow> sys_inv n (snd (run_state m s)) \<and> untouched N s (snd (run_state m s))"
  by (simp add: keeps_refs_def)

lemma strap_init_good: "good_init ''strap'' {''scu''} (strap_init (world_soc soc))"
  unfolding good_init_def
proof (intro allI impI)
  fix n s dev
  assume a: "sys_inv n s"
  obtain ctx where "fst (run_state (soc_scu_get (world_soc soc)) s) = Some ctx"
    using scu_get_inv [OF a] by blast
  then show "untouched {''scu''} s (snd (run_state (strap_init (world_soc soc) (dev_driver dev) (dev_node dev)) s)) \<and>
      (case fst (run_state (strap_init (world_soc soc) (dev_driver dev) (dev_node dev)) s) of
         Inl _ \<Rightarrow> sys_inv n (snd (run_state (strap_init (world_soc soc) (dev_driver dev) (dev_node dev)) s))
       | Inr i \<Rightarrow> i \<noteq> i_scu \<and>
           sys_inv (n + refs_of (Some i)) (snd (run_state (strap_init (world_soc soc) (dev_driver dev) (dev_node dev)) s)))"
    using scu_get_inv [OF a] by (simp add: strap_init_def strap_driver_init_def)
qed

lemma clk_init_good: "good_init ''clk'' {''scu''} (clk_init (world_soc soc))"
proof -
  have data: "\<exists>mk. soc_device_get_match_data (soc_fdt soc)
      (clk_match :: (string \<times> ('w sys soc \<Rightarrow> scu \<Rightarrow> 'w sys clk_ops)) list) (dev_node dev) = Some mk"
    if "sys_inv n s" "dev \<in> set (ss_devices s)" "sd_name (dev_driver dev) = ''clk''" for n s dev
    using inv_member [OF that(1,2)] that(3) clk_data by force
  show ?thesis
    unfolding good_init_def
  proof (intro allI impI)
    fix n s dev
    assume a: "sys_inv n s" "dev \<in> set (ss_devices s)" "sd_name (dev_driver dev) = ''clk''"
    obtain mk where "soc_device_get_match_data (soc_fdt soc)
      (clk_match :: (string \<times> ('w sys soc \<Rightarrow> scu \<Rightarrow> 'w sys clk_ops)) list) (dev_node dev) = Some mk"
      using data [OF a] by blast
    moreover obtain ctx where "fst (run_state (soc_scu_get (world_soc soc)) s) = Some ctx"
      using scu_get_inv [OF a(1)] by blast
    ultimately show "untouched {''scu''} s (snd (run_state (clk_init (world_soc soc) (dev_driver dev) (dev_node dev)) s)) \<and>
        (case fst (run_state (clk_init (world_soc soc) (dev_driver dev) (dev_node dev)) s) of
           Inl _ \<Rightarrow> sys_inv n (snd (run_state (clk_init (world_soc soc) (dev_driver dev) (dev_node dev)) s))
         | Inr i \<Rightarrow> i \<noteq> i_scu \<and>
             sys_inv (n + refs_of (Some i)) (snd (run_state (clk_init (world_soc soc) (dev_driver dev) (dev_node dev)) s)))"
      using scu_get_inv [OF a(1)] by (simp add: clk_init_def clk_driver_init_def)
  qed
qed

lemma leaf_good:
  assumes "\<And>x. f x \<noteq> i_scu" "\<And>x. refs_of (Some (f x)) = 0"
  shows "good_init name {} (\<lambda>d node. ret (map_sum (\<lambda>rc. rc) f (g node)))"
  using assms by (auto simp: good_init_def untouched_def map_sum_Inr_iff split: sum.split)

lemma strap_get_keeps: "keeps_refs {''strap'', ''scu''} (strap_get (world_soc soc))"
  and clk_get_keeps: "keeps_refs {''clk'', ''scu''} (clk_get (world_soc soc))"
  unfolding strap_get_def clk_get_def
  using lookup_keeps(1) [OF strap_init_good] lookup_keeps(1) [OF clk_init_good] by simp_all

lemma sioctl_init_good: "good_init ''sioctl'' {''strap'', ''scu''} (sioctl_init (world_soc soc))"
  using keeps_refsD [OF strap_get_keeps]
  by (auto simp: good_init_def sioctl_init_def untouched_def split: option.split sum.split)

lemma wdt_init_good: "good_init ''wdt'' {''clk'', ''scu''} (wdt_init (world_soc soc))"
  using keeps_refsD [OF clk_get_keeps]
  by (auto simp: good_init_def wdt_init_def untouched_def split: option.split sum.split)

lemma leaf_inits_good:
  "good_init ''otp'' {} (otp_init soc')" "good_init ''sdmc'' {} (sdmc_init sz soc')"
  "good_init ''vuart'' {} (vuart_init soc')"
  using leaf_good [of i_otp "''otp''" "otp_driver_init soc'"] leaf_good [of i_vuart "''vuart''" "vuart_driver_init soc'"]
    leaf_good [of i_sdmc "''sdmc''" "\<lambda>node. the (sdmc_driver_init (sz + 1) (soc_fdt soc') node)"]
  by (simp_all add: otp_init_def [abs_def] sdmc_init_def [abs_def] vuart_init_def [abs_def])

lemma look_keeps: "\<exists>N. keeps_refs N (look (world_soc soc) l)"
proof (cases l)
  case (lk_wdt name)
  then show ?thesis using lookup_keeps(2) [OF wdt_init_good] by (auto simp: wdt_get_by_name_def)
next
  case (lk_vuart name)
  then show ?thesis using lookup_keeps(2) [OF leaf_inits_good(3)] by (auto simp: vuart_get_by_name_def)
next
  case lk_sioctl
  then show ?thesis using lookup_keeps(1) [OF sioctl_init_good] by (auto simp: sioctl_get_def)
qed (use strap_get_keeps clk_get_keeps lookup_keeps(1) [OF leaf_inits_good(1)] lookup_keeps(1) [OF leaf_inits_good(2)]
    in \<open>auto simp: otp_get_def sdmc_get_def\<close>)

lemma run_inv:
  assumes "sys_run (\<lambda>w w'. invar w \<longrightarrow> invar w' \<and> reg w' b = reg w b) (world_soc soc) s n t" "sys_inv 0 s"
  shows "sys_inv n t"
  using assms
proof (induction rule: sys_run.induct)
  case (sys_world n t w)
  then show ?case using inv_world [of n t w] by (simp add: sys_inv_def)
next
  case (sys_look n t l)
  then show ?case using look_keeps [of l] keeps_refsD by blast
qed (use scu_get_inv scu_put_inv in auto)

text \<open>While the devices are destroyed: \<open>c\<close> references are left.\<close>

definition counted :: "int \<Rightarrow> 'w sys \<Rightarrow> bool" where
  "counted c s \<longleftrightarrow> invar (world_of s) \<and> \<not> sh_stray (ss_world s) \<and>
     (case sys_scu s of
        None \<Rightarrow> c = 0 \<and> reg (world_of s) b = k
      | Some ctx \<Rightarrow> 0 < c \<and> scu_refcnt ctx = c \<and> scu_start ctx = b \<and> scu_was_locked ctx = (k = 0) \<and>
          reg (world_of s) b = 1)"

lemma counted_put:
  assumes "counted c s" "0 < c"
  shows "counted (c - 1) (snd (run_state (soc_scu_put (world_soc soc)) s))"
proof -
  obtain ctx where ctx: "sys_scu s = Some ctx" "scu_refcnt ctx = c" "scu_start ctx = b" "scu_was_locked ctx = (k = 0)"
      "reg (world_of s) b = 1" "invar (world_of s)" "\<not> sh_stray (ss_world s)"
    using assms by (auto simp: counted_def split: option.splits)
  have "NOT AST_SCU_PASSWORD \<noteq> AST_SCU_PASSWORD" by (simp add: AST_SCU_PASSWORD_def)
  then show ?thesis using ctx assms(2) aligned known
    by (auto simp: counted_def soc_scu_put_def scu_put_def Let_def scu_lock_def scu_writel_def AST_SCU_PROT_KEY_def
        scu_eff_def)
qed

lemma counted_destroy:
  assumes "counted c s" "sum_list (map puts ds) \<le> c"
  shows "counted (c - sum_list (map puts ds)) (fold (\<lambda>dev s. snd (run_state (case dev_data dev of None \<Rightarrow> ret ()
      | Some d \<Rightarrow> driver_destroy (world_soc soc) (dev_driver dev) d) s)) ds s)"
  using assms
proof (induction ds arbitrary: c s)
  case (Cons dev ds)
  let ?s = "snd (run_state (case dev_data dev of None \<Rightarrow> ret ()
      | Some d \<Rightarrow> driver_destroy (world_soc soc) (dev_driver dev) d) s)"
  have "0 \<le> sum_list (map puts ds)" unfolding sum_puts using refs_nonneg [of ds] by simp
  then have "0 < c" if "puts dev = 1" using Cons.prems(2) that by simp
  then have "counted (c - puts dev) ?s"
    using Cons.prems(1) counted_put [OF Cons.prems(1)]
    by (cases "dev_data dev" rule: refs_of.cases)
      (simp_all add: puts_def driver_destroy_def scu_driver_destroy_def strap_driver_destroy_def
        clk_driver_destroy_def)
  then show ?case using Cons.IH [of "c - puts dev" ?s] Cons.prems(2) by (simp add: diff_diff_eq)
qed simp

lemma inv_counted:
  assumes "sys_inv n s"
  shows "counted (sum_list (map puts (ss_devices s)) + n) s"
proof -
  obtain dev where dev: "dev \<in> set (ss_devices s)" "dev_node dev = scu_node" using scu_found [OF assms] by auto
  have "filter (\<lambda>d. dev_data d = Some i_scu) (ss_devices s) =
      (if sys_scu s = None then [] else filter (\<lambda>d. dev_node d = dev_node dev) (ss_devices s))"
    using assms dev(2) by (auto simp: sys_inv_def devs_ok_def filter_empty_conv cong: filter_cong)
  then show ?thesis
    using assms one_node [OF inv_nodes [OF assms] dev(1)] refs_nonneg [of "ss_devices s"]
    by (auto simp: counted_def sum_puts sys_inv_def split: option.splits)
qed

lemma destroy_counted:
  assumes "sys_inv n s"
  shows "counted n (snd (run_state (system_destroy (world_soc soc)) s))"
    and "ss_devices (snd (run_state (system_destroy (world_soc soc)) s)) = []"
proof -
  let ?fold = "fold (\<lambda>dev s. snd (run_state (case dev_data dev of None \<Rightarrow> ret ()
      | Some d \<Rightarrow> driver_destroy (world_soc soc) (dev_driver dev) d) s)) (ss_devices s) s"
  have run: "snd (run_state (system_destroy (world_soc soc)) s) = ?fold\<lparr>ss_devices := []\<rparr>"
    by (simp add: system_destroy_def soc_destroy_def soc_unbind_drivers_def run_fold_seq)
  have "0 \<le> n" using assms by (simp add: sys_inv_def)
  then have "counted n ?fold" using counted_destroy [OF inv_counted [OF assms], of "ss_devices s"] by simp
  then show "counted n (snd (run_state (system_destroy (world_soc soc)) s))"
    unfolding run counted_def by (simp split: option.splits)
  show "ss_devices (snd (run_state (system_destroy (world_soc soc)) s)) = []"
    unfolding run by simp
qed

lemma start_inv:
  assumes "invar (world_of s)" "ss_devices s = devs" "sys_scu s = None" "\<not> sh_stray (ss_world s)"
    and "reg (world_of s) b = k"
  shows "sys_inv 0 s"
proof -
  have "refs devs = 0" using fresh unfolding refs_def by (induction devs) auto
  then show ?thesis using assms fresh by (simp add: sys_inv_def devs_ok_def)
qed

end

section \<open>An AST2500 behind the P2A bridge\<close>

definition system_fdt :: fdt where
  "system_fdt = example_fdt\<lparr>
     fdt_node_check_compatible := (\<lambda>node c. if node = 10 \<and> c = ''aspeed,ast2500-scu'' \<or>
       node = 20 \<and> c = ''aspeed,ast2500-clock'' \<or> node = 30 \<and> c = ''aspeed,ast2500-strapping'' then 0 else 1),
     fdt_getprop_cells := (\<lambda>node name. Some ([0x1e6e2000, 0x1000], 8))\<rparr>"

definition unbound :: "int \<Rightarrow> string \<Rightarrow> string list \<Rightarrow> inst soc_device" where
  "unbound node name ms = \<lparr>dev_node = node, dev_driver = \<lparr>sd_name = name, sd_matches = ms\<rparr>, dev_data = None\<rparr>"

definition system_devices :: "inst soc_device list" where
  "system_devices = [unbound 30 ''strap'' [''aspeed,ast2500-strapping''], unbound 20 ''clk'' [''aspeed,ast2500-clock''],
     unbound 10 ''scu'' [''aspeed,ast2500-scu'']]"

definition scu_soc :: "(u32 \<Rightarrow> u32) p2a_hw p2ab soc" where
  "scu_soc = p2a_soc 0x04030303 system_fdt (regfile (scu_eff 0x1e6e2000))"

interpretation p2a_scu: scu_system "p2ab_ahb_ops (p2a_mmio (regfile (scu_eff 0x1e6e2000))) 0" p2a_ok p2a_regs
    "0x1e6e2000" scu_soc system_devices 0
proof (rule scu_system.intro)
  show "soc_bus (p2ab_ahb_ops (p2a_mmio (regfile (scu_eff 0x1e6e2000))) 0) p2a_ok p2a_regs (scu_eff 0x1e6e2000) scu_soc"
    unfolding scu_soc_def by (rule p2a_soc.soc_bus_axioms)
  show "scu_system_axioms 0x1e6e2000 scu_soc system_devices 0"
    by unfold_locales
      (auto simp: system_devices_def unbound_def scu_soc_def system_fdt_def example_fdt_def clk_match_def
        soc_device_get_memory_def soc_device_get_memory_index_def soc_device_resolve_node_def)
qed

definition system_start :: "(u32 \<Rightarrow> u32) p2a_hw p2ab sys" where
  "system_start = \<lparr>ss_world = \<lparr>sh_world = p2a_start (\<lambda>_. 0), sh_scu = None, sh_stray = False\<rparr>,
     ss_devices = system_devices\<rparr>"

section \<open>Properties\<close>

text \<open>
  Claim C6. The protection of the SCU is given back. From a system whose drivers are bound and none
  initialised, whatever instances are looked up, in any order and any number of times, and whatever
  else is done that leaves the protection register alone, destroying the system destroys each
  instance, in whatever order they are in, uses no reference after it was freed, and when every
  reference a command took was returned frees the SCU and leaves the register as it was found; a
  reference that is kept, such as that of \<open>jtag_driver_init\<close>, leaves the SCU open.
\<close>

theorem scu_protection_given_back:
  assumes "scu_system ops invar reg b soc devs (reg (world_of s) b)"
    and "invar (world_of s)" "ss_devices s = devs" "sys_scu s = None" "\<not> sh_stray (ss_world s)"
    and "sys_run (\<lambda>w w'. invar w \<longrightarrow> invar w' \<and> reg w' b = reg w b) (world_soc soc) s n t"
    and "u = snd (run_state (system_destroy (world_soc soc)) t)"
  shows "ss_devices u = [] \<and> \<not> sh_stray (ss_world u) \<and>
    (if n = 0 then sys_scu u = None \<and> reg (world_of u) b = reg (world_of s) b
     else sys_scu u \<noteq> None \<and> reg (world_of u) b = 1)"
proof -
  have "scu_system.sys_inv invar reg b devs (reg (world_of s) b) n t"
    using scu_system.run_inv [OF assms(1,6)] scu_system.start_inv [OF assms(1-5) refl] by blast
  from scu_system.destroy_counted [OF assms(1) this] show ?thesis
    unfolding assms(7) [symmetric] scu_system.counted_def [OF assms(1)] by (auto split: option.splits)
qed

theorem scu_protection_given_back_witness:
  "let soc = world_soc scu_soc;
       t = snd (run_state (clk_get soc) (snd (run_state (strap_get soc) system_start)));
       u = snd (run_state (system_destroy soc) t)
   in sys_scu u = None \<and> p2a_regs (world_of u) 0x1e6e2000 = 0"
proof -
  let ?keep = "\<lambda>w w'. p2a_ok w \<longrightarrow> p2a_ok w' \<and> p2a_regs w' 0x1e6e2000 = p2a_regs w 0x1e6e2000"
  let ?t = "snd (run_state (clk_get (world_soc scu_soc)) (snd (run_state (strap_get (world_soc scu_soc)) system_start)))"
  have run: "sys_run ?keep (world_soc scu_soc) system_start 0 ?t"
    using sys_look [OF sys_look [OF sys_start, where l = lk_strap], where l = lk_clk] by simp
  have start: "p2a_ok (world_of system_start)" "ss_devices system_start = system_devices"
      "sys_scu system_start = None" "\<not> sh_stray (ss_world system_start)"
      "p2a_regs (world_of system_start) 0x1e6e2000 = 0"
    using p2a_start_inv [of "\<lambda>_. 0"] by (simp_all add: system_start_def)
  have sys: "scu_system (p2ab_ahb_ops (p2a_mmio (regfile (scu_eff 0x1e6e2000))) 0) p2a_ok p2a_regs 0x1e6e2000
      scu_soc system_devices (p2a_regs (world_of system_start) 0x1e6e2000)"
    using p2a_scu.scu_system_axioms unfolding start(5) .
  show ?thesis
    using scu_protection_given_back [OF sys start(1-4) run refl] start(5) by (simp add: Let_def)
qed

end
